(* ===== verification/Quink_Prelude.thy ===== *)
theory Quink_Prelude
  imports Complex_Main "HOL-Library.Word" "HOL-Library.AList"
begin

text \<open>
  Shared vocabulary of the development.

  \<^item> Python values: \<open>bytes\<close> is a list of 8-bit words, a \<open>str\<close> is represented by the
    octets of its UTF-8 encoding (so \<open>encode\<close> is a change of type and \<open>decode\<close> checks
    the encoding), an IEEE double that is only stored and transmitted is its 64-bit pattern,
    a clock reading or any float the code computes with is a \<open>real\<close>.
  \<^item> A \<open>dict\<close> is an insertion-ordered association list: \<open>AList.update\<close> overwrites in
    place or appends, as Python's item assignment does, \<open>AList.delete\<close> is \<open>del\<close>
    and \<open>map_of\<close> is \<open>get\<close>.
  \<^item> Exceptions are values of \<open>py_error\<close> in a sum type, the error on the left.
  \<^item> Big-endian and little-endian integers as the \<open>struct\<close> module writes them.
  \<^item> The two generic contracts every component uses: a state machine with an invariant
    and a decoder that inverts an encoder.
\<close>

named_theorems dict_simps \<open>facts about association lists as Python dictionaries\<close>
named_theorems codec_simps \<open>round-trip facts of the wire encodings\<close>

section \<open>Types\<close>

type_synonym byte = "8 word"
type_synonym bytes = "byte list"
type_synonym float64 = "64 word"
type_synonym ('k, 'v) pydict = "('k \<times> 'v) list"

datatype py_error =
    ValueError string
  | KeyError
  | IndexError
  | AttributeError
  | TypeError
  | StructError
  | UnicodeDecodeError
  | OSError
  | ZeroDivisionError
  | RuntimeError
  | OverflowError

type_synonym 'a result = "py_error + 'a"

abbreviation ok :: "'a \<Rightarrow> 'a result" where
  "ok \<equiv> Inr"

abbreviation raise :: "py_error \<Rightarrow> 'a result" where
  "raise \<equiv> Inl"

fun result_bind :: "'a result \<Rightarrow> ('a \<Rightarrow> 'b result) \<Rightarrow> 'b result" where
  "result_bind (Inl e) f = Inl e"
| "result_bind (Inr x) f = f x"

lemma result_bind_eq_ok:
  "result_bind r f = Inr y \<longleftrightarrow> (\<exists>x. r = Inr x \<and> f x = Inr y)"
  by (cases r) auto

lemma result_bind_cong [fundef_cong]:
  "r = r' \<Longrightarrow> (\<And>x. r' = Inr x \<Longrightarrow> f x = g x) \<Longrightarrow> result_bind r f = result_bind r' g"
  by (cases r') auto

text \<open>\<open>int(x)\<close> of a float truncates towards zero.\<close>

definition py_int :: "real \<Rightarrow> int" where
  "py_int x = (if 0 \<le> x then \<lfloor>x\<rfloor> else \<lceil>x\<rceil>)"

section \<open>Insertion-ordered dictionaries\<close>

abbreviation dict_wf :: "('k, 'v) pydict \<Rightarrow> bool" where
  "dict_wf d \<equiv> distinct (map fst d)"

abbreviation dict_has :: "('k, 'v) pydict \<Rightarrow> 'k \<Rightarrow> bool" where
  "dict_has d k \<equiv> map_of d k \<noteq> None"

definition dict_get :: "('k, 'v) pydict \<Rightarrow> 'k \<Rightarrow> 'v \<Rightarrow> 'v" where
  "dict_get d k dflt = (case map_of d k of None \<Rightarrow> dflt | Some v \<Rightarrow> v)"

declare AList.update_conv' [dict_simps] AList.delete_conv' [dict_simps]
  AList.distinct_update [dict_simps] AList.distinct_delete [dict_simps]

lemma dict_has_iff [dict_simps]: "map_of d k \<noteq> None \<longleftrightarrow> k \<in> fst ` set d"
  by (metis map_of_eq_None_iff)

lemma length_update [dict_simps]:
  "length (AList.update k v d) = (if map_of d k = None then Suc (length d) else length d)"
  by (induction d) auto

lemma set_update_subset: "set (AList.update k v d) \<subseteq> insert (k, v) (set d)"
  by (induction d) auto

lemma keys_update: "fst ` set (AList.update k v d) = insert k (fst ` set d)"
  by (induction d) auto

lemma set_delete_subset: "set (AList.delete k d) \<subseteq> set d"
  by (auto simp: AList.delete_eq)

lemma map_of_wf_iff: "dict_wf d \<Longrightarrow> map_of d k = Some v \<longleftrightarrow> (k, v) \<in> set d"
  by (auto dest: map_of_SomeD)

lemma update_absent: "map_of d k = None \<Longrightarrow> AList.update k v d = d @ [(k, v)]"
  by (induction d) (auto split: if_splits)

lemma length_filter_update [dict_simps]:
  "length (filter (\<lambda>(k, _). P k) (AList.update k v d)) =
     (if map_of d k = None \<and> P k then Suc (length (filter (\<lambda>(k, _). P k) d))
      else length (filter (\<lambda>(k, _). P k) d))"
  by (induction d) auto

lemma length_filter_delete:
  "length (filter P (AList.delete k d)) \<le> length (filter P d)"
  by (induction d) (auto simp: le_Suc_eq)

lemma length_filter_mono:
  "(\<And>x. x \<in> set xs \<Longrightarrow> P x \<Longrightarrow> Q x) \<Longrightarrow> length (filter P xs) \<le> length (filter Q xs)"
  by (induction xs) (auto intro: le_SucI)

lemma dict_wf_filter: "dict_wf d \<Longrightarrow> dict_wf (filter P d)"
  by (rule distinct_map_filter)

lemma length_delete:
  "dict_wf d \<Longrightarrow> map_of d k \<noteq> None \<Longrightarrow> Suc (length (AList.delete k d)) = length d"
  by (induction d) (auto split: if_splits simp: AList.delete_eq dict_has_iff rev_image_eqI
      intro!: arg_cong [where f = length] filter_True)

section \<open>Integers as the struct module writes them\<close>

text \<open>\<open>be_bytes k n\<close> is the \<open>k\<close>-octet big-endian form of \<open>n\<close>.\<close>

fun be_bytes :: "nat \<Rightarrow> nat \<Rightarrow> bytes" where
  "be_bytes 0 n = []"
| "be_bytes (Suc k) n = be_bytes k (n div 256) @ [of_nat n]"

definition be_nat :: "bytes \<Rightarrow> nat" where
  "be_nat bs = foldl (\<lambda>a b. a * 256 + unat b) 0 bs"

lemma length_be_bytes [simp]: "length (be_bytes k n) = k"
  by (induction k arbitrary: n) auto

lemma be_nat_snoc: "be_nat (bs @ [b]) = be_nat bs * 256 + unat b"
  by (simp add: be_nat_def)

lemma be_nat_be_bytes [codec_simps]: "n < 256 ^ k \<Longrightarrow> be_nat (be_bytes k n) = n"
proof (induction k arbitrary: n)
  case 0
  then show ?case by (simp add: be_nat_def)
next
  case (Suc k)
  then have "n div 256 < 256 ^ k"
    by (simp add: less_mult_imp_div_less mult.commute)
  with Suc.IH show ?case
    by (simp add: be_nat_snoc unat_of_nat)
qed

lemma be_nat_less: "be_nat bs < 256 ^ length bs"
proof (induction bs rule: rev_induct)
  case Nil
  then show ?case by (simp add: be_nat_def)
next
  case (snoc b bs)
  have "unat b < 256"
    using unsigned_less [of b, where 'a = nat] by simp
  with snoc show ?case
    by (simp add: be_nat_snoc)
qed

text \<open>\<open>struct.pack("!I", n)\<close> and \<open>struct.pack("!Q", n)\<close>: an integer outside the
  range raises \<open>struct.error\<close>.\<close>

definition pack_be :: "nat \<Rightarrow> int \<Rightarrow> bytes result" where
  "pack_be k n = (if 0 \<le> n \<and> n < 256 ^ k then ok (be_bytes k (nat n)) else raise StructError)"

definition pack_u32 :: "int \<Rightarrow> bytes result" where
  "pack_u32 n = pack_be 4 n"

definition unpack_u32 :: "bytes \<Rightarrow> int" where
  "unpack_u32 bs = int (be_nat bs)"

text \<open>\<open>struct.pack("!d", x)\<close>: the eight octets of the bit pattern.\<close>

definition pack_f64 :: "float64 \<Rightarrow> bytes" where
  "pack_f64 x = be_bytes 8 (unat x)"

lemma pack_be_length: "pack_be k n = ok bs \<Longrightarrow> length bs = k"
  by (auto simp: pack_be_def split: if_splits)

lemma pack_be_inj: "pack_be k m = ok bs \<Longrightarrow> pack_be k n = ok bs \<Longrightarrow> m = n"
proof -
  have dec: "int (be_nat bs) = m" if "pack_be k m = ok bs" for m
    using that by (auto simp: pack_be_def be_nat_be_bytes split: if_splits)
  show "pack_be k m = ok bs \<Longrightarrow> pack_be k n = ok bs \<Longrightarrow> m = n"
    using dec by blast
qed

lemma unpack_pack_u32 [codec_simps]: "pack_u32 n = ok bs \<Longrightarrow> unpack_u32 bs = n"
  by (auto simp: pack_u32_def pack_be_def unpack_u32_def be_nat_be_bytes split: if_splits)

lemma pack_f64_length [simp]: "length (pack_f64 x) = 8"
  by (simp add: pack_f64_def)

lemma pack_f64_inj: "pack_f64 x = pack_f64 y \<longleftrightarrow> x = y"
proof
  assume eq: "pack_f64 x = pack_f64 y"
  have "unat x < 256 ^ 8" "unat y < 256 ^ 8"
    using unsigned_less [of x, where 'a = nat] unsigned_less [of y, where 'a = nat] by simp_all
  with eq have "unat x = unat y"
    by (metis be_nat_be_bytes pack_f64_def)
  then show "x = y" by (rule unsigned_word_eqI)
qed simp

text \<open>Native-order \<open>struct.pack("I")\<close>: the byte order is the host's.\<close>

datatype endian = BigEndian | LittleEndian

fun native_order :: "endian \<Rightarrow> bytes \<Rightarrow> bytes" where
  "native_order BigEndian bs = bs"
| "native_order LittleEndian bs = rev bs"

lemma native_order_twice [simp]: "native_order e (native_order e bs) = bs"
  by (cases e) simp_all

lemma length_native_order [simp]: "length (native_order e bs) = length bs"
  by (cases e) simp_all

section \<open>Text: strings as UTF-8 octets\<close>

definition byte_of_char :: "char \<Rightarrow> byte" where
  "byte_of_char c = of_nat (of_char c)"

definition char_of_byte :: "byte \<Rightarrow> char" where
  "char_of_byte b = char_of (unat b)"

lemma char_of_byte_of_char [simp]: "char_of_byte (byte_of_char c) = c"
  by (simp add: char_of_byte_def byte_of_char_def unat_of_nat)

text \<open>\<open>s.encode("utf-8")\<close>.\<close>

definition encode :: "string \<Rightarrow> bytes" where
  "encode s = map byte_of_char s"

text \<open>The strict UTF-8 decoder's acceptance condition: no overlong form, no surrogate,
  nothing above U+10FFFF.\<close>

definition utf8_cont :: "byte \<Rightarrow> bool" where
  "utf8_cont b \<longleftrightarrow> 128 \<le> b \<and> b \<le> 191"

fun utf8_valid :: "bytes \<Rightarrow> bool" where
  "utf8_valid [] = True"
| "utf8_valid [a] = (a < 128)"
| "utf8_valid [a, b] =
     (if a < 128 then utf8_valid [b] else 194 \<le> a \<and> a \<le> 223 \<and> utf8_cont b)"
| "utf8_valid [a, b, c] =
     (if a < 128 then utf8_valid [b, c]
      else if a \<le> 223 then 194 \<le> a \<and> utf8_cont b \<and> utf8_valid [c]
      else a \<le> 239 \<and> utf8_cont b \<and> utf8_cont c
           \<and> (a = 224 \<longrightarrow> 160 \<le> b) \<and> (a = 237 \<longrightarrow> b \<le> 159))"
| "utf8_valid (a # b # c # d # rest) =
     (if a < 128 then utf8_valid (b # c # d # rest)
      else if a \<le> 223 then 194 \<le> a \<and> utf8_cont b \<and> utf8_valid (c # d # rest)
      else if a \<le> 239 then utf8_cont b \<and> utf8_cont c
           \<and> (a = 224 \<longrightarrow> 160 \<le> b) \<and> (a = 237 \<longrightarrow> b \<le> 159) \<and> utf8_valid (d # rest)
      else a \<le> 244 \<and> utf8_cont b \<and> utf8_cont c \<and> utf8_cont d
           \<and> (a = 240 \<longrightarrow> 144 \<le> b) \<and> (a = 244 \<longrightarrow> b \<le> 143) \<and> utf8_valid rest)"

text \<open>\<open>b.decode("utf-8")\<close>.\<close>

definition decode :: "bytes \<Rightarrow> string result" where
  "decode bs = (if utf8_valid bs then ok (map char_of_byte bs) else raise UnicodeDecodeError)"

text \<open>The values that are Python strings at all.\<close>

definition is_str :: "string \<Rightarrow> bool" where
  "is_str s \<longleftrightarrow> utf8_valid (encode s)"

lemma decode_encode [codec_simps]: "is_str s \<Longrightarrow> decode (encode s) = ok s"
  by (simp add: decode_def is_str_def encode_def comp_def)

lemma utf8_valid_ascii: "\<forall>b \<in> set bs. b < 128 \<Longrightarrow> utf8_valid bs"
  by (induction bs rule: utf8_valid.induct) simp_all

lemma is_str_ascii: "list_all (\<lambda>c. of_char c < (128 :: nat)) s \<Longrightarrow> is_str s"
  by (auto simp: is_str_def encode_def byte_of_char_def list_all_iff word_less_nat_alt unat_of_nat
      intro!: utf8_valid_ascii)

lemma length_encode [simp]: "length (encode s) = length s"
  by (simp add: encode_def)

lemma byte_of_char_inj: "byte_of_char c = byte_of_char d \<longleftrightarrow> c = d"
  by (metis char_of_byte_of_char)

lemma encode_inj [simp]: "encode s = encode t \<longleftrightarrow> s = t"
  unfolding encode_def by (simp add: inj_def byte_of_char_inj inj_map_eq_map)

lemma encode_eq_Nil [simp]: "encode s = [] \<longleftrightarrow> s = []"
  by (simp add: encode_def)

section \<open>Hexadecimal text\<close>

text \<open>\<open>bs.hex()\<close> and \<open>bytes.fromhex(s)\<close>; the latter skips ASCII whitespace between octets and
  raises \<open>ValueError\<close> on anything else that is not a pair of hex digits.\<close>

definition hex_digits :: string where
  "hex_digits = ''0123456789abcdef''"

fun hex_of_bytes :: "bytes \<Rightarrow> string" where
  "hex_of_bytes [] = []"
| "hex_of_bytes (b # bs) = hex_digits ! (unat b div 16) # hex_digits ! (unat b mod 16) # hex_of_bytes bs"

definition hex_value :: "char \<Rightarrow> nat option" where
  "hex_value c = (let n = of_char c :: nat in
     if 48 \<le> n \<and> n \<le> 57 then Some (n - 48)
     else if 97 \<le> n \<and> n \<le> 102 then Some (n - 87)
     else if 65 \<le> n \<and> n \<le> 70 then Some (n - 55) else None)"

definition is_space :: "char \<Rightarrow> bool" where
  "is_space c \<longleftrightarrow> (let n = of_char c :: nat in n = 32 \<or> 9 \<le> n \<and> n \<le> 13)"

fun fromhex :: "string \<Rightarrow> bytes result" where
  "fromhex [] = ok []"
| "fromhex [c] = (if is_space c then ok [] else raise (ValueError ''non-hexadecimal''))"
| "fromhex (c # d # cs) =
     (if is_space c then fromhex (d # cs)
      else case (hex_value c, hex_value d) of
        (Some h, Some l) \<Rightarrow> result_bind (fromhex cs) (\<lambda>bs. ok (of_nat (16 * h + l) # bs))
      | _ \<Rightarrow> raise (ValueError ''non-hexadecimal''))"

lemma hex_digit_cases:
  "n < 16 \<Longrightarrow> hex_value (hex_digits ! n) = Some n \<and> \<not> is_space (hex_digits ! n)"
proof -
  have "list_all (\<lambda>n. hex_value (hex_digits ! n) = Some n \<and> \<not> is_space (hex_digits ! n)) [0..<16]"
    by code_simp
  then show "n < 16 \<Longrightarrow> ?thesis" by (simp add: list_all_iff)
qed

lemma fromhex_hex [codec_simps]: "fromhex (hex_of_bytes bs) = ok bs"
proof (induction bs)
  case Nil
  then show ?case by simp
next
  case (Cons b bs)
  have "unat b div 16 < 16"
    using unsigned_less [of b, where 'a = nat] by simp
  then show ?case
    using Cons hex_digit_cases [of "unat b div 16"] hex_digit_cases [of "unat b mod 16"] by simp
qed

lemma hex_of_bytes_inj: "hex_of_bytes a = hex_of_bytes b \<longleftrightarrow> a = b"
  by (metis fromhex_hex sum.inject(2))

section \<open>Decimal text\<close>

text \<open>\<open>str(n)\<close> of an integer.\<close>

fun str_of_nat :: "nat \<Rightarrow> string" where
  "str_of_nat n = (if n < 10 then [char_of (48 + n)]
                   else str_of_nat (n div 10) @ [char_of (48 + n mod 10)])"

declare str_of_nat.simps [simp del]

definition str_of_int :: "int \<Rightarrow> string" where
  "str_of_int n = (if n < 0 then CHR ''-'' # str_of_nat (nat (- n)) else str_of_nat (nat n))"

section \<open>Contracts shared by the components\<close>

text \<open>A handler takes an event and returns the new state and the effects it caused;
  \<open>run\<close> feeds it a sequence of events.\<close>

fun run :: "('s \<Rightarrow> 'e \<Rightarrow> 's \<times> 'o list) \<Rightarrow> 's \<Rightarrow> 'e list \<Rightarrow> 's \<times> 'o list" where
  "run step s [] = (s, [])"
| "run step s (e # es) =
     (let (s', out) = step s e; (s'', out') = run step s' es in (s'', out @ out'))"

lemma run_Cons:
  "fst (run step s (e # es)) = fst (run step (fst (step s e)) es)"
  "snd (run step s (e # es)) = snd (step s e) @ snd (run step (fst (step s e)) es)"
  by (simp_all add: case_prod_beta)

lemma run_append:
  "run step s (es @ fs) =
     (let (s', out) = run step s es; (s'', out') = run step s' fs in (s'', out @ out'))"
  by (induction es arbitrary: s) (auto simp: case_prod_beta)

locale reactive =
  fixes step :: "'s \<Rightarrow> 'e \<Rightarrow> 's \<times> 'o list"
    and inv :: "'s \<Rightarrow> bool"
    and valid :: "'e \<Rightarrow> bool"
  assumes step_inv: "inv s \<Longrightarrow> valid e \<Longrightarrow> inv (fst (step s e))"
begin

lemma run_inv: "inv s \<Longrightarrow> list_all valid es \<Longrightarrow> inv (fst (run step s es))"
proof (induction es arbitrary: s)
  case Nil
  then show ?case by simp
next
  case (Cons e es)
  then have "inv (fst (run step (fst (step s e)) es))"
    by (simp add: step_inv)
  then show ?case by (simp add: case_prod_beta)
qed

lemma run_prefix_inv: "inv s \<Longrightarrow> list_all valid es \<Longrightarrow> es = fs @ gs \<Longrightarrow> inv (fst (run step s fs))"
  by (simp add: run_inv)

end

text \<open>A decoder that inverts an encoder on the valid values; the encoder is then injective
  and a whole batch of messages survives the wire.\<close>

fun result_map :: "('w \<Rightarrow> 'a result) \<Rightarrow> 'w list \<Rightarrow> 'a list result" where
  "result_map f [] = ok []"
| "result_map f (w # ws) = result_bind (f w) (\<lambda>x. result_bind (result_map f ws) (\<lambda>xs. ok (x # xs)))"

locale codec =
  fixes enc :: "'a \<Rightarrow> 'w" and dec :: "'w \<Rightarrow> 'a result" and valid :: "'a \<Rightarrow> bool"
  assumes dec_enc: "valid x \<Longrightarrow> dec (enc x) = ok x"
begin

lemma enc_inj: "valid x \<Longrightarrow> valid y \<Longrightarrow> enc x = enc y \<longleftrightarrow> x = y"
  by (metis dec_enc sum.inject(2))

lemma batch: "list_all valid xs \<Longrightarrow> result_map dec (map enc xs) = ok xs"
  by (induction xs) (auto simp: dec_enc)

end

end
