(* ===== verification/Wire.thy ===== *)
theory Wire
  imports Quink_Prelude
begin

text \<open>
  The IPv8 payload classes of \<open>network/gossip_community.py\<close> (message ids 1 to 10): their
  fields, \<open>format_list\<close>, \<open>to_pack_list\<close> and \<open>from_unpack_list\<close>. IPv8's own serializer
  is not part of the repository: it is the parameter \<open>serializer\<close>, of which it is only assumed that it reads back what
  it wrote. Every class interprets the \<open>codec\<close> contract of the prelude on the values of its pack list.
\<close>

section \<open>Formats and values\<close>

datatype fmt = VarlenH | VarlenI | FmtI | FmtD | FmtQ

datatype wire_val = WBytes bytes | WInt int | WFloat float64

type_synonym pack_list = "(fmt \<times> wire_val) list"

text \<open>The values of a pack list, without their formats.\<close>

definition pack_values :: "pack_list \<Rightarrow> wire_val list" where
  "pack_values pl = map snd pl"

text \<open>IPv8's serializer: it packs format/value pairs into octets, or raises when a value does not fit its format, and unpacks
  octets according to a list of formats. What the classes rely on is that it reads back what it wrote.\<close>

record serializer =
  sz_pack :: "pack_list \<Rightarrow> bytes result"
  sz_unpack :: "fmt list \<Rightarrow> bytes \<Rightarrow> wire_val list result"

definition reads_back :: "serializer \<Rightarrow> bool" where
  "reads_back z \<longleftrightarrow> (\<forall>pl bs. sz_pack z pl = ok bs \<longrightarrow> sz_unpack z (map fst pl) bs = ok (pack_values pl))"

text \<open>A payload on its way: packed by the sender, unpacked by the receiver with the formats of the class.\<close>

definition transmit :: "serializer \<Rightarrow> fmt list \<Rightarrow> pack_list \<Rightarrow> (wire_val list \<Rightarrow> 'a result) \<Rightarrow> 'a result" where
  "transmit z formats pl from_unpack_list =
     result_bind (sz_pack z pl) (\<lambda>bs. result_bind (sz_unpack z formats bs) from_unpack_list)"

definition packs :: "serializer \<Rightarrow> pack_list \<Rightarrow> bool" where
  "packs z pl \<longleftrightarrow> (case sz_pack z pl of Inl _ \<Rightarrow> False | Inr _ \<Rightarrow> True)"

lemma transmitted:
  "reads_back z \<Longrightarrow> packs z pl \<Longrightarrow> map fst pl = formats \<Longrightarrow> transmit z formats pl f = f (pack_values pl)"
  by (auto simp: reads_back_def packs_def transmit_def split: sum.splits)

text \<open>\<open>args[i].decode('utf-8')\<close>, and \<open>args[i]\<close> where the format says bytes, an integer
  or a double.\<close>

definition arg_str :: "wire_val list \<Rightarrow> nat \<Rightarrow> string result" where
  "arg_str args i = (if length args \<le> i then raise IndexError
     else case args ! i of WBytes b \<Rightarrow> decode b | _ \<Rightarrow> raise AttributeError)"

definition arg_bytes :: "wire_val list \<Rightarrow> nat \<Rightarrow> bytes result" where
  "arg_bytes args i = (if length args \<le> i then raise IndexError
     else case args ! i of WBytes b \<Rightarrow> ok b | _ \<Rightarrow> raise TypeError)"

definition arg_int :: "wire_val list \<Rightarrow> nat \<Rightarrow> int result" where
  "arg_int args i = (if length args \<le> i then raise IndexError
     else case args ! i of WInt n \<Rightarrow> ok n | _ \<Rightarrow> raise TypeError)"

definition arg_float :: "wire_val list \<Rightarrow> nat \<Rightarrow> float64 result" where
  "arg_float args i = (if length args \<le> i then raise IndexError
     else case args ! i of WFloat x \<Rightarrow> ok x | _ \<Rightarrow> raise TypeError)"

text \<open>\<open>args[i].decode('utf-8') if args[i] else ""\<close>, guarded by \<open>len(args) > i\<close>.\<close>

definition opt_str :: "wire_val list \<Rightarrow> nat \<Rightarrow> string result" where
  "opt_str args i = (if length args \<le> i then ok []
     else case args ! i of WBytes b \<Rightarrow> (if b = [] then ok [] else decode b)
       | _ \<Rightarrow> raise AttributeError)"

text \<open>\<open>args[i] if len(args) > i else b""\<close>.\<close>

definition opt_bytes :: "wire_val list \<Rightarrow> nat \<Rightarrow> bytes result" where
  "opt_bytes args i = (if length args \<le> i then ok [] else arg_bytes args i)"

text \<open>\<open>timestamp or int(time.time())\<close>.\<close>

definition timestamp_or_now :: "int \<Rightarrow> real \<Rightarrow> int" where
  "timestamp_or_now ts now = (if ts = 0 then py_int now else ts)"

named_theorems payload_defs \<open>definitions of the payload encoders and decoders\<close>

lemmas arg_defs = arg_str_def arg_bytes_def arg_int_def arg_float_def opt_str_def opt_bytes_def
  pack_values_def

declare arg_defs [payload_defs] timestamp_or_now_def [payload_defs]

section \<open>DiscoveryAnnouncePayload\<close>

record discovery_announce =
  da_node_id :: string
  da_domain :: string
  da_data_schema_hash :: string
  da_model_version :: string
  da_fingerprint_json :: string
  da_manifest_id :: string

definition discovery_announce_msg_id :: nat where
  "discovery_announce_msg_id = 1"

definition discovery_announce_format_list :: "fmt list" where
  "discovery_announce_format_list = [VarlenH, VarlenH, VarlenH, VarlenH, VarlenH, VarlenH]"

definition discovery_announce_to_pack_list :: "discovery_announce \<Rightarrow> pack_list" where
  "discovery_announce_to_pack_list p =
     [(VarlenH, WBytes (encode (da_node_id p))),
      (VarlenH, WBytes (encode (da_domain p))),
      (VarlenH, WBytes (encode (da_data_schema_hash p))),
      (VarlenH, WBytes (encode (da_model_version p))),
      (VarlenH, WBytes (encode (da_fingerprint_json p))),
      (VarlenH, WBytes (encode (da_manifest_id p)))]"

definition discovery_announce_from_unpack_list :: "wire_val list \<Rightarrow> discovery_announce result" where
  "discovery_announce_from_unpack_list args =
     result_bind (opt_str args 4) (\<lambda>fingerprint_json.
     result_bind (opt_str args 5) (\<lambda>manifest_id.
     result_bind (arg_str args 0) (\<lambda>node_id.
     result_bind (arg_str args 1) (\<lambda>domain.
     result_bind (arg_str args 2) (\<lambda>data_schema_hash.
     result_bind (arg_str args 3) (\<lambda>model_version.
       ok \<lparr>da_node_id = node_id,
         da_domain = domain,
         da_data_schema_hash = data_schema_hash,
         da_model_version = model_version,
         da_fingerprint_json = fingerprint_json,
         da_manifest_id = manifest_id\<rparr>))))))"

definition discovery_announce_valid :: "discovery_announce \<Rightarrow> bool" where
  "discovery_announce_valid p \<longleftrightarrow>
     is_str (da_node_id p) \<and> is_str (da_domain p) \<and> is_str (da_data_schema_hash p) \<and> is_str (da_model_version p) \<and> is_str (da_fingerprint_json p) \<and> is_str (da_manifest_id p)"

lemmas discovery_announce_defs = discovery_announce_to_pack_list_def discovery_announce_from_unpack_list_def
  discovery_announce_valid_def discovery_announce_format_list_def

interpretation da: codec
  "\<lambda>p. pack_values (discovery_announce_to_pack_list p)"
  discovery_announce_from_unpack_list discovery_announce_valid
  by unfold_locales (simp add: discovery_announce_defs payload_defs codec_simps)

lemma discovery_announce_formats: "map fst (discovery_announce_to_pack_list p) = discovery_announce_format_list"
  by (simp add: discovery_announce_defs)

section \<open>ModelUpdatePayload\<close>

record model_update =
  mu_sender_id :: string
  mu_weights_bytes :: bytes
  mu_sample_count :: int
  mu_round_number :: int
  mu_data_schema_hash :: string
  mu_loss :: float64
  mu_accuracy :: float64
  mu_timestamp :: int
  mu_signature :: bytes

definition model_update_msg_id :: nat where
  "model_update_msg_id = 2"

definition model_update_format_list :: "fmt list" where
  "model_update_format_list = [VarlenH, VarlenI, FmtI, FmtI, VarlenH, FmtD, FmtD, FmtI, VarlenH]"

definition model_update_to_pack_list :: "model_update \<Rightarrow> pack_list" where
  "model_update_to_pack_list p =
     [(VarlenH, WBytes (encode (mu_sender_id p))),
      (VarlenI, WBytes (mu_weights_bytes p)),
      (FmtI, WInt (mu_sample_count p)),
      (FmtI, WInt (mu_round_number p)),
      (VarlenH, WBytes (encode (mu_data_schema_hash p))),
      (FmtD, WFloat (mu_loss p)),
      (FmtD, WFloat (mu_accuracy p)),
      (FmtI, WInt (mu_timestamp p)),
      (VarlenH, WBytes (mu_signature p))]"

definition model_update_from_unpack_list :: "real \<Rightarrow> wire_val list \<Rightarrow> model_update result" where
  "model_update_from_unpack_list now args =
     result_bind (arg_str args 0) (\<lambda>sender_id.
     result_bind (arg_bytes args 1) (\<lambda>weights_bytes.
     result_bind (arg_int args 2) (\<lambda>sample_count.
     result_bind (arg_int args 3) (\<lambda>round_number.
     result_bind (arg_str args 4) (\<lambda>data_schema_hash.
     result_bind (arg_float args 5) (\<lambda>loss.
     result_bind (arg_float args 6) (\<lambda>accuracy.
     result_bind (arg_int args 7) (\<lambda>timestamp.
     result_bind (opt_bytes args 8) (\<lambda>signature.
       ok \<lparr>mu_sender_id = sender_id,
         mu_weights_bytes = weights_bytes,
         mu_sample_count = sample_count,
         mu_round_number = round_number,
         mu_data_schema_hash = data_schema_hash,
         mu_loss = loss,
         mu_accuracy = accuracy,
         mu_timestamp = timestamp_or_now timestamp now,
         mu_signature = signature\<rparr>)))))))))"

definition model_update_valid :: "model_update \<Rightarrow> bool" where
  "model_update_valid p \<longleftrightarrow>
     is_str (mu_sender_id p) \<and> is_str (mu_data_schema_hash p) \<and> mu_timestamp p \<noteq> 0"

lemmas model_update_defs = model_update_to_pack_list_def model_update_from_unpack_list_def
  model_update_valid_def model_update_format_list_def

interpretation mu: codec
  "\<lambda>p. pack_values (model_update_to_pack_list p)"
  "model_update_from_unpack_list now" model_update_valid for now :: real
  by unfold_locales (simp add: model_update_defs payload_defs codec_simps)

lemma model_update_formats: "map fst (model_update_to_pack_list p) = model_update_format_list"
  by (simp add: model_update_defs)

section \<open>HeartbeatPayload\<close>

record heartbeat =
  hb_node_id :: string
  hb_sequence :: int

definition heartbeat_msg_id :: nat where
  "heartbeat_msg_id = 3"

definition heartbeat_format_list :: "fmt list" where
  "heartbeat_format_list = [VarlenH, FmtI]"

definition heartbeat_to_pack_list :: "heartbeat \<Rightarrow> pack_list" where
  "heartbeat_to_pack_list p =
     [(VarlenH, WBytes (encode (hb_node_id p))),
      (FmtI, WInt (hb_sequence p))]"

definition heartbeat_from_unpack_list :: "wire_val list \<Rightarrow> heartbeat result" where
  "heartbeat_from_unpack_list args =
     result_bind (arg_str args 0) (\<lambda>node_id.
     result_bind (arg_int args 1) (\<lambda>sequence.
       ok \<lparr>hb_node_id = node_id,
         hb_sequence = sequence\<rparr>))"

definition heartbeat_valid :: "heartbeat \<Rightarrow> bool" where
  "heartbeat_valid p \<longleftrightarrow>
     is_str (hb_node_id p)"

lemmas heartbeat_defs = heartbeat_to_pack_list_def heartbeat_from_unpack_list_def
  heartbeat_valid_def heartbeat_format_list_def

interpretation hb: codec
  "\<lambda>p. pack_values (heartbeat_to_pack_list p)"
  heartbeat_from_unpack_list heartbeat_valid
  by unfold_locales (simp add: heartbeat_defs payload_defs codec_simps)

lemma heartbeat_formats: "map fst (heartbeat_to_pack_list p) = heartbeat_format_list"
  by (simp add: heartbeat_defs)

section \<open>ModelChunkPayload\<close>

record model_chunk =
  mc_transfer_id :: string
  mc_chunk_index :: int
  mc_total_chunks :: int
  mc_sender_id :: string
  mc_data_schema_hash :: string
  mc_round_number :: int
  mc_sample_count :: int
  mc_loss :: float64
  mc_accuracy :: float64
  mc_timestamp :: int
  mc_chunk_data :: bytes
  mc_signature :: bytes

definition model_chunk_msg_id :: nat where
  "model_chunk_msg_id = 4"

definition model_chunk_format_list :: "fmt list" where
  "model_chunk_format_list = [VarlenH, FmtI, FmtI, VarlenH, VarlenH, FmtI, FmtI, FmtD, FmtD, FmtI, VarlenH, VarlenH]"

definition model_chunk_to_pack_list :: "model_chunk \<Rightarrow> pack_list" where
  "model_chunk_to_pack_list p =
     [(VarlenH, WBytes (encode (mc_transfer_id p))),
      (FmtI, WInt (mc_chunk_index p)),
      (FmtI, WInt (mc_total_chunks p)),
      (VarlenH, WBytes (encode (mc_sender_id p))),
      (VarlenH, WBytes (encode (mc_data_schema_hash p))),
      (FmtI, WInt (mc_round_number p)),
      (FmtI, WInt (mc_sample_count p)),
      (FmtD, WFloat (mc_loss p)),
      (FmtD, WFloat (mc_accuracy p)),
      (FmtI, WInt (mc_timestamp p)),
      (VarlenH, WBytes (mc_chunk_data p)),
      (VarlenH, WBytes (mc_signature p))]"

definition model_chunk_from_unpack_list :: "real \<Rightarrow> wire_val list \<Rightarrow> model_chunk result" where
  "model_chunk_from_unpack_list now args =
     result_bind (arg_str args 0) (\<lambda>transfer_id.
     result_bind (arg_int args 1) (\<lambda>chunk_index.
     result_bind (arg_int args 2) (\<lambda>total_chunks.
     result_bind (arg_str args 3) (\<lambda>sender_id.
     result_bind (arg_str args 4) (\<lambda>data_schema_hash.
     result_bind (arg_int args 5) (\<lambda>round_number.
     result_bind (arg_int args 6) (\<lambda>sample_count.
     result_bind (arg_float args 7) (\<lambda>loss.
     result_bind (arg_float args 8) (\<lambda>accuracy.
     result_bind (arg_bytes args 10) (\<lambda>chunk_data.
     result_bind (arg_int args 9) (\<lambda>timestamp.
     result_bind (opt_bytes args 11) (\<lambda>signature.
       ok \<lparr>mc_transfer_id = transfer_id,
         mc_chunk_index = chunk_index,
         mc_total_chunks = total_chunks,
         mc_sender_id = sender_id,
         mc_data_schema_hash = data_schema_hash,
         mc_round_number = round_number,
         mc_sample_count = sample_count,
         mc_loss = loss,
         mc_accuracy = accuracy,
         mc_timestamp = timestamp_or_now timestamp now,
         mc_chunk_data = chunk_data,
         mc_signature = signature\<rparr>))))))))))))"

definition model_chunk_valid :: "model_chunk \<Rightarrow> bool" where
  "model_chunk_valid p \<longleftrightarrow>
     is_str (mc_transfer_id p) \<and> is_str (mc_sender_id p) \<and> is_str (mc_data_schema_hash p) \<and> mc_timestamp p \<noteq> 0"

lemmas model_chunk_defs = model_chunk_to_pack_list_def model_chunk_from_unpack_list_def
  model_chunk_valid_def model_chunk_format_list_def

interpretation mc: codec
  "\<lambda>p. pack_values (model_chunk_to_pack_list p)"
  "model_chunk_from_unpack_list now" model_chunk_valid for now :: real
  by unfold_locales (simp add: model_chunk_defs payload_defs codec_simps)

lemma model_chunk_formats: "map fst (model_chunk_to_pack_list p) = model_chunk_format_list"
  by (simp add: model_chunk_defs)

section \<open>RequestChunksPayload\<close>

record request_chunks =
  rc_transfer_id :: string
  rc_sender_id :: string
  rc_missing_indices_bytes :: bytes

definition request_chunks_msg_id :: nat where
  "request_chunks_msg_id = 5"

definition request_chunks_format_list :: "fmt list" where
  "request_chunks_format_list = [VarlenH, VarlenH, VarlenI]"

definition request_chunks_to_pack_list :: "request_chunks \<Rightarrow> pack_list" where
  "request_chunks_to_pack_list p =
     [(VarlenH, WBytes (encode (rc_transfer_id p))),
      (VarlenH, WBytes (encode (rc_sender_id p))),
      (VarlenI, WBytes (rc_missing_indices_bytes p))]"

definition request_chunks_from_unpack_list :: "wire_val list \<Rightarrow> request_chunks result" where
  "request_chunks_from_unpack_list args =
     result_bind (arg_str args 0) (\<lambda>transfer_id.
     result_bind (arg_str args 1) (\<lambda>sender_id.
     result_bind (arg_bytes args 2) (\<lambda>missing_indices_bytes.
       ok \<lparr>rc_transfer_id = transfer_id,
         rc_sender_id = sender_id,
         rc_missing_indices_bytes = missing_indices_bytes\<rparr>)))"

definition request_chunks_valid :: "request_chunks \<Rightarrow> bool" where
  "request_chunks_valid p \<longleftrightarrow>
     is_str (rc_transfer_id p) \<and> is_str (rc_sender_id p)"

lemmas request_chunks_defs = request_chunks_to_pack_list_def request_chunks_from_unpack_list_def
  request_chunks_valid_def request_chunks_format_list_def

interpretation rc: codec
  "\<lambda>p. pack_values (request_chunks_to_pack_list p)"
  request_chunks_from_unpack_list request_chunks_valid
  by unfold_locales (simp add: request_chunks_defs payload_defs codec_simps)

lemma request_chunks_formats: "map fst (request_chunks_to_pack_list p) = request_chunks_format_list"
  by (simp add: request_chunks_defs)

section \<open>ShufflePayload\<close>

record shuffle_request =
  sh_sender_id :: string
  sh_peers_bytes :: bytes

definition shuffle_request_msg_id :: nat where
  "shuffle_request_msg_id = 6"

definition shuffle_request_format_list :: "fmt list" where
  "shuffle_request_format_list = [VarlenH, VarlenI]"

definition shuffle_request_to_pack_list :: "shuffle_request \<Rightarrow> pack_list" where
  "shuffle_request_to_pack_list p =
     [(VarlenH, WBytes (encode (sh_sender_id p))),
      (VarlenI, WBytes (sh_peers_bytes p))]"

definition shuffle_request_from_unpack_list :: "wire_val list \<Rightarrow> shuffle_request result" where
  "shuffle_request_from_unpack_list args =
     result_bind (arg_str args 0) (\<lambda>sender_id.
     result_bind (arg_bytes args 1) (\<lambda>peers_bytes.
       ok \<lparr>sh_sender_id = sender_id,
         sh_peers_bytes = peers_bytes\<rparr>))"

definition shuffle_request_valid :: "shuffle_request \<Rightarrow> bool" where
  "shuffle_request_valid p \<longleftrightarrow>
     is_str (sh_sender_id p)"

lemmas shuffle_request_defs = shuffle_request_to_pack_list_def shuffle_request_from_unpack_list_def
  shuffle_request_valid_def shuffle_request_format_list_def

interpretation sh: codec
  "\<lambda>p. pack_values (shuffle_request_to_pack_list p)"
  shuffle_request_from_unpack_list shuffle_request_valid
  by unfold_locales (simp add: shuffle_request_defs payload_defs codec_simps)

lemma shuffle_request_formats: "map fst (shuffle_request_to_pack_list p) = shuffle_request_format_list"
  by (simp add: shuffle_request_defs)

section \<open>ShuffleResponsePayload\<close>

record shuffle_response =
  sr_sender_id :: string
  sr_peers_bytes :: bytes

definition shuffle_response_msg_id :: nat where
  "shuffle_response_msg_id = 7"

definition shuffle_response_format_list :: "fmt list" where
  "shuffle_response_format_list = [VarlenH, VarlenI]"

definition shuffle_response_to_pack_list :: "shuffle_response \<Rightarrow> pack_list" where
  "shuffle_response_to_pack_list p =
     [(VarlenH, WBytes (encode (sr_sender_id p))),
      (VarlenI, WBytes (sr_peers_bytes p))]"

definition shuffle_response_from_unpack_list :: "wire_val list \<Rightarrow> shuffle_response result" where
  "shuffle_response_from_unpack_list args =
     result_bind (arg_str args 0) (\<lambda>sender_id.
     result_bind (arg_bytes args 1) (\<lambda>peers_bytes.
       ok \<lparr>sr_sender_id = sender_id,
         sr_peers_bytes = peers_bytes\<rparr>))"

definition shuffle_response_valid :: "shuffle_response \<Rightarrow> bool" where
  "shuffle_response_valid p \<longleftrightarrow>
     is_str (sr_sender_id p)"

lemmas shuffle_response_defs = shuffle_response_to_pack_list_def shuffle_response_from_unpack_list_def
  shuffle_response_valid_def shuffle_response_format_list_def

interpretation sr: codec
  "\<lambda>p. pack_values (shuffle_response_to_pack_list p)"
  shuffle_response_from_unpack_list shuffle_response_valid
  by unfold_locales (simp add: shuffle_response_defs payload_defs codec_simps)

lemma shuffle_response_formats: "map fst (shuffle_response_to_pack_list p) = shuffle_response_format_list"
  by (simp add: shuffle_response_defs)

section \<open>PrototypeExchangePayload\<close>

record prototype_exchange =
  pe_sender_id :: string
  pe_prototypes_json :: string

definition prototype_exchange_msg_id :: nat where
  "prototype_exchange_msg_id = 8"

definition prototype_exchange_format_list :: "fmt list" where
  "prototype_exchange_format_list = [VarlenH, VarlenH]"

definition prototype_exchange_to_pack_list :: "prototype_exchange \<Rightarrow> pack_list" where
  "prototype_exchange_to_pack_list p =
     [(VarlenH, WBytes (encode (pe_sender_id p))),
      (VarlenH, WBytes (encode (pe_prototypes_json p)))]"

definition prototype_exchange_from_unpack_list :: "wire_val list \<Rightarrow> prototype_exchange result" where
  "prototype_exchange_from_unpack_list args =
     result_bind (arg_str args 0) (\<lambda>sender_id.
     result_bind (arg_str args 1) (\<lambda>prototypes_json.
       ok \<lparr>pe_sender_id = sender_id,
         pe_prototypes_json = prototypes_json\<rparr>))"

definition prototype_exchange_valid :: "prototype_exchange \<Rightarrow> bool" where
  "prototype_exchange_valid p \<longleftrightarrow>
     is_str (pe_sender_id p) \<and> is_str (pe_prototypes_json p)"

lemmas prototype_exchange_defs = prototype_exchange_to_pack_list_def prototype_exchange_from_unpack_list_def
  prototype_exchange_valid_def prototype_exchange_format_list_def

interpretation pe: codec
  "\<lambda>p. pack_values (prototype_exchange_to_pack_list p)"
  prototype_exchange_from_unpack_list prototype_exchange_valid
  by unfold_locales (simp add: prototype_exchange_defs payload_defs codec_simps)

lemma prototype_exchange_formats: "map fst (prototype_exchange_to_pack_list p) = prototype_exchange_format_list"
  by (simp add: prototype_exchange_defs)

section \<open>CheckpointPayload\<close>

record checkpoint_announce =
  cp_sender_id :: string
  cp_round_number :: int
  cp_loss :: float64
  cp_accuracy :: float64
  cp_model_version :: string

definition checkpoint_announce_msg_id :: nat where
  "checkpoint_announce_msg_id = 9"

definition checkpoint_announce_format_list :: "fmt list" where
  "checkpoint_announce_format_list = [VarlenH, FmtI, FmtD, FmtD, VarlenH]"

definition checkpoint_announce_to_pack_list :: "checkpoint_announce \<Rightarrow> pack_list" where
  "checkpoint_announce_to_pack_list p =
     [(VarlenH, WBytes (encode (cp_sender_id p))),
      (FmtI, WInt (cp_round_number p)),
      (FmtD, WFloat (cp_loss p)),
      (FmtD, WFloat (cp_accuracy p)),
      (VarlenH, WBytes (encode (cp_model_version p)))]"

definition checkpoint_announce_from_unpack_list :: "wire_val list \<Rightarrow> checkpoint_announce result" where
  "checkpoint_announce_from_unpack_list args =
     result_bind (arg_str args 0) (\<lambda>sender_id.
     result_bind (arg_int args 1) (\<lambda>round_number.
     result_bind (arg_float args 2) (\<lambda>loss.
     result_bind (arg_float args 3) (\<lambda>accuracy.
     result_bind (arg_str args 4) (\<lambda>model_version.
       ok \<lparr>cp_sender_id = sender_id,
         cp_round_number = round_number,
         cp_loss = loss,
         cp_accuracy = accuracy,
         cp_model_version = model_version\<rparr>)))))"

definition checkpoint_announce_valid :: "checkpoint_announce \<Rightarrow> bool" where
  "checkpoint_announce_valid p \<longleftrightarrow>
     is_str (cp_sender_id p) \<and> is_str (cp_model_version p)"

lemmas checkpoint_announce_defs = checkpoint_announce_to_pack_list_def checkpoint_announce_from_unpack_list_def
  checkpoint_announce_valid_def checkpoint_announce_format_list_def

interpretation cp: codec
  "\<lambda>p. pack_values (checkpoint_announce_to_pack_list p)"
  checkpoint_announce_from_unpack_list checkpoint_announce_valid
  by unfold_locales (simp add: checkpoint_announce_defs payload_defs codec_simps)

lemma checkpoint_announce_formats: "map fst (checkpoint_announce_to_pack_list p) = checkpoint_announce_format_list"
  by (simp add: checkpoint_announce_defs)

section \<open>ChunkAckPayload\<close>

record chunk_ack =
  ca_transfer_id :: string
  ca_sender_id :: string
  ca_data_schema_hash :: string
  ca_round_number :: int
  ca_total_chunks :: int
  ca_sack_ranges :: bytes
  ca_signature :: bytes

definition chunk_ack_msg_id :: nat where
  "chunk_ack_msg_id = 10"

definition chunk_ack_format_list :: "fmt list" where
  "chunk_ack_format_list = [VarlenH, VarlenH, VarlenH, FmtI, FmtI, VarlenI, VarlenH]"

definition chunk_ack_to_pack_list :: "chunk_ack \<Rightarrow> pack_list" where
  "chunk_ack_to_pack_list p =
     [(VarlenH, WBytes (encode (ca_transfer_id p))),
      (VarlenH, WBytes (encode (ca_sender_id p))),
      (VarlenH, WBytes (encode (ca_data_schema_hash p))),
      (FmtI, WInt (ca_round_number p)),
      (FmtI, WInt (ca_total_chunks p)),
      (VarlenI, WBytes (ca_sack_ranges p)),
      (VarlenH, WBytes (ca_signature p))]"

definition chunk_ack_from_unpack_list :: "wire_val list \<Rightarrow> chunk_ack result" where
  "chunk_ack_from_unpack_list args =
     result_bind (arg_str args 0) (\<lambda>transfer_id.
     result_bind (arg_str args 1) (\<lambda>sender_id.
     result_bind (arg_str args 2) (\<lambda>data_schema_hash.
     result_bind (arg_int args 3) (\<lambda>round_number.
     result_bind (arg_int args 4) (\<lambda>total_chunks.
     result_bind (arg_bytes args 5) (\<lambda>sack_ranges.
     result_bind (opt_bytes args 6) (\<lambda>signature.
       ok \<lparr>ca_transfer_id = transfer_id,
         ca_sender_id = sender_id,
         ca_data_schema_hash = data_schema_hash,
         ca_round_number = round_number,
         ca_total_chunks = total_chunks,
         ca_sack_ranges = sack_ranges,
         ca_signature = signature\<rparr>)))))))"

definition chunk_ack_valid :: "chunk_ack \<Rightarrow> bool" where
  "chunk_ack_valid p \<longleftrightarrow>
     is_str (ca_transfer_id p) \<and> is_str (ca_sender_id p) \<and> is_str (ca_data_schema_hash p)"

lemmas chunk_ack_defs = chunk_ack_to_pack_list_def chunk_ack_from_unpack_list_def
  chunk_ack_valid_def chunk_ack_format_list_def

interpretation ca: codec
  "\<lambda>p. pack_values (chunk_ack_to_pack_list p)"
  chunk_ack_from_unpack_list chunk_ack_valid
  by unfold_locales (simp add: chunk_ack_defs payload_defs codec_simps)

lemma chunk_ack_formats: "map fst (chunk_ack_to_pack_list p) = chunk_ack_format_list"
  by (simp add: chunk_ack_defs)

section \<open>What the wire format promises\<close>

text \<open>A serializer that reads back what it wrote: big-endian integers and doubles, octets behind their length.\<close>

fun pack_field :: "fmt \<times> wire_val \<Rightarrow> bytes result" where
  "pack_field (VarlenH, WBytes b) = result_bind (pack_be 2 (int (length b))) (\<lambda>l. ok (l @ b))"
| "pack_field (VarlenI, WBytes b) = result_bind (pack_be 4 (int (length b))) (\<lambda>l. ok (l @ b))"
| "pack_field (FmtI, WInt n) = pack_be 4 n"
| "pack_field (FmtQ, WInt n) = pack_be 8 n"
| "pack_field (FmtD, WFloat x) = ok (pack_f64 x)"
| "pack_field _ = raise StructError"

fun unpack_field :: "fmt \<Rightarrow> bytes \<Rightarrow> wire_val \<times> bytes" where
  "unpack_field VarlenH bs = (let n = be_nat (take 2 bs) in (WBytes (take n (drop 2 bs)), drop (2 + n) bs))"
| "unpack_field VarlenI bs = (let n = be_nat (take 4 bs) in (WBytes (take n (drop 4 bs)), drop (4 + n) bs))"
| "unpack_field FmtI bs = (WInt (int (be_nat (take 4 bs))), drop 4 bs)"
| "unpack_field FmtQ bs = (WInt (int (be_nat (take 8 bs))), drop 8 bs)"
| "unpack_field FmtD bs = (WFloat (of_nat (be_nat (take 8 bs))), drop 8 bs)"

fun unpack_fields :: "fmt list \<Rightarrow> bytes \<Rightarrow> wire_val list" where
  "unpack_fields [] bs = []"
| "unpack_fields (f # fs) bs = (case unpack_field f bs of (v, rest) \<Rightarrow> v # unpack_fields fs rest)"

definition example_serializer :: serializer where
  "example_serializer = \<lparr>sz_pack = (\<lambda>pl. result_bind (result_map pack_field pl) (\<lambda>bss. ok (concat bss))),
     sz_unpack = (\<lambda>formats bs. ok (unpack_fields formats bs))\<rparr>"

lemma pack_be_back: "pack_be k n = ok bs \<Longrightarrow> length bs = k \<and> int (be_nat bs) = n"
  by (auto simp: pack_be_def be_nat_be_bytes split: if_splits)

lemma pack_f64_back: "of_nat (be_nat (pack_f64 x)) = x"
proof -
  have "unat x < 256 ^ 8"
    using unsigned_less [of x, where 'a = nat] by simp
  then show ?thesis
    by (simp add: pack_f64_def be_nat_be_bytes)
qed

lemma unpack_packed_field: "pack_field (f, v) = ok bs \<Longrightarrow> unpack_field f (bs @ rest) = (v, rest)"
  by (cases "(f, v)" rule: pack_field.cases)
    (auto simp: result_bind_eq_ok Let_def pack_f64_back dest!: pack_be_back)

lemma unpack_packed_fields:
  "result_map pack_field pl = ok bss \<Longrightarrow> unpack_fields (map fst pl) (concat bss) = map snd pl"
  by (induction pl arbitrary: bss) (auto simp: result_bind_eq_ok unpack_packed_field)

lemma example_serializer_reads_back: "reads_back example_serializer"
  by (auto simp: reads_back_def example_serializer_def result_bind_eq_ok unpack_packed_fields pack_values_def)

text \<open>C40: Every payload of the protocol comes back unchanged over any serializer that reads back what it wrote: for each of the ten
  classes, a payload whose text fields are text, whose values the serializer accepts for the formats of the class (integers in range,
  texts not too long) and, where the class replaces a zero time stamp by the current time, whose time stamp is not zero, is packed,
  unpacked with the format list of its class and decoded to itself.\<close>

theorem payload_round_trip:
  assumes "reads_back z"
  shows "(discovery_announce_valid da \<and> packs z (discovery_announce_to_pack_list da) \<longrightarrow>
      transmit z discovery_announce_format_list (discovery_announce_to_pack_list da) discovery_announce_from_unpack_list = ok da)
   \<and> (model_update_valid mu \<and> packs z (model_update_to_pack_list mu) \<longrightarrow>
      transmit z model_update_format_list (model_update_to_pack_list mu) (model_update_from_unpack_list now) = ok mu)
   \<and> (heartbeat_valid hb \<and> packs z (heartbeat_to_pack_list hb) \<longrightarrow>
      transmit z heartbeat_format_list (heartbeat_to_pack_list hb) heartbeat_from_unpack_list = ok hb)
   \<and> (model_chunk_valid mc \<and> packs z (model_chunk_to_pack_list mc) \<longrightarrow>
      transmit z model_chunk_format_list (model_chunk_to_pack_list mc) (model_chunk_from_unpack_list now) = ok mc)
   \<and> (request_chunks_valid rc \<and> packs z (request_chunks_to_pack_list rc) \<longrightarrow>
      transmit z request_chunks_format_list (request_chunks_to_pack_list rc) request_chunks_from_unpack_list = ok rc)
   \<and> (shuffle_request_valid sh \<and> packs z (shuffle_request_to_pack_list sh) \<longrightarrow>
      transmit z shuffle_request_format_list (shuffle_request_to_pack_list sh) shuffle_request_from_unpack_list = ok sh)
   \<and> (shuffle_response_valid sr \<and> packs z (shuffle_response_to_pack_list sr) \<longrightarrow>
      transmit z shuffle_response_format_list (shuffle_response_to_pack_list sr) shuffle_response_from_unpack_list = ok sr)
   \<and> (prototype_exchange_valid pe \<and> packs z (prototype_exchange_to_pack_list pe) \<longrightarrow>
      transmit z prototype_exchange_format_list (prototype_exchange_to_pack_list pe) prototype_exchange_from_unpack_list = ok pe)
   \<and> (checkpoint_announce_valid cp \<and> packs z (checkpoint_announce_to_pack_list cp) \<longrightarrow>
      transmit z checkpoint_announce_format_list (checkpoint_announce_to_pack_list cp) checkpoint_announce_from_unpack_list = ok cp)
   \<and> (chunk_ack_valid ca \<and> packs z (chunk_ack_to_pack_list ca) \<longrightarrow>
      transmit z chunk_ack_format_list (chunk_ack_to_pack_list ca) chunk_ack_from_unpack_list = ok ca)"
proof -
  have da: "transmit z discovery_announce_format_list (discovery_announce_to_pack_list da) discovery_announce_from_unpack_list = ok da"
    if "discovery_announce_valid da \<and> packs z (discovery_announce_to_pack_list da)"
    using that da.dec_enc [of da] by (simp add: transmitted [OF assms] discovery_announce_formats)
  have mu: "transmit z model_update_format_list (model_update_to_pack_list mu) (model_update_from_unpack_list now) = ok mu"
    if "model_update_valid mu \<and> packs z (model_update_to_pack_list mu)"
    using that mu.dec_enc [of mu now] by (simp add: transmitted [OF assms] model_update_formats)
  have hb: "transmit z heartbeat_format_list (heartbeat_to_pack_list hb) heartbeat_from_unpack_list = ok hb"
    if "heartbeat_valid hb \<and> packs z (heartbeat_to_pack_list hb)"
    using that hb.dec_enc [of hb] by (simp add: transmitted [OF assms] heartbeat_formats)
  have mc: "transmit z model_chunk_format_list (model_chunk_to_pack_list mc) (model_chunk_from_unpack_list now) = ok mc"
    if "model_chunk_valid mc \<and> packs z (model_chunk_to_pack_list mc)"
    using that mc.dec_enc [of mc now] by (simp add: transmitted [OF assms] model_chunk_formats)
  have rc: "transmit z request_chunks_format_list (request_chunks_to_pack_list rc) request_chunks_from_unpack_list = ok rc"
    if "request_chunks_valid rc \<and> packs z (request_chunks_to_pack_list rc)"
    using that rc.dec_enc [of rc] by (simp add: transmitted [OF assms] request_chunks_formats)
  have sh: "transmit z shuffle_request_format_list (shuffle_request_to_pack_list sh) shuffle_request_from_unpack_list = ok sh"
    if "shuffle_request_valid sh \<and> packs z (shuffle_request_to_pack_list sh)"
    using that sh.dec_enc [of sh] by (simp add: transmitted [OF assms] shuffle_request_formats)
  have sr: "transmit z shuffle_response_format_list (shuffle_response_to_pack_list sr) shuffle_response_from_unpack_list = ok sr"
    if "shuffle_response_valid sr \<and> packs z (shuffle_response_to_pack_list sr)"
    using that sr.dec_enc [of sr] by (simp add: transmitted [OF assms] shuffle_response_formats)
  have pe: "transmit z prototype_exchange_format_list (prototype_exchange_to_pack_list pe) prototype_exchange_from_unpack_list = ok pe"
    if "prototype_exchange_valid pe \<and> packs z (prototype_exchange_to_pack_list pe)"
    using that pe.dec_enc [of pe] by (simp add: transmitted [OF assms] prototype_exchange_formats)
  have cp: "transmit z checkpoint_announce_format_list (checkpoint_announce_to_pack_list cp) checkpoint_announce_from_unpack_list = ok cp"
    if "checkpoint_announce_valid cp \<and> packs z (checkpoint_announce_to_pack_list cp)"
    using that cp.dec_enc [of cp] by (simp add: transmitted [OF assms] checkpoint_announce_formats)
  have ca: "transmit z chunk_ack_format_list (chunk_ack_to_pack_list ca) chunk_ack_from_unpack_list = ok ca"
    if "chunk_ack_valid ca \<and> packs z (chunk_ack_to_pack_list ca)"
    using that ca.dec_enc [of ca] by (simp add: transmitted [OF assms] chunk_ack_formats)
  show ?thesis
    using da mu hb mc rc sh sr pe cp ca by blast
qed

definition example_announce :: discovery_announce where
  "example_announce = \<lparr>da_node_id = ''n'', da_domain = ''d'', da_data_schema_hash = ''s'',
     da_model_version = ''1.0.0'', da_fingerprint_json = [], da_manifest_id = ''m''\<rparr>"

definition example_update :: model_update where
  "example_update = \<lparr>mu_sender_id = ''n'', mu_weights_bytes = [7], mu_sample_count = 3, mu_round_number = 1,
     mu_data_schema_hash = ''s'', mu_loss = 0, mu_accuracy = 0, mu_timestamp = 50, mu_signature = [1]\<rparr>"

definition example_chunk :: model_chunk where
  "example_chunk = \<lparr>mc_transfer_id = ''t'', mc_chunk_index = 0, mc_total_chunks = 1, mc_sender_id = ''n'',
     mc_data_schema_hash = ''s'', mc_round_number = 1, mc_sample_count = 3, mc_loss = 0, mc_accuracy = 0,
     mc_timestamp = 50, mc_chunk_data = [7], mc_signature = [1]\<rparr>"

theorem payload_round_trip_witness:
  "transmit example_serializer discovery_announce_format_list (discovery_announce_to_pack_list
      example_announce) discovery_announce_from_unpack_list =
      ok example_announce
   \<and> transmit example_serializer model_update_format_list (model_update_to_pack_list
      example_update) (model_update_from_unpack_list 0) =
      ok example_update
   \<and> transmit example_serializer heartbeat_format_list (heartbeat_to_pack_list
      \<lparr>hb_node_id = ''n'', hb_sequence = 4\<rparr>) heartbeat_from_unpack_list =
      ok \<lparr>hb_node_id = ''n'', hb_sequence = 4\<rparr>
   \<and> transmit example_serializer model_chunk_format_list (model_chunk_to_pack_list
      example_chunk) (model_chunk_from_unpack_list 0) =
      ok example_chunk
   \<and> transmit example_serializer request_chunks_format_list (request_chunks_to_pack_list
      \<lparr>rc_transfer_id = ''t'', rc_sender_id = ''n'', rc_missing_indices_bytes = [0, 0, 0, 1]\<rparr>) request_chunks_from_unpack_list =
      ok \<lparr>rc_transfer_id = ''t'', rc_sender_id = ''n'', rc_missing_indices_bytes = [0, 0, 0, 1]\<rparr>
   \<and> transmit example_serializer shuffle_request_format_list (shuffle_request_to_pack_list
      \<lparr>sh_sender_id = ''n'', sh_peers_bytes = [9]\<rparr>) shuffle_request_from_unpack_list =
      ok \<lparr>sh_sender_id = ''n'', sh_peers_bytes = [9]\<rparr>
   \<and> transmit example_serializer shuffle_response_format_list (shuffle_response_to_pack_list
      \<lparr>sr_sender_id = ''n'', sr_peers_bytes = [9]\<rparr>) shuffle_response_from_unpack_list =
      ok \<lparr>sr_sender_id = ''n'', sr_peers_bytes = [9]\<rparr>
   \<and> transmit example_serializer prototype_exchange_format_list (prototype_exchange_to_pack_list
      \<lparr>pe_sender_id = ''n'', pe_prototypes_json = ''{}''\<rparr>) prototype_exchange_from_unpack_list =
      ok \<lparr>pe_sender_id = ''n'', pe_prototypes_json = ''{}''\<rparr>
   \<and> transmit example_serializer checkpoint_announce_format_list (checkpoint_announce_to_pack_list
      \<lparr>cp_sender_id = ''n'', cp_round_number = 1, cp_loss = 0, cp_accuracy = 0, cp_model_version = ''1''\<rparr>) checkpoint_announce_from_unpack_list =
      ok \<lparr>cp_sender_id = ''n'', cp_round_number = 1, cp_loss = 0, cp_accuracy = 0, cp_model_version = ''1''\<rparr>
   \<and> transmit example_serializer chunk_ack_format_list (chunk_ack_to_pack_list
      \<lparr>ca_transfer_id = ''t'', ca_sender_id = ''n'', ca_data_schema_hash = ''s'', ca_round_number = 1, ca_total_chunks = 1,
        ca_sack_ranges = [0], ca_signature = []\<rparr>) chunk_ack_from_unpack_list =
      ok \<lparr>ca_transfer_id = ''t'', ca_sender_id = ''n'', ca_data_schema_hash = ''s'', ca_round_number = 1, ca_total_chunks = 1,
        ca_sack_ranges = [0], ca_signature = []\<rparr>"
proof -
  have da: "discovery_announce_valid example_announce \<and>
      packs example_serializer (discovery_announce_to_pack_list example_announce)"
    by code_simp
  have mu: "model_update_valid example_update \<and>
      packs example_serializer (model_update_to_pack_list example_update)"
    by code_simp
  have hb: "heartbeat_valid \<lparr>hb_node_id = ''n'', hb_sequence = 4\<rparr> \<and>
      packs example_serializer (heartbeat_to_pack_list \<lparr>hb_node_id = ''n'', hb_sequence = 4\<rparr>)"
    by code_simp
  have mc: "model_chunk_valid example_chunk \<and>
      packs example_serializer (model_chunk_to_pack_list example_chunk)"
    by code_simp
  have rc: "request_chunks_valid \<lparr>rc_transfer_id = ''t'', rc_sender_id = ''n'', rc_missing_indices_bytes = [0, 0, 0, 1]\<rparr> \<and>
      packs example_serializer (request_chunks_to_pack_list \<lparr>rc_transfer_id = ''t'', rc_sender_id = ''n'', rc_missing_indices_bytes = [0, 0, 0, 1]\<rparr>)"
    by code_simp
  have sh: "shuffle_request_valid \<lparr>sh_sender_id = ''n'', sh_peers_bytes = [9]\<rparr> \<and>
      packs example_serializer (shuffle_request_to_pack_list \<lparr>sh_sender_id = ''n'', sh_peers_bytes = [9]\<rparr>)"
    by code_simp
  have sr: "shuffle_response_valid \<lparr>sr_sender_id = ''n'', sr_peers_bytes = [9]\<rparr> \<and>
      packs example_serializer (shuffle_response_to_pack_list \<lparr>sr_sender_id = ''n'', sr_peers_bytes = [9]\<rparr>)"
    by code_simp
  have pe: "prototype_exchange_valid \<lparr>pe_sender_id = ''n'', pe_prototypes_json = ''{}''\<rparr> \<and>
      packs example_serializer (prototype_exchange_to_pack_list \<lparr>pe_sender_id = ''n'', pe_prototypes_json = ''{}''\<rparr>)"
    by code_simp
  have cp: "checkpoint_announce_valid \<lparr>cp_sender_id = ''n'', cp_round_number = 1, cp_loss = 0, cp_accuracy = 0, cp_model_version = ''1''\<rparr> \<and>
      packs example_serializer (checkpoint_announce_to_pack_list \<lparr>cp_sender_id = ''n'', cp_round_number = 1, cp_loss = 0, cp_accuracy = 0, cp_model_version = ''1''\<rparr>)"
    by code_simp
  have ca: "chunk_ack_valid \<lparr>ca_transfer_id = ''t'', ca_sender_id = ''n'', ca_data_schema_hash = ''s'', ca_round_number = 1, ca_total_chunks = 1,
        ca_sack_ranges = [0], ca_signature = []\<rparr> \<and>
      packs example_serializer (chunk_ack_to_pack_list \<lparr>ca_transfer_id = ''t'', ca_sender_id = ''n'', ca_data_schema_hash = ''s'', ca_round_number = 1, ca_total_chunks = 1,
        ca_sack_ranges = [0], ca_signature = []\<rparr>)"
    by code_simp
  show ?thesis
    using payload_round_trip [OF example_serializer_reads_back, of example_announce example_update 0 "\<lparr>hb_node_id = ''n'', hb_sequence = 4\<rparr>" example_chunk "\<lparr>rc_transfer_id = ''t'', rc_sender_id = ''n'', rc_missing_indices_bytes = [0, 0, 0, 1]\<rparr>" "\<lparr>sh_sender_id = ''n'', sh_peers_bytes = [9]\<rparr>" "\<lparr>sr_sender_id = ''n'', sr_peers_bytes = [9]\<rparr>" "\<lparr>pe_sender_id = ''n'', pe_prototypes_json = ''{}''\<rparr>" "\<lparr>cp_sender_id = ''n'', cp_round_number = 1, cp_loss = 0, cp_accuracy = 0, cp_model_version = ''1''\<rparr>" "\<lparr>ca_transfer_id = ''t'', ca_sender_id = ''n'', ca_data_schema_hash = ''s'', ca_round_number = 1, ca_total_chunks = 1,
        ca_sack_ranges = [0], ca_signature = []\<rparr>"]
    by (simp only: da mu hb mc rc sh sr pe cp ca simp_thms)
qed

text \<open>A discovery announcement of an older release, which has only the first four fields, is read with
  an empty fingerprint and an empty manifest identifier, and one with five fields with an empty manifest
  identifier.\<close>

lemma legacy_discovery:
  assumes "discovery_announce_valid p"
  shows "discovery_announce_from_unpack_list (take 4 (pack_values (discovery_announce_to_pack_list p))) =
      ok (p\<lparr>da_fingerprint_json := [], da_manifest_id := []\<rparr>)
    \<and> discovery_announce_from_unpack_list (take 5 (pack_values (discovery_announce_to_pack_list p))) =
      ok (p\<lparr>da_manifest_id := []\<rparr>)"
  using assms by (simp add: discovery_announce_defs payload_defs codec_simps take_Cons')

end
