(* ===== verification/Chunk_Codec.thy ===== *)
theory Chunk_Codec
  imports Wire
begin

text \<open>
  The byte-level helpers of \<open>network/gossip_community.py\<close>: the community identifier, the
  canonical byte string that every chunk signature covers, and the selective-acknowledgement
  (SACK) range encoding of received chunk indices. SHA-256 and the IPv8 key pair are not code
  of the repository: they are the fields of the record \<open>crypto\<close>, an argument of the
  definitions that call them.
\<close>

section \<open>Cryptographic primitives\<close>

text \<open>\<open>verify_key pk sig msg\<close> is \<open>None\<close> where \<open>public_key.verify\<close> raises.\<close>

record crypto =
  sha256 :: "bytes \<Rightarrow> bytes"
  sign_key :: "bytes \<Rightarrow> bytes"
  verify_key :: "bytes \<Rightarrow> bytes \<Rightarrow> bytes \<Rightarrow> bool option"

section \<open>Community identifiers\<close>

definition community_preimage :: "string \<Rightarrow> string \<Rightarrow> string option \<Rightarrow> string" where
  "community_preimage domain schema manifest =
     (case manifest of
        Some m \<Rightarrow> (if m \<noteq> [] then ''QuinkGL-'' @ domain @ ''-'' @ schema @ ''-m:'' @ m
                   else ''QuinkGL-'' @ domain @ ''-'' @ schema)
      | None \<Rightarrow> ''QuinkGL-'' @ domain @ ''-'' @ schema)"

definition generate_community_id ::
    "crypto \<Rightarrow> string \<Rightarrow> string \<Rightarrow> string option \<Rightarrow> bytes" where
  "generate_community_id cr domain schema manifest =
     take 20 (sha256 cr (encode (community_preimage domain schema manifest)))"

definition manifest_id_blocks_peer :: "string \<Rightarrow> string \<Rightarrow> bool" where
  "manifest_id_blocks_peer local_mid remote_mid \<longleftrightarrow>
     local_mid \<noteq> [] \<and> remote_mid \<noteq> [] \<and> local_mid \<noteq> remote_mid"

lemma first_dash_unique:
  "CHR ''-'' \<notin> set a \<Longrightarrow> CHR ''-'' \<notin> set b \<Longrightarrow> a @ ''-'' @ x = b @ ''-'' @ y \<longleftrightarrow> a = b \<and> x = y"
proof (induction a arbitrary: b)
  case Nil
  then show ?case by (cases b) auto
next
  case (Cons c a)
  then show ?case by (cases b) auto
qed

section \<open>Signed bytes of a chunk\<close>

record chunk_meta =
  cm_sample_count :: int
  cm_loss :: float64
  cm_accuracy :: float64
  cm_timestamp :: int
  cm_total_chunks :: int

text \<open>The keyword defaults of \<open>_chunk_sign_data\<close>.\<close>

definition default_meta :: chunk_meta where
  "default_meta = \<lparr>cm_sample_count = 0, cm_loss = 0, cm_accuracy = 0, cm_timestamp = 0,
     cm_total_chunks = 1\<rparr>"

definition chunk_sign_data ::
    "crypto \<Rightarrow> string \<Rightarrow> int \<Rightarrow> string \<Rightarrow> int \<Rightarrow> bytes \<Rightarrow> chunk_meta \<Rightarrow> bytes result" where
  "chunk_sign_data cr sender_id round_number schema chunk_index chunk_data m =
     result_bind (pack_u32 round_number) (\<lambda>rn.
     result_bind (pack_u32 chunk_index) (\<lambda>ci.
     result_bind (pack_u32 (cm_total_chunks m)) (\<lambda>tc.
     result_bind (pack_u32 (cm_sample_count m)) (\<lambda>sc.
     result_bind (pack_u32 (cm_timestamp m)) (\<lambda>ts.
       ok (encode sender_id @ rn @ encode schema @ ci @ tc @ sc
           @ pack_f64 (cm_loss m) @ pack_f64 (cm_accuracy m) @ ts @ sha256 cr chunk_data))))))"

definition chunk_sign ::
    "crypto \<Rightarrow> string \<Rightarrow> int \<Rightarrow> string \<Rightarrow> int \<Rightarrow> bytes \<Rightarrow> chunk_meta \<Rightarrow> bytes result" where
  "chunk_sign cr sender_id round_number schema chunk_index chunk_data m =
     result_bind (chunk_sign_data cr sender_id round_number schema chunk_index chunk_data m)
       (\<lambda>msg. ok (sign_key cr msg))"

definition chunk_verify ::
    "crypto \<Rightarrow> bytes \<Rightarrow> bytes \<Rightarrow> string \<Rightarrow> int \<Rightarrow> string \<Rightarrow> int \<Rightarrow> bytes \<Rightarrow> chunk_meta
     \<Rightarrow> bool result" where
  "chunk_verify cr public_key signature sender_id round_number schema chunk_index chunk_data m =
     (if signature = [] then ok False
      else result_bind
        (chunk_sign_data cr sender_id round_number schema chunk_index chunk_data m)
        (\<lambda>msg. ok (verify_key cr public_key signature msg = Some True)))"

lemma pack_u32_length: "pack_u32 n = ok bs \<Longrightarrow> length bs = 4"
  by (simp add: pack_u32_def pack_be_length)

lemma pack_u32_inj: "pack_u32 m = ok bs \<Longrightarrow> pack_u32 n = ok bs \<Longrightarrow> m = n"
  unfolding pack_u32_def by (rule pack_be_inj)

lemma pack_u32_ok: "pack_u32 n = ok bs \<longleftrightarrow> 0 \<le> n \<and> n < 2 ^ 32 \<and> bs = be_bytes 4 (nat n)"
  by (auto simp: pack_u32_def pack_be_def)

text \<open>The suffix after the schema has a fixed layout, so for one sender name and one digest
  length the signed string determines every signed field.\<close>

lemma append_eq_split:
  "length u = length u' \<Longrightarrow> u @ v = u' @ v' \<longleftrightarrow> u = u' \<and> v = v'"
  by simp

lemma append_eq_split_right:
  "length v = length v' \<Longrightarrow> u @ v = u' @ v' \<longleftrightarrow> u = u' \<and> v = v'"
  by simp

section \<open>Acknowledged index ranges\<close>

fun ranges_loop :: "int \<Rightarrow> int \<Rightarrow> int list \<Rightarrow> (int \<times> int) list" where
  "ranges_loop start prev [] = [(start, prev)]"
| "ranges_loop start prev (index # rest) =
     (if index = prev + 1 then ranges_loop start index rest
      else (start, prev) # ranges_loop index index rest)"

definition chunk_index_ranges :: "int list \<Rightarrow> (int \<times> int) list" where
  "chunk_index_ranges indices =
     (case sort (remdups indices) of
        [] \<Rightarrow> []
      | first # rest \<Rightarrow> ranges_loop first first rest)"

fun pack_ranges :: "(int \<times> int) list \<Rightarrow> bytes result" where
  "pack_ranges [] = ok []"
| "pack_ranges ((start, stop) # rs) =
     result_bind (pack_u32 start) (\<lambda>s.
     result_bind (pack_u32 stop) (\<lambda>e.
     result_bind (pack_ranges rs) (\<lambda>bs. ok (s @ e @ bs))))"

definition pack_chunk_ranges :: "int list \<Rightarrow> bytes result" where
  "pack_chunk_ranges indices = pack_ranges (chunk_index_ranges indices)"

function unpack_ranges_loop :: "bytes \<Rightarrow> int option \<Rightarrow> int set \<Rightarrow> int set result" where
  "unpack_ranges_loop data total_opt indices =
     (if data = [] then ok indices
      else let start = unpack_u32 (take 4 data); stop = unpack_u32 (take 4 (drop 4 data)) in
        if stop < start then raise (ValueError ''chunk range end before start'')
        else if (case total_opt of None \<Rightarrow> False | Some t \<Rightarrow> t \<le> stop)
          then raise (ValueError ''chunk range out of bounds'')
        else unpack_ranges_loop (drop 8 data) total_opt (indices \<union> {start..stop}))"
  by pat_completeness auto
termination
  by (relation "measure (\<lambda>(data, _, _). length data)") auto

declare unpack_ranges_loop.simps [simp del]

definition unpack_chunk_ranges :: "bytes \<Rightarrow> int option \<Rightarrow> int set result" where
  "unpack_chunk_ranges data total_opt =
     (if length data mod 8 \<noteq> 0
      then raise (ValueError ''chunk range payload length must be a multiple of 8'')
      else unpack_ranges_loop data total_opt {})"

definition ranges_union :: "(int \<times> int) list \<Rightarrow> int set" where
  "ranges_union rs = (\<Union>(s, e) \<in> set rs. {s..e})"

lemma ranges_union_simps [simp]:
  "ranges_union [] = {}"
  "ranges_union ((s, e) # rs) = {s..e} \<union> ranges_union rs"
  by (simp_all add: ranges_union_def)

lemma ranges_loop_union:
  "start \<le> prev \<Longrightarrow> sorted (prev # xs) \<Longrightarrow> distinct (prev # xs) \<Longrightarrow>
   ranges_union (ranges_loop start prev xs) = {start..prev} \<union> set xs"
proof (induction xs arbitrary: start prev)
  case Nil
  then show ?case by simp
next
  case (Cons i xs)
  show ?case
  proof (cases "i = prev + 1")
    case True
    with Cons.prems have "ranges_union (ranges_loop start i xs) = {start..i} \<union> set xs"
      by (intro Cons.IH) auto
    with True Cons.prems show ?thesis by auto
  next
    case False
    from Cons.prems have "ranges_union (ranges_loop i i xs) = {i..i} \<union> set xs"
      by (intro Cons.IH) auto
    with False show ?thesis by auto
  qed
qed

lemma chunk_index_ranges_union: "ranges_union (chunk_index_ranges xs) = set xs"
proof -
  have srt: "sorted (sort (remdups xs))" "distinct (sort (remdups xs))"
    by simp_all
  have "set (sort (remdups xs)) = set xs" by simp
  with srt show ?thesis
    unfolding chunk_index_ranges_def
    by (cases "sort (remdups xs)") (auto simp: ranges_loop_union)
qed

text \<open>Every range is non-empty and the next one starts at least two further on: the list is
  the unique shortest description of the set.\<close>

definition ranges_canonical :: "(int \<times> int) list \<Rightarrow> bool" where
  "ranges_canonical rs \<longleftrightarrow>
     list_all (\<lambda>(s, e). s \<le> e) rs \<and> sorted_wrt (\<lambda>(s, e) (s', e'). e + 1 < s') rs"

lemma ranges_loop_starts:
  "sorted (prev # xs) \<Longrightarrow> start \<le> prev \<Longrightarrow> (s, e) \<in> set (ranges_loop start prev xs) \<Longrightarrow> start \<le> s"
  by (induction xs arbitrary: start prev) (auto split: if_splits, force+)

lemma ranges_loop_canonical:
  "start \<le> prev \<Longrightarrow> sorted (prev # xs) \<Longrightarrow> distinct (prev # xs) \<Longrightarrow>
   ranges_canonical (ranges_loop start prev xs)"
proof (induction xs arbitrary: start prev)
  case Nil
  then show ?case by (simp add: ranges_canonical_def)
next
  case (Cons i xs)
  show ?case
  proof (cases "i = prev + 1")
    case True
    with Cons show ?thesis by auto
  next
    case False
    with Cons.prems have lt: "prev + 1 < i" by auto
    from Cons.prems have "ranges_canonical (ranges_loop i i xs)"
      by (intro Cons.IH) auto
    moreover have "prev + 1 < s" if "(s, e) \<in> set (ranges_loop i i xs)" for s e
      using ranges_loop_starts [OF _ _ that] Cons.prems lt by fastforce
    ultimately show ?thesis
      using False Cons.prems by (auto simp: ranges_canonical_def)
  qed
qed

lemma chunk_index_ranges_canonical: "ranges_canonical (chunk_index_ranges xs)"
proof -
  have srt: "sorted (sort (remdups xs))" "distinct (sort (remdups xs))"
    by simp_all
  then show ?thesis
    unfolding chunk_index_ranges_def
    by (cases "sort (remdups xs)") (auto simp: ranges_loop_canonical, simp add: ranges_canonical_def)
qed

lemma pack_ranges_length: "pack_ranges rs = ok bs \<Longrightarrow> length bs = 8 * length rs"
  by (induction rs arbitrary: bs)
    (auto simp: result_bind_eq_ok dest!: pack_u32_length)

lemma pack_ranges_total:
  "list_all (\<lambda>(s, e). 0 \<le> s \<and> s \<le> e \<and> e < 2 ^ 32) rs \<Longrightarrow> \<exists>bs. pack_ranges rs = ok bs"
  by (induction rs) (auto simp: pack_u32_def pack_be_def)

lemma unpack_pack_ranges:
  assumes "pack_ranges rs = ok bs"
    and "list_all (\<lambda>(s, e). s \<le> e \<and> (case total_opt of None \<Rightarrow> True | Some t \<Rightarrow> e < t)) rs"
  shows "unpack_ranges_loop bs total_opt acc = ok (acc \<union> ranges_union rs)"
  using assms
proof (induction rs arbitrary: bs acc)
  case Nil
  then show ?case by (simp add: unpack_ranges_loop.simps)
next
  case (Cons r rs)
  obtain s e where r: "r = (s, e)" by (cases r)
  from Cons.prems(1) obtain bs1 bs2 bs3 where p: "pack_u32 s = ok bs1" "pack_u32 e = ok bs2"
      "pack_ranges rs = ok bs3" and bs: "bs = bs1 @ bs2 @ bs3"
    by (auto simp: r result_bind_eq_ok)
  have len: "length bs1 = 4" "length bs2 = 4"
    using p by (simp_all add: pack_u32_length)
  have val: "unpack_u32 bs1 = s" "unpack_u32 bs2 = e"
    using p by (simp_all add: codec_simps)
  have "unpack_ranges_loop bs3 total_opt (acc \<union> {s..e}) = ok (acc \<union> {s..e} \<union> ranges_union rs)"
    using p Cons.prems by (intro Cons.IH) auto
  with len val Cons.prems r show ?case
    by (subst unpack_ranges_loop.simps) (auto simp: bs Un_assoc Let_def split: option.splits)
qed

lemma unpack_ranges_loop_bounds:
  "unpack_ranges_loop data (Some t) acc = ok S \<Longrightarrow> acc \<subseteq> {0..<t} \<Longrightarrow> S \<subseteq> {0..<t}"
proof (induction data "Some t" acc rule: unpack_ranges_loop.induct)
  case (1 data acc)
  show ?case
  proof (cases "data = []")
    case True
    with "1.prems" show ?thesis by (simp add: unpack_ranges_loop.simps)
  next
    case False
    define start stop where "start = unpack_u32 (take 4 data)"
      and "stop = unpack_u32 (take 4 (drop 4 data))"
    have "0 \<le> start" by (simp add: start_def unpack_u32_def)
    with False "1.prems" have step: "\<not> stop < start" "\<not> t \<le> stop"
      "unpack_ranges_loop (drop 8 data) (Some t) (acc \<union> {start..stop}) = ok S"
      by (auto simp: unpack_ranges_loop.simps [of data] start_def stop_def Let_def split: if_splits)
    moreover have "acc \<union> {start..stop} \<subseteq> {0..<t}"
      using "1.prems"(2) step \<open>0 \<le> start\<close> by auto
    ultimately show ?thesis
      using "1.hyps" [OF False start_def stop_def] by simp
  qed
qed

lemma unpack_chunk_ranges_subset:
  "unpack_chunk_ranges data (Some t) = ok S \<Longrightarrow> S \<subseteq> {0..<t}"
  by (auto simp: unpack_chunk_ranges_def split: if_splits dest: unpack_ranges_loop_bounds)

lemma unpack_chunk_ranges_finite:
  "unpack_chunk_ranges data (Some t) = ok S \<Longrightarrow> finite S"
  by (meson finite_atLeastLessThan_int finite_subset unpack_chunk_ranges_subset)

text \<open>The only error is \<open>ValueError\<close>.\<close>

lemma unpack_ranges_loop_error:
  "unpack_ranges_loop data total_opt acc = raise err \<Longrightarrow> \<exists>msg. err = ValueError msg"
proof (induction data total_opt acc rule: unpack_ranges_loop.induct)
  case (1 data total_opt acc)
  show ?case
    using 1(2) 1(1) by (subst (asm) unpack_ranges_loop.simps) (auto simp: Let_def split: if_splits option.splits)
qed

lemma ranges_in_union:
  "list_all (\<lambda>(s, e). s \<le> e) rs \<Longrightarrow> (s, e) \<in> set rs \<Longrightarrow> s \<in> ranges_union rs \<and> e \<in> ranges_union rs"
  by (fastforce simp: ranges_union_def list_all_iff)

lemma chunk_ranges_in_set:
  assumes "(s, e) \<in> set (chunk_index_ranges xs)"
  shows "s \<le> e" "s \<in> set xs" "e \<in> set xs"
proof -
  have can: "list_all (\<lambda>(s, e). s \<le> e) (chunk_index_ranges xs)"
    using chunk_index_ranges_canonical by (simp add: ranges_canonical_def)
  with assms show "s \<le> e" by (auto simp: list_all_iff)
  from ranges_in_union [OF can assms] show "s \<in> set xs" "e \<in> set xs"
    by (simp_all add: chunk_index_ranges_union)
qed

section \<open>What the encodings promise\<close>

text \<open>The acknowledgement encoding: for any collection of 32-bit chunk indices below the number of chunks,
  packing succeeds, what is unpacked is exactly the set packed, and the ranges sent are in canonical
  form (non-empty, ascending, with a gap between any two).\<close>

theorem sack_round_trip:
  assumes "set js \<subseteq> {0..<n}" and "n \<le> 2 ^ 32"
  shows "\<exists>bs. pack_chunk_ranges js = ok bs \<and> unpack_chunk_ranges bs (Some n) = ok (set js)
    \<and> length bs = 8 * length (chunk_index_ranges js) \<and> ranges_canonical (chunk_index_ranges js)"
proof -
  have rng: "list_all (\<lambda>(s, e). 0 \<le> s \<and> s \<le> e \<and> e < n) (chunk_index_ranges js)"
    using chunk_ranges_in_set assms(1) by (fastforce simp: list_all_iff)
  then have "list_all (\<lambda>(s, e). 0 \<le> s \<and> s \<le> e \<and> e < 2 ^ 32) (chunk_index_ranges js)"
    using assms(2) by (fastforce simp: list_all_iff)
  from pack_ranges_total [OF this] obtain bs where bs: "pack_ranges (chunk_index_ranges js) = ok bs" ..
  have "list_all (\<lambda>(s, e). s \<le> e \<and> (case Some n of None \<Rightarrow> True | Some t \<Rightarrow> e < t)) (chunk_index_ranges js)"
    using rng by (auto simp: list_all_iff)
  from unpack_pack_ranges [OF bs this, of "{}"] show ?thesis
    using pack_ranges_length [OF bs] bs chunk_index_ranges_canonical
    by (simp add: pack_chunk_ranges_def unpack_chunk_ranges_def chunk_index_ranges_union)
qed

theorem sack_round_trip_witness:
  "\<exists>bs. pack_chunk_ranges [3, 1, 2, 7] = ok bs \<and> unpack_chunk_ranges bs (Some 8) = ok (set [3, 1, 2, 7])"
  using sack_round_trip [of "[3, 1, 2, 7]" 8] by auto

text \<open>Whatever octets an acknowledgement carries, unpacking it against a transfer of \<open>n\<close> chunks either
  raises an error or yields a finite set of indices inside the transfer.\<close>

lemma sack_soundness:
  "case unpack_chunk_ranges data (Some n) of Inl err \<Rightarrow> \<exists>msg. err = ValueError msg
     | Inr S \<Rightarrow> S \<subseteq> {0..<n} \<and> finite S"
proof (cases "unpack_chunk_ranges data (Some n)")
  case (Inl err)
  then have "\<exists>msg. err = ValueError msg"
    using unpack_ranges_loop_error [of data "Some n" "{}" err]
    by (auto simp: unpack_chunk_ranges_def split: if_splits)
  with Inl show ?thesis by simp
next
  case (Inr S)
  then show ?thesis
    using unpack_chunk_ranges_subset unpack_chunk_ranges_finite by auto
qed

text \<open>For sender names of one length and a digest of fixed size, the signed octets determine every signed
  field: sender, round, schema, chunk index, number of chunks, sample count, loss, accuracy, time stamp
  and the digest of the data. A signature cannot be moved to a message that differs in any of them.\<close>

theorem signed_data_binds:
  assumes "chunk_sign_data cr s r sch i d m = ok x" and "chunk_sign_data cr s' r' sch' i' d' m' = ok x"
    and "\<forall>b. length (sha256 cr b) = 32" and "length s = length s'"
  shows "s = s' \<and> r = r' \<and> sch = sch' \<and> i = i' \<and> m = m' \<and> sha256 cr d = sha256 cr d'"
proof -
  obtain rn ci tc sc ts where p: "pack_u32 r = ok rn" "pack_u32 i = ok ci" "pack_u32 (cm_total_chunks m) = ok tc"
      "pack_u32 (cm_sample_count m) = ok sc" "pack_u32 (cm_timestamp m) = ok ts"
    and x: "x = encode s @ rn @ encode sch @ ci @ tc @ sc @ pack_f64 (cm_loss m) @ pack_f64 (cm_accuracy m) @ ts @ sha256 cr d"
    using assms(1) by (auto simp: chunk_sign_data_def result_bind_eq_ok)
  obtain rn' ci' tc' sc' ts' where p': "pack_u32 r' = ok rn'" "pack_u32 i' = ok ci'" "pack_u32 (cm_total_chunks m') = ok tc'"
      "pack_u32 (cm_sample_count m') = ok sc'" "pack_u32 (cm_timestamp m') = ok ts'"
    and x': "x = encode s' @ rn' @ encode sch' @ ci' @ tc' @ sc' @ pack_f64 (cm_loss m') @ pack_f64 (cm_accuracy m') @ ts' @ sha256 cr d'"
    using assms(2) by (auto simp: chunk_sign_data_def result_bind_eq_ok)
  note len = p [THEN pack_u32_length] p' [THEN pack_u32_length]
  have "length sch = length sch'"
    using arg_cong [OF trans [OF x [symmetric] x'], of length] len assms(3,4) by simp
  then have eqs: "encode s = encode s'" "rn = rn'" "encode sch = encode sch'" "ci = ci'" "tc = tc'" "sc = sc'"
    "pack_f64 (cm_loss m) = pack_f64 (cm_loss m')" "pack_f64 (cm_accuracy m) = pack_f64 (cm_accuracy m')"
    "ts = ts'" "sha256 cr d = sha256 cr d'"
    using trans [OF x [symmetric] x'] len assms(4) by (simp_all add: append_eq_split)
  have "r = r'" "i = i'" "cm_total_chunks m = cm_total_chunks m'" "cm_sample_count m = cm_sample_count m'"
    "cm_timestamp m = cm_timestamp m'"
    using p p' eqs pack_u32_inj by blast+
  with eqs show ?thesis
    by (cases m; cases m') (simp add: pack_f64_inj)
qed

definition zero_crypto :: crypto where
  "zero_crypto = \<lparr>sha256 = (\<lambda>_. replicate 32 0), sign_key = (\<lambda>m. m), verify_key = (\<lambda>_ s m. Some (s = m))\<rparr>"

theorem signed_data_binds_witness:
  "chunk_sign_data zero_crypto ''a'' 1 ''s'' 0 [7] default_meta \<noteq> chunk_sign_data zero_crypto ''a'' 2 ''s'' 0 [7] default_meta"
proof
  assume eq: "chunk_sign_data zero_crypto ''a'' 1 ''s'' 0 [7] default_meta = chunk_sign_data zero_crypto ''a'' 2 ''s'' 0 [7] default_meta"
  obtain x where x: "chunk_sign_data zero_crypto ''a'' 1 ''s'' 0 [7] default_meta = ok x"
    by (simp add: chunk_sign_data_def pack_u32_def pack_be_def default_meta_def)
  have len: "\<forall>b. length (sha256 zero_crypto b) = 32" by (simp add: zero_crypto_def)
  have "(1 :: int) = 2"
    using signed_data_binds [OF x x [unfolded eq] len refl] by blast
  then show False by simp
qed

text \<open>The fields are concatenated without their lengths: with sender names of different lengths, two
  different messages have the same signed octets.\<close>

lemma be_bytes_4:
  "be_bytes 4 n = [of_nat (n div 256 div 256 div 256), of_nat (n div 256 div 256), of_nat (n div 256), of_nat n]"
proof -
  have four: "(4 :: nat) = Suc (Suc (Suc (Suc 0)))" by simp
  show ?thesis unfolding four be_bytes.simps by simp
qed

lemma signed_data_ambiguous:
  "chunk_sign_data cr ''ab'' 0x63646566 [] i d m = chunk_sign_data cr ''a'' 0x62636465 ''f'' i d m"
  by (simp add: chunk_sign_data_def pack_u32_def pack_be_def encode_def byte_of_char_def be_bytes_4)

text \<open>Two swarms whose domain and schema hash contain no hyphen have the same community identifier
  preimage only if they agree in domain, schema hash and manifest identifier (an empty one counting as
  none), so distinct swarms are separated up to collisions of the digest.\<close>

lemma community_preimage_separates:
  assumes "CHR ''-'' \<notin> set domain" "CHR ''-'' \<notin> set schema"
    and "CHR ''-'' \<notin> set domain'" "CHR ''-'' \<notin> set schema'"
    and "community_preimage domain schema manifest = community_preimage domain' schema' manifest'"
  shows "domain = domain' \<and> schema = schema' \<and>
    (if manifest = Some [] then None else manifest) = (if manifest' = Some [] then None else manifest')"
proof -
  define tail where "tail m = (case m of Some x \<Rightarrow> if x \<noteq> [] then ''-m:'' @ x else [] | None \<Rightarrow> [])"
    for m :: "string option"
  have pre: "community_preimage d s m = ''QuinkGL-'' @ d @ ''-'' @ s @ tail m" for d s m
    by (simp add: community_preimage_def tail_def split: option.splits)
  have "domain @ ''-'' @ schema @ tail manifest = domain' @ ''-'' @ schema' @ tail manifest'"
    using assms(5) unfolding pre by simp
  then have d: "domain = domain'" and st: "schema @ tail manifest = schema' @ tail manifest'"
    using first_dash_unique [OF assms(1,3)] by blast+
  have shape: "tail m = [] \<or> (\<exists>x. x \<noteq> [] \<and> m = Some x \<and> tail m = ''-'' @ ''m:'' @ x)" for m
    by (cases m) (simp_all add: tail_def)
  have st2: "schema = schema'" "tail manifest = tail manifest'"
    using shape [of manifest] shape [of manifest'] st assms(2,4)
      first_dash_unique [OF assms(2,4)] by (auto dest: arg_cong [where f = set])
  then have "(if manifest = Some [] then None else manifest) = (if manifest' = Some [] then None else manifest')"
    by (cases manifest; cases manifest') (auto simp: tail_def split: if_splits)
  with d st2 show ?thesis by blast
qed

text \<open>With a hyphen in a component the preimage is ambiguous.\<close>

lemma community_preimage_ambiguous:
  "community_preimage ''a-b'' ''c'' manifest = community_preimage ''a'' ''b-c'' manifest"
  by (simp add: community_preimage_def split: option.splits)

end
