(* ===== verification/Reassembly.thy ===== *)
theory Reassembly
  imports Quink_Prelude
begin

text \<open>
  Chunked transfer, receiving side. A \<open>ChunkBuffer\<close> (\<open>network/gossip_community.py\<close>)
  collects the chunks of one transfer; the contract \<open>reassembler\<close> states what such a
  collector promises and proves, once, that the order and the multiplicity of deliveries do
  not matter. The manifest assembler of \<open>network/manifest_exchange.py\<close> interprets the same
  contract.
\<close>

section \<open>Splitting a byte string\<close>

definition slice :: "nat \<Rightarrow> bytes \<Rightarrow> nat \<Rightarrow> bytes" where
  "slice k data i = take k (drop (i * k) data)"

definition slices :: "nat \<Rightarrow> bytes \<Rightarrow> bytes list" where
  "slices k data = map (slice k data) [0..<(length data + k - 1) div k]"

lemma take_add_slice: "take (n * k) data @ slice k data n = take (Suc n * k) data"
  by (simp add: slice_def add.commute flip: take_add)

lemma concat_slices_upto: "concat (map (slice k data) [0..<n]) = take (n * k) data"
  by (induction n) (simp_all add: take_add_slice del: mult_Suc)

lemma ceil_div_covers: "0 < k \<Longrightarrow> n \<le> (n + k - 1) div k * (k :: nat)"
proof -
  assume "0 < k"
  then have "(n + k - 1) mod k < k" by simp
  moreover have "(n + k - 1) div k * k + (n + k - 1) mod k = n + k - 1" by simp
  ultimately show ?thesis using \<open>0 < k\<close> by linarith
qed

lemma concat_slices [simp]: "0 < k \<Longrightarrow> concat (slices k data) = data"
  using ceil_div_covers [of k "length data"] by (simp add: slices_def concat_slices_upto)

lemma length_slices: "length (slices k data) = (length data + k - 1) div k"
  by (simp add: slices_def)

lemma nth_slices: "i < length (slices k data) \<Longrightarrow> slices k data ! i = slice k data i"
  by (simp add: slices_def)

lemma length_slice: "length (slice k data i) \<le> k"
  by (simp add: slice_def)

lemma slices_nonempty: "0 < k \<Longrightarrow> data \<noteq> [] \<Longrightarrow> slices k data \<noteq> []"
  by (metis concat.simps(1) concat_slices)

section \<open>Collecting numbered chunks\<close>

text \<open>\<open>[chunks[i] for i in idxs]\<close>.\<close>

definition chunk_lookup :: "(int, bytes) pydict \<Rightarrow> int \<Rightarrow> bytes result" where
  "chunk_lookup d i = (case map_of d i of None \<Rightarrow> raise KeyError | Some b \<Rightarrow> ok b)"

definition gather :: "(int, bytes) pydict \<Rightarrow> int \<Rightarrow> bytes result" where
  "gather d n = result_bind (result_map (chunk_lookup d) [0..n - 1]) (\<lambda>bs. ok (concat bs))"

lemma result_map_ok_iff:
  "result_map f xs = ok ys \<longleftrightarrow> length xs = length ys \<and> (\<forall>i < length xs. f (xs ! i) = ok (ys ! i))"
proof (induction xs arbitrary: ys)
  case Nil
  then show ?case by auto
next
  case (Cons x xs)
  show ?case
  proof (cases ys)
    case Nil
    then show ?thesis by (auto simp: result_bind_eq_ok)
  next
    case (Cons y ys')
    then show ?thesis
      using Cons.IH [of ys'] by (auto simp: result_bind_eq_ok nth_Cons' less_Suc_eq_0_disj)
  qed
qed

lemma gather_parts:
  assumes "\<And>i. i < length parts \<Longrightarrow> map_of d (int i) = Some (parts ! i)"
  shows "gather d (int (length parts)) = ok (concat parts)"
proof -
  have nth: "[0..int (length parts) - 1] ! i = int i" if "i < length parts" for i
    using that by (simp add: nth_upto)
  have "result_map (chunk_lookup d) [0..int (length parts) - 1] = ok parts"
    unfolding result_map_ok_iff
  proof (intro conjI allI impI)
    show len: "length [0..int (length parts) - 1] = length parts" by simp
    fix i assume "i < length [0..int (length parts) - 1]"
    then have "i < length parts" by simp
    then show "chunk_lookup d ([0..int (length parts) - 1] ! i) = ok (parts ! i)"
      by (simp only: nth chunk_lookup_def assms option.case)
  qed
  then show ?thesis by (simp only: gather_def result_bind.simps)
qed

lemma result_map_error:
  assumes "x \<in> set xs" and "f x = raise e" and "\<forall>y. f y \<in> insert (raise e) (range ok)"
  shows "result_map f xs = raise e"
  using assms(1)
proof (induction xs)
  case Nil
  then show ?case by simp
next
  case (Cons y xs)
  show ?case
  proof (cases "f y = raise e")
    case True
    then show ?thesis by simp
  next
    case False
    then obtain z where z: "f y = ok z" using assms(3) by blast
    with Cons.prems assms(2) have "x \<in> set xs" by auto
    with Cons.IH z show ?thesis by simp
  qed
qed

lemma result_map_raise: "result_map f xs = raise e \<Longrightarrow> \<exists>x \<in> set xs. f x = raise e"
proof (induction xs)
  case (Cons x xs)
  then show ?case by (cases "f x"; cases "result_map f xs") auto
qed simp

lemma gather_missing:
  "0 \<le> i \<Longrightarrow> i < n \<Longrightarrow> map_of d i = None \<Longrightarrow> gather d n = raise KeyError"
proof -
  assume "0 \<le> i" "i < n" "map_of d i = None"
  then have "result_map (chunk_lookup d) [0..n - 1] = raise KeyError"
    by (intro result_map_error [of i]) (simp_all add: chunk_lookup_def split: option.splits)
  then show ?thesis by (simp only: gather_def result_bind.simps)
qed

text \<open>Feeding a collector a sequence of numbered chunks.\<close>

fun feed :: "(int \<Rightarrow> bytes \<Rightarrow> 'b \<Rightarrow> 'b result) \<Rightarrow> (int \<times> bytes) list \<Rightarrow> 'b \<Rightarrow> 'b result" where
  "feed add [] b = ok b"
| "feed add ((i, d) # xs) b = result_bind (add i d b) (feed add xs)"

text \<open>
  The contract. \<open>expects parts b\<close> says that \<open>b\<close> is prepared to receive the numbered
  list \<open>parts\<close>; \<open>add (length parts)\<close> stores one numbered chunk.
\<close>

locale reassembler =
  fixes chunks :: "'b \<Rightarrow> (int, bytes) pydict"
    and add :: "int \<Rightarrow> int \<Rightarrow> bytes \<Rightarrow> 'b \<Rightarrow> 'b result"
    and expects :: "bytes list \<Rightarrow> 'b \<Rightarrow> bool"
    and complete :: "'b \<Rightarrow> bool"
    and assemble :: "'b \<Rightarrow> bytes result"
  assumes add_ok: "\<lbrakk>expects parts b; i < length parts;
      map_of (chunks b) (int i) \<in> {None, Some (parts ! i)}\<rbrakk> \<Longrightarrow>
      \<exists>b'. add (int (length parts)) (int i) (parts ! i) b = ok b' \<and> expects parts b'
        \<and> chunks b' = AList.update (int i) (parts ! i) (chunks b)"
    and complete_iff: "\<lbrakk>expects parts b; chunks b \<noteq> []\<rbrakk> \<Longrightarrow>
      complete b \<longleftrightarrow> length (chunks b) = length parts"
    and assemble_ok: "\<lbrakk>expects parts b; chunks b \<noteq> []; complete b;
      gather (chunks b) (int (length parts)) = ok (concat parts)\<rbrakk> \<Longrightarrow>
      assemble b = ok (concat parts)"
begin

text \<open>The buffer holds exactly the parts with the indices \<open>J\<close>.\<close>

definition holds :: "bytes list \<Rightarrow> nat set \<Rightarrow> 'b \<Rightarrow> bool" where
  "holds parts J b \<longleftrightarrow> expects parts b \<and> dict_wf (chunks b) \<and> J \<subseteq> {..<length parts}
     \<and> map_of (chunks b) = (\<lambda>k. if 0 \<le> k \<and> nat k \<in> J then Some (parts ! nat k) else None)"

lemma holds_card: "holds parts J b \<Longrightarrow> length (chunks b) = card J"
proof -
  assume h: "holds parts J b"
  have "fst ` set (chunks b) = int ` J"
    using h by (auto simp: holds_def dom_map_of_conv_image_fst [symmetric] dom_def
        image_iff split: if_splits) (metis int_nat_eq nat_int of_nat_0_le_iff)+
  then have "card (fst ` set (chunks b)) = card J"
    by (simp add: card_image)
  moreover have "card (fst ` set (chunks b)) = length (chunks b)"
    using h by (metis distinct_card holds_def length_map list.set_map)
  ultimately show ?thesis by simp
qed

lemma holds_add:
  assumes "holds parts J b" and "i < length parts"
  shows "\<exists>b'. add (int (length parts)) (int i) (parts ! i) b = ok b' \<and> holds parts (insert i J) b'"
proof -
  have "map_of (chunks b) (int i) \<in> {None, Some (parts ! i)}"
    using assms(1) by (simp add: holds_def)
  then obtain b' where b': "add (int (length parts)) (int i) (parts ! i) b = ok b'"
      "expects parts b'" "chunks b' = AList.update (int i) (parts ! i) (chunks b)"
    using add_ok [of parts b i] assms by (auto simp: holds_def)
  moreover have "holds parts (insert i J) b'"
    using assms b' by (auto simp: holds_def dict_simps fun_eq_iff)
  ultimately show ?thesis by blast
qed

lemma feed_holds:
  assumes "holds parts J b" and "set xs \<subseteq> {..<length parts}"
  shows "\<exists>b'. feed (add (int (length parts))) (map (\<lambda>i. (int i, parts ! i)) xs) b = ok b'
    \<and> holds parts (J \<union> set xs) b'"
  using assms
proof (induction xs arbitrary: J b)
  case Nil
  then show ?case by simp
next
  case (Cons i xs)
  then obtain b1 where "add (int (length parts)) (int i) (parts ! i) b = ok b1"
      "holds parts (insert i J) b1"
    using holds_add [of parts J b i] by auto
  with Cons.IH [of "insert i J" b1] Cons.prems show ?case by auto
qed

lemma holds_complete:
  assumes "holds parts J b" and "J \<noteq> {}"
  shows "complete b \<longleftrightarrow> J = {..<length parts}"
proof -
  have fin: "finite J" and sub: "J \<subseteq> {..<length parts}"
    using assms(1) finite_subset by (auto simp: holds_def)
  have "chunks b \<noteq> []"
    using assms fin holds_card [OF assms(1)] by auto
  then have "complete b \<longleftrightarrow> card J = card {..<length parts}"
    using assms(1) complete_iff [of parts b] holds_card [OF assms(1)] by (simp add: holds_def)
  then show ?thesis
    using sub by (metis card_subset_eq finite_lessThan)
qed

lemma holds_assemble:
  assumes h: "holds parts {..<length parts} b" and "parts \<noteq> []"
  shows "assemble b = ok (concat parts)"
proof -
  have "chunks b \<noteq> []" and "complete b"
    using holds_complete [OF h] holds_card [OF h] assms by auto
  moreover have "gather (chunks b) (int (length parts)) = ok (concat parts)"
    using h by (intro gather_parts) (simp add: holds_def)
  ultimately show ?thesis
    using h by (intro assemble_ok) (auto simp: holds_def)
qed

text \<open>Any sequence of deliveries, in any order and with any repetitions, leaves the collector
  complete exactly when it covers every index, and then the data comes out.\<close>

lemma deliver_any_order:
  assumes "expects parts b" and "chunks b = []" and "set xs \<subseteq> {..<length parts}" and "xs \<noteq> []"
  shows "\<exists>b'. feed (add (int (length parts))) (map (\<lambda>i. (int i, parts ! i)) xs) b = ok b'
    \<and> (complete b' \<longleftrightarrow> set xs = {..<length parts})
    \<and> (set xs = {..<length parts} \<longrightarrow> assemble b' = ok (concat parts))"
proof -
  have "holds parts {} b"
    using assms by (simp add: holds_def)
  from feed_holds [OF this assms(3)] obtain b' where
    b': "feed (add (int (length parts))) (map (\<lambda>i. (int i, parts ! i)) xs) b = ok b'"
    and hold: "holds parts (set xs) b'" by auto
  have "complete b' \<longleftrightarrow> set xs = {..<length parts}"
    using hold assms(4) by (intro holds_complete) auto
  moreover have "assemble b' = ok (concat parts)" if "set xs = {..<length parts}"
    using holds_assemble [of parts b'] hold assms(4) that by force
  ultimately show ?thesis using b' by blast
qed

end

section \<open>ChunkBuffer\<close>

record chunk_buffer =
  cb_transfer_id :: string
  cb_sender_id :: string
  cb_total_chunks :: int
  cb_data_schema_hash :: string
  cb_round_number :: int
  cb_sample_count :: int
  cb_loss :: float64
  cb_accuracy :: float64
  cb_timestamp :: int
  cb_created_at :: real
  cb_last_ack_at :: real
  cb_chunks_since_ack :: int
  cb_last_nack_at :: real
  cb_last_nack_signature :: bytes
  cb_chunks :: "(int, bytes) pydict"

definition CHUNK_TRANSFER_TIMEOUT :: real where
  "CHUNK_TRANSFER_TIMEOUT = 900"

definition add_chunk :: "int \<Rightarrow> bytes \<Rightarrow> chunk_buffer \<Rightarrow> chunk_buffer \<times> bool" where
  "add_chunk chunk_index chunk_data b =
     (let b1 = (if map_of (cb_chunks b) chunk_index = None
                then b\<lparr>cb_chunks_since_ack := cb_chunks_since_ack b + 1\<rparr> else b);
          b2 = b1\<lparr>cb_chunks := AList.update chunk_index chunk_data (cb_chunks b1)\<rparr>
      in (b2, int (length (cb_chunks b2)) = cb_total_chunks b2))"

definition is_complete :: "chunk_buffer \<Rightarrow> bool" where
  "is_complete b \<longleftrightarrow> int (length (cb_chunks b)) = cb_total_chunks b"

definition is_expired :: "real \<Rightarrow> chunk_buffer \<Rightarrow> bool" where
  "is_expired now b \<longleftrightarrow> now - cb_created_at b > CHUNK_TRANSFER_TIMEOUT"

definition reassemble :: "chunk_buffer \<Rightarrow> bytes result" where
  "reassemble b =
     (if \<not> is_complete b then raise (ValueError ''Cannot reassemble'')
      else gather (cb_chunks b) (cb_total_chunks b))"

text \<open>\<open>[i for i in range(buffer.total_chunks) if i not in buffer.chunks]\<close>.\<close>

definition missing_chunks :: "chunk_buffer \<Rightarrow> int list" where
  "missing_chunks b = filter (\<lambda>i. map_of (cb_chunks b) i = None) [0..cb_total_chunks b - 1]"

lemma add_chunk_simps [simp]:
  "cb_chunks (fst (add_chunk i d b)) = AList.update i d (cb_chunks b)"
  "cb_total_chunks (fst (add_chunk i d b)) = cb_total_chunks b"
  "snd (add_chunk i d b) = is_complete (fst (add_chunk i d b))"
  by (simp_all add: add_chunk_def is_complete_def Let_def)

definition buffer_expects :: "bytes list \<Rightarrow> chunk_buffer \<Rightarrow> bool" where
  "buffer_expects parts b \<longleftrightarrow> cb_total_chunks b = int (length parts)"

interpretation buffer: reassembler cb_chunks
  "\<lambda>n i d b. ok (fst (add_chunk i d b))" buffer_expects is_complete reassemble
proof unfold_locales
  fix parts :: "bytes list" and b i
  assume "buffer_expects parts b"
  then show "\<exists>b'. ok (fst (add_chunk (int i) (parts ! i) b)) = ok b' \<and> buffer_expects parts b'
      \<and> cb_chunks b' = AList.update (int i) (parts ! i) (cb_chunks b)"
    by (simp add: buffer_expects_def)
next
  fix parts :: "bytes list" and b
  assume "buffer_expects parts b"
  then show "is_complete b \<longleftrightarrow> length (cb_chunks b) = length parts"
    by (auto simp: is_complete_def buffer_expects_def)
next
  fix parts :: "bytes list" and b
  assume "buffer_expects parts b" "is_complete b"
    and "gather (cb_chunks b) (int (length parts)) = ok (concat parts)"
  then show "reassemble b = ok (concat parts)"
    by (simp add: reassemble_def buffer_expects_def)
qed

lemma missing_chunks_set:
  "set (missing_chunks b) = {i. 0 \<le> i \<and> i < cb_total_chunks b \<and> map_of (cb_chunks b) i = None}"
  by (auto simp: missing_chunks_def)

end
