(* ===== verification/Rate_Limits.thy ===== *)
theory Rate_Limits
  imports Quink_Prelude
begin

text \<open>
  The two kinds of admission control the network layer uses.

  \<^item> Token buckets: \<open>_nack_try_consume\<close> and \<open>_nack_try_consume_transfer\<close> of
    \<open>network/gossip_community.py\<close>, one bucket per peer or per transfer.
  \<^item> Sliding windows: \<open>RateLimiter.allow\<close> of \<open>network/manifest_exchange.py\<close>; the
    publication quota of \<open>network/directory.py\<close> interprets the same contract.

  Each kind is a contract with one theorem on whole request sequences: how many requests can
  be admitted, whatever the requests of other keys in between.
\<close>

section \<open>Request sequences\<close>

text \<open>A limiter answers a request of key \<open>k\<close> at time \<open>now\<close>. \<open>admitted\<close> is the list of
  the times at which requests of \<open>k\<close> were let through.\<close>

fun admitted :: "('k \<Rightarrow> real \<Rightarrow> 's \<Rightarrow> bool \<times> 's) \<Rightarrow> 'k \<Rightarrow> ('k \<times> real) list \<Rightarrow> 's \<Rightarrow> real list" where
  "admitted attempt k [] s = []"
| "admitted attempt k ((j, now) # rs) s =
     (if j = k \<and> fst (attempt j now s) then [now] else [])
     @ admitted attempt k rs (snd (attempt j now s))"

fun after_requests :: "('k \<Rightarrow> real \<Rightarrow> 's \<Rightarrow> bool \<times> 's) \<Rightarrow> ('k \<times> real) list \<Rightarrow> 's \<Rightarrow> 's" where
  "after_requests attempt [] s = s"
| "after_requests attempt ((j, now) # rs) s = after_requests attempt rs (snd (attempt j now s))"

section \<open>Token buckets\<close>

record bucket =
  tokens :: real
  last_refill :: real

locale token_bucket =
  fixes attempt :: "'k \<Rightarrow> real \<Rightarrow> 's \<Rightarrow> bool \<times> 's"
    and bucket_of :: "'s \<Rightarrow> 'k \<Rightarrow> bucket option"
    and interval :: real and capacity :: real
  assumes interval_pos: "0 < interval"
    and capacity_pos: "0 \<le> capacity"
    and other_keys: "j \<noteq> k \<Longrightarrow> bucket_of (snd (attempt j now s)) k = bucket_of s k"
    and own_key: "\<exists>b b'. (bucket_of s k = Some b \<or>
          bucket_of s k = None \<and> b = \<lparr>tokens = capacity, last_refill = now\<rparr>)
        \<and> b' = (if 0 < (now - last_refill b) / interval
                then \<lparr>tokens = min (tokens b + (now - last_refill b) / interval) capacity,
                      last_refill = now\<rparr>
                else b)
        \<and> fst (attempt k now s) = (1 \<le> tokens b')
        \<and> bucket_of (snd (attempt k now s)) k =
            Some (if 1 \<le> tokens b' then b'\<lparr>tokens := tokens b' - 1\<rparr> else b')"
begin

definition bucket_inv :: "'k \<Rightarrow> 's \<Rightarrow> bool" where
  "bucket_inv k s \<longleftrightarrow> (\<forall>b. bucket_of s k = Some b \<longrightarrow> 0 \<le> tokens b \<and> tokens b \<le> capacity)"

lemma attempt_inv: "bucket_inv k s \<Longrightarrow> bucket_inv k (snd (attempt j now s))"
proof (cases "j = k")
  case True
  assume inv: "bucket_inv k s"
  from own_key [of s k now] obtain b b' where
    b: "bucket_of s k = Some b \<or> bucket_of s k = None \<and> b = \<lparr>tokens = capacity, last_refill = now\<rparr>"
    and b': "b' = (if 0 < (now - last_refill b) / interval
                then \<lparr>tokens = min (tokens b + (now - last_refill b) / interval) capacity,
                      last_refill = now\<rparr> else b)"
    and res: "bucket_of (snd (attempt k now s)) k =
            Some (if 1 \<le> tokens b' then b'\<lparr>tokens := tokens b' - 1\<rparr> else b')" by blast
  have "0 \<le> tokens b" "tokens b \<le> capacity"
    using b inv capacity_pos by (auto simp: bucket_inv_def)
  then have "0 \<le> tokens b'" "tokens b' \<le> capacity"
    using b' capacity_pos by auto
  with res True show ?thesis by (auto simp: bucket_inv_def)
next
  case False
  assume "bucket_inv k s"
  then show ?thesis using other_keys [OF False] by (simp add: bucket_inv_def)
qed

text \<open>The potential: what has been admitted plus what is left never exceeds the capacity plus
  what the elapsed time refills.\<close>

lemma admitted_bound_from:
  assumes "sorted (map snd rs)" and "\<forall>t \<in> snd ` set rs. t0 \<le> t"
    and "bucket_of s k = Some b" and "tokens b \<le> capacity" and "0 \<le> tokens b"
    and "last_refill b \<le> t0" and "\<forall>t \<in> snd ` set rs. t \<le> t1" and "t0 \<le> t1"
  shows "real (length (admitted attempt k rs s)) \<le> tokens b + (t1 - last_refill b) / interval"
  using assms
proof (induction rs arbitrary: s b t0)
  case Nil
  then show ?case using interval_pos by simp
next
  case (Cons r rs)
  obtain j now where r: "r = (j, now)" by (cases r)
  let ?s = "snd (attempt j now s)"
  have ord: "sorted (map snd rs)" "\<forall>t \<in> snd ` set rs. now \<le> t" "\<forall>t \<in> snd ` set rs. t \<le> t1"
    "t0 \<le> now" "now \<le> t1"
    using Cons.prems by (auto simp: r)
  show ?case
  proof (cases "j = k")
    case False
    then have "bucket_of ?s k = Some b" using other_keys Cons.prems by simp
    from Cons.IH [OF ord(1,2) this] Cons.prems ord False show ?thesis by (simp add: r)
  next
    case True
    from own_key [of s k now] Cons.prems(3) obtain b' where
      b': "b' = (if 0 < (now - last_refill b) / interval
                then \<lparr>tokens = min (tokens b + (now - last_refill b) / interval) capacity,
                      last_refill = now\<rparr> else b)"
      and adm: "fst (attempt k now s) = (1 \<le> tokens b')"
      and res: "bucket_of ?s k = Some (if 1 \<le> tokens b' then b'\<lparr>tokens := tokens b' - 1\<rparr> else b')"
      using True by auto
    let ?b2 = "if 1 \<le> tokens b' then b'\<lparr>tokens := tokens b' - 1\<rparr> else b'"
    have pot: "tokens b' + (t1 - last_refill b') / interval
        \<le> tokens b + (t1 - last_refill b) / interval"
      by (auto simp: b' diff_divide_distrib)
    have cap: "tokens b' \<le> capacity" "0 \<le> tokens b'" "last_refill b' \<le> now"
      using b' Cons.prems ord capacity_pos by auto
    have "real (length (admitted attempt k rs ?s))
        \<le> tokens ?b2 + (t1 - last_refill ?b2) / interval"
      by (rule Cons.IH [OF ord(1,2) res _ _ _ ord(3,5)]) (use cap in auto)
    with pot adm True show ?thesis by (auto simp: r split: if_splits)
  qed
qed

lemma admitted_bound:
  assumes "sorted (map snd rs)" and "\<forall>t \<in> snd ` set rs. t0 \<le> t \<and> t \<le> t1"
    and "bucket_of s k = None" and "t0 \<le> t1"
  shows "real (length (admitted attempt k rs s)) \<le> capacity + (t1 - t0) / interval"
  using assms
proof (induction rs arbitrary: s t0)
  case Nil
  then show ?case using interval_pos capacity_pos by simp
next
  case (Cons r rs)
  obtain j now where r: "r = (j, now)" by (cases r)
  let ?s = "snd (attempt j now s)"
  have ord: "sorted (map snd rs)" "\<forall>t \<in> snd ` set rs. now \<le> t" "\<forall>t \<in> snd ` set rs. t \<le> t1"
    "t0 \<le> now" "now \<le> t1"
    using Cons.prems by (auto simp: r)
  have mono: "(t1 - now) / interval \<le> (t1 - t0) / interval"
    using ord interval_pos by (simp add: divide_right_mono)
  show ?case
  proof (cases "j = k")
    case False
    then have "bucket_of ?s k = None" using other_keys Cons.prems by simp
    from Cons.IH [OF ord(1) _ this ord(5)] ord mono False show ?thesis
      by (auto simp: r)
  next
    case True
    let ?b = "\<lparr>tokens = capacity, last_refill = now\<rparr>"
    let ?b2 = "if 1 \<le> capacity then ?b\<lparr>tokens := capacity - 1\<rparr> else ?b"
    from own_key [of s k now] Cons.prems(3) True have
      adm: "fst (attempt j now s) = (1 \<le> capacity)" and res: "bucket_of ?s k = Some ?b2"
      by auto
    have "real (length (admitted attempt k rs ?s)) \<le> tokens ?b2 + (t1 - last_refill ?b2) / interval"
      by (rule admitted_bound_from [OF ord(1,2) res _ _ _ ord(3,5)]) (use capacity_pos in auto)
    with adm mono True show ?thesis by (auto simp: r split: if_splits)
  qed
qed

end

subsection \<open>The NACK buckets\<close>

definition NACK_BUCKET_INTERVAL :: real where "NACK_BUCKET_INTERVAL = 2"
definition NACK_BUCKET_MAX_TOKENS :: real where "NACK_BUCKET_MAX_TOKENS = 40"
definition NACK_TRANSFER_BUCKET_MAX_TOKENS :: real where "NACK_TRANSFER_BUCKET_MAX_TOKENS = 20"
definition NACK_TRANSFER_BUCKET_INTERVAL :: real where "NACK_TRANSFER_BUCKET_INTERVAL = 2"

definition nack_try_consume ::
    "string \<Rightarrow> real \<Rightarrow> (string, bucket) pydict \<Rightarrow> bool \<times> (string, bucket) pydict" where
  "nack_try_consume peer_mid now buckets =
     (let b = (case map_of buckets peer_mid of
                 None \<Rightarrow> \<lparr>tokens = NACK_BUCKET_MAX_TOKENS, last_refill = now\<rparr>
               | Some b \<Rightarrow> b);
          elapsed = now - last_refill b;
          refill = elapsed / NACK_BUCKET_INTERVAL;
          b' = (if refill > 0
                then \<lparr>tokens = min (tokens b + refill) NACK_BUCKET_MAX_TOKENS, last_refill = now\<rparr>
                else b)
      in if tokens b' \<ge> 1
         then (True, AList.update peer_mid (b'\<lparr>tokens := tokens b' - 1\<rparr>) buckets)
         else (False, AList.update peer_mid b' buckets))"

definition nack_try_consume_transfer ::
    "string \<Rightarrow> real \<Rightarrow> (string, bucket) pydict \<Rightarrow> bool \<times> (string, bucket) pydict" where
  "nack_try_consume_transfer transfer_id now buckets =
     (let b = (case map_of buckets transfer_id of
                 None \<Rightarrow> \<lparr>tokens = NACK_TRANSFER_BUCKET_MAX_TOKENS, last_refill = now\<rparr>
               | Some b \<Rightarrow> b);
          elapsed = now - last_refill b;
          refill = elapsed / NACK_TRANSFER_BUCKET_INTERVAL;
          b' = (if refill > 0
                then \<lparr>tokens = min (tokens b + refill) NACK_TRANSFER_BUCKET_MAX_TOKENS,
                      last_refill = now\<rparr>
                else b)
      in if tokens b' \<ge> 1
         then (True, AList.update transfer_id (b'\<lparr>tokens := tokens b' - 1\<rparr>) buckets)
         else (False, AList.update transfer_id b' buckets))"

lemmas nack_constants = NACK_BUCKET_INTERVAL_def NACK_BUCKET_MAX_TOKENS_def
  NACK_TRANSFER_BUCKET_MAX_TOKENS_def NACK_TRANSFER_BUCKET_INTERVAL_def

interpretation peer_bucket: token_bucket nack_try_consume map_of
  NACK_BUCKET_INTERVAL NACK_BUCKET_MAX_TOKENS
  by unfold_locales
    (auto simp: nack_try_consume_def Let_def dict_simps nack_constants split: option.splits)

interpretation transfer_bucket: token_bucket nack_try_consume_transfer map_of
  NACK_TRANSFER_BUCKET_INTERVAL NACK_TRANSFER_BUCKET_MAX_TOKENS
  by unfold_locales
    (auto simp: nack_try_consume_transfer_def Let_def dict_simps nack_constants split: option.splits)

section \<open>Sliding windows\<close>

text \<open>\<open>while bucket and bucket[0] < cutoff: bucket.pop(0)\<close>.\<close>

definition drop_stale :: "real \<Rightarrow> real list \<Rightarrow> real list" where
  "drop_stale cutoff ts = dropWhile (\<lambda>t. t < cutoff) ts"

lemma drop_stale_sorted: "sorted ts \<Longrightarrow> drop_stale c ts = filter (\<lambda>t. c \<le> t) ts"
proof (induction ts)
  case Nil
  then show ?case by (simp add: drop_stale_def)
next
  case (Cons t ts)
  then show ?case
    by (cases "t < c") (auto simp: drop_stale_def intro!: filter_True [symmetric])
qed

definition in_window :: "real \<Rightarrow> real \<Rightarrow> real list \<Rightarrow> real list" where
  "in_window w t ts = filter (\<lambda>x. t - w \<le> x \<and> x \<le> t) ts"

locale sliding_window =
  fixes attempt :: "'k \<Rightarrow> real \<Rightarrow> 's \<Rightarrow> bool \<times> 's"
    and hist :: "'s \<Rightarrow> 'k \<Rightarrow> real list"
    and limit :: nat and window :: real
  assumes window_nonneg: "0 \<le> window"
    and other_hist: "j \<noteq> k \<Longrightarrow> hist (snd (attempt j now s)) k = hist s k"
    and own_hist: "hist (snd (attempt k now s)) k =
      (if fst (attempt k now s) then drop_stale (now - window) (hist s k) @ [now]
       else drop_stale (now - window) (hist s k))"
    and below_limit: "fst (attempt k now s) \<Longrightarrow>
      length (drop_stale (now - window) (hist s k)) < limit"
begin

text \<open>\<open>past\<close> are the times admitted so far; the history is the part of it inside the window of
  the latest request.\<close>

definition tracks :: "'k \<Rightarrow> real \<Rightarrow> real list \<Rightarrow> 's \<Rightarrow> bool" where
  "tracks k now past s \<longleftrightarrow> sorted past \<and> (\<forall>x \<in> set past. x \<le> now)
     \<and> filter (\<lambda>x. now - window \<le> x) past = filter (\<lambda>x. now - window \<le> x) (hist s k)
     \<and> sorted (hist s k)
     \<and> (\<forall>t. length (in_window window t past) \<le> limit)"

lemma filter_shrink:
  "filter (\<lambda>x. c \<le> x) past = filter (\<lambda>x. c \<le> x) h \<Longrightarrow> c \<le> (d :: real) \<Longrightarrow>
   filter (\<lambda>x. d \<le> x) past = filter (\<lambda>x. d \<le> x) h"
proof -
  assume eq: "filter (\<lambda>x. c \<le> x) past = filter (\<lambda>x. c \<le> x) h" and "c \<le> d"
  then have "filter (\<lambda>x. d \<le> x) xs = filter (\<lambda>x. d \<le> x) (filter (\<lambda>x. c \<le> x) xs)" for xs :: "real list"
    by (auto intro!: filter_cong)
  then show ?thesis using eq by metis
qed

lemma tracks_step:
  assumes tr: "tracks k now past s" and "now \<le> now'"
  shows "tracks k now' (past @ (if j = k \<and> fst (attempt j now' s) then [now'] else []))
    (snd (attempt j now' s))"
proof -
  let ?s = "snd (attempt j now' s)"
  have srt: "sorted past" "sorted (hist s k)" and le: "\<forall>x \<in> set past. x \<le> now'"
    and win: "\<And>t. length (in_window window t past) \<le> limit"
    using tr \<open>now \<le> now'\<close> by (auto simp: tracks_def)
  have eq: "filter (\<lambda>x. now' - window \<le> x) past = filter (\<lambda>x. now' - window \<le> x) (hist s k)"
    using tr \<open>now \<le> now'\<close> filter_shrink [of "now - window" past "hist s k"]
    by (simp add: tracks_def)
  show ?thesis
  proof (cases "j = k \<and> fst (attempt j now' s)")
    case False
    have "hist ?s k = hist s k \<or> hist ?s k = drop_stale (now' - window) (hist s k)"
      using False other_hist own_hist by (cases "j = k") auto
    then show ?thesis
      using False srt le win eq by (auto simp: tracks_def drop_stale_sorted sorted_wrt_filter)
  next
    case True
    have h: "hist ?s k = filter (\<lambda>x. now' - window \<le> x) past @ [now']"
      using conjunct1 [OF True] conjunct2 [OF True] own_hist [of k now' s] srt eq
      by (simp add: drop_stale_sorted)
    have lim: "length (filter (\<lambda>x. now' - window \<le> x) past) < limit"
      using conjunct1 [OF True] conjunct2 [OF True] below_limit [of k now' s] srt eq
      by (simp add: drop_stale_sorted)
    have "length (in_window window t (past @ [now'])) \<le> limit" for t
    proof (cases "now' \<le> t")
      case False
      then show ?thesis using win [of t] by (simp add: in_window_def)
    next
      case True
      have "length (filter (\<lambda>x. t - window \<le> x \<and> x \<le> t) past)
          \<le> length (filter (\<lambda>x. now' - window \<le> x) past)"
        using True by (intro length_filter_mono) auto
      with lim show ?thesis by (simp add: in_window_def)
    qed
    moreover have "sorted (filter (\<lambda>x. now' - window \<le> x) past)"
      using srt by (simp add: sorted_wrt_filter)
    ultimately show ?thesis
      using True srt le h window_nonneg by (auto simp: tracks_def sorted_append)
  qed
qed

lemma tracks_run:
  assumes "tracks k now past s" and "sorted (now # map snd rs)"
  shows "\<forall>t. length (in_window window t (past @ admitted attempt k rs s)) \<le> limit"
  using assms
proof (induction rs arbitrary: now past s)
  case Nil
  then show ?case by (simp add: tracks_def)
next
  case (Cons r rs)
  obtain j now' where r: "r = (j, now')" by (cases r)
  have "tracks k now' (past @ (if j = k \<and> fst (attempt j now' s) then [now'] else []))
      (snd (attempt j now' s))"
    using Cons.prems by (intro tracks_step [of k now]) (auto simp: r)
  from Cons.IH [OF this] Cons.prems show ?case by (simp add: r)
qed

lemma window_bound:
  assumes "hist s k = []" and "sorted (map snd rs)"
  shows "length (in_window window t (admitted attempt k rs s)) \<le> limit"
proof (cases rs)
  case Nil
  then show ?thesis by (simp add: in_window_def)
next
  case (Cons r rs')
  have "tracks k (snd r) [] s"
    using assms by (simp add: tracks_def in_window_def)
  then show ?thesis
    using tracks_run [of k "snd r" "[]" s rs] assms Cons by simp
qed

end

subsection \<open>RateLimiter\<close>

definition DEFAULT_RATE_LIMIT :: int where "DEFAULT_RATE_LIMIT = 4"
definition DEFAULT_RATE_WINDOW_SECONDS :: real where "DEFAULT_RATE_WINDOW_SECONDS = 60"

record rate_limiter =
  rl_limit :: int
  rl_window_seconds :: real
  rl_history :: "(string, real list) pydict"

definition rate_limiter_init :: "int \<Rightarrow> real \<Rightarrow> rate_limiter result" where
  "rate_limiter_init lm win =
     (if lm \<le> 0 then raise (ValueError ''limit must be positive'')
      else if win \<le> 0 then raise (ValueError ''window_seconds must be positive'')
      else ok \<lparr>rl_limit = lm, rl_window_seconds = win, rl_history = []\<rparr>)"

definition allow :: "string \<Rightarrow> real \<Rightarrow> rate_limiter \<Rightarrow> bool \<times> rate_limiter" where
  "allow peer_key now rl =
     (let cutoff = now - rl_window_seconds rl;
          bucket = drop_stale cutoff (dict_get (rl_history rl) peer_key [])
      in if int (length bucket) \<ge> rl_limit rl
         then (False, rl\<lparr>rl_history := AList.update peer_key bucket (rl_history rl)\<rparr>)
         else (True, rl\<lparr>rl_history := AList.update peer_key (bucket @ [now]) (rl_history rl)\<rparr>))"

lemma allow_config [simp]:
  "rl_limit (snd (allow k now rl)) = rl_limit rl"
  "rl_window_seconds (snd (allow k now rl)) = rl_window_seconds rl"
  by (simp_all add: allow_def Let_def)

text \<open>The contract is about limiters with one fixed configuration, so the interpretation takes
  the limiter as its history together with that configuration.\<close>

definition allow_hist ::
    "int \<Rightarrow> real \<Rightarrow> string \<Rightarrow> real \<Rightarrow> (string, real list) pydict \<Rightarrow> bool \<times> (string, real list) pydict"
  where "allow_hist lm win k now h =
     (let r = allow k now \<lparr>rl_limit = lm, rl_window_seconds = win, rl_history = h\<rparr>
      in (fst r, rl_history (snd r)))"

interpretation rate_window: sliding_window "allow_hist lm (max 0 win)"
  "\<lambda>h k. dict_get h k []" "nat lm" "max 0 win" for lm :: int and win :: real
  by unfold_locales
    (auto simp: allow_hist_def allow_def Let_def dict_get_def dict_simps split: option.splits if_splits)

lemma allow_hist_eq:
  "admitted (allow_hist (rl_limit rl) (rl_window_seconds rl)) k rs (rl_history rl) = admitted allow k rs rl"
proof (induction rs arbitrary: rl)
  case Nil
  then show ?case by simp
next
  case (Cons r rs)
  obtain j now where r: "r = (j, now)" by (cases r)
  have st: "allow_hist (rl_limit rl) (rl_window_seconds rl) j now (rl_history rl) =
      (fst (allow j now rl), rl_history (snd (allow j now rl)))"
    by (cases rl) (simp add: allow_hist_def Let_def)
  show ?case
    using Cons.IH [of "snd (allow j now rl)"] by (simp add: r st)
qed

section \<open>What the limits promise\<close>

text \<open>Over any interval of \<open>T\<close> seconds, whatever requests other peers and transfers make in between, at
  most \<open>40 + T/2\<close> NACKs of one peer and at most \<open>20 + T/2\<close> NACKs for one transfer pass their token
  bucket.\<close>

theorem nack_budget:
  assumes "sorted (map snd rs)" and "\<forall>t \<in> snd ` set rs. t0 \<le> t \<and> t \<le> t0 + T" and "0 \<le> T"
  shows "real (length (admitted nack_try_consume k rs [])) \<le> 40 + T / 2
    \<and> real (length (admitted nack_try_consume_transfer k rs [])) \<le> 20 + T / 2"
  using peer_bucket.admitted_bound [of rs t0 "t0 + T" "[]" k]
    transfer_bucket.admitted_bound [of rs t0 "t0 + T" "[]" k] assms
  by (simp add: nack_constants)

theorem nack_budget_witness:
  "real (length (admitted nack_try_consume ''aa'' [(''aa'', 0), (''bb'', 1), (''aa'', 2)] [])) \<le> 40 + 2 / 2
    \<and> real (length (admitted nack_try_consume_transfer ''aa'' [(''aa'', 0), (''bb'', 1), (''aa'', 2)] [])) \<le> 20 + 2 / 2"
  by (rule nack_budget [of _ 0]) simp_all

text \<open>A freshly constructed rate limiter never lets more than \<open>limit\<close> requests of one peer through in any
  closed window of \<open>window_seconds\<close>, wherever the window lies and whatever the other peers do.\<close>

lemma rate_limiter_bound:
  assumes "rate_limiter_init lm win = ok rl" and "sorted (map snd rs)"
  shows "int (length (in_window win t (admitted allow k rs rl))) \<le> lm"
proof -
  have rl: "rl_limit rl = lm" "rl_window_seconds rl = win" "rl_history rl = []" and pos: "0 < lm" "0 < win"
    using assms(1) by (auto simp: rate_limiter_init_def split: if_splits)
  have "length (in_window win t (admitted (allow_hist lm win) k rs [])) \<le> nat lm"
    using rate_window.window_bound [of "[]" k rs win t lm] assms(2) pos by (simp add: dict_get_def max_def)
  then show ?thesis
    using allow_hist_eq [of rl k rs] rl pos by simp
qed

end
