(* ===== verification/Community_State.thy ===== *)
theory Community_State
  imports Chunk_Codec Reassembly Rate_Limits
begin

text \<open>
  State, messages and effects of \<open>GossipLearningCommunity\<close>
  (\<open>network/gossip_community.py\<close>). A handler is a function from the state to the new state
  and the list of effects, in the order in which the code causes them. What the code reads from
  outside (the clock, the training round, the keys, whether a model deserializes, whether a
  callback raises) is in the record \<open>env\<close>, one value per handler invocation.

  \<^item> A model that deserializes is identified with the bytes it came from, a parsed fingerprint
    with its JSON text: \<open>e_deserializes\<close> and \<open>e_fp_parses\<close> say which ones are accepted.
  \<^item> A peer is its hex \<open>mid\<close> and its public key.
\<close>

section \<open>Constants\<close>

definition MAX_INCOMING_MESSAGE_SIZE :: int where "MAX_INCOMING_MESSAGE_SIZE = 150 * 1024 * 1024"
definition CHUNK_SIZE :: nat where "CHUNK_SIZE = 768"
definition CHUNK_ACK_INTERVAL :: real where "CHUNK_ACK_INTERVAL = 1 / 4"
definition CHUNK_ACK_EVERY :: int where "CHUNK_ACK_EVERY = 16"
definition CHUNK_WINDOW_INITIAL :: int where "CHUNK_WINDOW_INITIAL = 16"
definition CHUNK_WINDOW_MAX :: int where "CHUNK_WINDOW_MAX = 128"
definition CHUNK_ACK_TIMEOUT :: real where "CHUNK_ACK_TIMEOUT = 12"
definition CHUNK_MAX_SEND_ATTEMPTS :: int where "CHUNK_MAX_SEND_ATTEMPTS = 8"
definition CHUNK_MAX_NACK_INDICES :: nat where "CHUNK_MAX_NACK_INDICES = 128"
definition RECEIVER_NACK_REPORT_INTERVAL :: real where "RECEIVER_NACK_REPORT_INTERVAL = 30"
definition OUTGOING_TRANSFER_CACHE_TTL :: real where
  "OUTGOING_TRANSFER_CACHE_TTL = CHUNK_TRANSFER_TIMEOUT * 2"
definition MAX_CONCURRENT_TRANSFERS_PER_PEER :: nat where "MAX_CONCURRENT_TRANSFERS_PER_PEER = 8"
definition MAX_TOTAL_TRANSFERS :: nat where "MAX_TOTAL_TRANSFERS = 50"
definition MAX_BUFFERED_BYTES_PER_PEER :: nat where "MAX_BUFFERED_BYTES_PER_PEER = 200 * 1024 * 1024"
definition MAX_CHUNKS_PER_TRANSFER :: int where "MAX_CHUNKS_PER_TRANSFER = 300000"
definition EARLY_NACK_AGE_THRESHOLD :: real where "EARLY_NACK_AGE_THRESHOLD = 10"
definition MAX_FINGERPRINT_BYTES :: nat where "MAX_FINGERPRINT_BYTES = 8192"
definition COMPLETED_TRANSFER_TTL :: real where "COMPLETED_TRANSFER_TTL = 600"
definition RECENT_CHUNK_TTL :: real where "RECENT_CHUNK_TTL = 120"
definition STALE_PEER_TIMEOUT :: real where "STALE_PEER_TIMEOUT = 300"

section \<open>Peers\<close>

record ipv8_peer =
  pr_mid :: string
  pr_public_key :: bytes

record net_peer_info =
  np_peer :: ipv8_peer
  np_node_id :: string
  np_domain :: string
  np_data_schema_hash :: string
  np_model_version :: string
  np_manifest_id :: string
  np_last_seen :: real
  np_fingerprint :: "string option"

definition np_is_compatible :: "string \<Rightarrow> string \<Rightarrow> string \<Rightarrow> net_peer_info \<Rightarrow> bool" where
  "np_is_compatible domain schema manifest_id p =
     (if manifest_id \<noteq> [] \<and> np_manifest_id p \<noteq> [] then np_manifest_id p = manifest_id
      else np_domain p = domain \<and> np_data_schema_hash p = schema)"

definition np_age :: "real \<Rightarrow> net_peer_info \<Rightarrow> real" where
  "np_age now p = now - np_last_seen p"

definition np_update_seen :: "real \<Rightarrow> net_peer_info \<Rightarrow> net_peer_info" where
  "np_update_seen now p = p\<lparr>np_last_seen := now\<rparr>"

section \<open>Outgoing transfers\<close>

type_synonym inflight_key = "string \<times> int \<times> string"

record outgoing_entry =
  oe_weights :: bytes
  oe_loss :: float64
  oe_accuracy :: float64
  oe_round :: int
  oe_samples :: int
  oe_timestamp :: int
  oe_recipient_mid :: string

record outgoing_transfer =
  ot_transfer_id :: string
  ot_target_node_id :: string
  ot_recipient_mid :: string
  ot_peer :: ipv8_peer
  ot_weights_bytes :: bytes
  ot_sample_count :: int
  ot_round_number :: int
  ot_loss :: float64
  ot_accuracy :: float64
  ot_timestamp :: int
  ot_total_chunks :: int
  ot_inflight_key :: inflight_key
  ot_next_index :: int
  ot_acked :: "int set"
  ot_sent_at :: "(int, real) pydict"
  ot_attempts :: "(int, int) pydict"
  ot_completed :: bool
  ot_failed_reason :: "string option"
  ot_created_at :: real
  ot_retry_count :: int

definition in_flight_count :: "real \<Rightarrow> outgoing_transfer \<Rightarrow> nat" where
  "in_flight_count now t =
     length (filter (\<lambda>(index, sent). index \<notin> ot_acked t \<and> now - sent < CHUNK_ACK_TIMEOUT)
       (ot_sent_at t))"

section \<open>Messages and effects\<close>

datatype message =
    MsgDiscovery discovery_announce
  | MsgUpdate model_update
  | MsgHeartbeat heartbeat
  | MsgChunk model_chunk
  | MsgRequest request_chunks
  | MsgShuffle shuffle_request
  | MsgShuffleResponse shuffle_response
  | MsgCheckpoint checkpoint_announce
  | MsgAck chunk_ack

datatype event_val = EStr string | EInt int

record model_delivery =
  md_sender_id :: string
  md_weights :: bytes
  md_sample_count :: int
  md_round_number :: int
  md_loss :: float64
  md_accuracy :: float64

datatype effect =
    Send ipv8_peer message
  | Emit string "(string, event_val) pydict"
  | ModelCallback model_delivery
  | ScheduleModel model_delivery string string
  | PeerDiscovered net_peer_info
  | PeerLeft string
  | CheckpointCallback checkpoint_announce
  | Persist "(string, int) pydict"
  | Raised py_error

section \<open>The community's state\<close>

record metrics =
  chunk_transfers_started :: int
  chunk_transfers_completed :: int
  chunk_transfers_failed_timeout :: int
  chunk_transfers_rejected_peer_limit :: int
  nacks_sent :: int
  nacks_received :: int
  nacks_ignored_budget :: int
  chunks_resent :: int

definition metrics_init :: metrics where
  "metrics_init = \<lparr>chunk_transfers_started = 0, chunk_transfers_completed = 0,
     chunk_transfers_failed_timeout = 0, chunk_transfers_rejected_peer_limit = 0,
     nacks_sent = 0, nacks_received = 0, nacks_ignored_budget = 0, chunks_resent = 0\<rparr>"

record community =
  cm_node_id :: string
  cm_domain :: string
  cm_data_schema_hash :: string
  cm_model_version :: string
  cm_require_signature :: bool
  cm_last_seen_round_state_path :: string
  cm_max_round_skip :: int
  cm_manifest_hash :: string
  cm_known_peers :: "(string, net_peer_info) pydict"
  cm_mid_to_node_id :: "(string, string) pydict"
  cm_heartbeat_sequence :: int
  cm_chunk_buffers :: "(string \<times> string, chunk_buffer) pydict"
  cm_outgoing_transfers :: "(string, outgoing_entry) pydict"
  cm_active_outgoing_transfers :: "(string, outgoing_transfer) pydict"
  cm_nack_resend_counts :: "(string, int) pydict"
  cm_nack_buckets :: "(string, bucket) pydict"
  cm_nack_transfer_buckets :: "(string, bucket) pydict"
  cm_inflight_transfers :: "(inflight_key, string) pydict"
  cm_completed_chunk_transfers :: "(string \<times> string, real) pydict"
  cm_metrics :: metrics
  cm_last_seen_round :: "(string, int) pydict"
  cm_recent_chunks :: "(string \<times> string \<times> int, real) pydict"
  cm_has_update_callback :: bool
  cm_has_discovered_callback :: bool
  cm_has_left_callback :: bool
  cm_has_shuffle_callback :: bool
  cm_has_checkpoint_callback :: bool
  cm_has_emitter :: bool

definition community_init ::
    "string \<Rightarrow> string \<Rightarrow> string \<Rightarrow> string \<Rightarrow> bool \<Rightarrow> string \<Rightarrow> int \<Rightarrow> (string, int) pydict \<Rightarrow> community" where
  "community_init node_id domain schema model_version require_signature path max_round_skip loaded =
     \<lparr>cm_node_id = node_id, cm_domain = domain, cm_data_schema_hash = schema,
      cm_model_version = model_version, cm_require_signature = require_signature,
      cm_last_seen_round_state_path = path, cm_max_round_skip = max_round_skip,
      cm_manifest_hash = [], cm_known_peers = [], cm_mid_to_node_id = [],
      cm_heartbeat_sequence = 0, cm_chunk_buffers = [], cm_outgoing_transfers = [],
      cm_active_outgoing_transfers = [], cm_nack_resend_counts = [], cm_nack_buckets = [],
      cm_nack_transfer_buckets = [], cm_inflight_transfers = [],
      cm_completed_chunk_transfers = [], cm_metrics = metrics_init,
      cm_last_seen_round = loaded, cm_recent_chunks = [],
      cm_has_update_callback = False, cm_has_discovered_callback = False,
      cm_has_left_callback = False, cm_has_shuffle_callback = False,
      cm_has_checkpoint_callback = False, cm_has_emitter = False\<rparr>"

record env =
  e_crypto :: crypto
  e_now :: real
  e_local_round :: int
  e_deserializes :: "bytes \<Rightarrow> bool"
  e_fp_parses :: "string \<Rightarrow> bool"
  e_callback_ok :: bool
  e_endian :: endian

section \<open>Observability\<close>

text \<open>\<open>_emit_ipv8_payload_dropped\<close>: the security event, if any, precedes the generic one and both
  carry the same payload; nothing happens without an emitter.\<close>

definition emit_dropped ::
    "community \<Rightarrow> string \<Rightarrow> string \<Rightarrow> string \<Rightarrow> string option \<Rightarrow> string \<Rightarrow> (string, event_val) pydict \<Rightarrow> effect list"
  where
  "emit_dropped st reason sender_id peer_mid security_event transport details =
     (if \<not> cm_has_emitter st then []
      else let payload =
        [(''node_id'', EStr (cm_node_id st)), (''reason'', EStr reason),
         (''sender_id'', EStr sender_id), (''peer_mid'', EStr peer_mid),
         (''transport'', EStr transport)] @ details
      in (case security_event of None \<Rightarrow> [] | Some ev \<Rightarrow> [Emit ev payload])
         @ [Emit ''ipv8_payload_dropped'' payload])"

definition is_emit :: "effect \<Rightarrow> bool" where
  "is_emit e \<longleftrightarrow> (case e of Emit _ _ \<Rightarrow> True | _ \<Rightarrow> False)"

definition is_raised :: "effect \<Rightarrow> bool" where
  "is_raised e \<longleftrightarrow> (case e of Raised _ \<Rightarrow> True | _ \<Rightarrow> False)"

lemma is_raised_simps [simp]: "is_raised (Raised err)" "\<not> is_raised (Send q m)"
  by (simp_all add: is_raised_def)

lemma emit_dropped_only_emits: "e \<in> set (emit_dropped st r s m ev tr d) \<Longrightarrow> is_emit e"
  by (auto simp: emit_dropped_def is_emit_def Let_def split: if_splits option.splits)

section \<open>Shared steps\<close>

text \<open>\<open>if node_id in self.known_peers: self.known_peers[node_id].update_seen()\<close>.\<close>

definition touch_peer :: "real \<Rightarrow> string \<Rightarrow> community \<Rightarrow> community" where
  "touch_peer now node_id st =
     (case map_of (cm_known_peers st) node_id of
        None \<Rightarrow> st
      | Some p \<Rightarrow> st\<lparr>cm_known_peers := AList.update node_id (np_update_seen now p) (cm_known_peers st)\<rparr>)"

text \<open>\<open>_persist_last_seen_round_state\<close>: nothing without a path; the write replaces the file as a
  whole or leaves it.\<close>

definition persist_last_seen :: "community \<Rightarrow> effect list" where
  "persist_last_seen st =
     (if cm_last_seen_round_state_path st = [] then [] else [Persist (cm_last_seen_round st)])"

definition update_meta :: "model_update \<Rightarrow> chunk_meta" where
  "update_meta p = \<lparr>cm_sample_count = mu_sample_count p, cm_loss = mu_loss p,
     cm_accuracy = mu_accuracy p, cm_timestamp = mu_timestamp p, cm_total_chunks = 1\<rparr>"

definition chunk_payload_meta :: "model_chunk \<Rightarrow> chunk_meta" where
  "chunk_payload_meta p = \<lparr>cm_sample_count = mc_sample_count p, cm_loss = mc_loss p,
     cm_accuracy = mc_accuracy p, cm_timestamp = mc_timestamp p,
     cm_total_chunks = mc_total_chunks p\<rparr>"

lemma touch_peer_frame [simp]:
  "cm_chunk_buffers (touch_peer now n st) = cm_chunk_buffers st"
  "cm_recent_chunks (touch_peer now n st) = cm_recent_chunks st"
  "cm_completed_chunk_transfers (touch_peer now n st) = cm_completed_chunk_transfers st"
  "cm_last_seen_round (touch_peer now n st) = cm_last_seen_round st"
  "cm_mid_to_node_id (touch_peer now n st) = cm_mid_to_node_id st"
  "cm_max_round_skip (touch_peer now n st) = cm_max_round_skip st"
  "cm_require_signature (touch_peer now n st) = cm_require_signature st"
  "cm_metrics (touch_peer now n st) = cm_metrics st"
  "cm_node_id (touch_peer now n st) = cm_node_id st"
  "cm_has_emitter (touch_peer now n st) = cm_has_emitter st"
  "cm_has_update_callback (touch_peer now n st) = cm_has_update_callback st"
  "cm_outgoing_transfers (touch_peer now n st) = cm_outgoing_transfers st"
  "cm_active_outgoing_transfers (touch_peer now n st) = cm_active_outgoing_transfers st"
  "cm_last_seen_round_state_path (touch_peer now n st) = cm_last_seen_round_state_path st"
  "cm_heartbeat_sequence (touch_peer now n st) = cm_heartbeat_sequence st"
  "cm_data_schema_hash (touch_peer now n st) = cm_data_schema_hash st"
  by (simp_all add: touch_peer_def split: option.splits)

text \<open>Refreshing a peer changes nothing but its time stamp.\<close>

lemma touch_peer_known:
  "map_of (cm_known_peers (touch_peer now n st)) k =
     (if k = n then map_option (np_update_seen now) (map_of (cm_known_peers st) n)
      else map_of (cm_known_peers st) k)"
  by (auto simp: touch_peer_def dict_simps split: option.splits)

lemma touch_peer_dict_wf:
  "dict_wf (cm_known_peers st) \<Longrightarrow> dict_wf (cm_known_peers (touch_peer now n st))"
  by (auto simp: touch_peer_def dict_simps split: option.splits)

end
