(* ===== verification/Community_Handlers.thy ===== *)
theory Community_Handlers
  imports Community_State "HOL-Library.List_Lexorder" "HOL-Library.Char_ord"
begin

text \<open>
  The handlers of \<open>GossipLearningCommunity\<close> that do not concern chunked transfers:
  discovery announcements, direct model updates with replay protection, heartbeats, checkpoint
  announcements, shuffle responses and the removal of stale peers.
\<close>

section \<open>Discovery\<close>

definition parse_fingerprint :: "env \<Rightarrow> discovery_announce \<Rightarrow> string option" where
  "parse_fingerprint e p =
     (if da_fingerprint_json p = [] then None
      else if length (encode (da_fingerprint_json p)) > MAX_FINGERPRINT_BYTES then None
      else if e_fp_parses e (da_fingerprint_json p) then Some (da_fingerprint_json p)
      else None)"

definition on_discovery_announce ::
    "env \<Rightarrow> ipv8_peer \<Rightarrow> discovery_announce \<Rightarrow> community \<Rightarrow> community \<times> effect list" where
  "on_discovery_announce e peer p st =
     (let local_mid = cm_manifest_hash st; remote_mid = da_manifest_id p in
      if manifest_id_blocks_peer local_mid remote_mid then
        (st, if cm_has_emitter st
             then [Emit ''security.discovery_manifest_mismatch''
                    [(''peer'', EStr (da_node_id p)), (''local_manifest_id'', EStr local_mid),
                     (''remote_manifest_id'', EStr remote_mid)]]
             else [])
      else if da_domain p \<noteq> cm_domain st \<or> da_data_schema_hash p \<noteq> cm_data_schema_hash st then (st, [])
      else let fingerprint = parse_fingerprint e p in
        case map_of (cm_known_peers st) (da_node_id p) of
          Some info \<Rightarrow>
            let seen = np_update_seen (e_now e) info;
                info' = (case fingerprint of None \<Rightarrow> seen | Some fp \<Rightarrow> seen\<lparr>np_fingerprint := Some fp\<rparr>)
            in (st\<lparr>cm_known_peers := AList.update (da_node_id p) info' (cm_known_peers st)\<rparr>, [])
        | None \<Rightarrow>
            let info = \<lparr>np_peer = peer, np_node_id = da_node_id p, np_domain = da_domain p,
                  np_data_schema_hash = da_data_schema_hash p, np_model_version = da_model_version p,
                  np_manifest_id = remote_mid, np_last_seen = e_now e, np_fingerprint = fingerprint\<rparr>
            in (st\<lparr>cm_known_peers := AList.update (da_node_id p) info (cm_known_peers st),
                   cm_mid_to_node_id := AList.update (pr_mid peer) (da_node_id p) (cm_mid_to_node_id st)\<rparr>,
                if cm_has_discovered_callback st then [PeerDiscovered info] else []))"

text \<open>\<open>_announce_discovery\<close> to the peers IPv8 currently connects to.\<close>

definition announce_discovery :: "ipv8_peer list \<Rightarrow> string \<Rightarrow> community \<Rightarrow> effect list" where
  "announce_discovery peers fingerprint_json st =
     map (\<lambda>peer. Send peer (MsgDiscovery
       \<lparr>da_node_id = cm_node_id st, da_domain = cm_domain st,
        da_data_schema_hash = cm_data_schema_hash st, da_model_version = cm_model_version st,
        da_fingerprint_json = fingerprint_json, da_manifest_id = cm_manifest_hash st\<rparr>)) peers"

text \<open>\<open>_cleanup_stale_peers\<close>.\<close>

definition stale_peers :: "real \<Rightarrow> community \<Rightarrow> string list" where
  "stale_peers now st =
     map fst (filter (\<lambda>(_, p). np_age now p > STALE_PEER_TIMEOUT) (cm_known_peers st))"

fun remove_peers :: "string list \<Rightarrow> community \<Rightarrow> community \<times> effect list" where
  "remove_peers [] st = (st, [])"
| "remove_peers (n # ns) st =
     (case map_of (cm_known_peers st) n of
        None \<Rightarrow> (st, [Raised KeyError])
      | Some info \<Rightarrow>
          let st1 = st\<lparr>cm_known_peers := AList.delete n (cm_known_peers st),
                       cm_mid_to_node_id := AList.delete (pr_mid (np_peer info)) (cm_mid_to_node_id st)\<rparr>;
              (st2, effs) = remove_peers ns st1
          in (st2, (if cm_has_left_callback st then [PeerLeft n] else []) @ effs))"

definition cleanup_stale_peers :: "real \<Rightarrow> community \<Rightarrow> community \<times> effect list" where
  "cleanup_stale_peers now st = remove_peers (stale_peers now st) st"

section \<open>Heartbeats and checkpoints\<close>

definition send_heartbeat :: "community \<Rightarrow> community \<times> effect list" where
  "send_heartbeat st =
     (let st1 = st\<lparr>cm_heartbeat_sequence := cm_heartbeat_sequence st + 1\<rparr>
      in (st1, map (\<lambda>(_, info). Send (np_peer info) (MsgHeartbeat
            \<lparr>hb_node_id = cm_node_id st1, hb_sequence = cm_heartbeat_sequence st1\<rparr>)) (cm_known_peers st1)))"

definition on_heartbeat :: "env \<Rightarrow> ipv8_peer \<Rightarrow> heartbeat \<Rightarrow> community \<Rightarrow> community \<times> effect list" where
  "on_heartbeat e peer p st = (touch_peer (e_now e) (hb_node_id p) st, [])"

definition on_checkpoint ::
    "env \<Rightarrow> ipv8_peer \<Rightarrow> checkpoint_announce \<Rightarrow> community \<Rightarrow> community \<times> effect list" where
  "on_checkpoint e peer p st =
     (touch_peer (e_now e) (cp_sender_id p) st,
      if cm_has_checkpoint_callback st then [CheckpointCallback p] else [])"

definition broadcast_checkpoint :: "checkpoint_announce \<Rightarrow> community \<Rightarrow> effect list" where
  "broadcast_checkpoint p st =
     map (\<lambda>(_, info). Send (np_peer info) (MsgCheckpoint p)) (cm_known_peers st)"

section \<open>Direct model updates\<close>

text \<open>The identity gate of \<open>on_model_update\<close> and \<open>on_model_chunk\<close>: the name a peer announced
  itself under, if there is one, must be the sender's name.\<close>

definition identity_mismatch :: "community \<Rightarrow> ipv8_peer \<Rightarrow> string \<Rightarrow> string option" where
  "identity_mismatch st peer sender_id =
     (case map_of (cm_mid_to_node_id st) (pr_mid peer) of
        None \<Rightarrow> None
      | Some expected \<Rightarrow> if sender_id \<noteq> expected then Some expected else None)"

datatype verdict = Accept | Reject "effect list"

definition update_signature_gate :: "env \<Rightarrow> ipv8_peer \<Rightarrow> model_update \<Rightarrow> community \<Rightarrow> verdict" where
  "update_signature_gate e peer p st =
     (if mu_signature p \<noteq> [] then
        (case chunk_verify (e_crypto e) (pr_public_key peer) (mu_signature p) (mu_sender_id p)
                (mu_round_number p) (mu_data_schema_hash p) 0 (mu_weights_bytes p) (update_meta p) of
           Inl err \<Rightarrow> Reject [Raised err]
         | Inr valid \<Rightarrow>
             if valid then Accept
             else Reject (emit_dropped st ''invalid signature'' (mu_sender_id p) (pr_mid peer)
                    (Some ''security.signature_rejected'') ''direct'' []))
      else if cm_require_signature st
      then Reject (emit_dropped st ''missing signature'' (mu_sender_id p) (pr_mid peer)
             (Some ''security.signature_missing'') ''direct'' [])
      else Accept)"

definition last_round_of :: "community \<Rightarrow> string \<Rightarrow> int" where
  "last_round_of st mid = dict_get (cm_last_seen_round st) mid (-1)"

definition update_gate :: "env \<Rightarrow> ipv8_peer \<Rightarrow> model_update \<Rightarrow> community \<Rightarrow> verdict" where
  "update_gate e peer p st =
     (case identity_mismatch st peer (mu_sender_id p) of
        Some expected \<Rightarrow> Reject (emit_dropped st ''identity mismatch'' (mu_sender_id p) (pr_mid peer)
          (Some ''security.identity_mismatch'') ''direct'' [(''expected_sender_id'', EStr expected)])
      | None \<Rightarrow>
        (case update_signature_gate e peer p st of
           Reject effs \<Rightarrow> Reject effs
         | Accept \<Rightarrow>
             if mu_round_number p > e_local_round e + cm_max_round_skip st
             then Reject (emit_dropped st ''future round rejected'' (mu_sender_id p) (pr_mid peer)
               (Some ''security.future_round_rejected'') ''direct''
               [(''round_number'', EInt (mu_round_number p)), (''local_round'', EInt (e_local_round e))])
             else if mu_round_number p \<le> last_round_of st (pr_mid peer)
             then Reject (emit_dropped st ''replayed round'' (mu_sender_id p) (pr_mid peer)
               (Some ''security.replay_rejected'') ''direct''
               [(''round_number'', EInt (mu_round_number p)),
                (''last_round'', EInt (last_round_of st (pr_mid peer)))])
             else if int (length (mu_weights_bytes p)) > MAX_INCOMING_MESSAGE_SIZE
             then Reject (emit_dropped st ''oversized model'' (mu_sender_id p) (pr_mid peer)
               (Some ''security.oversized_message'') ''direct''
               [(''size_bytes'', EInt (int (length (mu_weights_bytes p))))])
             else Accept))"

definition update_delivery :: "model_update \<Rightarrow> model_delivery" where
  "update_delivery p = \<lparr>md_sender_id = mu_sender_id p, md_weights = mu_weights_bytes p,
     md_sample_count = mu_sample_count p, md_round_number = mu_round_number p,
     md_loss = mu_loss p, md_accuracy = mu_accuracy p\<rparr>"

definition record_round :: "string \<Rightarrow> int \<Rightarrow> community \<Rightarrow> community" where
  "record_round mid r st = st\<lparr>cm_last_seen_round :=
     AList.update mid (max (last_round_of st mid) r) (cm_last_seen_round st)\<rparr>"

text \<open>The handler up to its await: an update that passes the gate and deserializes is handed to the callback and waits for it;
  without a callback it is recorded at once. The Boolean says that the handler waits.\<close>

definition begin_model_update ::
    "env \<Rightarrow> ipv8_peer \<Rightarrow> model_update \<Rightarrow> community \<Rightarrow> community \<times> effect list \<times> bool" where
  "begin_model_update e peer p st =
     (case update_gate e peer p st of
        Reject effs \<Rightarrow> (st, effs, False)
      | Accept \<Rightarrow>
          let st1 = touch_peer (e_now e) (mu_sender_id p) st in
          if \<not> e_deserializes e (mu_weights_bytes p)
          then (st1, emit_dropped st ''deserialization error'' (mu_sender_id p) (pr_mid peer) None ''direct'' [], False)
          else if cm_has_update_callback st then (st1, [ModelCallback (update_delivery p)], True)
          else let st2 = record_round (pr_mid peer) (mu_round_number p) st1 in (st2, persist_last_seen st2, False))"

text \<open>The handler after the callback has returned or raised; other messages may have been handled in between.\<close>

definition finish_model_update ::
    "env \<Rightarrow> ipv8_peer \<Rightarrow> model_update \<Rightarrow> community \<Rightarrow> community \<times> effect list" where
  "finish_model_update e peer p st =
     (if \<not> e_callback_ok e
      then (st, emit_dropped st ''callback error'' (mu_sender_id p) (pr_mid peer) None ''direct'' [])
      else let st1 = record_round (pr_mid peer) (mu_round_number p) st in (st1, persist_last_seen st1))"

text \<open>The whole handler when nothing happens while the callback runs.\<close>

definition on_model_update ::
    "env \<Rightarrow> ipv8_peer \<Rightarrow> model_update \<Rightarrow> community \<Rightarrow> community \<times> effect list" where
  "on_model_update e peer p st =
     (let (st1, effs, waits) = begin_model_update e peer p st in
      if waits then let (st2, effs') = finish_model_update e peer p st1 in (st2, effs @ effs') else (st1, effs))"

text \<open>\<open>_load_last_seen_round_state\<close>: the entries of the stored JSON object whose value converts to an
  integer; \<open>None\<close> for a missing or unreadable file or a value that is not an object. Only a string
  can be a key.\<close>

definition load_last_seen :: "(string, int option) pydict option \<Rightarrow> community \<Rightarrow> community" where
  "load_last_seen raw_state st =
     (if cm_last_seen_round_state_path st = [] then st
      else case raw_state of
        None \<Rightarrow> st
      | Some raw \<Rightarrow> st\<lparr>cm_last_seen_round :=
          fold (\<lambda>(peer_mid, v) loaded. case v of None \<Rightarrow> loaded | Some n \<Rightarrow> AList.update peer_mid n loaded) raw []\<rparr>)"

text \<open>\<open>json.dump(..., sort_keys=True)\<close> of the table, read back.\<close>

definition json_reload :: "(string, int) pydict \<Rightarrow> (string, int option) pydict" where
  "json_reload d = map (\<lambda>k. (k, map_of d k)) (sorted_list_of_set (set (map fst d)))"

lemmas gate_defs = update_gate_def update_signature_gate_def identity_mismatch_def

section \<open>Shuffle responses\<close>

text \<open>An entry of the msgpack list of a shuffle message.\<close>

record shuffle_entry =
  se_peer_id :: string
  se_domain :: string
  se_data_schema_hash :: string
  se_model_version :: string
  se_age :: int

text \<open>Without a topology callback the answer to a shuffle request is up to eight known peers other
  than the sender; with one it is what the callback returned (\<open>callback_peers\<close>). \<open>packb\<close> is
  msgpack's encoder.\<close>

definition view_entries :: "string \<Rightarrow> community \<Rightarrow> shuffle_entry list" where
  "view_entries sender_id st =
     take 8 (map (\<lambda>(_, p). \<lparr>se_peer_id = np_node_id p, se_domain = np_domain p,
         se_data_schema_hash = np_data_schema_hash p, se_model_version = np_model_version p, se_age = 0\<rparr>)
       (filter (\<lambda>(_, p). np_node_id p \<noteq> sender_id) (cm_known_peers st)))"

definition on_shuffle_request ::
    "(shuffle_entry list \<Rightarrow> bytes) \<Rightarrow> shuffle_entry list \<Rightarrow> ipv8_peer \<Rightarrow> string \<Rightarrow> community
     \<Rightarrow> community \<times> effect list" where
  "on_shuffle_request packb callback_peers peer sender_id st =
     (st, [Send peer (MsgShuffleResponse \<lparr>sr_sender_id = cm_node_id st,
        sr_peers_bytes = packb (if cm_has_shuffle_callback st then callback_peers
                                else view_entries sender_id st)\<rparr>)])"

definition send_shuffle :: "string \<Rightarrow> bytes \<Rightarrow> community \<Rightarrow> effect list \<times> bytes" where
  "send_shuffle target peers_bytes st =
     (case map_of (cm_known_peers st) target of
        None \<Rightarrow> ([], [])
      | Some info \<Rightarrow> ([Send (np_peer info) (MsgShuffle \<lparr>sh_sender_id = cm_node_id st,
                        sh_peers_bytes = peers_bytes\<rparr>)], []))"

fun learn_shuffled ::
    "real \<Rightarrow> ipv8_peer \<Rightarrow> shuffle_entry list \<Rightarrow> community \<Rightarrow> community \<times> effect list" where
  "learn_shuffled now peer [] st = (st, [])"
| "learn_shuffled now peer (x # xs) st =
     (if map_of (cm_known_peers st) (se_peer_id x) = None \<and> cm_has_discovered_callback st
      then let info = \<lparr>np_peer = peer, np_node_id = se_peer_id x, np_domain = se_domain x,
                 np_data_schema_hash = se_data_schema_hash x, np_model_version = se_model_version x,
                 np_manifest_id = [], np_last_seen = now, np_fingerprint = None\<rparr>;
               (st2, effs) = learn_shuffled now peer xs
                 (st\<lparr>cm_known_peers := AList.update (se_peer_id x) info (cm_known_peers st)\<rparr>)
           in (st2, PeerDiscovered info # effs)
      else learn_shuffled now peer xs st)"

definition on_shuffle_response ::
    "env \<Rightarrow> ipv8_peer \<Rightarrow> shuffle_entry list \<Rightarrow> community \<Rightarrow> community \<times> effect list" where
  "on_shuffle_response e peer remote_peers st =
     (if cm_has_shuffle_callback st then learn_shuffled (e_now e) peer remote_peers st else (st, []))"

section \<open>Lemmas\<close>

lemma update_gate_accept:
  "update_gate e peer p st = Accept \<longleftrightarrow>
     identity_mismatch st peer (mu_sender_id p) = None
     \<and> update_signature_gate e peer p st = Accept
     \<and> mu_round_number p \<le> e_local_round e + cm_max_round_skip st
     \<and> last_round_of st (pr_mid peer) < mu_round_number p
     \<and> int (length (mu_weights_bytes p)) \<le> MAX_INCOMING_MESSAGE_SIZE"
  by (auto simp: update_gate_def not_less not_le split: option.splits verdict.splits)

lemma last_round_record:
  "last_round_of (record_round m r st) k = (if k = m then max (last_round_of st m) r else last_round_of st k)"
  by (simp add: last_round_of_def record_round_def dict_get_def dict_simps)

lemma last_round_touch [simp]: "last_round_of (touch_peer now n st) = last_round_of st"
  by (simp add: last_round_of_def fun_eq_iff)

lemma on_model_update_eq:
  "on_model_update e peer p st =
     (case update_gate e peer p st of
        Reject effs \<Rightarrow> (st, effs)
      | Accept \<Rightarrow>
          let st1 = touch_peer (e_now e) (mu_sender_id p) st in
          if \<not> e_deserializes e (mu_weights_bytes p)
          then (st1, emit_dropped st ''deserialization error'' (mu_sender_id p) (pr_mid peer) None ''direct'' [])
          else let calls = (if cm_has_update_callback st then [ModelCallback (update_delivery p)] else []) in
            if cm_has_update_callback st \<and> \<not> e_callback_ok e
            then (st1, calls @ emit_dropped st ''callback error'' (mu_sender_id p) (pr_mid peer) None ''direct'' [])
            else let st2 = record_round (pr_mid peer) (mu_round_number p) st1
                 in (st2, calls @ persist_last_seen st2))"
  by (simp add: on_model_update_def begin_model_update_def finish_model_update_def emit_dropped_def Let_def split: verdict.split)

text \<open>Either a gate stops the update and nothing changes, or the round is a new one; only a round
  that was processed to the end is recorded.\<close>

lemma on_model_update_cases:
  obtains (rejected) effs where "update_gate e peer p st = Reject effs"
      "on_model_update e peer p st = (st, effs)"
  | (failed) effs where "update_gate e peer p st = Accept"
      "on_model_update e peer p st = (touch_peer (e_now e) (mu_sender_id p) st, effs)"
      "\<not> e_deserializes e (mu_weights_bytes p) \<or> cm_has_update_callback st \<and> \<not> e_callback_ok e"
  | (recorded) effs where "update_gate e peer p st = Accept"
      "e_deserializes e (mu_weights_bytes p)" "cm_has_update_callback st \<longrightarrow> e_callback_ok e"
      "on_model_update e peer p st = (record_round (pr_mid peer) (mu_round_number p)
         (touch_peer (e_now e) (mu_sender_id p) st), effs)"
      "ModelCallback d \<in> set effs \<longleftrightarrow> cm_has_update_callback st \<and> d = update_delivery p"
proof (cases "update_gate e peer p st")
  case (Reject effs)
  then show ?thesis using rejected by (simp add: on_model_update_eq)
next
  case Accept
  show ?thesis
  proof (cases "\<not> e_deserializes e (mu_weights_bytes p) \<or> cm_has_update_callback st \<and> \<not> e_callback_ok e")
    case True
    then have "\<exists>effs. on_model_update e peer p st = (touch_peer (e_now e) (mu_sender_id p) st, effs)"
      using Accept by (auto simp: on_model_update_eq Let_def)
    then show ?thesis using Accept True failed by blast
  next
    case False
    let ?st = "record_round (pr_mid peer) (mu_round_number p) (touch_peer (e_now e) (mu_sender_id p) st)"
    have "on_model_update e peer p st =
        (?st, (if cm_has_update_callback st then [ModelCallback (update_delivery p)] else [])
          @ persist_last_seen ?st)"
      using Accept False by (auto simp: on_model_update_eq Let_def)
    moreover have "ModelCallback d \<notin> set (persist_last_seen ?st)"
      by (simp add: persist_last_seen_def)
    ultimately show ?thesis
      using Accept False recorded by auto
  qed
qed

lemma on_model_update_last_round:
  "last_round_of st k \<le> last_round_of (fst (on_model_update e peer p st)) k"
  by (rule on_model_update_cases [of e peer p st]) (simp_all add: last_round_record)

text \<open>The table written by a node is the table it reads back.\<close>

lemma fold_load:
  assumes "distinct (map fst raw)" and "\<forall>k v. (k, v) \<in> set raw \<longrightarrow> v \<noteq> None"
  shows "map_of (fold (\<lambda>(m, v) l. case v of None \<Rightarrow> l | Some n \<Rightarrow> AList.update m n l) raw acc) k =
    (case map_of raw k of None \<Rightarrow> map_of acc k | Some v \<Rightarrow> v)"
  using assms
proof (induction raw arbitrary: acc)
  case (Cons x raw)
  obtain m n where x: "x = (m, Some n)" using Cons.prems(2) by (cases x) fastforce
  have "m \<notin> fst ` set raw" using Cons.prems(1) x by simp
  then have "map_of raw m = None" by (simp add: map_of_eq_None_iff)
  with Cons x show ?case by (auto simp: dict_simps split: option.split)
qed simp

lemma json_reload_map:
  "map_of (json_reload d) k = (if k \<in> fst ` set d then Some (map_of d k) else None)"
  by (simp add: json_reload_def map_of_map_restrict restrict_map_def)

end
