(* ===== verification/Chunk_Receiver.thy ===== *)
theory Chunk_Receiver
  imports Community_Handlers
begin

text \<open>
  The receiving side of a chunked transfer: \<open>on_model_chunk\<close> of
  \<open>network/gossip_community.py\<close> with its gates (identity, signature, completed and recent
  duplicates, size, round, per-peer and global caps), the acknowledgements and the missing-chunk
  reports it sends, the completion path, and the periodic clean-up of receive state.
\<close>

section \<open>Acknowledgements\<close>

text \<open>\<open>_send_chunk_ack_ranges\<close>.\<close>

definition send_chunk_ack_ranges ::
    "env \<Rightarrow> ipv8_peer \<Rightarrow> string \<Rightarrow> string \<Rightarrow> int \<Rightarrow> int \<Rightarrow> int list \<Rightarrow> community \<Rightarrow> effect list" where
  "send_chunk_ack_ranges e peer transfer_id schema round_number total_chunks indices st =
     (case pack_chunk_ranges indices of
        Inl err \<Rightarrow> [Raised err]
      | Inr sack_ranges \<Rightarrow>
        (case chunk_sign (e_crypto e) (cm_node_id st) round_number schema 0 sack_ranges
                (default_meta\<lparr>cm_total_chunks := total_chunks\<rparr>) of
           Inl err \<Rightarrow> [Raised err]
         | Inr sig \<Rightarrow> [Send peer (MsgAck
             \<lparr>ca_transfer_id = transfer_id, ca_sender_id = cm_node_id st,
              ca_data_schema_hash = schema, ca_round_number = round_number,
              ca_total_chunks = total_chunks, ca_sack_ranges = sack_ranges, ca_signature = sig\<rparr>)]))"

text \<open>\<open>_send_chunk_ack\<close>: what it sends, and the buffer afterwards; if packing or signing raises,
  the buffer is not touched.\<close>

definition send_chunk_ack :: "env \<Rightarrow> ipv8_peer \<Rightarrow> chunk_buffer \<Rightarrow> community \<Rightarrow> chunk_buffer \<times> effect list" where
  "send_chunk_ack e peer b st =
     (let effs = send_chunk_ack_ranges e peer (cb_transfer_id b) (cb_data_schema_hash b)
                   (cb_round_number b) (cb_total_chunks b) (map fst (cb_chunks b)) st
      in (if list_ex is_raised effs then b
          else b\<lparr>cb_last_ack_at := e_now e, cb_chunks_since_ack := 0\<rparr>, effs))"

definition maybe_send_chunk_ack ::
    "env \<Rightarrow> ipv8_peer \<Rightarrow> chunk_buffer \<Rightarrow> bool \<Rightarrow> community \<Rightarrow> chunk_buffer \<times> effect list" where
  "maybe_send_chunk_ack e peer b force st =
     (if force \<or> cb_chunks_since_ack b \<ge> CHUNK_ACK_EVERY
         \<or> e_now e - cb_last_ack_at b \<ge> CHUNK_ACK_INTERVAL
      then send_chunk_ack e peer b st else (b, []))"

section \<open>Missing-chunk reports\<close>

text \<open>\<open>struct.pack(f'{n}I', *missing)\<close> in native byte order.\<close>

fun pack_native :: "endian \<Rightarrow> int list \<Rightarrow> bytes result" where
  "pack_native en [] = ok []"
| "pack_native en (i # is) =
     result_bind (pack_u32 i) (\<lambda>b. result_bind (pack_native en is) (\<lambda>bs. ok (native_order en b @ bs)))"

definition bump_ignored :: "community \<Rightarrow> community" where
  "bump_ignored st = st\<lparr>cm_metrics := (cm_metrics st)
     \<lparr>nacks_ignored_budget := nacks_ignored_budget (cm_metrics st) + 1\<rparr>\<rparr>"

text \<open>\<open>_send_missing_chunks_report\<close>: the outcome, the buffer, the state (its metrics) and the
  effects.\<close>

definition send_missing_chunks_report ::
    "env \<Rightarrow> ipv8_peer \<Rightarrow> chunk_buffer \<Rightarrow> bool \<Rightarrow> community \<Rightarrow> bool \<times> chunk_buffer \<times> community \<times> effect list"
  where
  "send_missing_chunks_report e peer b force st =
     (let missing = take CHUNK_MAX_NACK_INDICES (missing_chunks b) in
      if missing = [] then (False, b, st, [])
      else case pack_native (e_endian e) missing of
        Inl err \<Rightarrow> (False, b, st, [Raised err])
      | Inr signature \<Rightarrow>
          if \<not> force \<and> signature = cb_last_nack_signature b
             \<and> e_now e - cb_last_nack_at b < RECEIVER_NACK_REPORT_INTERVAL
          then (False, b, bump_ignored st, [])
          else (True, b\<lparr>cb_last_nack_at := e_now e, cb_last_nack_signature := signature\<rparr>,
                st\<lparr>cm_metrics := (cm_metrics st)\<lparr>nacks_sent := nacks_sent (cm_metrics st) + 1\<rparr>\<rparr>,
                [Send peer (MsgRequest \<lparr>rc_transfer_id = cb_transfer_id b, rc_sender_id = cm_node_id st,
                   rc_missing_indices_bytes = signature\<rparr>)]))"

section \<open>Gates of on_model_chunk\<close>

definition chunk_authenticate :: "env \<Rightarrow> ipv8_peer \<Rightarrow> model_chunk \<Rightarrow> community \<Rightarrow> verdict" where
  "chunk_authenticate e peer p st =
     (case identity_mismatch st peer (mc_sender_id p) of
        Some expected \<Rightarrow> Reject (emit_dropped st ''identity mismatch'' (mc_sender_id p) (pr_mid peer)
          (Some ''security.identity_mismatch'') ''chunk''
          [(''expected_sender_id'', EStr expected), (''transfer_id'', EStr (mc_transfer_id p))])
      | None \<Rightarrow>
        if mc_signature p \<noteq> [] then
          (case chunk_verify (e_crypto e) (pr_public_key peer) (mc_signature p) (mc_sender_id p)
                  (mc_round_number p) (mc_data_schema_hash p) (mc_chunk_index p) (mc_chunk_data p)
                  (chunk_payload_meta p) of
             Inl err \<Rightarrow> Reject [Raised err]
           | Inr valid \<Rightarrow>
               if valid then Accept
               else Reject (emit_dropped st ''invalid signature'' (mc_sender_id p) (pr_mid peer)
                      (Some ''security.signature_rejected'') ''chunk''
                      [(''transfer_id'', EStr (mc_transfer_id p)), (''chunk_index'', EInt (mc_chunk_index p))]))
        else if cm_require_signature st
        then Reject (emit_dropped st ''missing signature'' (mc_sender_id p) (pr_mid peer)
               (Some ''security.signature_missing'') ''chunk''
               [(''transfer_id'', EStr (mc_transfer_id p)), (''chunk_index'', EInt (mc_chunk_index p))])
        else Accept)"

definition buf_key :: "ipv8_peer \<Rightarrow> model_chunk \<Rightarrow> string \<times> string" where
  "buf_key peer p = (pr_mid peer, mc_transfer_id p)"

definition chunk_key :: "ipv8_peer \<Rightarrow> model_chunk \<Rightarrow> string \<times> string \<times> int" where
  "chunk_key peer p = (pr_mid peer, mc_transfer_id p, mc_chunk_index p)"

definition peer_transfers :: "string \<Rightarrow> community \<Rightarrow> nat" where
  "peer_transfers mid st = length (filter (\<lambda>(k, _). fst k = mid) (cm_chunk_buffers st))"

definition peer_bytes :: "string \<Rightarrow> community \<Rightarrow> nat" where
  "peer_bytes mid st =
     sum_list (map (\<lambda>(_, b). sum_list (map (\<lambda>(_, c). length c) (cb_chunks b)))
       (filter (\<lambda>(k, _). fst k = mid) (cm_chunk_buffers st)))"

definition bump_peer_limit :: "community \<Rightarrow> community" where
  "bump_peer_limit st = st\<lparr>cm_metrics := (cm_metrics st)
     \<lparr>chunk_transfers_rejected_peer_limit := chunk_transfers_rejected_peer_limit (cm_metrics st) + 1\<rparr>\<rparr>"

text \<open>The checks between the duplicate filter and the buffer: \<open>None\<close> lets the chunk through.\<close>

definition chunk_admission ::
    "env \<Rightarrow> ipv8_peer \<Rightarrow> model_chunk \<Rightarrow> community \<Rightarrow> (community \<times> effect list) option" where
  "chunk_admission e peer p st =
     (let mid = pr_mid peer; tid = (''transfer_id'', EStr (mc_transfer_id p)) in
      if mc_total_chunks p > MAX_CHUNKS_PER_TRANSFER
      then Some (st, emit_dropped st ''oversized transfer'' (mc_sender_id p) mid
             (Some ''security.oversized_message'') ''chunk'' [tid, (''total_chunks'', EInt (mc_total_chunks p))])
      else if mc_round_number p > e_local_round e + cm_max_round_skip st
      then Some (st, emit_dropped st ''future round rejected'' (mc_sender_id p) mid
             (Some ''security.future_round_rejected'') ''chunk''
             [tid, (''round_number'', EInt (mc_round_number p)), (''local_round'', EInt (e_local_round e))])
      else if map_of (cm_chunk_buffers st) (buf_key peer p) \<noteq> None then None
      else if map_of (cm_completed_chunk_transfers st) (buf_key peer p) \<noteq> None
      then Some (bump_peer_limit st, emit_dropped st ''duplicate completed transfer'' (mc_sender_id p) mid
             (Some ''security.duplicate_chunk_transfer'') ''chunk'' [tid])
      else if peer_transfers mid st \<ge> MAX_CONCURRENT_TRANSFERS_PER_PEER
      then Some (bump_peer_limit st, emit_dropped st ''per-peer transfer limit reached'' (mc_sender_id p) mid
             None ''chunk'' [tid])
      else if length (cm_chunk_buffers st) \<ge> MAX_TOTAL_TRANSFERS
      then Some (st, emit_dropped st ''global transfer limit reached'' (mc_sender_id p) mid None ''chunk'' [tid])
      else if peer_bytes mid st \<ge> MAX_BUFFERED_BYTES_PER_PEER
      then Some (st, emit_dropped st ''per-peer byte budget exhausted'' (mc_sender_id p) mid None ''chunk'' [tid])
      else None)"

section \<open>Storing a chunk\<close>

definition new_buffer :: "env \<Rightarrow> model_chunk \<Rightarrow> chunk_buffer" where
  "new_buffer e p = \<lparr>cb_transfer_id = mc_transfer_id p, cb_sender_id = mc_sender_id p,
     cb_total_chunks = mc_total_chunks p, cb_data_schema_hash = mc_data_schema_hash p,
     cb_round_number = mc_round_number p, cb_sample_count = mc_sample_count p,
     cb_loss = mc_loss p, cb_accuracy = mc_accuracy p, cb_timestamp = mc_timestamp p,
     cb_created_at = e_now e, cb_last_ack_at = e_now e, cb_chunks_since_ack = 0,
     cb_last_nack_at = 0, cb_last_nack_signature = [], cb_chunks = []\<rparr>"

definition bump_started :: "community \<Rightarrow> community" where
  "bump_started st = st\<lparr>cm_metrics := (cm_metrics st)
     \<lparr>chunk_transfers_started := chunk_transfers_started (cm_metrics st) + 1\<rparr>\<rparr>"

definition get_or_create_buffer ::
    "env \<Rightarrow> ipv8_peer \<Rightarrow> model_chunk \<Rightarrow> community \<Rightarrow> chunk_buffer \<times> community" where
  "get_or_create_buffer e peer p st =
     (case map_of (cm_chunk_buffers st) (buf_key peer p) of
        Some b \<Rightarrow> (b, st)
      | None \<Rightarrow> (new_buffer e p, bump_started st))"

text \<open>The NAT keep-alive: a heartbeat to the known sender every five chunks.\<close>

definition nat_keepalive :: "model_chunk \<Rightarrow> community \<Rightarrow> effect list" where
  "nat_keepalive p st =
     (case map_of (cm_known_peers st) (mc_sender_id p) of
        None \<Rightarrow> []
      | Some info \<Rightarrow>
          if mc_chunk_index p mod 5 = 0
          then [Send (np_peer info) (MsgHeartbeat
                 \<lparr>hb_node_id = cm_node_id st, hb_sequence = cm_heartbeat_sequence st\<rparr>)]
          else [])"

definition chunk_delivery :: "model_chunk \<Rightarrow> chunk_buffer \<Rightarrow> bytes \<Rightarrow> model_delivery" where
  "chunk_delivery p b weights_bytes =
     \<lparr>md_sender_id = mc_sender_id p, md_weights = weights_bytes, md_sample_count = cb_sample_count b,
      md_round_number = cb_round_number b, md_loss = cb_loss b, md_accuracy = cb_accuracy b\<rparr>"

definition mark_completed :: "env \<Rightarrow> ipv8_peer \<Rightarrow> model_chunk \<Rightarrow> community \<Rightarrow> community" where
  "mark_completed e peer p st = st\<lparr>cm_metrics := (cm_metrics st)
       \<lparr>chunk_transfers_completed := chunk_transfers_completed (cm_metrics st) + 1\<rparr>,
     cm_completed_chunk_transfers :=
       AList.update (buf_key peer p) (e_now e) (cm_completed_chunk_transfers st)\<rparr>"

definition drop_buffer :: "ipv8_peer \<Rightarrow> model_chunk \<Rightarrow> community \<Rightarrow> community" where
  "drop_buffer peer p st =
     st\<lparr>cm_chunk_buffers := AList.delete (buf_key peer p) (cm_chunk_buffers st)\<rparr>"

text \<open>All chunks are there: reassemble, drop the buffer, check, mark and schedule the callback.\<close>

definition finish_transfer ::
    "env \<Rightarrow> ipv8_peer \<Rightarrow> model_chunk \<Rightarrow> chunk_buffer \<Rightarrow> community \<Rightarrow> community \<times> effect list" where
  "finish_transfer e peer p b st =
     (let mid = pr_mid peer; tid = (''transfer_id'', EStr (mc_transfer_id p)) in
      case reassemble b of
        Inl err \<Rightarrow> (drop_buffer peer p st,
          emit_dropped st ''processing error'' (mc_sender_id p) mid None ''chunk'' [tid])
      | Inr weights_bytes \<Rightarrow>
          let st1 = drop_buffer peer p st in
          if int (length weights_bytes) > MAX_INCOMING_MESSAGE_SIZE
          then (st1, emit_dropped st ''oversized model'' (mc_sender_id p) mid
                 (Some ''security.oversized_message'') ''chunk''
                 [tid, (''size_bytes'', EInt (int (length weights_bytes)))])
          else if \<not> e_deserializes e weights_bytes
          then (st1, emit_dropped st ''deserialization error'' (mc_sender_id p) mid None ''chunk'' [tid])
          else let st2 = mark_completed e peer p st1
               in (st2, persist_last_seen st2
                   @ (if cm_has_update_callback st2
                      then [ScheduleModel (chunk_delivery p b weights_bytes) mid (mc_transfer_id p)]
                      else [])))"

text \<open>\<open>_process_completed_model\<close>, the scheduled task.\<close>

definition process_completed_model ::
    "env \<Rightarrow> model_delivery \<Rightarrow> string \<Rightarrow> string \<Rightarrow> community \<Rightarrow> effect list" where
  "process_completed_model e d mid transfer_id st =
     ModelCallback d #
     (if e_callback_ok e then []
      else emit_dropped st ''callback error'' (md_sender_id d) mid None ''chunk''
             [(''transfer_id'', EStr transfer_id)])"

definition put_buffer :: "ipv8_peer \<Rightarrow> model_chunk \<Rightarrow> chunk_buffer \<Rightarrow> community \<Rightarrow> community" where
  "put_buffer peer p b st =
     st\<lparr>cm_chunk_buffers := AList.update (buf_key peer p) b (cm_chunk_buffers st)\<rparr>"

text \<open>From the buffer to the end of the handler. An exception of the acknowledgement ends the handler
  with the chunk already in the buffer.\<close>

definition chunk_store ::
    "env \<Rightarrow> ipv8_peer \<Rightarrow> model_chunk \<Rightarrow> community \<Rightarrow> community \<times> effect list" where
  "chunk_store e peer p st =
     (let (b0, st0) = get_or_create_buffer e peer p st;
          (b1, complete) = add_chunk (mc_chunk_index p) (mc_chunk_data p) b0;
          (b2, acks) = maybe_send_chunk_ack e peer b1 complete st0
      in if list_ex is_raised acks then (put_buffer peer p b2 st0, acks)
         else let st1 = touch_peer (e_now e) (mc_sender_id p) (put_buffer peer p b2 st0);
                  beats = nat_keepalive p st1
      in if complete
         then let (st2, effs) = finish_transfer e peer p b2 st1 in (st2, acks @ beats @ effs)
         else if mc_chunk_index p = mc_total_chunks p - 1
         then let (sent, b3, st2, effs) = send_missing_chunks_report e peer b2 False st1
              in (put_buffer peer p b3 st2, acks @ beats @ effs)
         else (st1, acks @ beats))"

definition mark_recent :: "env \<Rightarrow> ipv8_peer \<Rightarrow> model_chunk \<Rightarrow> community \<Rightarrow> community" where
  "mark_recent e peer p st =
     st\<lparr>cm_recent_chunks := AList.update (chunk_key peer p) (e_now e) (cm_recent_chunks st)\<rparr>"

text \<open>A chunk seen recently: acknowledge again if it is in the buffer, and drop it.\<close>

definition duplicate_chunk ::
    "env \<Rightarrow> ipv8_peer \<Rightarrow> model_chunk \<Rightarrow> community \<Rightarrow> community \<times> effect list" where
  "duplicate_chunk e peer p st =
     (case map_of (cm_chunk_buffers st) (buf_key peer p) of
        None \<Rightarrow> (st, [])
      | Some b \<Rightarrow>
          if map_of (cb_chunks b) (mc_chunk_index p) \<noteq> None
          then let (b', effs) = maybe_send_chunk_ack e peer b True st in (put_buffer peer p b' st, effs)
          else (st, []))"

definition on_model_chunk ::
    "env \<Rightarrow> ipv8_peer \<Rightarrow> model_chunk \<Rightarrow> community \<Rightarrow> community \<times> effect list" where
  "on_model_chunk e peer p st =
     (case chunk_authenticate e peer p st of
        Reject effs \<Rightarrow> (st, effs)
      | Accept \<Rightarrow>
          if map_of (cm_completed_chunk_transfers st) (buf_key peer p) \<noteq> None
          then (st, send_chunk_ack_ranges e peer (mc_transfer_id p) (mc_data_schema_hash p)
                  (mc_round_number p) (mc_total_chunks p) [0..mc_total_chunks p - 1] st)
          else if map_of (cm_recent_chunks st) (chunk_key peer p) \<noteq> None
          then duplicate_chunk e peer p st
          else let st1 = mark_recent e peer p st in
            case chunk_admission e peer p st1 of
              Some r \<Rightarrow> r
            | None \<Rightarrow> chunk_store e peer p st1)"

section \<open>Periodic clean-up\<close>

text \<open>\<open>_cleanup_stale_transfers\<close>.\<close>

definition cleanup_stale_transfers :: "real \<Rightarrow> community \<Rightarrow> community" where
  "cleanup_stale_transfers now st =
     (let stale = filter (\<lambda>(_, b). is_expired now b) (cm_chunk_buffers st) in
      st\<lparr>cm_chunk_buffers := filter (\<lambda>(_, b). \<not> is_expired now b) (cm_chunk_buffers st),
         cm_metrics := (cm_metrics st)\<lparr>chunk_transfers_failed_timeout :=
           chunk_transfers_failed_timeout (cm_metrics st) + int (length stale)\<rparr>,
         cm_completed_chunk_transfers :=
           filter (\<lambda>(_, ts). \<not> now - ts > COMPLETED_TRANSFER_TTL) (cm_completed_chunk_transfers st),
         cm_recent_chunks :=
           filter (\<lambda>(_, ts). \<not> now - ts > RECENT_CHUNK_TTL) (cm_recent_chunks st)\<rparr>)"

text \<open>\<open>_nack_incomplete_buffers\<close>, one buffer of the snapshot at a time. The transport peer is the
  first known peer with the buffer's \<open>mid\<close>.\<close>

definition find_peer_by_mid :: "string \<Rightarrow> community \<Rightarrow> ipv8_peer option" where
  "find_peer_by_mid mid st =
     (case filter (\<lambda>(_, info). pr_mid (np_peer info) = mid) (cm_known_peers st) of
        [] \<Rightarrow> None | (_, info) # _ \<Rightarrow> Some (np_peer info))"

definition nack_buffer ::
    "env \<Rightarrow> string \<times> string \<Rightarrow> community \<Rightarrow> community \<times> effect list" where
  "nack_buffer e key st =
     (case map_of (cm_chunk_buffers st) key of
        None \<Rightarrow> (st, [])
      | Some b \<Rightarrow>
          if e_now e - cb_created_at b < EARLY_NACK_AGE_THRESHOLD then (st, [])
          else if is_complete b then (st, [])
          else if missing_chunks b = [] then (st, [])
          else let (ok_t, tb) = nack_try_consume_transfer (snd key) (e_now e) (cm_nack_transfer_buckets st);
                   st1 = st\<lparr>cm_nack_transfer_buckets := tb\<rparr> in
            if \<not> ok_t then (bump_ignored st1, [])
            else let (ok_p, pb) = nack_try_consume (fst key) (e_now e) (cm_nack_buckets st1);
                     st2 = st1\<lparr>cm_nack_buckets := pb\<rparr> in
              if \<not> ok_p then (bump_ignored st2, [])
              else case find_peer_by_mid (fst key) st2 of
                None \<Rightarrow> (st2, [])
              | Some target \<Rightarrow>
                  let (sent, b', st3, effs) = send_missing_chunks_report e target b False st2
                  in (st3\<lparr>cm_chunk_buffers := AList.update key b' (cm_chunk_buffers st3)\<rparr>, effs))"

definition nack_incomplete_buffers :: "env \<Rightarrow> community \<Rightarrow> community \<times> effect list" where
  "nack_incomplete_buffers e st = run (\<lambda>s key. nack_buffer e key s) st (map fst (cm_chunk_buffers st))"

end
