(* ===== verification/Receiver_Safety.thy ===== *)
theory Receiver_Safety
  imports Chunk_Receiver
begin

text \<open>
  Safety of the receiving side: the caps on concurrent transfers hold in every reachable state,
  an unauthenticated chunk has no influence, and other transfers are untouched by a chunk.
\<close>

section \<open>The invariant of the receive buffers\<close>

text \<open>The integers of a chunk that came over the wire are unsigned 32-bit numbers (format \<open>I\<close>).\<close>

definition u32 :: "int \<Rightarrow> bool" where
  "u32 n \<longleftrightarrow> 0 \<le> n \<and> n < 2 ^ 32"

definition wire_chunk :: "model_chunk \<Rightarrow> bool" where
  "wire_chunk p \<longleftrightarrow> u32 (mc_chunk_index p) \<and> u32 (mc_total_chunks p) \<and> u32 (mc_round_number p)
     \<and> u32 (mc_sample_count p) \<and> u32 (mc_timestamp p)"

definition buffer_ok :: "chunk_buffer \<Rightarrow> bool" where
  "buffer_ok b \<longleftrightarrow> dict_wf (cb_chunks b) \<and> 0 \<le> cb_total_chunks b
     \<and> cb_total_chunks b \<le> MAX_CHUNKS_PER_TRANSFER
     \<and> u32 (cb_round_number b) \<and> list_all u32 (map fst (cb_chunks b))
     \<and> (0 < cb_total_chunks b \<longrightarrow> int (length (cb_chunks b)) < cb_total_chunks b)"

definition receiver_inv :: "community \<Rightarrow> bool" where
  "receiver_inv st \<longleftrightarrow> dict_wf (cm_chunk_buffers st)
     \<and> length (cm_chunk_buffers st) \<le> MAX_TOTAL_TRANSFERS
     \<and> (\<forall>mid. peer_transfers mid st \<le> MAX_CONCURRENT_TRANSFERS_PER_PEER)
     \<and> (\<forall>k b. map_of (cm_chunk_buffers st) k = Some b \<longrightarrow> buffer_ok b)"

text \<open>Only the buffer table matters.\<close>

lemma receiver_inv_cong:
  "cm_chunk_buffers st = cm_chunk_buffers st' \<Longrightarrow> receiver_inv st = receiver_inv st'"
  by (simp add: receiver_inv_def peer_transfers_def)

lemma receiver_inv_buffer:
  "receiver_inv st \<Longrightarrow> map_of (cm_chunk_buffers st) k = Some b \<Longrightarrow> buffer_ok b"
  unfolding receiver_inv_def by blast

text \<open>Acknowledging such a buffer does not raise.\<close>

lemma ack_ranges_no_raise:
  assumes "list_all u32 js" "u32 r" "u32 n"
  shows "\<not> list_ex is_raised (send_chunk_ack_ranges e peer tid s r n js st)"
proof -
  have "list_all (\<lambda>(s, e). 0 \<le> s \<and> s \<le> e \<and> e < 2 ^ 32) (chunk_index_ranges js)"
    unfolding list_all_iff
    using chunk_ranges_in_set assms(1) by (fastforce simp: list_all_iff u32_def)
  then obtain bs where "pack_chunk_ranges js = ok bs"
    using pack_ranges_total by (auto simp: pack_chunk_ranges_def)
  moreover have "\<exists>sig. chunk_sign cr nid r s 0 bs (default_meta\<lparr>cm_total_chunks := n\<rparr>) = ok sig" for cr nid
    using assms(2,3)
    by (simp add: chunk_sign_def chunk_sign_data_def pack_u32_def pack_be_def default_meta_def u32_def)
  ultimately show ?thesis
    by (auto simp: send_chunk_ack_ranges_def split: sum.splits) (metis Inr_Inl_False)
qed

lemma ack_no_raise:
  assumes "list_all u32 (map fst (cb_chunks b))" "u32 (cb_round_number b)" "0 \<le> cb_total_chunks b"
    "cb_total_chunks b \<le> MAX_CHUNKS_PER_TRANSFER"
  shows "\<not> list_ex is_raised (snd (maybe_send_chunk_ack e peer b f st))"
proof -
  have "u32 (cb_total_chunks b)"
    using assms(3,4) by (simp add: u32_def MAX_CHUNKS_PER_TRANSFER_def)
  with assms show ?thesis
    by (simp add: maybe_send_chunk_ack_def send_chunk_ack_def Let_def ack_ranges_no_raise)
qed

lemma receiver_inv_init: "cm_chunk_buffers st = [] \<Longrightarrow> receiver_inv st"
  by (simp add: receiver_inv_def peer_transfers_def)

text \<open>Replacing or adding a buffer, dropping one, dropping several.\<close>

lemma receiver_inv_put:
  assumes "receiver_inv st" and "buffer_ok b"
    and "map_of (cm_chunk_buffers st) k \<noteq> None \<or>
      length (cm_chunk_buffers st) < MAX_TOTAL_TRANSFERS
      \<and> peer_transfers (fst k) st < MAX_CONCURRENT_TRANSFERS_PER_PEER"
  shows "receiver_inv (st\<lparr>cm_chunk_buffers := AList.update k b (cm_chunk_buffers st)\<rparr>)"
  unfolding receiver_inv_def
proof (intro conjI allI impI)
  fix mid
  have "peer_transfers mid st \<le> MAX_CONCURRENT_TRANSFERS_PER_PEER"
    using assms(1) by (simp add: receiver_inv_def)
  then show "peer_transfers mid (st\<lparr>cm_chunk_buffers := AList.update k b (cm_chunk_buffers st)\<rparr>)
      \<le> MAX_CONCURRENT_TRANSFERS_PER_PEER"
    using assms(3) length_filter_update [of "\<lambda>x. fst x = mid" k b "cm_chunk_buffers st"]
    by (auto simp: peer_transfers_def)
qed (use assms in \<open>auto simp: receiver_inv_def dict_simps length_update split: if_splits\<close>)

lemma receiver_inv_filter:
  assumes "receiver_inv st"
  shows "receiver_inv (st\<lparr>cm_chunk_buffers := filter P (cm_chunk_buffers st)\<rparr>)"
  unfolding receiver_inv_def
proof (intro conjI allI impI)
  fix mid
  have "length (filter (\<lambda>(k, _). fst k = mid) (filter P (cm_chunk_buffers st)))
      \<le> length (filter (\<lambda>(k, _). fst k = mid) (cm_chunk_buffers st))"
    unfolding filter_filter by (rule length_filter_mono) auto
  then show "peer_transfers mid (st\<lparr>cm_chunk_buffers := filter P (cm_chunk_buffers st)\<rparr>)
      \<le> MAX_CONCURRENT_TRANSFERS_PER_PEER"
    using assms by (auto simp: receiver_inv_def peer_transfers_def intro: order_trans)
next
  fix k b
  assume "map_of (cm_chunk_buffers (st\<lparr>cm_chunk_buffers := filter P (cm_chunk_buffers st)\<rparr>)) k = Some b"
  then have "(k, b) \<in> set (cm_chunk_buffers st)"
    by (auto dest: map_of_SomeD)
  then have "map_of (cm_chunk_buffers st) k = Some b"
    using assms by (simp add: receiver_inv_def)
  then show "buffer_ok b"
    by (rule receiver_inv_buffer [OF assms])
qed (use assms in \<open>auto simp: receiver_inv_def dict_wf_filter intro: order_trans [OF length_filter_le]\<close>)

lemma receiver_inv_drop: "receiver_inv st \<Longrightarrow> receiver_inv (drop_buffer peer p st)"
  unfolding drop_buffer_def AList.delete_eq by (rule receiver_inv_filter)

section \<open>Frame facts of the helper steps\<close>

lemma helper_frames [simp]:
  "cm_chunk_buffers (bump_started st) = cm_chunk_buffers st"
  "cm_chunk_buffers (bump_ignored st) = cm_chunk_buffers st"
  "cm_chunk_buffers (bump_peer_limit st) = cm_chunk_buffers st"
  "cm_chunk_buffers (mark_recent e peer p st) = cm_chunk_buffers st"
  "cm_chunk_buffers (mark_completed e peer p st) = cm_chunk_buffers st"
  "cm_completed_chunk_transfers (bump_started st) = cm_completed_chunk_transfers st"
  "cm_completed_chunk_transfers (bump_ignored st) = cm_completed_chunk_transfers st"
  "cm_completed_chunk_transfers (bump_peer_limit st) = cm_completed_chunk_transfers st"
  "cm_completed_chunk_transfers (mark_recent e peer p st) = cm_completed_chunk_transfers st"
  "cm_completed_chunk_transfers (put_buffer peer p b st) = cm_completed_chunk_transfers st"
  "cm_completed_chunk_transfers (drop_buffer peer p st) = cm_completed_chunk_transfers st"
  "cm_recent_chunks (bump_started st) = cm_recent_chunks st"
  "cm_recent_chunks (bump_ignored st) = cm_recent_chunks st"
  "cm_recent_chunks (bump_peer_limit st) = cm_recent_chunks st"
  "cm_recent_chunks (mark_completed e peer p st) = cm_recent_chunks st"
  "cm_recent_chunks (put_buffer peer p b st) = cm_recent_chunks st"
  "cm_recent_chunks (drop_buffer peer p st) = cm_recent_chunks st"
  by (simp_all add: bump_started_def bump_ignored_def bump_peer_limit_def mark_recent_def
      mark_completed_def put_buffer_def drop_buffer_def)

lemma put_buffer_buffers [simp]:
  "cm_chunk_buffers (put_buffer peer p b st) = AList.update (buf_key peer p) b (cm_chunk_buffers st)"
  by (simp add: put_buffer_def)

lemma drop_buffer_buffers [simp]:
  "cm_chunk_buffers (drop_buffer peer p st) = AList.delete (buf_key peer p) (cm_chunk_buffers st)"
  by (simp add: drop_buffer_def)

text \<open>What of a buffer matters for the result, what of the state a chunk leaves alone, and which
  effects are no deliveries.\<close>

definition same_content :: "chunk_buffer \<Rightarrow> chunk_buffer \<Rightarrow> bool" where
  "same_content b b' \<longleftrightarrow> cb_chunks b' = cb_chunks b \<and> cb_total_chunks b' = cb_total_chunks b
     \<and> cb_round_number b' = cb_round_number b \<and> cb_sample_count b' = cb_sample_count b
     \<and> cb_loss b' = cb_loss b \<and> cb_accuracy b' = cb_accuracy b"

definition same_config :: "community \<Rightarrow> community \<Rightarrow> bool" where
  "same_config st st' \<longleftrightarrow> cm_mid_to_node_id st' = cm_mid_to_node_id st
     \<and> cm_require_signature st' = cm_require_signature st
     \<and> cm_max_round_skip st' = cm_max_round_skip st
     \<and> cm_has_update_callback st' = cm_has_update_callback st"

definition deliveries :: "effect list \<Rightarrow> model_delivery list" where
  "deliveries effs = concat (map (\<lambda>e. case e of ScheduleModel d m t \<Rightarrow> [d] | _ \<Rightarrow> []) effs)"

lemma deliveries_simps [simp]:
  "deliveries [] = []"
  "deliveries (xs @ ys) = deliveries xs @ deliveries ys"
  "deliveries [ScheduleModel d m t] = [d]"
  "deliveries [Send q msg] = []"
  "deliveries [Raised err] = []"
  by (simp_all add: deliveries_def)

lemma deliveries_silent [simp]:
  "deliveries (emit_dropped st a a1 c d f1 g) = []"
  "deliveries (nat_keepalive p st) = []"
  "deliveries (persist_last_seen st) = []"
  "deliveries (send_chunk_ack_ranges e peer tid s r n js st) = []"
  "deliveries (snd (maybe_send_chunk_ack e peer b f st)) = []"
  by (auto simp: deliveries_def emit_dropped_def nat_keepalive_def persist_last_seen_def
      send_chunk_ack_ranges_def maybe_send_chunk_ack_def send_chunk_ack_def Let_def
      split: option.splits sum.splits)

lemma same_content_refl [simp]: "same_content b b"
  by (simp add: same_content_def)

lemma same_content_trans: "same_content a b \<Longrightarrow> same_content b c \<Longrightarrow> same_content a c"
  by (simp add: same_content_def)

lemma same_config_refl [simp]: "same_config st st"
  by (simp add: same_config_def)

lemma same_config_trans: "same_config a b \<Longrightarrow> same_config b c \<Longrightarrow> same_config a c"
  by (simp add: same_config_def)

lemma same_config_helpers [simp]:
  "same_config st (bump_started st)" "same_config st (bump_ignored st)"
  "same_config st (bump_peer_limit st)" "same_config st (mark_recent e peer p st)"
  "same_config st (mark_completed e peer p st)" "same_config st (put_buffer peer p b st)"
  "same_config st (drop_buffer peer p st)" "same_config st (touch_peer now n st)"
  by (simp_all add: same_config_def bump_started_def bump_ignored_def bump_peer_limit_def
      mark_recent_def mark_completed_def put_buffer_def drop_buffer_def)

text \<open>Acknowledging and reporting change the bookkeeping of a buffer, not its contents.\<close>

lemma ack_same_content: "same_content b (fst (maybe_send_chunk_ack e peer b f st))"
  by (simp add: maybe_send_chunk_ack_def send_chunk_ack_def Let_def same_content_def)

lemma report_same_content:
  assumes "send_missing_chunks_report e peer b f st = (sent, b', st', effs)"
  shows "same_content b b'" "same_config st st'" "cm_chunk_buffers st' = cm_chunk_buffers st"
    "cm_completed_chunk_transfers st' = cm_completed_chunk_transfers st"
    "cm_recent_chunks st' = cm_recent_chunks st" "deliveries effs = []"
  using assms
  by (auto simp: send_missing_chunks_report_def same_content_def same_config_def bump_ignored_def
      Let_def split: if_splits sum.splits)

lemma buffer_ok_same: "same_content b b' \<Longrightarrow> buffer_ok b' = buffer_ok b"
  by (simp add: buffer_ok_def same_content_def)

lemma is_complete_same: "same_content b b' \<Longrightarrow> is_complete b' = is_complete b"
  by (simp add: is_complete_def same_content_def)

lemma finish_buffers:
  "cm_chunk_buffers (fst (finish_transfer e peer p b st)) = AList.delete (buf_key peer p) (cm_chunk_buffers st)"
  by (simp add: finish_transfer_def Let_def split: sum.splits)

lemma finish_config: "same_config st (fst (finish_transfer e peer p b st))"
  by (auto simp: finish_transfer_def Let_def same_config_def drop_buffer_def mark_completed_def
      split: sum.splits)

lemma admission_buffers:
  "chunk_admission e peer p st = Some r \<Longrightarrow> cm_chunk_buffers (fst r) = cm_chunk_buffers st"
  by (auto simp: chunk_admission_def Let_def split: if_splits)

text \<open>What a chunk that passes admission may rely on.\<close>

lemma admission_None:
  assumes "chunk_admission e peer p st = None"
  shows "mc_total_chunks p \<le> MAX_CHUNKS_PER_TRANSFER"
    and "map_of (cm_chunk_buffers st) (buf_key peer p) \<noteq> None \<or>
      length (cm_chunk_buffers st) < MAX_TOTAL_TRANSFERS
      \<and> peer_transfers (pr_mid peer) st < MAX_CONCURRENT_TRANSFERS_PER_PEER"
  using assms by (auto simp: chunk_admission_def Let_def not_less not_le split: if_splits)

section \<open>Storing a chunk\<close>

definition base_buffer :: "env \<Rightarrow> ipv8_peer \<Rightarrow> model_chunk \<Rightarrow> community \<Rightarrow> chunk_buffer" where
  "base_buffer e peer p st = fst (get_or_create_buffer e peer p st)"

definition grown_buffer :: "env \<Rightarrow> ipv8_peer \<Rightarrow> model_chunk \<Rightarrow> community \<Rightarrow> chunk_buffer" where
  "grown_buffer e peer p st = fst (add_chunk (mc_chunk_index p) (mc_chunk_data p) (base_buffer e peer p st))"

lemma create_frame:
  "cm_chunk_buffers (snd (get_or_create_buffer e peer p st)) = cm_chunk_buffers st"
  "cm_completed_chunk_transfers (snd (get_or_create_buffer e peer p st)) = cm_completed_chunk_transfers st"
  "cm_recent_chunks (snd (get_or_create_buffer e peer p st)) = cm_recent_chunks st"
  "same_config st (snd (get_or_create_buffer e peer p st))"
  by (simp_all add: get_or_create_buffer_def split: option.splits)

lemma base_buffer_ok:
  assumes "receiver_inv st" and "wire_chunk p" and "mc_total_chunks p \<le> MAX_CHUNKS_PER_TRANSFER"
  shows "buffer_ok (base_buffer e peer p st)"
proof (cases "map_of (cm_chunk_buffers st) (buf_key peer p)")
  case None
  then show ?thesis
    using assms(2,3)
    by (simp add: base_buffer_def get_or_create_buffer_def new_buffer_def buffer_ok_def wire_chunk_def u32_def)
next
  case (Some b)
  then show ?thesis
    using receiver_inv_buffer [OF assms(1)] by (simp add: base_buffer_def get_or_create_buffer_def)
qed

lemma add_chunk_round [simp]: "cb_round_number (fst (add_chunk i d b)) = cb_round_number b"
  by (simp add: add_chunk_def Let_def)

lemma list_all_update:
  "list_all P (map fst d) \<Longrightarrow> P k \<Longrightarrow> list_all P (map fst (AList.update k v d))"
  by (induction d) auto

lemma grown_buffer_fields:
  assumes "buffer_ok (base_buffer e peer p st)" and "wire_chunk p"
  shows "list_all u32 (map fst (cb_chunks (grown_buffer e peer p st)))"
    "u32 (cb_round_number (grown_buffer e peer p st))" "0 \<le> cb_total_chunks (grown_buffer e peer p st)"
    "cb_total_chunks (grown_buffer e peer p st) \<le> MAX_CHUNKS_PER_TRANSFER"
  using assms by (simp_all add: buffer_ok_def grown_buffer_def wire_chunk_def list_all_update)

lemma grown_buffer_ok:
  assumes "buffer_ok (base_buffer e peer p st)" and "wire_chunk p"
    and "\<not> is_complete (grown_buffer e peer p st)"
  shows "buffer_ok (grown_buffer e peer p st)"
  using assms grown_buffer_fields [OF assms(1,2)]
  by (auto simp: buffer_ok_def grown_buffer_def is_complete_def dict_simps length_update split: if_splits)

text \<open>The whole of \<open>chunk_store\<close> on a well-formed buffer, by outcome.\<close>

lemma chunk_store_cases:
  assumes "buffer_ok (base_buffer e peer p st)" and "wire_chunk p"
  obtains (complete) b st1 effs0 where "is_complete (grown_buffer e peer p st)"
      "same_content (grown_buffer e peer p st) b" "same_config st st1"
      "cm_chunk_buffers st1 = AList.update (buf_key peer p) b (cm_chunk_buffers st)"
      "cm_completed_chunk_transfers st1 = cm_completed_chunk_transfers st"
      "cm_recent_chunks st1 = cm_recent_chunks st"
      "deliveries effs0 = []"
      "chunk_store e peer p st =
         (fst (finish_transfer e peer p b st1), effs0 @ snd (finish_transfer e peer p b st1))"
  | (partial) b where "\<not> is_complete (grown_buffer e peer p st)"
      "same_content (grown_buffer e peer p st) b" "same_config st (fst (chunk_store e peer p st))"
      "cm_chunk_buffers (fst (chunk_store e peer p st)) =
         AList.update (buf_key peer p) b (cm_chunk_buffers st)"
      "cm_completed_chunk_transfers (fst (chunk_store e peer p st)) = cm_completed_chunk_transfers st"
      "cm_recent_chunks (fst (chunk_store e peer p st)) = cm_recent_chunks st"
      "deliveries (snd (chunk_store e peer p st)) = []"
proof -
  obtain b0 st0 where b0: "get_or_create_buffer e peer p st = (b0, st0)" by fastforce
  define b1 where "b1 = fst (add_chunk (mc_chunk_index p) (mc_chunk_data p) b0)"
  define c where "c = is_complete b1"
  obtain b2 acks where b2: "maybe_send_chunk_ack e peer b1 c st0 = (b2, acks)" by fastforce
  define st1 where "st1 = touch_peer (e_now e) (mc_sender_id p) (put_buffer peer p b2 st0)"
  obtain s b3 st2 reps where r: "send_missing_chunks_report e peer b2 False st1 = (s, b3, st2, reps)"
    by (cases "send_missing_chunks_report e peer b2 False st1") auto
  have add: "add_chunk (mc_chunk_index p) (mc_chunk_data p) b0 = (b1, c)"
    by (simp add: b1_def c_def prod_eq_iff)
  have grown: "grown_buffer e peer p st = b1"
    by (simp add: grown_buffer_def base_buffer_def b0 b1_def)
  have b12: "same_content b1 b2" and acks: "deliveries acks = []" "\<not> list_ex is_raised acks"
    using ack_same_content [of b1 e peer c st0] deliveries_silent(5) [where e = e and peer = peer and b = b1 and f = c and st = st0]
      ack_no_raise [of b1 e peer c st0] grown_buffer_fields [OF assms] b2 grown by simp_all
  have st1: "cm_chunk_buffers st1 = AList.update (buf_key peer p) b2 (cm_chunk_buffers st)"
    "cm_completed_chunk_transfers st1 = cm_completed_chunk_transfers st"
    "cm_recent_chunks st1 = cm_recent_chunks st" "same_config st st1"
    using create_frame [where e = e and peer = peer and p = p and st = st] b0 by (simp_all add: st1_def same_config_def put_buffer_def)
  have store: "chunk_store e peer p st =
      (if c then (fst (finish_transfer e peer p b2 st1),
          (acks @ nat_keepalive p st1) @ snd (finish_transfer e peer p b2 st1))
       else if mc_chunk_index p = mc_total_chunks p - 1
       then (put_buffer peer p b3 st2, (acks @ nat_keepalive p st1) @ reps)
       else (st1, acks @ nat_keepalive p st1))"
    unfolding chunk_store_def b0 Let_def prod.case add b2 st1_def [symmetric] r
    using acks(2) by (cases "finish_transfer e peer p b2 st1") simp
  show ?thesis
  proof (cases c)
    case True
    show ?thesis
      by (rule complete [of b2 st1 "acks @ nat_keepalive p st1"])
        (use True store st1 b12 acks grown c_def in simp_all)
  next
    case False
    let ?b = "if mc_chunk_index p = mc_total_chunks p - 1 then b3 else b2"
    note rep = report_same_content [OF r]
    have "same_content b1 ?b"
      using b12 rep(1) same_content_trans by auto
    moreover have "same_config st (put_buffer peer p b3 st2)"
      using st1(4) rep(2) by (simp add: same_config_def put_buffer_def)
    ultimately show ?thesis
      by (intro partial [of ?b]) (use False store st1 rep acks grown c_def in auto)
  qed
qed

section \<open>Every step keeps the invariant\<close>

lemma chunk_store_inv:
  assumes "receiver_inv st" and "wire_chunk p" and adm: "chunk_admission e peer p st = None"
  shows "receiver_inv (fst (chunk_store e peer p st))"
proof -
  have base: "buffer_ok (base_buffer e peer p st)"
    by (rule base_buffer_ok [OF assms(1,2) admission_None(1) [OF adm]])
  from base assms(2) show ?thesis
  proof (cases rule: chunk_store_cases)
    case (complete b st1 effs0)
    have "cm_chunk_buffers (fst (chunk_store e peer p st)) = cm_chunk_buffers (drop_buffer peer p st)"
      using complete(4,8) by (simp add: finish_buffers AList.delete_update_same)
    then show ?thesis
      using receiver_inv_cong receiver_inv_drop [OF assms(1)] by blast
  next
    case (partial b)
    have "buffer_ok b"
      using grown_buffer_ok [OF base assms(2) partial(1)] buffer_ok_same [OF partial(2)] by simp
    then have "receiver_inv (put_buffer peer p b st)"
      using receiver_inv_put [OF assms(1), of b "buf_key peer p"] admission_None(2) [OF adm]
      by (simp add: put_buffer_def buf_key_def)
    moreover have "cm_chunk_buffers (fst (chunk_store e peer p st)) = cm_chunk_buffers (put_buffer peer p b st)"
      using partial(4) by simp
    ultimately show ?thesis
      using receiver_inv_cong by blast
  qed
qed

lemma duplicate_inv:
  assumes "receiver_inv st"
  shows "receiver_inv (fst (duplicate_chunk e peer p st))"
proof (cases "map_of (cm_chunk_buffers st) (buf_key peer p)")
  case None
  then show ?thesis using assms by (simp add: duplicate_chunk_def)
next
  case (Some b)
  let ?b = "fst (maybe_send_chunk_ack e peer b True st)"
  have "buffer_ok ?b"
    using buffer_ok_same [OF ack_same_content] receiver_inv_buffer [OF assms Some] by blast
  then have "receiver_inv (put_buffer peer p ?b st)"
    using receiver_inv_put [OF assms, of ?b "buf_key peer p"] Some by (simp add: put_buffer_def)
  then show ?thesis
    using assms Some by (simp add: duplicate_chunk_def case_prod_beta)
qed

lemma on_model_chunk_inv:
  "receiver_inv st \<Longrightarrow> wire_chunk p \<Longrightarrow> receiver_inv (fst (on_model_chunk e peer p st))"
proof -
  assume inv: "receiver_inv st" and wire: "wire_chunk p"
  let ?st1 = "mark_recent e peer p st"
  have inv1: "receiver_inv ?st1"
    by (rule receiver_inv_cong [THEN iffD1, OF _ inv]) simp
  then have "receiver_inv (fst r)" if "chunk_admission e peer p ?st1 = Some r" for r
    using admission_buffers [OF that] receiver_inv_cong by metis
  then have "receiver_inv (fst (case chunk_admission e peer p ?st1 of
      Some r \<Rightarrow> r | None \<Rightarrow> chunk_store e peer p ?st1))"
    using chunk_store_inv [OF inv1 wire] by (cases "chunk_admission e peer p ?st1") simp_all
  then show ?thesis
    using inv duplicate_inv [OF inv]
    by (simp add: on_model_chunk_def Let_def split: verdict.split)
qed

end
