(* ===== verification/Example_Config.thy ===== *)
theory Example_Config
  imports Community_State
begin

text \<open>
  A concrete node, peer and environment on which the theorems about the community are instantiated.
  The signature scheme of the example prefixes the message with one octet.
\<close>

definition sample_peer :: ipv8_peer where
  "sample_peer = \<lparr>pr_mid = ''aa'', pr_public_key = [1]\<rparr>"

definition sample_crypto :: crypto where
  "sample_crypto = \<lparr>sha256 = (\<lambda>m. take 32 (m @ replicate 32 0)), sign_key = (\<lambda>m. 1 # m),
     verify_key = (\<lambda>pk sig m. Some (sig = 1 # m))\<rparr>"

definition sample_env :: env where
  "sample_env = \<lparr>e_crypto = sample_crypto, e_now = 100, e_local_round = 1, e_deserializes = (\<lambda>_. True),
     e_fp_parses = (\<lambda>_. True), e_callback_ok = True, e_endian = LittleEndian\<rparr>"

definition sample_community :: community where
  "sample_community = (community_init ''n'' ''d'' ''s'' ''1'' True [] 5 [])
     \<lparr>cm_has_update_callback := True\<rparr>"

lemmas sample_defs = sample_peer_def sample_crypto_def sample_env_def sample_community_def
  community_init_def

end
