(* ===== verification/Receiver_Delivery.thy ===== *)
theory Receiver_Delivery
  imports Receiver_Safety Example_Config
begin

text \<open>
  Exactly-once delivery of a chunked model: however the chunks of a transfer are ordered and
  repeated, the receiver schedules the model callback once, when and only when the last missing
  chunk arrives, with the sender's bytes. The abstract state of a transfer is the set of indices
  received; \<open>progress\<close> relates it to the community's tables.
\<close>

section \<open>A transfer seen by the receiver\<close>

text \<open>\<open>h\<close> is any chunk of the transfer; it fixes the fields all chunks share.\<close>

definition fits :: "bytes list \<Rightarrow> model_chunk \<Rightarrow> model_chunk \<Rightarrow> bool" where
  "fits parts h p \<longleftrightarrow> mc_transfer_id p = mc_transfer_id h \<and> mc_total_chunks p = int (length parts)
     \<and> mc_sender_id p = mc_sender_id h \<and> mc_round_number p = mc_round_number h
     \<and> mc_sample_count p = mc_sample_count h \<and> mc_loss p = mc_loss h \<and> mc_accuracy p = mc_accuracy h
     \<and> 0 \<le> mc_chunk_index p \<and> mc_chunk_index p < int (length parts)
     \<and> mc_chunk_data p = parts ! nat (mc_chunk_index p)"

definition arrives :: "bytes list \<Rightarrow> model_chunk \<Rightarrow> ipv8_peer \<Rightarrow> community \<Rightarrow> env \<times> model_chunk \<Rightarrow> bool" where
  "arrives parts h peer st ep \<longleftrightarrow> fits parts h (snd ep) \<and> wire_chunk (snd ep)
     \<and> chunk_authenticate (fst ep) peer (snd ep) st = Accept
     \<and> mc_round_number (snd ep) \<le> e_local_round (fst ep) + cm_max_round_skip st
     \<and> e_deserializes (fst ep) (concat parts)"

definition room :: "ipv8_peer \<Rightarrow> community \<Rightarrow> bool" where
  "room peer st \<longleftrightarrow> peer_transfers (pr_mid peer) st < MAX_CONCURRENT_TRANSFERS_PER_PEER
     \<and> length (cm_chunk_buffers st) < MAX_TOTAL_TRANSFERS
     \<and> peer_bytes (pr_mid peer) st < MAX_BUFFERED_BYTES_PER_PEER"

definition transfer_fits :: "bytes list \<Rightarrow> bool" where
  "transfer_fits parts \<longleftrightarrow> parts \<noteq> [] \<and> int (length parts) \<le> MAX_CHUNKS_PER_TRANSFER
     \<and> int (length (concat parts)) \<le> MAX_INCOMING_MESSAGE_SIZE"

definition fresh_transfer :: "ipv8_peer \<Rightarrow> string \<Rightarrow> community \<Rightarrow> bool" where
  "fresh_transfer peer tid st \<longleftrightarrow> map_of (cm_chunk_buffers st) (pr_mid peer, tid) = None
     \<and> map_of (cm_completed_chunk_transfers st) (pr_mid peer, tid) = None
     \<and> (\<forall>i. map_of (cm_recent_chunks st) (pr_mid peer, tid, i) = None)"

definition expected_delivery :: "bytes list \<Rightarrow> model_chunk \<Rightarrow> model_delivery" where
  "expected_delivery parts h = \<lparr>md_sender_id = mc_sender_id h, md_weights = concat parts,
     md_sample_count = mc_sample_count h, md_round_number = mc_round_number h,
     md_loss = mc_loss h, md_accuracy = mc_accuracy h\<rparr>"

text \<open>The chunks arrive one after the other from one transport peer.\<close>

definition receive_all :: "ipv8_peer \<Rightarrow> (env \<times> model_chunk) list \<Rightarrow> community \<Rightarrow> community \<times> effect list" where
  "receive_all peer eps st = run (\<lambda>s (e, p). on_model_chunk e peer p s) st eps"

definition received :: "(env \<times> model_chunk) list \<Rightarrow> nat set" where
  "received eps = (\<lambda>(e, p). nat (mc_chunk_index p)) ` set eps"

section \<open>The simulation relation\<close>

definition header_ok :: "model_chunk \<Rightarrow> chunk_buffer \<Rightarrow> bool" where
  "header_ok h b \<longleftrightarrow> cb_round_number b = mc_round_number h \<and> cb_sample_count b = mc_sample_count h
     \<and> cb_loss b = mc_loss h \<and> cb_accuracy b = mc_accuracy h"

definition progress :: "bytes list \<Rightarrow> model_chunk \<Rightarrow> ipv8_peer \<Rightarrow> nat set \<Rightarrow> community \<Rightarrow> bool" where
  "progress parts h peer J st \<longleftrightarrow>
     (let key = (pr_mid peer, mc_transfer_id h) in
      if J = {..<length parts} then map_of (cm_completed_chunk_transfers st) key \<noteq> None
      else map_of (cm_completed_chunk_transfers st) key = None
        \<and> (\<forall>i. map_of (cm_recent_chunks st) (pr_mid peer, mc_transfer_id h, i) \<noteq> None
             \<longleftrightarrow> 0 \<le> i \<and> nat i \<in> J)
        \<and> (if J = {} then map_of (cm_chunk_buffers st) key = None \<and> room peer st
           else (\<exists>b. map_of (cm_chunk_buffers st) key = Some b \<and> buffer.holds parts J b \<and> header_ok h b)))"

lemma fresh_progress:
  "fresh_transfer peer (mc_transfer_id h) st \<Longrightarrow> room peer st \<Longrightarrow> parts \<noteq> [] \<Longrightarrow> progress parts h peer {} st"
  by (auto simp: progress_def fresh_transfer_def)

lemma holds_same: "same_content b b' \<Longrightarrow> buffer.holds parts J b \<Longrightarrow> buffer.holds parts J b'"
  by (simp add: buffer.holds_def buffer_expects_def same_content_def)

lemma header_same: "same_content b b' \<Longrightarrow> header_ok h b \<Longrightarrow> header_ok h b'"
  by (simp add: header_ok_def same_content_def)

lemma auth_config:
  "same_config st st' \<Longrightarrow> chunk_authenticate e peer p st = Accept \<Longrightarrow> chunk_authenticate e peer p st' = Accept"
  by (auto simp: chunk_authenticate_def identity_mismatch_def same_config_def
      split: option.splits if_splits sum.splits)

lemma arrives_config: "same_config st st' \<Longrightarrow> arrives parts h peer st ep \<Longrightarrow> arrives parts h peer st' ep"
  unfolding arrives_def using auth_config [of st st'] by (simp add: same_config_def)

text \<open>Adding a chunk to the buffer of the transfer.\<close>

lemma grown_holds:
  assumes "fits parts h p" and "J = {} \<Longrightarrow> map_of (cm_chunk_buffers st) (buf_key peer p) = None"
    and "J \<noteq> {} \<Longrightarrow> \<exists>b. map_of (cm_chunk_buffers st) (buf_key peer p) = Some b
      \<and> buffer.holds parts J b \<and> header_ok h b"
  shows "buffer.holds parts (insert (nat (mc_chunk_index p)) J) (grown_buffer e peer p st)
    \<and> header_ok h (grown_buffer e peer p st)"
proof -
  have base: "buffer.holds parts J (base_buffer e peer p st) \<and> header_ok h (base_buffer e peer p st)"
  proof (cases "J = {}")
    case True
    then show ?thesis
      using assms(1,2)
      by (simp add: base_buffer_def get_or_create_buffer_def new_buffer_def buffer.holds_def
          buffer_expects_def header_ok_def fits_def fun_eq_iff)
  next
    case False
    with assms(3) show ?thesis
      by (auto simp: base_buffer_def get_or_create_buffer_def)
  qed
  let ?i = "nat (mc_chunk_index p)"
  have i: "?i < length parts" "int ?i = mc_chunk_index p" "mc_chunk_data p = parts ! ?i"
    using assms(1) by (auto simp: fits_def)
  have "buffer.holds parts (insert ?i J) (grown_buffer e peer p st)"
    using buffer.holds_add [OF conjunct1 [OF base] i(1)] i by (simp add: grown_buffer_def)
  moreover have "header_ok h (grown_buffer e peer p st)"
    using base by (simp add: grown_buffer_def header_ok_def add_chunk_def Let_def)
  ultimately show ?thesis by blast
qed

lemma finish_delivers:
  assumes hold: "buffer.holds parts {..<length parts} b" and "header_ok h b" and "transfer_fits parts"
    and "fits parts h p" and "e_deserializes e (concat parts)" and "cm_has_update_callback st"
  shows "deliveries (snd (finish_transfer e peer p b st)) = [expected_delivery parts h]"
    and "map_of (cm_completed_chunk_transfers (fst (finish_transfer e peer p b st))) (buf_key peer p) \<noteq> None"
proof -
  have "reassemble b = ok (concat parts)"
    using buffer.holds_assemble [OF hold] assms(3) by (simp add: transfer_fits_def)
  then show "deliveries (snd (finish_transfer e peer p b st)) = [expected_delivery parts h]"
    and "map_of (cm_completed_chunk_transfers (fst (finish_transfer e peer p b st))) (buf_key peer p) \<noteq> None"
    using assms
    by (auto simp: finish_transfer_def Let_def transfer_fits_def mark_completed_def drop_buffer_def
        chunk_delivery_def expected_delivery_def header_ok_def fits_def dict_simps)
qed

section \<open>One chunk\<close>

definition step_ok ::
    "bytes list \<Rightarrow> model_chunk \<Rightarrow> ipv8_peer \<Rightarrow> nat set \<Rightarrow> nat set \<Rightarrow> community \<Rightarrow> community \<times> effect list \<Rightarrow> bool" where
  "step_ok parts h peer J K st r \<longleftrightarrow> progress parts h peer K (fst r) \<and> same_config st (fst r)
     \<and> deliveries (snd r) =
        (if K = {..<length parts} \<and> J \<noteq> {..<length parts} then [expected_delivery parts h] else [])"

lemma key_eqs:
  "fits parts h p \<Longrightarrow> buf_key peer p = (pr_mid peer, mc_transfer_id h)"
  "fits parts h p \<Longrightarrow> chunk_key peer p = (pr_mid peer, mc_transfer_id h, mc_chunk_index p)"
  by (simp_all add: fits_def buf_key_def chunk_key_def)

text \<open>A chunk of a finished transfer is acknowledged, nothing else happens.\<close>

lemma step_completed:
  assumes "progress parts h peer {..<length parts} st" and "arrives parts h peer st (e, p)"
  shows "step_ok parts h peer {..<length parts} {..<length parts} st (on_model_chunk e peer p st)"
proof -
  have "map_of (cm_completed_chunk_transfers st) (buf_key peer p) \<noteq> None"
    using assms key_eqs(1) [of parts h p peer] by (simp add: progress_def arrives_def)
  then have "on_model_chunk e peer p st = (st, send_chunk_ack_ranges e peer (mc_transfer_id p)
      (mc_data_schema_hash p) (mc_round_number p) (mc_total_chunks p) [0..mc_total_chunks p - 1] st)"
    using assms(2) by (auto simp: on_model_chunk_def arrives_def)
  then show ?thesis
    using assms(1) by (simp add: step_ok_def)
qed

text \<open>A repeated chunk is acknowledged again and leaves the contents of the buffer alone.\<close>

lemma step_duplicate:
  assumes prog: "progress parts h peer J st" and arr: "arrives parts h peer st (e, p)"
    and "J \<noteq> {..<length parts}" and dup: "nat (mc_chunk_index p) \<in> J"
  shows "step_ok parts h peer J J st (on_model_chunk e peer p st)"
proof -
  have fit: "fits parts h p" and auth: "chunk_authenticate e peer p st = Accept"
    using arr by (simp_all add: arrives_def)
  note keys = key_eqs [OF fit, of peer]
  have "J \<noteq> {}" using dup by blast
  with prog assms(3) obtain b where
    fresh: "map_of (cm_completed_chunk_transfers st) (buf_key peer p) = None"
    and rec: "\<And>i. map_of (cm_recent_chunks st) (pr_mid peer, mc_transfer_id h, i) \<noteq> None \<longleftrightarrow> 0 \<le> i \<and> nat i \<in> J"
    and b: "map_of (cm_chunk_buffers st) (buf_key peer p) = Some b" "buffer.holds parts J b" "header_ok h b"
    unfolding progress_def Let_def keys by (metis (no_types, lifting))
  have recent: "map_of (cm_recent_chunks st) (chunk_key peer p) \<noteq> None"
    unfolding keys using rec fit dup by (simp add: fits_def)
  have "nat (mc_chunk_index p) < length parts" "0 \<le> mc_chunk_index p"
    using fit by (auto simp: fits_def)
  then have stored: "map_of (cb_chunks b) (mc_chunk_index p) \<noteq> None"
    using b(2) dup by (simp add: buffer.holds_def)
  let ?b = "fst (maybe_send_chunk_ack e peer b True st)"
  have r: "on_model_chunk e peer p st = (put_buffer peer p ?b st, snd (maybe_send_chunk_ack e peer b True st))"
    using auth fresh recent stored b(1)
    by (auto simp: on_model_chunk_def duplicate_chunk_def case_prod_beta)
  have "buffer.holds parts J ?b \<and> header_ok h ?b"
    using b ack_same_content holds_same header_same by blast
  then have "progress parts h peer J (put_buffer peer p ?b st)"
    using assms(3) fresh rec \<open>J \<noteq> {}\<close> by (simp add: progress_def keys(1) dict_simps put_buffer_def)
  then show ?thesis
    using assms(3) by (simp add: step_ok_def r)
qed

text \<open>A new chunk passes admission and is stored; the last one delivers the model.\<close>

lemma progress_not_full:
  assumes "progress parts h peer J st" and "J \<noteq> {..<length parts}" and "fits parts h p"
  shows "map_of (cm_completed_chunk_transfers st) (buf_key peer p) = None"
    and "map_of (cm_recent_chunks st) (chunk_key peer p) = None \<longleftrightarrow> nat (mc_chunk_index p) \<notin> J"
    and "J = {} \<Longrightarrow> map_of (cm_chunk_buffers st) (buf_key peer p) = None \<and> room peer st"
    and "J \<noteq> {} \<Longrightarrow> \<exists>b. map_of (cm_chunk_buffers st) (buf_key peer p) = Some b
      \<and> buffer.holds parts J b \<and> header_ok h b"
proof -
  note keys = key_eqs [OF assms(3), of peer]
  have "0 \<le> mc_chunk_index p" using assms(3) by (simp add: fits_def)
  moreover have "map_of (cm_recent_chunks st) (chunk_key peer p) \<noteq> None
      \<longleftrightarrow> 0 \<le> mc_chunk_index p \<and> nat (mc_chunk_index p) \<in> J"
    using assms(1,2) unfolding progress_def Let_def keys by presburger
  ultimately show "map_of (cm_recent_chunks st) (chunk_key peer p) = None \<longleftrightarrow> nat (mc_chunk_index p) \<notin> J"
    by blast
  show "map_of (cm_completed_chunk_transfers st) (buf_key peer p) = None"
    using assms(1,2) unfolding progress_def Let_def keys by presburger
  show "J = {} \<Longrightarrow> map_of (cm_chunk_buffers st) (buf_key peer p) = None \<and> room peer st"
    using assms(1,2) unfolding progress_def Let_def keys by presburger
  show "J \<noteq> {} \<Longrightarrow> \<exists>b. map_of (cm_chunk_buffers st) (buf_key peer p) = Some b
      \<and> buffer.holds parts J b \<and> header_ok h b"
    using assms(1,2) unfolding progress_def Let_def keys by presburger
qed

lemma new_chunk_admitted:
  assumes "progress parts h peer J st" and "J \<noteq> {..<length parts}" and "arrives parts h peer st (e, p)"
    and "transfer_fits parts"
  shows "chunk_admission e peer p (mark_recent e peer p st) = None"
proof -
  have fit: "fits parts h p" using assms(3) by (simp add: arrives_def)
  note pr = progress_not_full [OF assms(1,2) fit]
  have "\<not> mc_total_chunks p > MAX_CHUNKS_PER_TRANSFER"
    "\<not> mc_round_number p > e_local_round e + cm_max_round_skip st"
    using fit assms(3,4) by (simp_all add: fits_def transfer_fits_def arrives_def)
  then show ?thesis
    using pr by (cases "J = {}")
      (auto simp: chunk_admission_def Let_def mark_recent_def room_def peer_transfers_def peer_bytes_def)
qed

lemma step_new:
  assumes prog: "progress parts h peer J st" and arr: "arrives parts h peer st (e, p)"
    and inv: "receiver_inv st" and cap: "transfer_fits parts" and cb: "cm_has_update_callback st"
    and nf: "J \<noteq> {..<length parts}" and new: "nat (mc_chunk_index p) \<notin> J"
  shows "step_ok parts h peer J (insert (nat (mc_chunk_index p)) J) st (on_model_chunk e peer p st)"
proof -
  let ?i = "nat (mc_chunk_index p)" and ?m = "mark_recent e peer p st"
  have fit: "fits parts h p" and wire: "wire_chunk p"
    using arr by (simp_all add: arrives_def)
  note pr = progress_not_full [OF prog nf fit] and adm = new_chunk_admitted [OF prog nf arr cap]
  have r: "on_model_chunk e peer p st = chunk_store e peer p ?m"
    using arr pr(1,2) new adm by (simp add: on_model_chunk_def arrives_def Let_def)
  have grown: "buffer.holds parts (insert ?i J) (grown_buffer e peer p ?m)" "header_ok h (grown_buffer e peer p ?m)"
    using grown_holds [OF fit, of J ?m peer e] pr(3,4) by simp_all
  have full: "is_complete (grown_buffer e peer p ?m) \<longleftrightarrow> insert ?i J = {..<length parts}"
    by (rule buffer.holds_complete [OF grown(1)]) simp
  have "receiver_inv ?m"
    by (rule receiver_inv_cong [THEN iffD1, OF _ inv]) simp
  then have base: "buffer_ok (base_buffer e peer p ?m)"
    by (rule base_buffer_ok [OF _ wire admission_None(1) [OF adm]])
  have config: "same_config st ?m" by simp
  from base wire show ?thesis
  proof (cases rule: chunk_store_cases)
    case (complete b st1 effs0)
    have b: "buffer.holds parts {..<length parts} b" "header_ok h b"
      using holds_same [OF complete(2) grown(1)] header_same [OF complete(2) grown(2)] complete(1) full by simp_all
    have "cm_has_update_callback st1"
      using cb config complete(3) by (simp add: same_config_def)
    then have "deliveries (snd (finish_transfer e peer p b st1)) = [expected_delivery parts h]"
      "map_of (cm_completed_chunk_transfers (fst (finish_transfer e peer p b st1))) (buf_key peer p) \<noteq> None"
      using finish_delivers [OF b cap fit, of e st1 peer] arr by (simp_all add: arrives_def)
    moreover have "same_config st (fst (finish_transfer e peer p b st1))"
      using config complete(3) finish_config same_config_trans by blast
    ultimately show ?thesis
      using complete full nf key_eqs(1) [OF fit, of peer] by (simp add: step_ok_def r progress_def)
  next
    case (partial b)
    have b: "buffer.holds parts (insert ?i J) b" "header_ok h b"
      using holds_same [OF partial(2) grown(1)] header_same [OF partial(2) grown(2)] by simp_all
    have "insert ?i J \<noteq> {..<length parts}" using partial(1) full by blast
    moreover have "map_of (cm_recent_chunks (fst (chunk_store e peer p ?m))) (pr_mid peer, mc_transfer_id h, i) \<noteq> None
        \<longleftrightarrow> 0 \<le> i \<and> nat i \<in> insert ?i J" for i
      using prog nf fit partial(6) key_eqs(2) [OF fit, of peer]
      by (auto simp: mark_recent_def dict_simps progress_def fits_def Let_def)
    ultimately show ?thesis
      using partial b pr(1) key_eqs(1) [OF fit, of peer] same_config_trans [OF config partial(3)]
      by (simp add: step_ok_def r progress_def dict_simps)
  qed
qed

lemma on_model_chunk_step:
  assumes "progress parts h peer J st" and "arrives parts h peer st (e, p)" and "receiver_inv st"
    and "transfer_fits parts" and "cm_has_update_callback st"
  shows "step_ok parts h peer J (insert (nat (mc_chunk_index p)) J) st (on_model_chunk e peer p st)"
proof (cases "J = {..<length parts}")
  case True
  moreover have "nat (mc_chunk_index p) \<in> J"
    using True assms(2) by (auto simp: arrives_def fits_def)
  ultimately show ?thesis
    using step_completed [of parts h peer st e p] assms(1,2) by (simp add: insert_absorb)
next
  case False
  then show ?thesis
    using step_duplicate [OF assms(1,2) False] step_new [OF assms False]
    by (cases "nat (mc_chunk_index p) \<in> J") (simp_all add: insert_absorb)
qed

section \<open>All chunks\<close>

lemma receive_all_progress:
  assumes "progress parts h peer J st" and "list_all (arrives parts h peer st) eps" and "receiver_inv st"
    and "transfer_fits parts" and "cm_has_update_callback st" and "J \<subseteq> {..<length parts}"
  shows "progress parts h peer (J \<union> received eps) (fst (receive_all peer eps st))
    \<and> deliveries (snd (receive_all peer eps st)) =
      (if J \<union> received eps = {..<length parts} \<and> J \<noteq> {..<length parts} then [expected_delivery parts h] else [])"
  using assms
proof (induction eps arbitrary: J st)
  case Nil
  then show ?case by (simp add: receive_all_def received_def)
next
  case (Cons ep eps)
  obtain e p where ep: "ep = (e, p)" by fastforce
  let ?K = "insert (nat (mc_chunk_index p)) J" and ?st = "fst (on_model_chunk e peer p st)"
  have arr: "arrives parts h peer st (e, p)" using Cons.prems(2) ep by simp
  have step: "step_ok parts h peer J ?K st (on_model_chunk e peer p st)"
    by (rule on_model_chunk_step [OF Cons.prems(1) arr Cons.prems(3-5)])
  then have config: "same_config st ?st" by (simp add: step_ok_def)
  have K: "?K \<subseteq> {..<length parts}" using arr Cons.prems(6) by (auto simp: arrives_def fits_def)
  have "receiver_inv ?st"
    using on_model_chunk_inv [OF Cons.prems(3)] arr by (simp add: arrives_def)
  moreover have "list_all (arrives parts h peer ?st) eps"
    using Cons.prems(2) arrives_config [OF config] by (auto simp: list_all_iff)
  moreover have "cm_has_update_callback ?st"
    using config Cons.prems(5) by (simp add: same_config_def)
  ultimately have "progress parts h peer (?K \<union> received eps) (fst (receive_all peer eps ?st))
    \<and> deliveries (snd (receive_all peer eps ?st)) =
      (if ?K \<union> received eps = {..<length parts} \<and> ?K \<noteq> {..<length parts} then [expected_delivery parts h] else [])"
    using Cons.IH [of ?K ?st] step Cons.prems(4) K by (simp add: step_ok_def)
  moreover have "received eps \<subseteq> {..<length parts}"
    using Cons.prems(2) by (fastforce simp: received_def list_all_iff arrives_def fits_def)
  moreover have "J \<union> received (ep # eps) = ?K \<union> received eps"
    by (auto simp: received_def ep)
  ultimately show ?case
    using step K Cons.prems(6) unfolding receive_all_def step_ok_def
    by (auto simp: run_Cons ep simp del: run.simps)
qed

lemma receive_all_delivers:
  assumes "receiver_inv st" and "room peer st" and "fresh_transfer peer (mc_transfer_id h) st"
    and "transfer_fits parts" and "cm_has_update_callback st"
    and "list_all (arrives parts h peer st) eps"
  shows "deliveries (snd (receive_all peer eps st)) =
    (if received eps = {..<length parts} then [expected_delivery parts h] else [])"
proof -
  have ne: "parts \<noteq> []" using assms(4) by (simp add: transfer_fits_def)
  from receive_all_progress [OF fresh_progress [OF assms(3,2) ne] assms(6,1,4,5)] ne
  show ?thesis by auto
qed

text \<open>C2: The chunks of a fresh transfer that fit the receiver's limits, from a peer they authenticate,
  lead to exactly one scheduled model callback if they cover the transfer, in whatever order and
  however often each arrives, and to none if they do not; the delivered bytes and metadata are the
  sender's.\<close>

theorem exactly_once_delivery:
  assumes "receiver_inv st" and "room peer st" and "fresh_transfer peer (mc_transfer_id h) st"
    and "transfer_fits parts" and "cm_has_update_callback st"
    and "list_all (arrives parts h peer st) eps"
  shows "deliveries (snd (receive_all peer eps st)) =
    (if received eps = {..<length parts} then [expected_delivery parts h] else [])"
  by (rule receive_all_delivers [OF assms])

definition sample_chunk :: "int \<Rightarrow> bytes \<Rightarrow> model_chunk" where
  "sample_chunk i d = \<lparr>mc_transfer_id = ''t'', mc_chunk_index = i, mc_total_chunks = 2, mc_sender_id = ''b'',
     mc_data_schema_hash = ''s'', mc_round_number = 1, mc_sample_count = 3, mc_loss = 0, mc_accuracy = 0,
     mc_timestamp = 50, mc_chunk_data = d, mc_signature = []\<rparr>"

definition open_community :: community where
  "open_community = sample_community\<lparr>cm_require_signature := False\<rparr>"

definition sample_arrivals :: "(env \<times> model_chunk) list" where
  "sample_arrivals = [(sample_env, sample_chunk 1 [8]), (sample_env, sample_chunk 1 [8]),
     (sample_env, sample_chunk 0 [7])]"

lemma open_community_fresh:
  "receiver_inv open_community" "room sample_peer open_community"
  "fresh_transfer sample_peer tid open_community" "cm_has_update_callback open_community"
  by (simp_all add: receiver_inv_init open_community_def sample_defs room_def fresh_transfer_def
      peer_transfers_def peer_bytes_def MAX_CONCURRENT_TRANSFERS_PER_PEER_def MAX_TOTAL_TRANSFERS_def
      MAX_BUFFERED_BYTES_PER_PEER_def)

lemma sample_arrives:
  "i < 2 \<Longrightarrow> arrives [[7], [8]] (sample_chunk 0 [7]) sample_peer open_community
     (sample_env, sample_chunk (int i) ([[7], [8]] ! i))"
  by (auto simp: arrives_def fits_def wire_chunk_def u32_def sample_chunk_def open_community_def sample_defs
      chunk_authenticate_def identity_mismatch_def)

theorem exactly_once_delivery_witness:
  "deliveries (snd (receive_all sample_peer sample_arrivals open_community)) =
     [expected_delivery [[7], [8]] (sample_chunk 0 [7])]"
proof -
  have "list_all (arrives [[7], [8]] (sample_chunk 0 [7]) sample_peer open_community) sample_arrivals"
    using sample_arrives [of 0] sample_arrives [of 1] by (simp add: sample_arrivals_def)
  moreover have "transfer_fits [[7], [8]]"
    by (simp add: transfer_fits_def MAX_CHUNKS_PER_TRANSFER_def MAX_INCOMING_MESSAGE_SIZE_def)
  moreover have "received sample_arrivals = {..<length [[7], [8 :: byte]]}"
    by (auto simp: received_def sample_arrivals_def sample_chunk_def)
  ultimately show ?thesis
    using exactly_once_delivery [OF open_community_fresh(1,2,3) _ open_community_fresh(4)] by presburger
qed

section \<open>What cannot happen\<close>

lemma authenticate_accept:
  "chunk_authenticate e peer p st = Accept \<longleftrightarrow> identity_mismatch st peer (mc_sender_id p) = None
     \<and> (if mc_signature p \<noteq> []
         then chunk_verify (e_crypto e) (pr_public_key peer) (mc_signature p) (mc_sender_id p)
                (mc_round_number p) (mc_data_schema_hash p) (mc_chunk_index p) (mc_chunk_data p)
                (chunk_payload_meta p) = ok True
         else \<not> cm_require_signature st)"
  by (auto simp: chunk_authenticate_def split: option.splits sum.splits)

lemma deliveries_admission:
  "chunk_admission e peer p st = Some r \<Longrightarrow> deliveries (snd r) = []"
  by (auto simp: chunk_admission_def Let_def split: if_splits)

lemma deliveries_duplicate: "deliveries (snd (duplicate_chunk e peer p st)) = []"
  by (auto simp: duplicate_chunk_def case_prod_beta split: option.splits)

lemma admission_round:
  "chunk_admission e peer p st = None \<Longrightarrow> mc_round_number p \<le> e_local_round e + cm_max_round_skip st"
  by (auto simp: chunk_admission_def Let_def not_less split: if_splits)

text \<open>C33: A model is scheduled for delivery only by a chunk whose sender name is the one the transport
  peer announced (if it announced one), which carries a valid signature or is unsigned where unsigned
  messages are allowed, whose transfer was not completed before, which is not a repetition, and whose
  round is at most \<open>max_round_skip\<close> ahead of the local one.\<close>

theorem delivery_authenticated:
  assumes "deliveries (snd (on_model_chunk e peer p st)) \<noteq> []"
  shows "identity_mismatch st peer (mc_sender_id p) = None
    \<and> (if mc_signature p \<noteq> []
        then chunk_verify (e_crypto e) (pr_public_key peer) (mc_signature p) (mc_sender_id p)
               (mc_round_number p) (mc_data_schema_hash p) (mc_chunk_index p) (mc_chunk_data p)
               (chunk_payload_meta p) = ok True
        else \<not> cm_require_signature st)
    \<and> map_of (cm_completed_chunk_transfers st) (buf_key peer p) = None
    \<and> map_of (cm_recent_chunks st) (chunk_key peer p) = None
    \<and> mc_round_number p \<le> e_local_round e + cm_max_round_skip st"
proof (cases "chunk_authenticate e peer p st")
  case (Reject effs)
  have "deliveries effs = []"
    using Reject by (auto simp: chunk_authenticate_def split: option.splits if_splits sum.splits)
  then show ?thesis using assms Reject by (simp add: on_model_chunk_def)
next
  case Accept
  let ?m = "mark_recent e peer p st"
  have fresh: "map_of (cm_completed_chunk_transfers st) (buf_key peer p) = None"
    "map_of (cm_recent_chunks st) (chunk_key peer p) = None"
    using assms Accept deliveries_duplicate by (auto simp: on_model_chunk_def split: if_splits)
  moreover have "chunk_admission e peer p ?m = None"
    using assms Accept fresh deliveries_admission [of e peer p ?m]
    by (cases "chunk_admission e peer p ?m") (auto simp: on_model_chunk_def Let_def)
  then have "mc_round_number p \<le> e_local_round e + cm_max_round_skip st"
    using admission_round [of e peer p ?m] by (simp add: mark_recent_def)
  ultimately show ?thesis
    using Accept authenticate_accept by blast
qed

definition single_chunk :: model_chunk where
  "single_chunk = (sample_chunk 0 [7])\<lparr>mc_total_chunks := 1\<rparr>"

theorem delivery_authenticated_witness:
  "deliveries (snd (on_model_chunk sample_env sample_peer single_chunk open_community)) \<noteq> []
   \<and> map_of (cm_recent_chunks open_community) (chunk_key sample_peer single_chunk) = None
   \<and> mc_round_number single_chunk \<le> e_local_round sample_env + cm_max_round_skip open_community"
proof -
  have arr: "arrives [[7]] single_chunk sample_peer open_community (sample_env, single_chunk)"
    by (simp add: arrives_def fits_def wire_chunk_def u32_def single_chunk_def sample_chunk_def
        open_community_def sample_defs chunk_authenticate_def identity_mismatch_def)
  have fit: "transfer_fits [[7]]"
    by (simp add: transfer_fits_def MAX_CHUNKS_PER_TRANSFER_def MAX_INCOMING_MESSAGE_SIZE_def)
  have "progress [[7]] single_chunk sample_peer {} open_community"
    by (rule fresh_progress [OF open_community_fresh(3,2)]) simp
  from on_model_chunk_step [OF this arr open_community_fresh(1) fit open_community_fresh(4)]
  have "deliveries (snd (on_model_chunk sample_env sample_peer single_chunk open_community)) \<noteq> []"
    by (auto simp: step_ok_def single_chunk_def sample_chunk_def split: if_splits)
  from this delivery_authenticated [OF this] show ?thesis by blast
qed

definition agree_at :: "string \<times> string \<Rightarrow> community \<Rightarrow> community \<Rightarrow> bool" where
  "agree_at k st st' \<longleftrightarrow> map_of (cm_chunk_buffers st') k = map_of (cm_chunk_buffers st) k
     \<and> map_of (cm_completed_chunk_transfers st') k = map_of (cm_completed_chunk_transfers st) k"

lemma finish_agrees:
  assumes "k \<noteq> buf_key peer p"
  shows "agree_at k st (fst (finish_transfer e peer p b st))"
  using assms
  by (auto simp: finish_transfer_def agree_at_def Let_def mark_completed_def drop_buffer_def dict_simps
      split: sum.splits)

lemma store_agrees:
  assumes "buffer_ok (base_buffer e peer p st)" and "wire_chunk p" and "k \<noteq> buf_key peer p"
  shows "agree_at k st (fst (chunk_store e peer p st))"
  using assms(1,2)
proof (cases rule: chunk_store_cases)
  case (complete b st1 effs0)
  then show ?thesis
    using finish_agrees [OF assms(3), of st1 e b] assms(3) by (simp add: agree_at_def dict_simps)
next
  case (partial b)
  then show ?thesis using assms(3) by (simp add: agree_at_def dict_simps)
qed

lemma admission_agrees: "chunk_admission e peer p st = Some r \<Longrightarrow> agree_at k st (fst r)"
  by (auto simp: chunk_admission_def agree_at_def Let_def split: if_splits)

lemma admission_config: "chunk_admission e peer p st = Some r \<Longrightarrow> same_config st (fst r)"
  by (auto simp: chunk_admission_def Let_def split: if_splits)

lemma duplicate_agrees: "k \<noteq> buf_key peer p \<Longrightarrow> agree_at k st (fst (duplicate_chunk e peer p st))"
  by (auto simp: duplicate_chunk_def agree_at_def case_prod_beta dict_simps split: option.splits)

text \<open>A chunk touches no buffer and no completion mark but those of its own transport peer and
  transfer identifier, so no peer can disturb the transfer of another one.\<close>

theorem chunk_isolation:
  assumes "receiver_inv st" and "wire_chunk p" and "k \<noteq> (pr_mid peer, mc_transfer_id p)"
  shows "map_of (cm_chunk_buffers (fst (on_model_chunk e peer p st))) k = map_of (cm_chunk_buffers st) k
    \<and> map_of (cm_completed_chunk_transfers (fst (on_model_chunk e peer p st))) k
        = map_of (cm_completed_chunk_transfers st) k"
proof -
  let ?m = "mark_recent e peer p st"
  have k: "k \<noteq> buf_key peer p" using assms(3) by (simp add: buf_key_def)
  have inv: "receiver_inv ?m"
    by (rule receiver_inv_cong [THEN iffD1, OF _ assms(1)]) simp
  have "agree_at k ?m (fst (case chunk_admission e peer p ?m of
      Some r \<Rightarrow> r | None \<Rightarrow> chunk_store e peer p ?m))"
  proof (cases "chunk_admission e peer p ?m")
    case None
    then show ?thesis
      using store_agrees [OF base_buffer_ok [OF inv assms(2) admission_None(1) [OF None]] assms(2) k] by simp
  qed (use admission_agrees in simp)
  then have "agree_at k st (fst (on_model_chunk e peer p st))"
    using duplicate_agrees [OF k, of st e]
    by (auto simp: on_model_chunk_def Let_def agree_at_def split: verdict.split)
  then show ?thesis by (simp add: agree_at_def)
qed

theorem chunk_isolation_witness:
  "map_of (cm_chunk_buffers (fst (on_model_chunk sample_env sample_peer single_chunk open_community))) (''bb'', ''t'')
     = map_of (cm_chunk_buffers open_community) (''bb'', ''t'')"
  using chunk_isolation [OF open_community_fresh(1), of single_chunk "(''bb'', ''t'')" sample_peer sample_env]
  by (simp add: wire_chunk_def u32_def single_chunk_def sample_chunk_def sample_peer_def)

text \<open>The duplicate filter remembers a chunk before it is admitted: a chunk refused for lack of
  capacity is ignored when it is sent again, even if there is room by then, until the entry expires.\<close>

theorem refused_chunk_is_remembered:
  assumes "chunk_authenticate e peer p st = Accept"
    and "map_of (cm_completed_chunk_transfers st) (buf_key peer p) = None"
    and "map_of (cm_recent_chunks st) (chunk_key peer p) = None"
    and "chunk_admission e peer p (mark_recent e peer p st) = Some (st1, effs)"
    and "map_of (cm_chunk_buffers st) (buf_key peer p) = None"
    and "chunk_authenticate e' peer p st2 = Accept"
    and "cm_recent_chunks st2 = cm_recent_chunks st1"
    and "cm_completed_chunk_transfers st2 = cm_completed_chunk_transfers st1"
    and "cm_chunk_buffers st2 = []"
  shows "on_model_chunk e peer p st = (st1, effs) \<and> on_model_chunk e' peer p st2 = (st2, [])"
proof -
  have st1: "cm_recent_chunks st1 = cm_recent_chunks (mark_recent e peer p st)"
    "cm_completed_chunk_transfers st1 = cm_completed_chunk_transfers st"
    using assms(4) by (auto simp: chunk_admission_def Let_def split: if_splits)
  then have "map_of (cm_recent_chunks st2) (chunk_key peer p) \<noteq> None"
    using assms(7) by (simp add: mark_recent_def dict_simps)
  then show ?thesis
    using assms st1 by (simp add: on_model_chunk_def duplicate_chunk_def Let_def)
qed

text \<open>Fifty transfers of other peers fill the table; afterwards it is empty, and the chunk is lost.\<close>

definition busy :: "nat \<Rightarrow> ((string \<times> string) \<times> chunk_buffer) list" where
  "busy n = map (\<lambda>i. ((CHR ''x'' # replicate i CHR ''x'', ''t''), new_buffer sample_env single_chunk)) [0..<n]"

definition full_community :: community where
  "full_community = open_community\<lparr>cm_chunk_buffers := busy 50\<rparr>"

lemma busy_facts: "length (busy n) = n" "map_of (busy n) (''aa'', tid) = None"
  by (auto simp: busy_def map_of_eq_None_iff)

definition emptied_community :: community where
  "emptied_community = fst (on_model_chunk sample_env sample_peer single_chunk full_community)
     \<lparr>cm_chunk_buffers := []\<rparr>"

lemma full_absent: "map_of (cm_chunk_buffers full_community) (''aa'', tid) = None"
  by (simp add: full_community_def busy_facts)

lemma full_admission:
  "\<exists>st1 effs. chunk_admission sample_env sample_peer single_chunk
     (mark_recent sample_env sample_peer single_chunk full_community) = Some (st1, effs)"
proof -
  let ?m = "mark_recent sample_env sample_peer single_chunk full_community"
  have "length (cm_chunk_buffers ?m) = 50" "map_of (cm_chunk_buffers ?m) (''aa'', mc_transfer_id single_chunk) = None"
    by (simp_all add: full_community_def busy_facts)
  then have "chunk_admission sample_env sample_peer single_chunk ?m \<noteq> None"
    unfolding chunk_admission_def Let_def buf_key_def by (simp add: MAX_TOTAL_TRANSFERS_def sample_peer_def)
  then show ?thesis by auto
qed

theorem refused_chunk_is_remembered_witness:
  "on_model_chunk sample_env sample_peer single_chunk emptied_community = (emptied_community, [])"
proof -
  from full_admission obtain st1 effs where adm: "chunk_admission sample_env sample_peer single_chunk
     (mark_recent sample_env sample_peer single_chunk full_community) = Some (st1, effs)" by blast
  have auth: "chunk_authenticate sample_env sample_peer single_chunk st = Accept"
    if "cm_mid_to_node_id st = []" "\<not> cm_require_signature st" for st
    using that by (simp add: chunk_authenticate_def identity_mismatch_def single_chunk_def sample_chunk_def)
  have full: "cm_mid_to_node_id full_community = []" "\<not> cm_require_signature full_community"
    "cm_completed_chunk_transfers full_community = []" "cm_recent_chunks full_community = []"
    by (simp_all add: full_community_def open_community_def sample_defs)
  have first: "on_model_chunk sample_env sample_peer single_chunk full_community = (st1, effs)"
    using adm auth full by (simp add: on_model_chunk_def Let_def)
  have "same_config full_community st1"
    using admission_config [OF adm] by (simp add: same_config_def mark_recent_def)
  then have auth2: "chunk_authenticate sample_env sample_peer single_chunk emptied_community = Accept"
    using full first by (intro auth) (simp_all add: emptied_community_def same_config_def)
  have key: "buf_key sample_peer single_chunk = (''aa'', ''t'')"
    by (simp add: buf_key_def sample_peer_def single_chunk_def sample_chunk_def)
  have "on_model_chunk sample_env sample_peer single_chunk full_community = (st1, effs)
      \<and> on_model_chunk sample_env sample_peer single_chunk emptied_community = (emptied_community, [])"
    by (rule refused_chunk_is_remembered [OF auth [OF full(1,2)] _ _ adm _ auth2])
      (simp_all add: full key full_absent emptied_community_def first)
  then show ?thesis by blast
qed

end
