(* ===== verification/Chunk_Sender.thy ===== *)
theory Chunk_Sender
  imports Community_Handlers
begin

text \<open>
  The sending side of a chunked transfer (\<open>network/gossip_community.py\<close>): signing and sending one
  chunk, the acknowledgement and NACK handlers, the start and the end of
  \<open>_send_chunked_model_update\<close>, \<open>send_model_update\<close> and the clean-up of the retry cache.

  The send loop is a coroutine: between two \<open>await\<close>s it runs without interruption, and while it
  waits the acknowledgement and NACK handlers may change the transfer. \<open>sender_advance\<close> is one such
  uninterrupted stretch, \<open>transfer_step\<close> the interleaving of stretches and handlers. All clock
  readings of one stretch are equal.
\<close>

section \<open>Sending one chunk\<close>

definition send_model_chunk ::
    "env \<Rightarrow> ipv8_peer \<Rightarrow> string \<Rightarrow> bytes \<Rightarrow> int \<Rightarrow> int \<Rightarrow> int \<Rightarrow> int \<Rightarrow> float64 \<Rightarrow> float64 \<Rightarrow> int \<Rightarrow> community
     \<Rightarrow> effect list" where
  "send_model_chunk e peer transfer_id weights_bytes chunk_index total_chunks sample_count round_number
       loss accuracy timestamp st =
     (let chunk_data = slice CHUNK_SIZE weights_bytes (nat chunk_index) in
      case chunk_sign (e_crypto e) (cm_node_id st) round_number (cm_data_schema_hash st) chunk_index chunk_data
             \<lparr>cm_sample_count = sample_count, cm_loss = loss, cm_accuracy = accuracy,
              cm_timestamp = timestamp, cm_total_chunks = total_chunks\<rparr> of
        Inl err \<Rightarrow> [Raised err]
      | Inr sig \<Rightarrow> [Send peer (MsgChunk
          \<lparr>mc_transfer_id = transfer_id, mc_chunk_index = chunk_index, mc_total_chunks = total_chunks,
           mc_sender_id = cm_node_id st, mc_data_schema_hash = cm_data_schema_hash st,
           mc_round_number = round_number, mc_sample_count = sample_count, mc_loss = loss,
           mc_accuracy = accuracy, mc_timestamp = timestamp_or_now timestamp (e_now e),
           mc_chunk_data = chunk_data, mc_signature = sig\<rparr>)])"

text \<open>\<open>(len(weights_bytes) + CHUNK_SIZE - 1) // CHUNK_SIZE\<close>.\<close>

definition total_chunks_of :: "bytes \<Rightarrow> int" where
  "total_chunks_of w = (int (length w) + int CHUNK_SIZE - 1) div int CHUNK_SIZE"

definition send_transfer_chunk :: "env \<Rightarrow> int \<Rightarrow> outgoing_transfer \<Rightarrow> community \<Rightarrow> effect list" where
  "send_transfer_chunk e index t st =
     send_model_chunk e (ot_peer t) (ot_transfer_id t) (ot_weights_bytes t) index (ot_total_chunks t)
       (ot_sample_count t) (ot_round_number t) (ot_loss t) (ot_accuracy t) (ot_timestamp t) st"

section \<open>Acknowledgements\<close>

text \<open>\<open>transfer.acked.update(acked)\<close> and the completion event.\<close>

definition apply_ack :: "int set \<Rightarrow> outgoing_transfer \<Rightarrow> outgoing_transfer" where
  "apply_ack acked t =
     (let t1 = t\<lparr>ot_acked := ot_acked t \<union> acked\<rparr> in
      if int (card (ot_acked t1)) \<ge> ot_total_chunks t1 then t1\<lparr>ot_completed := True\<rparr> else t1)"

definition on_chunk_ack :: "env \<Rightarrow> ipv8_peer \<Rightarrow> chunk_ack \<Rightarrow> community \<Rightarrow> community \<times> effect list" where
  "on_chunk_ack e peer p st =
     (case map_of (cm_active_outgoing_transfers st) (ca_transfer_id p) of
        None \<Rightarrow> (st, [])
      | Some t \<Rightarrow>
          if pr_mid peer \<noteq> ot_recipient_mid t then (st, [])
          else if ca_sender_id p \<noteq> ot_target_node_id t then (st, [])
          else if ca_total_chunks p \<noteq> ot_total_chunks t then (st, [])
          else case (if ca_signature p \<noteq> []
                     then chunk_verify (e_crypto e) (pr_public_key peer) (ca_signature p) (ca_sender_id p)
                            (ca_round_number p) (ca_data_schema_hash p) 0 (ca_sack_ranges p)
                            (default_meta\<lparr>cm_total_chunks := ca_total_chunks p\<rparr>)
                     else ok True) of
            Inl err \<Rightarrow> (st, [Raised err])
          | Inr valid \<Rightarrow>
              if \<not> valid then (st, [])
              else case unpack_chunk_ranges (ca_sack_ranges p) (Some (ot_total_chunks t)) of
                Inl err \<Rightarrow> (st, [])
              | Inr acked \<Rightarrow>
                  (st\<lparr>cm_active_outgoing_transfers :=
                     AList.update (ca_transfer_id p) (apply_ack acked t) (cm_active_outgoing_transfers st)\<rparr>, []))"

section \<open>NACKs\<close>

text \<open>\<open>struct.unpack(f'{n}I', data)\<close> in native byte order, four octets at a time.\<close>

fun unpack_native :: "endian \<Rightarrow> bytes \<Rightarrow> int list result" where
  "unpack_native en [] = ok []"
| "unpack_native en (a # b # c # d # rest) =
     result_bind (unpack_native en rest) (\<lambda>is. ok (unpack_u32 (native_order en [a, b, c, d]) # is))"
| "unpack_native en _ = raise StructError"

text \<open>The indices a NACK is honoured for: in range, at most 128 of them.\<close>

definition nack_indices :: "int \<Rightarrow> int list \<Rightarrow> int list" where
  "nack_indices total_chunks missing = take CHUNK_MAX_NACK_INDICES (filter (\<lambda>i. i < total_chunks) missing)"

text \<open>For a transfer whose loop is still running the NACK only makes the chunks due again.\<close>

definition mark_missing :: "int list \<Rightarrow> outgoing_transfer \<Rightarrow> outgoing_transfer" where
  "mark_missing indices t =
     fold (\<lambda>index t. if index \<in> ot_acked t then t
             else if map_of (ot_sent_at t) index \<noteq> None
             then t\<lparr>ot_sent_at := AList.update index 0 (ot_sent_at t),
                    ot_attempts := AList.update index 0 (ot_attempts t)\<rparr>
             else t) indices t"

text \<open>The resending of a cached transfer; an exception ends it.\<close>

fun resend_chunks :: "env \<Rightarrow> ipv8_peer \<Rightarrow> string \<Rightarrow> outgoing_entry \<Rightarrow> int list \<Rightarrow> community \<Rightarrow> effect list" where
  "resend_chunks e peer tid d [] st = []"
| "resend_chunks e peer tid d (i # indices) st =
     (let effs = send_model_chunk e peer tid (oe_weights d) i (total_chunks_of (oe_weights d))
        (oe_samples d) (oe_round d) (oe_loss d) (oe_accuracy d) (oe_timestamp d) st
      in if list_ex is_raised effs then effs else effs @ resend_chunks e peer tid d indices st)"

definition count_resend :: "string \<Rightarrow> int list \<Rightarrow> community \<Rightarrow> community" where
  "count_resend tid indices st =
     st\<lparr>cm_nack_resend_counts :=
          AList.update tid (dict_get (cm_nack_resend_counts st) tid 0 + 1) (cm_nack_resend_counts st),
        cm_metrics := (cm_metrics st)\<lparr>chunks_resent := chunks_resent (cm_metrics st) + int (length indices)\<rparr>\<rparr>"

text \<open>The two token buckets, consulted only for a transfer whose loop has ended.\<close>

definition nack_admission ::
    "env \<Rightarrow> ipv8_peer \<Rightarrow> request_chunks \<Rightarrow> community \<Rightarrow> community \<times> verdict" where
  "nack_admission e peer p st =
     (let tid = rc_transfer_id p;
          (ok_t, tb) = nack_try_consume_transfer tid (e_now e) (cm_nack_transfer_buckets st);
          st1 = st\<lparr>cm_nack_transfer_buckets := tb\<rparr> in
      if \<not> ok_t
      then (st1, Reject (emit_dropped st ''nack transfer rate limited'' (rc_sender_id p) (pr_mid peer)
              (Some ''security.nack_rate_limited'') ''nack'' [(''transfer_id'', EStr tid)]))
      else let (ok_p, pb) = nack_try_consume (pr_mid peer) (e_now e) (cm_nack_buckets st1);
               st2 = st1\<lparr>cm_nack_buckets := pb\<rparr> in
        if \<not> ok_p
        then (st2, Reject (emit_dropped st ''nack rate limited'' (rc_sender_id p) (pr_mid peer)
                (Some ''security.nack_rate_limited'') ''nack'' [(''transfer_id'', EStr tid)]))
        else (st2, Accept))"

definition serve_nack ::
    "env \<Rightarrow> ipv8_peer \<Rightarrow> request_chunks \<Rightarrow> outgoing_entry \<Rightarrow> community \<Rightarrow> community \<times> effect list" where
  "serve_nack e peer p d st =
     (let tid = rc_transfer_id p; raw_len = length (rc_missing_indices_bytes p);
          drop = emit_dropped st ''malformed nack payload'' (rc_sender_id p) (pr_mid peer) None ''nack''
                   [(''transfer_id'', EStr tid)] in
      if raw_len = 0 \<or> raw_len mod 4 \<noteq> 0 then (st, drop)
      else case unpack_native (e_endian e) (rc_missing_indices_bytes p) of
        Inl err \<Rightarrow> (st, drop)
      | Inr missing \<Rightarrow>
          let indices = nack_indices (total_chunks_of (oe_weights d)) missing in
          case map_of (cm_active_outgoing_transfers st) tid of
            Some t \<Rightarrow> (st\<lparr>cm_active_outgoing_transfers :=
              AList.update tid (mark_missing indices t) (cm_active_outgoing_transfers st)\<rparr>, [])
          | None \<Rightarrow>
              let effs = resend_chunks e peer tid d indices st
              in (if list_ex is_raised effs then st else count_resend tid indices st, effs))"

definition on_request_chunks ::
    "env \<Rightarrow> ipv8_peer \<Rightarrow> request_chunks \<Rightarrow> community \<Rightarrow> community \<times> effect list" where
  "on_request_chunks e peer p st0 =
     (let tid = rc_transfer_id p;
          st = st0\<lparr>cm_metrics := (cm_metrics st0)\<lparr>nacks_received := nacks_received (cm_metrics st0) + 1\<rparr>\<rparr> in
      case map_of (cm_outgoing_transfers st) tid of
        None \<Rightarrow> (st, emit_dropped st ''unknown transfer'' (rc_sender_id p) (pr_mid peer) None ''nack''
                  [(''transfer_id'', EStr tid)])
      | Some d \<Rightarrow>
          if oe_recipient_mid d \<noteq> [] \<and> pr_mid peer \<noteq> oe_recipient_mid d
          then (st, emit_dropped st ''unauthorized nack'' (rc_sender_id p) (pr_mid peer) None ''nack''
                  [(''transfer_id'', EStr tid)])
          else if map_of (cm_active_outgoing_transfers st) tid \<noteq> None then serve_nack e peer p d st
          else case nack_admission e peer p st of
            (st1, Reject effs) \<Rightarrow> (st1, effs)
          | (st1, Accept) \<Rightarrow> serve_nack e peer p d st1)"

section \<open>The send loop\<close>

datatype retry_outcome = ScanDone | ScanFail int | ScanSend int "(int \<times> real) list"

text \<open>\<open>for index, sent_at in snapshot\<close> up to the next chunk that is due.\<close>

fun retry_scan :: "real \<Rightarrow> (int \<times> real) list \<Rightarrow> outgoing_transfer \<Rightarrow> retry_outcome" where
  "retry_scan now [] t = ScanDone"
| "retry_scan now ((index, sent) # rest) t =
     (if index \<in> ot_acked t then retry_scan now rest t
      else if now - sent < CHUNK_ACK_TIMEOUT then retry_scan now rest t
      else if dict_get (ot_attempts t) index 0 \<ge> CHUNK_MAX_SEND_ATTEMPTS then ScanFail index
      else ScanSend index rest)"

text \<open>Where the coroutine waits: at the poll sleep (or about to start), inside the retry loop with
  the rest of its snapshot, inside the window-filling loop; or it has returned.\<close>

datatype sender_pc = Polling | Retrying real "(int \<times> real) list" | Filling | Returned bool

definition window_size :: "int \<Rightarrow> int" where
  "window_size total_chunks = min CHUNK_WINDOW_INITIAL (min CHUNK_WINDOW_MAX total_chunks)"

definition note_sent :: "real \<Rightarrow> int \<Rightarrow> outgoing_transfer \<Rightarrow> outgoing_transfer" where
  "note_sent clock index t =
     t\<lparr>ot_sent_at := AList.update index clock (ot_sent_at t),
       ot_attempts := AList.update index (dict_get (ot_attempts t) index 0 + 1) (ot_attempts t)\<rparr>"

definition run_after :: "outgoing_transfer \<Rightarrow> sender_pc \<times> outgoing_transfer \<times> int list" where
  "run_after t =
     (if int (card (ot_acked t)) \<ge> ot_total_chunks t
      then (Returned True, t\<lparr>ot_completed := True\<rparr>, [])
      else (Polling, t, []))"

definition run_fill :: "real \<Rightarrow> outgoing_transfer \<Rightarrow> sender_pc \<times> outgoing_transfer \<times> int list" where
  "run_fill clock t =
     (if ot_next_index t < ot_total_chunks t
         \<and> int (in_flight_count clock t) < window_size (ot_total_chunks t)
      then let index = ot_next_index t;
               t1 = (note_sent clock index t)\<lparr>ot_next_index := index + 1\<rparr> in
        if index < ot_total_chunks t - 1 then (Filling, t1, [index])
        else let (pc, t2, sends) = run_after t1 in (pc, t2, index # sends)
      else run_after t)"

definition run_retry ::
    "real \<Rightarrow> (int \<times> real) list \<Rightarrow> real \<Rightarrow> outgoing_transfer \<Rightarrow> sender_pc \<times> outgoing_transfer \<times> int list" where
  "run_retry now rest clock t =
     (case retry_scan now rest t of
        ScanSend index rest' \<Rightarrow>
          (Retrying now rest', (note_sent clock index t)\<lparr>ot_retry_count := ot_retry_count t + 1\<rparr>, [index])
      | ScanFail index \<Rightarrow> (Returned (ot_completed t), t\<lparr>ot_failed_reason := Some (''max attempts exceeded chunk='' @ str_of_int index)\<rparr>, [])
      | ScanDone \<Rightarrow> run_fill clock t)"

text \<open>One stretch of the coroutine from where it waits to the next wait; the last component are the
  indices of the chunks it sends.\<close>

fun sender_advance ::
    "real \<Rightarrow> sender_pc \<Rightarrow> outgoing_transfer \<Rightarrow> sender_pc \<times> outgoing_transfer \<times> int list" where
  "sender_advance clock Polling t =
     (if ot_completed t then (Returned True, t, [])
      else if clock - ot_created_at t > CHUNK_TRANSFER_TIMEOUT
      then (Returned False, t\<lparr>ot_failed_reason := Some ''timeout''\<rparr>, [])
      else run_retry clock (ot_sent_at t) clock t)"
| "sender_advance clock (Retrying now rest) t = run_retry now rest clock t"
| "sender_advance clock Filling t = run_fill clock t"
| "sender_advance clock (Returned b) t = (Returned b, t, [])"

text \<open>What the environment may do to the transfer: let the loop run a stretch at some time, deliver an
  acknowledgement, deliver a NACK, in any order.\<close>

datatype sender_action = Stretch real | AckIn "int set" | NackIn "int list"

fun do_action :: "sender_action \<Rightarrow> sender_pc \<times> outgoing_transfer \<Rightarrow> sender_pc \<times> outgoing_transfer" where
  "do_action (Stretch clock) (pc, t) = (let (pc', t', sends) = sender_advance clock pc t in (pc', t'))"
| "do_action (AckIn acked) (pc, t) = (pc, apply_ack acked t)"
| "do_action (NackIn indices) (pc, t) = (pc, mark_missing indices t)"

text \<open>The transfer as the environment sees it: stretches of the loop, accepted acknowledgements and
  accepted NACKs in any order.\<close>

inductive transfer_step ::
    "sender_pc \<times> outgoing_transfer \<Rightarrow> sender_pc \<times> outgoing_transfer \<Rightarrow> bool" where
  advance: "sender_advance clock pc t = (pc', t', sends) \<Longrightarrow> transfer_step (pc, t) (pc', t')"
| ack: "acked \<subseteq> {0..<ot_total_chunks t} \<Longrightarrow> transfer_step (pc, t) (pc, apply_ack acked t)"
| nack: "transfer_step (pc, t) (pc, mark_missing indices t)"

inductive_cases transfer_stepE [elim!]: "transfer_step s s'"

inductive transfer_reach :: "outgoing_transfer \<Rightarrow> sender_pc \<times> outgoing_transfer \<Rightarrow> bool" for t0 where
  start: "transfer_reach t0 (Polling, t0)"
| step: "transfer_reach t0 s \<Longrightarrow> transfer_step s s' \<Longrightarrow> transfer_reach t0 s'"

section \<open>Starting and ending a chunked send\<close>

definition new_transfer ::
    "string \<Rightarrow> string \<Rightarrow> ipv8_peer \<Rightarrow> bytes \<Rightarrow> int \<Rightarrow> int \<Rightarrow> float64 \<Rightarrow> float64 \<Rightarrow> real \<Rightarrow> inflight_key \<Rightarrow> outgoing_transfer" where
  "new_transfer transfer_id target peer weights_bytes sample_count round_number loss accuracy now key =
     \<lparr>ot_transfer_id = transfer_id, ot_target_node_id = target, ot_recipient_mid = pr_mid peer,
      ot_peer = peer, ot_weights_bytes = weights_bytes, ot_sample_count = sample_count,
      ot_round_number = round_number, ot_loss = loss, ot_accuracy = accuracy,
      ot_timestamp = py_int now, ot_total_chunks = total_chunks_of weights_bytes,
      ot_inflight_key = key, ot_next_index = 0, ot_acked = {}, ot_sent_at = [], ot_attempts = [],
      ot_completed = False, ot_failed_reason = None, ot_created_at = now, ot_retry_count = 0\<rparr>"

datatype send_start = AlreadyInFlight | Started string outgoing_transfer

definition inflight_key_of :: "env \<Rightarrow> string \<Rightarrow> int \<Rightarrow> bytes \<Rightarrow> inflight_key" where
  "inflight_key_of e target round_number weights_bytes =
     (target, round_number, take 16 (hex_of_bytes (sha256 (e_crypto e) weights_bytes)))"

text \<open>\<open>_send_chunked_model_update\<close> up to its loop; \<open>uuid\<close> is the fresh identifier drawn.\<close>

definition start_chunked_send ::
    "env \<Rightarrow> string \<Rightarrow> string \<Rightarrow> net_peer_info \<Rightarrow> bytes \<Rightarrow> int \<Rightarrow> int \<Rightarrow> float64 \<Rightarrow> float64 \<Rightarrow> community
     \<Rightarrow> community \<times> send_start" where
  "start_chunked_send e uuid target info weights_bytes sample_count round_number loss accuracy st =
     (let key = inflight_key_of e target round_number weights_bytes in
      if (case map_of (cm_inflight_transfers st) key of
            None \<Rightarrow> False | Some tid \<Rightarrow> map_of (cm_outgoing_transfers st) tid \<noteq> None)
      then (st, AlreadyInFlight)
      else let t = new_transfer uuid target (np_peer info) weights_bytes sample_count round_number
                     loss accuracy (e_now e) key;
               d = \<lparr>oe_weights = weights_bytes, oe_loss = loss, oe_accuracy = accuracy,
                    oe_round = round_number, oe_samples = sample_count,
                    oe_timestamp = py_int (e_now e), oe_recipient_mid = pr_mid (np_peer info)\<rparr>
           in (st\<lparr>cm_inflight_transfers := AList.update key uuid (cm_inflight_transfers st),
                  cm_outgoing_transfers := AList.update uuid d (cm_outgoing_transfers st),
                  cm_active_outgoing_transfers := AList.update uuid t (cm_active_outgoing_transfers st)\<rparr>,
               Started uuid t))"

text \<open>The \<open>finally\<close> clause.\<close>

definition end_chunked_send :: "outgoing_transfer \<Rightarrow> community \<Rightarrow> community" where
  "end_chunked_send t st =
     st\<lparr>cm_active_outgoing_transfers := AList.delete (ot_transfer_id t) (cm_active_outgoing_transfers st),
        cm_inflight_transfers := AList.delete (ot_inflight_key t) (cm_inflight_transfers st)\<rparr>"

text \<open>\<open>send_model_update\<close> on weights already serialized: unknown target, direct message, or the start
  of a chunked send.\<close>

datatype send_outcome = UnknownTarget | SentDirect "effect list" | Chunked send_start

definition send_model_update ::
    "env \<Rightarrow> string \<Rightarrow> string \<Rightarrow> bytes \<Rightarrow> int \<Rightarrow> int \<Rightarrow> float64 option \<Rightarrow> float64 option \<Rightarrow> community
     \<Rightarrow> community \<times> send_outcome" where
  "send_model_update e uuid target weights_bytes sample_count round_number loss accuracy st =
     (case map_of (cm_known_peers st) target of
        None \<Rightarrow> (st, UnknownTarget)
      | Some info \<Rightarrow>
          let loss_val = case_option 0 id loss; acc_val = case_option 0 id accuracy in
          if length weights_bytes \<le> CHUNK_SIZE then
            let ts = py_int (e_now e) in
            case chunk_sign (e_crypto e) (cm_node_id st) round_number (cm_data_schema_hash st) 0 weights_bytes
                   \<lparr>cm_sample_count = sample_count, cm_loss = loss_val, cm_accuracy = acc_val,
                    cm_timestamp = ts, cm_total_chunks = 1\<rparr> of
              Inl err \<Rightarrow> (st, SentDirect [Raised err])
            | Inr sig \<Rightarrow> (st, SentDirect [Send (np_peer info) (MsgUpdate
                \<lparr>mu_sender_id = cm_node_id st, mu_weights_bytes = weights_bytes,
                 mu_sample_count = sample_count, mu_round_number = round_number,
                 mu_data_schema_hash = cm_data_schema_hash st, mu_loss = loss_val,
                 mu_accuracy = acc_val, mu_timestamp = timestamp_or_now ts (e_now e),
                 mu_signature = sig\<rparr>)])
          else
            let (st', s) = start_chunked_send e uuid target info weights_bytes sample_count round_number
                             loss_val acc_val st
            in (st', Chunked s))"

text \<open>A stretch as the community sees it: the chunks are signed and sent, the metrics move, the
  transfer the handlers find is the updated one, and the \<open>finally\<close> clause runs when the loop
  returns. A send that raises ends the loop before the chunk is noted; the exception is caught by
  \<open>send_model_update\<close>, which returns \<open>False\<close>.\<close>

definition stretch_metrics :: "outgoing_transfer \<Rightarrow> outgoing_transfer \<Rightarrow> metrics \<Rightarrow> metrics" where
  "stretch_metrics t t' m =
     m\<lparr>chunk_transfers_failed_timeout := chunk_transfers_failed_timeout m
           + (if ot_failed_reason t' = Some ''timeout'' \<and> ot_failed_reason t = None then 1 else 0),
       chunks_resent := chunks_resent m + (ot_retry_count t' - ot_retry_count t)\<rparr>"

definition sender_stretch ::
    "env \<Rightarrow> sender_pc \<Rightarrow> outgoing_transfer \<Rightarrow> community
     \<Rightarrow> sender_pc \<times> outgoing_transfer \<times> community \<times> effect list" where
  "sender_stretch e pc t st =
     (let (pc', t', sends) = sender_advance (e_now e) pc t;
          effs = concat (map (\<lambda>i. send_transfer_chunk e i t st) sends) in
      if list_ex is_raised effs then (Returned False, t, end_chunked_send t st, effs)
      else let st1 = st\<lparr>cm_metrics := stretch_metrics t t' (cm_metrics st),
                         cm_active_outgoing_transfers :=
                           (if map_of (cm_active_outgoing_transfers st) (ot_transfer_id t) = None
                            then cm_active_outgoing_transfers st
                            else AList.update (ot_transfer_id t) t' (cm_active_outgoing_transfers st))\<rparr>
           in (pc', t', (case pc' of Returned _ \<Rightarrow> end_chunked_send t' st1 | _ \<Rightarrow> st1), effs))"

section \<open>Retry cache\<close>

definition cleanup_outgoing_cache :: "real \<Rightarrow> community \<Rightarrow> community" where
  "cleanup_outgoing_cache now st =
     (let kept = filter (\<lambda>(_, d). \<not> now - of_int (oe_timestamp d) > OUTGOING_TRANSFER_CACHE_TTL)
                   (cm_outgoing_transfers st);
          has = (\<lambda>tid. map_of kept tid \<noteq> None)
      in st\<lparr>cm_outgoing_transfers := kept,
            cm_nack_transfer_buckets := filter (\<lambda>(tid, _). has tid) (cm_nack_transfer_buckets st),
            cm_inflight_transfers := filter (\<lambda>(_, tid). has tid) (cm_inflight_transfers st),
            cm_active_outgoing_transfers := filter (\<lambda>(tid, _). has tid) (cm_active_outgoing_transfers st)\<rparr>)"

end
