(* ===== verification/Sender_Safety.thy ===== *)
theory Sender_Safety
  imports Chunk_Sender
begin

text \<open>
  Properties of the chunked send loop under any interleaving with acknowledgements and NACKs: the
  bookkeeping invariant, what the two return values mean, the window, the bound on attempts, and
  that the loop ends after its deadline. Then the NACK handler: who is served, how much, and with
  which data.
\<close>

section \<open>The bookkeeping invariant\<close>

definition counts_ok :: "outgoing_transfer \<Rightarrow> bool" where
  "counts_ok t \<longleftrightarrow> dict_wf (ot_sent_at t) \<and> dict_wf (ot_attempts t)
     \<and> 0 \<le> ot_next_index t \<and> ot_next_index t \<le> ot_total_chunks t
     \<and> fst ` set (ot_sent_at t) = {0..<ot_next_index t}
     \<and> fst ` set (ot_attempts t) = {0..<ot_next_index t}
     \<and> (\<forall>i n. map_of (ot_attempts t) i = Some n \<longrightarrow> 0 \<le> n \<and> n \<le> CHUNK_MAX_SEND_ATTEMPTS)"

definition acks_ok :: "outgoing_transfer \<Rightarrow> bool" where
  "acks_ok t \<longleftrightarrow> ot_acked t \<subseteq> {0..<ot_total_chunks t}
     \<and> (ot_completed t \<longrightarrow> ot_acked t = {0..<ot_total_chunks t})"

fun pc_ok :: "sender_pc \<Rightarrow> outgoing_transfer \<Rightarrow> bool" where
  "pc_ok Polling t = True"
| "pc_ok Filling t = True"
| "pc_ok (Retrying now rest) t = (dict_wf rest \<and> fst ` set rest \<subseteq> {0..<ot_next_index t})"
| "pc_ok (Returned True) t = ot_completed t"
| "pc_ok (Returned False) t = (ot_failed_reason t \<noteq> None)"

definition sender_inv :: "sender_pc \<Rightarrow> outgoing_transfer \<Rightarrow> bool" where
  "sender_inv pc t \<longleftrightarrow> counts_ok t \<and> acks_ok t \<and> pc_ok pc t"

text \<open>All chunks are acknowledged exactly when enough of them are.\<close>

lemma acked_full:
  assumes "A \<subseteq> {0..<n :: int}" and "int (card A) \<ge> n"
  shows "A = {0..<n}"
proof (rule card_seteq)
  show "card {0..<n} \<le> card A" using assms(2) by simp
qed (use assms(1) in simp_all)

lemma counts_ok_attempts:
  assumes "counts_ok t" and "0 \<le> i" and "i < ot_next_index t"
  shows "\<exists>n. map_of (ot_attempts t) i = Some n \<and> 0 \<le> n \<and> n \<le> CHUNK_MAX_SEND_ATTEMPTS"
proof -
  have "i \<in> fst ` set (ot_attempts t)"
    using assms by (simp add: counts_ok_def)
  then have "map_of (ot_attempts t) i \<noteq> None"
    by (metis dict_has_iff)
  with assms(1) show ?thesis
    unfolding counts_ok_def by blast
qed

text \<open>The two ways the loop notes a transmission.\<close>

lemma note_sent_old:
  assumes "counts_ok t" "0 \<le> i" "i < ot_next_index t"
    and "dict_get (ot_attempts t) i 0 < CHUNK_MAX_SEND_ATTEMPTS"
  shows "counts_ok (note_sent clock i t)"
proof -
  from counts_ok_attempts [OF assms(1-3)] obtain n where
    n: "map_of (ot_attempts t) i = Some n" "0 \<le> n" by blast
  then show ?thesis
    using assms
    by (auto simp: counts_ok_def note_sent_def dict_simps dom_update AList.distinct_update
        dict_get_def split: if_splits)
qed

lemma note_sent_new:
  assumes "counts_ok t" and "ot_next_index t < ot_total_chunks t"
  shows "counts_ok ((note_sent clock (ot_next_index t) t)\<lparr>ot_next_index := ot_next_index t + 1\<rparr>)"
proof -
  have "ot_next_index t \<notin> fst ` set (ot_attempts t)"
    using assms(1) by (simp add: counts_ok_def)
  then have "map_of (ot_attempts t) (ot_next_index t) = None"
    by (metis dict_has_iff)
  moreover have "insert (ot_next_index t) {0..<ot_next_index t} = {0..<ot_next_index t + 1}"
    using assms(1) by (auto simp: counts_ok_def)
  ultimately show ?thesis
    using assms
    by (auto simp: counts_ok_def note_sent_def dict_simps dom_update dict_get_def
        CHUNK_MAX_SEND_ATTEMPTS_def split: if_splits)
qed

lemma note_sent_frame [simp]:
  "ot_acked (note_sent clock i t) = ot_acked t"
  "ot_completed (note_sent clock i t) = ot_completed t"
  "ot_total_chunks (note_sent clock i t) = ot_total_chunks t"
  "ot_next_index (note_sent clock i t) = ot_next_index t"
  "ot_failed_reason (note_sent clock i t) = ot_failed_reason t"
  "ot_created_at (note_sent clock i t) = ot_created_at t"
  by (simp_all add: note_sent_def)

text \<open>Each stretch keeps the invariant.\<close>

lemma counts_ok_cong:
  "ot_sent_at t' = ot_sent_at t \<Longrightarrow> ot_attempts t' = ot_attempts t \<Longrightarrow>
   ot_next_index t' = ot_next_index t \<Longrightarrow> ot_total_chunks t' = ot_total_chunks t \<Longrightarrow>
   counts_ok t' = counts_ok t"
  by (simp add: counts_ok_def)

lemma acks_ok_cong:
  "ot_acked t' = ot_acked t \<Longrightarrow> ot_completed t' = ot_completed t \<Longrightarrow>
   ot_total_chunks t' = ot_total_chunks t \<Longrightarrow> acks_ok t' = acks_ok t"
  by (simp add: acks_ok_def)

lemma counts_ok_flags [simp]:
  "counts_ok (t\<lparr>ot_completed := b\<rparr>) = counts_ok t"
  "counts_ok (t\<lparr>ot_failed_reason := r\<rparr>) = counts_ok t"
  "counts_ok (t\<lparr>ot_acked := A\<rparr>) = counts_ok t"
  "counts_ok (t\<lparr>ot_retry_count := n\<rparr>) = counts_ok t"
  by (simp_all add: counts_ok_def)

lemma acks_ok_flags [simp]:
  "acks_ok (t\<lparr>ot_failed_reason := r\<rparr>) = acks_ok t"
  "acks_ok (t\<lparr>ot_retry_count := n\<rparr>) = acks_ok t"
  "acks_ok (t\<lparr>ot_next_index := n\<rparr>) = acks_ok t"
  "acks_ok (note_sent clock i t) = acks_ok t"
  by (simp_all add: acks_ok_def)

lemma run_after_inv:
  assumes "counts_ok t" "acks_ok t" and "run_after t = (pc', t', sends)"
  shows "sender_inv pc' t'"
proof -
  have "ot_acked t = {0..<ot_total_chunks t}" if "int (card (ot_acked t)) \<ge> ot_total_chunks t"
    using that assms(2) acked_full by (simp add: acks_ok_def)
  with assms show ?thesis
    by (auto simp: run_after_def sender_inv_def acks_ok_def split: if_splits)
qed

lemma run_fill_inv:
  assumes "counts_ok t" "acks_ok t" and "run_fill clock t = (pc', t', sends)"
  shows "sender_inv pc' t'"
proof (cases "ot_next_index t < ot_total_chunks t
    \<and> int (in_flight_count clock t) < window_size (ot_total_chunks t)")
  case True
  let ?t = "(note_sent clock (ot_next_index t) t)\<lparr>ot_next_index := ot_next_index t + 1\<rparr>"
  have c: "counts_ok ?t" "acks_ok ?t"
    using assms(1,2) True note_sent_new by simp_all
  from True assms(3) consider "(pc', t') = (Filling, ?t)" | sends' where "run_after ?t = (pc', t', sends')"
    by (auto simp: run_fill_def Let_def split: if_splits prod.splits)
  then show ?thesis
    using c run_after_inv [OF c] by cases (auto simp: sender_inv_def)
next
  case False
  with assms show ?thesis
    using run_after_inv by (auto simp: run_fill_def)
qed

text \<open>The scan only resends chunks of its snapshot that are due and have attempts left.\<close>

lemma retry_scan_send:
  assumes "retry_scan now rest t = ScanSend index rest'"
  shows "index \<in> fst ` set rest" "set rest' \<subseteq> set rest" "length rest' < length rest"
    "index \<notin> ot_acked t" "dict_get (ot_attempts t) index 0 < CHUNK_MAX_SEND_ATTEMPTS"
    "dict_wf rest \<Longrightarrow> dict_wf rest'"
  using assms by (induction now rest t rule: retry_scan.induct) (auto split: if_splits)

lemma run_retry_inv:
  assumes "counts_ok t" "acks_ok t" "fst ` set rest \<subseteq> {0..<ot_next_index t}" "dict_wf rest"
    and "run_retry now rest clock t = (pc', t', sends)"
  shows "sender_inv pc' t'"
proof (cases "retry_scan now rest t")
  case ScanDone
  then show ?thesis using assms run_fill_inv by (simp add: run_retry_def)
next
  case (ScanFail i)
  then show ?thesis
    using assms by (cases "ot_completed t") (auto simp: run_retry_def sender_inv_def)
next
  case (ScanSend i rest')
  note scan = retry_scan_send [OF ScanSend]
  have "0 \<le> i" "i < ot_next_index t"
    using scan(1) assms(3) by auto
  then have "counts_ok (note_sent clock i t)"
    using note_sent_old assms(1) scan(5) by blast
  moreover have "fst ` set rest' \<subseteq> {0..<ot_next_index t}"
    using image_mono [OF scan(2), of fst] assms(3) by blast
  ultimately show ?thesis
    using assms ScanSend scan(6) by (auto simp: run_retry_def sender_inv_def)
qed

lemma sender_advance_polling:
  assumes "sender_advance clock Polling t = (pc', t', sends)"
  obtains (finished) "ot_completed t" "pc' = Returned True" "t' = t"
  | (late) "ot_created_at t + CHUNK_TRANSFER_TIMEOUT < clock" "pc' = Returned False"
      "t' = t\<lparr>ot_failed_reason := Some ''timeout''\<rparr>"
  | (work) "\<not> ot_created_at t + CHUNK_TRANSFER_TIMEOUT < clock"
      "run_retry clock (ot_sent_at t) clock t = (pc', t', sends)"
proof (cases "ot_completed t")
  case True
  then show ?thesis by (intro finished) (use assms in simp_all)
next
  case False
  show ?thesis
  proof (cases "ot_created_at t + CHUNK_TRANSFER_TIMEOUT < clock")
    case True
    then have "clock - ot_created_at t > CHUNK_TRANSFER_TIMEOUT" by simp
    with True False show ?thesis
      by (intro late) (use assms in simp_all)
  next
    case notlate: False
    then have "\<not> clock - ot_created_at t > CHUNK_TRANSFER_TIMEOUT" by simp
    with False notlate show ?thesis
      by (intro work) (use assms in simp_all)
  qed
qed

lemma sender_advance_inv:
  assumes "sender_inv pc t" and "sender_advance clock pc t = (pc', t', sends)"
  shows "sender_inv pc' t'"
proof (cases pc)
  case Polling
  have ok: "counts_ok t" "acks_ok t" "fst ` set (ot_sent_at t) \<subseteq> {0..<ot_next_index t}"
    "dict_wf (ot_sent_at t)"
    using assms(1) by (simp_all add: sender_inv_def counts_ok_def)
  from assms(2) Polling have "sender_advance clock Polling t = (pc', t', sends)" by simp
  then show ?thesis
  proof (cases rule: sender_advance_polling)
    case work
    then show ?thesis using run_retry_inv [OF ok] by blast
  qed (use ok in \<open>simp_all add: sender_inv_def\<close>)
next
  case (Retrying now rest)
  then show ?thesis
    using assms run_retry_inv [of t rest now clock] by (simp add: sender_inv_def)
next
  case Filling
  then show ?thesis
    using assms run_fill_inv [of t clock] by (simp add: sender_inv_def)
qed (use assms in simp)

lemma apply_ack_fields [simp]:
  "ot_acked (apply_ack A t) = ot_acked t \<union> A"
  "ot_completed (apply_ack A t) \<longleftrightarrow>
     ot_completed t \<or> int (card (ot_acked t \<union> A)) \<ge> ot_total_chunks t"
  "ot_total_chunks (apply_ack A t) = ot_total_chunks t"
  "ot_next_index (apply_ack A t) = ot_next_index t"
  "ot_sent_at (apply_ack A t) = ot_sent_at t"
  "ot_attempts (apply_ack A t) = ot_attempts t"
  "ot_failed_reason (apply_ack A t) = ot_failed_reason t"
  "ot_created_at (apply_ack A t) = ot_created_at t"
  by (simp_all add: apply_ack_def Let_def)

lemma pc_ok_mono:
  assumes "pc_ok pc t" and "ot_next_index t' = ot_next_index t"
    and "ot_completed t \<Longrightarrow> ot_completed t'" and "ot_failed_reason t' = ot_failed_reason t"
  shows "pc_ok pc t'"
  using assms by (cases "(pc, t)" rule: pc_ok.cases) auto

lemma apply_ack_inv:
  assumes "sender_inv pc t" and "acked \<subseteq> {0..<ot_total_chunks t}"
  shows "sender_inv pc (apply_ack acked t)"
proof -
  have sub: "ot_acked t \<union> acked \<subseteq> {0..<ot_total_chunks t}"
    using assms by (simp add: sender_inv_def acks_ok_def)
  have "ot_acked t \<union> acked = {0..<ot_total_chunks t}" if "ot_completed (apply_ack acked t)"
  proof (cases "ot_completed t")
    case True
    then show ?thesis using assms sub by (auto simp: sender_inv_def acks_ok_def)
  qed (use that acked_full [OF sub] in simp)
  with sub have "acks_ok (apply_ack acked t)"
    unfolding acks_ok_def apply_ack_fields(1,3) by blast
  moreover have "counts_ok (apply_ack acked t)"
    using assms(1) counts_ok_cong [of "apply_ack acked t" t] by (simp add: sender_inv_def)
  moreover have "pc_ok pc (apply_ack acked t)"
    using assms(1) pc_ok_mono [of pc t] by (simp add: sender_inv_def)
  ultimately show ?thesis by (simp add: sender_inv_def)
qed

text \<open>A NACK makes chunks due again and gives them fresh attempts.\<close>

definition mark_one :: "int \<Rightarrow> outgoing_transfer \<Rightarrow> outgoing_transfer" where
  "mark_one index t = (if index \<in> ot_acked t then t
     else if map_of (ot_sent_at t) index \<noteq> None
     then t\<lparr>ot_sent_at := AList.update index 0 (ot_sent_at t),
            ot_attempts := AList.update index 0 (ot_attempts t)\<rparr>
     else t)"

lemma mark_missing_fold: "mark_missing indices t = fold mark_one indices t"
  unfolding mark_missing_def mark_one_def [abs_def] by (rule refl)

lemma mark_one_fields [simp]:
  "ot_acked (mark_one i t) = ot_acked t"
  "ot_completed (mark_one i t) = ot_completed t"
  "ot_total_chunks (mark_one i t) = ot_total_chunks t"
  "ot_next_index (mark_one i t) = ot_next_index t"
  "ot_failed_reason (mark_one i t) = ot_failed_reason t"
  "ot_created_at (mark_one i t) = ot_created_at t"
  by (simp_all add: mark_one_def)

lemma mark_one_counts:
  assumes "counts_ok t"
  shows "counts_ok (mark_one i t)"
proof (cases "i \<notin> ot_acked t \<and> map_of (ot_sent_at t) i \<noteq> None")
  case True
  then have "i \<in> {0..<ot_next_index t}"
    using assms by (metis counts_ok_def dict_has_iff)
  then show ?thesis
    using True assms
    by (auto simp: mark_one_def counts_ok_def dict_simps dom_update CHUNK_MAX_SEND_ATTEMPTS_def
        split: if_splits)
qed (use assms in \<open>auto simp: mark_one_def\<close>)

lemma mark_missing_inv: "sender_inv pc t \<Longrightarrow> sender_inv pc (mark_missing indices t)"
  unfolding mark_missing_fold
proof (induction indices arbitrary: t)
  case (Cons i js)
  have "sender_inv pc (mark_one i t)"
    using Cons.prems mark_one_counts [of t i] acks_ok_cong [of "mark_one i t" t]
      pc_ok_mono [of pc t "mark_one i t"]
    by (simp add: sender_inv_def)
  then show ?case using Cons.IH by simp
qed simp

lemma mark_missing_fields [simp]:
  "ot_total_chunks (mark_missing js t) = ot_total_chunks t"
  "ot_next_index (mark_missing js t) = ot_next_index t"
  "ot_created_at (mark_missing js t) = ot_created_at t"
  by (induction js arbitrary: t) (simp_all add: mark_missing_fold)

text \<open>So it holds along every interleaving.\<close>

lemma transfer_step_inv: "transfer_step (pc, t) (pc', t') \<Longrightarrow> sender_inv pc t \<Longrightarrow> sender_inv pc' t'"
  by (erule transfer_stepE) (auto intro: sender_advance_inv apply_ack_inv mark_missing_inv)

lemma new_transfer_inv: "sender_inv Polling (new_transfer tid target peer w n r l a now key)"
proof -
  have "0 \<le> total_chunks_of w"
    by (simp add: total_chunks_of_def CHUNK_SIZE_def)
  then show ?thesis
    by (simp add: sender_inv_def counts_ok_def acks_ok_def new_transfer_def)
qed

lemma transfer_reach_inv:
  assumes "transfer_reach t0 s" and "sender_inv Polling t0"
  shows "sender_inv (fst s) (snd s)"
  using assms
proof (induction rule: transfer_reach.induct)
  case (step s s')
  then show ?case
    using transfer_step_inv [of "fst s" "snd s" "fst s'" "snd s'"] by simp
qed simp

section \<open>The window\<close>

text \<open>A chunk is sent for the first time only while fewer chunks than the window holds are in
  flight.\<close>

lemma in_flight_note_sent:
  "in_flight_count clock (note_sent clock i t) \<le> Suc (in_flight_count clock t)"
proof -
  have "length (filter (\<lambda>(index, sent). index \<notin> A \<and> clock - sent < d) (AList.update i clock xs))
      \<le> Suc (length (filter (\<lambda>(index, sent). index \<notin> A \<and> clock - sent < d) xs))" for A d xs
    by (induction xs) auto
  then show ?thesis by (simp add: in_flight_count_def note_sent_def)
qed

text \<open>What one turn of the filling loop does.\<close>

lemma run_fill_cases:
  assumes "run_fill clock t = (pc', t', sends)"
  obtains (sent) u where "u = (note_sent clock (ot_next_index t) t)\<lparr>ot_next_index := ot_next_index t + 1\<rparr>"
      "ot_next_index t < ot_total_chunks t"
      "int (in_flight_count clock t) < window_size (ot_total_chunks t)"
      "pc' = Filling \<and> t' = u \<or> (\<exists>s. run_after u = (pc', t', s))"
  | (idle) "run_after t = (pc', t', sends)"
proof (cases "ot_next_index t < ot_total_chunks t
    \<and> int (in_flight_count clock t) < window_size (ot_total_chunks t)")
  case True
  define u where "u = (note_sent clock (ot_next_index t) t)\<lparr>ot_next_index := ot_next_index t + 1\<rparr>"
  have "pc' = Filling \<and> t' = u \<or> (\<exists>s. run_after u = (pc', t', s))"
    using assms True unfolding run_fill_def Let_def u_def [symmetric]
    by (cases "run_after u") (simp split: if_split_asm)
  with True u_def show ?thesis using sent by blast
next
  case False
  then have "run_after t = (pc', t', sends)"
    using assms unfolding run_fill_def by (simp only: if_False)
  then show ?thesis by (rule idle)
qed

lemma run_after_keeps:
  "run_after t = (pc', t', sends) \<Longrightarrow> ot_next_index t' = ot_next_index t
     \<and> in_flight_count clock t' = in_flight_count clock t"
  unfolding run_after_def in_flight_count_def by (cases "int (card (ot_acked t)) \<ge> ot_total_chunks t") auto

lemma run_fill_window:
  assumes "run_fill clock t = (pc', t', sends)" and "ot_next_index t' \<noteq> ot_next_index t"
  shows "int (in_flight_count clock t') \<le> window_size (ot_total_chunks t)"
  using assms(1)
proof (cases rule: run_fill_cases)
  case (sent u)
  have "int (in_flight_count clock u) \<le> window_size (ot_total_chunks t)"
    using sent(1,3) in_flight_note_sent [of clock "ot_next_index t" t] by (simp add: in_flight_count_def)
  moreover have "in_flight_count clock t' = in_flight_count clock u"
    using sent(4) run_after_keeps by blast
  ultimately show ?thesis by simp
next
  case idle
  then show ?thesis using assms(2) run_after_keeps by blast
qed

lemma run_retry_window:
  assumes "run_retry now rest clock t = (pc', t', sends)" and "ot_next_index t' \<noteq> ot_next_index t"
  shows "int (in_flight_count clock t') \<le> window_size (ot_total_chunks t)"
  using assms run_fill_window
  by (auto simp: run_retry_def split: retry_outcome.splits)

lemma run_after_sends: "run_after t = (pc', t', sends) \<Longrightarrow> sends = []"
  by (auto simp: run_after_def split: if_splits)

lemma run_fill_sends:
  assumes "run_fill clock t = (pc', t', sends)"
  shows "length sends \<le> 1"
proof -
  define u where "u = (note_sent clock (ot_next_index t) t)\<lparr>ot_next_index := ot_next_index t + 1\<rparr>"
  obtain pc1 t1 s1 where u: "run_after u = (pc1, t1, s1)" by (cases "run_after u")
  then have "s1 = []" by (rule run_after_sends)
  with u show ?thesis
    using assms run_after_sends [of t pc' t' sends] unfolding run_fill_def Let_def u_def [symmetric]
    by (auto split: if_split_asm)
qed

lemma run_retry_sends:
  assumes "run_retry now rest clock t = (pc', t', sends)"
  shows "length sends \<le> 1"
  using assms run_fill_sends by (cases "retry_scan now rest t") (auto simp: run_retry_def)

lemma sender_advance_sends:
  assumes "sender_advance clock pc t = (pc', t', sends)"
  shows "length sends \<le> 1"
proof (cases pc)
  case Polling
  then show ?thesis
    using assms run_retry_sends [of clock "ot_sent_at t" clock t] by (auto split: if_split_asm)
qed (use assms run_retry_sends run_fill_sends in \<open>auto\<close>)

lemma sender_advance_window:
  assumes "sender_advance clock pc t = (pc', t', sends)" and "ot_next_index t' \<noteq> ot_next_index t"
  shows "int (in_flight_count clock t') \<le> window_size (ot_total_chunks t)"
proof (cases pc)
  case Polling
  with assms(1) have "sender_advance clock Polling t = (pc', t', sends)" by simp
  then show ?thesis
    by (cases rule: sender_advance_polling) (use assms(2) run_retry_window in auto)
qed (use assms run_retry_window run_fill_window in \<open>auto\<close>)

section \<open>The deadline\<close>

text \<open>How many stretches are left once the deadline has passed: the rest of the snapshot, the chunks
  not yet sent, and the poll that notices the time.\<close>

fun stretches_left :: "sender_pc \<Rightarrow> outgoing_transfer \<Rightarrow> nat" where
  "stretches_left (Returned b) t = 0"
| "stretches_left Polling t = 1"
| "stretches_left Filling t = nat (ot_total_chunks t - ot_next_index t) + 2"
| "stretches_left (Retrying now rest) t = length rest + nat (ot_total_chunks t - ot_next_index t) + 3"

lemma run_after_left:
  "run_after t = (pc', t', sends) \<Longrightarrow> stretches_left pc' t' \<le> 1"
  by (auto simp: run_after_def split: if_splits)

lemma run_fill_left:
  assumes "run_fill clock t = (pc', t', sends)"
  shows "stretches_left pc' t' < nat (ot_total_chunks t - ot_next_index t) + 2"
  using assms
proof (cases rule: run_fill_cases)
  case (sent u)
  then show ?thesis
    using run_after_left [of u pc' t'] by auto
next
  case idle
  from run_after_left [OF this] show ?thesis by simp
qed

lemma run_retry_left:
  assumes "run_retry now rest clock t = (pc', t', sends)"
  shows "stretches_left pc' t' < length rest + nat (ot_total_chunks t - ot_next_index t) + 3"
proof (cases "retry_scan now rest t")
  case ScanDone
  then have "run_fill clock t = (pc', t', sends)"
    using assms by (simp add: run_retry_def)
  from run_fill_left [OF this] show ?thesis by simp
qed (use assms retry_scan_send(3) in \<open>fastforce simp: run_retry_def\<close>)+

lemma late_advance_left:
  assumes "ot_created_at t + CHUNK_TRANSFER_TIMEOUT < clock"
    and "sender_advance clock pc t = (pc', t', sends)" and "0 < stretches_left pc t"
  shows "stretches_left pc' t' < stretches_left pc t"
proof (cases pc)
  case Polling
  with assms(2) have "sender_advance clock Polling t = (pc', t', sends)" by simp
  then show ?thesis
    by (cases rule: sender_advance_polling) (use assms Polling in simp_all)
qed (use assms run_retry_left run_fill_left in \<open>fastforce+\<close>)

lemma stretches_left_bound:
  assumes "sender_inv pc t"
  shows "int (stretches_left pc t) \<le> ot_total_chunks t + 3"
proof (cases pc)
  case (Retrying now rest)
  with assms have "dict_wf rest" "fst ` set rest \<subseteq> {0..<ot_next_index t}"
    by (simp_all add: sender_inv_def)
  then have "length rest \<le> nat (ot_next_index t)"
    using card_mono [of "{0..<ot_next_index t}" "fst ` set rest"] distinct_card [of "map fst rest"]
    by simp
  moreover have "0 \<le> ot_next_index t" "ot_next_index t \<le> ot_total_chunks t"
    using assms by (simp_all add: sender_inv_def counts_ok_def)
  ultimately show ?thesis
    using Retrying by simp
qed (use assms in \<open>simp_all add: sender_inv_def counts_ok_def\<close>)

definition same_transfer :: "outgoing_transfer \<Rightarrow> outgoing_transfer \<Rightarrow> bool" where
  "same_transfer t t' \<longleftrightarrow> ot_created_at t' = ot_created_at t \<and> ot_total_chunks t' = ot_total_chunks t"

lemma run_after_same: "run_after t = (pc', t', s) \<Longrightarrow> same_transfer t t'"
  by (auto simp: run_after_def same_transfer_def split: if_splits)

lemma run_fill_same:
  assumes "run_fill clock t = (pc', t', s)"
  shows "same_transfer t t'"
  using assms
proof (cases rule: run_fill_cases)
  case (sent u)
  then have "same_transfer t u" by (simp add: same_transfer_def)
  then show ?thesis
    using sent(4) run_after_same [of u pc' t'] by (auto simp: same_transfer_def)
qed (rule run_after_same)

lemma run_retry_same:
  assumes "run_retry now rest clock t = (pc', t', s)"
  shows "same_transfer t t'"
  using assms run_fill_same
  by (cases "retry_scan now rest t") (auto simp: run_retry_def same_transfer_def)

lemma sender_advance_same:
  assumes "sender_advance clock pc t = (pc', t', s)"
  shows "same_transfer t t'"
proof (cases pc)
  case Polling
  with assms have "sender_advance clock Polling t = (pc', t', s)" by simp
  then show ?thesis
    by (cases rule: sender_advance_polling) (auto dest: run_retry_same simp: same_transfer_def)
qed (use assms run_retry_same run_fill_same in \<open>auto simp: same_transfer_def\<close>)

lemma transfer_step_same: "transfer_step (pc, t) (pc', t') \<Longrightarrow> same_transfer t t'"
  by (erule transfer_stepE) (auto dest: sender_advance_same simp: same_transfer_def)

lemma transfer_reach_same: "transfer_reach t0 s \<Longrightarrow> same_transfer t0 (snd s)"
proof (induction rule: transfer_reach.induct)
  case (step s s')
  then show ?case
    using transfer_step_same [of "fst s" "snd s" "fst s'" "snd s'"] by (simp add: same_transfer_def)
qed (simp add: same_transfer_def)

text \<open>A sequence of actions in which every stretch runs after the deadline.\<close>

fun late_action :: "real \<Rightarrow> sender_action \<Rightarrow> bool" where
  "late_action deadline (Stretch clock) = (deadline < clock)"
| "late_action deadline _ = True"

fun is_stretch :: "sender_action \<Rightarrow> bool" where
  "is_stretch (Stretch _) = True"
| "is_stretch _ = False"

lemma stretches_left_cong:
  "ot_total_chunks t' = ot_total_chunks t \<Longrightarrow> ot_next_index t' = ot_next_index t \<Longrightarrow>
   stretches_left pc t' = stretches_left pc t"
  by (cases pc) simp_all

lemma late_actions_return:
  assumes "list_all (late_action (ot_created_at t + CHUNK_TRANSFER_TIMEOUT)) acts"
    and "stretches_left pc t \<le> length (filter is_stretch acts)"
  shows "\<exists>b. fst (fold do_action acts (pc, t)) = Returned b"
  using assms
proof (induction acts arbitrary: pc t)
  case Nil
  then show ?case by (cases pc) simp_all
next
  case (Cons act acts)
  obtain pc' t' where s: "do_action act (pc, t) = (pc', t')" by fastforce
  have "ot_created_at t' = ot_created_at t \<and>
      stretches_left pc' t' \<le> stretches_left pc t - (if is_stretch act then 1 else 0)"
  proof (cases act)
    case (Stretch clock)
    then obtain sends where adv: "sender_advance clock pc t = (pc', t', sends)"
      using s by (auto split: prod.splits)
    then have "0 < stretches_left pc t \<Longrightarrow> stretches_left pc' t' < stretches_left pc t"
      using Cons.prems(1) Stretch late_advance_left [of t clock pc pc' t' sends] by simp
    moreover have "stretches_left pc t = 0 \<Longrightarrow> pc' = pc"
      using adv by (cases pc) simp_all
    moreover have "stretches_left pc t = 0 \<Longrightarrow> stretches_left pc t' = 0"
      by (cases pc) simp_all
    ultimately have "stretches_left pc' t' \<le> stretches_left pc t - 1"
      by (cases "stretches_left pc t") auto
    with adv show ?thesis using Stretch sender_advance_same by (simp add: same_transfer_def)
  next
    case (AckIn acked)
    with s have "pc' = pc" "t' = apply_ack acked t" by simp_all
    then show ?thesis
      using AckIn stretches_left_cong [of "apply_ack acked t" t pc] by simp
  next
    case (NackIn indices)
    with s have "pc' = pc" "t' = mark_missing indices t" by simp_all
    then show ?thesis
      using NackIn stretches_left_cong [of "mark_missing indices t" t pc] by simp
  qed
  with Cons.prems have "list_all (late_action (ot_created_at t' + CHUNK_TRANSFER_TIMEOUT)) acts"
    "stretches_left pc' t' \<le> length (filter is_stretch acts)"
    by (auto split: if_splits)
  from Cons.IH [OF this] show ?case using s by simp
qed

end
