(* ===== verification/Sender_Contract.thy ===== *)
theory Sender_Contract
  imports Sender_Safety Receiver_Safety Example_Config
begin

text \<open>
  What the sending side promises: the meaning of the return value of a chunked send, its deadline
  and its window, that the acknowledgement and NACK handlers are steps of the transfer they name and
  of no other, and who is served by a NACK with what.
\<close>

section \<open>The send loop\<close>

definition sample_transfer :: outgoing_transfer where
  "sample_transfer = new_transfer ''t'' ''b'' sample_peer [7] 1 1 0 0 0 (''b'', 1, ''h'')"

text \<open>C3: Under any interleaving of the send loop with acknowledgements and NACKs, a send that
  returns \<open>True\<close> has every chunk acknowledged, a send that returns \<open>False\<close> has a recorded reason,
  the chunks sent so far are a prefix of the transfer, and no chunk has been tried more than
  \<open>CHUNK_MAX_SEND_ATTEMPTS\<close> times since it was last reported missing.\<close>

theorem send_loop_outcome:
  assumes "transfer_reach (new_transfer tid target peer w n r l a now key) (pc, t)"
  shows "(pc = Returned True \<longrightarrow> ot_acked t = {0..<total_chunks_of w})
    \<and> (pc = Returned False \<longrightarrow> ot_failed_reason t \<noteq> None)
    \<and> fst ` set (ot_sent_at t) = {0..<ot_next_index t} \<and> ot_next_index t \<le> total_chunks_of w
    \<and> (\<forall>i k. map_of (ot_attempts t) i = Some k \<longrightarrow> 0 \<le> k \<and> k \<le> CHUNK_MAX_SEND_ATTEMPTS)"
proof -
  have inv: "sender_inv pc t"
    using transfer_reach_inv [OF assms new_transfer_inv] by simp
  moreover have "ot_total_chunks t = total_chunks_of w"
    using transfer_reach_same [OF assms] by (simp add: same_transfer_def new_transfer_def)
  ultimately show ?thesis
    by (auto simp: sender_inv_def counts_ok_def acks_ok_def)
qed

lemma sample_run:
  "\<exists>t. transfer_reach sample_transfer (Returned True, t)"
proof -
  obtain t1 s1 where a1: "sender_advance 0 Polling sample_transfer = (Polling, t1, s1)"
    and t1: "ot_acked t1 = {}" "ot_total_chunks t1 = 1" "ot_completed t1 = False"
    by (simp add: sample_transfer_def new_transfer_def run_retry_def run_fill_def run_after_def Let_def
        total_chunks_of_def CHUNK_SIZE_def in_flight_count_def window_size_def note_sent_def
        CHUNK_WINDOW_INITIAL_def CHUNK_WINDOW_MAX_def CHUNK_TRANSFER_TIMEOUT_def)
  let ?t2 = "apply_ack {0} t1"
  have "transfer_reach sample_transfer (Polling, t1)"
    by (rule transfer_reach.step [OF transfer_reach.start transfer_step.advance [OF a1]])
  then have "transfer_reach sample_transfer (Polling, ?t2)"
    by (rule transfer_reach.step) (rule transfer_step.ack, simp add: t1)
  moreover have "sender_advance 0 Polling ?t2 = (Returned True, ?t2, [])"
    using t1 by simp
  ultimately have "transfer_reach sample_transfer (Returned True, ?t2)"
    using transfer_reach.step transfer_step.advance by blast
  then show ?thesis ..
qed

theorem send_loop_outcome_witness:
  "\<exists>t. transfer_reach sample_transfer (Returned True, t) \<and> ot_acked t = {0..<total_chunks_of [7]}"
proof -
  from sample_run obtain t where t: "transfer_reach sample_transfer (Returned True, t)" ..
  from send_loop_outcome [OF this [unfolded sample_transfer_def]] t show ?thesis by blast
qed

text \<open>C5: Once \<open>CHUNK_TRANSFER_TIMEOUT\<close> has passed since the transfer began, the send loop returns
  after at most one more stretch per chunk and three more, whatever acknowledgements and NACKs
  arrive in between.\<close>

theorem send_loop_ends:
  assumes "transfer_reach (new_transfer tid target peer w n r l a now key) (pc, t)"
    and "list_all (late_action (now + CHUNK_TRANSFER_TIMEOUT)) acts"
    and "total_chunks_of w + 3 \<le> int (length (filter is_stretch acts))"
  shows "\<exists>b. fst (fold do_action acts (pc, t)) = Returned b"
proof (rule late_actions_return)
  have same: "ot_created_at t = now" "ot_total_chunks t = total_chunks_of w"
    using transfer_reach_same [OF assms(1)] by (simp_all add: same_transfer_def new_transfer_def)
  show "list_all (late_action (ot_created_at t + CHUNK_TRANSFER_TIMEOUT)) acts"
    using assms(2) same by simp
  show "stretches_left pc t \<le> length (filter is_stretch acts)"
    using stretches_left_bound [of pc t] transfer_reach_inv [OF assms(1) new_transfer_inv] assms(3) same
    by simp
qed

theorem send_loop_ends_witness:
  "\<exists>b. fst (fold do_action [Stretch 901, AckIn {}, Stretch 902, NackIn [0], Stretch 903, Stretch 904]
     (Polling, sample_transfer)) = Returned b"
  unfolding sample_transfer_def
  by (rule send_loop_ends [OF transfer_reach.start])
    (simp_all add: CHUNK_TRANSFER_TIMEOUT_def total_chunks_of_def CHUNK_SIZE_def)

text \<open>A stretch of the send loop sends at most one chunk; if it sends a chunk for the first time,
  the chunks in flight afterwards do not exceed the window.\<close>

theorem send_loop_window:
  assumes "sender_advance clock pc t = (pc', t', sends)"
  shows "length sends \<le> 1
    \<and> (ot_next_index t' \<noteq> ot_next_index t \<longrightarrow>
        int (in_flight_count clock t') \<le> window_size (ot_total_chunks t))"
  using sender_advance_sends [OF assms] sender_advance_window [OF assms] by blast

theorem send_loop_window_witness:
  "\<exists>pc' t' sends. sender_advance 0 Polling sample_transfer = (pc', t', sends)
     \<and> ot_next_index t' \<noteq> ot_next_index sample_transfer
     \<and> int (in_flight_count 0 t') \<le> window_size (ot_total_chunks sample_transfer)"
proof -
  obtain pc' t' sends where adv: "sender_advance 0 Polling sample_transfer = (pc', t', sends)"
    by (cases "sender_advance 0 Polling sample_transfer")
  moreover from adv have "ot_next_index t' \<noteq> ot_next_index sample_transfer"
    by (auto simp: sample_transfer_def new_transfer_def run_retry_def run_fill_def run_after_def Let_def
        total_chunks_of_def CHUNK_SIZE_def in_flight_count_def window_size_def note_sent_def
        CHUNK_WINDOW_INITIAL_def CHUNK_WINDOW_MAX_def CHUNK_TRANSFER_TIMEOUT_def)
  ultimately show ?thesis
    using send_loop_window [OF adv] by blast
qed

section \<open>The handlers as steps of a transfer\<close>

text \<open>A table of active transfers steps to another when every entry stays or makes one step.\<close>

definition table_steps :: "community \<Rightarrow> community \<Rightarrow> bool" where
  "table_steps st st' \<longleftrightarrow>
     (\<forall>tid t. map_of (cm_active_outgoing_transfers st) tid = Some t \<longrightarrow>
        (\<exists>t'. map_of (cm_active_outgoing_transfers st') tid = Some t'
           \<and> (t' = t \<or> (\<forall>pc. transfer_step (pc, t) (pc, t')))))"

lemma table_steps_same:
  "cm_active_outgoing_transfers st' = cm_active_outgoing_transfers st \<Longrightarrow> table_steps st st'"
  by (simp add: table_steps_def)

lemma table_steps_update:
  assumes "map_of (cm_active_outgoing_transfers st) tid = Some t"
    and "cm_active_outgoing_transfers st' = AList.update tid t' (cm_active_outgoing_transfers st)"
    and "\<And>pc. transfer_step (pc, t) (pc, t')"
  shows "table_steps st st'"
  using assms by (auto simp: table_steps_def dict_simps)

lemma on_chunk_ack_steps: "table_steps st (fst (on_chunk_ack e peer p st))"
proof (cases "cm_active_outgoing_transfers (fst (on_chunk_ack e peer p st)) =
    cm_active_outgoing_transfers st")
  case True
  then show ?thesis by (rule table_steps_same)
next
  case False
  then obtain t acked where t: "map_of (cm_active_outgoing_transfers st) (ca_transfer_id p) = Some t"
    and acked: "unpack_chunk_ranges (ca_sack_ranges p) (Some (ot_total_chunks t)) = ok acked"
    and st': "cm_active_outgoing_transfers (fst (on_chunk_ack e peer p st)) =
      AList.update (ca_transfer_id p) (apply_ack acked t) (cm_active_outgoing_transfers st)"
    by (auto simp: on_chunk_ack_def split: option.splits if_splits sum.splits)
  show ?thesis
    by (rule table_steps_update [OF t st'])
      (rule transfer_step.ack [OF unpack_chunk_ranges_subset [OF acked]])
qed

lemma nack_admission_active:
  "nack_admission e peer p st = (st', v) \<Longrightarrow>
   cm_active_outgoing_transfers st' = cm_active_outgoing_transfers st
   \<and> cm_outgoing_transfers st' = cm_outgoing_transfers st \<and> cm_node_id st' = cm_node_id st
   \<and> cm_data_schema_hash st' = cm_data_schema_hash st"
  by (auto simp: nack_admission_def Let_def split: prod.splits if_splits)

lemma serve_nack_steps: "table_steps st (fst (serve_nack e peer p d st))"
proof (cases "cm_active_outgoing_transfers (fst (serve_nack e peer p d st)) =
    cm_active_outgoing_transfers st")
  case True
  then show ?thesis by (rule table_steps_same)
next
  case False
  then obtain t indices where t: "map_of (cm_active_outgoing_transfers st) (rc_transfer_id p) = Some t"
    and st': "cm_active_outgoing_transfers (fst (serve_nack e peer p d st)) =
      AList.update (rc_transfer_id p) (mark_missing indices t) (cm_active_outgoing_transfers st)"
    by (auto simp: serve_nack_def count_resend_def Let_def split: option.splits if_splits sum.splits)
  show ?thesis
    by (rule table_steps_update [OF t st']) (rule transfer_step.nack)
qed

lemma on_request_chunks_steps: "table_steps st (fst (on_request_chunks e peer p st))"
proof -
  define st1 where "st1 = st\<lparr>cm_metrics := (cm_metrics st)\<lparr>nacks_received := nacks_received (cm_metrics st) + 1\<rparr>\<rparr>"
  have same: "table_steps st s \<longleftrightarrow> table_steps u s"
    if "cm_active_outgoing_transfers u = cm_active_outgoing_transfers st" for s u
    using that by (simp add: table_steps_def)
  have st1: "cm_active_outgoing_transfers st1 = cm_active_outgoing_transfers st"
    by (simp add: st1_def)
  obtain st2 v where na: "nack_admission e peer p st1 = (st2, v)" by fastforce
  have st2: "cm_active_outgoing_transfers st2 = cm_active_outgoing_transfers st"
    using nack_admission_active [OF na] st1 by simp
  have adm: "table_steps st (fst (case nack_admission e peer p st1 of
      (st2, Reject effs) \<Rightarrow> (st2, effs) | (st2, Accept) \<Rightarrow> serve_nack e peer p d st2))" for d
    using serve_nack_steps [of st2] same [OF st2] table_steps_same [OF st2] na by (cases v) simp_all
  have srv: "table_steps st (fst (serve_nack e peer p d st1))" for d
    using serve_nack_steps same [OF st1] by blast
  show ?thesis
    using adm srv table_steps_same [OF st1]
    unfolding on_request_chunks_def Let_def st1_def [symmetric]
    by (auto split: option.split)
qed

text \<open>C6: Neither an acknowledgement nor a NACK, from whatever peer and with whatever contents, does
  anything to a running transfer that is not a step of the transfer protocol: every entry of the
  table of active transfers stays as it is, takes an in-range acknowledgement, or has chunks made due
  again.\<close>

theorem handlers_refine_transfers:
  "table_steps st (fst (on_chunk_ack e peer p st)) \<and> table_steps st (fst (on_request_chunks e peer q st))"
  using on_chunk_ack_steps on_request_chunks_steps by blast

text \<open>An acknowledgement changes the state only if it comes from the transport peer the transfer is
  addressed to, under the target's name, for the right number of chunks, with ranges inside the
  transfer and, if it carries a signature, with a valid one; then it changes nothing but the set of
  acknowledged chunks (and the completion flag) of that transfer.\<close>

lemma on_chunk_ack_effect:
  assumes "on_chunk_ack e peer p st = (st', effs)" and "st' \<noteq> st"
  shows "\<exists>t A. map_of (cm_active_outgoing_transfers st) (ca_transfer_id p) = Some t
    \<and> pr_mid peer = ot_recipient_mid t \<and> ca_sender_id p = ot_target_node_id t
    \<and> ca_total_chunks p = ot_total_chunks t
    \<and> (ca_signature p \<noteq> [] \<longrightarrow>
        chunk_verify (e_crypto e) (pr_public_key peer) (ca_signature p) (ca_sender_id p)
          (ca_round_number p) (ca_data_schema_hash p) 0 (ca_sack_ranges p)
          (default_meta\<lparr>cm_total_chunks := ca_total_chunks p\<rparr>) = ok True)
    \<and> A \<subseteq> {0..<ot_total_chunks t} \<and> unpack_chunk_ranges (ca_sack_ranges p) (Some (ot_total_chunks t)) = ok A
    \<and> st' = st\<lparr>cm_active_outgoing_transfers :=
        AList.update (ca_transfer_id p) (apply_ack A t) (cm_active_outgoing_transfers st)\<rparr>"
proof -
  from assms obtain t A where t: "map_of (cm_active_outgoing_transfers st) (ca_transfer_id p) = Some t"
    "pr_mid peer = ot_recipient_mid t" "ca_sender_id p = ot_target_node_id t"
    "ca_total_chunks p = ot_total_chunks t"
    "ca_signature p \<noteq> [] \<longrightarrow>
        chunk_verify (e_crypto e) (pr_public_key peer) (ca_signature p) (ca_sender_id p)
          (ca_round_number p) (ca_data_schema_hash p) 0 (ca_sack_ranges p)
          (default_meta\<lparr>cm_total_chunks := ca_total_chunks p\<rparr>) = ok True"
    and A: "unpack_chunk_ranges (ca_sack_ranges p) (Some (ot_total_chunks t)) = ok A"
    and "st' = st\<lparr>cm_active_outgoing_transfers :=
        AList.update (ca_transfer_id p) (apply_ack A t) (cm_active_outgoing_transfers st)\<rparr>"
    by (auto simp: on_chunk_ack_def split: option.split_asm if_split_asm sum.split_asm)
  then show ?thesis
    using unpack_chunk_ranges_subset [OF A] by blast
qed

definition sending_community :: community where
  "sending_community = sample_community\<lparr>cm_active_outgoing_transfers := [(''t'', sample_transfer)]\<rparr>"

lemmas sample_transfer_defs = sample_transfer_def new_transfer_def sending_community_def
  total_chunks_of_def CHUNK_SIZE_def

section \<open>NACKs\<close>

text \<open>What a missing-chunk report carries comes out again on a host of the same byte order.\<close>

lemma pack_native_ok:
  "pack_native en js = ok bs \<Longrightarrow> unpack_native en bs = ok js \<and> length bs = 4 * length js"
proof (induction js arbitrary: bs)
  case Nil
  then show ?case by simp
next
  case (Cons j js)
  then obtain b cs where b: "pack_u32 j = ok b" and cs: "pack_native en js = ok cs"
    and bs: "bs = native_order en b @ cs"
    by (auto simp: result_bind_eq_ok)
  have "length (native_order en b) = 4"
    using pack_u32_length [OF b] by simp
  then obtain w x y z where o: "native_order en b = [w, x, y, z]"
    by (auto simp: numeral_eq_Suc length_Suc_conv simp del: length_native_order)
  have "unpack_u32 (native_order en [w, x, y, z]) = j"
    using unpack_pack_u32 [OF b] by (metis native_order_twice o)
  with Cons.IH [OF cs] show ?case by (simp add: bs o)
qed

lemma unpack_native_nonneg: "unpack_native en bs = ok js \<Longrightarrow> list_all (\<lambda>j. 0 \<le> j) js"
  by (induction en bs arbitrary: js rule: unpack_native.induct)
    (auto simp: result_bind_eq_ok unpack_u32_def)

lemma nack_indices_range:
  assumes "unpack_native en bs = ok js" and "i \<in> set (nack_indices n js)"
  shows "0 \<le> i \<and> i < n"
  using assms unpack_native_nonneg [OF assms(1)]
  by (auto simp: nack_indices_def list_all_iff dest: in_set_takeD)

lemma nack_indices_length: "length (nack_indices n js) \<le> CHUNK_MAX_NACK_INDICES"
  by (simp add: nack_indices_def)

text \<open>The messages of a list of effects.\<close>

definition sends_of :: "effect list \<Rightarrow> (ipv8_peer \<times> message) list" where
  "sends_of effs = concat (map (\<lambda>e. case e of Send q m \<Rightarrow> [(q, m)] | _ \<Rightarrow> []) effs)"

lemma sends_of_simps [simp]:
  "sends_of [] = []"
  "sends_of (Send q m # effs) = (q, m) # sends_of effs"
  "sends_of (Raised err # effs) = sends_of effs"
  "sends_of (Emit ev pl # effs) = sends_of effs"
  "sends_of (xs @ ys) = sends_of xs @ sends_of ys"
  by (simp_all add: sends_of_def)

lemma sends_of_emit_dropped [simp]: "sends_of (emit_dropped st a b c d f g) = []"
  by (simp add: emit_dropped_def Let_def split: option.splits)

definition chunk_of :: "bytes \<Rightarrow> int \<Rightarrow> message \<Rightarrow> bool" where
  "chunk_of w i m \<longleftrightarrow> (case m of MsgChunk c \<Rightarrow> mc_chunk_index c = i
     \<and> mc_total_chunks c = total_chunks_of w \<and> mc_chunk_data c = slice CHUNK_SIZE w (nat i) | _ \<Rightarrow> False)"

lemma send_model_chunk_sends:
  "list_all (\<lambda>(q, m). q = peer \<and> chunk_of w i m)
     (sends_of (send_model_chunk e peer tid w i (total_chunks_of w) n r l a ts st))"
  "length (sends_of (send_model_chunk e peer tid w i (total_chunks_of w) n r l a ts st)) \<le> 1"
  by (auto simp: send_model_chunk_def Let_def chunk_of_def split: sum.splits)

lemma resend_chunks_sends:
  "list_all (\<lambda>(q, m). q = peer \<and> (\<exists>i \<in> set js. chunk_of (oe_weights d) i m))
     (sends_of (resend_chunks e peer tid d js st))"
  "length (sends_of (resend_chunks e peer tid d js st)) \<le> length js"
proof (induction js)
  case (Cons i js)
  note one = send_model_chunk_sends [where peer = peer and w = "oe_weights d" and i = i and e = e
      and tid = tid and n = "oe_samples d" and r = "oe_round d" and l = "oe_loss d"
      and a = "oe_accuracy d" and ts = "oe_timestamp d" and st = st]
  {
    case 1
    show ?case
      using Cons(1) one(1) by (fastforce simp: Let_def list_all_iff)
  next
    case 2
    show ?case
      using Cons(2) one(2) by (simp add: Let_def)
  }
qed simp_all

definition served :: "ipv8_peer \<Rightarrow> string \<Rightarrow> community \<Rightarrow> ipv8_peer \<times> message \<Rightarrow> bool" where
  "served peer tid st qm \<longleftrightarrow> fst qm = peer \<and> map_of (cm_active_outgoing_transfers st) tid = None
     \<and> (\<exists>d i. map_of (cm_outgoing_transfers st) tid = Some d
         \<and> (oe_recipient_mid d = [] \<or> oe_recipient_mid d = pr_mid peer)
         \<and> 0 \<le> i \<and> i < total_chunks_of (oe_weights d) \<and> chunk_of (oe_weights d) i (snd qm))"

lemma serve_nack_sends:
  assumes "map_of (cm_outgoing_transfers st) (rc_transfer_id p) = Some d"
    and "oe_recipient_mid d = [] \<or> oe_recipient_mid d = pr_mid peer"
  shows "list_all (served peer (rc_transfer_id p) st) (sends_of (snd (serve_nack e peer p d st)))
    \<and> length (sends_of (snd (serve_nack e peer p d st))) \<le> CHUNK_MAX_NACK_INDICES"
proof (cases "sends_of (snd (serve_nack e peer p d st)) = []")
  case False
  then obtain js where js: "unpack_native (e_endian e) (rc_missing_indices_bytes p) = ok js"
    and act: "map_of (cm_active_outgoing_transfers st) (rc_transfer_id p) = None"
    and effs: "snd (serve_nack e peer p d st) = resend_chunks e peer (rc_transfer_id p) d
      (nack_indices (total_chunks_of (oe_weights d)) js) st"
    by (auto simp: serve_nack_def Let_def split: if_splits sum.splits option.splits)
  have "served peer (rc_transfer_id p) st (q, m)"
    if "q = peer" "i \<in> set (nack_indices (total_chunks_of (oe_weights d)) js)"
      "chunk_of (oe_weights d) i m" for q m i
    using that assms act nack_indices_range [OF js that(2)] unfolding served_def by auto
  then show ?thesis
    unfolding effs
    using resend_chunks_sends [where peer = peer and d = d and e = e and tid = "rc_transfer_id p"
        and st = st and js = "nack_indices (total_chunks_of (oe_weights d)) js"]
      nack_indices_length [of "total_chunks_of (oe_weights d)" js]
    by (fastforce simp: list_all_iff)
qed simp

lemma nack_reject_silent:
  "nack_admission e peer p st = (st', Reject effs) \<Longrightarrow> sends_of effs = []"
  by (auto simp: nack_admission_def Let_def split: prod.splits if_splits)

text \<open>A NACK is answered only to the peer that sent it, only if the transfer was addressed to that
  peer (or to nobody recorded) and its send loop has ended, with at most \<open>CHUNK_MAX_NACK_INDICES\<close>
  messages, each of which is the chunk of the cached model at an index inside the transfer.\<close>

theorem nack_service:
  "list_all (served peer (rc_transfer_id p) st) (sends_of (snd (on_request_chunks e peer p st)))
   \<and> length (sends_of (snd (on_request_chunks e peer p st))) \<le> CHUNK_MAX_NACK_INDICES"
proof -
  define st1 where "st1 = st\<lparr>cm_metrics := (cm_metrics st)\<lparr>nacks_received := nacks_received (cm_metrics st) + 1\<rparr>\<rparr>"
  obtain st2 v where na: "nack_admission e peer p st1 = (st2, v)" by fastforce
  have served_eq: "served peer (rc_transfer_id p) u = served peer (rc_transfer_id p) st"
    if "cm_active_outgoing_transfers u = cm_active_outgoing_transfers st"
      "cm_outgoing_transfers u = cm_outgoing_transfers st" for u
    using that by (simp add: served_def fun_eq_iff)
  have u1: "cm_active_outgoing_transfers st1 = cm_active_outgoing_transfers st"
    "cm_outgoing_transfers st1 = cm_outgoing_transfers st"
    by (simp_all add: st1_def)
  have u2: "cm_active_outgoing_transfers st2 = cm_active_outgoing_transfers st"
    "cm_outgoing_transfers st2 = cm_outgoing_transfers st"
    using nack_admission_active [OF na] u1 by simp_all
  show ?thesis
    unfolding on_request_chunks_def Let_def st1_def [symmetric]
    using serve_nack_sends [of st1 p _ peer e] serve_nack_sends [of st2 p _ peer e]
      served_eq [OF u1] served_eq [OF u2] u1 u2 na nack_reject_silent [of e peer p st1 st2]
    by (auto split: option.split verdict.split)
qed

end
