(* ===== verification/Community_Machine.thy ===== *)
theory Community_Machine
  imports Receiver_Delivery Sender_Contract
begin

text \<open>
  The community as one event-driven machine: the message handlers that change its state, the periodic tasks, the start and the stretches of
  a chunked send, and the registration of callbacks are events, and a run is any sequence of events from any
  configuration. A direct update that waits for its callback is kept in \<open>nt_awaiting\<close>, and other events come in between. The
  receive-side invariant and the replay protection are proved of all runs.
\<close>

section \<open>Events\<close>

text \<open>The attributes that the node sets after it has made the community.\<close>

definition set_callbacks :: "bool \<Rightarrow> bool \<Rightarrow> bool \<Rightarrow> bool \<Rightarrow> bool \<Rightarrow> bool \<Rightarrow> community \<Rightarrow> community" where
  "set_callbacks update discovered left shuffle checkpoint emitter st =
     st\<lparr>cm_has_update_callback := update, cm_has_discovered_callback := discovered, cm_has_left_callback := left,
       cm_has_shuffle_callback := shuffle, cm_has_checkpoint_callback := checkpoint, cm_has_emitter := emitter\<rparr>"

datatype net_event =
    EvDiscovery ipv8_peer discovery_announce
  | EvHeartbeat ipv8_peer heartbeat
  | EvCheckpoint ipv8_peer checkpoint_announce
  | EvChunk ipv8_peer model_chunk
  | EvAck ipv8_peer chunk_ack
  | EvRequest ipv8_peer request_chunks
  | EvShuffleResponse ipv8_peer "shuffle_entry list"
  | EvSetCallbacks bool bool bool bool bool bool
  | EvSend string string bytes int int "float64 option" "float64 option"
  | EvStretch sender_pc outgoing_transfer
  | TickHeartbeat
  | TickCleanupPeers
  | TickCleanupTransfers
  | TickCleanupCache
  | TickNack

fun handle_event :: "community \<Rightarrow> env \<Rightarrow> net_event \<Rightarrow> community \<times> effect list" where
  "handle_event st e (EvDiscovery peer p) = on_discovery_announce e peer p st"
| "handle_event st e (EvHeartbeat peer p) = on_heartbeat e peer p st"
| "handle_event st e (EvCheckpoint peer p) = on_checkpoint e peer p st"
| "handle_event st e (EvChunk peer p) = on_model_chunk e peer p st"
| "handle_event st e (EvAck peer p) = on_chunk_ack e peer p st"
| "handle_event st e (EvRequest peer p) = on_request_chunks e peer p st"
| "handle_event st e (EvShuffleResponse peer ps) = on_shuffle_response e peer ps st"
| "handle_event st e (EvSetCallbacks u d l sh ck em) = (set_callbacks u d l sh ck em st, [])"
| "handle_event st e (EvSend uuid target w n r loss acc) =
     (case send_model_update e uuid target w n r loss acc st of
        (st1, SentDirect effs) \<Rightarrow> (st1, effs)
      | (st1, _) \<Rightarrow> (st1, []))"
| "handle_event st e (EvStretch pc t) = (case sender_stretch e pc t st of (pc', t', st1, effs) \<Rightarrow> (st1, effs))"
| "handle_event st e TickHeartbeat = send_heartbeat st"
| "handle_event st e TickCleanupPeers = cleanup_stale_peers (e_now e) st"
| "handle_event st e TickCleanupTransfers = (cleanup_stale_transfers (e_now e) st, [])"
| "handle_event st e TickCleanupCache = (cleanup_outgoing_cache (e_now e) st, [])"
| "handle_event st e TickNack = nack_incomplete_buffers e st"

record network =
  nt_community :: community
  nt_awaiting :: "(ipv8_peer \<times> model_update) list"

definition network_init :: "community \<Rightarrow> network" where
  "network_init st = \<lparr>nt_community = st, nt_awaiting = []\<rparr>"

text \<open>An update arrives; the callback of the \<open>n\<close>-th waiting update ends; anything else.\<close>

datatype net_action = Update ipv8_peer model_update | CallbackEnds nat | Other net_event

fun net_step :: "network \<Rightarrow> env \<times> net_action \<Rightarrow> network \<times> effect list" where
  "net_step nt (e, Update peer p) =
     (let (st, effs, waits) = begin_model_update e peer p (nt_community nt)
      in (nt\<lparr>nt_community := st, nt_awaiting := nt_awaiting nt @ (if waits then [(peer, p)] else [])\<rparr>, effs))"
| "net_step nt (e, CallbackEnds n) =
     (if n < length (nt_awaiting nt) then
        let (peer, p) = nt_awaiting nt ! n; (st, effs) = finish_model_update e peer p (nt_community nt)
        in (nt\<lparr>nt_community := st, nt_awaiting := take n (nt_awaiting nt) @ drop (Suc n) (nt_awaiting nt)\<rparr>, effs)
      else (nt, []))"
| "net_step nt (e, Other ev) =
     (let (st, effs) = handle_event (nt_community nt) e ev in (nt\<lparr>nt_community := st\<rparr>, effs))"

text \<open>The integers of a chunk message are what the wire format can carry.\<close>

fun wire_event :: "env \<times> net_action \<Rightarrow> bool" where
  "wire_event (e, Other (EvChunk peer p)) = wire_chunk p"
| "wire_event _ = True"

section \<open>What the handlers leave alone\<close>

definition same_buffers :: "community \<Rightarrow> community \<Rightarrow> bool" where
  "same_buffers st st' \<longleftrightarrow> cm_chunk_buffers st' = cm_chunk_buffers st"

definition same_rounds :: "community \<Rightarrow> community \<Rightarrow> bool" where
  "same_rounds st st' \<longleftrightarrow> cm_last_seen_round st' = cm_last_seen_round st"

lemmas same_defs = same_buffers_def same_rounds_def

lemma discovery_frame:
  "same_buffers st (fst (on_discovery_announce e peer p st))"
  "same_rounds st (fst (on_discovery_announce e peer p st))"
  by (auto simp: same_defs on_discovery_announce_def Let_def split: option.splits)

lemma update_frame:
  "same_buffers st (fst (begin_model_update e peer p st))" "same_buffers st (fst (finish_model_update e peer p st))"
  by (simp_all add: same_defs record_round_def begin_model_update_def finish_model_update_def Let_def split: verdict.split)

lemma send_frame:
  "same_buffers st (fst (send_model_update e uuid target w n r loss acc st))"
  "same_rounds st (fst (send_model_update e uuid target w n r loss acc st))"
  by (auto simp: same_defs send_model_update_def start_chunked_send_def Let_def case_prod_beta split: option.splits sum.splits)

lemma stretch_frame:
  "sender_stretch e pc t st = (pc', t', st1, effs) \<Longrightarrow> same_buffers st st1 \<and> same_rounds st st1"
  by (auto simp: same_defs sender_stretch_def end_chunked_send_def Let_def case_prod_beta split: if_splits sender_pc.splits)

lemma ack_frame:
  "same_buffers st (fst (on_chunk_ack e peer p st))" "same_rounds st (fst (on_chunk_ack e peer p st))"
  by (auto simp: same_defs on_chunk_ack_def split: option.splits sum.splits)

lemma serve_frame:
  "same_buffers st (fst (serve_nack e peer p d st))" "same_rounds st (fst (serve_nack e peer p d st))"
  by (auto simp: same_defs serve_nack_def count_resend_def Let_def split: option.splits sum.splits)

lemma nack_admission_frame:
  "nack_admission e peer p st = (st', v) \<Longrightarrow> same_buffers st st' \<and> same_rounds st st'"
  by (auto simp: same_defs nack_admission_def Let_def split: prod.splits if_splits)

lemma request_frame:
  "same_buffers st (fst (on_request_chunks e peer p st)) \<and> same_rounds st (fst (on_request_chunks e peer p st))"
proof -
  define st1 where "st1 = st\<lparr>cm_metrics := (cm_metrics st)\<lparr>nacks_received := nacks_received (cm_metrics st) + 1\<rparr>\<rparr>"
  obtain st2 v where na: "nack_admission e peer p st1 = (st2, v)" by fastforce
  have st1: "same_buffers st st1" "same_rounds st st1" by (simp_all add: st1_def same_defs)
  moreover have "same_buffers st1 st2" "same_rounds st1 st2" using nack_admission_frame [OF na] by simp_all
  ultimately show ?thesis
    using serve_frame [of st1 e peer p] serve_frame [of st2 e peer p] na
    unfolding on_request_chunks_def Let_def st1_def [symmetric]
    by (auto simp: same_defs split: option.split verdict.split)
qed

lemma shuffle_frame:
  "same_buffers st (fst (learn_shuffled now peer ps st)) \<and> same_rounds st (fst (learn_shuffled now peer ps st))"
  by (induction ps arbitrary: st) (auto simp: same_defs Let_def case_prod_beta)

lemma remove_peers_frame:
  "same_buffers st (fst (remove_peers ns st)) \<and> same_rounds st (fst (remove_peers ns st))"
  by (induction ns arbitrary: st) (auto simp: same_defs Let_def case_prod_beta split: option.splits)

lemma nack_buffer_rounds: "same_rounds st (fst (nack_buffer e key st))"
  by (auto simp: nack_buffer_def same_defs bump_ignored_def send_missing_chunks_report_def Let_def
      split: option.splits prod.splits sum.splits if_splits)

text \<open>A chunk never touches the replay table.\<close>

lemma chunk_rounds_helpers:
  "same_rounds st (bump_started st)" "same_rounds st (bump_ignored st)" "same_rounds st (bump_peer_limit st)"
  "same_rounds st (mark_recent e peer p st)" "same_rounds st (mark_completed e peer p st)"
  "same_rounds st (put_buffer peer p b st)" "same_rounds st (drop_buffer peer p st)"
  by (simp_all add: same_rounds_def bump_started_def bump_ignored_def bump_peer_limit_def
      mark_recent_def mark_completed_def put_buffer_def drop_buffer_def)

lemma report_rounds:
  "send_missing_chunks_report e peer b f st = (s, b', st', effs) \<Longrightarrow> same_rounds st st'"
  by (auto simp: send_missing_chunks_report_def same_rounds_def bump_ignored_def Let_def
      split: if_splits sum.splits)

lemma finish_rounds: "same_rounds st (fst (finish_transfer e peer p b st))"
  using chunk_rounds_helpers by (auto simp: finish_transfer_def same_rounds_def Let_def split: sum.splits)

lemma create_rounds: "same_rounds st (snd (get_or_create_buffer e peer p st))"
  using chunk_rounds_helpers(1) by (simp add: get_or_create_buffer_def same_rounds_def split: option.splits)

lemma store_rounds: "same_rounds st (fst (chunk_store e peer p st))"
proof -
  obtain b0 st0 where b0: "get_or_create_buffer e peer p st = (b0, st0)" by fastforce
  obtain b1 c where b1: "add_chunk (mc_chunk_index p) (mc_chunk_data p) b0 = (b1, c)" by fastforce
  obtain b2 acks where b2: "maybe_send_chunk_ack e peer b1 c st0 = (b2, acks)" by fastforce
  define st1 where "st1 = touch_peer (e_now e) (mc_sender_id p) (put_buffer peer p b2 st0)"
  obtain s b3 st2 reps where r: "send_missing_chunks_report e peer b2 False st1 = (s, b3, st2, reps)"
    by (cases "send_missing_chunks_report e peer b2 False st1") auto
  have st0: "same_rounds st st0"
    using create_rounds [of st e peer p] b0 by simp
  then have "same_rounds st st1" "same_rounds st (put_buffer peer p b2 st0)"
    by (simp_all add: st1_def same_rounds_def put_buffer_def)
  moreover have "same_rounds st (put_buffer peer p b3 st2)"
    using report_rounds [OF r] \<open>same_rounds st st1\<close> by (simp add: same_rounds_def put_buffer_def)
  moreover have "same_rounds st (fst (finish_transfer e peer p b2 st1))"
    using finish_rounds [of st1] \<open>same_rounds st st1\<close> by (simp add: same_rounds_def)
  ultimately show ?thesis
    unfolding chunk_store_def b0 Let_def prod.case b1 b2 st1_def [symmetric] r
    by (cases "finish_transfer e peer p b2 st1") simp
qed

lemma admission_rounds: "chunk_admission e peer p st = Some r \<Longrightarrow> same_rounds st (fst r)"
  using chunk_rounds_helpers(3) by (auto simp: chunk_admission_def same_rounds_def Let_def split: if_splits)

lemma chunk_rounds: "same_rounds st (fst (on_model_chunk e peer p st))"
proof -
  let ?m = "mark_recent e peer p st"
  have "same_rounds ?m (fst (case chunk_admission e peer p ?m of Some r \<Rightarrow> r | None \<Rightarrow> chunk_store e peer p ?m))"
    using admission_rounds store_rounds by (cases "chunk_admission e peer p ?m") simp_all
  moreover have "same_rounds st (fst (duplicate_chunk e peer p st))"
    by (auto simp: duplicate_chunk_def same_rounds_def put_buffer_def case_prod_beta split: option.splits)
  moreover have "same_rounds st ?m" by (rule chunk_rounds_helpers)
  ultimately show ?thesis
    by (auto simp: on_model_chunk_def same_rounds_def Let_def split: verdict.split)
qed

section \<open>The receive-side invariant in all runs\<close>

lemma receiver_inv_same: "same_buffers st st' \<Longrightarrow> receiver_inv st \<Longrightarrow> receiver_inv st'"
  unfolding same_buffers_def by (rule receiver_inv_cong [THEN iffD1]) simp_all

lemma cleanup_inv: "receiver_inv st \<Longrightarrow> receiver_inv (cleanup_stale_transfers now st)"
  by (rule receiver_inv_cong [THEN iffD1, OF _ receiver_inv_filter [of st "\<lambda>(_, b). \<not> is_expired now b"]])
    (simp_all add: cleanup_stale_transfers_def Let_def)

text \<open>A NACK tick reports one buffer or leaves the tables alone.\<close>

lemma nack_buffer_buffers:
  "same_buffers st (fst (nack_buffer e key st)) \<or>
   (\<exists>b b'. map_of (cm_chunk_buffers st) key = Some b \<and> same_content b b' \<and>
      cm_chunk_buffers (fst (nack_buffer e key st)) = AList.update key b' (cm_chunk_buffers st))"
proof (cases "map_of (cm_chunk_buffers st) key")
  case None
  then show ?thesis by (simp add: nack_buffer_def same_buffers_def)
next
  case (Some b)
  obtain ok_t tb where t: "nack_try_consume_transfer (snd key) (e_now e) (cm_nack_transfer_buckets st) = (ok_t, tb)"
    by fastforce
  obtain ok_p pb where p: "nack_try_consume (fst key) (e_now e) (cm_nack_buckets st) = (ok_p, pb)"
    by fastforce
  define st2 where "st2 = st\<lparr>cm_nack_transfer_buckets := tb, cm_nack_buckets := pb\<rparr>"
  have rep: "\<exists>b'. same_content b b' \<and> cm_chunk_buffers (fst (let (sent, b', st3, effs) =
      send_missing_chunks_report e target b False st2
      in (st3\<lparr>cm_chunk_buffers := AList.update key b' (cm_chunk_buffers st3)\<rparr>, effs))) =
      AList.update key b' (cm_chunk_buffers st)" for target
    using report_same_content(1,3)
    by (cases "send_missing_chunks_report e target b False st2") (fastforce simp: st2_def)
  show ?thesis
    using Some rep t p
    by (auto simp: nack_buffer_def same_buffers_def bump_ignored_def Let_def st2_def split: option.split)
qed

lemma nack_buffer_inv:
  assumes "receiver_inv st"
  shows "receiver_inv (fst (nack_buffer e key st))"
  using nack_buffer_buffers [of st e key]
proof
  assume "\<exists>b b'. map_of (cm_chunk_buffers st) key = Some b \<and> same_content b b' \<and>
      cm_chunk_buffers (fst (nack_buffer e key st)) = AList.update key b' (cm_chunk_buffers st)"
  then obtain b b' where b: "map_of (cm_chunk_buffers st) key = Some b" "same_content b b'"
    "cm_chunk_buffers (fst (nack_buffer e key st)) = AList.update key b' (cm_chunk_buffers st)" by blast
  have "buffer_ok b'"
    using buffer_ok_same [OF b(2)] receiver_inv_buffer [OF assms b(1)] by blast
  then have "receiver_inv (st\<lparr>cm_chunk_buffers := AList.update key b' (cm_chunk_buffers st)\<rparr>)"
    using receiver_inv_put [OF assms] b(1) by simp
  then show ?thesis
    by (rule receiver_inv_cong [THEN iffD1, rotated]) (simp add: b(3))
qed (use assms receiver_inv_same in blast)

interpretation nack_tick: reactive "\<lambda>st key. nack_buffer e key st" receiver_inv "\<lambda>_. True" for e :: env
  by unfold_locales (rule nack_buffer_inv)

interpretation nack_rounds: reactive "\<lambda>st key. nack_buffer e key st" "same_rounds st0" "\<lambda>_. True"
  for e :: env and st0 :: community
  by unfold_locales (use nack_buffer_rounds in \<open>auto simp: same_rounds_def\<close>)

lemma handle_event_inv: "receiver_inv st \<Longrightarrow> wire_event (e, Other ev) \<Longrightarrow> receiver_inv (fst (handle_event st e ev))"
proof (induction st e ev rule: handle_event.induct)
  case (1 st e peer p)
  then show ?case using receiver_inv_same [OF discovery_frame(1)] by simp
next
  case (4 st e peer p)
  then show ?case using on_model_chunk_inv by simp
next
  case (5 st e peer p)
  then show ?case using receiver_inv_same [OF ack_frame(1)] by simp
next
  case (6 st e peer p)
  then show ?case using receiver_inv_same [OF conjunct1 [OF request_frame]] by simp
next
  case (7 st e peer ps)
  then show ?case using receiver_inv_same [OF conjunct1 [OF shuffle_frame]] by (simp add: on_shuffle_response_def)
next
  case (9 st e uuid target w n r loss acc)
  have "fst (handle_event st e (EvSend uuid target w n r loss acc)) = fst (send_model_update e uuid target w n r loss acc st)"
    by (simp split: prod.split send_outcome.split)
  then show ?case using 9 receiver_inv_same [OF send_frame(1)] by simp
next
  case (10 st e pc t)
  obtain pc' t' st1 effs where stretch: "sender_stretch e pc t st = (pc', t', st1, effs)"
    by (cases "sender_stretch e pc t st")
  then show ?case using receiver_inv_same [OF conjunct1 [OF stretch_frame [OF stretch]]] 10 by simp
next
  case (12 st e)
  then show ?case using receiver_inv_same [OF conjunct1 [OF remove_peers_frame]] by (simp add: cleanup_stale_peers_def)
next
  case (13 st e)
  then show ?case using cleanup_inv by simp
next
  case (15 st e)
  then show ?case using nack_tick.run_inv by (simp add: nack_incomplete_buffers_def list_all_iff)
qed (auto simp: on_heartbeat_def on_checkpoint_def send_heartbeat_def cleanup_outgoing_cache_def set_callbacks_def Let_def
  same_buffers_def elim: receiver_inv_same [rotated])

lemma net_step_inv: "receiver_inv (nt_community nt) \<Longrightarrow> wire_event ev \<Longrightarrow> receiver_inv (nt_community (fst (net_step nt ev)))"
proof (induction nt ev rule: net_step.induct)
  case (1 nt e peer p)
  then show ?case using receiver_inv_same [OF update_frame(1)] by (simp add: case_prod_beta)
next
  case (2 nt e n)
  then show ?case using receiver_inv_same [OF update_frame(2)] by (simp add: case_prod_beta Let_def)
next
  case (3 nt e ev)
  then show ?case using handle_event_inv by (simp add: case_prod_beta)
qed

interpretation net: reactive net_step "\<lambda>nt. receiver_inv (nt_community nt)" wire_event
  by unfold_locales (rule net_step_inv)

text \<open>C7: In every run of a community, in whatever configuration and with whatever callbacks registered at whatever time, whatever messages
  with integers the wire format can carry arrive from whatever peers, whatever it sends and whenever the periodic tasks run, at most
  \<open>MAX_TOTAL_TRANSFERS\<close> transfers are buffered, at most \<open>MAX_CONCURRENT_TRANSFERS_PER_PEER\<close> of them per transport peer,
  no buffer announces more than \<open>MAX_CHUNKS_PER_TRANSFER\<close> chunks, and no complete transfer stays in the table.\<close>

theorem receive_caps:
  assumes "list_all wire_event evs"
  shows "let st = nt_community (fst (run net_step (network_init (community_init nid dm sch mv req path skip loaded)) evs)) in
    length (cm_chunk_buffers st) \<le> MAX_TOTAL_TRANSFERS
    \<and> (\<forall>mid. peer_transfers mid st \<le> MAX_CONCURRENT_TRANSFERS_PER_PEER)
    \<and> (\<forall>k b. map_of (cm_chunk_buffers st) k = Some b \<longrightarrow>
         cb_total_chunks b \<le> MAX_CHUNKS_PER_TRANSFER
         \<and> (0 < cb_total_chunks b \<longrightarrow> int (length (cb_chunks b)) < cb_total_chunks b))"
proof -
  have "receiver_inv (nt_community (network_init (community_init nid dm sch mv req path skip loaded)))"
    by (rule receiver_inv_init) (simp add: community_init_def network_init_def)
  from net.run_inv [OF this assms] show ?thesis
    unfolding receiver_inv_def buffer_ok_def Let_def by blast
qed

definition sample_events :: "(env \<times> net_action) list" where
  "sample_events = [(sample_env, Other (EvSetCallbacks True True True True True True)),
     (sample_env, Other (EvChunk sample_peer (sample_chunk 1 [8]))), (sample_env, Other TickNack),
     (sample_env, Other TickCleanupTransfers), (sample_env, Other (EvChunk sample_peer (sample_chunk 0 [7])))]"

theorem receive_caps_witness:
  "length (cm_chunk_buffers (nt_community (fst (run net_step (network_init (community_init ''n'' ''d'' ''s'' ''1'' False [] 5 [])) sample_events))))
     \<le> MAX_TOTAL_TRANSFERS"
proof -
  have "list_all wire_event sample_events"
    by (simp add: sample_events_def wire_chunk_def u32_def sample_chunk_def)
  from receive_caps [OF this, of "''n''" "''d''" "''s''" "''1''" False "[]" 5 "[]"] show ?thesis
    unfolding Let_def by blast
qed

section \<open>Replay protection in all runs\<close>

lemma handle_event_rounds: "same_rounds st (fst (handle_event st e ev))"
proof (induction st e ev rule: handle_event.induct)
  case (1 st e peer p)
  then show ?case using discovery_frame(2) by simp
next
  case (4 st e peer p)
  then show ?case using chunk_rounds by simp
next
  case (5 st e peer p)
  then show ?case using ack_frame(2) by simp
next
  case (6 st e peer p)
  then show ?case using request_frame by simp
next
  case (7 st e peer ps)
  then show ?case using shuffle_frame by (simp add: on_shuffle_response_def same_rounds_def)
next
  case (9 st e uuid target w n r loss acc)
  have "fst (handle_event st e (EvSend uuid target w n r loss acc)) = fst (send_model_update e uuid target w n r loss acc st)"
    by (simp split: prod.split send_outcome.split)
  then show ?case using send_frame(2) by simp
next
  case (10 st e pc t)
  then show ?case using stretch_frame by (auto split: prod.split)
next
  case (12 st e)
  then show ?case using remove_peers_frame by (simp add: cleanup_stale_peers_def)
next
  case (15 st e)
  then show ?case
    using nack_rounds.run_inv [of st st "map fst (cm_chunk_buffers st)" e]
    by (simp add: nack_incomplete_buffers_def same_rounds_def list_all_iff)
qed (auto simp: on_heartbeat_def on_checkpoint_def send_heartbeat_def cleanup_outgoing_cache_def set_callbacks_def
  cleanup_stale_transfers_def Let_def same_rounds_def)

lemma same_rounds_last: "same_rounds st st' \<Longrightarrow> last_round_of st' mid = last_round_of st mid"
  by (simp add: same_rounds_def last_round_of_def)

text \<open>What becomes of the direct updates of a run, in order: an update is taken up when it passes the gate and deserializes, that is
  when it is handed to the callback if there is one, and it is completed when its round is recorded.\<close>

datatype update_mark = TakenUp string int | Completed string int

definition taken_up :: "env \<Rightarrow> ipv8_peer \<Rightarrow> model_update \<Rightarrow> community \<Rightarrow> bool" where
  "taken_up e peer p st \<longleftrightarrow> update_gate e peer p st = Accept \<and> e_deserializes e (mu_weights_bytes p)"

fun step_marks :: "network \<Rightarrow> env \<times> net_action \<Rightarrow> update_mark list" where
  "step_marks nt (e, Update peer p) =
     (if taken_up e peer p (nt_community nt)
      then TakenUp (pr_mid peer) (mu_round_number p) #
           (if cm_has_update_callback (nt_community nt) then [] else [Completed (pr_mid peer) (mu_round_number p)])
      else [])"
| "step_marks nt (e, CallbackEnds n) =
     (if n < length (nt_awaiting nt) \<and> e_callback_ok e
      then (case nt_awaiting nt ! n of (peer, p) \<Rightarrow> [Completed (pr_mid peer) (mu_round_number p)]) else [])"
| "step_marks nt (e, Other ev) = []"

fun update_marks :: "network \<Rightarrow> (env \<times> net_action) list \<Rightarrow> update_mark list" where
  "update_marks nt [] = []"
| "update_marks nt (ev # evs) = step_marks nt ev @ update_marks (fst (net_step nt ev)) evs"

text \<open>What comes after a completion is not an update of the same peer with the same or an earlier round.\<close>

fun not_replayed :: "update_mark \<Rightarrow> update_mark \<Rightarrow> bool" where
  "not_replayed (Completed mid r) (TakenUp mid' r') = (mid = mid' \<longrightarrow> r < r')"
| "not_replayed _ _ = True"

text \<open>The marks of a step and what they do to the table of rounds.\<close>

lemma begin_last_round:
  "last_round_of (fst (begin_model_update e peer p st)) k =
     (if taken_up e peer p st \<and> \<not> cm_has_update_callback st \<and> k = pr_mid peer
      then max (last_round_of st k) (mu_round_number p) else last_round_of st k)"
  by (simp add: begin_model_update_def taken_up_def last_round_record Let_def split: verdict.split)

lemma finish_last_round:
  "last_round_of (fst (finish_model_update e peer p st)) k =
     (if e_callback_ok e \<and> k = pr_mid peer then max (last_round_of st k) (mu_round_number p) else last_round_of st k)"
  by (simp add: finish_model_update_def last_round_record Let_def)

lemma callback_ends:
  assumes "n < length (nt_awaiting nt)" "nt_awaiting nt ! n = (peer, p)"
  shows "nt_community (fst (net_step nt (e, CallbackEnds n))) = fst (finish_model_update e peer p (nt_community nt))"
    "step_marks nt (e, CallbackEnds n) = (if e_callback_ok e then [Completed (pr_mid peer) (mu_round_number p)] else [])"
  using assms by (simp_all add: case_prod_beta)

lemma step_rounds:
  "last_round_of (nt_community nt) k \<le> last_round_of (nt_community (fst (net_step nt ev))) k"
  "Completed k r \<in> set (step_marks nt ev) \<Longrightarrow> r \<le> last_round_of (nt_community (fst (net_step nt ev))) k"
proof -
  have "last_round_of (nt_community nt) k \<le> last_round_of (nt_community (fst (net_step nt ev))) k \<and>
      (Completed k r \<in> set (step_marks nt ev) \<longrightarrow> r \<le> last_round_of (nt_community (fst (net_step nt ev))) k)"
  proof (induction nt ev rule: net_step.induct)
    case (1 nt e peer p)
    then show ?case by (auto simp: case_prod_beta begin_last_round)
  next
    case (2 nt e n)
    show ?case
    proof (cases "n < length (nt_awaiting nt)")
      case True
      obtain peer p where "nt_awaiting nt ! n = (peer, p)"
        by (rule prod.exhaust)
      from callback_ends [OF True this, of e] show ?thesis
        by (simp only: finish_last_round) auto
    qed simp
  next
    case (3 nt e ev)
    then show ?case
      using same_rounds_last [OF handle_event_rounds] by (simp add: case_prod_beta)
  qed
  then show "last_round_of (nt_community nt) k \<le> last_round_of (nt_community (fst (net_step nt ev))) k"
    "Completed k r \<in> set (step_marks nt ev) \<Longrightarrow> r \<le> last_round_of (nt_community (fst (net_step nt ev))) k"
    by simp_all
qed

lemma taken_up_new:
  "TakenUp k r \<in> set (step_marks nt ev) \<Longrightarrow> last_round_of (nt_community nt) k < r"
proof (induction nt ev rule: net_step.induct)
  case (1 nt e peer p)
  then have "k = pr_mid peer \<and> r = mu_round_number p \<and> taken_up e peer p (nt_community nt)"
    by (auto split: if_splits)
  then show ?case by (simp add: taken_up_def update_gate_accept)
next
  case (2 nt e n)
  have n: "n < length (nt_awaiting nt)"
  proof (rule ccontr)
    assume "\<not> n < length (nt_awaiting nt)"
    then show False using 2 by simp
  qed
  obtain peer p where "nt_awaiting nt ! n = (peer, p)"
    by (rule prod.exhaust)
  with 2 callback_ends(2) [OF n this, of e] have "TakenUp k r \<in> set (if e_callback_ok e then [Completed (pr_mid peer) (mu_round_number p)] else [])"
    by metis
  then show ?case
    by (cases "e_callback_ok e") simp_all
qed simp

lemma later_taken_up_new:
  "TakenUp k r \<in> set (update_marks nt evs) \<Longrightarrow> last_round_of (nt_community nt) k < r"
proof (induction evs arbitrary: nt)
  case (Cons ev evs)
  then show ?case
    using taken_up_new [of k r nt ev] step_rounds(1) [of nt k ev] by fastforce
qed simp

lemma step_marks_ordered: "sorted_wrt not_replayed (step_marks nt ev)"
  by (induction nt ev rule: step_marks.induct) (auto split: prod.split)

text \<open>C4: Replay protection of the direct model updates, with callbacks that take time while other messages are handled. In every
  run, from whatever state, an update is only taken up (handed to the callback) with a round above the one recorded for its transport
  peer at the start and above every round that was completed for that peer earlier in the run. Two copies that overlap, the second
  arriving while the first is in its callback, are not excluded, nor are chunked transfers, which do not use these rounds.\<close>

theorem replay_protection:
  "sorted_wrt not_replayed (Completed mid (last_round_of (nt_community nt) mid) # update_marks nt evs)"
proof -
  have "sorted_wrt not_replayed (update_marks nt evs)"
  proof (induction evs arbitrary: nt)
    case (Cons ev evs)
    have "not_replayed x y" if "x \<in> set (step_marks nt ev)" "y \<in> set (update_marks (fst (net_step nt ev)) evs)" for x y
    proof (cases x)
      case (Completed k r)
      then have "r \<le> last_round_of (nt_community (fst (net_step nt ev))) k"
        using that step_rounds(2) by blast
      then show ?thesis
        using Completed that later_taken_up_new [of k _ "fst (net_step nt ev)" evs] by (cases y) fastforce+
    qed simp
    then show ?case
      using Cons step_marks_ordered by (simp add: sorted_wrt_append)
  qed simp
  moreover have "not_replayed (Completed mid (last_round_of (nt_community nt) mid)) y" if "y \<in> set (update_marks nt evs)" for y
  proof (cases y)
    case (TakenUp k r)
    then show ?thesis using later_taken_up_new [of k r nt evs] that by auto
  qed simp
  ultimately show ?thesis by simp
qed

lemma callback_not_dropped: "ModelCallback d \<notin> set (emit_dropped st a b c sv tr dt)"
  using emit_dropped_only_emits by (fastforce simp: is_emit_def)

lemma gate_reject_silent:
  "update_gate e peer p st = Reject effs \<Longrightarrow> ModelCallback d \<notin> set effs"
  using callback_not_dropped by (auto simp: gate_defs split: option.splits if_splits sum.splits)

text \<open>A direct update reaches the model callback only with the announced sender name, a valid
  signature (or none where none is required), a round that is new for this peer and at most
  \<open>max_round_skip\<close> ahead, and at most \<open>MAX_INCOMING_MESSAGE_SIZE\<close> octets; the callback gets the
  message's own bytes and metadata.\<close>

theorem direct_update_gated:
  assumes "ModelCallback d \<in> set (snd (on_model_update e peer p st))"
  shows "identity_mismatch st peer (mu_sender_id p) = None
    \<and> (if mu_signature p \<noteq> []
        then chunk_verify (e_crypto e) (pr_public_key peer) (mu_signature p) (mu_sender_id p)
               (mu_round_number p) (mu_data_schema_hash p) 0 (mu_weights_bytes p) (update_meta p) = ok True
        else \<not> cm_require_signature st)
    \<and> last_round_of st (pr_mid peer) < mu_round_number p
    \<and> mu_round_number p \<le> e_local_round e + cm_max_round_skip st
    \<and> int (length (mu_weights_bytes p)) \<le> MAX_INCOMING_MESSAGE_SIZE
    \<and> d = update_delivery p"
proof -
  have acc: "update_gate e peer p st = Accept"
    using assms gate_reject_silent by (cases "update_gate e peer p st") (auto simp: on_model_update_eq)
  have "update_signature_gate e peer p st = Accept"
    using acc update_gate_accept by blast
  then have "if mu_signature p \<noteq> []
        then chunk_verify (e_crypto e) (pr_public_key peer) (mu_signature p) (mu_sender_id p)
               (mu_round_number p) (mu_data_schema_hash p) 0 (mu_weights_bytes p) (update_meta p) = ok True
        else \<not> cm_require_signature st"
    by (auto simp: update_signature_gate_def split: if_splits sum.splits)
  moreover have "d = update_delivery p"
    using assms acc callback_not_dropped
    by (auto simp: on_model_update_eq Let_def persist_last_seen_def split: if_splits)
  ultimately show ?thesis
    using acc update_gate_accept by blast
qed

definition sample_update :: model_update where
  "sample_update = \<lparr>mu_sender_id = ''b'', mu_weights_bytes = [7], mu_sample_count = 3, mu_round_number = 1,
     mu_data_schema_hash = ''s'', mu_loss = 0, mu_accuracy = 0, mu_timestamp = 50, mu_signature = []\<rparr>"

theorem direct_update_gated_witness:
  "ModelCallback (update_delivery sample_update) \<in> set (snd (on_model_update sample_env sample_peer sample_update open_community))
   \<and> last_round_of open_community (pr_mid sample_peer) < mu_round_number sample_update"
proof -
  have "ModelCallback (update_delivery sample_update) \<in> set (snd (on_model_update sample_env sample_peer sample_update open_community))"
    by (simp add: on_model_update_eq gate_defs last_round_of_def dict_get_def open_community_def sample_defs
        sample_update_def MAX_INCOMING_MESSAGE_SIZE_def Let_def)
  from this direct_update_gated [OF this] show ?thesis by blast
qed

text \<open>Two copies of one update, the second received while the first is in its callback: the callback gets both. A third
  copy, after the first one is completed, is refused.\<close>

definition overlapping_copies :: "(env \<times> net_action) list" where
  "overlapping_copies = [(sample_env, Update sample_peer sample_update), (sample_env, Update sample_peer sample_update),
     (sample_env, CallbackEnds 0), (sample_env, Update sample_peer sample_update)]"

lemma overlapping_copies_delivered:
  "snd (run net_step (network_init open_community) overlapping_copies) =
     [ModelCallback (update_delivery sample_update), ModelCallback (update_delivery sample_update)]"
  by (simp add: overlapping_copies_def network_init_def begin_model_update_def finish_model_update_def gate_defs last_round_of_def
      dict_get_def open_community_def sample_defs sample_update_def MAX_INCOMING_MESSAGE_SIZE_def Let_def record_round_def
      persist_last_seen_def touch_peer_def emit_dropped_def)

theorem replay_protection_witness:
  "sorted_wrt not_replayed [Completed ''aa'' (-1), TakenUp ''aa'' 1, TakenUp ''aa'' 1, Completed ''aa'' 1]"
  using replay_protection [of "''aa''" "network_init open_community" overlapping_copies]
  by (simp add: overlapping_copies_def network_init_def begin_model_update_def finish_model_update_def gate_defs last_round_of_def
      dict_get_def open_community_def sample_defs sample_update_def MAX_INCOMING_MESSAGE_SIZE_def Let_def record_round_def
      persist_last_seen_def touch_peer_def emit_dropped_def taken_up_def)

lemma persisted_round:
  assumes "Persist d \<in> set (snd (on_model_update e peer p st))"
  shows "mu_round_number p \<le> dict_get d (pr_mid peer) (-1)"
proof -
  have none: "Persist d \<notin> set (emit_dropped st a b c sv tr dt)" for a b c sv tr dt
    using emit_dropped_only_emits by (fastforce simp: is_emit_def)
  have rej: "Persist d \<notin> set effs" if "update_gate e peer p st = Reject effs" for effs
    using that none by (auto simp: gate_defs split: option.splits if_splits sum.splits)
  let ?st = "record_round (pr_mid peer) (mu_round_number p) (touch_peer (e_now e) (mu_sender_id p) st)"
  have "d = cm_last_seen_round ?st"
    using assms rej none
    by (cases "update_gate e peer p st")
      (auto simp: on_model_update_eq persist_last_seen_def Let_def split: if_splits)
  then show ?thesis
    using last_round_record [of "pr_mid peer" "mu_round_number p" "touch_peer (e_now e) (mu_sender_id p) st" "pr_mid peer"]
    by (simp add: last_round_of_def)
qed

lemma load_reload:
  assumes "cm_last_seen_round_state_path st0 \<noteq> []"
  shows "last_round_of (load_last_seen (Some (json_reload d)) st0) k = dict_get d k (-1)"
proof -
  have keys: "distinct (map fst (json_reload d))"
    by (simp add: json_reload_def comp_def)
  have vals: "\<forall>k v. (k, v) \<in> set (json_reload d) \<longrightarrow> v \<noteq> None"
    by (auto simp: json_reload_def weak_map_of_SomeI)
  have "map_of d k = None" if "k \<notin> fst ` set d" using that by (simp add: map_of_eq_None_iff)
  then show ?thesis
    using assms fold_load [OF keys vals, of "[]" k]
    by (auto simp: load_last_seen_def last_round_of_def dict_get_def json_reload_map split: if_splits)
qed

text \<open>What a node writes to its state file after an update protects it after a restart: a node that
  loads the file rejects every update from that transport peer for the same or an earlier round.\<close>

theorem replay_state_survives_restart:
  assumes "Persist d \<in> set (snd (on_model_update e peer p st))"
    and "cm_last_seen_round_state_path st0 \<noteq> []"
    and "pr_mid peer' = pr_mid peer" and "mu_round_number p' \<le> mu_round_number p"
  shows "\<exists>effs. on_model_update e' peer' p' (load_last_seen (Some (json_reload d)) st0)
      = (load_last_seen (Some (json_reload d)) st0, effs)
    \<and> \<not> (\<exists>m. ModelCallback m \<in> set effs)"
proof -
  let ?st = "load_last_seen (Some (json_reload d)) st0"
  have "mu_round_number p' \<le> last_round_of ?st (pr_mid peer')"
    using persisted_round [OF assms(1)] load_reload [OF assms(2), of d "pr_mid peer'"] assms(3,4) by simp
  then have "update_gate e' peer' p' ?st \<noteq> Accept"
    using update_gate_accept [of e' peer' p' ?st] by auto
  then obtain effs where "update_gate e' peer' p' ?st = Reject effs"
    by (cases "update_gate e' peer' p' ?st") auto
  then show ?thesis
    using gate_reject_silent by (auto simp: on_model_update_eq)
qed

definition persistent_community :: community where
  "persistent_community = open_community\<lparr>cm_last_seen_round_state_path := ''f''\<rparr>"

theorem replay_state_survives_restart_witness:
  "\<exists>effs. on_model_update sample_env sample_peer sample_update
      (load_last_seen (Some (json_reload [(''aa'', 1)])) persistent_community)
      = (load_last_seen (Some (json_reload [(''aa'', 1)])) persistent_community, effs)
    \<and> \<not> (\<exists>m. ModelCallback m \<in> set effs)"
proof (rule replay_state_survives_restart)
  show "Persist [(''aa'', 1)] \<in> set (snd (on_model_update sample_env sample_peer sample_update persistent_community))"
    by (simp add: on_model_update_eq gate_defs last_round_of_def dict_get_def persistent_community_def
        open_community_def sample_defs sample_update_def MAX_INCOMING_MESSAGE_SIZE_def Let_def
        persist_last_seen_def record_round_def touch_peer_def)
qed (simp_all add: persistent_community_def)

end
