(* ===== verification/Transfer_End_To_End.thy ===== *)
theory Transfer_End_To_End
  imports Community_Machine
begin

text \<open>
  Sender and receiver together: the chunks one side signs and sends are what the other side accepts
  and reassembles, the acknowledgements come back as sets of chunks, and a missing-chunk report is
  answered with the chunks it names.
\<close>

section \<open>The signature scheme\<close>

text \<open>What the protocol relies on: the peer's public key accepts what the sender's key signs, and both
  sides compute the same digest.\<close>

definition key_pair :: "crypto \<Rightarrow> crypto \<Rightarrow> bytes \<Rightarrow> bool" where
  "key_pair signer verifier public_key \<longleftrightarrow> sha256 verifier = sha256 signer
     \<and> (\<forall>m. sign_key signer m \<noteq> [] \<and> verify_key verifier public_key (sign_key signer m) m = Some True)"

lemma sign_verify:
  assumes "key_pair cs cr pk" and "chunk_sign cs sid r sch i d m = ok sig"
  shows "sig \<noteq> [] \<and> chunk_verify cr pk sig sid r sch i d m = ok True"
proof -
  obtain msg where msg: "chunk_sign_data cs sid r sch i d m = ok msg" and sig: "sig = sign_key cs msg"
    using assms(2) by (auto simp: chunk_sign_def result_bind_eq_ok)
  have "chunk_sign_data cr sid r sch i d m = ok msg"
    using assms(1) msg by (simp add: key_pair_def chunk_sign_data_def)
  then show ?thesis
    using assms(1) sig by (simp add: key_pair_def chunk_verify_def)
qed

lemma chunk_sign_total:
  assumes "u32 r" "u32 i" "u32 (cm_total_chunks m)" "u32 (cm_sample_count m)" "u32 (cm_timestamp m)"
  shows "\<exists>sig. chunk_sign cr sid r sch i d m = ok sig"
  using assms by (simp add: chunk_sign_def chunk_sign_data_def pack_u32_def pack_be_def u32_def)

section \<open>The chunks of a transfer\<close>

definition chunk_messages :: "effect list \<Rightarrow> model_chunk list" where
  "chunk_messages effs = concat (map (\<lambda>e. case e of Send q (MsgChunk p) \<Rightarrow> [p] | _ \<Rightarrow> []) effs)"

definition transfer_ok :: "outgoing_transfer \<Rightarrow> bool" where
  "transfer_ok t \<longleftrightarrow> ot_total_chunks t = total_chunks_of (ot_weights_bytes t) \<and> ot_weights_bytes t \<noteq> []
     \<and> int (length (ot_weights_bytes t)) \<le> MAX_INCOMING_MESSAGE_SIZE
     \<and> u32 (ot_round_number t) \<and> u32 (ot_sample_count t) \<and> u32 (ot_timestamp t) \<and> ot_timestamp t \<noteq> 0"

lemma total_chunks_slices: "total_chunks_of w = int (length (slices CHUNK_SIZE w))"
  by (simp add: total_chunks_of_def length_slices CHUNK_SIZE_def zdiv_int)

lemma total_chunks_bound:
  "int (length w) \<le> MAX_INCOMING_MESSAGE_SIZE \<Longrightarrow> total_chunks_of w \<le> MAX_CHUNKS_PER_TRANSFER"
  by (simp add: total_chunks_of_def CHUNK_SIZE_def MAX_INCOMING_MESSAGE_SIZE_def MAX_CHUNKS_PER_TRANSFER_def)

text \<open>The message of one chunk; the receiver's gates accept it.\<close>

definition sent_chunk :: "env \<Rightarrow> int \<Rightarrow> outgoing_transfer \<Rightarrow> community \<Rightarrow> model_chunk" where
  "sent_chunk e i t st = hd (chunk_messages (send_transfer_chunk e i t st))"

definition transfer_meta :: "outgoing_transfer \<Rightarrow> chunk_meta" where
  "transfer_meta t = \<lparr>cm_sample_count = ot_sample_count t, cm_loss = ot_loss t, cm_accuracy = ot_accuracy t,
     cm_timestamp = ot_timestamp t, cm_total_chunks = ot_total_chunks t\<rparr>"

definition transfer_chunk :: "int \<Rightarrow> outgoing_transfer \<Rightarrow> community \<Rightarrow> bytes \<Rightarrow> model_chunk" where
  "transfer_chunk i t st sig =
     \<lparr>mc_transfer_id = ot_transfer_id t, mc_chunk_index = i, mc_total_chunks = ot_total_chunks t,
      mc_sender_id = cm_node_id st, mc_data_schema_hash = cm_data_schema_hash st,
      mc_round_number = ot_round_number t, mc_sample_count = ot_sample_count t, mc_loss = ot_loss t,
      mc_accuracy = ot_accuracy t, mc_timestamp = ot_timestamp t,
      mc_chunk_data = slice CHUNK_SIZE (ot_weights_bytes t) (nat i), mc_signature = sig\<rparr>"

lemma send_transfer_chunk_ok:
  assumes "transfer_ok t" and "0 \<le> i" and "i < ot_total_chunks t"
  obtains sig where
    "chunk_sign (e_crypto e) (cm_node_id st) (ot_round_number t) (cm_data_schema_hash st) i
       (slice CHUNK_SIZE (ot_weights_bytes t) (nat i)) (transfer_meta t) = ok sig"
    "send_transfer_chunk e i t st = [Send (ot_peer t) (MsgChunk (transfer_chunk i t st sig))]"
proof -
  have "ot_total_chunks t \<le> MAX_CHUNKS_PER_TRANSFER"
    using assms(1) total_chunks_bound by (simp add: transfer_ok_def)
  then have "u32 i" "u32 (ot_total_chunks t)"
    using assms(2,3) by (simp_all add: u32_def MAX_CHUNKS_PER_TRANSFER_def)
  then have "\<exists>sig. chunk_sign (e_crypto e) (cm_node_id st) (ot_round_number t) (cm_data_schema_hash st) i
       (slice CHUNK_SIZE (ot_weights_bytes t) (nat i)) (transfer_meta t) = ok sig"
    using assms(1) by (intro chunk_sign_total) (simp_all add: transfer_meta_def transfer_ok_def)
  then obtain sig where sig: "chunk_sign (e_crypto e) (cm_node_id st) (ot_round_number t) (cm_data_schema_hash st) i
       (slice CHUNK_SIZE (ot_weights_bytes t) (nat i)) (transfer_meta t) = ok sig" ..
  have "timestamp_or_now (ot_timestamp t) (e_now e) = ot_timestamp t"
    using assms(1) by (simp add: timestamp_or_now_def transfer_ok_def)
  with sig [unfolded transfer_meta_def]
  have "send_transfer_chunk e i t st = [Send (ot_peer t) (MsgChunk (transfer_chunk i t st sig))]"
    by (simp add: send_transfer_chunk_def send_model_chunk_def transfer_chunk_def Let_def)
  with sig show ?thesis by (rule that)
qed

lemma sent_chunk_record:
  assumes "transfer_ok t" and "0 \<le> i" and "i < ot_total_chunks t"
  obtains sig where
    "chunk_sign (e_crypto e) (cm_node_id st) (ot_round_number t) (cm_data_schema_hash st) i
       (slice CHUNK_SIZE (ot_weights_bytes t) (nat i)) (transfer_meta t) = ok sig"
    "sent_chunk e i t st = transfer_chunk i t st sig"
    "chunk_messages (send_transfer_chunk e i t st) = [sent_chunk e i t st]"
proof -
  obtain sig where "chunk_sign (e_crypto e) (cm_node_id st) (ot_round_number t) (cm_data_schema_hash st) i
       (slice CHUNK_SIZE (ot_weights_bytes t) (nat i)) (transfer_meta t) = ok sig"
    "send_transfer_chunk e i t st = [Send (ot_peer t) (MsgChunk (transfer_chunk i t st sig))]"
    by (rule send_transfer_chunk_ok [OF assms])
  then show ?thesis by (intro that) (simp_all add: sent_chunk_def chunk_messages_def)
qed

lemma sent_chunk_fits:
  assumes "transfer_ok t" and "0 \<le> i" and "i < ot_total_chunks t"
  shows "fits (slices CHUNK_SIZE (ot_weights_bytes t)) (sent_chunk e 0 t st) (sent_chunk e i t st)"
    and "wire_chunk (sent_chunk e i t st)"
    and "mc_chunk_index (sent_chunk e i t st) = i"
proof -
  let ?w = "ot_weights_bytes t"
  have tot: "ot_total_chunks t = int (length (slices CHUNK_SIZE ?w))"
    using assms(1) total_chunks_slices by (simp add: transfer_ok_def)
  have le: "ot_total_chunks t \<le> MAX_CHUNKS_PER_TRANSFER"
    using assms(1) total_chunks_bound by (simp add: transfer_ok_def)
  have zero: "0 < ot_total_chunks t" using assms(2,3) by simp
  obtain sig where s: "sent_chunk e i t st = transfer_chunk i t st sig"
    by (rule sent_chunk_record [OF assms])
  obtain sig0 where s0: "sent_chunk e 0 t st = transfer_chunk 0 t st sig0"
    by (rule sent_chunk_record [OF assms(1) order_refl zero])
  show "mc_chunk_index (sent_chunk e i t st) = i"
    by (simp add: s transfer_chunk_def)
  show "wire_chunk (sent_chunk e i t st)"
    using assms le
    by (simp add: s transfer_chunk_def wire_chunk_def u32_def transfer_ok_def MAX_CHUNKS_PER_TRANSFER_def)
  have "nat i < length (slices CHUNK_SIZE ?w)" using assms(2,3) tot by simp
  then show "fits (slices CHUNK_SIZE ?w) (sent_chunk e 0 t st) (sent_chunk e i t st)"
    using assms(2,3) tot nth_slices [of "nat i" CHUNK_SIZE ?w]
    by (simp add: s s0 transfer_chunk_def fits_def)
qed

section \<open>From model to model\<close>

definition accepting :: "env \<Rightarrow> ipv8_peer \<Rightarrow> env \<Rightarrow> outgoing_transfer \<Rightarrow> community \<Rightarrow> community \<Rightarrow> bool" where
  "accepting er peer es t ss st \<longleftrightarrow> key_pair (e_crypto es) (e_crypto er) (pr_public_key peer)
     \<and> identity_mismatch st peer (cm_node_id ss) = None
     \<and> ot_round_number t \<le> e_local_round er + cm_max_round_skip st
     \<and> e_deserializes er (ot_weights_bytes t) \<and> cm_has_update_callback st"

lemma sent_chunk_arrives:
  assumes "transfer_ok t" "0 \<le> i" "i < ot_total_chunks t" and "accepting er peer es t ss st"
  shows "arrives (slices CHUNK_SIZE (ot_weights_bytes t)) (sent_chunk es 0 t ss) peer st (er, sent_chunk es i t ss)"
proof -
  obtain sig where sig: "chunk_sign (e_crypto es) (cm_node_id ss) (ot_round_number t) (cm_data_schema_hash ss) i
       (slice CHUNK_SIZE (ot_weights_bytes t) (nat i)) (transfer_meta t) = ok sig"
    and s: "sent_chunk es i t ss = transfer_chunk i t ss sig"
    by (rule sent_chunk_record [OF assms(1-3)])
  have "sig \<noteq> [] \<and> chunk_verify (e_crypto er) (pr_public_key peer) sig (cm_node_id ss) (ot_round_number t)
      (cm_data_schema_hash ss) i (slice CHUNK_SIZE (ot_weights_bytes t) (nat i)) (transfer_meta t) = ok True"
    using assms(4) by (intro sign_verify [OF _ sig]) (simp add: accepting_def)
  then have "chunk_authenticate er peer (sent_chunk es i t ss) st = Accept"
    unfolding authenticate_accept using assms(4)
    by (simp add: s transfer_chunk_def accepting_def chunk_payload_meta_def transfer_meta_def)
  then show ?thesis
    using sent_chunk_fits [OF assms(1-3), of es ss] assms(4)
    by (simp add: arrives_def accepting_def s transfer_chunk_def CHUNK_SIZE_def)
qed

definition transfer_delivery :: "outgoing_transfer \<Rightarrow> community \<Rightarrow> model_delivery" where
  "transfer_delivery t ss = \<lparr>md_sender_id = cm_node_id ss, md_weights = ot_weights_bytes t,
     md_sample_count = ot_sample_count t, md_round_number = ot_round_number t,
     md_loss = ot_loss t, md_accuracy = ot_accuracy t\<rparr>"

lemma sent_messages:
  assumes "transfer_ok t" and "\<forall>i \<in> set js. 0 \<le> i \<and> i < ot_total_chunks t"
  shows "chunk_messages (concat (map (\<lambda>i. send_transfer_chunk e i t ss) js)) = map (\<lambda>i. sent_chunk e i t ss) js"
  using assms(2)
proof (induction js)
  case (Cons i js)
  then have i: "0 \<le> i" "i < ot_total_chunks t" by simp_all
  have "chunk_messages (send_transfer_chunk e i t ss) = [sent_chunk e i t ss]"
    by (rule sent_chunk_record [OF assms(1) i])
  then show ?case using Cons by (simp add: chunk_messages_def)
qed (simp add: chunk_messages_def)

text \<open>C1: A model cut into chunks, signed and sent by one node, is delivered to the receiving node's
  callback exactly once and octet for octet if every chunk arrives at least once, in any order and
  with any repetitions, and is not delivered at all while a chunk is missing. The receiver has room
  and accepts the sender, and a signature of the sender verifies under its public key.\<close>

theorem chunked_model_end_to_end:
  assumes "transfer_ok t" and "set js \<subseteq> {0..<ot_total_chunks t}"
    and "accepting er peer es t ss st" and "receiver_inv st" and "room peer st"
    and "fresh_transfer peer (ot_transfer_id t) st"
  shows "deliveries (snd (receive_all peer (map (Pair er)
      (chunk_messages (concat (map (\<lambda>i. send_transfer_chunk es i t ss) js)))) st)) =
    (if set js = {0..<ot_total_chunks t} then [transfer_delivery t ss] else [])"
proof -
  let ?parts = "slices CHUNK_SIZE (ot_weights_bytes t)" and ?h = "sent_chunk es 0 t ss"
  let ?eps = "map (Pair er) (map (\<lambda>i. sent_chunk es i t ss) js)"
  have tot: "ot_total_chunks t = int (length ?parts)" and k: "0 < CHUNK_SIZE"
    using assms(1) total_chunks_slices by (simp_all add: transfer_ok_def CHUNK_SIZE_def)
  have "?parts \<noteq> []"
    using slices_nonempty [OF k] assms(1) by (simp add: transfer_ok_def)
  then have pos: "0 < ot_total_chunks t" using tot by simp
  obtain sig where h: "?h = transfer_chunk 0 t ss sig"
    by (rule sent_chunk_record [OF assms(1) order_refl pos])
  have "arrives ?parts ?h peer st (er, sent_chunk es i t ss)" if "i \<in> set js" for i
    using that assms(2) by (intro sent_chunk_arrives [OF assms(1) _ _ assms(3)]) auto
  then have arr: "list_all (arrives ?parts ?h peer st) ?eps"
    by (simp add: list_all_iff)
  have fit: "transfer_fits ?parts"
    using assms(1) total_chunks_bound \<open>?parts \<noteq> []\<close> tot k by (auto simp: transfer_fits_def transfer_ok_def)
  have idx: "mc_chunk_index (sent_chunk es i t ss) = i" if "i \<in> set js" for i
    using that assms(2) by (intro sent_chunk_fits(3) [OF assms(1)]) auto
  have "received ?eps = (\<lambda>i. nat (mc_chunk_index (sent_chunk es i t ss))) ` set js"
    by (simp add: received_def image_image)
  also have "\<dots> = nat ` set js"
    by (rule image_cong) (simp_all add: idx)
  finally have "received ?eps = nat ` set js" .
  moreover have "nat ` set js = {..<length ?parts} \<longleftrightarrow> set js = {0..<ot_total_chunks t}"
  proof -
    have "int ` nat ` set js = set js"
      using assms(2) by (force simp: image_iff)
    moreover have "int ` {..<length ?parts} = {0..<ot_total_chunks t}"
      using image_int_atLeastLessThan [of 0 "length ?parts"] tot by (simp add: lessThan_atLeast0)
    ultimately show ?thesis by (metis image_inv_f_f inj_of_nat inj_image_eq_iff)
  qed
  moreover have "expected_delivery ?parts ?h = transfer_delivery t ss"
    using k by (simp add: h expected_delivery_def transfer_delivery_def transfer_chunk_def)
  moreover have "fresh_transfer peer (mc_transfer_id ?h) st"
    using assms(6) by (simp add: h transfer_chunk_def)
  moreover have "cm_has_update_callback st" using assms(3) by (simp add: accepting_def)
  ultimately have "deliveries (snd (receive_all peer ?eps st)) =
      (if set js = {0..<ot_total_chunks t} then [transfer_delivery t ss] else [])"
    using receive_all_delivers [OF assms(4,5) _ fit _ arr] by simp
  moreover have "chunk_messages (concat (map (\<lambda>i. send_transfer_chunk es i t ss) js)) =
      map (\<lambda>i. sent_chunk es i t ss) js"
    using assms(2) by (intro sent_messages [OF assms(1)]) auto
  ultimately show ?thesis by simp
qed

definition big_transfer :: outgoing_transfer where
  "big_transfer = new_transfer ''t'' ''n'' sample_peer (replicate 800 7) 3 1 0 0 50 (''n'', 1, ''h'')"

lemma big_transfer_facts:
  "transfer_ok big_transfer" "ot_total_chunks big_transfer = 2" "ot_transfer_id big_transfer = ''t''"
  "accepting sample_env sample_peer sample_env big_transfer (sample_community\<lparr>cm_node_id := ''b''\<rparr>) open_community"
  by (simp_all add: transfer_ok_def big_transfer_def new_transfer_def total_chunks_of_def CHUNK_SIZE_def
      u32_def MAX_INCOMING_MESSAGE_SIZE_def py_int_def accepting_def key_pair_def identity_mismatch_def
      open_community_def sample_defs)

theorem chunked_model_end_to_end_witness:
  "deliveries (snd (receive_all sample_peer (map (Pair sample_env)
      (chunk_messages (concat (map (\<lambda>i. send_transfer_chunk sample_env i big_transfer
         (sample_community\<lparr>cm_node_id := ''b''\<rparr>)) [1, 0, 1])))) open_community)) =
    [transfer_delivery big_transfer (sample_community\<lparr>cm_node_id := ''b''\<rparr>)]"
proof -
  have "set [1, 0, 1 :: int] = {0..<ot_total_chunks big_transfer}"
    by (auto simp: big_transfer_facts)
  then show ?thesis
    using chunked_model_end_to_end [OF big_transfer_facts(1) _ big_transfer_facts(4)
        open_community_fresh(1,2) open_community_fresh(3), of "[1, 0, 1]"]
    by auto
qed

section \<open>Acknowledgements\<close>

text \<open>An acknowledgement that lists received chunks, sent by the receiver and handled by the sender
  of a running transfer, makes the sender count exactly those chunks as acknowledged in addition.\<close>

theorem ack_round_trip:
  assumes "map_of (cm_active_outgoing_transfers ss) tid = Some t"
    and "key_pair (e_crypto er) (e_crypto es) (pr_public_key peer)"
    and "pr_mid peer = ot_recipient_mid t" and "cm_node_id st = ot_target_node_id t"
    and "set js \<subseteq> {0..<ot_total_chunks t}" and "ot_total_chunks t \<le> MAX_CHUNKS_PER_TRANSFER"
    and "js \<noteq> []" and "u32 r"
  shows "\<exists>ack. send_chunk_ack_ranges er q tid sch r (ot_total_chunks t) js st = [Send q (MsgAck ack)]
    \<and> on_chunk_ack es peer ack ss = (ss\<lparr>cm_active_outgoing_transfers :=
        AList.update tid (apply_ack (set js) t) (cm_active_outgoing_transfers ss)\<rparr>, [])"
proof -
  have js: "list_all u32 js" and tot: "u32 (ot_total_chunks t)"
    using assms(5,6,7) by (auto simp: list_all_iff u32_def MAX_CHUNKS_PER_TRANSFER_def neq_Nil_conv)
  let ?m = "default_meta\<lparr>cm_total_chunks := ot_total_chunks t\<rparr>"
  have no_raise: "\<not> list_ex is_raised (send_chunk_ack_ranges er q tid sch r (ot_total_chunks t) js st)"
    by (rule ack_ranges_no_raise [OF js assms(8) tot])
  obtain bs where bs: "pack_chunk_ranges js = ok bs"
    using no_raise by (cases "pack_chunk_ranges js") (simp_all add: send_chunk_ack_ranges_def)
  obtain sig where sig: "chunk_sign (e_crypto er) (cm_node_id st) r sch 0 bs ?m = ok sig"
    using no_raise bs by (cases "chunk_sign (e_crypto er) (cm_node_id st) r sch 0 bs ?m")
      (simp_all add: send_chunk_ack_ranges_def)
  have ver: "sig \<noteq> [] \<and> chunk_verify (e_crypto es) (pr_public_key peer) sig (cm_node_id st) r sch 0 bs ?m = ok True"
    by (rule sign_verify [OF assms(2) sig])
  have "list_all (\<lambda>(s, e). s \<le> e \<and> e < ot_total_chunks t) (chunk_index_ranges js)"
    using chunk_ranges_in_set assms(5) by (fastforce simp: list_all_iff)
  then have unp: "unpack_chunk_ranges bs (Some (ot_total_chunks t)) = ok (set js)"
    using unpack_pack_ranges [of "chunk_index_ranges js" bs "Some (ot_total_chunks t)" "{}"]
      pack_ranges_length [of "chunk_index_ranges js" bs] bs chunk_index_ranges_union [of js]
    by (simp add: pack_chunk_ranges_def unpack_chunk_ranges_def)
  let ?ack = "\<lparr>ca_transfer_id = tid, ca_sender_id = cm_node_id st, ca_data_schema_hash = sch,
     ca_round_number = r, ca_total_chunks = ot_total_chunks t, ca_sack_ranges = bs, ca_signature = sig\<rparr>"
  have "send_chunk_ack_ranges er q tid sch r (ot_total_chunks t) js st = [Send q (MsgAck ?ack)]"
    by (simp add: send_chunk_ack_ranges_def bs sig)
  moreover have "on_chunk_ack es peer ?ack ss = (ss\<lparr>cm_active_outgoing_transfers :=
        AList.update tid (apply_ack (set js) t) (cm_active_outgoing_transfers ss)\<rparr>, [])"
    using assms(1,3,4) ver unp by (simp add: on_chunk_ack_def)
  ultimately show ?thesis by blast
qed

theorem ack_round_trip_witness:
  "\<exists>ack. send_chunk_ack_ranges sample_env sample_peer ''t'' ''s'' 1 1 [0] (sample_community\<lparr>cm_node_id := ''b''\<rparr>)
       = [Send sample_peer (MsgAck ack)]
    \<and> on_chunk_ack sample_env sample_peer ack sending_community =
        (sending_community\<lparr>cm_active_outgoing_transfers := [(''t'', apply_ack {0} sample_transfer)]\<rparr>, [])"
proof -
  have t: "map_of (cm_active_outgoing_transfers sending_community) ''t'' = Some sample_transfer"
    "ot_total_chunks sample_transfer = 1" "pr_mid sample_peer = ot_recipient_mid sample_transfer"
    "cm_node_id (sample_community\<lparr>cm_node_id := ''b''\<rparr>) = ot_target_node_id sample_transfer"
    by (simp_all add: sample_transfer_defs)
  have kp: "key_pair (e_crypto sample_env) (e_crypto sample_env) (pr_public_key sample_peer)"
    by (simp add: key_pair_def sample_defs)
  from ack_round_trip [OF t(1) kp t(3,4), of "[0]" 1 sample_peer "''s''"] show ?thesis
    by (simp add: t(2) u32_def MAX_CHUNKS_PER_TRANSFER_def sending_community_def)
qed

section \<open>Missing-chunk reports\<close>

lemma pack_native_total:
  "list_all u32 js \<Longrightarrow> \<exists>bs. pack_native en js = ok bs"
  by (induction js) (auto simp: pack_u32_def pack_be_def u32_def)

lemma nack_indices_all:
  "length js \<le> CHUNK_MAX_NACK_INDICES \<Longrightarrow> list_all (\<lambda>i. i < n) js \<Longrightarrow> nack_indices n js = js"
  by (simp add: nack_indices_def list_all_iff filter_id_conv)

lemma resend_chunks_cong:
  assumes "cm_node_id st' = cm_node_id st" and "cm_data_schema_hash st' = cm_data_schema_hash st"
  shows "resend_chunks e peer tid d js st' = resend_chunks e peer tid d js st"
proof (induction js)
  case (Cons i js)
  have "send_model_chunk e peer tid w i n c r l a ts st' = send_model_chunk e peer tid w i n c r l a ts st"
    for w n c r l a ts
    unfolding send_model_chunk_def assms ..
  then show ?case by (simp only: resend_chunks.simps Cons.IH)
qed simp

lemma report_sent:
  assumes "send_missing_chunks_report er q b f st = (True, b', st', effs)"
  obtains bs where "take CHUNK_MAX_NACK_INDICES (missing_chunks b) \<noteq> []"
    "pack_native (e_endian er) (take CHUNK_MAX_NACK_INDICES (missing_chunks b)) = ok bs"
    "effs = [Send q (MsgRequest \<lparr>rc_transfer_id = cb_transfer_id b, rc_sender_id = cm_node_id st,
       rc_missing_indices_bytes = bs\<rparr>)]"
  using assms by (auto simp: send_missing_chunks_report_def Let_def split: if_splits sum.splits)

text \<open>A missing-chunk report, handled by the node that keeps the model in its retry cache after the
  send loop has ended and whose NACK budgets admit it, is answered with exactly the chunks reported
  missing (at most \<open>CHUNK_MAX_NACK_INDICES\<close> of them), in order; both hosts have the same byte order.\<close>

lemma nack_round_trip:
  assumes "send_missing_chunks_report er q b f st = (True, b', st', effs)"
    and "0 \<le> cb_total_chunks b" and "cb_total_chunks b = total_chunks_of (oe_weights d)"
    and "map_of (cm_outgoing_transfers ss) (cb_transfer_id b) = Some d"
    and "oe_recipient_mid d = pr_mid peer"
    and "map_of (cm_active_outgoing_transfers ss) (cb_transfer_id b) = None"
    and "fst (nack_try_consume_transfer (cb_transfer_id b) (e_now es) (cm_nack_transfer_buckets ss))"
    and "fst (nack_try_consume (pr_mid peer) (e_now es) (cm_nack_buckets ss))"
    and "e_endian es = e_endian er"
  shows "\<exists>req. effs = [Send q (MsgRequest req)]
    \<and> snd (on_request_chunks es peer req ss) =
        resend_chunks es peer (cb_transfer_id b) d (take CHUNK_MAX_NACK_INDICES (missing_chunks b)) ss"
proof -
  let ?js = "take CHUNK_MAX_NACK_INDICES (missing_chunks b)"
  from assms(1) obtain bs where ne: "?js \<noteq> []" and pack: "pack_native (e_endian er) ?js = ok bs"
    and effs: "effs = [Send q (MsgRequest \<lparr>rc_transfer_id = cb_transfer_id b, rc_sender_id = cm_node_id st,
       rc_missing_indices_bytes = bs\<rparr>)]" by (rule report_sent)
  let ?req = "\<lparr>rc_transfer_id = cb_transfer_id b, rc_sender_id = cm_node_id st, rc_missing_indices_bytes = bs\<rparr>"
  have unp: "unpack_native (e_endian es) bs = ok ?js" and len: "length bs = 4 * length ?js"
    using pack_native_ok [OF pack] assms(9) by simp_all
  have idx: "nack_indices (total_chunks_of (oe_weights d)) ?js = ?js"
    using assms(3) by (intro nack_indices_all)
      (auto simp: list_all_iff missing_chunks_def dest: in_set_takeD)
  define s1 where "s1 = ss\<lparr>cm_metrics := (cm_metrics ss)\<lparr>nacks_received := nacks_received (cm_metrics ss) + 1\<rparr>\<rparr>"
  obtain tb pb where tb: "nack_try_consume_transfer (cb_transfer_id b) (e_now es) (cm_nack_transfer_buckets ss) = (True, tb)"
    and pb: "nack_try_consume (pr_mid peer) (e_now es) (cm_nack_buckets ss) = (True, pb)"
    using assms(7,8) by (metis (full_types) prod.collapse)
  define s2 where "s2 = s1\<lparr>cm_nack_transfer_buckets := tb, cm_nack_buckets := pb\<rparr>"
  have "nack_admission es peer ?req s1 = (s2, Accept)"
    using tb pb by (simp add: nack_admission_def s1_def s2_def Let_def)
  moreover have "snd (serve_nack es peer ?req d s2) = resend_chunks es peer (cb_transfer_id b) d ?js s2"
    using ne len unp idx assms(6) by (auto simp: serve_nack_def Let_def s1_def s2_def)
  moreover have "resend_chunks es peer (cb_transfer_id b) d ?js s2 = resend_chunks es peer (cb_transfer_id b) d ?js ss"
    by (rule resend_chunks_cong) (simp_all add: s1_def s2_def)
  ultimately have "snd (on_request_chunks es peer ?req ss) = resend_chunks es peer (cb_transfer_id b) d ?js ss"
    unfolding on_request_chunks_def Let_def s1_def [symmetric]
    using assms(4,5,6) by (simp add: s1_def)
  with effs show ?thesis by blast
qed

definition half_buffer :: chunk_buffer where
  "half_buffer = (new_buffer sample_env (sample_chunk 1 [8]))\<lparr>cb_chunks := [(1, [8])]\<rparr>"

definition cached_model :: outgoing_entry where
  "cached_model = \<lparr>oe_weights = replicate 800 7, oe_loss = 0, oe_accuracy = 0, oe_round = 1, oe_samples = 3,
     oe_timestamp = 50, oe_recipient_mid = ''aa''\<rparr>"

definition caching_community :: community where
  "caching_community = sample_community\<lparr>cm_outgoing_transfers := [(''t'', cached_model)]\<rparr>"

end
