(* ===== verification/Manifest_Exchange.thy ===== *)
theory Manifest_Exchange
  imports Wire Reassembly Rate_Limits
begin

text \<open>
  \<open>network/manifest_exchange.py\<close>: the three payload classes of the manifest exchange
  (message ids 30 to 32), the splitting of a canonical manifest, the client-side
  \<open>ManifestAssembler\<close> and the server-side \<open>ManifestRegistry\<close>. The \<open>RateLimiter\<close> is in
  \<open>Rate_Limits\<close>. SHA-256 is an argument.
\<close>

section \<open>Constants and NACK reasons\<close>

definition CHUNK_DATA_SIZE :: nat where "CHUNK_DATA_SIZE = 1200"

datatype nack_reason = UNKNOWN_SWARM | RATE_LIMITED | TEMPORARY

fun nack_reason_value :: "nack_reason \<Rightarrow> string" where
  "nack_reason_value UNKNOWN_SWARM = ''UNKNOWN_SWARM''"
| "nack_reason_value RATE_LIMITED = ''RATE_LIMITED''"
| "nack_reason_value TEMPORARY = ''TEMPORARY''"

text \<open>\<open>NackReason(value)\<close>.\<close>

definition nack_reason_of :: "string \<Rightarrow> nack_reason result" where
  "nack_reason_of v =
     (if v = ''UNKNOWN_SWARM'' then ok UNKNOWN_SWARM
      else if v = ''RATE_LIMITED'' then ok RATE_LIMITED
      else if v = ''TEMPORARY'' then ok TEMPORARY
      else raise (ValueError ''invalid NACK reason''))"

lemma nack_reason_of_value [simp]: "nack_reason_of (nack_reason_value r) = ok r"
  by (cases r) (simp_all add: nack_reason_of_def)

section \<open>ManifestRequestPayload\<close>

record manifest_request =
  mr_swarm_id_hex :: string
  mr_request_nonce :: int

definition manifest_request_to_pack_list :: "manifest_request \<Rightarrow> pack_list" where
  "manifest_request_to_pack_list p =
     [(VarlenH, WBytes (encode (mr_swarm_id_hex p))), (FmtQ, WInt (mr_request_nonce p))]"

definition manifest_request_from_unpack_list :: "wire_val list \<Rightarrow> manifest_request result" where
  "manifest_request_from_unpack_list args =
     (if length args \<noteq> 2 then raise TypeError else
      result_bind (arg_str args 0) (\<lambda>swarm_id_hex.
      result_bind (arg_int args 1) (\<lambda>request_nonce.
        ok \<lparr>mr_swarm_id_hex = swarm_id_hex, mr_request_nonce = request_nonce\<rparr>)))"

interpretation manifest_req: codec "\<lambda>p. pack_values (manifest_request_to_pack_list p)"
  manifest_request_from_unpack_list "\<lambda>p. is_str (mr_swarm_id_hex p)"
  by unfold_locales
    (simp add: manifest_request_to_pack_list_def manifest_request_from_unpack_list_def
      payload_defs codec_simps)

section \<open>ManifestResponseChunkPayload\<close>

record manifest_chunk =
  mrc_swarm_id_hex :: string
  mrc_request_nonce :: int
  mrc_chunk_index :: int
  mrc_total_chunks :: int
  mrc_chunk_data :: bytes

text \<open>The constructor validates its arguments.\<close>

definition mk_manifest_chunk ::
    "string \<Rightarrow> int \<Rightarrow> int \<Rightarrow> int \<Rightarrow> bytes \<Rightarrow> manifest_chunk result" where
  "mk_manifest_chunk swarm_id_hex request_nonce chunk_index total_chunks chunk_data =
     (if chunk_index < 0 \<or> total_chunks \<le> 0 \<or> chunk_index \<ge> total_chunks
      then raise (ValueError ''invalid chunk indices'')
      else if length chunk_data > CHUNK_DATA_SIZE
      then raise (ValueError ''chunk_data too large'')
      else ok \<lparr>mrc_swarm_id_hex = swarm_id_hex, mrc_request_nonce = request_nonce,
               mrc_chunk_index = chunk_index, mrc_total_chunks = total_chunks,
               mrc_chunk_data = chunk_data\<rparr>)"

definition manifest_chunk_to_pack_list :: "manifest_chunk \<Rightarrow> pack_list" where
  "manifest_chunk_to_pack_list p =
     [(VarlenH, WBytes (encode (mrc_swarm_id_hex p))),
      (FmtQ, WInt (mrc_request_nonce p)),
      (FmtI, WInt (mrc_chunk_index p)),
      (FmtI, WInt (mrc_total_chunks p)),
      (VarlenH, WBytes (mrc_chunk_data p))]"

definition manifest_chunk_from_unpack_list :: "wire_val list \<Rightarrow> manifest_chunk result" where
  "manifest_chunk_from_unpack_list args =
     (if length args \<noteq> 5 then raise TypeError else
      result_bind (arg_str args 0) (\<lambda>swarm_id_hex.
      result_bind (arg_int args 1) (\<lambda>request_nonce.
      result_bind (arg_int args 2) (\<lambda>chunk_index.
      result_bind (arg_int args 3) (\<lambda>total_chunks.
      result_bind (arg_bytes args 4) (\<lambda>chunk_data.
        mk_manifest_chunk swarm_id_hex request_nonce chunk_index total_chunks chunk_data))))))"

definition manifest_chunk_valid :: "manifest_chunk \<Rightarrow> bool" where
  "manifest_chunk_valid p \<longleftrightarrow> is_str (mrc_swarm_id_hex p) \<and>
     mk_manifest_chunk (mrc_swarm_id_hex p) (mrc_request_nonce p) (mrc_chunk_index p)
       (mrc_total_chunks p) (mrc_chunk_data p) = ok p"

interpretation manifest_chk: codec "\<lambda>p. pack_values (manifest_chunk_to_pack_list p)"
  manifest_chunk_from_unpack_list manifest_chunk_valid
  by unfold_locales
    (simp add: manifest_chunk_to_pack_list_def manifest_chunk_from_unpack_list_def
      manifest_chunk_valid_def payload_defs codec_simps)

section \<open>ManifestResponseNackPayload\<close>

record manifest_nack =
  mn_swarm_id_hex :: string
  mn_request_nonce :: int
  mn_reason :: nack_reason

definition manifest_nack_to_pack_list :: "manifest_nack \<Rightarrow> pack_list" where
  "manifest_nack_to_pack_list p =
     [(VarlenH, WBytes (encode (mn_swarm_id_hex p))),
      (FmtQ, WInt (mn_request_nonce p)),
      (VarlenH, WBytes (encode (nack_reason_value (mn_reason p))))]"

definition manifest_nack_from_unpack_list :: "wire_val list \<Rightarrow> manifest_nack result" where
  "manifest_nack_from_unpack_list args =
     (if length args \<noteq> 3 then raise TypeError else
      result_bind (arg_str args 0) (\<lambda>swarm_id_hex.
      result_bind (arg_int args 1) (\<lambda>request_nonce.
      result_bind (arg_str args 2) (\<lambda>reason.
      result_bind (nack_reason_of reason) (\<lambda>r.
        ok \<lparr>mn_swarm_id_hex = swarm_id_hex, mn_request_nonce = request_nonce, mn_reason = r\<rparr>)))))"

lemma nack_reason_is_str [simp]: "is_str (nack_reason_value r)"
  by (cases r) (simp_all add: is_str_ascii)

interpretation manifest_nk: codec "\<lambda>p. pack_values (manifest_nack_to_pack_list p)"
  manifest_nack_from_unpack_list "\<lambda>p. is_str (mn_swarm_id_hex p)"
  by unfold_locales
    (simp add: manifest_nack_to_pack_list_def manifest_nack_from_unpack_list_def
      payload_defs codec_simps)

section \<open>Splitting a manifest\<close>

definition chunk_manifest_bytes :: "bytes \<Rightarrow> int \<Rightarrow> bytes list result" where
  "chunk_manifest_bytes canonical chunk_size =
     (if canonical = [] then raise (ValueError ''canonical manifest bytes must be non-empty'')
      else if chunk_size \<le> 0 then raise (ValueError ''chunk_size must be positive'')
      else ok (slices (nat chunk_size) canonical))"

section \<open>ManifestAssembler\<close>

record manifest_assembler =
  ma_swarm_id :: bytes
  ma_nonce :: int
  ma_total :: "int option"
  ma_chunks :: "(int, bytes) pydict"

definition assembler_init :: "bytes \<Rightarrow> int \<Rightarrow> manifest_assembler" where
  "assembler_init swarm_id nonce =
     \<lparr>ma_swarm_id = swarm_id, ma_nonce = nonce, ma_total = None, ma_chunks = []\<rparr>"

text \<open>\<open>add_chunk\<close> may have bound \<open>_total\<close> before it raises, so the state is returned beside the
  outcome.\<close>

definition assembler_add_chunk ::
    "int \<Rightarrow> int \<Rightarrow> bytes \<Rightarrow> manifest_assembler \<Rightarrow> manifest_assembler \<times> unit result" where
  "assembler_add_chunk index total_chunks data a =
     (if total_chunks \<le> 0 then (a, raise (ValueError ''total must be positive''))
      else if ma_total a \<noteq> None \<and> ma_total a \<noteq> Some total_chunks
      then (a, raise (ValueError ''ERR_WIRE_CHUNK_INCONSISTENT: total_chunks drifted mid-exchange''))
      else let a1 = a\<lparr>ma_total := Some total_chunks\<rparr> in
        if index < 0 \<or> index \<ge> total_chunks
        then (a1, raise (ValueError ''ERR_WIRE_CHUNK_INCONSISTENT: chunk_index out of range''))
        else if map_of (ma_chunks a1) index \<noteq> None \<and> map_of (ma_chunks a1) index \<noteq> Some data
        then (a1, raise (ValueError ''ERR_WIRE_CHUNK_INCONSISTENT: duplicate chunk with differing data''))
        else (a1\<lparr>ma_chunks := AList.update index data (ma_chunks a1)\<rparr>, ok ()))"

definition assembler_is_complete :: "manifest_assembler \<Rightarrow> bool" where
  "assembler_is_complete a \<longleftrightarrow>
     (case ma_total a of None \<Rightarrow> False | Some t \<Rightarrow> int (length (ma_chunks a)) = t)"

definition assemble_and_verify :: "(bytes \<Rightarrow> bytes) \<Rightarrow> manifest_assembler \<Rightarrow> bytes result" where
  "assemble_and_verify sha a =
     (if \<not> assembler_is_complete a
      then raise (ValueError ''ERR_WIRE_CHUNK_INCONSISTENT: assembly attempted before all chunks arrived'')
      else result_bind (gather (ma_chunks a) (case ma_total a of None \<Rightarrow> 0 | Some t \<Rightarrow> t)) (\<lambda>assembled.
        if sha assembled \<noteq> ma_swarm_id a then raise (ValueError ''ERR_MANIFEST_HASH_MISMATCH'')
        else ok assembled))"

text \<open>The error-free part of \<open>add_chunk\<close>, in the shape of the \<open>reassembler\<close> contract.\<close>

definition assembler_add :: "int \<Rightarrow> int \<Rightarrow> bytes \<Rightarrow> manifest_assembler \<Rightarrow> manifest_assembler result" where
  "assembler_add total_chunks index data a =
     (case assembler_add_chunk index total_chunks data a of
        (a', Inl e) \<Rightarrow> raise e
      | (a', Inr _) \<Rightarrow> ok a')"

definition assembler_expects ::
    "(bytes \<Rightarrow> bytes) \<Rightarrow> bytes list \<Rightarrow> manifest_assembler \<Rightarrow> bool" where
  "assembler_expects sha parts a \<longleftrightarrow> sha (concat parts) = ma_swarm_id a
     \<and> (if ma_chunks a = [] then ma_total a = None \<or> ma_total a = Some (int (length parts))
        else ma_total a = Some (int (length parts)))"

interpretation assembler: reassembler ma_chunks assembler_add "assembler_expects sha"
  assembler_is_complete "assemble_and_verify sha" for sha :: "bytes \<Rightarrow> bytes"
proof unfold_locales
  fix parts :: "bytes list" and a i
  assume ex: "assembler_expects sha parts a" and i: "i < length parts"
    and old: "map_of (ma_chunks a) (int i) \<in> {None, Some (parts ! i)}"
  have tot: "ma_total a \<in> {None, Some (int (length parts))}"
    using ex by (simp add: assembler_expects_def split: if_splits)
  let ?a = "a\<lparr>ma_total := Some (int (length parts)),
    ma_chunks := AList.update (int i) (parts ! i) (ma_chunks a)\<rparr>"
  have "assembler_add (int (length parts)) (int i) (parts ! i) a = ok ?a"
    using i old tot by (auto simp: assembler_add_def assembler_add_chunk_def)
  moreover have "assembler_expects sha parts ?a"
    using ex by (simp add: assembler_expects_def)
  ultimately show "\<exists>b'. assembler_add (int (length parts)) (int i) (parts ! i) a = ok b'
      \<and> assembler_expects sha parts b' \<and> ma_chunks b' = AList.update (int i) (parts ! i) (ma_chunks a)"
    by simp
next
  fix parts :: "bytes list" and a
  assume "assembler_expects sha parts a" "ma_chunks a \<noteq> []"
  then show "assembler_is_complete a \<longleftrightarrow> length (ma_chunks a) = length parts"
    by (auto simp: assembler_is_complete_def assembler_expects_def)
next
  fix parts :: "bytes list" and a
  assume "assembler_expects sha parts a" "ma_chunks a \<noteq> []" "assembler_is_complete a"
    "gather (ma_chunks a) (int (length parts)) = ok (concat parts)"
  then show "assemble_and_verify sha a = ok (concat parts)"
    by (auto simp: assemble_and_verify_def assembler_expects_def)
qed

section \<open>ManifestRegistry\<close>

text \<open>\<open>manifest\<close> is the pair of \<open>canonical_bytes()\<close> and \<open>manifest_hash()\<close> of the
  \<open>SwarmManifest\<close> handed in, the second being the hex SHA-256 of the first.\<close>

type_synonym manifest_registry = "(string, bytes) pydict"

definition registry_register_bytes :: "string \<Rightarrow> bytes \<Rightarrow> manifest_registry \<Rightarrow> manifest_registry" where
  "registry_register_bytes swarm_id_hex canonical r = AList.update swarm_id_hex canonical r"

definition registry_register ::
    "(bytes \<Rightarrow> bytes) \<Rightarrow> bytes \<Rightarrow> manifest_registry \<Rightarrow> string \<times> manifest_registry" where
  "registry_register sha canonical r =
     (let swarm_id_hex = hex_of_bytes (sha canonical)
      in (swarm_id_hex, AList.update swarm_id_hex canonical r))"

definition registry_get :: "string \<Rightarrow> manifest_registry \<Rightarrow> bytes option" where
  "registry_get swarm_id_hex r = map_of r swarm_id_hex"

definition registry_contains :: "string \<Rightarrow> manifest_registry \<Rightarrow> bool" where
  "registry_contains swarm_id_hex r \<longleftrightarrow> dict_has r swarm_id_hex"

section \<open>What the exchange promises\<close>

text \<open>C34: A canonical manifest, cut into chunks of any positive size and delivered in any order with any
  repetitions, is assembled and verified exactly when every chunk has arrived, and the result is the
  manifest, octet for octet.\<close>

theorem manifest_any_order:
  assumes "chunk_manifest_bytes canonical k = ok parts" and "set xs \<subseteq> {..<length parts}" and "xs \<noteq> []"
  shows "\<exists>a. feed (assembler_add (int (length parts))) (map (\<lambda>i. (int i, parts ! i)) xs)
        (assembler_init (sha canonical) nonce) = ok a
    \<and> (assembler_is_complete a \<longleftrightarrow> set xs = {..<length parts})
    \<and> (set xs = {..<length parts} \<longrightarrow> assemble_and_verify sha a = ok canonical)"
proof -
  have "concat parts = canonical"
    using assms(1) by (auto simp: chunk_manifest_bytes_def split: if_splits)
  then show ?thesis
    using assembler.deliver_any_order [of sha parts "assembler_init (sha canonical) nonce" xs] assms(2,3)
    by (simp add: assembler_expects_def assembler_init_def)
qed

theorem manifest_any_order_witness:
  "\<exists>a. feed (assembler_add 2) [(1, [3]), (0, [1, 2]), (1, [3])] (assembler_init [1, 2, 3] 9) = ok a
     \<and> assemble_and_verify id a = ok [1, 2, 3]"
proof -
  have parts: "chunk_manifest_bytes [1, 2, 3] 2 = ok [[1, 2], [3]]"
    by (simp add: chunk_manifest_bytes_def slices_def slice_def upt_rec)
  have "set [1, 0, 1] \<subseteq> {..<length [[1, 2], [3 :: byte]]}" "set [1, 0, 1] = {..<length [[1, 2], [3 :: byte]]}"
    by auto
  with manifest_any_order [OF parts, of "[1, 0, 1]" id 9] show ?thesis by auto
qed

section \<open>Every assembler that can arise\<close>

text \<open>The chunks an assembler holds are numbered below the total it is bound to.\<close>

definition assembler_inv :: "manifest_assembler \<Rightarrow> bool" where
  "assembler_inv a \<longleftrightarrow> dict_wf (ma_chunks a)
     \<and> fst ` set (ma_chunks a) \<subseteq> {0..<(case ma_total a of None \<Rightarrow> 0 | Some n \<Rightarrow> n)}"

text \<open>An assembler after a sequence of \<open>add_chunk\<close> calls, whether they raised or not.\<close>

definition assembler_after :: "(int \<times> int \<times> bytes) list \<Rightarrow> manifest_assembler \<Rightarrow> manifest_assembler" where
  "assembler_after calls a = fold (\<lambda>(index, n, data) a. fst (assembler_add_chunk index n data a)) calls a"

lemma assembler_add_chunk_inv:
  assumes "assembler_inv a"
  shows "assembler_inv (fst (assembler_add_chunk index n data a))
    \<and> ma_swarm_id (fst (assembler_add_chunk index n data a)) = ma_swarm_id a"
proof -
  have "fst ` set (ma_chunks a) \<subseteq> {0..<n}" if "ma_total a \<in> {None, Some n}"
    using assms that by (auto simp: assembler_inv_def)
  then show ?thesis
    using assms by (simp add: assembler_add_chunk_def assembler_inv_def Let_def AList.distinct_update keys_update)
qed

lemma assembler_after_inv:
  "assembler_inv a \<Longrightarrow> assembler_inv (assembler_after calls a) \<and> ma_swarm_id (assembler_after calls a) = ma_swarm_id a"
proof (induction calls arbitrary: a)
  case (Cons c calls)
  obtain index n data where c: "c = (index, n, data)" by (cases c)
  then show ?case
    using Cons.IH [of "fst (assembler_add_chunk index n data a)"] assembler_add_chunk_inv [OF Cons.prems]
    by (simp add: assembler_after_def)
qed (simp add: assembler_after_def)

lemma complete_gather:
  assumes inv: "assembler_inv a" and complete: "assembler_is_complete a"
  shows "\<exists>content. gather (ma_chunks a) (case ma_total a of None \<Rightarrow> 0 | Some n \<Rightarrow> n) = ok content"
proof -
  obtain n where n: "ma_total a = Some n" "int (length (ma_chunks a)) = n"
    using complete by (auto simp: assembler_is_complete_def split: option.splits)
  let ?keys = "fst ` set (ma_chunks a)"
  have "card ?keys = length (ma_chunks a)"
    using inv distinct_card [of "map fst (ma_chunks a)"] by (simp add: assembler_inv_def)
  then have keys: "?keys = {0..<n}"
    using inv n by (intro card_subset_eq) (simp_all add: assembler_inv_def)
  define parts where "parts = map (\<lambda>i. the (map_of (ma_chunks a) (int i))) [0..<nat n]"
  have "map_of (ma_chunks a) (int i) = Some (parts ! i)" if "i < length parts" for i
  proof -
    have "int i \<in> ?keys" using that keys by (simp add: parts_def)
    then have "map_of (ma_chunks a) (int i) \<noteq> None" unfolding dict_has_iff .
    with that show ?thesis by (simp add: parts_def)
  qed
  from gather_parts [OF this] show ?thesis using n by (simp add: parts_def)
qed

text \<open>Whatever calls a new assembler received, accepted or refused, what it returns hashes to the swarm
  identifier it was created for. If it does not return, the error says whether chunks are missing or
  the content hashes to something else; a look-up of a missing chunk never fails.\<close>

theorem manifest_hash_bound:
  "let a = assembler_after calls (assembler_init swarm_id nonce) in
   case assemble_and_verify sha a of
     Inr canonical \<Rightarrow> sha canonical = swarm_id \<and> assembler_is_complete a
   | Inl err \<Rightarrow> err = ValueError (if assembler_is_complete a then ''ERR_MANIFEST_HASH_MISMATCH''
       else ''ERR_WIRE_CHUNK_INCONSISTENT: assembly attempted before all chunks arrived'')"
proof -
  let ?a = "assembler_after calls (assembler_init swarm_id nonce)"
  have a: "assembler_inv ?a" "ma_swarm_id ?a = swarm_id"
    using assembler_after_inv [of "assembler_init swarm_id nonce" calls]
    by (simp_all add: assembler_init_def assembler_inv_def)
  show ?thesis
    using complete_gather [OF a(1)] a(2)
    by (cases "assembler_is_complete ?a") (auto simp: Let_def assemble_and_verify_def)
qed

text \<open>A chunk that contradicts what the assembler already holds (another number of chunks, an index out of
  range, other data for a known index) raises and leaves every stored chunk as it was; an accepted chunk
  changes only its own index.\<close>

lemma assembler_consistent:
  "case assembler_add_chunk index n data a of
     (a', Inl err) \<Rightarrow> ma_chunks a' = ma_chunks a \<and> (\<exists>msg. err = ValueError msg)
   | (a', Inr _) \<Rightarrow> map_of (ma_chunks a') = (map_of (ma_chunks a))(index \<mapsto> data)
       \<and> map_of (ma_chunks a) index \<in> {None, Some data}
       \<and> ma_total a \<in> {None, Some n} \<and> ma_total a' = Some n \<and> 0 \<le> index \<and> index < n"
  by (auto simp: assembler_add_chunk_def Let_def dict_simps)

end
