(* ===== verification/Tofu.thy ===== *)
theory Tofu
  imports Quink_Prelude "HOL-Library.List_Lexorder" "HOL-Library.Char_ord"
begin

text \<open>
  The trust-on-first-use cache of creator keys (\<open>network/tofu.py\<close>). The state is the JSON file and the
  table loaded from it, if it has been loaded; a restart forgets the table and keeps the file. Every
  public method holds the lock for its whole body, so methods are atomic steps. A write of the file
  succeeds as a whole or raises \<open>OSError\<close> and leaves the old file.
\<close>

section \<open>State\<close>

record tofu_entry =
  te_creator_pubkey :: string
  te_first_seen :: string

text \<open>An entry of the file as JSON has it: not an object, or an object whose two fields may be missing or
  not strings.\<close>

type_synonym raw_entry = "(string option \<times> string option) option"

datatype tofu_file = NoFile | Unreadable | Document "(string, raw_entry) pydict"

record tofu_cache =
  tc_file :: tofu_file
  tc_cache :: "(string, tofu_entry) pydict option"

definition tofu_init :: "tofu_file \<Rightarrow> tofu_cache" where
  "tofu_init file = \<lparr>tc_file = file, tc_cache = None\<rparr>"

section \<open>Persistence\<close>

definition entry_to_dict :: "tofu_entry \<Rightarrow> raw_entry" where
  "entry_to_dict e = Some (Some (te_creator_pubkey e), Some (te_first_seen e))"

fun entry_from_dict :: "raw_entry \<Rightarrow> tofu_entry result" where
  "entry_from_dict (Some (Some pk, Some first)) = ok \<lparr>te_creator_pubkey = pk, te_first_seen = first\<rparr>"
| "entry_from_dict _ = raise (ValueError ''TOFU cache entry missing required str fields'')"

fun load_entries :: "(string, raw_entry) pydict \<Rightarrow> (string, tofu_entry) pydict \<Rightarrow> (string, tofu_entry) pydict" where
  "load_entries [] out = out"
| "load_entries ((swarm_id, r) # rest) out =
     load_entries rest (case entry_from_dict r of Inl _ \<Rightarrow> out | Inr e \<Rightarrow> AList.update swarm_id e out)"

fun file_entries :: "tofu_file \<Rightarrow> (string, tofu_entry) pydict" where
  "file_entries NoFile = []"
| "file_entries Unreadable = []"
| "file_entries (Document raw) = load_entries raw []"

text \<open>\<open>_load_if_needed\<close>.\<close>

definition load_if_needed :: "tofu_cache \<Rightarrow> (string, tofu_entry) pydict \<times> tofu_cache" where
  "load_if_needed st =
     (case tc_cache st of
        Some c \<Rightarrow> (c, st)
      | None \<Rightarrow> let c = file_entries (tc_file st) in (c, st\<lparr>tc_cache := Some c\<rparr>))"

text \<open>\<open>_flush\<close>: the table in the order of its keys.\<close>

definition dump_entries :: "(string, tofu_entry) pydict \<Rightarrow> (string, raw_entry) pydict" where
  "dump_entries c = map (\<lambda>k. (k, Option.bind (map_of c k) entry_to_dict)) (sorted_list_of_set (set (map fst c)))"

definition flush :: "bool \<Rightarrow> (string, tofu_entry) pydict \<Rightarrow> tofu_cache \<Rightarrow> tofu_cache \<times> unit result" where
  "flush write_ok c st =
     (if write_ok then (st\<lparr>tc_file := Document (dump_entries c)\<rparr>, ok ()) else (st, raise OSError))"

section \<open>The public methods\<close>

definition tofu_get :: "string \<Rightarrow> tofu_cache \<Rightarrow> tofu_cache \<times> tofu_entry option" where
  "tofu_get swarm_id st = (let (c, st1) = load_if_needed st in (st1, map_of c swarm_id))"

definition ERR_TRUST_TOFU_CONFLICT :: string where
  "ERR_TRUST_TOFU_CONFLICT = ''ERR_TRUST_TOFU_CONFLICT''"

text \<open>\<open>ts\<close> is the time stamp of \<open>now\<close> in ISO form.\<close>

definition record_or_validate ::
    "bool \<Rightarrow> string \<Rightarrow> string \<Rightarrow> string \<Rightarrow> tofu_cache \<Rightarrow> tofu_cache \<times> tofu_entry result" where
  "record_or_validate write_ok ts swarm_id creator_pubkey st =
     (if swarm_id = [] then (st, raise (ValueError ''swarm_id must be a non-empty string''))
      else if creator_pubkey = [] then (st, raise (ValueError ''creator_pubkey must be a non-empty string''))
      else let (c, st1) = load_if_needed st in
        case map_of c swarm_id of
          None \<Rightarrow>
            let entry = \<lparr>te_creator_pubkey = creator_pubkey, te_first_seen = ts\<rparr>;
                c' = AList.update swarm_id entry c;
                (st2, r) = flush write_ok c' (st1\<lparr>tc_cache := Some c'\<rparr>)
            in (st2, result_bind r (\<lambda>_. ok entry))
        | Some existing \<Rightarrow>
            if te_creator_pubkey existing = creator_pubkey then (st1, ok existing)
            else (st1, raise (ValueError ERR_TRUST_TOFU_CONFLICT)))"

definition forget :: "bool \<Rightarrow> string \<Rightarrow> tofu_cache \<Rightarrow> tofu_cache \<times> bool result" where
  "forget write_ok swarm_id st =
     (let (c, st1) = load_if_needed st in
      if map_of c swarm_id = None then (st1, ok False)
      else let c' = AList.delete swarm_id c;
               (st2, r) = flush write_ok c' (st1\<lparr>tc_cache := Some c'\<rparr>)
           in (st2, result_bind r (\<lambda>_. ok True)))"

definition tofu_clear :: "bool \<Rightarrow> tofu_cache \<Rightarrow> tofu_cache \<times> unit result" where
  "tofu_clear write_ok st =
     (let st1 = st\<lparr>tc_cache := Some []\<rparr> in
      if tc_file st = NoFile then (st1, ok ()) else flush write_ok [] st1)"

definition as_dict :: "tofu_cache \<Rightarrow> tofu_cache \<times> (string, raw_entry) pydict" where
  "as_dict st = (let (c, st1) = load_if_needed st in (st1, map (\<lambda>(sid, e). (sid, entry_to_dict e)) c))"

definition restart :: "tofu_cache \<Rightarrow> tofu_cache" where
  "restart st = tofu_init (tc_file st)"

section \<open>The file round trip\<close>

lemma load_entries_map:
  assumes "distinct (map fst raw)"
  shows "map_of (load_entries raw out) k =
    (case map_of raw k of None \<Rightarrow> map_of out k
     | Some r \<Rightarrow> (case entry_from_dict r of Inl _ \<Rightarrow> map_of out k | Inr e \<Rightarrow> Some e))"
  using assms
proof (induction raw out rule: load_entries.induct)
  case (2 sid r rest out)
  then have "map_of rest sid = None" by (simp add: map_of_eq_None_iff)
  with 2 show ?case by (auto simp: dict_simps split: option.split sum.split)
qed simp

lemma file_round_trip: "map_of (file_entries (Document (dump_entries c))) k = map_of c k"
proof -
  have keys: "distinct (map fst (dump_entries c))"
    by (simp add: dump_entries_def comp_def)
  have "map_of (dump_entries c) k =
      (if k \<in> fst ` set c then Some (Option.bind (map_of c k) entry_to_dict) else None)"
    by (simp add: dump_entries_def map_of_map_restrict restrict_map_def)
  moreover have "k \<in> fst ` set c \<longleftrightarrow> map_of c k \<noteq> None"
    by (metis map_of_eq_None_iff)
  ultimately show ?thesis
    using load_entries_map [OF keys, of "[]" k]
    by (auto simp: entry_to_dict_def split: option.splits if_splits)
qed

section \<open>First use binds\<close>

text \<open>The binding a node goes by, and the invariant that the loaded table agrees with the file.\<close>

definition bound :: "tofu_cache \<Rightarrow> string \<Rightarrow> tofu_entry option" where
  "bound st swarm_id = map_of (fst (load_if_needed st)) swarm_id"

definition synced :: "tofu_cache \<Rightarrow> bool" where
  "synced st \<longleftrightarrow> (case tc_cache st of None \<Rightarrow> True
     | Some c \<Rightarrow> \<forall>k. map_of c k = map_of (file_entries (tc_file st)) k)"

datatype tofu_op = OpGet string | OpRecord string string string | OpSnapshot | OpRestart

fun tofu_step :: "tofu_cache \<Rightarrow> tofu_op \<Rightarrow> tofu_cache \<times> (tofu_entry result) list" where
  "tofu_step st (OpGet sid) = (fst (tofu_get sid st), [])"
| "tofu_step st (OpRecord ts sid pk) = (let (st', r) = record_or_validate True ts sid pk st in (st', [r]))"
| "tofu_step st OpSnapshot = (fst (as_dict st), [])"
| "tofu_step st OpRestart = (restart st, [])"

lemma load_synced: "synced st \<Longrightarrow> synced (snd (load_if_needed st))"
  by (auto simp: synced_def load_if_needed_def Let_def split: option.splits)

lemma load_bound: "bound (snd (load_if_needed st)) = bound st"
  by (auto simp: bound_def load_if_needed_def Let_def fun_eq_iff split: option.splits)

lemma restart_bound: "synced st \<Longrightarrow> bound (restart st) = bound st"
  by (auto simp: bound_def synced_def restart_def tofu_init_def load_if_needed_def Let_def fun_eq_iff
      split: option.splits)

lemma record_cases:
  assumes "record_or_validate w ts sid pk st = (st', r)"
  obtains (invalid) "st' = st" "\<exists>msg. r = raise (ValueError msg)" "sid = [] \<or> pk = []"
  | (first) "bound st sid = None" "sid \<noteq> []" "pk \<noteq> []"
      "bound st' = (bound st)(sid \<mapsto> \<lparr>te_creator_pubkey = pk, te_first_seen = ts\<rparr>)"
      "w \<longrightarrow> synced st'" "r = (if w then ok \<lparr>te_creator_pubkey = pk, te_first_seen = ts\<rparr> else raise OSError)"
  | (again) e where "bound st sid = Some e" "te_creator_pubkey e = pk" "st' = snd (load_if_needed st)" "r = ok e"
  | (conflict) e where "bound st sid = Some e" "te_creator_pubkey e \<noteq> pk" "st' = snd (load_if_needed st)"
      "r = raise (ValueError ERR_TRUST_TOFU_CONFLICT)"
proof (cases "sid = [] \<or> pk = []")
  case True
  then have "st' = st \<and> (\<exists>msg. r = raise (ValueError msg))"
    using assms unfolding record_or_validate_def by (cases "sid = []") auto
  with True show ?thesis by (intro invalid) simp_all
next
  case False
  obtain c st1 where ld: "load_if_needed st = (c, st1)" by fastforce
  show ?thesis
  proof (cases "map_of c sid")
    case None
    let ?e = "\<lparr>te_creator_pubkey = pk, te_first_seen = ts\<rparr>"
    let ?st = "(if w then st1\<lparr>tc_cache := Some (AList.update sid ?e c), tc_file := Document (dump_entries (AList.update sid ?e c))\<rparr>
      else st1\<lparr>tc_cache := Some (AList.update sid ?e c)\<rparr>)"
    have "record_or_validate w ts sid pk st = (?st, if w then ok ?e else raise OSError)"
      using False None ld by (simp add: record_or_validate_def flush_def Let_def)
    with assms have r: "st' = ?st" "r = (if w then ok ?e else raise OSError)"
      by (simp_all del: fun_upd_apply)
    show ?thesis
      by (rule first)
        (use False None ld r in \<open>auto simp: bound_def load_if_needed_def dict_simps synced_def file_round_trip
          simp del: file_entries.simps\<close>)
  next
    case (Some e)
    then show ?thesis
      using assms False ld again [of e] conflict [of e]
      by (auto simp: record_or_validate_def bound_def split: if_splits)
  qed
qed

lemma record_keeps:
  assumes "synced st" and "bound st k = Some e"
  shows "synced (fst (record_or_validate True ts sid pk st))
    \<and> bound (fst (record_or_validate True ts sid pk st)) k = Some e"
proof -
  obtain st' r where rec: "record_or_validate True ts sid pk st = (st', r)" by fastforce
  then have "synced st' \<and> bound st' k = Some e"
  proof (cases rule: record_cases)
    case invalid
    then show ?thesis using assms by simp
  next
    case first
    then show ?thesis using assms by auto
  next
    case again
    then show ?thesis using assms load_synced load_bound by simp
  next
    case conflict
    then show ?thesis using assms load_synced load_bound by simp
  qed
  with rec show ?thesis by simp
qed

interpretation tofu_life: reactive tofu_step "\<lambda>st. synced st \<and> bound st k = Some e" "\<lambda>_. True"
  for k :: string and e :: tofu_entry
proof unfold_locales
  fix st op
  assume inv: "synced st \<and> bound st k = Some e"
  then show "synced (fst (tofu_step st op)) \<and> bound (fst (tofu_step st op)) k = Some e"
  proof (cases op)
    case (OpGet sid)
    then show ?thesis
      using inv load_synced [of st] load_bound [of st] by (simp add: tofu_get_def case_prod_beta)
  next
    case (OpRecord ts sid pk)
    then show ?thesis
      using inv record_keeps [of st k e ts sid pk] by (simp add: case_prod_beta)
  next
    case OpSnapshot
    then show ?thesis
      using inv load_synced [of st] load_bound [of st] by (simp add: as_dict_def case_prod_beta)
  next
    case OpRestart
    then show ?thesis
      using inv restart_bound [of st] by (simp add: synced_def restart_def tofu_init_def)
  qed
qed

text \<open>C38: Trust on first use: once a creator key has been recorded for a swarm, then through any sequence of
  look-ups, further recordings and restarts from the file the swarm stays bound to that key; recording it
  again returns the first entry and recording another key raises the conflict error and changes nothing.\<close>

theorem tofu_first_key_wins:
  assumes "synced st" and "record_or_validate True ts sid pk st = (st1, ok e)"
    and "pk' \<noteq> []"
  shows "let st2 = fst (run tofu_step st1 ops) in
    snd (record_or_validate True ts' sid pk' st2) =
      (if pk' = pk then ok e else raise (ValueError ERR_TRUST_TOFU_CONFLICT))
    \<and> bound (fst (record_or_validate True ts' sid pk' st2)) = bound st2"
proof -
  have "bound st1 sid = Some e \<and> te_creator_pubkey e = pk \<and> synced st1"
    using assms(2)
  proof (cases rule: record_cases)
    case (again e')
    then show ?thesis using assms(1) load_bound [of st] load_synced [of st] by simp
  qed auto
  moreover have "sid \<noteq> []"
    using assms(2) by (auto simp: record_or_validate_def)
  ultimately have e: "bound st1 sid = Some e" "te_creator_pubkey e = pk" "synced st1" "sid \<noteq> []"
    by simp_all
  let ?st2 = "fst (run tofu_step st1 ops)"
  have st2: "bound ?st2 sid = Some e"
    using tofu_life.run_inv [of st1 sid e ops] e by (simp add: list_all_iff)
  obtain st3 r where rec: "record_or_validate True ts' sid pk' ?st2 = (st3, r)" by fastforce
  then have "r = (if pk' = pk then ok e else raise (ValueError ERR_TRUST_TOFU_CONFLICT)) \<and> bound st3 = bound ?st2"
    by (cases rule: record_cases) (use st2 e assms(3) load_bound in auto)
  with rec show ?thesis by (simp add: Let_def)
qed

theorem tofu_first_key_wins_witness:
  "snd (record_or_validate True ''t2'' ''s'' ''mallory''
     (fst (run tofu_step (fst (record_or_validate True ''t1'' ''s'' ''alice'' (tofu_init NoFile)))
       [OpRestart, OpGet ''s'', OpRecord ''t3'' ''x'' ''bob''])))
   = raise (ValueError ERR_TRUST_TOFU_CONFLICT)"
proof -
  have s: "synced (tofu_init NoFile)" by (simp add: synced_def tofu_init_def)
  have r: "record_or_validate True ''t1'' ''s'' ''alice'' (tofu_init NoFile) =
      (fst (record_or_validate True ''t1'' ''s'' ''alice'' (tofu_init NoFile)),
       ok \<lparr>te_creator_pubkey = ''alice'', te_first_seen = ''t1''\<rparr>)"
    by (simp add: record_or_validate_def load_if_needed_def tofu_init_def flush_def Let_def)
  from tofu_first_key_wins [OF s r, of "''mallory''" "[OpRestart, OpGet ''s'', OpRecord ''t3'' ''x'' ''bob'']" "''t2''"]
  show ?thesis unfolding Let_def by (simp del: run.simps)
qed

end
