(* ===== verification/Json.thy ===== *)
theory Json
  imports Quink_Prelude "HOL-Library.List_Lexorder" "HOL-Library.Char_ord"
begin

text \<open>
  JSON values and the canonical text the repository signs and hashes:
  \<open>json.dumps(v, sort_keys=True, separators=(",", ":"))\<close>, here with \<open>ensure_ascii=False\<close> and in
  the theory on canonical text with \<open>ensure_ascii=True\<close>. A float is its
  \<open>repr\<close>; strings are UTF-8 octets, whose lexicographic order is the order of the code points.
\<close>

datatype json =
    JNull
  | JBool bool
  | JInt int
  | JFloat string
  | JStr string
  | JList "json list"
  | JObj "(string \<times> json) list"

fun join :: "string \<Rightarrow> string list \<Rightarrow> string" where
  "join sep [] = []"
| "join sep [x] = x"
| "join sep (x # y # zs) = x @ sep @ join sep (y # zs)"

text \<open>The escapes of a JSON string with \<open>ensure_ascii=False\<close>.\<close>

definition escape_char :: "char \<Rightarrow> string" where
  "escape_char c = (let n = of_char c :: nat in
     if n = 34 then [CHR 0x5C, CHR 0x22]
     else if n = 92 then [CHR 0x5C, CHR 0x5C]
     else if n = 10 then [CHR 0x5C, CHR ''n'']
     else if n = 13 then [CHR 0x5C, CHR ''r'']
     else if n = 9 then [CHR 0x5C, CHR ''t'']
     else if n = 8 then [CHR 0x5C, CHR ''b'']
     else if n = 12 then [CHR 0x5C, CHR ''f'']
     else if n < 32 then CHR 0x5C # CHR ''u'' # ''00'' @ hex_of_bytes [of_nat n]
     else [c])"

definition dump_string :: "string \<Rightarrow> string" where
  "dump_string s = CHR 0x22 # concat (map escape_char s) @ [CHR 0x22]"

text \<open>The members of an object in the order of their keys.\<close>

definition members :: "(string \<times> json) list \<Rightarrow> (string \<times> json) list" where
  "members kvs = sort_key fst kvs"

lemma set_members [simp]: "set (members kvs) = set kvs"
  by (simp add: members_def)

lemma member_size: "(k, v) \<in> set kvs \<Longrightarrow> size v < Suc (size_list (size_prod (\<lambda>_. 0) size) kvs)"
  by (induction kvs) auto

text \<open>The text of a value for a given encoding of strings.\<close>

function dumps_with :: "(string \<Rightarrow> string) \<Rightarrow> json \<Rightarrow> string" where
  "dumps_with enc JNull = ''null''"
| "dumps_with enc (JBool b) = (if b then ''true'' else ''false'')"
| "dumps_with enc (JInt n) = str_of_int n"
| "dumps_with enc (JFloat r) = r"
| "dumps_with enc (JStr s) = enc s"
| "dumps_with enc (JList vs) = ''['' @ join '','' (map (dumps_with enc) vs) @ '']''"
| "dumps_with enc (JObj kvs) =
     ''{'' @ join '','' (map (\<lambda>(k, v). enc k @ '':'' @ dumps_with enc v) (members kvs)) @ ''}''"
  by pat_completeness auto
termination
proof (relation "measure (size \<circ> snd)", goal_cases)
  case (2 enc vs v)
  then show ?case by (induction vs) auto
next
  case (3 enc kvs x k v)
  then show ?case using member_size [of k v kvs] by simp
qed simp

abbreviation dumps :: "json \<Rightarrow> string" where
  "dumps \<equiv> dumps_with dump_string"

end
