(* ===== verification/Python_Values.thy ===== *)
theory Python_Values
  imports Json
begin

text \<open>
  What the manifest code uses of Python's dynamically typed values. A value read from a JSON
  document is a \<open>json\<close>; the operations below are the built-in comparisons, conversions and
  truth tests on such values, with the exceptions they raise on the wrong type.

  A float is the text \<open>json.dumps\<close> writes for it: its shortest \<open>repr\<close>, or \<open>NaN\<close>, \<open>Infinity\<close>,
  \<open>-Infinity\<close>. Its value is the rational number the text denotes. Comparing two floats is
  comparing these numbers, since rounding is monotone; sums are exact here.
\<close>

section \<open>Floating-point text\<close>

datatype pyfloat = NaN | Inf bool | Fin rat

definition digit_value :: "char \<Rightarrow> nat" where
  "digit_value c = of_char c - 48"

definition is_digit :: "char \<Rightarrow> bool" where
  "is_digit c \<longleftrightarrow> 48 \<le> (of_char c :: nat) \<and> (of_char c :: nat) \<le> 57"

definition nat_of_digits :: "string \<Rightarrow> nat" where
  "nat_of_digits s = foldl (\<lambda>a c. 10 * a + digit_value c) 0 s"

text \<open>An optional sign before digits.\<close>

definition signed_digits :: "string \<Rightarrow> int" where
  "signed_digits s = (case s of
      [] \<Rightarrow> 0
    | c # cs \<Rightarrow> if c = CHR ''-'' then - int (nat_of_digits cs)
                else if c = CHR ''+'' then int (nat_of_digits cs)
                else int (nat_of_digits s))"

definition scale10 :: "rat \<Rightarrow> int \<Rightarrow> rat" where
  "scale10 m e = (if 0 \<le> e then m * 10 ^ nat e else m / 10 ^ nat (- e))"

definition decimal_value :: "string \<Rightarrow> rat" where
  "decimal_value t =
     (let mant = takeWhile (\<lambda>c. c \<noteq> CHR ''e'') t;
          expo = drop 1 (dropWhile (\<lambda>c. c \<noteq> CHR ''e'') t);
          ip = takeWhile (\<lambda>c. c \<noteq> CHR ''.'') mant;
          fp = drop 1 (dropWhile (\<lambda>c. c \<noteq> CHR ''.'') mant)
      in scale10 (of_nat (nat_of_digits (ip @ fp))) (signed_digits expo - int (length fp)))"

definition float_of :: "string \<Rightarrow> pyfloat" where
  "float_of s =
     (if s = ''NaN'' then NaN
      else if s = ''Infinity'' then Inf True
      else if s = ''-Infinity'' then Inf False
      else case s of
          [] \<Rightarrow> Fin 0
        | c # cs \<Rightarrow> if c = CHR ''-'' then Fin (- decimal_value cs) else Fin (decimal_value s))"

fun fl_le :: "pyfloat \<Rightarrow> pyfloat \<Rightarrow> bool" where
  "fl_le NaN _ = False"
| "fl_le _ NaN = False"
| "fl_le (Inf a) (Inf b) = (a \<longrightarrow> b)"
| "fl_le (Inf a) (Fin _) = (\<not> a)"
| "fl_le (Fin _) (Inf b) = b"
| "fl_le (Fin x) (Fin y) = (x \<le> y)"

fun fl_less :: "pyfloat \<Rightarrow> pyfloat \<Rightarrow> bool" where
  "fl_less NaN _ = False"
| "fl_less _ NaN = False"
| "fl_less (Inf a) (Inf b) = (\<not> a \<and> b)"
| "fl_less (Inf a) (Fin _) = (\<not> a)"
| "fl_less (Fin _) (Inf b) = b"
| "fl_less (Fin x) (Fin y) = (x < y)"

fun fl_add :: "pyfloat \<Rightarrow> pyfloat \<Rightarrow> pyfloat" where
  "fl_add NaN _ = NaN"
| "fl_add _ NaN = NaN"
| "fl_add (Inf a) (Inf b) = (if a = b then Inf a else NaN)"
| "fl_add (Inf a) (Fin _) = Inf a"
| "fl_add (Fin _) (Inf b) = Inf b"
| "fl_add (Fin x) (Fin y) = Fin (x + y)"

lemma fl_less_iff: "fl_less x y \<longleftrightarrow> fl_le x y \<and> \<not> fl_le y x"
  by (cases x; cases y) auto

lemma fl_not_less: "x \<noteq> NaN \<Longrightarrow> y \<noteq> NaN \<Longrightarrow> \<not> fl_less x y \<longleftrightarrow> fl_le y x"
  by (cases x; cases y) auto

lemma fl_le_Fin_between:
  "fl_le (Fin a) x \<and> fl_le x (Fin b) \<longleftrightarrow> (\<exists>q. x = Fin q \<and> a \<le> q \<and> q \<le> b)"
  by (cases x) auto

lemma fl_less_Fin_between:
  "fl_less (Fin a) x \<and> fl_less x (Fin b) \<longleftrightarrow> (\<exists>q. x = Fin q \<and> a < q \<and> q < b)"
  by (cases x) auto

section \<open>Numbers\<close>

text \<open>The numeric value of an operand of a comparison or a sum; \<open>bool\<close> is a subclass of \<open>int\<close>.
  Ordering a string, a list, a dictionary or \<open>None\<close> against a number raises \<open>TypeError\<close>.\<close>

fun num_of :: "json \<Rightarrow> pyfloat result" where
  "num_of (JBool b) = ok (Fin (if b then 1 else 0))"
| "num_of (JInt n) = ok (Fin (of_int n))"
| "num_of (JFloat s) = ok (float_of s)"
| "num_of _ = raise TypeError"

definition num_less :: "json \<Rightarrow> rat \<Rightarrow> bool result" where
  "num_less v c = result_bind (num_of v) (\<lambda>x. ok (fl_less x (Fin c)))"

definition num_le :: "json \<Rightarrow> rat \<Rightarrow> bool result" where
  "num_le v c = result_bind (num_of v) (\<lambda>x. ok (fl_le x (Fin c)))"

definition num_ge :: "json \<Rightarrow> json \<Rightarrow> bool result" where
  "num_ge v w = result_bind (num_of v) (\<lambda>x. result_bind (num_of w) (\<lambda>y. ok (fl_le y x)))"

definition num_gt :: "json \<Rightarrow> json \<Rightarrow> bool result" where
  "num_gt v w = result_bind (num_of v) (\<lambda>x. result_bind (num_of w) (\<lambda>y. ok (fl_less y x)))"

definition num_sum :: "json list \<Rightarrow> pyfloat result" where
  "num_sum vs = foldl (\<lambda>acc v. result_bind acc (\<lambda>x. result_bind (num_of v) (\<lambda>y. ok (fl_add x y))))
                      (ok (Fin 0)) vs"

text \<open>\<open>v == n\<close> for an integer \<open>n\<close>: an equal float or boolean is equal, another type is not.\<close>

definition eq_int :: "json \<Rightarrow> int \<Rightarrow> bool" where
  "eq_int v n = (case num_of v of Inl _ \<Rightarrow> False | Inr x \<Rightarrow> x = Fin (of_int n))"

text \<open>\<open>isinstance(v, int)\<close>, \<open>isinstance(v, float)\<close>, and an \<open>int\<close> that is not a \<open>bool\<close>.\<close>

fun is_int :: "json \<Rightarrow> bool" where
  "is_int (JInt _) = True" | "is_int (JBool _) = True" | "is_int _ = False"

fun is_float :: "json \<Rightarrow> bool" where
  "is_float (JFloat _) = True" | "is_float _ = False"

section \<open>Strings, membership and truth\<close>

fun strip_spaces :: "string \<Rightarrow> string" where
  "strip_spaces [] = []"
| "strip_spaces (c # cs) =
     (if is_space c \<or> 28 \<le> (of_char c :: nat) \<and> (of_char c :: nat) \<le> 31 then strip_spaces cs else c # cs)"

definition py_strip :: "string \<Rightarrow> string" where
  "py_strip s = rev (strip_spaces (rev (strip_spaces s)))"

text \<open>\<open>len(s)\<close> counts code points, and \<open>list(s)\<close> is the list of them: an octet that continues a
  UTF-8 sequence belongs to the code point before it.\<close>

definition is_cont :: "char \<Rightarrow> bool" where
  "is_cont c \<longleftrightarrow> 128 \<le> (of_char c :: nat) \<and> (of_char c :: nat) \<le> 191"

definition py_len :: "string \<Rightarrow> nat" where
  "py_len s = length (filter (\<lambda>c. \<not> is_cont c) s)"

function str_chars :: "string \<Rightarrow> string list" where
  "str_chars [] = []"
| "str_chars (c # cs) = (c # takeWhile is_cont cs) # str_chars (dropWhile is_cont cs)"
  by pat_completeness auto
termination
  by (relation "measure length") (auto simp: length_dropWhile_le le_imp_less_Suc)

text \<open>\<open>v in ("a", "b")\<close>; and \<open>v in {"a", "b"}\<close>, which hashes \<open>v\<close> first.\<close>

definition in_strs :: "json \<Rightarrow> string list \<Rightarrow> bool" where
  "in_strs v ss = (case v of JStr s \<Rightarrow> s \<in> set ss | _ \<Rightarrow> False)"

fun in_str_set :: "json \<Rightarrow> string list \<Rightarrow> bool result" where
  "in_str_set (JList _) ss = raise TypeError"
| "in_str_set (JObj _) ss = raise TypeError"
| "in_str_set v ss = ok (in_strs v ss)"

text \<open>\<open>bool(v)\<close>.\<close>

fun truthy :: "json \<Rightarrow> bool" where
  "truthy JNull = False"
| "truthy (JBool b) = b"
| "truthy (JInt n) = (n \<noteq> 0)"
| "truthy (JFloat s) = (float_of s \<noteq> Fin 0)"
| "truthy (JStr s) = (s \<noteq> [])"
| "truthy (JList vs) = (vs \<noteq> [])"
| "truthy (JObj kvs) = (kvs \<noteq> [])"

text \<open>\<open>list(v)\<close>.\<close>

fun py_list :: "json \<Rightarrow> json list result" where
  "py_list (JList vs) = ok vs"
| "py_list (JStr s) = ok (map JStr (str_chars s))"
| "py_list (JObj kvs) = ok (map (JStr \<circ> fst) kvs)"
| "py_list _ = raise TypeError"

text \<open>\<open>int(s)\<close> of a string: white space around, a sign, decimal digits with single underscores
  between them. Digits and white space outside ASCII, which Python accepts too, are errors here.\<close>

fun digit_groups :: "string \<Rightarrow> bool" where
  "digit_groups [] = False"
| "digit_groups [c] = is_digit c"
| "digit_groups (c # d # cs) =
     (is_digit c \<and> (if d = CHR ''_'' then digit_groups cs else digit_groups (d # cs)))"

definition int_of_str :: "string \<Rightarrow> int result" where
  "int_of_str s =
     (let t = py_strip s;
          u = (case t of c # cs \<Rightarrow> if c = CHR ''-'' \<or> c = CHR ''+'' then cs else t | [] \<Rightarrow> []);
          n = int (nat_of_digits (filter (\<lambda>c. c \<noteq> CHR ''_'') u))
      in if digit_groups u then ok (if take 1 t = ''-'' then - n else n)
         else raise (ValueError ''invalid literal for int()''))"

text \<open>\<open>int(v)\<close>.\<close>

fun py_int_json :: "json \<Rightarrow> int result" where
  "py_int_json (JInt n) = ok n"
| "py_int_json (JBool b) = ok (if b then 1 else 0)"
| "py_int_json (JFloat s) = (case float_of s of
      Fin q \<Rightarrow> ok (if 0 \<le> q then \<lfloor>q\<rfloor> else \<lceil>q\<rceil>)
    | Inf _ \<Rightarrow> raise OverflowError
    | NaN \<Rightarrow> raise (ValueError ''cannot convert float NaN to integer''))"
| "py_int_json (JStr s) = int_of_str s"
| "py_int_json _ = raise TypeError"

text \<open>\<open>str(v)\<close>; the text of a list or dictionary is a parameter.\<close>

fun py_str :: "(json \<Rightarrow> string) \<Rightarrow> json \<Rightarrow> string" where
  "py_str rep (JStr s) = s"
| "py_str rep JNull = ''None''"
| "py_str rep (JBool b) = (if b then ''True'' else ''False'')"
| "py_str rep (JInt n) = str_of_int n"
| "py_str rep (JFloat s) = (if s = ''NaN'' then ''nan'' else if s = ''Infinity'' then ''inf''
                            else if s = ''-Infinity'' then ''-inf'' else s)"
| "py_str rep v = rep v"

text \<open>\<open>v.get(k, d)\<close>: only a dictionary has the method.\<close>

fun obj_get :: "json \<Rightarrow> string \<Rightarrow> json \<Rightarrow> json result" where
  "obj_get (JObj kvs) k d = ok (dict_get kvs k d)"
| "obj_get _ k d = raise AttributeError"

section \<open>Regular expressions\<close>

text \<open>\<open>re.compile("^...$").match(s)\<close>: without \<open>MULTILINE\<close>, \<open>$\<close> also matches before a final
  newline.\<close>

definition dollar :: "(string \<Rightarrow> bool) \<Rightarrow> string \<Rightarrow> bool" where
  "dollar P s \<longleftrightarrow> P s \<or> s \<noteq> [] \<and> last s = CHR 0x0A \<and> P (butlast s)"

definition is_lower_hex :: "char \<Rightarrow> bool" where
  "is_lower_hex c \<longleftrightarrow> is_digit c \<or> 97 \<le> (of_char c :: nat) \<and> (of_char c :: nat) \<le> 102"

definition prefixed_hex :: "string \<Rightarrow> nat \<Rightarrow> string \<Rightarrow> bool" where
  "prefixed_hex p n s \<longleftrightarrow>
     take (length p) s = p \<and> length s = length p + n \<and> list_all is_lower_hex (drop (length p) s)"

section \<open>Sequences of checks\<close>

text \<open>A method that raises on the first failing check.\<close>

definition check :: "bool \<Rightarrow> string \<Rightarrow> unit result" where
  "check b msg = (if b then ok () else raise (ValueError msg))"

fun first_error :: "unit result list \<Rightarrow> unit result" where
  "first_error [] = ok ()"
| "first_error (c # cs) = result_bind c (\<lambda>_. first_error cs)"

text \<open>\<open>if cond: raise ValueError(msg)\<close> for a condition that may itself raise.\<close>

definition refuse_if :: "bool result \<Rightarrow> string \<Rightarrow> unit result" where
  "refuse_if c msg = result_bind c (\<lambda>b. check (\<not> b) msg)"

named_theorems checks \<open>when a sequence of checks passes\<close>

lemma check_ok [checks]: "check b msg = ok () \<longleftrightarrow> b"
  by (simp add: check_def)

lemma first_error_Nil_ok [checks]: "first_error [] = ok () \<longleftrightarrow> True"
  by simp

lemma first_error_Cons_ok [checks]: "first_error (c # cs) = ok () \<longleftrightarrow> c = ok () \<and> first_error cs = ok ()"
  by (cases c) auto

lemma first_error_append_ok [checks]:
  "first_error (as @ bs) = ok () \<longleftrightarrow> first_error as = ok () \<and> first_error bs = ok ()"
  by (induction as) (auto simp: result_bind_eq_ok)

lemma first_error_map_ok [checks]: "first_error (map f xs) = ok () \<longleftrightarrow> (\<forall>x \<in> set xs. f x = ok ())"
  by (induction xs) (auto simp: result_bind_eq_ok)

lemma refuse_if_ok [checks]: "refuse_if c msg = ok () \<longleftrightarrow> c = ok False"
  by (cases c) (auto simp: refuse_if_def checks)

lemma num_less_ok: "num_less v c = ok b \<longleftrightarrow> (\<exists>x. num_of v = ok x \<and> b = fl_less x (Fin c))"
  by (cases "num_of v") (auto simp: num_less_def)

lemma num_le_ok: "num_le v c = ok b \<longleftrightarrow> (\<exists>x. num_of v = ok x \<and> b = fl_le x (Fin c))"
  by (cases "num_of v") (auto simp: num_le_def)

lemma num_ge_ok:
  "num_ge v w = ok b \<longleftrightarrow> (\<exists>x y. num_of v = ok x \<and> num_of w = ok y \<and> b = fl_le y x)"
  by (cases "num_of v"; cases "num_of w") (auto simp: num_ge_def)

lemma num_gt_ok:
  "num_gt v w = ok b \<longleftrightarrow> (\<exists>x y. num_of v = ok x \<and> num_of w = ok y \<and> b = fl_less y x)"
  by (cases "num_of v"; cases "num_of w") (auto simp: num_gt_def)

lemma in_strs_iff: "in_strs v ss \<longleftrightarrow> (\<exists>s. v = JStr s \<and> s \<in> set ss)"
  by (cases v) (auto simp: in_strs_def)

lemma in_str_set_ok_True: "in_str_set v ss = ok True \<longleftrightarrow> in_strs v ss"
  by (cases v) (auto simp: in_strs_def)

lemmas num_ok = num_less_ok num_le_ok num_ge_ok num_gt_ok

text \<open>The sum of finite numbers is finite and exact.\<close>

lemma num_sum_Fin:
  assumes "list_all2 (\<lambda>v q. num_of v = ok (Fin q)) vs qs"
  shows "num_sum vs = ok (Fin (sum_list qs))"
proof -
  have "foldl (\<lambda>acc v. result_bind acc (\<lambda>x. result_bind (num_of v) (\<lambda>y. ok (fl_add x y)))) (ok (Fin a)) vs
          = ok (Fin (a + sum_list qs))" for a
    using assms by (induction vs qs arbitrary: a rule: list_all2_induct) (simp_all add: add.assoc)
  from this [of 0] show ?thesis by (simp add: num_sum_def)
qed

end
