(* ===== verification/Canonical_Json.thy ===== *)
theory Canonical_Json
  imports Python_Values
begin

text \<open>
  Canonical JSON text is unambiguous: two values have the same text only if they are equal up to
  the order of the members of their objects. The argument is generic in the encoding of strings
  (a locale) and is instantiated with the two encodings the repository uses, \<open>ensure_ascii=False\<close>
  (advertisements) and \<open>ensure_ascii=True\<close> (manifests).
\<close>

section \<open>ASCII-only strings\<close>

text \<open>The code points of a string from its UTF-8 octets.\<close>

definition seq_len :: "nat \<Rightarrow> nat" where
  "seq_len a = (if a < 128 then 1 else if a < 224 then 2 else if a < 240 then 3 else 4)"

definition lead_bits :: "nat \<Rightarrow> nat" where
  "lead_bits a = (if a < 128 then a else if a < 224 then a - 192 else if a < 240 then a - 224 else a - 240)"

definition code_point :: "nat list \<Rightarrow> nat" where
  "code_point bs = foldl (\<lambda>p c. p * 64 + (c - 128)) (lead_bits (hd bs)) (tl bs)"

function utf8_points :: "nat list \<Rightarrow> nat list" where
  "utf8_points [] = []"
| "utf8_points (a # bs) = (let k = seq_len a - 1 in code_point (a # take k bs) # utf8_points (drop k bs))"
  by pat_completeness auto
termination
  by (relation "measure length") (auto simp: less_Suc_eq_le)

definition octets :: "string \<Rightarrow> nat list" where
  "octets s = map of_char s"

text \<open>The UTF-16 units of a code point, and the escape of a unit.\<close>

definition utf16_units :: "nat \<Rightarrow> nat list" where
  "utf16_units p = (if p < 65536 then [p]
                    else [55296 + (p - 65536) div 1024, 56320 + (p - 65536) mod 1024])"

definition hex4 :: "nat \<Rightarrow> string" where
  "hex4 n = hex_of_bytes [of_nat (n div 256), of_nat (n mod 256)]"

definition escape_unit :: "nat \<Rightarrow> string" where
  "escape_unit u =
     (if u = 34 then [CHR 0x5C, CHR 0x22]
      else if u = 92 then [CHR 0x5C, CHR 0x5C]
      else if u = 10 then [CHR 0x5C, CHR ''n'']
      else if u = 13 then [CHR 0x5C, CHR ''r'']
      else if u = 9 then [CHR 0x5C, CHR ''t'']
      else if u = 8 then [CHR 0x5C, CHR ''b'']
      else if u = 12 then [CHR 0x5C, CHR ''f'']
      else if 32 \<le> u \<and> u \<le> 126 then [char_of u]
      else CHR 0x5C # CHR ''u'' # hex4 u)"

definition string_units :: "string \<Rightarrow> nat list" where
  "string_units s = concat (map utf16_units (utf8_points (octets s)))"

definition dump_ascii :: "string \<Rightarrow> string" where
  "dump_ascii s = CHR 0x22 # concat (map escape_unit (string_units s)) @ [CHR 0x22]"

abbreviation dumps_ascii :: "json \<Rightarrow> string" where
  "dumps_ascii \<equiv> dumps_with dump_ascii"

section \<open>Strings are recovered from their text\<close>

lemma list_take_hd: "xs @ [q] = ys \<Longrightarrow> xs = butlast ys"
  by auto

text \<open>A table of escapes is prefix-free; a string in quotes then ends where its text says.\<close>

lemma concat_escape_inj:
  assumes esc: "\<And>u v r r'. P u \<Longrightarrow> P v \<Longrightarrow> esc u @ r = esc v @ r' \<Longrightarrow> u = v \<and> r = r'"
    and quote: "\<And>u r r'. P u \<Longrightarrow> esc u @ r \<noteq> q # r'"
  shows "list_all P us \<Longrightarrow> list_all P vs \<Longrightarrow>
         concat (map esc us) @ q # r = concat (map esc vs) @ q # r' \<Longrightarrow> us = vs \<and> r = r'"
proof (induction us arbitrary: vs)
  case Nil
  then show ?case using quote by (cases vs) (auto simp: eq_commute [of "q # _"])
next
  case (Cons u us)
  note IH = Cons.IH and hyps = Cons.prems
  show ?case
  proof (cases vs)
    case Nil
    with hyps quote [of u] show ?thesis by auto
  next
    case (Cons v vs')
    with hyps esc [of u v] have "u = v \<and> concat (map esc us) @ q # r = concat (map esc vs') @ q # r'"
      by auto
    with hyps IH Cons show ?thesis by auto
  qed
qed

lemma char_of_eq_small: "u < 256 \<Longrightarrow> char_of u = c \<longleftrightarrow> u = of_char c" for u :: nat
  by (metis char_of_char mod_less of_char_of)

lemma hex_of_bytes_length: "length (hex_of_bytes bs) = 2 * length bs"
  by (induction bs) auto

text \<open>Reading one unit back from the text.\<close>

definition unescape_unit :: "string \<Rightarrow> nat \<times> string" where
  "unescape_unit t = (case t of
      c # d # ds \<Rightarrow>
        if c \<noteq> CHR 0x5C then (of_char c, d # ds)
        else if d = CHR ''n'' then (10, ds) else if d = CHR ''r'' then (13, ds)
        else if d = CHR ''t'' then (9, ds) else if d = CHR ''b'' then (8, ds)
        else if d = CHR ''f'' then (12, ds)
        else if d = CHR ''u'' then
          (case fromhex (take 4 ds) of Inr bs \<Rightarrow> be_nat bs | Inl _ \<Rightarrow> 0, drop 4 ds)
        else (of_char d, ds)
    | [c] \<Rightarrow> (of_char c, [])
    | [] \<Rightarrow> (0, []))"

lemma hex4_back: "u < 65536 \<Longrightarrow> fromhex (hex4 u) = ok [of_nat (u div 256), of_nat (u mod 256)]"
  unfolding hex4_def by (rule fromhex_hex)

lemma be_nat_hex4: "u < 65536 \<Longrightarrow> be_nat [of_nat (u div 256), of_nat (u mod 256)] = u"
proof -
  assume "u < 65536"
  then have "be_nat (be_bytes 2 u) = u" by (intro be_nat_be_bytes) simp
  moreover have "be_bytes 2 u = [of_nat (u div 256), of_nat (u mod 256)]"
    by (simp add: numeral_2_eq_2 word_of_nat_eq_iff take_bit_eq_mod)
  ultimately show ?thesis by simp
qed

lemma length_hex4 [simp]: "length (hex4 u) = 4"
  by (simp add: hex4_def hex_of_bytes_length)

lemma unescape_escape: "u < 65536 \<Longrightarrow> unescape_unit (escape_unit u @ r) = (u, r)"
proof (cases "u \<in> {34, 92, 10, 13, 9, 8, 12}")
  case True
  then show ?thesis by (auto simp: escape_unit_def unescape_unit_def)
next
  case False
  assume u: "u < 65536"
  show ?thesis
  proof (cases "32 \<le> u \<and> u \<le> 126")
    case True
    with False have "char_of u \<noteq> CHR 0x5C" by (simp add: char_of_eq_small)
    with True False show ?thesis
      by (simp add: escape_unit_def unescape_unit_def split: list.split)
  next
    assume np: "\<not> (32 \<le> u \<and> u \<le> 126)"
    with False have "escape_unit u = CHR 0x5C # CHR ''u'' # hex4 u"
      by (simp add: escape_unit_def)
    with u show ?thesis
      by (simp add: unescape_unit_def hex4_back be_nat_hex4)
  qed
qed

lemma escape_unit_prefix:
  "u < 65536 \<Longrightarrow> v < 65536 \<Longrightarrow> escape_unit u @ r = escape_unit v @ r' \<Longrightarrow> u = v \<and> r = r'"
  by (metis unescape_escape prod.inject)

lemma escape_unit_quote: "escape_unit u @ r \<noteq> CHR 0x22 # r'"
proof -
  have "char_of u = CHR 0x22 \<Longrightarrow> 32 \<le> u \<Longrightarrow> u \<le> 126 \<Longrightarrow> u = 34"
    by (simp add: char_of_eq_small)
  then show ?thesis by (auto simp: escape_unit_def)
qed

text \<open>UTF-8 is recovered from the code points, none of which is a surrogate.\<close>

definition utf8_enc :: "nat \<Rightarrow> nat list" where
  "utf8_enc p =
     (if p < 128 then [p]
      else if p < 2048 then [192 + p div 64, 128 + p mod 64]
      else if p < 65536 then [224 + p div 64 div 64, 128 + p div 64 mod 64, 128 + p mod 64]
      else [240 + p div 64 div 64 div 64, 128 + p div 64 div 64 mod 64, 128 + p div 64 mod 64, 128 + p mod 64])"

definition scalar_value :: "nat \<Rightarrow> bool" where
  "scalar_value p \<longleftrightarrow> p < 55296 \<or> 57344 \<le> p \<and> p < 1114112"

lemma digit64: "y < 64 \<Longrightarrow> (x * 64 + y) div 64 = (x :: nat)" "y < 64 \<Longrightarrow> (x * 64 + y) mod 64 = (y :: nat)"
  by simp_all

lemma enc_point1: "a < 128 \<Longrightarrow> utf8_enc (code_point [a]) = [a] \<and> scalar_value (code_point [a])"
  by (simp add: utf8_enc_def code_point_def lead_bits_def scalar_value_def)

lemma enc_point2:
  assumes "194 \<le> a" "a \<le> 223" "128 \<le> b" "b \<le> 191"
  shows "utf8_enc (code_point [a, b]) = [a, b] \<and> scalar_value (code_point [a, b])"
proof -
  obtain x y where "a = 192 + x" "b = 128 + y" using assms by (metis le_Suc_ex le_trans numeral_le_iff semiring_norm(68,69,71,72,73,76,78,79))
  moreover from calculation have "2 \<le> x" "x < 32" "y < 64" using assms by simp_all
  ultimately show ?thesis
    by (simp add: utf8_enc_def code_point_def lead_bits_def scalar_value_def digit64)
qed

lemma enc_point3:
  assumes "224 \<le> a" "a \<le> 239" "128 \<le> b" "b \<le> 191" "128 \<le> c" "c \<le> 191"
    "a = 224 \<longrightarrow> 160 \<le> b" "a = 237 \<longrightarrow> b \<le> 159"
  shows "utf8_enc (code_point [a, b, c]) = [a, b, c] \<and> scalar_value (code_point [a, b, c])"
proof -
  define x y z p where d: "x = a - 224" "y = b - 128" "z = c - 128" "p = (x * 64 + y) * 64 + z"
  then have v: "a = 224 + x" "b = 128 + y" "c = 128 + z" "y < 64" "z < 64" using assms by simp_all
  have p: "code_point [a, b, c] = p" using assms by (simp add: code_point_def lead_bits_def d)
  have "p div 64 div 64 = x" "p div 64 mod 64 = y" "p mod 64 = z"
    unfolding d(4) by (simp_all only: digit64 v(4,5))
  moreover have x: "x < 16" "x = 0 \<longrightarrow> 32 \<le> y" "x = 13 \<longrightarrow> y < 32" using assms v(1,2) by auto
  moreover have "\<not> p < 2048" using x v(4,5) unfolding d(4) by (cases "x = 0") simp_all
  moreover have "p < 65536" using x(1) v(4,5) unfolding d(4) by simp
  ultimately have "utf8_enc p = [a, b, c]" by (simp add: utf8_enc_def v)
  moreover have "p < 55296 \<or> 57344 \<le> p \<and> p < 1114112"
  proof -
    consider "x < 13" | "x = 13" | "13 < x" by linarith
    then show ?thesis using x v(4,5) unfolding d(4) by cases simp_all
  qed
  then have "scalar_value p" by (simp add: scalar_value_def)
  ultimately show ?thesis by (simp add: p)
qed

lemma enc_point4:
  assumes "240 \<le> a" "a \<le> 244" "128 \<le> b" "b \<le> 191" "128 \<le> c" "c \<le> 191" "128 \<le> d" "d \<le> 191"
    "a = 240 \<longrightarrow> 144 \<le> b" "a = 244 \<longrightarrow> b \<le> 143"
  shows "utf8_enc (code_point [a, b, c, d]) = [a, b, c, d] \<and> scalar_value (code_point [a, b, c, d])"
proof -
  define x y z w p where d: "x = a - 240" "y = b - 128" "z = c - 128" "w = d - 128" "p = ((x * 64 + y) * 64 + z) * 64 + w"
  then have v: "a = 240 + x" "b = 128 + y" "c = 128 + z" "d = 128 + w" "y < 64" "z < 64" "w < 64"
    using assms by simp_all
  have p: "code_point [a, b, c, d] = p" using assms by (simp add: code_point_def lead_bits_def d)
  have "p div 64 div 64 div 64 = x" "p div 64 div 64 mod 64 = y" "p div 64 mod 64 = z" "p mod 64 = w"
    unfolding d(5) by (simp_all only: digit64 v(5-7))
  moreover have x: "x \<le> 4" "x = 0 \<longrightarrow> 16 \<le> y" "x = 4 \<longrightarrow> y < 16" using assms v(1,2) by auto
  moreover have r1: "65536 \<le> p" using x v(5-7) unfolding d(5) by (cases "x = 0") simp_all
  moreover have r2: "p < 1114112" using x v(5-7) unfolding d(5) by (cases "x = 4") simp_all
  ultimately have "utf8_enc p = [a, b, c, d]" by (simp add: utf8_enc_def v)
  moreover have "scalar_value p" using r1 r2 by (simp add: scalar_value_def)
  ultimately show ?thesis by (simp add: p)
qed

text \<open>The first sequence of a valid string.\<close>

lemma utf8_valid_head:
  assumes "utf8_valid (a # bs)"
  defines "k \<equiv> seq_len (unat a) - 1"
  shows "utf8_enc (code_point (unat a # take k (map unat bs))) = unat a # take k (map unat bs)
    \<and> scalar_value (code_point (unat a # take k (map unat bs))) \<and> utf8_valid (drop k bs)"
proof -
  note words = word_less_nat_alt word_le_nat_alt utf8_cont_def
  have eqs: "a = 224 \<longleftrightarrow> unat a = 224" "a = 237 \<longleftrightarrow> unat a = 237" "a = 240 \<longleftrightarrow> unat a = 240" "a = 244 \<longleftrightarrow> unat a = 244"
    by (simp_all add: word_unat_eq_iff)
  show ?thesis
  proof (cases "a < 128")
    case True
    then have "k = 0" by (simp add: k_def seq_len_def words)
    moreover have "utf8_valid bs"
      using assms(1) True by (cases "a # bs" rule: utf8_valid.cases) auto
    ultimately show ?thesis using True enc_point1 [of "unat a"] by (simp add: words)
  next
    case False
    then consider "a \<le> 223" | "223 < a" "a \<le> 239" | "239 < a" by (meson not_le)
    then show ?thesis
    proof cases
      case 1
      with False have "k = 1" by (simp add: k_def seq_len_def words)
      moreover obtain b cs where "bs = b # cs" "194 \<le> a" "utf8_cont b" "utf8_valid cs"
        using assms(1) False 1 by (cases "a # bs" rule: utf8_valid.cases) auto
      ultimately show ?thesis using 1 enc_point2 [of "unat a" "unat b"] by (simp add: words)
    next
      case 2
      then have n2: "\<not> a \<le> 223" by simp
      from 2 False have "k = 2" by (simp add: k_def seq_len_def words)
      moreover obtain b c cs where "bs = b # c # cs" "utf8_cont b" "utf8_cont c" "utf8_valid cs"
          "a = 224 \<longrightarrow> 160 \<le> b" "a = 237 \<longrightarrow> b \<le> 159"
        using assms(1) False 2 n2 by (cases "a # bs" rule: utf8_valid.cases) auto
      ultimately show ?thesis using 2 enc_point3 [of "unat a" "unat b" "unat c"] by (simp add: words eqs)
    next
      case 3
      then have n3: "\<not> a \<le> 223" "\<not> a \<le> 239" by (simp_all add: words)
      from 3 False have "k = 3" by (simp add: k_def seq_len_def words)
      moreover obtain b c d cs where "bs = b # c # d # cs" "a \<le> 244" "utf8_cont b" "utf8_cont c" "utf8_cont d"
          "utf8_valid cs" "a = 240 \<longrightarrow> 144 \<le> b" "a = 244 \<longrightarrow> b \<le> 143"
        using assms(1) False n3 by (cases "a # bs" rule: utf8_valid.cases) auto
      ultimately show ?thesis using 3 enc_point4 [of "unat a" "unat b" "unat c" "unat d"]
        by (simp add: words eqs)
    qed
  qed
qed

lemma utf8_points_enc:
  "utf8_valid bs \<Longrightarrow> concat (map utf8_enc (utf8_points (map unat bs))) = map unat bs
     \<and> list_all scalar_value (utf8_points (map unat bs))"
proof (induction "length bs" arbitrary: bs rule: less_induct)
  case less
  show ?case
  proof (cases bs)
    case (Cons a cs)
    define k where "k = seq_len (unat a) - 1"
    note head = utf8_valid_head [of a cs, folded k_def]
    have "concat (map utf8_enc (utf8_points (drop k (map unat cs)))) = drop k (map unat cs)
        \<and> list_all scalar_value (utf8_points (drop k (map unat cs)))"
      using less.hyps [of "drop k cs"] less.prems head Cons by (simp add: drop_map)
    moreover have "utf8_points (map unat bs) =
        code_point (unat a # take k (map unat cs)) # utf8_points (drop k (map unat cs))"
      by (simp add: Cons k_def Let_def)
    ultimately show ?thesis using less.prems head Cons by simp
  qed simp
qed

lemma octets_encode: "octets s = map unat (encode s)"
  by (simp add: octets_def encode_def byte_of_char_def comp_def unat_of_nat)

lemma string_points_inj:
  assumes "is_str s" "is_str t" "utf8_points (octets s) = utf8_points (octets t)"
  shows "s = t"
proof -
  have "map unat (encode s) = map unat (encode t)"
    by (metis assms is_str_def octets_encode utf8_points_enc)
  moreover have "inj (unat :: byte \<Rightarrow> nat)" by (rule injI) (rule unsigned_word_eqI)
  ultimately show "s = t" by (simp only: inj_map_eq_map encode_inj)
qed

lemma units_inj:
  "list_all scalar_value ps \<Longrightarrow> list_all scalar_value qs \<Longrightarrow>
   concat (map utf16_units ps) = concat (map utf16_units qs) \<Longrightarrow> ps = qs"
proof (induction ps arbitrary: qs)
  case Nil
  then show ?case by (cases qs) (auto simp: utf16_units_def split: if_splits)
next
  case (Cons p ps)
  note IH = Cons.IH and hyps = Cons.prems
  obtain q qs' where qs: "qs = q # qs'"
    using hyps(3) by (cases qs) (auto simp: utf16_units_def split: if_splits)
  have high: "\<not> (55296 \<le> n \<and> n < 56320)" if "n < 65536" "scalar_value n" for n
    using that by (auto simp: scalar_value_def)
  have sur: "55296 \<le> 55296 + (n - 65536) div 1024" "55296 + (n - 65536) div 1024 < 56320"
    if "\<not> n < 65536" "scalar_value n" for n
    using that by (auto simp: scalar_value_def less_mult_imp_div_less)
  have "p = q \<and> concat (map utf16_units ps) = concat (map utf16_units qs')"
  proof (cases "p < 65536"; cases "q < 65536")
    assume "\<not> p < 65536" "\<not> q < 65536"
    with hyps qs have "(p - 65536) div 1024 = (q - 65536) div 1024" "(p - 65536) mod 1024 = (q - 65536) mod 1024"
       "concat (map utf16_units ps) = concat (map utf16_units qs')"
      by (simp_all add: utf16_units_def [of p] utf16_units_def [of q])
    moreover from this(1,2) have "p - 65536 = q - 65536" by (metis div_mult_mod_eq)
    ultimately show ?thesis using \<open>\<not> p < 65536\<close> \<open>\<not> q < 65536\<close> by simp
  next
    assume "p < 65536" "\<not> q < 65536"
    with hyps qs high [of p] sur [of q] show ?thesis by (auto simp: utf16_units_def [of p] utf16_units_def [of q])
  next
    assume "\<not> p < 65536" "q < 65536"
    with hyps qs high [of q] sur [of p] show ?thesis by (auto simp: utf16_units_def [of p] utf16_units_def [of q])
  qed (use hyps qs in \<open>simp add: utf16_units_def [of p] utf16_units_def [of q]\<close>)
  with IH hyps qs show ?case by simp
qed

lemma string_units_less: "is_str s \<Longrightarrow> list_all (\<lambda>u. u < 65536) (string_units s)"
proof -
  assume "is_str s"
  then have "list_all scalar_value (utf8_points (octets s))"
    using utf8_points_enc [of "encode s"] by (simp add: is_str_def octets_encode)
  then show ?thesis
    by (auto simp: string_units_def list_all_iff utf16_units_def scalar_value_def split: if_splits)
qed

lemma dump_ascii_prefix:
  assumes "is_str s" "is_str t" "dump_ascii s @ r = dump_ascii t @ r'"
  shows "s = t \<and> r = r'"
proof -
  have eq: "concat (map escape_unit (string_units s)) @ CHR 0x22 # r
      = concat (map escape_unit (string_units t)) @ CHR 0x22 # r'"
    using assms(3) by (simp add: dump_ascii_def)
  have "string_units s = string_units t \<and> r = r'"
    by (rule concat_escape_inj [where P = "\<lambda>u. u < 65536", OF escape_unit_prefix escape_unit_quote
          string_units_less [OF assms(1)] string_units_less [OF assms(2)] eq])
  moreover have "list_all scalar_value (utf8_points (octets s))" "list_all scalar_value (utf8_points (octets t))"
    using assms utf8_points_enc [of "encode s"] utf8_points_enc [of "encode t"]
    by (simp_all add: is_str_def octets_encode)
  ultimately have "utf8_points (octets s) = utf8_points (octets t)" "r = r'"
    using units_inj by (auto simp: string_units_def)
  with assms string_points_inj show ?thesis by blast
qed

text \<open>The escapes with \<open>ensure_ascii=False\<close>.\<close>

lemma unescape_escape_char: "unescape_unit (escape_char c @ r) = (of_char c, r)"
proof -
  define n where "n = (of_char c :: nat)"
  then have c: "c = char_of n" "n < 256" by simp_all
  have e: "escape_char c = (if n \<in> {34, 92, 10, 13, 9, 8, 12} then escape_unit n
      else if n < 32 then escape_unit n else [c])"
  proof -
    have "n < 32 \<Longrightarrow> hex4 n = ''00'' @ hex_of_bytes [of_nat n]"
      by (simp add: hex4_def hex_digits_def)
    then show ?thesis
      unfolding escape_char_def escape_unit_def Let_def n_def [symmetric] by simp
  qed
  show ?thesis
  proof (cases "n \<in> {34, 92, 10, 13, 9, 8, 12} \<or> n < 32")
    case True
    then have "escape_char c = escape_unit n" using e by auto
    moreover have "unescape_unit (escape_unit n @ r) = (n, r)" using c(2) by (intro unescape_escape) simp
    ultimately show ?thesis by (simp add: n_def)
  next
    case False
    with e have "escape_char c = [c]" by simp
    moreover have "c \<noteq> CHR 0x5C" using False c by (simp add: char_of_eq_small)
    ultimately show ?thesis by (simp add: unescape_unit_def split: list.split)
  qed
qed

lemma escape_char_prefix: "escape_char c @ r = escape_char d @ r' \<Longrightarrow> c = d \<and> r = r'"
  by (metis unescape_escape_char prod.inject char_of_char)

lemma escape_char_quote: "escape_char c @ r \<noteq> CHR 0x22 # r'"
  by (auto simp: escape_char_def Let_def)

lemma dump_string_prefix: "dump_string s @ r = dump_string t @ r' \<Longrightarrow> s = t \<and> r = r'"
  by (rule concat_escape_inj [where P = "\<lambda>_. True", OF escape_char_prefix escape_char_quote])
     (simp_all add: dump_string_def list_all_iff)

section \<open>Values are recovered from their text, up to the order of members\<close>

text \<open>The reference: a value with the members of every object in the order of their keys. Two
  dictionaries with distinct keys are equal in Python iff these forms are.\<close>

function jnorm :: "json \<Rightarrow> json" where
  "jnorm (JList vs) = JList (map jnorm vs)"
| "jnorm (JObj kvs) = JObj (members (map (\<lambda>(k, v). (k, jnorm v)) kvs))"
| "jnorm JNull = JNull"
| "jnorm (JBool b) = JBool b"
| "jnorm (JInt n) = JInt n"
| "jnorm (JFloat r) = JFloat r"
| "jnorm (JStr s) = JStr s"
  by pat_completeness auto
termination
proof (relation "measure size", goal_cases)
  case (2 vs v)
  then show ?case by (induction vs) auto
next
  case (3 kvs x k v)
  then show ?case using member_size [of k v kvs] by simp
qed simp

lemma insort_map_snd:
  "insort_key fst (k, f v) (map (\<lambda>(k, v). (k, f v)) xs) = map (\<lambda>(k, v). (k, f v)) (insort_key fst (k, v) xs)"
  by (induction xs) auto

lemma members_map_snd: "members (map (\<lambda>(k, v). (k, f v)) kvs) = map (\<lambda>(k, v). (k, f v)) (members kvs)"
  by (induction kvs) (auto simp: members_def insort_map_snd)

text \<open>The finite floats \<open>repr\<close> writes: digits, a sign, a point or an exponent.\<close>

definition is_repr :: "string \<Rightarrow> bool" where
  "is_repr r \<longleftrightarrow> list_all (\<lambda>c. is_digit c \<or> c \<in> set ''+-.e'') r \<and> (CHR ''.'' \<in> set r \<or> CHR ''e'' \<in> set r)"

function json_wf :: "(string \<Rightarrow> bool) \<Rightarrow> json \<Rightarrow> bool" where
  "json_wf P (JList vs) = list_all (json_wf P) vs"
| "json_wf P (JObj kvs) = list_all (\<lambda>(k, v). P k \<and> json_wf P v) kvs"
| "json_wf P (JFloat r) = is_repr r"
| "json_wf P (JStr s) = P s"
| "json_wf P JNull = True"
| "json_wf P (JBool b) = True"
| "json_wf P (JInt n) = True"
  by pat_completeness auto
termination
proof (relation "measure (size \<circ> snd)", goal_cases)
  case (2 P vs v)
  then show ?case by (induction vs) auto
next
  case (3 P kvs x k v)
  then show ?case using member_size [of k v kvs] by simp
qed simp

text \<open>An element ends at a delimiter.\<close>

definition delim :: "char \<Rightarrow> bool" where
  "delim c \<longleftrightarrow> c \<in> set '',]}''"

definition ends :: "string \<Rightarrow> bool" where
  "ends r \<longleftrightarrow> r = [] \<or> delim (hd r)"

lemma token_prefix:
  assumes "list_all (\<lambda>c. \<not> delim c) a" "list_all (\<lambda>c. \<not> delim c) b" "ends r" "ends r'" "a @ r = b @ r'"
  shows "a = b \<and> r = r'"
proof -
  have cut: "takeWhile (\<lambda>c. \<not> delim c) (x @ q) = x" if "list_all (\<lambda>c. \<not> delim c) x" "ends q" for x q
    using that by (cases q) (auto simp: ends_def list_all_iff takeWhile_append)
  from cut [OF assms(1,3)] cut [OF assms(2,4)] assms(5) show ?thesis by simp
qed

text \<open>Decimal text.\<close>

lemma str_of_nat_digits: "list_all is_digit (str_of_nat n)"
proof (induction n rule: str_of_nat.induct)
  case (1 n)
  show ?case
    using 1 by (subst str_of_nat.simps) (auto simp: is_digit_def [of "char_of _"])
qed

lemma nat_of_digits_snoc: "nat_of_digits (s @ [c]) = 10 * nat_of_digits s + digit_value c"
  by (simp add: nat_of_digits_def)

lemma nat_of_str_of_nat: "nat_of_digits (str_of_nat n) = n"
proof (induction n rule: str_of_nat.induct)
  case (1 n)
  show ?case
  proof (cases "n < 10")
    case True
    then show ?thesis by (subst str_of_nat.simps) (simp add: nat_of_digits_def digit_value_def)
  next
    case False
    have "n mod 10 < 10" by simp
    then have "48 + n mod 10 < 256" by linarith
    then have "digit_value (char_of (48 + n mod 10)) = n mod 10" by (simp add: digit_value_def)
    with False 1 show ?thesis
      by (subst str_of_nat.simps) (simp add: nat_of_digits_snoc)
  qed
qed

lemma str_of_nat_nonempty: "str_of_nat n \<noteq> []"
  by (subst str_of_nat.simps) simp

lemma digit_not_minus: "is_digit c \<Longrightarrow> c \<noteq> CHR ''-''"
  by (auto simp: is_digit_def)

lemma str_of_nat_no_minus: "str_of_nat n \<noteq> CHR ''-'' # s"
  using str_of_nat_digits [of n] digit_not_minus [of "CHR ''-''"] by auto

lemma str_of_int_inj: "str_of_int m = str_of_int n \<Longrightarrow> m = n"
  unfolding str_of_int_def
  by (metis int_nat_eq list.inject nat_of_str_of_nat neg_0_less_iff_less neg_equal_iff_equal nle_le
      order_less_imp_le str_of_nat_no_minus nat_0_le not_less)

text \<open>A comma-separated list.\<close>

lemma join_Cons: "join '','' (map e (x # xs)) = e x @ concat (map (\<lambda>z. CHR '','' # e z) xs)"
  by (induction xs arbitrary: x) auto

lemma tail_prefix:
  assumes elem: "\<And>x y r r'. x \<in> set xs \<Longrightarrow> y \<in> set ys \<Longrightarrow> ends r \<Longrightarrow> ends r' \<Longrightarrow> e x @ r = e y @ r'
      \<Longrightarrow> key x = key y \<and> r = r'"
    and close: "delim c" "c \<noteq> CHR '',''"
    and eq: "concat (map (\<lambda>z. CHR '','' # e z) xs) @ c # r = concat (map (\<lambda>z. CHR '','' # e z) ys) @ c # r'"
  shows "map key xs = map key ys \<and> r = r'"
  using elem eq
proof (induction xs arbitrary: ys)
  case Nil
  then show ?case using close by (cases ys) auto
next
  case (Cons x xs)
  note IH = Cons.IH and elem = Cons.prems(1) and eq = Cons.prems(2)
  have ends: "ends (concat (map (\<lambda>z. CHR '','' # e z) zs) @ c # q)" for zs q
    using close by (cases zs) (auto simp: ends_def delim_def)
  show ?case
  proof (cases ys)
    case Nil
    with eq close show ?thesis by auto
  next
    case (Cons y ys')
    with eq have "e x @ (concat (map (\<lambda>z. CHR '','' # e z) xs) @ c # r)
        = e y @ (concat (map (\<lambda>z. CHR '','' # e z) ys') @ c # r')" by simp
    from elem [OF _ _ ends ends this] Cons have "key x = key y"
      and "concat (map (\<lambda>z. CHR '','' # e z) xs) @ c # r = concat (map (\<lambda>z. CHR '','' # e z) ys') @ c # r'"
      by auto
    moreover have "map key xs = map key ys' \<and> r = r'"
      by (rule IH) (use elem Cons calculation(2) in \<open>auto\<close>)
    ultimately show ?thesis using Cons by simp
  qed
qed

lemma join_prefix:
  assumes elem: "\<And>x y r r'. x \<in> set xs \<Longrightarrow> y \<in> set ys \<Longrightarrow> ends r \<Longrightarrow> ends r' \<Longrightarrow> e x @ r = e y @ r'
      \<Longrightarrow> key x = key y \<and> r = r'"
    and start: "\<And>x. x \<in> set xs \<union> set ys \<Longrightarrow> e x \<noteq> [] \<and> \<not> delim (hd (e x))"
    and close: "delim c" "c \<noteq> CHR '',''"
    and eq: "join '','' (map e xs) @ c # r = join '','' (map e ys) @ c # r'"
  shows "map key xs = map key ys \<and> r = r'"
proof (cases xs; cases ys)
  fix x xs' y ys' assume xy: "xs = x # xs'" "ys = y # ys'"
  with eq have "concat (map (\<lambda>z. CHR '','' # e z) xs) @ c # r = concat (map (\<lambda>z. CHR '','' # e z) ys) @ c # r'"
    by (simp only: join_Cons) simp
  with elem close show ?thesis by (rule tail_prefix)
next
  fix y ys' assume xy: "xs = []" "ys = y # ys'"
  then have "e y \<noteq> [] \<and> \<not> delim (hd (e y))" using start by simp
  with eq xy close show ?thesis by (simp only: join_Cons) (auto simp: neq_Nil_conv)
next
  fix x xs' assume xy: "xs = x # xs'" "ys = []"
  then have "e x \<noteq> [] \<and> \<not> delim (hd (e x))" using start by simp
  with eq xy close show ?thesis by (simp only: join_Cons) (auto simp: neq_Nil_conv)
qed (use eq in auto)

text \<open>The first character of a text tells the type of the value.\<close>

fun text_kind :: "json \<Rightarrow> nat" where
  "text_kind JNull = 0" | "text_kind (JBool b) = (if b then 1 else 2)" | "text_kind (JInt _) = 3" | "text_kind (JFloat _) = 3"
| "text_kind (JStr _) = 4" | "text_kind (JList _) = 5" | "text_kind (JObj _) = 6"

definition char_kind :: "char \<Rightarrow> nat" where
  "char_kind c = (if c = CHR ''n'' then 0 else if c = CHR ''t'' then 1 else if c = CHR ''f'' then 2
     else if c = CHR 0x22 then 4 else if c = CHR ''['' then 5 else if c = CHR ''{'' then 6 else 3)"

lemma digit_kind: "is_digit c \<or> c \<in> set ''+-.e'' \<Longrightarrow> char_kind c = 3 \<and> \<not> delim c"
proof -
  assume "is_digit c \<or> c \<in> set ''+-.e''"
  then have "c \<notin> set ''ntf[{,]}''" "c \<noteq> CHR 0x22" by (auto simp: is_digit_def)
  then show ?thesis by (simp add: char_kind_def delim_def)
qed

lemma str_of_int_chars: "list_all (\<lambda>c. is_digit c \<or> c = CHR ''-'') (str_of_int n)" "str_of_int n \<noteq> []"
  using str_of_nat_digits [of "nat n"] str_of_nat_digits [of "nat (- n)"] str_of_nat_nonempty
  by (auto simp: str_of_int_def list_all_iff)

lemma int_not_repr: "\<not> is_repr (str_of_int n)"
  using str_of_int_chars(1) [of n] by (auto simp: is_repr_def list_all_iff is_digit_def)

lemma numeric_token: "is_repr r \<Longrightarrow> list_all (\<lambda>c. \<not> delim c) r" "list_all (\<lambda>c. \<not> delim c) (str_of_int n)"
  using digit_kind str_of_int_chars(1) [of n] by (auto simp: is_repr_def list_all_iff)

lemma int_float_text: "is_repr x \<Longrightarrow> ends r \<Longrightarrow> ends r' \<Longrightarrow> str_of_int n @ r \<noteq> x @ r'"
  by (metis int_not_repr numeric_token token_prefix)

locale json_text =
  fixes enc :: "string \<Rightarrow> string" and valid :: "string \<Rightarrow> bool"
  assumes enc_prefix: "valid s \<Longrightarrow> valid t \<Longrightarrow> enc s @ r = enc t @ r' \<Longrightarrow> s = t \<and> r = r'"
    and enc_quote: "\<exists>u. enc s = CHR 0x22 # u"
begin

lemma dumps_hd: "json_wf valid v \<Longrightarrow> \<exists>c cs. dumps_with enc v = c # cs \<and> char_kind c = text_kind v \<and> \<not> delim c"
proof (cases v)
  case (JFloat r)
  moreover assume "json_wf valid v"
  ultimately have "is_repr r" by simp
  then show ?thesis using JFloat digit_kind by (cases r) (auto simp: is_repr_def)
next
  case (JInt n)
  then show ?thesis using str_of_int_chars [of n] digit_kind by (cases "str_of_int n") auto
next
  case (JStr s)
  then show ?thesis using enc_quote [of s] by (auto simp: char_kind_def delim_def)
qed (auto simp: char_kind_def delim_def)

lemma dumps_kind:
  "json_wf valid v \<Longrightarrow> json_wf valid w \<Longrightarrow> dumps_with enc v @ r = dumps_with enc w @ r' \<Longrightarrow> text_kind v = text_kind w"
  using dumps_hd [of v] dumps_hd [of w] by auto

lemma pair_prefix:
  assumes "valid (fst kv)" "valid (fst kv')"
    and "\<And>r r'. ends r \<Longrightarrow> ends r' \<Longrightarrow> dumps_with enc (snd kv) @ r = dumps_with enc (snd kv') @ r'
      \<Longrightarrow> jnorm (snd kv) = jnorm (snd kv') \<and> r = r'"
    and "ends r" "ends r'"
    and "(enc (fst kv) @ '':'' @ dumps_with enc (snd kv)) @ r = (enc (fst kv') @ '':'' @ dumps_with enc (snd kv')) @ r'"
  shows "(fst kv, jnorm (snd kv)) = (fst kv', jnorm (snd kv')) \<and> r = r'"
proof -
  from enc_prefix [OF assms(1,2), of "'':'' @ dumps_with enc (snd kv) @ r" "'':'' @ dumps_with enc (snd kv') @ r'"] assms(6)
  have "fst kv = fst kv'" "dumps_with enc (snd kv) @ r = dumps_with enc (snd kv') @ r'" by auto
  with assms(3-5) show ?thesis by auto
qed

theorem dumps_prefix:
  "json_wf valid v \<Longrightarrow> json_wf valid w \<Longrightarrow> ends r \<Longrightarrow> ends r' \<Longrightarrow>
   dumps_with enc v @ r = dumps_with enc w @ r' \<Longrightarrow> jnorm v = jnorm w \<and> r = r'"
proof (induction v arbitrary: w r r' rule: jnorm.induct)
  case (1 vs)
  then obtain ws where w: "w = JList ws"
    using dumps_kind [of "JList vs" w r r'] by (cases w) (auto split: if_splits)
  have wf: "x \<in> set vs \<union> set ws \<Longrightarrow> json_wf valid x" for x using 1(2,3) w by (auto simp: list_all_iff)
  have "map jnorm vs = map jnorm ws \<and> r = r'"
  proof (rule join_prefix [where e = "dumps_with enc" and c = "CHR '']''"])
    show "dumps_with enc x \<noteq> [] \<and> \<not> delim (hd (dumps_with enc x))" if "x \<in> set vs \<union> set ws" for x
      using dumps_hd [OF wf [OF that]] by auto
    show "jnorm x = jnorm y \<and> q = q'"
      if "x \<in> set vs" "y \<in> set ws" "ends q" "ends q'" "dumps_with enc x @ q = dumps_with enc y @ q'" for x y q q'
      by (rule 1(1)) (use that wf in auto)
  qed (use 1(6) w in \<open>auto simp: delim_def\<close>)
  with w show ?case by simp
next
  case (2 kvs)
  then obtain ls where w: "w = JObj ls"
    using dumps_kind [of "JObj kvs" w r r'] by (cases w) (auto split: if_splits)
  have wf: "x \<in> set (members kvs) \<union> set (members ls) \<Longrightarrow> valid (fst x) \<and> json_wf valid (snd x)" for x
    using 2(2,3) w by (auto simp: list_all_iff case_prod_beta)
  have "map (\<lambda>kv. (fst kv, jnorm (snd kv))) (members kvs) = map (\<lambda>kv. (fst kv, jnorm (snd kv))) (members ls) \<and> r = r'"
  proof (rule join_prefix [where e = "\<lambda>kv. enc (fst kv) @ '':'' @ dumps_with enc (snd kv)" and c = "CHR ''}''"])
    show "enc (fst x) @ '':'' @ dumps_with enc (snd x) \<noteq> [] \<and> \<not> delim (hd (enc (fst x) @ '':'' @ dumps_with enc (snd x)))" for x
      using enc_quote [of "fst x"] by (auto simp: delim_def)
    show "(fst x, jnorm (snd x)) = (fst y, jnorm (snd y)) \<and> q = q'"
      if "x \<in> set (members kvs)" "y \<in> set (members ls)" "ends q" "ends q'"
        "(enc (fst x) @ '':'' @ dumps_with enc (snd x)) @ q = (enc (fst y) @ '':'' @ dumps_with enc (snd y)) @ q'" for x y q q'
      by (rule pair_prefix [OF _ _ _ that(3-5)])
         (use wf [of x] wf [of y] that(1,2) 2(1) [of x "fst x" "snd x"] in auto)
  qed (use 2(6) w in \<open>auto simp: delim_def case_prod_unfold\<close>)
  then show ?case by (simp add: w members_map_snd) (simp add: case_prod_unfold)
next
  case (5 n)
  obtain a where w: "w = JInt a" using 5 dumps_kind [of "JInt n" w r r'] int_float_text [of _ r r' n]
    by (cases w) (auto split: if_splits)
  have "str_of_int n = str_of_int a \<and> r = r'"
    by (rule token_prefix) (use 5 w numeric_token in auto)
  with w str_of_int_inj [of n a] show ?case by simp
next
  case (6 x)
  obtain a where w: "w = JFloat a" using 6 dumps_kind [of "JFloat x" w r r'] int_float_text [of x r' r]
    by (cases w) (auto split: if_splits)
  have "x = a \<and> r = r'"
    by (rule token_prefix) (use 6 w numeric_token in auto)
  with w show ?case by simp
next
  case (7 s)
  then obtain t where "w = JStr t"
    using dumps_kind [of "JStr s" w r r'] by (cases w) (auto split: if_splits)
  with 7 enc_prefix [of s t r r'] show ?case by simp
next
  case (4 b)
  with dumps_kind [of "JBool b" w r r'] show ?case by (cases w) (auto split: if_splits)
next
  case 3
  with dumps_kind [of JNull w r r'] show ?case by (cases w) (auto split: if_splits)
qed

end

interpretation ascii_text: json_text dump_ascii is_str
  by unfold_locales (rule dump_ascii_prefix, simp_all add: dump_ascii_def)

interpretation utf8_text: json_text dump_string "\<lambda>_. True"
  by unfold_locales (rule dump_string_prefix, simp_all add: dump_string_def)

text \<open>Canonical text in both directions: equal values have equal text.\<close>

lemma sort_key_sorted: "sorted (map f xs) \<Longrightarrow> sort_key f xs = xs"
  by (induction xs) (auto simp: insort_is_Cons)

lemma members_members: "members (members l) = members l"
  by (simp add: members_def sort_key_sorted)

lemma dumps_jnorm: "dumps_with enc (jnorm v) = dumps_with enc v"
proof (induction v rule: jnorm.induct)
  case (2 kvs)
  have "map (\<lambda>(k, v). enc k @ '':'' @ dumps_with enc v) (map (\<lambda>(k, v). (k, jnorm v)) (members kvs))
      = map (\<lambda>(k, v). enc k @ '':'' @ dumps_with enc v) (members kvs)"
    using 2 by (auto simp: case_prod_unfold)
  then show ?case by (simp add: members_map_snd members_members del: map_map)
qed (simp_all add: comp_def cong: map_cong)

lemma dumps_ascii_eq_iff:
  assumes "json_wf is_str v" "json_wf is_str w"
  shows "dumps_ascii v = dumps_ascii w \<longleftrightarrow> jnorm v = jnorm w"
  using ascii_text.dumps_prefix [OF assms, of "[]" "[]"] dumps_jnorm [of dump_ascii v] dumps_jnorm [of dump_ascii w]
  by (auto simp: ends_def)

lemma dumps_eq_iff:
  assumes "json_wf (\<lambda>_. True) v" "json_wf (\<lambda>_. True) w"
  shows "dumps v = dumps w \<longleftrightarrow> jnorm v = jnorm w"
  using utf8_text.dumps_prefix [OF assms, of "[]" "[]"] dumps_jnorm [of dump_string v] dumps_jnorm [of dump_string w]
  by (auto simp: ends_def)

end
