(* ===== verification/Manifest_Policy.thy ===== *)
theory Manifest_Policy
  imports Canonical_Json
begin

text \<open>
  The data-policy part of the manifest schema (\<open>manifest/schema.py\<close>): collaboration,
  personalisation, prototypes and the data policy itself, each with its conversion to and from a
  dictionary, its validation, and the checks applied when a swarm is joined.

  The fields of the dataclasses are not type-checked when they are filled from a document, so they
  are \<open>json\<close> values here, and a comparison on a value of the wrong type raises \<open>TypeError\<close>. The
  message of a \<open>ValueError\<close> is its fixed part, without the offending value; an error with a code
  is its code, without the context dictionary.
\<close>

definition MANIFEST_SCHEMA_VERSION :: int where "MANIFEST_SCHEMA_VERSION = 3"

definition NOISE_MECHANISMS :: "string list" where
  "NOISE_MECHANISMS = [''gaussian'', ''laplace'', ''none'']"

section \<open>Helpers\<close>

definition ensure_dict :: "json \<Rightarrow> string \<Rightarrow> (string, json) pydict result" where
  "ensure_dict data ctx = (case data of JObj d \<Rightarrow> ok d | _ \<Rightarrow> raise (ValueError (ctx @ '' must be a dict'')))"

definition check_allowed_keys :: "(string, json) pydict \<Rightarrow> string list \<Rightarrow> string \<Rightarrow> unit result" where
  "check_allowed_keys d allowed ctx =
     check (list_all (\<lambda>(k, _). k \<in> set allowed) d) (ctx @ '' contains unknown fields'')"

definition check_required_keys :: "(string, json) pydict \<Rightarrow> string list \<Rightarrow> string \<Rightarrow> unit result" where
  "check_required_keys d required ctx =
     check (list_all (\<lambda>k. dict_has d k) required) (ctx @ '' is missing required fields'')"

definition require_schema_version :: "(string, json) pydict \<Rightarrow> int \<Rightarrow> string \<Rightarrow> unit result" where
  "require_schema_version d expected ctx =
     check (eq_int (dict_get d ''schema_version'' JNull) expected) (ctx @ ''.schema_version'')"

type_synonym buckets = "(json \<times> json \<times> json) list"

fun bucket_entry :: "string \<Rightarrow> json \<Rightarrow> (json \<times> json \<times> json) result" where
  "bucket_entry ctx (JList [a, b, c]) = ok (a, b, c)"
| "bucket_entry ctx _ = raise (ValueError (ctx @ '' entries must be 3-item lists/tuples''))"

definition normalize_buckets :: "json \<Rightarrow> string \<Rightarrow> buckets result" where
  "normalize_buckets v ctx = (case v of
      JList es \<Rightarrow> result_map (bucket_entry ctx) es
    | _ \<Rightarrow> raise (ValueError (ctx @ '' must be a list'')))"

definition bucket_json :: "json \<times> json \<times> json \<Rightarrow> json" where
  "bucket_json = (\<lambda>(a, b, c). JList [a, b, c])"

definition validate_bucket :: "(json \<Rightarrow> bool) \<Rightarrow> string \<Rightarrow> json \<times> json \<times> json \<Rightarrow> unit result" where
  "validate_bucket isinst ctx = (\<lambda>(name, low, high). first_error
     [check (case name of JStr s \<Rightarrow> s \<noteq> [] | _ \<Rightarrow> False) (ctx @ '' bucket names must be non-empty strings''),
      check (isinst low \<and> isinst high) (ctx @ '' bucket bounds''),
      refuse_if (num_ge low high) (ctx @ '' bucket lower bound must be < upper bound'')])"

definition validate_bucket_spec :: "buckets \<Rightarrow> string \<Rightarrow> (json \<Rightarrow> bool) \<Rightarrow> unit result" where
  "validate_bucket_spec bs ctx isinst = first_error
     (check (bs \<noteq> []) (ctx @ '' must not be empty'') # map (validate_bucket isinst ctx) bs)"

definition in_01 :: "json \<Rightarrow> string \<Rightarrow> unit result" where
  "in_01 v name = result_bind (num_of v) (\<lambda>x.
     check (fl_le (Fin 0) x \<and> fl_le x (Fin 1)) (name @ '' must be in [0, 1]''))"

text \<open>\<open>json.dumps(..., allow_nan=False)\<close> with sorted keys, compact and ASCII-only.\<close>

function finite_json :: "json \<Rightarrow> bool" where
  "finite_json (JList vs) = list_all finite_json vs"
| "finite_json (JObj kvs) = list_all (\<lambda>(_, v). finite_json v) kvs"
| "finite_json (JFloat r) = (case float_of r of Fin _ \<Rightarrow> True | _ \<Rightarrow> False)"
| "finite_json (JStr s) = True"
| "finite_json JNull = True"
| "finite_json (JBool b) = True"
| "finite_json (JInt n) = True"
  by pat_completeness auto
termination
proof (relation "measure size", goal_cases)
  case (2 vs v)
  then show ?case by (induction vs) auto
next
  case (3 kvs x k v)
  then show ?case using member_size [of k v kvs] by simp
qed simp

definition canonical_json :: "json \<Rightarrow> bytes result" where
  "canonical_json v = (if finite_json v then ok (encode (dumps_ascii v))
                       else raise (ValueError ''Out of range float values are not JSON compliant''))"

section \<open>Collaboration policy\<close>

record collaboration_policy =
  cp_version :: json
  cp_mode :: json
  cp_exploration_initial :: json
  cp_exploration_decay :: json
  cp_exploration_min :: json
  cp_affinity_weights :: json
  cp_ema_alpha :: json
  cp_edge_decay_factor :: json
  cp_eviction_min_weight :: json
  cp_cold_start_rounds :: json
  cp_affinity_label_w :: json
  cp_affinity_feature_w :: json
  cp_affinity_gradient_w :: json
  cp_affinity_history_w :: json

definition collaboration_policy_init :: collaboration_policy where
  "collaboration_policy_init = \<lparr>cp_version = JInt 1,
     cp_mode = JStr ''personalized'',
     cp_exploration_initial = JFloat ''0.8'',
     cp_exploration_decay = JFloat ''0.95'',
     cp_exploration_min = JFloat ''0.1'',
     cp_affinity_weights = JNull,
     cp_ema_alpha = JFloat ''0.2'',
     cp_edge_decay_factor = JFloat ''0.95'',
     cp_eviction_min_weight = JFloat ''0.05'',
     cp_cold_start_rounds = JInt 3,
     cp_affinity_label_w = JFloat ''0.4'',
     cp_affinity_feature_w = JFloat ''0.3'',
     cp_affinity_gradient_w = JFloat ''0.15'',
     cp_affinity_history_w = JFloat ''0.15''\<rparr>"

definition collaboration_policy_keys :: "string list" where
  "collaboration_policy_keys = [''version'', ''mode'', ''exploration_initial'', ''exploration_decay'', ''exploration_min'',
     ''ema_alpha'', ''edge_decay_factor'', ''eviction_min_weight'', ''cold_start_rounds'',
     ''affinity_label_w'', ''affinity_feature_w'', ''affinity_gradient_w'', ''affinity_history_w'']"

definition collaboration_policy_to_dict :: "collaboration_policy \<Rightarrow> json" where
  "collaboration_policy_to_dict p = JObj
     [(''version'', cp_version p),
      (''mode'', cp_mode p),
      (''exploration_initial'', cp_exploration_initial p),
      (''exploration_decay'', cp_exploration_decay p),
      (''exploration_min'', cp_exploration_min p),
      (''ema_alpha'', cp_ema_alpha p),
      (''edge_decay_factor'', cp_edge_decay_factor p),
      (''eviction_min_weight'', cp_eviction_min_weight p),
      (''cold_start_rounds'', cp_cold_start_rounds p),
      (''affinity_label_w'', cp_affinity_label_w p),
      (''affinity_feature_w'', cp_affinity_feature_w p),
      (''affinity_gradient_w'', cp_affinity_gradient_w p),
      (''affinity_history_w'', cp_affinity_history_w p)]"

definition collaboration_policy_from_dict :: "bool \<Rightarrow> json \<Rightarrow> collaboration_policy result" where
  "collaboration_policy_from_dict strict data =
     result_bind (ensure_dict data ''CollaborationPolicy'') (\<lambda>d.
     result_bind (if strict then first_error
         [check_allowed_keys d collaboration_policy_keys ''CollaborationPolicy'', check_required_keys d collaboration_policy_keys ''CollaborationPolicy''] else ok ())
       (\<lambda>_. ok \<lparr>cp_version = dict_get d ''version'' (JInt 1),
         cp_mode = dict_get d ''mode'' (JStr ''personalized''),
         cp_exploration_initial = dict_get d ''exploration_initial'' (JFloat ''0.8''),
         cp_exploration_decay = dict_get d ''exploration_decay'' (JFloat ''0.95''),
         cp_exploration_min = dict_get d ''exploration_min'' (JFloat ''0.1''),
         cp_affinity_weights = JNull,
         cp_ema_alpha = dict_get d ''ema_alpha'' (JFloat ''0.2''),
         cp_edge_decay_factor = dict_get d ''edge_decay_factor'' (JFloat ''0.95''),
         cp_eviction_min_weight = dict_get d ''eviction_min_weight'' (JFloat ''0.05''),
         cp_cold_start_rounds = dict_get d ''cold_start_rounds'' (JInt 3),
         cp_affinity_label_w = dict_get d ''affinity_label_w'' (JFloat ''0.4''),
         cp_affinity_feature_w = dict_get d ''affinity_feature_w'' (JFloat ''0.3''),
         cp_affinity_gradient_w = dict_get d ''affinity_gradient_w'' (JFloat ''0.15''),
         cp_affinity_history_w = dict_get d ''affinity_history_w'' (JFloat ''0.15'')\<rparr>))"

definition affinity_weights :: "collaboration_policy \<Rightarrow> json list" where
  "affinity_weights p = [cp_affinity_label_w p, cp_affinity_feature_w p, cp_affinity_gradient_w p, cp_affinity_history_w p]"

definition collaboration_policy_validate :: "collaboration_policy \<Rightarrow> unit result" where
  "collaboration_policy_validate p = first_error
     [in_01 (cp_exploration_initial p) ''exploration_initial'',
      in_01 (cp_exploration_decay p) ''exploration_decay'',
      in_01 (cp_exploration_min p) ''exploration_min'',
      in_01 (cp_ema_alpha p) ''ema_alpha'',
      in_01 (cp_edge_decay_factor p) ''edge_decay_factor'',
      in_01 (cp_eviction_min_weight p) ''eviction_min_weight'',
      in_01 (cp_affinity_label_w p) ''affinity_label_w'',
      in_01 (cp_affinity_feature_w p) ''affinity_feature_w'',
      in_01 (cp_affinity_gradient_w p) ''affinity_gradient_w'',
      in_01 (cp_affinity_history_w p) ''affinity_history_w'',
      result_bind (num_sum (affinity_weights p)) (\<lambda>total.
        check (fl_le (Fin (9 / 10)) total \<and> fl_le total (Fin (11 / 10))) ''Affinity weights must sum to approximately 1.0''),
      refuse_if (num_gt (cp_exploration_min p) (cp_exploration_initial p)) ''exploration_min'',
      refuse_if (num_less (cp_cold_start_rounds p) 1) ''cold_start_rounds must be >= 1'',
      check (in_strs (cp_mode p) [''personalized'', ''standard'', ''agnostic'']) ''mode must be personalized|standard|agnostic'']"

section \<open>Personalisation policy\<close>

record personalization_policy =
  pp_version :: json
  pp_model_split :: json
  pp_apfl_enabled :: json
  pp_apfl_initial_alpha :: json
  pp_fedbn_enabled :: json

definition personalization_policy_init :: personalization_policy where
  "personalization_policy_init = \<lparr>pp_version = JInt 1,
     pp_model_split = JStr ''auto'',
     pp_apfl_enabled = JBool True,
     pp_apfl_initial_alpha = JFloat ''0.5'',
     pp_fedbn_enabled = JBool True\<rparr>"

definition personalization_policy_keys :: "string list" where
  "personalization_policy_keys = [''version'', ''model_split'', ''apfl_enabled'', ''apfl_initial_alpha'', ''fedbn_enabled'']"

definition personalization_policy_to_dict :: "personalization_policy \<Rightarrow> json" where
  "personalization_policy_to_dict p = JObj
     [(''version'', pp_version p),
      (''model_split'', pp_model_split p),
      (''apfl_enabled'', pp_apfl_enabled p),
      (''apfl_initial_alpha'', pp_apfl_initial_alpha p),
      (''fedbn_enabled'', pp_fedbn_enabled p)]"

definition personalization_policy_from_dict :: "bool \<Rightarrow> json \<Rightarrow> personalization_policy result" where
  "personalization_policy_from_dict strict data =
     result_bind (ensure_dict data ''PersonalizationPolicy'') (\<lambda>d.
     result_bind (if strict then first_error
         [check_allowed_keys d personalization_policy_keys ''PersonalizationPolicy'', check_required_keys d personalization_policy_keys ''PersonalizationPolicy''] else ok ())
       (\<lambda>_. ok \<lparr>pp_version = dict_get d ''version'' (JInt 1),
         pp_model_split = dict_get d ''model_split'' (JStr ''auto''),
         pp_apfl_enabled = dict_get d ''apfl_enabled'' (JBool True),
         pp_apfl_initial_alpha = dict_get d ''apfl_initial_alpha'' (JFloat ''0.5''),
         pp_fedbn_enabled = dict_get d ''fedbn_enabled'' (JBool True)\<rparr>))"

definition personalization_policy_validate :: "personalization_policy \<Rightarrow> unit result" where
  "personalization_policy_validate p = first_error
     [check (in_strs (pp_model_split p) [''auto'', ''manual'']) ''model_split must be auto|manual'',
      in_01 (pp_apfl_initial_alpha p) ''apfl_initial_alpha'']"

section \<open>Prototype policy\<close>

record prototype_policy =
  pt_version :: json
  pt_enabled :: json
  pt_alignment_weight :: json
  pt_fedpac_enabled :: json

definition prototype_policy_init :: prototype_policy where
  "prototype_policy_init = \<lparr>pt_version = JInt 1,
     pt_enabled = JBool False,
     pt_alignment_weight = JFloat ''0.1'',
     pt_fedpac_enabled = JBool False\<rparr>"

definition prototype_policy_keys :: "string list" where
  "prototype_policy_keys = [''version'', ''enabled'', ''alignment_weight'', ''fedpac_enabled'']"

definition prototype_policy_to_dict :: "prototype_policy \<Rightarrow> json" where
  "prototype_policy_to_dict p = JObj
     [(''version'', pt_version p),
      (''enabled'', pt_enabled p),
      (''alignment_weight'', pt_alignment_weight p),
      (''fedpac_enabled'', pt_fedpac_enabled p)]"

definition prototype_policy_from_dict :: "bool \<Rightarrow> json \<Rightarrow> prototype_policy result" where
  "prototype_policy_from_dict strict data =
     result_bind (ensure_dict data ''PrototypePolicy'') (\<lambda>d.
     result_bind (if strict then first_error
         [check_allowed_keys d prototype_policy_keys ''PrototypePolicy'', check_required_keys d prototype_policy_keys ''PrototypePolicy''] else ok ())
       (\<lambda>_. ok \<lparr>pt_version = dict_get d ''version'' (JInt 1),
         pt_enabled = dict_get d ''enabled'' (JBool False),
         pt_alignment_weight = dict_get d ''alignment_weight'' (JFloat ''0.1''),
         pt_fedpac_enabled = dict_get d ''fedpac_enabled'' (JBool False)\<rparr>))"

definition prototype_policy_validate :: "prototype_policy \<Rightarrow> unit result" where
  "prototype_policy_validate p = first_error
     [refuse_if (num_less (pt_alignment_weight p) 0) ''alignment_weight must be >= 0'',
      check (\<not> (truthy (pt_fedpac_enabled p) \<and> \<not> truthy (pt_enabled p))) ''fedpac_enabled requires prototypes.enabled = true'']"

section \<open>Data policy\<close>

record data_policy =
  dp_version :: json
  dp_schema_version :: json
  dp_fingerprint_enabled :: json
  dp_min_affinity :: json
  dp_privacy_level :: json
  dp_label_granularity :: json
  dp_label_buckets :: buckets
  dp_feature_noise_sigma :: json
  dp_feature_clip_norm :: json
  dp_feature_dp_epsilon :: json
  dp_feature_dp_delta :: json
  dp_feature_sensitivity :: json
  dp_feature_noise_mechanism :: json
  dp_sample_count_buckets :: buckets
  dp_gradient_fingerprint :: json
  dp_gradient_noise_sigma :: json
  dp_gradient_dp_epsilon :: json
  dp_gradient_dp_delta :: json
  dp_gradient_sensitivity :: json
  dp_gradient_noise_mechanism :: json
  dp_class_count_buckets :: buckets
  dp_min_classes_to_reveal :: json
  dp_hash_label_keys :: json
  dp_label_key_hash_length :: json
  dp_collaboration :: collaboration_policy
  dp_personalization :: personalization_policy
  dp_prototypes :: prototype_policy

definition default_label_buckets :: buckets where
  "default_label_buckets = [(JStr ''low'', JFloat ''0.0'', JFloat ''0.2''),
     (JStr ''medium'', JFloat ''0.2'', JFloat ''0.5''),
     (JStr ''high'', JFloat ''0.5'', JFloat ''1.0'')]"

definition default_sample_count_buckets :: buckets where
  "default_sample_count_buckets = [(JStr ''0-100'', JInt 0, JInt 100),
     (JStr ''100-1k'', JInt 100, JInt 1000),
     (JStr ''1k-10k'', JInt 1000, JInt 10000),
     (JStr ''10k-100k'', JInt 10000, JInt 100000),
     (JStr ''100k+'', JInt 100000, JInt 1000000000)]"

definition default_class_count_buckets :: buckets where
  "default_class_count_buckets = [(JStr ''sparse'', JInt 0, JInt 2),
     (JStr ''small'', JInt 2, JInt 6),
     (JStr ''medium'', JInt 6, JInt 11),
     (JStr ''large'', JInt 11, JInt 1000000)]"

definition data_policy_init :: data_policy where
  "data_policy_init = \<lparr>dp_version = JInt 1,
     dp_schema_version = JInt MANIFEST_SCHEMA_VERSION,
     dp_fingerprint_enabled = JBool True,
     dp_min_affinity = JFloat ''0.3'',
     dp_privacy_level = JStr ''standard'',
     dp_label_granularity = JStr ''bucket'',
     dp_label_buckets = default_label_buckets,
     dp_feature_noise_sigma = JFloat ''0.1'',
     dp_feature_clip_norm = JFloat ''5.0'',
     dp_feature_dp_epsilon = JNull,
     dp_feature_dp_delta = JFloat ''1e-05'',
     dp_feature_sensitivity = JNull,
     dp_feature_noise_mechanism = JStr ''gaussian'',
     dp_sample_count_buckets = default_sample_count_buckets,
     dp_gradient_fingerprint = JBool False,
     dp_gradient_noise_sigma = JFloat ''0.05'',
     dp_gradient_dp_epsilon = JNull,
     dp_gradient_dp_delta = JFloat ''1e-05'',
     dp_gradient_sensitivity = JNull,
     dp_gradient_noise_mechanism = JStr ''gaussian'',
     dp_class_count_buckets = default_class_count_buckets,
     dp_min_classes_to_reveal = JInt 2,
     dp_hash_label_keys = JBool True,
     dp_label_key_hash_length = JInt 16,
     dp_collaboration = collaboration_policy_init,
     dp_personalization = personalization_policy_init,
     dp_prototypes = prototype_policy_init\<rparr>"

definition data_policy_keys :: "string list" where
  "data_policy_keys = [''schema_version'', ''fingerprint_enabled'', ''min_affinity'', ''privacy_level'',
     ''label_granularity'', ''label_buckets'', ''feature_noise_sigma'', ''feature_clip_norm'',
     ''feature_dp_epsilon'', ''feature_dp_delta'', ''feature_sensitivity'',
     ''feature_noise_mechanism'', ''sample_count_buckets'', ''gradient_fingerprint'',
     ''gradient_noise_sigma'', ''gradient_dp_epsilon'', ''gradient_dp_delta'',
     ''gradient_sensitivity'', ''gradient_noise_mechanism'', ''class_count_buckets'',
     ''min_classes_to_reveal'', ''hash_label_keys'', ''label_key_hash_length'', ''collaboration'',
     ''personalization'', ''prototypes'']"

definition data_policy_to_dict :: "data_policy \<Rightarrow> json" where
  "data_policy_to_dict p = JObj
     [(''schema_version'', dp_schema_version p),
      (''fingerprint_enabled'', dp_fingerprint_enabled p),
      (''min_affinity'', dp_min_affinity p),
      (''privacy_level'', dp_privacy_level p),
      (''label_granularity'', dp_label_granularity p),
      (''label_buckets'', JList (map bucket_json (dp_label_buckets p))),
      (''feature_noise_sigma'', dp_feature_noise_sigma p),
      (''feature_clip_norm'', dp_feature_clip_norm p),
      (''feature_dp_epsilon'', dp_feature_dp_epsilon p),
      (''feature_dp_delta'', dp_feature_dp_delta p),
      (''feature_sensitivity'', dp_feature_sensitivity p),
      (''feature_noise_mechanism'', dp_feature_noise_mechanism p),
      (''sample_count_buckets'', JList (map bucket_json (dp_sample_count_buckets p))),
      (''gradient_fingerprint'', dp_gradient_fingerprint p),
      (''gradient_noise_sigma'', dp_gradient_noise_sigma p),
      (''gradient_dp_epsilon'', dp_gradient_dp_epsilon p),
      (''gradient_dp_delta'', dp_gradient_dp_delta p),
      (''gradient_sensitivity'', dp_gradient_sensitivity p),
      (''gradient_noise_mechanism'', dp_gradient_noise_mechanism p),
      (''class_count_buckets'', JList (map bucket_json (dp_class_count_buckets p))),
      (''min_classes_to_reveal'', dp_min_classes_to_reveal p),
      (''hash_label_keys'', dp_hash_label_keys p),
      (''label_key_hash_length'', dp_label_key_hash_length p),
      (''collaboration'', collaboration_policy_to_dict (dp_collaboration p)),
      (''personalization'', personalization_policy_to_dict (dp_personalization p)),
      (''prototypes'', prototype_policy_to_dict (dp_prototypes p))]"

definition data_policy_from_dict :: "bool \<Rightarrow> json \<Rightarrow> data_policy result" where
  "data_policy_from_dict strict data =
     result_bind (ensure_dict data ''DataPolicy'') (\<lambda>d.
     result_bind (if strict then first_error
         [check_allowed_keys d data_policy_keys ''DataPolicy'',
          check_required_keys d data_policy_keys ''DataPolicy'',
          require_schema_version d MANIFEST_SCHEMA_VERSION ''DataPolicy''] else ok ()) (\<lambda>_.
     let collab_data = dict_get d ''collaboration'' (collaboration_policy_to_dict collaboration_policy_init);
         pers_data = dict_get d ''personalization'' (personalization_policy_to_dict personalization_policy_init);
         proto_data = dict_get d ''prototypes'' (prototype_policy_to_dict prototype_policy_init)
     in
     result_bind (normalize_buckets (dict_get d ''label_buckets'' (JList (map bucket_json default_label_buckets)))
         ''DataPolicy.label_buckets'') (\<lambda>label_buckets.
     result_bind (normalize_buckets (dict_get d ''sample_count_buckets'' (JList (map bucket_json default_sample_count_buckets)))
         ''DataPolicy.sample_count_buckets'') (\<lambda>sample_count_buckets.
     result_bind (normalize_buckets (dict_get d ''class_count_buckets'' (JList (map bucket_json default_class_count_buckets)))
         ''DataPolicy.class_count_buckets'') (\<lambda>class_count_buckets.
     result_bind (collaboration_policy_from_dict strict collab_data) (\<lambda>collaboration.
     result_bind (personalization_policy_from_dict strict pers_data) (\<lambda>personalization.
     result_bind (prototype_policy_from_dict strict proto_data) (\<lambda>prototypes.
     ok \<lparr>dp_version = JInt 1,
       dp_schema_version = dict_get d ''schema_version'' (JInt MANIFEST_SCHEMA_VERSION),
       dp_fingerprint_enabled = dict_get d ''fingerprint_enabled'' (JBool True),
       dp_min_affinity = dict_get d ''min_affinity'' (JFloat ''0.3''),
       dp_privacy_level = dict_get d ''privacy_level'' (JStr ''standard''),
       dp_label_granularity = dict_get d ''label_granularity'' (JStr ''bucket''),
       dp_label_buckets = label_buckets,
       dp_feature_noise_sigma = dict_get d ''feature_noise_sigma'' (JFloat ''0.1''),
       dp_feature_clip_norm = dict_get d ''feature_clip_norm'' (JFloat ''5.0''),
       dp_feature_dp_epsilon = dict_get d ''feature_dp_epsilon'' (JNull),
       dp_feature_dp_delta = dict_get d ''feature_dp_delta'' (JFloat ''1e-05''),
       dp_feature_sensitivity = dict_get d ''feature_sensitivity'' (JNull),
       dp_feature_noise_mechanism = dict_get d ''feature_noise_mechanism'' (JStr ''gaussian''),
       dp_sample_count_buckets = sample_count_buckets,
       dp_gradient_fingerprint = dict_get d ''gradient_fingerprint'' (JBool False),
       dp_gradient_noise_sigma = dict_get d ''gradient_noise_sigma'' (JFloat ''0.05''),
       dp_gradient_dp_epsilon = dict_get d ''gradient_dp_epsilon'' (JNull),
       dp_gradient_dp_delta = dict_get d ''gradient_dp_delta'' (JFloat ''1e-05''),
       dp_gradient_sensitivity = dict_get d ''gradient_sensitivity'' (JNull),
       dp_gradient_noise_mechanism = dict_get d ''gradient_noise_mechanism'' (JStr ''gaussian''),
       dp_class_count_buckets = class_count_buckets,
       dp_min_classes_to_reveal = dict_get d ''min_classes_to_reveal'' (JInt 2),
       dp_hash_label_keys = dict_get d ''hash_label_keys'' (JBool True),
       dp_label_key_hash_length = dict_get d ''label_key_hash_length'' (JInt 16),
       dp_collaboration = collaboration,
       dp_personalization = personalization,
       dp_prototypes = prototypes\<rparr>))))))))"

text \<open>\<open>v is not None and v <= 0.0\<close>, and \<open>not (0.0 < v < 1.0)\<close>.\<close>

definition set_and_nonpositive :: "json \<Rightarrow> bool result" where
  "set_and_nonpositive v = (if v = JNull then ok False else num_le v 0)"

definition outside_open_01 :: "json \<Rightarrow> bool result" where
  "outside_open_01 v = result_bind (num_of v) (\<lambda>x. ok (\<not> (fl_less (Fin 0) x \<and> fl_less x (Fin 1))))"

text \<open>\<open>v not in {...}\<close>.\<close>

definition not_in_set :: "json \<Rightarrow> string list \<Rightarrow> bool result" where
  "not_in_set v ss = result_bind (in_str_set v ss) (\<lambda>b. ok (\<not> b))"

definition data_policy_validate :: "data_policy \<Rightarrow> unit result" where
  "data_policy_validate p = first_error
     [check (eq_int (dp_schema_version p) MANIFEST_SCHEMA_VERSION) ''schema_version'',
      in_01 (dp_min_affinity p) ''min_affinity'',
      refuse_if (num_less (dp_feature_noise_sigma p) 0) ''feature_noise_sigma must be >= 0'',
      refuse_if (num_le (dp_feature_clip_norm p) 0) ''feature_clip_norm must be > 0'',
      check (in_strs (dp_privacy_level p) [''strict'', ''standard'', ''relaxed'']) ''privacy_level must be strict|standard|relaxed'',
      check (in_strs (dp_label_granularity p) [''exact'', ''bucket'', ''coarse'']) ''label_granularity must be exact|bucket|coarse'',
      refuse_if (not_in_set (dp_feature_noise_mechanism p) NOISE_MECHANISMS) ''feature_noise_mechanism'',
      refuse_if (not_in_set (dp_gradient_noise_mechanism p) NOISE_MECHANISMS) ''gradient_noise_mechanism'',
      refuse_if (set_and_nonpositive (dp_feature_dp_epsilon p)) ''feature_dp_epsilon must be > 0'',
      refuse_if (set_and_nonpositive (dp_gradient_dp_epsilon p)) ''gradient_dp_epsilon must be > 0'',
      refuse_if (outside_open_01 (dp_feature_dp_delta p)) ''feature_dp_delta must be in (0, 1)'',
      refuse_if (outside_open_01 (dp_gradient_dp_delta p)) ''gradient_dp_delta must be in (0, 1)'',
      refuse_if (set_and_nonpositive (dp_feature_sensitivity p)) ''feature_sensitivity must be > 0'',
      refuse_if (set_and_nonpositive (dp_gradient_sensitivity p)) ''gradient_sensitivity must be > 0'',
      refuse_if (num_less (dp_gradient_noise_sigma p) 0) ''gradient_noise_sigma must be >= 0'',
      refuse_if (num_less (dp_min_classes_to_reveal p) 0) ''min_classes_to_reveal must be >= 0'',
      refuse_if (num_less (dp_label_key_hash_length p) 1) ''label_key_hash_length must be >= 1'',
      validate_bucket_spec (dp_label_buckets p) ''label_buckets'' is_float,
      validate_bucket_spec (dp_sample_count_buckets p) ''sample_count_buckets'' is_int,
      validate_bucket_spec (dp_class_count_buckets p) ''class_count_buckets'' is_int,
      collaboration_policy_validate (dp_collaboration p),
      personalization_policy_validate (dp_personalization p),
      prototype_policy_validate (dp_prototypes p)]"

definition apply_join_policy :: "data_policy \<Rightarrow> unit result" where
  "apply_join_policy p = first_error
     [data_policy_validate p,
      if dp_privacy_level p = JStr ''strict'' then first_error
        [check (dp_label_granularity p \<noteq> JStr ''exact'') ''strict requires label_granularity != exact'',
         refuse_if (num_less (dp_feature_noise_sigma p) (1 / 2)) ''strict requires feature_noise_sigma >= 0.5'',
         refuse_if (num_less (dp_gradient_noise_sigma p) (1 / 5)) ''strict requires gradient_noise_sigma >= 0.2'',
         check (truthy (dp_hash_label_keys p)) ''strict requires hash_label_keys=True'']
      else if dp_privacy_level p = JStr ''relaxed'' then
        check (dp_label_granularity p \<noteq> JStr ''coarse'') ''relaxed should not use label_granularity=coarse''
      else ok (),
      check (\<not> (cp_mode (dp_collaboration p) = JStr ''personalized'' \<and> \<not> truthy (dp_fingerprint_enabled p)))
        ''personalized requires fingerprint_enabled=True'',
      if dp_feature_dp_epsilon p \<noteq> JNull then
        refuse_if (num_le (dp_feature_noise_sigma p) 0) ''feature_dp_epsilon is set but feature_noise_sigma=0''
      else ok (),
      if dp_gradient_dp_epsilon p \<noteq> JNull then first_error
        [refuse_if (num_le (dp_gradient_noise_sigma p) 0) ''gradient_dp_epsilon is set but gradient_noise_sigma=0'',
         check (truthy (dp_gradient_fingerprint p)) ''gradient_dp_epsilon is set but gradient_fingerprint=False'']
      else ok (),
      if cp_mode (dp_collaboration p) = JStr ''personalized'' then
        result_bind (num_sum (affinity_weights (dp_collaboration p))) (\<lambda>total.
          check (\<not> fl_le total (Fin 0)) ''personalized requires at least one non-zero affinity weight'')
      else ok ()]"

definition data_policy_canonical_bytes :: "data_policy \<Rightarrow> bytes result" where
  "data_policy_canonical_bytes p = canonical_json (data_policy_to_dict p)"

definition data_policy_hash :: "(bytes \<Rightarrow> bytes) \<Rightarrow> data_policy \<Rightarrow> string result" where
  "data_policy_hash sha p = result_bind (data_policy_canonical_bytes p) (\<lambda>b. ok (hex_of_bytes (sha b)))"

section \<open>Reading back what was written\<close>

lemma dict_get_Cons [simp]: "dict_get ((k', v) # d) k x = (if k = k' then v else dict_get d k x)"
  by (auto simp: dict_get_def)

lemma dict_get_Nil [simp]: "dict_get [] k x = x"
  by (simp add: dict_get_def)

lemma map_bucket_entry: "result_map (bucket_entry ctx) (map bucket_json bs) = ok bs"
  by (induction bs) (auto simp: bucket_json_def)

lemma normalize_bucket_json [simp]: "normalize_buckets (JList (map bucket_json bs)) ctx = ok bs"
  by (simp add: normalize_buckets_def map_bucket_entry)

lemma ensure_dict_JObj [simp]: "ensure_dict (JObj d) ctx = ok d"
  by (simp add: ensure_dict_def)

lemma collaboration_policy_round_trip:
  "collaboration_policy_from_dict s (collaboration_policy_to_dict p) = ok (p\<lparr>cp_affinity_weights := JNull\<rparr>)"
  by (simp add: collaboration_policy_from_dict_def collaboration_policy_to_dict_def collaboration_policy_keys_def
      check_allowed_keys_def check_required_keys_def check_def)

lemma personalization_policy_round_trip:
  "personalization_policy_from_dict s (personalization_policy_to_dict p) = ok p"
  by (simp add: personalization_policy_from_dict_def personalization_policy_to_dict_def
      personalization_policy_keys_def check_allowed_keys_def check_required_keys_def check_def)

lemma prototype_policy_round_trip:
  "prototype_policy_from_dict s (prototype_policy_to_dict p) = ok p"
  by (simp add: prototype_policy_from_dict_def prototype_policy_to_dict_def
      prototype_policy_keys_def check_allowed_keys_def check_required_keys_def check_def)

text \<open>The two fields a dictionary does not carry come back with their defaults.\<close>

definition policy_reset :: "data_policy \<Rightarrow> data_policy" where
  "policy_reset p = p\<lparr>dp_version := JInt 1,
     dp_collaboration := (dp_collaboration p)\<lparr>cp_affinity_weights := JNull\<rparr>\<rparr>"

lemma data_policy_strict_keys:
  "eq_int (dp_schema_version p) MANIFEST_SCHEMA_VERSION \<Longrightarrow> \<exists>d. data_policy_to_dict p = JObj d \<and>
     first_error [check_allowed_keys d data_policy_keys ''DataPolicy'',
          check_required_keys d data_policy_keys ''DataPolicy'',
          require_schema_version d MANIFEST_SCHEMA_VERSION ''DataPolicy''] = ok ()"
  by (simp add: data_policy_to_dict_def data_policy_keys_def check_allowed_keys_def check_required_keys_def
      require_schema_version_def check_def)

lemma data_policy_round_trip:
  assumes "s \<Longrightarrow> eq_int (dp_schema_version p) MANIFEST_SCHEMA_VERSION"
  shows "data_policy_from_dict s (data_policy_to_dict p) = ok (policy_reset p)"
proof -
  have "(if s then first_error
     [check_allowed_keys d data_policy_keys ''DataPolicy'', check_required_keys d data_policy_keys ''DataPolicy'',
      require_schema_version d MANIFEST_SCHEMA_VERSION ''DataPolicy''] else ok ()) = ok ()"
    if "data_policy_to_dict p = JObj d" for d
    using that assms data_policy_strict_keys [of p] by (cases s) auto
  then show ?thesis
    by (simp add: data_policy_from_dict_def data_policy_to_dict_def collaboration_policy_round_trip
        personalization_policy_round_trip prototype_policy_round_trip policy_reset_def Let_def)
qed

lemma collaboration_policy_loaded: "collaboration_policy_from_dict s v = ok p \<Longrightarrow> cp_affinity_weights p = JNull"
  by (auto simp: collaboration_policy_from_dict_def result_bind_eq_ok)

lemma dict_get_eq_int: "eq_int (dict_get d k JNull) n \<Longrightarrow> dict_get d k x = dict_get d k JNull"
  by (simp add: dict_get_def eq_int_def split: option.splits)

lemma data_policy_loaded:
  assumes "data_policy_from_dict s v = ok p"
  shows "policy_reset p = p" "s \<Longrightarrow> eq_int (dp_schema_version p) MANIFEST_SCHEMA_VERSION"
proof -
  obtain d c where "collaboration_policy_from_dict s (dict_get d ''collaboration'' (collaboration_policy_to_dict collaboration_policy_init)) = ok c"
    and keys: "(if s then first_error [check_allowed_keys d data_policy_keys ''DataPolicy'',
          check_required_keys d data_policy_keys ''DataPolicy'',
          require_schema_version d MANIFEST_SCHEMA_VERSION ''DataPolicy''] else ok ()) = ok ()"
    and p: "dp_version p = JInt 1" "dp_collaboration p = c"
      "dp_schema_version p = dict_get d ''schema_version'' (JInt MANIFEST_SCHEMA_VERSION)"
    using assms unfolding data_policy_from_dict_def Let_def result_bind_eq_ok by (elim exE conjE) auto
  then show "policy_reset p = p" by (simp add: policy_reset_def collaboration_policy_loaded)
  show "eq_int (dp_schema_version p) MANIFEST_SCHEMA_VERSION" if s
    using keys that
      dict_get_eq_int [of d "''schema_version''" MANIFEST_SCHEMA_VERSION "JInt MANIFEST_SCHEMA_VERSION"]
    by (simp add: p checks require_schema_version_def del: first_error.simps)
qed

section \<open>What a validated policy guarantees\<close>

definition unit_value :: "json \<Rightarrow> bool" where
  "unit_value v \<longleftrightarrow> (\<exists>q. num_of v = ok (Fin q) \<and> 0 \<le> q \<and> q \<le> 1)"

lemma in_01_ok [checks]: "in_01 v n = ok () \<longleftrightarrow> unit_value v"
  by (cases "num_of v") (auto simp: in_01_def unit_value_def checks fl_le_Fin_between)

lemma outside_open_01_ok: "outside_open_01 v = ok False \<longleftrightarrow> (\<exists>q. num_of v = ok (Fin q) \<and> 0 < q \<and> q < 1)"
  by (cases "num_of v") (auto simp: outside_open_01_def fl_less_Fin_between)

lemma not_in_set_ok: "not_in_set v ss = ok False \<longleftrightarrow> in_strs v ss"
  by (cases "in_str_set v ss") (auto simp: not_in_set_def in_str_set_ok_True [symmetric])

text \<open>A noise level that is at least \<open>c\<close>; a NaN passes every comparison of the code.\<close>

definition at_least :: "json \<Rightarrow> rat \<Rightarrow> bool" where
  "at_least v c \<longleftrightarrow> (\<exists>x. num_of v = ok x \<and> (x = NaN \<or> fl_le (Fin c) x))"

definition more_than :: "json \<Rightarrow> rat \<Rightarrow> bool" where
  "more_than v c \<longleftrightarrow> (\<exists>x. num_of v = ok x \<and> (x = NaN \<or> fl_less (Fin c) x))"

lemma num_less_refused: "num_less v c = ok False \<longleftrightarrow> at_least v c"
proof (cases "num_of v")
  case (Inr x)
  then show ?thesis by (cases x) (auto simp: num_less_def at_least_def)
qed (auto simp: num_less_def at_least_def)

lemma num_le_refused: "num_le v c = ok False \<longleftrightarrow> more_than v c"
proof (cases "num_of v")
  case (Inr x)
  then show ?thesis by (cases x) (auto simp: num_le_def more_than_def)
qed (auto simp: num_le_def more_than_def)

definition optional_positive :: "json \<Rightarrow> bool" where
  "optional_positive v \<longleftrightarrow> v = JNull \<or> more_than v 0"

lemma set_and_nonpositive_ok: "set_and_nonpositive v = ok False \<longleftrightarrow> optional_positive v"
  by (auto simp: set_and_nonpositive_def optional_positive_def num_le_refused)

lemmas policy_checks = checks num_less_refused num_le_refused set_and_nonpositive_ok outside_open_01_ok not_in_set_ok

definition bucket_ok :: "(json \<Rightarrow> bool) \<Rightarrow> json \<times> json \<times> json \<Rightarrow> bool" where
  "bucket_ok isinst = (\<lambda>(name, low, high). (\<exists>s. name = JStr s \<and> s \<noteq> []) \<and> isinst low \<and> isinst high
     \<and> num_ge low high = ok False)"

lemma bucket_spec_ok: "validate_bucket_spec bs ctx isinst = ok () \<longleftrightarrow> bs \<noteq> [] \<and> list_all (bucket_ok isinst) bs"
  by (auto simp: validate_bucket_spec_def validate_bucket_def bucket_ok_def checks list_all_iff simp del: first_error.simps
      split: json.splits)

lemma four_values:
  assumes "\<exists>q. P a q" "\<exists>q. P b q" "\<exists>q. P c q" "\<exists>q. P d q"
  shows "\<exists>qs. list_all2 P [a, b, c, d] qs"
proof -
  from assms obtain w x y z where "list_all2 P [a, b, c, d] [w, x, y, z]" by auto
  then show ?thesis by blast
qed

lemma affinity_sum:
  assumes "collaboration_policy_validate c = ok ()"
  shows "\<exists>qs. list_all2 (\<lambda>v q. num_of v = ok (Fin q) \<and> 0 \<le> q \<and> q \<le> 1) (affinity_weights c) qs
    \<and> 9 / 10 \<le> sum_list qs \<and> sum_list qs \<le> 11 / 10"
proof -
  have "unit_value (cp_affinity_label_w c)" "unit_value (cp_affinity_feature_w c)"
      "unit_value (cp_affinity_gradient_w c)" "unit_value (cp_affinity_history_w c)"
    and sum: "result_bind (num_sum (affinity_weights c)) (\<lambda>total.
        check (fl_le (Fin (9 / 10)) total \<and> fl_le total (Fin (11 / 10))) ''Affinity weights must sum to approximately 1.0'') = ok ()"
    using assms by (simp_all add: collaboration_policy_validate_def checks del: first_error.simps)
  then obtain qs where qs: "list_all2 (\<lambda>v q. num_of v = ok (Fin q) \<and> 0 \<le> q \<and> q \<le> 1) (affinity_weights c) qs"
    using four_values [where P = "\<lambda>v q. num_of v = ok (Fin q) \<and> 0 \<le> q \<and> q \<le> 1"]
    unfolding unit_value_def affinity_weights_def by blast
  then have "num_sum (affinity_weights c) = ok (Fin (sum_list qs))"
    by (intro num_sum_Fin) (auto elim: list_all2_mono)
  with sum qs show ?thesis by (auto simp: check_ok)
qed

definition exploration_rates :: "collaboration_policy \<Rightarrow> json list" where
  "exploration_rates p = [cp_exploration_initial p, cp_exploration_decay p, cp_exploration_min p, cp_ema_alpha p,
     cp_edge_decay_factor p, cp_eviction_min_weight p]"

lemma exploration_bounded:
  assumes "collaboration_policy_validate c = ok ()"
  shows "list_all unit_value (exploration_rates c)"
    "\<exists>x y. num_of (cp_exploration_min c) = ok (Fin x) \<and> num_of (cp_exploration_initial c) = ok (Fin y) \<and> x \<le> y"
    "in_strs (cp_mode c) [''personalized'', ''standard'', ''agnostic''] \<and> at_least (cp_cold_start_rounds c) 1"
proof -
  have u: "list_all unit_value (exploration_rates c)"
    and m: "num_gt (cp_exploration_min c) (cp_exploration_initial c) = ok False"
    and r: "in_strs (cp_mode c) [''personalized'', ''standard'', ''agnostic''] \<and> at_least (cp_cold_start_rounds c) 1"
    using assms by (simp_all add: collaboration_policy_validate_def exploration_rates_def policy_checks del: first_error.simps)
  show "list_all unit_value (exploration_rates c)" by (rule u)
  show "in_strs (cp_mode c) [''personalized'', ''standard'', ''agnostic''] \<and> at_least (cp_cold_start_rounds c) 1" by (rule r)
  obtain x y where "num_of (cp_exploration_min c) = ok (Fin x)" "num_of (cp_exploration_initial c) = ok (Fin y)"
    using u by (auto simp: exploration_rates_def unit_value_def)
  with m show "\<exists>x y. num_of (cp_exploration_min c) = ok (Fin x) \<and> num_of (cp_exploration_initial c) = ok (Fin y) \<and> x \<le> y"
    by (auto simp: num_gt_def not_less)
qed

text \<open>C26: Joining a swarm enforces its privacy policy. A policy that \<open>apply_join_policy\<close> accepts has exploration rates, edge
  rates and affinity weights in the unit interval, with an exploration floor not above the initial rate and weights
  that add up to 1 within a tenth, a known collaboration mode and at least one cold-start round; under strict privacy the
  labels are not exact, the feature noise is at least 0.5, the gradient noise at least 0.2 and label keys are hashed; a privacy
  budget comes with noise; personalised collaboration has fingerprints. (A noise level or a number of rounds that is NaN
  passes all these comparisons.)\<close>

theorem join_policy_enforced:
  assumes "apply_join_policy p = ok ()"
  shows "unit_value (dp_min_affinity p) \<and> list_all unit_value (exploration_rates (dp_collaboration p)) \<and>
    (\<exists>x y. num_of (cp_exploration_min (dp_collaboration p)) = ok (Fin x) \<and>
       num_of (cp_exploration_initial (dp_collaboration p)) = ok (Fin y) \<and> x \<le> y) \<and>
    in_strs (cp_mode (dp_collaboration p)) [''personalized'', ''standard'', ''agnostic''] \<and>
    at_least (cp_cold_start_rounds (dp_collaboration p)) 1 \<and>
    (\<exists>qs. list_all2 (\<lambda>v q. num_of v = ok (Fin q) \<and> 0 \<le> q \<and> q \<le> 1) (affinity_weights (dp_collaboration p)) qs
       \<and> 9 / 10 \<le> sum_list qs \<and> sum_list qs \<le> 11 / 10) \<and>
    (dp_privacy_level p = JStr ''strict'' \<longrightarrow>
       in_strs (dp_label_granularity p) [''bucket'', ''coarse''] \<and> at_least (dp_feature_noise_sigma p) (1 / 2)
       \<and> at_least (dp_gradient_noise_sigma p) (1 / 5) \<and> truthy (dp_hash_label_keys p)) \<and>
    optional_positive (dp_feature_dp_epsilon p) \<and> optional_positive (dp_gradient_dp_epsilon p) \<and>
    (dp_feature_dp_epsilon p \<noteq> JNull \<longrightarrow> more_than (dp_feature_noise_sigma p) 0) \<and>
    (dp_gradient_dp_epsilon p \<noteq> JNull \<longrightarrow> more_than (dp_gradient_noise_sigma p) 0 \<and> truthy (dp_gradient_fingerprint p)) \<and>
    (cp_mode (dp_collaboration p) = JStr ''personalized'' \<longrightarrow> truthy (dp_fingerprint_enabled p))"
proof -
  have v: "data_policy_validate p = ok ()"
    and join: "dp_privacy_level p = JStr ''strict'' \<Longrightarrow> dp_label_granularity p \<noteq> JStr ''exact''
        \<and> at_least (dp_feature_noise_sigma p) (1 / 2) \<and> at_least (dp_gradient_noise_sigma p) (1 / 5)
        \<and> truthy (dp_hash_label_keys p)"
      "dp_feature_dp_epsilon p \<noteq> JNull \<Longrightarrow> more_than (dp_feature_noise_sigma p) 0"
      "dp_gradient_dp_epsilon p \<noteq> JNull \<Longrightarrow> more_than (dp_gradient_noise_sigma p) 0 \<and> truthy (dp_gradient_fingerprint p)"
      "cp_mode (dp_collaboration p) = JStr ''personalized'' \<Longrightarrow> truthy (dp_fingerprint_enabled p)"
    using assms by (simp_all add: apply_join_policy_def policy_checks del: first_error.simps)
  from v have "unit_value (dp_min_affinity p)" "in_strs (dp_label_granularity p) [''exact'', ''bucket'', ''coarse'']"
      "optional_positive (dp_feature_dp_epsilon p)" "optional_positive (dp_gradient_dp_epsilon p)"
    and c: "collaboration_policy_validate (dp_collaboration p) = ok ()"
    by (simp_all add: data_policy_validate_def policy_checks del: first_error.simps)
  with join affinity_sum [OF c] exploration_bounded [OF c] show ?thesis by (auto simp: in_strs_iff)
qed

definition strict_policy :: data_policy where
  "strict_policy = data_policy_init\<lparr>dp_privacy_level := JStr ''strict'',
     dp_feature_noise_sigma := JFloat ''0.5'', dp_gradient_noise_sigma := JFloat ''0.2''\<rparr>"

lemma join_policy_enforced_witness:
  "apply_join_policy strict_policy = ok () \<and> at_least (dp_feature_noise_sigma strict_policy) (1 / 2)"
proof -
  have "apply_join_policy strict_policy = ok ()" "dp_privacy_level strict_policy = JStr ''strict''" by code_simp+
  with join_policy_enforced [of strict_policy] show ?thesis by simp
qed

end
