(* ===== verification/Manifest_Schema.thy ===== *)
theory Manifest_Schema
  imports Manifest_Policy
begin

text \<open>
  The swarm manifest (\<open>manifest/schema.py\<close>): the task, model, Byzantine and telemetry blocks,
  and \<open>SwarmManifest\<close> with its conversion to and from a dictionary (strict and lenient), the checks
  of every field, full validation with the size limit, the canonical bytes and their hash, and the
  \<open>.qgl\<close> file.

  \<open>json.loads\<close> and SHA-256 are parameters, as are the clock reading \<open>now\<close> and the text \<open>rep\<close>
  that \<open>str\<close> gives for a list or dictionary. A time stamp is the list of its year, month, day, hour,
  minute, second and microsecond, in the lexicographic order.
\<close>

definition ERR_MANIFEST_INVALID_JSON :: string where "ERR_MANIFEST_INVALID_JSON = ''ERR_MANIFEST_INVALID_JSON''"
definition ERR_MANIFEST_NOT_OBJECT :: string where "ERR_MANIFEST_NOT_OBJECT = ''ERR_MANIFEST_NOT_OBJECT''"
definition ERR_MANIFEST_SCHEMA_VERSION :: string where "ERR_MANIFEST_SCHEMA_VERSION = ''ERR_MANIFEST_SCHEMA_VERSION''"
definition ERR_MANIFEST_UNKNOWN_KEYS :: string where "ERR_MANIFEST_UNKNOWN_KEYS = ''ERR_MANIFEST_UNKNOWN_KEYS''"
definition ERR_MANIFEST_MISSING_KEYS :: string where "ERR_MANIFEST_MISSING_KEYS = ''ERR_MANIFEST_MISSING_KEYS''"
definition ERR_MANIFEST_FIELD_INVALID :: string where "ERR_MANIFEST_FIELD_INVALID = ''ERR_MANIFEST_FIELD_INVALID''"
definition ERR_MANIFEST_EXPIRED :: string where "ERR_MANIFEST_EXPIRED = ''ERR_MANIFEST_EXPIRED''"

definition QGL_MAX_BYTES :: nat where "QGL_MAX_BYTES = 1048576"
definition MAX_MANIFEST_SIZE :: nat where "MAX_MANIFEST_SIZE = 10240"
definition NAME_MAX_LEN :: nat where "NAME_MAX_LEN = 128"
definition DESCRIPTION_MAX_LEN :: nat where "DESCRIPTION_MAX_LEN = 1024"
definition TAGS_MAX :: nat where "TAGS_MAX = 16"

definition TASK_TYPES :: "string list" where
  "TASK_TYPES = [''classification'', ''regression'', ''segmentation'', ''detection'']"
definition LABEL_TYPES :: "string list" where
  "LABEL_TYPES = [''integer'', ''float'', ''binary'', ''multiclass'', ''multilabel'']"
definition FRAMEWORKS :: "string list" where
  "FRAMEWORKS = [''pytorch'', ''tensorflow'', ''custom'']"
definition PEER_KINDS :: "string list" where "PEER_KINDS = [''ipv8'', ''tunnel'']"
definition ENROLLMENT_MODES :: "string list" where "ENROLLMENT_MODES = [''invite-required'', ''none'']"

section \<open>Patterns\<close>

definition ARCH_HASH_RE :: "string \<Rightarrow> bool" where
  "ARCH_HASH_RE s = dollar (prefixed_hex ''sha256:'' 64) s"
definition ED25519_PUBKEY_RE :: "string \<Rightarrow> bool" where
  "ED25519_PUBKEY_RE s = dollar (prefixed_hex ''ed25519:'' 64) s"
definition ED25519_SIG_RE :: "string \<Rightarrow> bool" where
  "ED25519_SIG_RE s = dollar (prefixed_hex ''ed25519:'' 128) s"

definition is_tag_char :: "char \<Rightarrow> bool" where
  "is_tag_char c \<longleftrightarrow> is_digit c \<or> 97 \<le> (of_char c :: nat) \<and> (of_char c :: nat) \<le> 122"

definition TAG_RE :: "string \<Rightarrow> bool" where
  "TAG_RE s = dollar (\<lambda>t. case t of [] \<Rightarrow> False
     | c # cs \<Rightarrow> is_tag_char c \<and> list_all (\<lambda>d. is_tag_char d \<or> d = CHR ''-'') cs \<and> length cs \<le> 31) s"

definition PEER_ID_HEX_RE :: "string \<Rightarrow> bool" where
  "PEER_ID_HEX_RE s = dollar (\<lambda>t. t \<noteq> [] \<and> list_all (\<lambda>c. hex_value c \<noteq> None) t) s"

section \<open>Time stamps\<close>

type_synonym datetime = "int list"

definition rfc3339_shape :: "string \<Rightarrow> bool" where
  "rfc3339_shape t \<longleftrightarrow> 20 \<le> length t
     \<and> list_all (\<lambda>i. is_digit (t ! i)) [0, 1, 2, 3, 5, 6, 8, 9, 11, 12, 14, 15, 17, 18]
     \<and> t ! 4 = CHR ''-'' \<and> t ! 7 = CHR ''-'' \<and> t ! 10 = CHR ''T'' \<and> t ! 13 = CHR '':'' \<and> t ! 16 = CHR '':''
     \<and> last t = CHR ''Z''
     \<and> (length t = 20 \<or> t ! 19 = CHR ''.'' \<and> 22 \<le> length t \<and> length t \<le> 27
          \<and> list_all is_digit (butlast (drop 20 t)))"

definition leap_year :: "int \<Rightarrow> bool" where
  "leap_year y \<longleftrightarrow> 4 dvd y \<and> (\<not> 100 dvd y \<or> 400 dvd y)"

definition days_in_month :: "int \<Rightarrow> int \<Rightarrow> int" where
  "days_in_month y m = (if m = 2 then if leap_year y then 29 else 28
                        else if m \<in> {4, 6, 9, 11} then 30 else 31)"

definition int_of_digits :: "string \<Rightarrow> int" where
  "int_of_digits s = foldl (\<lambda>a c. 10 * a + int (digit_value c)) 0 s"

definition slice_num :: "string \<Rightarrow> nat \<Rightarrow> nat \<Rightarrow> int" where
  "slice_num t i n = int_of_digits (take n (drop i t))"

text \<open>\<open>datetime.fromisoformat\<close> on text of this shape (Python 3.11 or later; 3.10 takes a fraction of
  three or six digits only): the fields have to be in range.\<close>

definition fromisoformat :: "string \<Rightarrow> datetime option" where
  "fromisoformat t =
     (let y = slice_num t 0 4; mo = slice_num t 5 2; d = slice_num t 8 2;
          h = slice_num t 11 2; mi = slice_num t 14 2; s = slice_num t 17 2;
          frac = butlast (drop 20 t);
          us = int_of_digits frac * 10 ^ (6 - length frac)
      in if 1 \<le> y \<and> 1 \<le> mo \<and> mo \<le> 12 \<and> 1 \<le> d \<and> d \<le> days_in_month y mo \<and> h \<le> 23 \<and> mi \<le> 59 \<and> s \<le> 59
         then Some [y, mo, d, h, mi, s, us] else None)"

definition parse_rfc3339 :: "json \<Rightarrow> datetime result" where
  "parse_rfc3339 v = (case v of
      JStr s \<Rightarrow> if \<not> dollar rfc3339_shape s then raise (ValueError ERR_MANIFEST_FIELD_INVALID)
               else if last s \<noteq> CHR ''Z'' then raise (ValueError ERR_MANIFEST_FIELD_INVALID)
               else (case fromisoformat s of Some t \<Rightarrow> ok t | None \<Rightarrow> raise (ValueError ERR_MANIFEST_FIELD_INVALID))
    | _ \<Rightarrow> raise (ValueError ERR_MANIFEST_FIELD_INVALID))"

section \<open>Task\<close>

record task_spec =
  ts_type :: json
  ts_input_shape :: "json list"
  ts_output_shape :: "json list"
  ts_label_type :: json
  ts_tags :: "json list"

definition task_spec_init :: task_spec where
  "task_spec_init = \<lparr>ts_type = JStr ''classification'', ts_input_shape = [JInt 1], ts_output_shape = [JInt 1],
     ts_label_type = JStr ''integer'', ts_tags = []\<rparr>"

definition task_spec_keys :: "string list" where
  "task_spec_keys = [''type'', ''input_shape'', ''output_shape'', ''label_type'', ''tags'']"

definition task_spec_to_dict :: "task_spec \<Rightarrow> json" where
  "task_spec_to_dict t = JObj
     [(''type'', ts_type t),
      (''input_shape'', JList (ts_input_shape t)),
      (''output_shape'', JList (ts_output_shape t)),
      (''label_type'', ts_label_type t),
      (''tags'', JList (ts_tags t))]"

text \<open>The three steps the v3 blocks share: the value is an object, then in strict mode no unknown and
  no missing key.\<close>

definition block_dict :: "json \<Rightarrow> (string, json) pydict result" where
  "block_dict data = (case data of JObj d \<Rightarrow> ok d | _ \<Rightarrow> raise (ValueError ERR_MANIFEST_FIELD_INVALID))"

definition no_unknown :: "(string, json) pydict \<Rightarrow> string list \<Rightarrow> unit result" where
  "no_unknown d allowed = check (list_all (\<lambda>(k, _). k \<in> set allowed) d) ERR_MANIFEST_UNKNOWN_KEYS"

definition none_missing :: "(string, json) pydict \<Rightarrow> string list \<Rightarrow> unit result" where
  "none_missing d required = check (list_all (\<lambda>k. dict_has d k) required) ERR_MANIFEST_MISSING_KEYS"

definition task_spec_from_dict :: "bool \<Rightarrow> json \<Rightarrow> task_spec result" where
  "task_spec_from_dict strict data =
     result_bind (block_dict data) (\<lambda>d.
     result_bind (if strict then first_error [no_unknown d task_spec_keys, none_missing d task_spec_keys] else ok ()) (\<lambda>_.
     result_bind (py_list (dict_get d ''input_shape'' (JList [JInt 1]))) (\<lambda>input_shape.
     result_bind (py_list (dict_get d ''output_shape'' (JList [JInt 1]))) (\<lambda>output_shape.
     result_bind (py_list (dict_get d ''tags'' (JList []))) (\<lambda>tags.
     ok \<lparr>ts_type = dict_get d ''type'' (JStr ''classification''),
       ts_input_shape = input_shape,
       ts_output_shape = output_shape,
       ts_label_type = dict_get d ''label_type'' (JStr ''integer''),
       ts_tags = tags\<rparr>)))))"

definition positive_int :: "json \<Rightarrow> bool" where
  "positive_int v = (case v of JInt n \<Rightarrow> 0 < n | _ \<Rightarrow> False)"

definition validate_shape :: "json list \<Rightarrow> unit result" where
  "validate_shape shape = first_error
     (check (shape \<noteq> []) ERR_MANIFEST_FIELD_INVALID # map (\<lambda>dim. check (positive_int dim) ERR_MANIFEST_FIELD_INVALID) shape)"

definition str_matches :: "(string \<Rightarrow> bool) \<Rightarrow> json \<Rightarrow> bool" where
  "str_matches re v = (case v of JStr s \<Rightarrow> re s | _ \<Rightarrow> False)"

definition task_spec_validate :: "task_spec \<Rightarrow> unit result" where
  "task_spec_validate t = first_error
     ([refuse_if (not_in_set (ts_type t) TASK_TYPES) ERR_MANIFEST_FIELD_INVALID,
       refuse_if (not_in_set (ts_label_type t) LABEL_TYPES) ERR_MANIFEST_FIELD_INVALID,
       validate_shape (ts_input_shape t),
       validate_shape (ts_output_shape t),
       check (length (ts_tags t) \<le> TAGS_MAX) ERR_MANIFEST_FIELD_INVALID]
      @ map (\<lambda>tag. check (str_matches TAG_RE tag) ERR_MANIFEST_FIELD_INVALID) (ts_tags t))"

section \<open>Model\<close>

definition default_arch_hash :: string where
  "default_arch_hash = ''sha256:'' @ replicate 64 (CHR ''0'')"

record model_spec =
  ms_framework :: json
  ms_arch_hash :: json
  ms_arch_spec :: json
  ms_genesis_weights_hash :: json
  ms_genesis_weights_url :: json

definition model_spec_init :: model_spec where
  "model_spec_init = \<lparr>ms_framework = JStr ''custom'', ms_arch_hash = JStr default_arch_hash, ms_arch_spec = JNull,
     ms_genesis_weights_hash = JNull, ms_genesis_weights_url = JNull\<rparr>"

definition model_spec_keys :: "string list" where
  "model_spec_keys = [''framework'', ''arch_hash'', ''arch_spec'', ''genesis_weights_hash'', ''genesis_weights_url'']"

definition model_spec_to_dict :: "model_spec \<Rightarrow> json" where
  "model_spec_to_dict m = JObj
     [(''framework'', ms_framework m),
      (''arch_hash'', ms_arch_hash m),
      (''arch_spec'', ms_arch_spec m),
      (''genesis_weights_hash'', ms_genesis_weights_hash m),
      (''genesis_weights_url'', ms_genesis_weights_url m)]"

definition model_spec_from_dict :: "bool \<Rightarrow> json \<Rightarrow> model_spec result" where
  "model_spec_from_dict strict data =
     result_bind (block_dict data) (\<lambda>d.
     result_bind (if strict then first_error [no_unknown d model_spec_keys, none_missing d model_spec_keys] else ok ()) (\<lambda>_.
     ok \<lparr>ms_framework = dict_get d ''framework'' (JStr ''custom''),
       ms_arch_hash = dict_get d ''arch_hash'' (JStr default_arch_hash),
       ms_arch_spec = dict_get d ''arch_spec'' JNull,
       ms_genesis_weights_hash = dict_get d ''genesis_weights_hash'' JNull,
       ms_genesis_weights_url = dict_get d ''genesis_weights_url'' JNull\<rparr>))"

definition null_or :: "(json \<Rightarrow> bool) \<Rightarrow> json \<Rightarrow> bool" where
  "null_or P v \<longleftrightarrow> v = JNull \<or> P v"

definition is_string :: "json \<Rightarrow> bool" where
  "is_string v = (case v of JStr _ \<Rightarrow> True | _ \<Rightarrow> False)"

definition is_object :: "json \<Rightarrow> bool" where
  "is_object v = (case v of JObj _ \<Rightarrow> True | _ \<Rightarrow> False)"

definition model_spec_validate :: "model_spec \<Rightarrow> unit result" where
  "model_spec_validate m = first_error
     [refuse_if (not_in_set (ms_framework m) FRAMEWORKS) ERR_MANIFEST_FIELD_INVALID,
      check (str_matches ARCH_HASH_RE (ms_arch_hash m)) ERR_MANIFEST_FIELD_INVALID,
      check (null_or is_object (ms_arch_spec m)) ERR_MANIFEST_FIELD_INVALID,
      check (null_or (str_matches ARCH_HASH_RE) (ms_genesis_weights_hash m)) ERR_MANIFEST_FIELD_INVALID,
      check (null_or is_string (ms_genesis_weights_url m)) ERR_MANIFEST_FIELD_INVALID]"

section \<open>Byzantine tolerance and telemetry\<close>

record byzantine_spec =
  bz_f :: int
  bz_enforce_n_gt_2f_plus_2 :: bool

definition byzantine_spec_init :: byzantine_spec where
  "byzantine_spec_init = \<lparr>bz_f = 0, bz_enforce_n_gt_2f_plus_2 = False\<rparr>"

definition byzantine_spec_to_dict :: "byzantine_spec \<Rightarrow> json" where
  "byzantine_spec_to_dict b = JObj
     [(''f'', JInt (bz_f b)), (''enforce_n_gt_2f_plus_2'', JBool (bz_enforce_n_gt_2f_plus_2 b))]"

definition byzantine_spec_from_dict :: "bool \<Rightarrow> json \<Rightarrow> byzantine_spec result" where
  "byzantine_spec_from_dict strict data =
     result_bind (block_dict data) (\<lambda>d.
     result_bind (if strict then no_unknown d [''f'', ''enforce_n_gt_2f_plus_2''] else ok ()) (\<lambda>_.
     result_bind (py_int_json (dict_get d ''f'' (JInt 0))) (\<lambda>f.
     ok \<lparr>bz_f = f, bz_enforce_n_gt_2f_plus_2 = truthy (dict_get d ''enforce_n_gt_2f_plus_2'' (JBool False))\<rparr>)))"

definition byzantine_spec_validate :: "byzantine_spec \<Rightarrow> unit result" where
  "byzantine_spec_validate b = check (0 \<le> bz_f b) ERR_MANIFEST_FIELD_INVALID"

record telemetry_config =
  tm_dashboard_url :: string
  tm_enrollment :: string

definition telemetry_config_init :: telemetry_config where
  "telemetry_config_init = \<lparr>tm_dashboard_url = [], tm_enrollment = ''none''\<rparr>"

definition telemetry_config_to_dict :: "telemetry_config \<Rightarrow> json" where
  "telemetry_config_to_dict t = JObj
     [(''dashboard_url'', JStr (tm_dashboard_url t)), (''enrollment'', JStr (tm_enrollment t))]"

text \<open>\<open>str(v or dflt)\<close>.\<close>

definition str_or :: "(json \<Rightarrow> string) \<Rightarrow> json \<Rightarrow> string \<Rightarrow> string" where
  "str_or rep v dflt = (if truthy v then py_str rep v else dflt)"

definition telemetry_config_from_dict :: "(json \<Rightarrow> string) \<Rightarrow> bool \<Rightarrow> json \<Rightarrow> telemetry_config result" where
  "telemetry_config_from_dict rep strict data =
     (if data = JNull then ok telemetry_config_init else
      result_bind (ensure_dict data ''TelemetryConfig'') (\<lambda>d.
      result_bind (if strict then check_allowed_keys d [''dashboard_url'', ''enrollment''] ''TelemetryConfig'' else ok ()) (\<lambda>_.
      ok \<lparr>tm_dashboard_url = str_or rep (dict_get d ''dashboard_url'' JNull) [],
        tm_enrollment = str_or rep (dict_get d ''enrollment'' JNull) ''none''\<rparr>)))"

definition startswith :: "string \<Rightarrow> string \<Rightarrow> bool" where
  "startswith s p \<longleftrightarrow> take (length p) s = p"

definition endswith :: "string \<Rightarrow> string \<Rightarrow> bool" where
  "endswith s p \<longleftrightarrow> length p \<le> length s \<and> drop (length s - length p) s = p"

definition telemetry_config_validate :: "telemetry_config \<Rightarrow> unit result" where
  "telemetry_config_validate t = first_error
     [check (tm_dashboard_url t = [] \<or> startswith (tm_dashboard_url t) ''https://''
        \<or> startswith (tm_dashboard_url t) ''http://'') ERR_MANIFEST_FIELD_INVALID,
      check (\<not> endswith (tm_dashboard_url t) ''/api'') ERR_MANIFEST_FIELD_INVALID,
      check (tm_enrollment t \<in> set ENROLLMENT_MODES) ERR_MANIFEST_FIELD_INVALID]"

section \<open>The manifest\<close>

definition V3_ALLOWED_TOP_KEYS :: "string list" where
  "V3_ALLOWED_TOP_KEYS = [''schema_version'', ''model_arch_fingerprint'', ''data_schema_hash'', ''aggregation'',
     ''topology'', ''compression'', ''data_policy'', ''name'', ''description'', ''created_at'',
     ''expires_at'', ''task'', ''model'', ''byzantine'', ''round_limit'', ''bootstrap_peers'',
     ''tracker_urls'', ''creator_pubkey'', ''signature'', ''telemetry'']"

definition V3_REQUIRED_TOP_KEYS :: "string list" where
  "V3_REQUIRED_TOP_KEYS = [''schema_version'', ''model_arch_fingerprint'', ''data_schema_hash'', ''aggregation'',
     ''topology'', ''compression'', ''data_policy'', ''name'', ''created_at'', ''task'', ''model'']"

record swarm_manifest =
  sm_schema_version :: json
  sm_model_arch_fingerprint :: json
  sm_data_schema_hash :: json
  sm_aggregation_name :: json
  sm_aggregation_params :: json
  sm_topology_name :: json
  sm_topology_params :: json
  sm_compression_enabled :: json
  sm_compression_params :: json
  sm_data_policy :: data_policy
  sm_name :: json
  sm_description :: json
  sm_created_at :: json
  sm_expires_at :: json
  sm_task :: task_spec
  sm_model :: model_spec
  sm_byzantine :: byzantine_spec
  sm_round_limit :: json
  sm_bootstrap_peers :: "json list"
  sm_tracker_urls :: "json list"
  sm_creator_pubkey :: json
  sm_signature :: json
  sm_telemetry :: telemetry_config

definition swarm_manifest_init :: swarm_manifest where
  "swarm_manifest_init = \<lparr>sm_schema_version = JInt MANIFEST_SCHEMA_VERSION,
     sm_model_arch_fingerprint = JStr [],
     sm_data_schema_hash = JStr [],
     sm_aggregation_name = JStr ''FedAvg'',
     sm_aggregation_params = JObj [],
     sm_topology_name = JStr ''Random'',
     sm_topology_params = JObj [],
     sm_compression_enabled = JBool False,
     sm_compression_params = JObj [],
     sm_data_policy = data_policy_init,
     sm_name = JStr ''unnamed'',
     sm_description = JStr [],
     sm_created_at = JStr ''1970-01-01T00:00:00Z'',
     sm_expires_at = JNull,
     sm_task = task_spec_init,
     sm_model = model_spec_init,
     sm_byzantine = byzantine_spec_init,
     sm_round_limit = JNull,
     sm_bootstrap_peers = [],
     sm_tracker_urls = [],
     sm_creator_pubkey = JNull,
     sm_signature = JNull,
     sm_telemetry = telemetry_config_init\<rparr>"

text \<open>\<open>dict(v)\<close>. A list is read as a list of pairs; a key that is not a string, which a JSON object
  cannot hold, is an error here.\<close>

definition pair_entry :: "json \<Rightarrow> (string \<times> json) result" where
  "pair_entry e = result_bind (py_list e) (\<lambda>kv. case kv of
      [JStr k, v] \<Rightarrow> ok (k, v)
    | [_, _] \<Rightarrow> raise TypeError
    | _ \<Rightarrow> raise (ValueError ''dictionary update sequence element''))"

fun py_dict :: "json \<Rightarrow> json result" where
  "py_dict (JObj d) = ok (JObj d)"
| "py_dict (JList es) = result_bind (result_map pair_entry es) (\<lambda>kvs.
     ok (JObj (foldl (\<lambda>d (k, v). AList.update k v d) [] kvs)))"
| "py_dict (JStr s) = (if s = [] then ok (JObj []) else raise (ValueError ''dictionary update sequence element''))"
| "py_dict _ = raise TypeError"

definition manifest_to_dict :: "swarm_manifest \<Rightarrow> (string, json) pydict result" where
  "manifest_to_dict m =
     result_bind (result_map py_dict (sm_bootstrap_peers m)) (\<lambda>peers.
     result_bind (result_map py_list (sm_tracker_urls m)) (\<lambda>tiers.
     ok
     [(''schema_version'', sm_schema_version m),
      (''model_arch_fingerprint'', sm_model_arch_fingerprint m),
      (''data_schema_hash'', sm_data_schema_hash m),
      (''aggregation'', JObj [(''name'', sm_aggregation_name m), (''params'', sm_aggregation_params m)]),
      (''topology'', JObj [(''name'', sm_topology_name m), (''params'', sm_topology_params m)]),
      (''compression'', JObj [(''enabled'', sm_compression_enabled m), (''params'', sm_compression_params m)]),
      (''data_policy'', data_policy_to_dict (sm_data_policy m)),
      (''name'', sm_name m),
      (''description'', sm_description m),
      (''created_at'', sm_created_at m),
      (''expires_at'', sm_expires_at m),
      (''task'', task_spec_to_dict (sm_task m)),
      (''model'', model_spec_to_dict (sm_model m)),
      (''byzantine'', byzantine_spec_to_dict (sm_byzantine m)),
      (''round_limit'', sm_round_limit m),
      (''bootstrap_peers'', JList peers),
      (''tracker_urls'', JList (map JList tiers)),
      (''creator_pubkey'', sm_creator_pubkey m),
      (''signature'', sm_signature m),
      (''telemetry'', telemetry_config_to_dict (sm_telemetry m))]))"

section \<open>Field checks\<close>

definition valid_name :: "json \<Rightarrow> bool" where
  "valid_name v = (case v of
      JStr s \<Rightarrow> 1 \<le> py_len s \<and> py_len s \<le> NAME_MAX_LEN \<and> list_all (\<lambda>c. 32 \<le> (of_char c :: nat)) s
    | _ \<Rightarrow> False)"

definition valid_description :: "json \<Rightarrow> bool" where
  "valid_description v = (case v of JStr s \<Rightarrow> py_len s \<le> DESCRIPTION_MAX_LEN | _ \<Rightarrow> False)"

definition validate_times :: "datetime \<Rightarrow> swarm_manifest \<Rightarrow> unit result" where
  "validate_times now m =
     result_bind (parse_rfc3339 (sm_created_at m)) (\<lambda>created.
     if sm_expires_at m = JNull then ok () else
     result_bind (parse_rfc3339 (sm_expires_at m)) (\<lambda>expires.
     if expires \<le> created then raise (ValueError ERR_MANIFEST_FIELD_INVALID)
     else if expires < now then raise (ValueError ERR_MANIFEST_EXPIRED)
     else ok ()))"

definition natural_int :: "json \<Rightarrow> bool" where
  "natural_int v = (case v of JInt n \<Rightarrow> 0 \<le> n | _ \<Rightarrow> False)"

definition validate_peer :: "json \<Rightarrow> unit result" where
  "validate_peer peer = (case peer of
      JObj d \<Rightarrow> first_error
        [refuse_if (not_in_set (dict_get d ''kind'' JNull) PEER_KINDS) ERR_MANIFEST_FIELD_INVALID,
         check (str_matches PEER_ID_HEX_RE (dict_get d ''peer_id'' JNull)) ERR_MANIFEST_FIELD_INVALID,
         check (str_matches (\<lambda>s. CHR '':'' \<in> set s) (dict_get d ''address'' JNull)) ERR_MANIFEST_FIELD_INVALID]
    | _ \<Rightarrow> raise (ValueError ERR_MANIFEST_FIELD_INVALID))"

definition validate_tier :: "json \<Rightarrow> unit result" where
  "validate_tier tier = (case tier of
      JList urls \<Rightarrow> first_error (map (\<lambda>url. check (str_matches (\<lambda>s. s \<noteq> []) url) ERR_MANIFEST_FIELD_INVALID) urls)
    | _ \<Rightarrow> raise (ValueError ERR_MANIFEST_FIELD_INVALID))"

definition validate_v3_fields :: "datetime \<Rightarrow> swarm_manifest \<Rightarrow> unit result" where
  "validate_v3_fields now m = first_error
     ([check (valid_name (sm_name m)) ERR_MANIFEST_FIELD_INVALID,
       check (valid_description (sm_description m)) ERR_MANIFEST_FIELD_INVALID,
       validate_times now m,
       check (null_or natural_int (sm_round_limit m)) ERR_MANIFEST_FIELD_INVALID,
       check (null_or (str_matches ED25519_PUBKEY_RE) (sm_creator_pubkey m)) ERR_MANIFEST_FIELD_INVALID,
       check (null_or (str_matches ED25519_SIG_RE) (sm_signature m)) ERR_MANIFEST_FIELD_INVALID]
      @ map validate_peer (sm_bootstrap_peers m)
      @ map validate_tier (sm_tracker_urls m)
      @ [task_spec_validate (sm_task m),
         model_spec_validate (sm_model m),
         byzantine_spec_validate (sm_byzantine m),
         telemetry_config_validate (sm_telemetry m)])"

section \<open>Loading\<close>

text \<open>\<open>data.get(key, {}) or {}\<close>.\<close>

definition get_or_empty :: "(string, json) pydict \<Rightarrow> string \<Rightarrow> json" where
  "get_or_empty d k = (let v = dict_get d k (JObj []) in if truthy v then v else JObj [])"

definition version_gate :: "bool \<Rightarrow> (string, json) pydict \<Rightarrow> unit result" where
  "version_gate strict d =
     (let version = dict_get d ''schema_version'' JNull in
      if strict then first_error
        [check (eq_int version MANIFEST_SCHEMA_VERSION) ERR_MANIFEST_SCHEMA_VERSION,
         no_unknown d V3_ALLOWED_TOP_KEYS,
         none_missing d V3_REQUIRED_TOP_KEYS]
      else check (eq_int version MANIFEST_SCHEMA_VERSION \<or> eq_int version 2) ERR_MANIFEST_SCHEMA_VERSION)"

definition manifest_fields :: "(json \<Rightarrow> string) \<Rightarrow> bool \<Rightarrow> (string, json) pydict \<Rightarrow> swarm_manifest result" where
  "manifest_fields rep strict d =
     (let agg_data = get_or_empty d ''aggregation'';
          topo_data = get_or_empty d ''topology'';
          comp_data = get_or_empty d ''compression'';
          policy_data = dict_get d ''data_policy'' (data_policy_to_dict data_policy_init);
          task_data = dict_get d ''task'' (task_spec_to_dict task_spec_init);
          model_data = dict_get d ''model'' (model_spec_to_dict model_spec_init);
          byz_data = dict_get d ''byzantine'' (byzantine_spec_to_dict byzantine_spec_init);
          telemetry_data = dict_get d ''telemetry'' (telemetry_config_to_dict telemetry_config_init)
      in
      result_bind (obj_get agg_data ''name'' (JStr ''FedAvg'')) (\<lambda>aggregation_name.
      result_bind (obj_get agg_data ''params'' (JObj [])) (\<lambda>aggregation_params.
      result_bind (obj_get topo_data ''name'' (JStr ''Random'')) (\<lambda>topology_name.
      result_bind (obj_get topo_data ''params'' (JObj [])) (\<lambda>topology_params.
      result_bind (obj_get comp_data ''enabled'' (JBool False)) (\<lambda>compression_enabled.
      result_bind (obj_get comp_data ''params'' (JObj [])) (\<lambda>compression_params.
      result_bind (data_policy_from_dict
          (strict \<and> eq_int (dict_get d ''schema_version'' JNull) MANIFEST_SCHEMA_VERSION) policy_data) (\<lambda>data_policy.
      result_bind (task_spec_from_dict strict task_data) (\<lambda>task.
      result_bind (model_spec_from_dict strict model_data) (\<lambda>model.
      result_bind (byzantine_spec_from_dict strict byz_data) (\<lambda>byzantine.
      result_bind (py_list (dict_get d ''bootstrap_peers'' (JList []))) (\<lambda>bootstrap_peers.
      result_bind (py_list (dict_get d ''tracker_urls'' (JList []))) (\<lambda>tracker_urls.
      result_bind (telemetry_config_from_dict rep strict telemetry_data) (\<lambda>telemetry.
      ok \<lparr>sm_schema_version = dict_get d ''schema_version'' (JInt MANIFEST_SCHEMA_VERSION),
        sm_model_arch_fingerprint = dict_get d ''model_arch_fingerprint'' (JStr []),
        sm_data_schema_hash = dict_get d ''data_schema_hash'' (JStr []),
        sm_aggregation_name = aggregation_name,
        sm_aggregation_params = aggregation_params,
        sm_topology_name = topology_name,
        sm_topology_params = topology_params,
        sm_compression_enabled = compression_enabled,
        sm_compression_params = compression_params,
        sm_data_policy = data_policy,
        sm_name = dict_get d ''name'' (JStr ''unnamed''),
        sm_description = dict_get d ''description'' (JStr []),
        sm_created_at = dict_get d ''created_at'' (JStr ''1970-01-01T00:00:00Z''),
        sm_expires_at = dict_get d ''expires_at'' JNull,
        sm_task = task,
        sm_model = model,
        sm_byzantine = byzantine,
        sm_round_limit = dict_get d ''round_limit'' JNull,
        sm_bootstrap_peers = bootstrap_peers,
        sm_tracker_urls = tracker_urls,
        sm_creator_pubkey = dict_get d ''creator_pubkey'' JNull,
        sm_signature = dict_get d ''signature'' JNull,
        sm_telemetry = telemetry\<rparr>))))))))))))))"

definition manifest_from_dict :: "(json \<Rightarrow> string) \<Rightarrow> datetime \<Rightarrow> bool \<Rightarrow> json \<Rightarrow> swarm_manifest result" where
  "manifest_from_dict rep now strict data = (case data of
      JObj d \<Rightarrow>
        result_bind (version_gate strict d) (\<lambda>_.
        result_bind (manifest_fields rep strict d) (\<lambda>m.
        result_bind (if strict then validate_v3_fields now m else ok ()) (\<lambda>_. ok m)))
    | _ \<Rightarrow> raise (ValueError ERR_MANIFEST_NOT_OBJECT))"

section \<open>Canonical bytes, validation and files\<close>

definition unsigned_dict :: "swarm_manifest \<Rightarrow> (string, json) pydict result" where
  "unsigned_dict m = result_bind (manifest_to_dict m) (\<lambda>d. ok (AList.delete ''signature'' d))"

definition manifest_canonical_bytes :: "swarm_manifest \<Rightarrow> bytes result" where
  "manifest_canonical_bytes m = result_bind (unsigned_dict m) (\<lambda>d. canonical_json (JObj d))"

definition manifest_hash :: "(bytes \<Rightarrow> bytes) \<Rightarrow> swarm_manifest \<Rightarrow> string result" where
  "manifest_hash sha m = result_bind (manifest_canonical_bytes m) (\<lambda>b. ok (hex_of_bytes (sha b)))"

definition manifest_validate :: "datetime \<Rightarrow> swarm_manifest \<Rightarrow> unit result" where
  "manifest_validate now m = first_error
     [check (eq_int (sm_schema_version m) MANIFEST_SCHEMA_VERSION) ''schema_version'',
      validate_v3_fields now m,
      check (truthy (sm_model_arch_fingerprint m)) ''model_arch_fingerprint must be non-empty'',
      check (truthy (sm_data_schema_hash m)) ''data_schema_hash must be non-empty'',
      data_policy_validate (sm_data_policy m),
      result_bind (manifest_canonical_bytes m) (\<lambda>b.
        check (length b \<le> MAX_MANIFEST_SIZE) ''manifest size exceeds maximum'')]"

text \<open>Reading a \<open>.qgl\<close> file: \<open>None\<close> is a missing file, \<open>loads\<close> returns \<open>None\<close> where
  \<open>json.loads\<close> raises \<open>JSONDecodeError\<close>.\<close>

definition UTF8_BOM :: bytes where "UTF8_BOM = [239, 187, 191]"

definition manifest_from_file ::
  "(string \<Rightarrow> json option) \<Rightarrow> (json \<Rightarrow> string) \<Rightarrow> datetime \<Rightarrow> bool \<Rightarrow> bytes option \<Rightarrow> swarm_manifest result" where
  "manifest_from_file loads rep now strict file = (case file of
      None \<Rightarrow> raise OSError
    | Some raw \<Rightarrow>
        if QGL_MAX_BYTES < length raw then raise (ValueError ERR_MANIFEST_INVALID_JSON)
        else if take 3 raw = UTF8_BOM then raise (ValueError ERR_MANIFEST_INVALID_JSON)
        else case decode raw of
          Inl _ \<Rightarrow> raise (ValueError ERR_MANIFEST_INVALID_JSON)
        | Inr text \<Rightarrow> (case loads text of
            None \<Rightarrow> raise (ValueError ERR_MANIFEST_INVALID_JSON)
          | Some data \<Rightarrow>
              result_bind (manifest_from_dict rep now strict data) (\<lambda>m.
              result_bind (if strict then manifest_validate now m else ok ()) (\<lambda>_. ok m))))"

text \<open>\<open>json.dumps(..., indent=2)\<close>.\<close>

definition newline_indent :: "nat \<Rightarrow> string" where
  "newline_indent n = CHR 0x0A # replicate (2 * n) (CHR '' '')"

function dumps_pretty :: "nat \<Rightarrow> json \<Rightarrow> string" where
  "dumps_pretty n (JList vs) = (if vs = [] then ''[]'' else
     ''['' @ newline_indent (Suc n) @ join ('','' @ newline_indent (Suc n)) (map (dumps_pretty (Suc n)) vs)
       @ newline_indent n @ '']'')"
| "dumps_pretty n (JObj kvs) = (if kvs = [] then ''{}'' else
     ''{'' @ newline_indent (Suc n)
       @ join ('','' @ newline_indent (Suc n)) (map (\<lambda>(k, v). dump_ascii k @ '': '' @ dumps_pretty (Suc n) v) (members kvs))
       @ newline_indent n @ ''}'')"
| "dumps_pretty n JNull = ''null''"
| "dumps_pretty n (JBool b) = (if b then ''true'' else ''false'')"
| "dumps_pretty n (JInt i) = str_of_int i"
| "dumps_pretty n (JFloat r) = r"
| "dumps_pretty n (JStr s) = dump_ascii s"
  by pat_completeness auto
termination
proof (relation "measure (size \<circ> snd)", goal_cases)
  case (2 n vs v)
  then have "v \<in> set vs" by simp
  then show ?case by (induction vs) auto
next
  case (3 n kvs x k v)
  then show ?case using member_size [of k v kvs] by simp
qed simp

definition to_file_payload :: "bool \<Rightarrow> swarm_manifest \<Rightarrow> bytes result" where
  "to_file_payload pretty m =
     (if pretty then result_bind (manifest_to_dict m) (\<lambda>d.
        if finite_json (JObj d) then ok (encode (dumps_pretty 0 (JObj d)) @ [10])
        else raise (ValueError ''Out of range float values are not JSON compliant''))
      else manifest_canonical_bytes m)"

text \<open>The directory entries of the destination and its temporary file. \<open>wrote\<close> and \<open>replaced\<close> say
  whether writing the temporary file and renaming it succeed.\<close>

record qgl_files =
  qf_dest :: "bytes option"
  qf_tmp :: "bytes option"

definition manifest_to_file :: "bool \<Rightarrow> bool \<Rightarrow> bool \<Rightarrow> swarm_manifest \<Rightarrow> qgl_files \<Rightarrow> qgl_files \<times> unit result" where
  "manifest_to_file wrote replaced pretty m fs = (case to_file_payload pretty m of
      Inl e \<Rightarrow> (fs, raise e)
    | Inr payload \<Rightarrow>
        if wrote \<and> replaced then (fs\<lparr>qf_dest := Some payload, qf_tmp := None\<rparr>, ok ())
        else (fs\<lparr>qf_tmp := None\<rparr>, raise OSError))"

end
