(* ===== verification/Magnet.thy ===== *)
theory Magnet
  imports Manifest_Schema
begin

text \<open>
  Magnet links (\<open>manifest/magnet.py\<close>): the record, parsing, formatting, and the percent-encoding of
  \<open>urllib.parse\<close> they rest on; \<open>SwarmManifest.to_magnet\<close>. A string is its UTF-8 octets; \<open>repl\<close> is the
  text \<open>bytes.decode("utf-8", "replace")\<close> gives for octets that are not UTF-8.
\<close>

definition ERR_MAGNET_SCHEME :: string where "ERR_MAGNET_SCHEME = ''ERR_MAGNET_SCHEME''"
definition ERR_MAGNET_XT :: string where "ERR_MAGNET_XT = ''ERR_MAGNET_XT''"
definition ERR_MAGNET_DUPLICATE :: string where "ERR_MAGNET_DUPLICATE = ''ERR_MAGNET_DUPLICATE''"

definition SCHEME :: string where "SCHEME = ''quinkgl:?''"
definition XT_URN_PREFIX :: string where "XT_URN_PREFIX = ''urn:qgl:''"

record magnet_link =
  ml_swarm_id :: bytes
  ml_display_name :: "string option"
  ml_keywords :: "string list"
  ml_trackers :: "string list"
  ml_bootstrap_peers :: "string list"
  ml_protocol_version :: int

section \<open>Percent-encoding\<close>

text \<open>\<open>quote(s, safe="")\<close>: letters, digits and \<open>_.-~\<close> stay, every other octet is a percent sign and two
  upper-case hex digits.\<close>

definition always_safe :: "char \<Rightarrow> bool" where
  "always_safe c \<longleftrightarrow> (let n = of_char c :: nat in
     48 \<le> n \<and> n \<le> 57 \<or> 65 \<le> n \<and> n \<le> 90 \<or> 97 \<le> n \<and> n \<le> 122 \<or> c \<in> set ''_.-~'')"

definition upper_hex :: string where "upper_hex = ''0123456789ABCDEF''"

definition quote_char :: "char \<Rightarrow> string" where
  "quote_char c = (if always_safe c then [c]
     else [CHR ''%'', upper_hex ! (of_char c div 16), upper_hex ! (of_char c mod 16)])"

definition quote :: "string \<Rightarrow> string" where
  "quote s = concat (map quote_char s)"

text \<open>\<open>unquote_to_bytes\<close> on an ASCII run, and \<open>unquote\<close>, which decodes each ASCII run on its own.\<close>

fun unquote_octets :: "string \<Rightarrow> string" where
  "unquote_octets (c # a # b # cs) =
     (if c = CHR ''%'' then
        (case (hex_value a, hex_value b) of
           (Some h, Some l) \<Rightarrow> char_of (16 * h + l) # unquote_octets cs
         | _ \<Rightarrow> c # unquote_octets (a # b # cs))
      else c # unquote_octets (a # b # cs))"
| "unquote_octets cs = cs"

definition decode_replace :: "(bytes \<Rightarrow> string) \<Rightarrow> string \<Rightarrow> string" where
  "decode_replace repl s = (if is_str s then s else repl (encode s))"

definition is_ascii :: "char \<Rightarrow> bool" where
  "is_ascii c \<longleftrightarrow> (of_char c :: nat) < 128"

function unquote_runs :: "(bytes \<Rightarrow> string) \<Rightarrow> string \<Rightarrow> string" where
  "unquote_runs repl [] = []"
| "unquote_runs repl (c # cs) =
     (if is_ascii c
      then decode_replace repl (unquote_octets (takeWhile is_ascii (c # cs))) @ unquote_runs repl (dropWhile is_ascii cs)
      else c # unquote_runs repl cs)"
  by pat_completeness auto
termination
  by (relation "measure (length \<circ> snd)") (auto simp: length_dropWhile_le le_imp_less_Suc)

definition unquote :: "(bytes \<Rightarrow> string) \<Rightarrow> string \<Rightarrow> string" where
  "unquote repl s = (if CHR ''%'' \<in> set s then unquote_runs repl s else s)"

section \<open>Parsing and formatting\<close>

text \<open>\<open>s.split(sep)\<close> for a one-character separator and \<open>s.partition("=")\<close>.\<close>

fun split_on :: "char \<Rightarrow> string \<Rightarrow> string list" where
  "split_on sep [] = [[]]"
| "split_on sep (c # cs) = (if c = sep then [] # split_on sep cs
     else (case split_on sep cs of [] \<Rightarrow> [[c]] | w # ws \<Rightarrow> (c # w) # ws))"

definition partition_eq :: "string \<Rightarrow> string \<times> string" where
  "partition_eq s = (takeWhile (\<lambda>c. c \<noteq> CHR ''='') s, drop 1 (dropWhile (\<lambda>c. c \<noteq> CHR ''='') s))"

definition query_pairs :: "string \<Rightarrow> (string \<times> string) list" where
  "query_pairs q = (if q = [] then []
     else map partition_eq (filter (\<lambda>raw. raw \<noteq> [] \<and> CHR ''='' \<in> set raw) (split_on (CHR ''&'') q)))"

definition values_of :: "string \<Rightarrow> (string \<times> string) list \<Rightarrow> string list" where
  "values_of key pairs = map snd (filter (\<lambda>(k, _). k = key) pairs)"

definition parse_xt :: "string \<Rightarrow> bytes result" where
  "parse_xt v =
     (if \<not> startswith v XT_URN_PREFIX then raise (ValueError ERR_MAGNET_XT)
      else let hex_part = drop (length XT_URN_PREFIX) v in
        if length hex_part \<noteq> 64 \<or> \<not> list_all is_lower_hex hex_part then raise (ValueError ERR_MAGNET_XT)
        else fromhex hex_part)"

definition parse_magnet :: "(bytes \<Rightarrow> string) \<Rightarrow> string \<Rightarrow> magnet_link result" where
  "parse_magnet repl uri =
     (if \<not> startswith uri SCHEME then raise (ValueError ERR_MAGNET_SCHEME) else
      let pairs = query_pairs (drop (length SCHEME) uri);
          xt_values = values_of ''xt'' pairs; dn_values = values_of ''dn'' pairs;
          kw_values = values_of ''kw'' pairs; v_values = values_of ''v'' pairs;
          tr_values = values_of ''tr'' pairs; bs_values = values_of ''bs'' pairs
      in if length xt_values \<noteq> 1 then raise (ValueError ERR_MAGNET_XT) else
      result_bind (parse_xt (hd xt_values)) (\<lambda>swarm_id.
      if 1 < length dn_values then raise (ValueError ERR_MAGNET_DUPLICATE)
      else if 1 < length kw_values then raise (ValueError ERR_MAGNET_DUPLICATE)
      else if 1 < length v_values then raise (ValueError ERR_MAGNET_DUPLICATE)
      else
      result_bind (if v_values = [] then ok 1 else int_of_str (hd v_values)) (\<lambda>protocol_version.
      ok \<lparr>ml_swarm_id = swarm_id,
        ml_display_name = (if dn_values = [] then None else Some (unquote repl (hd dn_values))),
        ml_keywords = (if kw_values = [] then []
          else filter (\<lambda>t. t \<noteq> []) (split_on (CHR '','') (unquote repl (hd kw_values)))),
        ml_trackers = map (unquote repl) tr_values,
        ml_bootstrap_peers = map (unquote repl) bs_values,
        ml_protocol_version = protocol_version\<rparr>)))"

definition magnet_parts :: "magnet_link \<Rightarrow> string list" where
  "magnet_parts link =
     [''xt='' @ XT_URN_PREFIX @ hex_of_bytes (ml_swarm_id link)]
     @ (case ml_display_name link of None \<Rightarrow> [] | Some n \<Rightarrow> [''dn='' @ quote n])
     @ (if ml_keywords link = [] then [] else [''kw='' @ join '','' (map quote (ml_keywords link))])
     @ (if ml_protocol_version link \<noteq> 1 then [''v='' @ str_of_int (ml_protocol_version link)] else [])
     @ map (\<lambda>t. ''tr='' @ quote t) (ml_trackers link)
     @ map (\<lambda>p. ''bs='' @ quote p) (ml_bootstrap_peers link)"

definition format_magnet :: "magnet_link \<Rightarrow> string result" where
  "format_magnet link =
     (if length (ml_swarm_id link) \<noteq> 32 then raise (ValueError ERR_MAGNET_XT)
      else ok (SCHEME @ join ''&'' (magnet_parts link)))"

section \<open>The magnet link of a manifest\<close>

text \<open>\<open>quote\<close> takes strings only.\<close>

fun as_text :: "json \<Rightarrow> string result" where
  "as_text (JStr s) = ok s"
| "as_text _ = raise TypeError"

definition peer_addresses :: "json list \<Rightarrow> json list result" where
  "peer_addresses ps = result_bind (result_map (\<lambda>p. obj_get p ''address'' JNull) ps)
     (\<lambda>as. ok (filter truthy as))"

definition to_magnet :: "(bytes \<Rightarrow> bytes) \<Rightarrow> swarm_manifest \<Rightarrow> string list option \<Rightarrow> string list option \<Rightarrow> int \<Rightarrow> string result" where
  "to_magnet sha m trackers bootstrap_peers protocol_version =
     result_bind (manifest_hash sha m) (\<lambda>swarm_id_hex.
     result_bind (fromhex swarm_id_hex) (\<lambda>swarm_id.
     result_bind (case trackers of Some ts \<Rightarrow> ok (map JStr ts)
       | None \<Rightarrow> result_bind (result_map py_list (sm_tracker_urls m)) (\<lambda>tiers. ok (concat tiers))) (\<lambda>trs.
     result_bind (case bootstrap_peers of Some bs \<Rightarrow> ok (map JStr bs)
       | None \<Rightarrow> peer_addresses (sm_bootstrap_peers m)) (\<lambda>peers.
     result_bind (if truthy (sm_name m) \<and> sm_name m \<noteq> JStr ''unnamed''
       then result_bind (as_text (sm_name m)) (\<lambda>n. ok (Some n)) else ok None) (\<lambda>display_name.
     result_bind (result_map as_text trs) (\<lambda>trs.
     result_bind (result_map as_text peers) (\<lambda>peers.
     format_magnet \<lparr>ml_swarm_id = swarm_id, ml_display_name = display_name, ml_keywords = [],
       ml_trackers = trs, ml_bootstrap_peers = peers, ml_protocol_version = protocol_version\<rparr>)))))))"

section \<open>Percent-encoding is inverted\<close>

lemma upper_hex_value: "n < 16 \<Longrightarrow> hex_value (upper_hex ! n) = Some n \<and> is_ascii (upper_hex ! n) \<and> upper_hex ! n \<notin> set ''&=,%''"
proof -
  have "list_all (\<lambda>n. hex_value (upper_hex ! n) = Some n \<and> is_ascii (upper_hex ! n) \<and> upper_hex ! n \<notin> set ''&=,%'') [0..<16]"
    by code_simp
  then show "n < 16 \<Longrightarrow> ?thesis" by (simp add: list_all_iff)
qed

lemma octet_digits: "of_char c div 16 < (16 :: nat)" "of_char c mod 16 < (16 :: nat)"
  "char_of (16 * (of_char c div 16) + of_char c mod 16 :: nat) = c"
  by (simp_all add: less_mult_imp_div_less)

lemma always_safe_char: "always_safe c \<Longrightarrow> is_ascii c \<and> c \<notin> set ''&=,%''"
  by (auto simp: always_safe_def is_ascii_def Let_def)

lemma quote_char_ascii: "d \<in> set (quote_char c) \<Longrightarrow> is_ascii d \<and> d \<notin> set ''&=,''"
  using upper_hex_value [OF octet_digits(1) [of c]] upper_hex_value [OF octet_digits(2) [of c]] always_safe_char [of c]
  by (auto simp: quote_char_def is_ascii_def split: if_splits)

lemma quote_ascii: "d \<in> set (quote s) \<Longrightarrow> is_ascii d \<and> d \<notin> set ''&=,''"
  using quote_char_ascii by (fastforce simp: quote_def)

lemma unquote_octets_Cons: "c \<noteq> CHR ''%'' \<Longrightarrow> unquote_octets (c # cs) = c # unquote_octets cs"
  by (cases cs rule: unquote_octets.cases) auto

lemma unquote_quote_char: "unquote_octets (quote_char c @ r) = c # unquote_octets r"
proof (cases "always_safe c")
  case True
  then show ?thesis using always_safe_char [of c] by (simp add: quote_char_def unquote_octets_Cons)
next
  case False
  then show ?thesis
    using upper_hex_value [OF octet_digits(1) [of c]] upper_hex_value [OF octet_digits(2) [of c]] octet_digits(3) [of c]
    by (simp add: quote_char_def)
qed

lemma unquote_octets_quote: "unquote_octets (quote s @ r) = s @ unquote_octets r"
  by (induction s) (simp_all add: quote_def unquote_quote_char)

lemma unquote_ascii:
  assumes "list_all is_ascii t" "is_str (unquote_octets t)"
  shows "unquote repl t = unquote_octets t"
proof (cases "CHR ''%'' \<in> set t")
  case True
  then obtain c cs where t: "t = c # cs" by (cases t) auto
  have tw: "takeWhile is_ascii cs = cs" "dropWhile is_ascii cs = []"
    using assms(1) t by (auto simp: list_all_iff takeWhile_eq_all_conv)
  have "is_ascii c" using assms(1) t by simp
  then have "unquote_runs repl t = decode_replace repl (unquote_octets (c # takeWhile is_ascii cs))
      @ unquote_runs repl (dropWhile is_ascii cs)" using t by simp
  also have "\<dots> = unquote_octets t" unfolding tw using assms(2) t by (simp add: decode_replace_def)
  finally have "unquote_runs repl t = unquote_octets t" .
  then show ?thesis using True by (simp add: unquote_def)
next
  case False
  have "CHR ''%'' \<notin> set u \<Longrightarrow> unquote_octets u = u" for u
    by (induction u) (auto simp: unquote_octets_Cons)
  with False show ?thesis by (simp add: unquote_def)
qed

lemma unquote_quote: "is_str s \<Longrightarrow> unquote repl (quote s) = s"
  using unquote_ascii [of "quote s" repl] quote_ascii [of _ s] unquote_octets_quote [of s "[]"]
  by (simp add: list_all_iff)

section \<open>Separators\<close>

lemma split_on_word: "sep \<notin> set w \<Longrightarrow> split_on sep w = [w]"
  by (induction w) auto

lemma split_on_append: "sep \<notin> set w \<Longrightarrow> split_on sep (w @ sep # r) = w # split_on sep r"
  by (induction w) auto

lemma split_on_join: "list_all (\<lambda>w. sep \<notin> set w) ws \<Longrightarrow> ws \<noteq> [] \<Longrightarrow> split_on sep (join [sep] ws) = ws"
proof (induction ws rule: induct_list012)
  case (3 x y zs)
  then show ?case by (simp add: split_on_append)
qed (auto simp: split_on_word)

lemma partition_eq_key: "CHR ''='' \<notin> set k \<Longrightarrow> partition_eq (k @ CHR ''='' # v) = (k, v)"
  by (simp add: partition_eq_def takeWhile_append2 dropWhile_append)

text \<open>UTF-8 text may be concatenated.\<close>

lemma utf8_valid_lead:
  "utf8_valid (a # bs) \<longleftrightarrow>
     (if a < 128 then utf8_valid bs
      else if a \<le> 223 then 194 \<le> a \<and> bs \<noteq> [] \<and> utf8_cont (hd bs) \<and> utf8_valid (tl bs)
      else if a \<le> 239 then 2 \<le> length bs \<and> utf8_cont (hd bs) \<and> utf8_cont (bs ! 1)
           \<and> (a = 224 \<longrightarrow> 160 \<le> hd bs) \<and> (a = 237 \<longrightarrow> hd bs \<le> 159) \<and> utf8_valid (drop 2 bs)
      else a \<le> 244 \<and> 3 \<le> length bs \<and> utf8_cont (hd bs) \<and> utf8_cont (bs ! 1) \<and> utf8_cont (bs ! 2)
           \<and> (a = 240 \<longrightarrow> 144 \<le> hd bs) \<and> (a = 244 \<longrightarrow> hd bs \<le> 143) \<and> utf8_valid (drop 3 bs))"
  by (cases "a # bs" rule: utf8_valid.cases) (auto simp: eval_nat_numeral)

lemma utf8_valid_append: "utf8_valid as \<Longrightarrow> utf8_valid bs \<Longrightarrow> utf8_valid (as @ bs)"
proof (induction "length as" arbitrary: as rule: less_induct)
  case less
  show ?case
  proof (cases as)
    case (Cons a cs)
    have IH: "utf8_valid (drop k cs) \<Longrightarrow> utf8_valid (drop k cs @ bs)" for k
      using less.hyps [of "drop k cs"] less.prems(2) Cons by simp
    show ?thesis
      using less.prems(1) IH [of 0] IH [of 1] IH [of 2] IH [of 3] unfolding Cons append_Cons utf8_valid_lead [of a]
      by (auto simp: nth_append hd_append tl_append drop_Suc split: if_splits list.splits)
  qed (use less in simp)
qed

lemma is_str_append: "is_str s \<Longrightarrow> is_str t \<Longrightarrow> is_str (s @ t)"
  using utf8_valid_append by (simp add: is_str_def encode_def)

lemma is_str_join: "is_str sep \<Longrightarrow> list_all is_str ws \<Longrightarrow> is_str (join sep ws)"
proof (induction ws rule: induct_list012)
  case 1
  then show ?case by (simp add: is_str_def encode_def)
qed (simp_all add: is_str_append)

section \<open>Links survive the round trip\<close>

lemma digit_groups_digits: "list_all is_digit s \<Longrightarrow> s \<noteq> [] \<Longrightarrow> digit_groups s"
proof (induction s rule: digit_groups.induct)
  case (3 c d cs)
  then show ?case by (auto simp: is_digit_def)
qed auto

lemma strip_spaces_digit: "is_digit c \<or> c = CHR ''-'' \<Longrightarrow> strip_spaces (c # cs) = c # cs"
  by (auto simp: is_space_def is_digit_def Let_def)

lemma py_strip_id: "s \<noteq> [] \<Longrightarrow> list_all (\<lambda>c. is_digit c \<or> c = CHR ''-'') s \<Longrightarrow> py_strip s = s"
proof -
  assume s: "s \<noteq> []" "list_all (\<lambda>c. is_digit c \<or> c = CHR ''-'') s"
  then have "strip_spaces s = s" by (cases s) (auto simp: strip_spaces_digit simp del: strip_spaces.simps)
  moreover from s have "strip_spaces (rev s) = rev s"
    by (cases s rule: rev_cases) (auto simp: strip_spaces_digit simp del: strip_spaces.simps)
  ultimately show ?thesis by (simp add: py_strip_def)
qed

lemma filter_underscore: "list_all is_digit s \<Longrightarrow> filter (\<lambda>c. c \<noteq> CHR ''_'') s = s"
  by (induction s) (auto simp: is_digit_def)

text \<open>\<open>int(str(n)) == n\<close>.\<close>

lemma int_of_str_of_int: "int_of_str (str_of_int n) = ok n"
proof (cases "n < 0")
  case True
  let ?d = "str_of_nat (nat (- n))"
  have d: "list_all is_digit ?d" "?d \<noteq> []" by (rule str_of_nat_digits, rule str_of_nat_nonempty)
  have t: "str_of_int n = CHR ''-'' # ?d" using True by (simp add: str_of_int_def)
  have "py_strip (CHR ''-'' # ?d) = CHR ''-'' # ?d"
    by (rule py_strip_id) (use d in \<open>auto simp: list_all_iff\<close>)
  with True d show ?thesis
    by (simp add: int_of_str_def t digit_groups_digits filter_underscore nat_of_str_of_nat)
next
  case False
  let ?d = "str_of_nat (nat n)"
  have d: "list_all is_digit ?d" "?d \<noteq> []" by (rule str_of_nat_digits, rule str_of_nat_nonempty)
  then obtain c cs where c: "?d = c # cs" by (cases ?d) auto
  with d have "is_digit c" by simp
  then have nc: "c \<noteq> CHR ''-''" "c \<noteq> CHR ''+''" by (auto simp: is_digit_def)
  have "py_strip ?d = ?d" by (rule py_strip_id) (use d in \<open>auto simp: list_all_iff\<close>)
  moreover have "str_of_int n = ?d" using False by (simp add: str_of_int_def)
  moreover have "nat_of_digits (c # cs) = nat n" using nat_of_str_of_nat [of "nat n"] by (simp only: c)
  ultimately show ?thesis
    using False d nc digit_groups_digits [OF d] filter_underscore [OF d(1)] by (simp add: int_of_str_def c)
qed

text \<open>What a link has to satisfy to be written: the \<open>xt\<close> value has 32 octets, texts are UTF-8, and a
  keyword is not empty and has no comma in it.\<close>

definition magnet_valid :: "magnet_link \<Rightarrow> bool" where
  "magnet_valid l \<longleftrightarrow> length (ml_swarm_id l) = 32
     \<and> (case ml_display_name l of None \<Rightarrow> True | Some n \<Rightarrow> is_str n)
     \<and> list_all (\<lambda>k. is_str k \<and> k \<noteq> [] \<and> CHR '','' \<notin> set k) (ml_keywords l)
     \<and> list_all is_str (ml_trackers l) \<and> list_all is_str (ml_bootstrap_peers l)"

text \<open>The key and value of each part.\<close>

definition magnet_pairs :: "magnet_link \<Rightarrow> (string \<times> string) list" where
  "magnet_pairs l =
     [(''xt'', XT_URN_PREFIX @ hex_of_bytes (ml_swarm_id l))]
     @ (case ml_display_name l of None \<Rightarrow> [] | Some n \<Rightarrow> [(''dn'', quote n)])
     @ (if ml_keywords l = [] then [] else [(''kw'', join '','' (map quote (ml_keywords l)))])
     @ (if ml_protocol_version l \<noteq> 1 then [(''v'', str_of_int (ml_protocol_version l))] else [])
     @ map (\<lambda>t. (''tr'', quote t)) (ml_trackers l)
     @ map (\<lambda>p. (''bs'', quote p)) (ml_bootstrap_peers l)"

lemma parts_of_pairs: "magnet_parts l = map (\<lambda>(k, v). k @ CHR ''='' # v) (magnet_pairs l)"
  by (auto simp: magnet_parts_def magnet_pairs_def split: option.split)

lemma set_join: "set (join sep ws) \<subseteq> set sep \<union> (\<Union>w \<in> set ws. set w)"
  by (induction ws rule: induct_list012) auto

lemma hex_of_bytes_chars: "list_all is_lower_hex (hex_of_bytes bs)"
proof (induction bs)
  case (Cons b bs)
  have "list_all (\<lambda>n. is_lower_hex (hex_digits ! n)) [0..<16]" by code_simp
  then have "n < 16 \<Longrightarrow> is_lower_hex (hex_digits ! n)" for n by (simp add: list_all_iff)
  moreover have "unat b div 16 < 16" using unsigned_less [of b, where 'a = nat] by simp
  ultimately show ?case using Cons by simp
qed simp

lemma lower_hex_plain: "is_lower_hex c \<Longrightarrow> c \<notin> set ''&=''" "is_digit c \<or> c = CHR ''-'' \<Longrightarrow> c \<notin> set ''&=''"
  by (auto simp: is_lower_hex_def is_digit_def)

lemma pair_chars:
  assumes "(k, v) \<in> set (magnet_pairs l)"
  shows "CHR ''&'' \<notin> set (k @ CHR ''='' # v) \<and> CHR ''='' \<notin> set k"
proof -
  have "CHR ''&'' \<notin> set (join '','' (map quote ks))" for ks
    using set_join [of "'',''" "map quote ks"] quote_ascii by fastforce
  moreover have "CHR ''&'' \<notin> set (hex_of_bytes b)" for b
    using hex_of_bytes_chars [of b] lower_hex_plain(1) by (fastforce simp: list_all_iff)
  moreover have "CHR ''&'' \<notin> set (str_of_int n)" for n
    using str_of_int_chars(1) [of n] lower_hex_plain(2) by (fastforce simp: list_all_iff)
  moreover have "CHR ''&'' \<notin> set (quote s)" for s using quote_ascii by fastforce
  ultimately show ?thesis
    using assms by (auto simp: magnet_pairs_def XT_URN_PREFIX_def split: option.splits if_splits)
qed

lemma join_nonempty: "w \<noteq> [] \<Longrightarrow> join sep (w # ws) \<noteq> []"
  by (cases ws) auto

lemma query_pairs_format: "query_pairs (join ''&'' (magnet_parts l)) = magnet_pairs l"
proof -
  let ?f = "\<lambda>(k, v). k @ CHR ''='' # v"
  have ne: "magnet_pairs l \<noteq> []" by (simp add: magnet_pairs_def)
  have chars: "list_all (\<lambda>w. CHR ''&'' \<notin> set w) (map ?f (magnet_pairs l))"
    using pair_chars by (fastforce simp: list_all_iff)
  have split: "split_on (CHR ''&'') (join ''&'' (map ?f (magnet_pairs l))) = map ?f (magnet_pairs l)"
    by (rule split_on_join [OF chars]) (use ne in simp)
  have "join ''&'' (map ?f (magnet_pairs l)) \<noteq> []"
    using ne by (cases "magnet_pairs l") (auto simp: join_nonempty)
  moreover have "filter (\<lambda>raw. raw \<noteq> [] \<and> CHR ''='' \<in> set raw) (map ?f (magnet_pairs l)) = map ?f (magnet_pairs l)"
    by (rule filter_True) auto
  moreover have "map partition_eq (map ?f (magnet_pairs l)) = magnet_pairs l"
    using pair_chars by (auto simp: partition_eq_key intro!: map_idI)
  ultimately show ?thesis by (simp only: query_pairs_def parts_of_pairs split if_False)
qed

lemma values_of_pairs:
  "values_of ''xt'' (magnet_pairs l) = [XT_URN_PREFIX @ hex_of_bytes (ml_swarm_id l)]"
  "values_of ''dn'' (magnet_pairs l) = (case ml_display_name l of None \<Rightarrow> [] | Some n \<Rightarrow> [quote n])"
  "values_of ''kw'' (magnet_pairs l) = (if ml_keywords l = [] then [] else [join '','' (map quote (ml_keywords l))])"
  "values_of ''v'' (magnet_pairs l) = (if ml_protocol_version l \<noteq> 1 then [str_of_int (ml_protocol_version l)] else [])"
  "values_of ''tr'' (magnet_pairs l) = map quote (ml_trackers l)"
  "values_of ''bs'' (magnet_pairs l) = map quote (ml_bootstrap_peers l)"
  by (simp_all add: values_of_def magnet_pairs_def filter_map comp_def split: option.split)

lemma parse_xt_hex: "length b = 32 \<Longrightarrow> parse_xt (XT_URN_PREFIX @ hex_of_bytes b) = ok b"
  using hex_of_bytes_chars [of b] hex_of_bytes_length [of b]
  by (simp add: parse_xt_def startswith_def fromhex_hex)

lemma unquote_octets_join:
  "unquote_octets (join '','' (map quote ks)) = join '','' ks"
proof (induction ks rule: induct_list012)
  case (2 x)
  then show ?case using unquote_octets_quote [of x "[]"] by simp
next
  case (3 x y zs)
  then show ?case by (simp add: unquote_octets_quote unquote_octets_Cons)
qed simp

lemma unquote_keywords:
  assumes "list_all is_str ks"
  shows "unquote repl (join '','' (map quote ks)) = join '','' ks"
proof -
  have "c \<in> set (join '','' (map quote ks)) \<Longrightarrow> is_ascii c" for c
    using set_join [of "'',''" "map quote ks"] quote_ascii by (fastforce simp: is_ascii_def)
  then have "list_all is_ascii (join '','' (map quote ks))" by (simp add: list_all_iff)
  moreover have "is_str (join '','' ks)"
    by (rule is_str_join) (use assms in \<open>auto intro: is_str_ascii\<close>)
  ultimately show ?thesis by (simp add: unquote_ascii unquote_octets_join)
qed

lemma parse_format:
  assumes "magnet_valid l"
  shows "format_magnet l = ok (SCHEME @ join ''&'' (magnet_parts l))"
    "parse_magnet repl (SCHEME @ join ''&'' (magnet_parts l)) = ok l"
proof -
  show "format_magnet l = ok (SCHEME @ join ''&'' (magnet_parts l))"
    using assms by (simp add: format_magnet_def magnet_valid_def)
  have drop: "drop (length SCHEME) (SCHEME @ r) = r" "startswith (SCHEME @ r) SCHEME" for r
    by (simp_all add: startswith_def)
  have dn: "(if values_of ''dn'' (magnet_pairs l) = [] then None
      else Some (unquote repl (hd (values_of ''dn'' (magnet_pairs l))))) = ml_display_name l"
    using assms by (auto simp: values_of_pairs magnet_valid_def unquote_quote split: option.splits)
  have tr: "map (unquote repl) (map quote ts) = ts" if "list_all is_str ts" for ts
    using that by (induction ts) (auto simp: unquote_quote)
  have kw: "filter (\<lambda>t. t \<noteq> []) (split_on (CHR '','') (unquote repl (join '','' (map quote (ml_keywords l))))) = ml_keywords l"
    if "ml_keywords l \<noteq> []"
  proof -
    have ks: "list_all is_str (ml_keywords l)" "list_all (\<lambda>k. CHR '','' \<notin> set k) (ml_keywords l)"
      "list_all (\<lambda>k. k \<noteq> []) (ml_keywords l)" using assms by (auto simp: magnet_valid_def list_all_iff)
    then show ?thesis using that
      by (simp add: unquote_keywords split_on_join) (simp add: list_all_iff filter_True)
  qed
  show "parse_magnet repl (SCHEME @ join ''&'' (magnet_parts l)) = ok l"
    unfolding parse_magnet_def drop query_pairs_format Let_def
    using assms dn kw tr
    by (simp add: drop(2) values_of_pairs parse_xt_hex magnet_valid_def int_of_str_of_int split: option.splits)
qed

text \<open>C25: Magnet links survive the round trip: parsing the link that \<open>format_magnet\<close> writes gives the
  same link back, for any display name, tracker and peer address (whatever characters they contain), any
  protocol version, and keywords that are not empty and contain no comma.\<close>

theorem magnet_round_trip:
  assumes "magnet_valid l"
  shows "\<exists>uri. format_magnet l = ok uri \<and> parse_magnet repl uri = ok l"
  using parse_format [OF assms] by blast

definition example_link :: magnet_link where
  "example_link = \<lparr>ml_swarm_id = replicate 32 7, ml_display_name = Some ''a&b=c%'', ml_keywords = [''vision'', ''x y''],
     ml_trackers = [''http://t/?a=1''], ml_bootstrap_peers = [''h:1'', ''h:2''], ml_protocol_version = -2\<rparr>"

lemma magnet_round_trip_witness:
  "\<exists>uri. format_magnet example_link = ok uri \<and> parse_magnet (\<lambda>_. []) uri = ok example_link"
proof -
  have "magnet_valid example_link"
    by (auto simp: magnet_valid_def example_link_def intro!: is_str_ascii)
  then show ?thesis by (rule magnet_round_trip)
qed

text \<open>A keyword with a comma comes back as two keywords.\<close>

lemma keyword_with_comma_splits:
  assumes "length b = 32"
  shows "\<exists>uri. format_magnet \<lparr>ml_swarm_id = b, ml_display_name = None, ml_keywords = [''a,b''], ml_trackers = [],
      ml_bootstrap_peers = [], ml_protocol_version = 1\<rparr> = ok uri \<and>
    parse_magnet repl uri = ok \<lparr>ml_swarm_id = b, ml_display_name = None, ml_keywords = [''a'', ''b''], ml_trackers = [],
      ml_bootstrap_peers = [], ml_protocol_version = 1\<rparr>"
proof -
  let ?l = "\<lparr>ml_swarm_id = b, ml_display_name = None, ml_keywords = [''a,b''], ml_trackers = [],
      ml_bootstrap_peers = [], ml_protocol_version = 1\<rparr>"
  have "is_str ''a,b''" by (rule is_str_ascii) simp
  then have u: "unquote repl (quote ''a,b'') = ''a,b''" by (rule unquote_quote)
  have "parse_magnet repl (SCHEME @ join ''&'' (magnet_parts ?l)) = ok (?l\<lparr>ml_keywords := [''a'', ''b'']\<rparr>)"
    unfolding parse_magnet_def Let_def using assms
    by (simp add: startswith_def query_pairs_format values_of_pairs parse_xt_hex u)
  then show ?thesis using assms by (simp add: format_magnet_def)
qed

end
