(* ===== verification/Manifest_Properties.thy ===== *)
theory Manifest_Properties
  imports Manifest_Schema
begin

text \<open>
  What the manifest schema guarantees: a strictly loaded manifest is well-typed, loading what was
  written gives the same manifest back, and the manifest hash identifies the manifest up to its
  signature.
\<close>

section \<open>Well-typed manifests\<close>

definition is_list_of :: "(json \<Rightarrow> bool) \<Rightarrow> json \<Rightarrow> bool" where
  "is_list_of P v \<longleftrightarrow> (\<exists>vs. v = JList vs \<and> list_all P vs)"

definition peer_typed :: "json \<Rightarrow> bool" where
  "peer_typed v \<longleftrightarrow> (\<exists>d kind peer_id address. v = JObj d \<and>
     map_of d ''kind'' = Some (JStr kind) \<and> kind \<in> {''ipv8'', ''tunnel''} \<and>
     map_of d ''peer_id'' = Some (JStr peer_id) \<and> peer_id \<noteq> [] \<and>
     map_of d ''address'' = Some (JStr address) \<and> CHR '':'' \<in> set address)"

definition is_dim :: "json \<Rightarrow> bool" where
  "is_dim v \<longleftrightarrow> (\<exists>n > 0. v = JInt n)"

definition is_count :: "json \<Rightarrow> bool" where
  "is_count v \<longleftrightarrow> (\<exists>n \<ge> 0. v = JInt n)"

definition task_typed :: "task_spec \<Rightarrow> bool" where
  "task_typed t \<longleftrightarrow> in_strs (ts_type t) TASK_TYPES \<and> in_strs (ts_label_type t) LABEL_TYPES
     \<and> ts_input_shape t \<noteq> [] \<and> list_all is_dim (ts_input_shape t)
     \<and> ts_output_shape t \<noteq> [] \<and> list_all is_dim (ts_output_shape t)
     \<and> length (ts_tags t) \<le> 16 \<and> list_all is_string (ts_tags t)"

definition model_typed :: "model_spec \<Rightarrow> bool" where
  "model_typed m \<longleftrightarrow> in_strs (ms_framework m) FRAMEWORKS \<and> is_string (ms_arch_hash m)
     \<and> null_or is_object (ms_arch_spec m) \<and> null_or is_string (ms_genesis_weights_hash m)
     \<and> null_or is_string (ms_genesis_weights_url m)"

definition manifest_typed :: "swarm_manifest \<Rightarrow> bool" where
  "manifest_typed m \<longleftrightarrow> is_string (sm_name m) \<and> is_string (sm_description m) \<and> is_string (sm_created_at m)
     \<and> null_or is_string (sm_expires_at m) \<and> null_or is_count (sm_round_limit m)
     \<and> null_or is_string (sm_creator_pubkey m) \<and> null_or is_string (sm_signature m)
     \<and> list_all peer_typed (sm_bootstrap_peers m) \<and> list_all (is_list_of is_string) (sm_tracker_urls m)
     \<and> task_typed (sm_task m) \<and> model_typed (sm_model m) \<and> 0 \<le> bz_f (sm_byzantine m)
     \<and> tm_enrollment (sm_telemetry m) \<in> set ENROLLMENT_MODES"

lemma positive_int_dim: "positive_int v \<Longrightarrow> is_dim v"
  by (simp add: positive_int_def is_dim_def split: json.splits)

lemma natural_int_count: "natural_int v \<Longrightarrow> is_count v"
  by (simp add: natural_int_def is_count_def split: json.splits)

lemma str_matches_string: "str_matches re v \<Longrightarrow> is_string v"
  by (auto simp: str_matches_def is_string_def split: json.splits)

lemma null_or_mono: "(P v \<Longrightarrow> Q v) \<Longrightarrow> null_or P v \<Longrightarrow> null_or Q v"
  by (auto simp: null_or_def)

lemma dict_get_JStr: "dict_get d k JNull = JStr s \<Longrightarrow> map_of d k = Some (JStr s)"
  by (simp add: dict_get_def split: option.splits)

lemma validate_peer_typed: "validate_peer v = ok () \<Longrightarrow> peer_typed v"
proof (cases v)
  case (JObj d)
  moreover assume "validate_peer v = ok ()"
  ultimately obtain k i a where "dict_get d ''kind'' JNull = JStr k" "k \<in> set PEER_KINDS"
      "dict_get d ''peer_id'' JNull = JStr i" "PEER_ID_HEX_RE i"
      "dict_get d ''address'' JNull = JStr a" "CHR '':'' \<in> set a"
    by (auto simp: validate_peer_def policy_checks in_strs_iff str_matches_def simp del: first_error.simps split: json.splits)
  then show ?thesis
    by (auto simp: JObj peer_typed_def PEER_KINDS_def PEER_ID_HEX_RE_def dollar_def dest!: dict_get_JStr)
qed (simp_all add: validate_peer_def)

lemma validate_tier_typed: "validate_tier v = ok () \<Longrightarrow> is_list_of is_string v"
  by (cases v) (auto simp: validate_tier_def checks is_list_of_def list_all_iff str_matches_string)

lemma task_validate_typed: "task_spec_validate t = ok () \<Longrightarrow> task_typed t"
  by (auto simp: task_spec_validate_def validate_shape_def task_typed_def policy_checks list_all_iff TAGS_MAX_def
      dest: str_matches_string positive_int_dim simp del: first_error.simps)

lemma model_validate_typed: "model_spec_validate m = ok () \<Longrightarrow> model_typed m"
  by (auto simp: model_spec_validate_def model_typed_def policy_checks simp del: first_error.simps
      dest: str_matches_string elim: null_or_mono [rotated])

lemma validate_times_ok:
  "validate_times now m = ok () \<longleftrightarrow> (\<exists>c. parse_rfc3339 (sm_created_at m) = ok c \<and>
     (sm_expires_at m = JNull \<or> (\<exists>e. parse_rfc3339 (sm_expires_at m) = ok e \<and> c < e \<and> now \<le> e)))"
  by (cases "parse_rfc3339 (sm_created_at m)"; cases "parse_rfc3339 (sm_expires_at m)")
     (auto simp: validate_times_def not_le not_less)

lemma parse_rfc3339_string: "parse_rfc3339 v = ok t \<Longrightarrow> is_string v"
  by (auto simp: parse_rfc3339_def is_string_def split: json.splits)

lemma valid_name_string: "valid_name v \<Longrightarrow> is_string v" "valid_description v \<Longrightarrow> is_string v"
  by (auto simp: valid_name_def valid_description_def is_string_def split: json.splits)

lemma v3_fields_typed:
  assumes "validate_v3_fields now m = ok ()"
  shows "manifest_typed m"
proof -
  have "valid_name (sm_name m)" "valid_description (sm_description m)" and times: "validate_times now m = ok ()"
    and "null_or natural_int (sm_round_limit m)"
    and "null_or (str_matches ED25519_PUBKEY_RE) (sm_creator_pubkey m)" "null_or (str_matches ED25519_SIG_RE) (sm_signature m)"
    and "list_all (\<lambda>p. validate_peer p = ok ()) (sm_bootstrap_peers m)" "list_all (\<lambda>t. validate_tier t = ok ()) (sm_tracker_urls m)"
    and "task_spec_validate (sm_task m) = ok ()" "model_spec_validate (sm_model m) = ok ()"
    and "byzantine_spec_validate (sm_byzantine m) = ok ()" "telemetry_config_validate (sm_telemetry m) = ok ()"
    using assms by (simp_all add: validate_v3_fields_def checks list_all_iff del: first_error.simps)
  moreover have "is_string (sm_created_at m)" "null_or is_string (sm_expires_at m)"
    using times by (auto simp: validate_times_ok null_or_def dest: parse_rfc3339_string)
  ultimately show ?thesis
    by (auto simp: manifest_typed_def valid_name_string task_validate_typed model_validate_typed byzantine_spec_validate_def
        telemetry_config_validate_def checks list_all_iff validate_peer_typed validate_tier_typed
        dest: str_matches_string natural_int_count elim: null_or_mono [rotated] simp del: first_error.simps)
qed

lemma manifest_from_dict_strict:
  assumes "manifest_from_dict rep now True v = ok m"
  obtains d where "v = JObj d" "version_gate True d = ok ()" "manifest_fields rep True d = ok m"
    "validate_v3_fields now m = ok ()"
  using assms that by (cases v) (auto simp: manifest_from_dict_def result_bind_eq_ok)

lemma strict_version:
  assumes "manifest_from_dict rep now True v = ok m"
  shows "eq_int (sm_schema_version m) 3"
proof -
  from assms obtain d where d: "version_gate True d = ok ()" "manifest_fields rep True d = ok m"
    by (rule manifest_from_dict_strict)
  have "eq_int (dict_get d ''schema_version'' JNull) MANIFEST_SCHEMA_VERSION"
    using d(1) by (simp add: version_gate_def Let_def checks del: first_error.simps)
  moreover have "sm_schema_version m = dict_get d ''schema_version'' (JInt MANIFEST_SCHEMA_VERSION)"
    using d(2) unfolding manifest_fields_def Let_def result_bind_eq_ok by (elim exE conjE) auto
  ultimately show ?thesis by (metis dict_get_eq_int MANIFEST_SCHEMA_VERSION_def)
qed

text \<open>C20: What a strict load accepts is well-typed in the fields the version 3 validation looks at, whatever document was read: the
  name, the description and the time stamps of the manifest are strings, the task's shapes are non-empty lists of
  positive integers (booleans and floats excluded) and its type and label type known ones, at most 16 tags are strings, the
  model has a known framework and string hashes, bootstrap peers are objects with a known kind, a non-empty peer id
  and an address that contains a colon, tracker tiers are lists of strings, \<open>f\<close> is a natural number, the telemetry mode
  is a known one; the manifest has schema version 3, was created before it expires and has not expired. (The names
  of the strategies are not checked here, and a colon alone is an address.)\<close>

theorem strict_load_typed:
  assumes "manifest_from_dict rep now True v = ok m"
  shows "manifest_typed m \<and> eq_int (sm_schema_version m) 3 \<and>
    (\<exists>c. parse_rfc3339 (sm_created_at m) = ok c \<and>
       (sm_expires_at m = JNull \<or> (\<exists>e. parse_rfc3339 (sm_expires_at m) = ok e \<and> c < e \<and> now \<le> e)))"
proof -
  from assms obtain d where v3: "validate_v3_fields now m = ok ()" by (rule manifest_from_dict_strict)
  then have "validate_times now m = ok ()"
    by (simp add: validate_v3_fields_def checks del: first_error.simps)
  then show ?thesis using v3_fields_typed [OF v3] validate_times_ok strict_version [OF assms] by blast
qed

section \<open>Round trip\<close>

lemma block_dict_JObj [simp]: "block_dict (JObj d) = ok d"
  by (simp add: block_dict_def)

lemmas block_keys = no_unknown_def none_missing_def check_def

lemma task_spec_round_trip: "task_spec_from_dict s (task_spec_to_dict t) = ok t"
  by (simp add: task_spec_from_dict_def task_spec_to_dict_def task_spec_keys_def block_keys)

lemma model_spec_round_trip: "model_spec_from_dict s (model_spec_to_dict m) = ok m"
  by (simp add: model_spec_from_dict_def model_spec_to_dict_def model_spec_keys_def block_keys)

lemma byzantine_spec_round_trip: "byzantine_spec_from_dict s (byzantine_spec_to_dict b) = ok b"
  by (simp add: byzantine_spec_from_dict_def byzantine_spec_to_dict_def block_keys)

lemma telemetry_config_round_trip:
  "tm_enrollment t \<noteq> [] \<Longrightarrow> telemetry_config_from_dict rep s (telemetry_config_to_dict t) = ok t"
  by (simp add: telemetry_config_from_dict_def telemetry_config_to_dict_def check_allowed_keys_def check_def str_or_def)

text \<open>The dictionary of a well-typed manifest.\<close>

definition manifest_dict :: "swarm_manifest \<Rightarrow> (string, json) pydict" where
  "manifest_dict m =
     [(''schema_version'', sm_schema_version m),
      (''model_arch_fingerprint'', sm_model_arch_fingerprint m),
      (''data_schema_hash'', sm_data_schema_hash m),
      (''aggregation'', JObj [(''name'', sm_aggregation_name m), (''params'', sm_aggregation_params m)]),
      (''topology'', JObj [(''name'', sm_topology_name m), (''params'', sm_topology_params m)]),
      (''compression'', JObj [(''enabled'', sm_compression_enabled m), (''params'', sm_compression_params m)]),
      (''data_policy'', data_policy_to_dict (sm_data_policy m)),
      (''name'', sm_name m),
      (''description'', sm_description m),
      (''created_at'', sm_created_at m),
      (''expires_at'', sm_expires_at m),
      (''task'', task_spec_to_dict (sm_task m)),
      (''model'', model_spec_to_dict (sm_model m)),
      (''byzantine'', byzantine_spec_to_dict (sm_byzantine m)),
      (''round_limit'', sm_round_limit m),
      (''bootstrap_peers'', JList (sm_bootstrap_peers m)),
      (''tracker_urls'', JList (sm_tracker_urls m)),
      (''creator_pubkey'', sm_creator_pubkey m),
      (''signature'', sm_signature m),
      (''telemetry'', telemetry_config_to_dict (sm_telemetry m))]"

lemma map_py_dict: "list_all peer_typed ps \<Longrightarrow> result_map py_dict ps = ok ps"
  by (induction ps) (auto simp: peer_typed_def)

lemma map_py_list: "list_all (is_list_of P) ts \<Longrightarrow> \<exists>us. result_map py_list ts = ok us \<and> map JList us = ts"
  by (induction ts) (auto simp: is_list_of_def)

lemma manifest_to_dict_typed: "manifest_typed m \<Longrightarrow> manifest_to_dict m = ok (manifest_dict m)"
  using map_py_dict [of "sm_bootstrap_peers m"] map_py_list [of is_string "sm_tracker_urls m"]
  by (auto simp: manifest_typed_def manifest_to_dict_def manifest_dict_def)

lemma version_gate_dict: "eq_int (sm_schema_version m) 3 \<Longrightarrow> version_gate True (manifest_dict m) = ok ()"
  by (simp add: version_gate_def manifest_dict_def MANIFEST_SCHEMA_VERSION_def block_keys
      V3_ALLOWED_TOP_KEYS_def V3_REQUIRED_TOP_KEYS_def)

lemma get_or_empty_dict:
  "get_or_empty (manifest_dict m) ''aggregation'' = JObj [(''name'', sm_aggregation_name m), (''params'', sm_aggregation_params m)]"
  "get_or_empty (manifest_dict m) ''topology'' = JObj [(''name'', sm_topology_name m), (''params'', sm_topology_params m)]"
  "get_or_empty (manifest_dict m) ''compression'' = JObj [(''enabled'', sm_compression_enabled m), (''params'', sm_compression_params m)]"
  by (simp_all add: get_or_empty_def manifest_dict_def)

lemma manifest_fields_dict:
  assumes "eq_int (sm_schema_version m) 3" "policy_reset (sm_data_policy m) = sm_data_policy m"
    "eq_int (dp_schema_version (sm_data_policy m)) MANIFEST_SCHEMA_VERSION" "tm_enrollment (sm_telemetry m) \<noteq> []"
  shows "manifest_fields rep True (manifest_dict m) = ok m"
  using assms unfolding manifest_fields_def Let_def get_or_empty_dict
  by (simp add: manifest_dict_def data_policy_round_trip task_spec_round_trip model_spec_round_trip
      byzantine_spec_round_trip telemetry_config_round_trip)

text \<open>C21: A strictly loaded manifest survives being written and read again: its dictionary is accepted by
  the strict loader and gives the same manifest, field by field.\<close>

theorem strict_load_round_trip:
  assumes "manifest_from_dict rep now True v = ok m"
  shows "\<exists>d. manifest_to_dict m = ok d \<and> manifest_from_dict rep now True (JObj d) = ok m"
proof -
  from assms obtain d where d: "version_gate True d = ok ()" "manifest_fields rep True d = ok m"
    and v3: "validate_v3_fields now m = ok ()" by (rule manifest_from_dict_strict)
  have typed: "manifest_typed m" and ver: "eq_int (sm_schema_version m) 3"
    using v3_fields_typed [OF v3] strict_version [OF assms] by simp_all
  obtain p where "data_policy_from_dict True p = ok (sm_data_policy m)"
    using d unfolding manifest_fields_def Let_def result_bind_eq_ok version_gate_def
    by (elim exE conjE) (auto simp: checks simp del: first_error.simps)
  note policy = data_policy_loaded [OF this]
  have "manifest_fields rep True (manifest_dict m) = ok m"
    using typed ver policy by (intro manifest_fields_dict) (auto simp: manifest_typed_def ENROLLMENT_MODES_def)
  then have "manifest_from_dict rep now True (JObj (manifest_dict m)) = ok m"
    using v3 version_gate_dict [OF ver] by (simp add: manifest_from_dict_def)
  then show ?thesis using manifest_to_dict_typed [OF typed] by blast
qed

text \<open>The default manifest as a document.\<close>

lemma example_loads:
  "manifest_from_dict (\<lambda>_. []) [2026, 1, 1, 0, 0, 0, 0] True (JObj (manifest_dict swarm_manifest_init)) = ok swarm_manifest_init"
proof -
  have "validate_v3_fields [2026, 1, 1, 0, 0, 0, 0] swarm_manifest_init = ok ()" by code_simp
  moreover have ver: "eq_int (sm_schema_version swarm_manifest_init) 3"
      "eq_int (dp_schema_version (sm_data_policy swarm_manifest_init)) MANIFEST_SCHEMA_VERSION"
      "tm_enrollment (sm_telemetry swarm_manifest_init) \<noteq> []" by code_simp+
  moreover have "policy_reset (sm_data_policy swarm_manifest_init) = sm_data_policy swarm_manifest_init"
    by (simp add: swarm_manifest_init_def data_policy_init_def policy_reset_def collaboration_policy_init_def)
  ultimately show ?thesis
    using version_gate_dict manifest_fields_dict by (simp add: manifest_from_dict_def)
qed

text \<open>What the strict load does not check: the strategy's name, and the two sides of the colon in an address.\<close>

definition loose_manifest :: swarm_manifest where
  "loose_manifest = swarm_manifest_init\<lparr>sm_aggregation_name := JInt 5,
     sm_bootstrap_peers := [JObj [(''kind'', JStr ''ipv8''), (''peer_id'', JStr ''00''), (''address'', JStr '':'')]]\<rparr>"

lemma loose_manifest_loads:
  "manifest_from_dict (\<lambda>_. []) [2026, 1, 1, 0, 0, 0, 0] True (JObj (manifest_dict loose_manifest)) = ok loose_manifest"
proof -
  have "validate_v3_fields [2026, 1, 1, 0, 0, 0, 0] loose_manifest = ok ()" by code_simp
  moreover have "eq_int (sm_schema_version loose_manifest) 3"
      "eq_int (dp_schema_version (sm_data_policy loose_manifest)) MANIFEST_SCHEMA_VERSION"
      "tm_enrollment (sm_telemetry loose_manifest) \<noteq> []" by code_simp+
  moreover have "policy_reset (sm_data_policy loose_manifest) = sm_data_policy loose_manifest"
    by (simp add: loose_manifest_def swarm_manifest_init_def data_policy_init_def policy_reset_def collaboration_policy_init_def)
  ultimately show ?thesis
    using version_gate_dict manifest_fields_dict by (simp add: manifest_from_dict_def)
qed

lemma strict_load_typed_witness:
  "manifest_from_dict (\<lambda>_. []) [2026, 1, 1, 0, 0, 0, 0] True (JObj (manifest_dict swarm_manifest_init)) = ok swarm_manifest_init
   \<and> is_string (sm_name swarm_manifest_init)"
proof -
  have load: "manifest_from_dict (\<lambda>_. []) [2026, 1, 1, 0, 0, 0, 0] True (JObj (manifest_dict swarm_manifest_init))
      = ok swarm_manifest_init" by (rule example_loads)
  with strict_load_typed [OF load] show ?thesis by (simp add: manifest_typed_def)
qed

lemma strict_load_round_trip_witness:
  "\<exists>d. manifest_to_dict swarm_manifest_init = ok d \<and>
     manifest_from_dict (\<lambda>_. []) [2026, 1, 1, 0, 0, 0, 0] True (JObj d) = ok swarm_manifest_init"
  using strict_load_round_trip [OF example_loads] by blast

section \<open>The hash identifies the manifest\<close>

lemma set_members_map:
  "jnorm (JObj d) = jnorm (JObj d') \<Longrightarrow> set (map (\<lambda>(k, v). (k, jnorm v)) d) = set (map (\<lambda>(k, v). (k, jnorm v)) d')"
proof -
  assume "jnorm (JObj d) = jnorm (JObj d')"
  then have "set (members (map (\<lambda>(k, v). (k, jnorm v)) d)) = set (members (map (\<lambda>(k, v). (k, jnorm v)) d'))" by simp
  then show ?thesis by (simp only: set_members)
qed

lemma distinct_members: "distinct (map fst (members l)) \<longleftrightarrow> distinct (map fst l)"
  by (simp add: members_def distinct_map)

lemma map_of_map_jnorm: "map_of (map (\<lambda>(k, v). (k, jnorm v)) d) k = map_option jnorm (map_of d k)"
  by (induction d) auto

lemma sorted_members_unique:
  assumes "distinct (map fst (members l))" "distinct (map fst (members l'))" "set (members l) = set (members l')"
  shows "members l = members l'"
proof (rule map_sorted_distinct_set_unique [where f = fst])
  show "inj_on fst (set (members l) \<union> set (members l'))"
    using assms(1,3) by (simp add: distinct_map)
qed (use assms in \<open>simp_all add: members_def\<close>)

text \<open>Equality of objects with distinct keys is equality of their members, in any order.\<close>

lemma jnorm_obj_eq_iff:
  assumes "dict_wf d" "dict_wf d'"
  shows "jnorm (JObj d) = jnorm (JObj d') \<longleftrightarrow> (\<forall>k. map_option jnorm (map_of d k) = map_option jnorm (map_of d' k))"
proof -
  let ?n = "map (\<lambda>(k, v). (k, jnorm v))"
  have wf: "distinct (map fst (?n d))" "distinct (map fst (?n d'))"
    using assms by (simp_all add: comp_def case_prod_unfold)
  have "jnorm (JObj d) = jnorm (JObj d') \<longleftrightarrow> set (?n d) = set (?n d')"
  proof
    assume eq: "set (?n d) = set (?n d')"
    have "distinct (map fst (members (?n d)))" "distinct (map fst (members (?n d')))"
      using wf by (simp_all only: distinct_members)
    then have "members (?n d) = members (?n d')"
      using eq by (intro sorted_members_unique) (simp_all only: set_members)
    then show "jnorm (JObj d) = jnorm (JObj d')" by simp
  qed (rule set_members_map)
  also have "\<dots> \<longleftrightarrow> map_of (?n d) = map_of (?n d')"
    using wf by (metis map_of_inject_set)
  finally show ?thesis by (simp add: fun_eq_iff map_of_map_jnorm)
qed

text \<open>The dictionary that is hashed has distinct keys and all fields but the signature.\<close>

lemma manifest_to_dict_keys: "manifest_to_dict m = ok d \<Longrightarrow> dict_wf d"
  by (auto simp: manifest_to_dict_def result_bind_eq_ok)

lemma unsigned_dict_wf: "unsigned_dict m = ok d \<Longrightarrow> dict_wf d"
  by (auto simp: unsigned_dict_def result_bind_eq_ok manifest_to_dict_keys AList.distinct_delete)

lemma manifest_hash_eq:
  assumes "manifest_hash sha m = ok h"
  obtains d where "unsigned_dict m = ok d" "finite_json (JObj d)" "h = hex_of_bytes (sha (encode (dumps_ascii (JObj d))))"
  using assms that
  by (auto simp: manifest_hash_def manifest_canonical_bytes_def canonical_json_def result_bind_eq_ok split: if_splits)

text \<open>C22: The manifest hash identifies the manifest: two manifests have the same hash exactly if they agree
  on every field of their dictionary but the signature (dictionaries inside a field being compared as
  dictionaries, without regard to order). SHA-256 is assumed to have no collision on the two inputs; the
  strings are UTF-8 and the floats are written by \<open>repr\<close>.\<close>

theorem manifest_hash_binds:
  assumes "manifest_hash sha m1 = ok h1" "manifest_hash sha m2 = ok h2"
    and d1: "unsigned_dict m1 = ok d1" "json_wf is_str (JObj d1)"
    and d2: "unsigned_dict m2 = ok d2" "json_wf is_str (JObj d2)"
    and no_collision: "inj_on sha {encode (dumps_ascii (JObj d1)), encode (dumps_ascii (JObj d2))}"
  shows "h1 = h2 \<longleftrightarrow> (\<forall>k. map_option jnorm (map_of d1 k) = map_option jnorm (map_of d2 k))"
proof -
  have h: "h1 = hex_of_bytes (sha (encode (dumps_ascii (JObj d1))))" "h2 = hex_of_bytes (sha (encode (dumps_ascii (JObj d2))))"
    using d1 d2 manifest_hash_eq [OF assms(1)] manifest_hash_eq [OF assms(2)] by (metis sum.inject(2))+
  have "h1 = h2 \<longleftrightarrow> dumps_ascii (JObj d1) = dumps_ascii (JObj d2)"
    unfolding h hex_of_bytes_inj using inj_on_eq_iff [OF no_collision, of "encode (dumps_ascii (JObj d1))" "encode (dumps_ascii (JObj d2))"]
    by simp
  also have "\<dots> \<longleftrightarrow> jnorm (JObj d1) = jnorm (JObj d2)"
    by (rule dumps_ascii_eq_iff [OF d1(2) d2(2)])
  also have "\<dots> \<longleftrightarrow> (\<forall>k. map_option jnorm (map_of d1 k) = map_option jnorm (map_of d2 k))"
    using d1(1) d2(1) by (intro jnorm_obj_eq_iff unsigned_dict_wf)
  finally show ?thesis .
qed

lemma json_wf_mono: "json_wf P v \<Longrightarrow> (\<And>s. P s \<Longrightarrow> Q s) \<Longrightarrow> json_wf Q v"
proof (induction P v rule: json_wf.induct)
  case (2 P kvs)
  then show ?case by (fastforce simp: list_all_iff case_prod_unfold)
qed (auto simp: list_all_iff)

definition ascii :: "string \<Rightarrow> bool" where
  "ascii s = list_all (\<lambda>c. of_char c < (128 :: nat)) s"

lemma ascii_is_str: "ascii s \<Longrightarrow> is_str s"
  by (simp add: ascii_def is_str_ascii)

text \<open>Two manifests that differ in their name, with the identity in the place of SHA-256.\<close>

definition renamed_manifest :: swarm_manifest where
  "renamed_manifest = swarm_manifest_init\<lparr>sm_name := JStr ''swarm''\<rparr>"

lemma manifest_hash_binds_witness: "manifest_hash id swarm_manifest_init \<noteq> manifest_hash id renamed_manifest"
proof -
  define d1 d2 where d: "d1 = AList.delete ''signature'' (manifest_dict swarm_manifest_init)"
    "d2 = AList.delete ''signature'' (manifest_dict renamed_manifest)"
  have u: "unsigned_dict swarm_manifest_init = ok d1" "unsigned_dict renamed_manifest = ok d2"
    by (simp_all add: unsigned_dict_def manifest_to_dict_def manifest_dict_def d renamed_manifest_def swarm_manifest_init_def)
  have "json_wf ascii (JObj d1)" "json_wf ascii (JObj d2)" unfolding d by code_simp+
  then have wf: "json_wf is_str (JObj d1)" "json_wf is_str (JObj d2)"
    by (blast intro: json_wf_mono ascii_is_str)+
  have "finite_json (JObj d1)" "finite_json (JObj d2)" unfolding d by code_simp+
  then obtain h1 h2 where h: "manifest_hash id swarm_manifest_init = ok h1" "manifest_hash id renamed_manifest = ok h2"
    by (simp add: manifest_hash_def manifest_canonical_bytes_def u canonical_json_def)
  have "map_of d1 ''name'' = Some (JStr ''unnamed'')" "map_of d2 ''name'' = Some (JStr ''swarm'')" unfolding d by code_simp+
  then have "\<not> (\<forall>k. map_option jnorm (map_of d1 k) = map_option jnorm (map_of d2 k))"
    by (auto intro!: exI [of _ "''name''"])
  with manifest_hash_binds [OF h u(1) wf(1) u(2) wf(2)] show ?thesis by (simp add: h)
qed

section \<open>Files\<close>

text \<open>A write leaves the old file or a complete new one, and no temporary file.\<close>

lemma to_file_atomic:
  assumes "manifest_to_file wrote replaced pretty m fs = (fs', r)" "qf_tmp fs = None"
  shows "qf_tmp fs' = None \<and>
    (r = ok () \<and> (\<exists>p. to_file_payload pretty m = ok p \<and> qf_dest fs' = Some p) \<or> r \<noteq> ok () \<and> qf_dest fs' = qf_dest fs)"
  using assms by (auto simp: manifest_to_file_def split: sum.splits if_splits)

text \<open>The compact file has no signature: a signed manifest and its unsigned version are written alike.\<close>

lemma unsigned_dict_signature: "unsigned_dict (m\<lparr>sm_signature := x\<rparr>) = unsigned_dict m"
  by (simp add: unsigned_dict_def manifest_to_dict_def result_bind_eq_ok)
     (cases "result_map py_dict (sm_bootstrap_peers m)"; cases "result_map py_list (sm_tracker_urls m)"; simp)

lemma compact_file_drops_signature: "to_file_payload False (m\<lparr>sm_signature := x\<rparr>) = to_file_payload False m"
  by (simp add: to_file_payload_def manifest_canonical_bytes_def unsigned_dict_signature)

lemma hash_ignores_signature: "manifest_hash sha (m\<lparr>sm_signature := x\<rparr>) = manifest_hash sha m"
  by (simp add: manifest_hash_def manifest_canonical_bytes_def unsigned_dict_signature)

end
