(* ===== verification/Directory.thy ===== *)
theory Directory
  imports Json Rate_Limits Wire
begin

text \<open>
  The swarm directory (\<open>network/directory.py\<close>): signed advertisements, their wire payload, the local cache
  with time-to-live and least-recently-received eviction, the publication quotas and the query. The
  Ed25519 implementation is a parameter; \<open>None\<close> stands for a missing \<open>cryptography\<close> package. The
  clock is read once per operation.
\<close>

section \<open>Constants\<close>

definition MAX_CACHE_ENTRIES :: int where "MAX_CACHE_ENTRIES = 10000"
definition MAX_ADS_PER_CREATOR_PER_DAY :: int where "MAX_ADS_PER_CREATOR_PER_DAY = 100"
definition MAX_ADS_PER_SESSION :: int where "MAX_ADS_PER_SESSION = 10"
definition DEFAULT_ADVERTISEMENT_TTL_SECONDS :: int where
  "DEFAULT_ADVERTISEMENT_TTL_SECONDS = 30 * 24 * 60 * 60"

definition DIRECTORY_COMMUNITY_ID :: "(bytes \<Rightarrow> bytes) \<Rightarrow> bytes" where
  "DIRECTORY_COMMUNITY_ID sha = take 20 (sha (encode ''QuinkGL-SwarmDirectory-v1''))"

section \<open>Advertisements\<close>

record advertisement =
  ad_swarm_id_hex :: string
  ad_name :: string
  ad_tags :: "string list"
  ad_input_shape :: "int list"
  ad_output_shape :: "int list"
  ad_label_type :: string
  ad_data_schema_hash :: string
  ad_reference_fingerprint :: "(string \<times> json) list"
  ad_creator_pubkey :: "string option"
  ad_signature :: "string option"
  ad_received_at :: "real option"
  ad_expires_at :: "real option"

definition canonical_bytes :: "advertisement \<Rightarrow> bytes" where
  "canonical_bytes ad = encode (dumps (JObj
     [(''swarm_id_hex'', JStr (ad_swarm_id_hex ad)),
      (''name'', JStr (ad_name ad)),
      (''tags'', JList (map JStr (sort (ad_tags ad)))),
      (''input_shape'', JList (map JInt (ad_input_shape ad))),
      (''output_shape'', JList (map JInt (ad_output_shape ad))),
      (''label_type'', JStr (ad_label_type ad)),
      (''data_schema_hash'', JStr (ad_data_schema_hash ad)),
      (''reference_fingerprint'', JObj (ad_reference_fingerprint ad)),
      (''creator_pubkey'', case ad_creator_pubkey ad of None \<Rightarrow> JNull | Some k \<Rightarrow> JStr k)]))"

text \<open>The library: loading a PEM private key (\<open>None\<close> if it does not load or is no Ed25519 key) gives
  its raw public half and the signing function; verification fails on a malformed public key too.\<close>

record ed25519 =
  ed_load :: "bytes \<Rightarrow> (bytes \<times> (bytes \<Rightarrow> bytes)) option"
  ed_verify :: "bytes \<Rightarrow> bytes \<Rightarrow> bytes \<Rightarrow> bool"

definition ERR_SIGNATURE_INVALID :: string where "ERR_SIGNATURE_INVALID = ''ERR_SIGNATURE_INVALID''"
definition ERR_SIGNING_UNAVAILABLE :: string where "ERR_SIGNING_UNAVAILABLE = ''ERR_SIGNING_UNAVAILABLE''"
definition ERR_WIRE_RATE_LIMITED :: string where "ERR_WIRE_RATE_LIMITED = ''ERR_WIRE_RATE_LIMITED''"

definition key_text :: "bytes \<Rightarrow> string" where
  "key_text raw = ''ed25519:'' @ hex_of_bytes raw"

definition sign_advertisement :: "ed25519 option \<Rightarrow> advertisement \<Rightarrow> bytes \<Rightarrow> advertisement result" where
  "sign_advertisement lib ad private_key_pem =
     (case lib of
        None \<Rightarrow> raise (ValueError ERR_SIGNING_UNAVAILABLE)
      | Some ed \<Rightarrow>
          (case ed_load ed private_key_pem of
             None \<Rightarrow> raise (ValueError ERR_SIGNATURE_INVALID)
           | Some (public_raw, signer) \<Rightarrow>
               if ad_creator_pubkey ad \<noteq> None \<and> ad_creator_pubkey ad \<noteq> Some (key_text public_raw)
               then raise (ValueError ERR_SIGNATURE_INVALID)
               else let signed = ad\<lparr>ad_creator_pubkey := Some (key_text public_raw), ad_signature := None\<rparr>
                    in ok (signed\<lparr>ad_signature := Some (key_text (signer (canonical_bytes signed)))\<rparr>)))"

definition starts_with :: "string \<Rightarrow> string \<Rightarrow> bool" where
  "starts_with s p \<longleftrightarrow> take (length p) s = p"

definition verify_advertisement :: "ed25519 option \<Rightarrow> advertisement \<Rightarrow> bool result" where
  "verify_advertisement lib ad =
     (case (ad_creator_pubkey ad, ad_signature ad) of
        (Some pk, Some sig) \<Rightarrow>
          if pk = [] \<or> sig = [] then ok False
          else if \<not> starts_with pk ''ed25519:'' then ok False
          else if \<not> starts_with sig ''ed25519:'' then ok False
          else (case (fromhex (drop 8 pk), fromhex (drop 8 sig)) of
             (Inr pub_raw, Inr sig_raw) \<Rightarrow>
               if length pub_raw \<noteq> 32 \<or> length sig_raw \<noteq> 64 then ok False
               else (case lib of
                  None \<Rightarrow> raise (ValueError ERR_SIGNING_UNAVAILABLE)
                | Some ed \<Rightarrow> ok (ed_verify ed pub_raw sig_raw (canonical_bytes ad)))
           | _ \<Rightarrow> ok False)
      | _ \<Rightarrow> ok False)"

section \<open>The wire payload\<close>

definition payload_names :: "string list" where
  "payload_names = [''swarm_id_hex'', ''name'', ''tags_csv'', ''input_shape_json'', ''output_shape_json'',
     ''label_type'', ''data_schema_hash'', ''reference_fingerprint_json'', ''creator_pubkey'', ''signature'']"

text \<open>The payload is its ten text fields in that order.\<close>

definition advertisement_to_pack_list :: "string list \<Rightarrow> pack_list" where
  "advertisement_to_pack_list texts = map (\<lambda>s. (VarlenH, WBytes (encode s))) texts"

definition advertisement_from_unpack_list :: "wire_val list \<Rightarrow> string list result" where
  "advertisement_from_unpack_list raw =
     (if length raw \<noteq> 10 then raise (ValueError ''SwarmAdvertisementPayload expects 10 fields'')
      else result_map (\<lambda>v. case v of WBytes b \<Rightarrow> decode b | _ \<Rightarrow> raise TypeError) raw)"

interpretation swarm_ad: codec "\<lambda>texts. pack_values (advertisement_to_pack_list texts)"
  advertisement_from_unpack_list "\<lambda>texts. length texts = 10 \<and> list_all is_str texts"
proof unfold_locales
  fix texts :: "string list"
  have "list_all is_str fs \<Longrightarrow>
      result_map (\<lambda>v. case v of WBytes b \<Rightarrow> decode b | _ \<Rightarrow> raise TypeError) (map (\<lambda>s. WBytes (encode s)) fs) = ok fs" for fs
    by (induction fs) (auto simp: codec_simps)
  then show "length texts = 10 \<and> list_all is_str texts \<Longrightarrow>
      advertisement_from_unpack_list (pack_values (advertisement_to_pack_list texts)) = ok texts"
    by (simp add: advertisement_from_unpack_list_def advertisement_to_pack_list_def pack_values_def comp_def)
qed

section \<open>SwarmDirectoryCommunity\<close>

record directory =
  dc_max_cache :: int
  dc_default_ttl :: int
  dc_cache :: "(string, advertisement) pydict"
  dc_creator_history :: "(string, real list) pydict"
  dc_session_publish_count :: int
  dc_max_per_creator :: int
  dc_max_per_session :: int

definition directory_init :: "int \<Rightarrow> int \<Rightarrow> int \<Rightarrow> int \<Rightarrow> directory result" where
  "directory_init max_cache_entries default_ttl_seconds per_creator per_session =
     (if max_cache_entries \<le> 0 then raise (ValueError ''max_cache_entries must be positive'')
      else if \<not> (0 < default_ttl_seconds \<and> default_ttl_seconds \<le> 30 * 24 * 60 * 60)
      then raise (ValueError ''default_ttl_seconds out of range'')
      else ok \<lparr>dc_max_cache = max_cache_entries, dc_default_ttl = default_ttl_seconds, dc_cache = [],
             dc_creator_history = [], dc_session_publish_count = 0, dc_max_per_creator = per_creator,
             dc_max_per_session = per_session\<rparr>)"

definition expired :: "real \<Rightarrow> advertisement \<Rightarrow> bool" where
  "expired now ad \<longleftrightarrow> (case ad_expires_at ad of None \<Rightarrow> False | Some t \<Rightarrow> t \<le> now)"

definition evict_expired :: "real \<Rightarrow> directory \<Rightarrow> directory" where
  "evict_expired now d = d\<lparr>dc_cache := filter (\<lambda>(_, ad). \<not> expired now ad) (dc_cache d)\<rparr>"

text \<open>\<open>while len(self._cache) > self._max_cache: self._cache.popitem(last=False)\<close>.\<close>

definition trim_cache :: "directory \<Rightarrow> directory" where
  "trim_cache d = d\<lparr>dc_cache := drop (nat (int (length (dc_cache d)) - dc_max_cache d)) (dc_cache d)\<rparr>"

definition stamp :: "real \<Rightarrow> directory \<Rightarrow> advertisement \<Rightarrow> advertisement" where
  "stamp now d ad = ad\<lparr>ad_received_at := Some now,
     ad_expires_at := Some (case ad_expires_at ad of Some t \<Rightarrow> t | None \<Rightarrow> now + of_int (dc_default_ttl d))\<rparr>"

definition insert_ad :: "real \<Rightarrow> advertisement \<Rightarrow> directory \<Rightarrow> directory \<times> bool" where
  "insert_ad now advertisement d =
     (let ad = stamp now d advertisement; k = ad_swarm_id_hex ad in
      if (case map_of (dc_cache d) k of
            None \<Rightarrow> False | Some existing \<Rightarrow> case_option 0 id (ad_received_at existing) \<ge> now)
      then (d, False)
      else (trim_cache (evict_expired now (d\<lparr>dc_cache := AList.update k ad (AList.delete k (dc_cache d))\<rparr>)), True))"

definition ingest ::
    "ed25519 option \<Rightarrow> real \<Rightarrow> bool \<Rightarrow> advertisement \<Rightarrow> directory \<Rightarrow> directory \<times> bool result" where
  "ingest lib now verify ad d =
     (case (if verify then verify_advertisement lib ad else ok True) of
        Inl err \<Rightarrow> (d, raise err)
      | Inr valid \<Rightarrow> if \<not> valid then (d, ok False)
                    else let (d', took) = insert_ad now ad d in (d', ok took))"

definition all_advertisements :: "real \<Rightarrow> directory \<Rightarrow> directory \<times> advertisement list" where
  "all_advertisements now d = (let d' = evict_expired now d in (d', map snd (dc_cache d')))"

text \<open>\<open>_check_publish_quota\<close>: the history of the creator is pruned even if the check fails.\<close>

definition check_publish_quota :: "real \<Rightarrow> string \<Rightarrow> directory \<Rightarrow> directory \<times> unit result" where
  "check_publish_quota now creator d =
     (let history = drop_stale (now - 24 * 60 * 60) (dict_get (dc_creator_history d) creator []);
          d1 = d\<lparr>dc_creator_history := AList.update creator history (dc_creator_history d)\<rparr> in
      if int (length history) \<ge> dc_max_per_creator d then (d1, raise (ValueError ERR_WIRE_RATE_LIMITED))
      else if dc_session_publish_count d \<ge> dc_max_per_session d
      then (d1, raise (ValueError ERR_WIRE_RATE_LIMITED))
      else (d1, ok ()))"

definition count_publish :: "real \<Rightarrow> string \<Rightarrow> directory \<Rightarrow> directory" where
  "count_publish now creator d =
     d\<lparr>dc_creator_history := AList.update creator
          (dict_get (dc_creator_history d) creator [] @ [now]) (dc_creator_history d),
        dc_session_publish_count := dc_session_publish_count d + 1\<rparr>"

text \<open>\<open>publish\<close>; a verified advertisement has a creator key, so the assertion (here \<open>AttributeError\<close>)
  never fails.\<close>

definition publish ::
    "ed25519 option \<Rightarrow> real \<Rightarrow> advertisement \<Rightarrow> directory \<Rightarrow> directory \<times> advertisement result" where
  "publish lib now ad d =
     (case verify_advertisement lib ad of
        Inl err \<Rightarrow> (d, raise err)
      | Inr False \<Rightarrow> (d, raise (ValueError ERR_SIGNATURE_INVALID))
      | Inr True \<Rightarrow>
          (case ad_creator_pubkey ad of
             None \<Rightarrow> (d, raise AttributeError)
           | Some creator \<Rightarrow>
               (case check_publish_quota now creator d of
                  (d1, Inl err) \<Rightarrow> (d1, raise err)
                | (d1, Inr _) \<Rightarrow>
                    (fst (ingest lib now False ad (count_publish now creator d1)), ok ad))))"

section \<open>Queries\<close>

record query =
  q_tags :: "string list option"
  q_input_shape :: "int list option"
  q_label_type :: "string option"
  q_trusted_creators :: "bytes set option"

definition wants_tags :: "query \<Rightarrow> advertisement \<Rightarrow> bool" where
  "wants_tags q ad = (case q_tags q of None \<Rightarrow> True | Some ts \<Rightarrow> ts = [] \<or> set ts \<subseteq> set (ad_tags ad))"

definition wants_shape :: "query \<Rightarrow> advertisement \<Rightarrow> bool" where
  "wants_shape q ad = (case q_input_shape q of None \<Rightarrow> True | Some sh \<Rightarrow> sh = [] \<or> ad_input_shape ad = sh)"

definition wants_label :: "query \<Rightarrow> advertisement \<Rightarrow> bool" where
  "wants_label q ad = (case q_label_type q of None \<Rightarrow> True | Some l \<Rightarrow> ad_label_type ad = l)"

fun query_loop :: "ed25519 option \<Rightarrow> query \<Rightarrow> advertisement list \<Rightarrow> advertisement list result" where
  "query_loop lib q [] = ok []"
| "query_loop lib q (ad # ads) =
     (if \<not> wants_tags q ad \<or> \<not> wants_shape q ad \<or> \<not> wants_label q ad then query_loop lib q ads
      else case q_trusted_creators q of
        None \<Rightarrow> result_bind (query_loop lib q ads) (\<lambda>rest. ok (ad # rest))
      | Some trusted \<Rightarrow>
          if ad_creator_pubkey ad \<notin> Some ` key_text ` trusted then query_loop lib q ads
          else result_bind (verify_advertisement lib ad) (\<lambda>valid.
            if \<not> valid then query_loop lib q ads
            else result_bind (query_loop lib q ads) (\<lambda>rest. ok (ad # rest))))"

definition query_ads :: "ed25519 option \<Rightarrow> real \<Rightarrow> query \<Rightarrow> directory \<Rightarrow> directory \<times> advertisement list result" where
  "query_ads lib now q d =
     (let d' = evict_expired now d in (d', query_loop lib q (map snd (dc_cache d'))))"

section \<open>Signatures\<close>

text \<open>What the library promises: keys have 32 and signatures 64 octets, and a signature verifies.\<close>

definition ed25519_ok :: "ed25519 \<Rightarrow> bool" where
  "ed25519_ok ed \<longleftrightarrow> (\<forall>pem pub signer. ed_load ed pem = Some (pub, signer) \<longrightarrow>
     length pub = 32 \<and> (\<forall>m. length (signer m) = 64 \<and> ed_verify ed pub (signer m) m))"

lemma key_text_parts:
  "starts_with (key_text raw) ''ed25519:''" "fromhex (drop 8 (key_text raw)) = ok raw" "key_text raw \<noteq> []"
  by (simp_all add: key_text_def starts_with_def fromhex_hex)

lemma canonical_bytes_cong:
  "canonical_bytes (ad\<lparr>ad_signature := s\<rparr>) = canonical_bytes ad"
  "canonical_bytes (ad\<lparr>ad_received_at := r, ad_expires_at := x\<rparr>) = canonical_bytes ad"
  by (simp_all add: canonical_bytes_def)

lemma stamp_fields [simp]:
  "ad_creator_pubkey (stamp now d ad) = ad_creator_pubkey ad" "ad_signature (stamp now d ad) = ad_signature ad"
  "canonical_bytes (stamp now d ad) = canonical_bytes ad" "ad_swarm_id_hex (stamp now d ad) = ad_swarm_id_hex ad"
  by (simp_all add: stamp_def canonical_bytes_cong(2))

lemma verify_stamp: "verify_advertisement lib (stamp now d ad) = verify_advertisement lib ad"
  unfolding verify_advertisement_def stamp_fields ..

text \<open>An advertisement signed with a key verifies under the public half it then declares, unless it
  declared another creator, which is refused; the advertised content is unchanged.\<close>

theorem sign_then_verify:
  assumes "ed25519_ok ed" and "ed_load ed pem = Some (pub, signer)"
  shows "case sign_advertisement (Some ed) ad pem of
      Inl err \<Rightarrow> err = ValueError ERR_SIGNATURE_INVALID
        \<and> ad_creator_pubkey ad \<notin> {None, Some (key_text pub)}
    | Inr ad' \<Rightarrow> verify_advertisement (Some ed) ad' = ok True \<and> ad_creator_pubkey ad' = Some (key_text pub)
        \<and> ad'\<lparr>ad_creator_pubkey := ad_creator_pubkey ad, ad_signature := ad_signature ad\<rparr> = ad"
proof (cases "ad_creator_pubkey ad \<noteq> None \<and> ad_creator_pubkey ad \<noteq> Some (key_text pub)")
  case True
  then show ?thesis using assms by (auto simp: sign_advertisement_def)
next
  case False
  define s where "s = ad\<lparr>ad_creator_pubkey := Some (key_text pub), ad_signature := None\<rparr>"
  define ad' where "ad' = s\<lparr>ad_signature := Some (key_text (signer (canonical_bytes s)))\<rparr>"
  have res: "sign_advertisement (Some ed) ad pem = ok ad'"
    using False assms by (auto simp: sign_advertisement_def s_def ad'_def Let_def)
  have "length pub = 32" "length (signer m) = 64" "ed_verify ed pub (signer m) m" for m
    using assms by (auto simp: ed25519_ok_def)
  then have "verify_advertisement (Some ed) ad' = ok True"
    using key_text_parts [of pub] key_text_parts [of "signer (canonical_bytes s)"]
    by (simp add: verify_advertisement_def ad'_def canonical_bytes_cong(1) s_def)
  with res show ?thesis by (simp add: ad'_def s_def)
qed

definition toy_ed :: ed25519 where
  "toy_ed = \<lparr>ed_load = (\<lambda>pem. Some (replicate 32 1, \<lambda>m. take 64 (m @ replicate 64 0))),
     ed_verify = (\<lambda>pub sig m. sig = take 64 (m @ replicate 64 0))\<rparr>"

definition sample_ad :: advertisement where
  "sample_ad = \<lparr>ad_swarm_id_hex = ''ab'', ad_name = ''x'', ad_tags = [''t''], ad_input_shape = [2],
     ad_output_shape = [1], ad_label_type = ''l'', ad_data_schema_hash = ''h'', ad_reference_fingerprint = [],
     ad_creator_pubkey = None, ad_signature = None, ad_received_at = None, ad_expires_at = None\<rparr>"

lemma toy_ed_ok: "ed25519_ok toy_ed"
  by (simp add: ed25519_ok_def toy_ed_def min_def)

theorem sign_then_verify_witness:
  "\<exists>ad'. sign_advertisement (Some toy_ed) sample_ad [] = ok ad' \<and> verify_advertisement (Some toy_ed) ad' = ok True"
proof -
  have ld: "ed_load toy_ed [] = Some (replicate 32 1, \<lambda>m. take 64 (m @ replicate 64 0))"
    by (simp add: toy_ed_def)
  show ?thesis
    using sign_then_verify [OF toy_ed_ok ld, of sample_ad]
    by (cases "sign_advertisement (Some toy_ed) sample_ad []") (auto simp: sample_ad_def)
qed

section \<open>The cache\<close>

text \<open>An advertisement as it was before it was received. The invariant is relative to the advertisements taken in without a check.\<close>

definition unstamped :: "advertisement \<Rightarrow> advertisement" where
  "unstamped ad = ad\<lparr>ad_received_at := None, ad_expires_at := None\<rparr>"

definition genuine :: "ed25519 option \<Rightarrow> advertisement set \<Rightarrow> advertisement \<Rightarrow> bool" where
  "genuine lib lenient ad \<longleftrightarrow> verify_advertisement lib ad = ok True \<or> unstamped ad \<in> lenient"

lemma genuine_stamp [simp]: "genuine lib lenient (stamp now d ad) = genuine lib lenient ad"
  by (simp add: genuine_def verify_stamp) (simp add: unstamped_def stamp_def)

definition cache_inv :: "ed25519 option \<Rightarrow> advertisement set \<Rightarrow> directory \<Rightarrow> bool" where
  "cache_inv lib lenient d \<longleftrightarrow> dict_wf (dc_cache d) \<and> 0 < dc_max_cache d \<and> int (length (dc_cache d)) \<le> dc_max_cache d
     \<and> (\<forall>k ad. (k, ad) \<in> set (dc_cache d) \<longrightarrow>
          ad_swarm_id_hex ad = k \<and> genuine lib lenient ad \<and> ad_expires_at ad \<noteq> None)"

lemma evict_inv: "cache_inv lib lenient d \<Longrightarrow> cache_inv lib lenient (evict_expired now d)"
  unfolding cache_inv_def evict_expired_def
  by (auto simp: dict_wf_filter intro: order_trans [OF of_nat_mono [OF length_filter_le]])

lemma length_drop_excess: "0 < m \<Longrightarrow> int (length (drop (nat (int (length xs) - m)) xs)) \<le> m"
  by (cases "m \<le> int (length xs)") auto

lemma insert_ad_inv:
  assumes "cache_inv lib lenient d" and "genuine lib lenient ad"
  shows "cache_inv lib lenient (fst (insert_ad now ad d))"
proof (cases "snd (insert_ad now ad d)")
  case False
  then show ?thesis using assms(1) by (auto simp: insert_ad_def Let_def split: if_splits)
next
  case True
  let ?k = "ad_swarm_id_hex ad" and ?ad = "stamp now d ad"
  let ?c = "filter (\<lambda>(_, ad). \<not> expired now ad) (AList.update ?k ?ad (AList.delete ?k (dc_cache d)))"
  have cache: "dc_cache (fst (insert_ad now ad d)) = drop (nat (int (length ?c) - dc_max_cache d)) ?c"
    "dc_max_cache (fst (insert_ad now ad d)) = dc_max_cache d"
    using True by (auto simp: insert_ad_def Let_def trim_cache_def evict_expired_def split: if_splits)
  have wf: "dict_wf ?c"
    using assms(1) by (intro dict_wf_filter) (simp add: cache_inv_def dict_simps)
  have elems: "ad_swarm_id_hex a = j \<and> genuine lib lenient a \<and> ad_expires_at a \<noteq> None"
    if "(j, a) \<in> set ?c" for j a
  proof -
    have "(j, a) \<in> insert (?k, ?ad) (set (dc_cache d))"
      using that set_update_subset [of ?k ?ad "AList.delete ?k (dc_cache d)"]
        set_delete_subset [of ?k "dc_cache d"] by auto
    then show ?thesis
      using assms by (auto simp: cache_inv_def) (simp add: stamp_def)
  qed
  let ?n = "nat (int (length ?c) - dc_max_cache d)"
  have "dict_wf (drop ?n ?c)"
    using wf by (simp only: drop_map [symmetric] distinct_drop)
  moreover have "0 < dc_max_cache d" using assms(1) by (simp add: cache_inv_def)
  moreover from this have "int (length (drop ?n ?c)) \<le> dc_max_cache d" by (rule length_drop_excess)
  ultimately show ?thesis
    unfolding cache_inv_def cache using elems in_set_dropD [of _ ?n ?c] by blast
qed

datatype dir_op =
    OpIngest real bool advertisement
  | OpPublish real advertisement
  | OpQuery real query
  | OpAll real

text \<open>The advertisements a run takes in with \<open>verify=False\<close>.\<close>

definition taken_unchecked :: "dir_op list \<Rightarrow> advertisement set" where
  "taken_unchecked ops = {unstamped ad | now ad. OpIngest now False ad \<in> set ops}"

fun unchecked_in :: "advertisement set \<Rightarrow> dir_op \<Rightarrow> bool" where
  "unchecked_in lenient (OpIngest now verify ad) = (verify \<or> unstamped ad \<in> lenient)"
| "unchecked_in lenient _ = True"

fun dir_step :: "ed25519 option \<Rightarrow> directory \<Rightarrow> dir_op \<Rightarrow> directory \<times> unit list" where
  "dir_step lib d (OpIngest now verify ad) = (fst (ingest lib now verify ad d), [])"
| "dir_step lib d (OpPublish now ad) = (fst (publish lib now ad d), [])"
| "dir_step lib d (OpQuery now q) = (fst (query_ads lib now q d), [])"
| "dir_step lib d (OpAll now) = (fst (all_advertisements now d), [])"

lemma cache_inv_cong:
  "dc_cache d' = dc_cache d \<Longrightarrow> dc_max_cache d' = dc_max_cache d \<Longrightarrow> cache_inv lib lenient d' = cache_inv lib lenient d"
  by (simp add: cache_inv_def)

lemma quota_frame:
  "check_publish_quota now c d = (d', r) \<Longrightarrow>
     dc_cache d' = dc_cache d \<and> dc_max_cache d' = dc_max_cache d \<and> dc_session_publish_count d' = dc_session_publish_count d
     \<and> dc_max_per_creator d' = dc_max_per_creator d \<and> dc_max_per_session d' = dc_max_per_session d"
  by (auto simp: check_publish_quota_def Let_def split: if_splits)

lemma ingest_unverified: "fst (ingest lib now False ad d) = fst (insert_ad now ad d)"
  by (simp add: ingest_def case_prod_beta)

lemma publish_cases:
  obtains (refused) err where "publish lib now ad d = (d, raise err)"
  | (limited) c d1 err where "check_publish_quota now c d = (d1, raise err)" "ad_creator_pubkey ad = Some c"
      "publish lib now ad d = (d1, raise err)"
  | (published) c d1 u where "verify_advertisement lib ad = ok True" "ad_creator_pubkey ad = Some c"
      "check_publish_quota now c d = (d1, ok u)"
      "publish lib now ad d = (fst (insert_ad now ad (count_publish now c d1)), ok ad)"
proof (cases "verify_advertisement lib ad = ok True \<and> ad_creator_pubkey ad \<noteq> None")
  case False
  then have "\<exists>err. publish lib now ad d = (d, raise err)"
    by (auto simp: publish_def split: sum.splits bool.splits option.splits)
  then show ?thesis using refused by blast
next
  case True
  then obtain c where c: "verify_advertisement lib ad = ok True" "ad_creator_pubkey ad = Some c" by auto
  obtain d1 r where q: "check_publish_quota now c d = (d1, r)" by fastforce
  show ?thesis
  proof (cases r)
    case (Inl err)
    then show ?thesis using c q limited by (simp add: publish_def)
  next
    case (Inr u)
    then show ?thesis using c q published ingest_unverified by (simp add: publish_def)
  qed
qed

lemma ingest_inv:
  assumes "cache_inv lib lenient d" "verify \<or> unstamped ad \<in> lenient"
  shows "cache_inv lib lenient (fst (ingest lib now verify ad d))"
proof (cases "(if verify then verify_advertisement lib ad else ok True) = ok True")
  case True
  then have "genuine lib lenient ad"
    using assms(2) by (auto simp: genuine_def split: if_splits)
  then show ?thesis
    using True insert_ad_inv [OF assms(1)] by (simp add: ingest_def case_prod_beta)
next
  case False
  then have "verify" "verify_advertisement lib ad \<noteq> ok True"
    by (simp_all split: if_splits)
  then have "fst (ingest lib now verify ad d) = d"
    by (auto simp: ingest_def split: sum.splits)
  then show ?thesis using assms(1) by simp
qed

lemma publish_inv: "cache_inv lib lenient d \<Longrightarrow> cache_inv lib lenient (fst (publish lib now ad d))"
proof (rule publish_cases [of lib now ad d])
  fix c d1 u
  assume inv: "cache_inv lib lenient d" and ver: "verify_advertisement lib ad = ok True"
    and q: "check_publish_quota now c d = (d1, ok u)"
    and res: "publish lib now ad d = (fst (insert_ad now ad (count_publish now c d1)), ok ad)"
  have "cache_inv lib lenient (count_publish now c d1)"
    using inv quota_frame [OF q] by (subst cache_inv_cong [of _ d]) (simp_all add: count_publish_def)
  then show ?thesis using res insert_ad_inv [of lib lenient "count_publish now c d1" ad now] ver by (simp add: genuine_def)
next
  fix c d1 err
  assume inv: "cache_inv lib lenient d" and q: "check_publish_quota now c d = (d1, raise err)"
    and res: "publish lib now ad d = (d1, raise err)"
  then show ?thesis using quota_frame [OF q] cache_inv_cong [of d1 d lib lenient] by simp
qed simp

interpretation dir: reactive "dir_step lib" "cache_inv lib lenient" "unchecked_in lenient"
  for lib :: "ed25519 option" and lenient :: "advertisement set"
proof unfold_locales
  fix d op
  assume "cache_inv lib lenient d" "unchecked_in lenient op"
  then show "cache_inv lib lenient (fst (dir_step lib d op))"
    by (cases op) (simp_all add: ingest_inv publish_inv evict_inv query_ads_def all_advertisements_def Let_def)
qed

lemma insert_ad_max: "dc_max_cache (fst (insert_ad now ad d)) = dc_max_cache d"
  by (simp add: insert_ad_def Let_def trim_cache_def evict_expired_def)

lemma dir_step_max: "dc_max_cache (fst (dir_step lib d op)) = dc_max_cache d"
proof (cases op)
  case (OpIngest now verify ad)
  then show ?thesis
    by (auto simp: ingest_def insert_ad_max case_prod_beta split: sum.splits)
next
  case (OpPublish now ad)
  then show ?thesis
    using quota_frame [of now _ d]
    by (cases rule: publish_cases [of lib now ad d]) (auto simp: insert_ad_max count_publish_def)
qed (simp_all add: query_ads_def all_advertisements_def evict_expired_def Let_def)

text \<open>C39: Whatever is ingested, with or without verification, published and queried, the directory never holds more than
  \<open>max_cache_entries\<close> advertisements, one per swarm identifier, each with an expiry time, and each with a valid creator
  signature or taken in by a call of \<open>ingest\<close> with \<open>verify=False\<close>.\<close>

theorem directory_cache_sound:
  assumes "directory_init mx ttl pc ps = ok d0"
  shows "let d = fst (run (dir_step lib) d0 ops) in
    int (length (dc_cache d)) \<le> mx \<and> distinct (map fst (dc_cache d))
    \<and> list_all (\<lambda>(k, ad). ad_swarm_id_hex ad = k \<and> ad_expires_at ad \<noteq> None
        \<and> (verify_advertisement lib ad = ok True \<or> unstamped ad \<in> taken_unchecked ops)) (dc_cache d)"
proof -
  have d0: "dc_cache d0 = []" "dc_max_cache d0 = mx" "0 < mx"
    using assms by (auto simp: directory_init_def split: if_splits)
  have "unchecked_in (taken_unchecked ops) op" if "op \<in> set ops" for op
  proof (cases op)
    case (OpIngest now verify ad)
    then show ?thesis using that by (cases verify) (auto simp: taken_unchecked_def)
  qed simp_all
  then have "cache_inv lib (taken_unchecked ops) (fst (run (dir_step lib) d0 ops))"
    using dir.run_inv [of lib "taken_unchecked ops" d0 ops] d0 by (simp add: cache_inv_def list_all_iff)
  moreover have "dc_max_cache (fst (run (dir_step lib) d0 ops)) = mx"
    using d0(2)
  proof (induction ops arbitrary: d0)
    case (Cons op ops)
    then show ?case using dir_step_max [of lib d0 op] by (simp add: run_Cons del: run.simps)
  qed simp
  ultimately show ?thesis
    unfolding cache_inv_def genuine_def Let_def list_all_iff by auto
qed

definition sample_dir :: directory where
  "sample_dir = \<lparr>dc_max_cache = 1, dc_default_ttl = 60, dc_cache = [], dc_creator_history = [],
     dc_session_publish_count = 0, dc_max_per_creator = 2, dc_max_per_session = 2\<rparr>"

lemma sample_dir_init: "directory_init 1 60 2 2 = ok sample_dir"
  by (simp add: directory_init_def sample_dir_def)

text \<open>A signed advertisement is taken in; an unsigned one is refused.\<close>

definition signed_ad :: advertisement where
  "signed_ad = (case sign_advertisement (Some toy_ed) sample_ad [] of Inr ad \<Rightarrow> ad | Inl _ \<Rightarrow> sample_ad)"

lemma signed_ad_verifies: "verify_advertisement (Some toy_ed) signed_ad = ok True"
  using sign_then_verify_witness by (auto simp: signed_ad_def)

theorem directory_cache_sound_witness:
  "\<exists>ad. dc_cache (fst (run (dir_step (Some toy_ed)) sample_dir [OpIngest 0 True signed_ad, OpIngest 1 True sample_ad])) = [(ad_swarm_id_hex signed_ad, ad)]
     \<and> ad_swarm_id_hex ad = ad_swarm_id_hex signed_ad \<and> verify_advertisement (Some toy_ed) ad = ok True"
proof -
  let ?ops = "[OpIngest 0 True signed_ad, OpIngest 1 True sample_ad]"
  let ?d = "fst (run (dir_step (Some toy_ed)) sample_dir ?ops)" and ?ad = "stamp 0 sample_dir signed_ad"
  have "ad_expires_at signed_ad = None"
    using sign_then_verify [OF toy_ed_ok, of "[]" _ _ sample_ad]
    by (auto simp: signed_ad_def sign_advertisement_def sample_ad_def toy_ed_def Let_def)
  then have "fst (ingest (Some toy_ed) 0 True signed_ad sample_dir) = sample_dir\<lparr>dc_cache := [(ad_swarm_id_hex signed_ad, ?ad)]\<rparr>"
    using signed_ad_verifies
    by (simp add: ingest_def insert_ad_def sample_dir_def evict_expired_def trim_cache_def expired_def stamp_def Let_def)
  moreover have "fst (ingest (Some toy_ed) 1 True sample_ad d) = d" for d
    by (simp add: ingest_def verify_advertisement_def sample_ad_def)
  ultimately have cache: "dc_cache ?d = [(ad_swarm_id_hex signed_ad, ?ad)]"
    by (simp add: run_Cons)
  moreover have "taken_unchecked ?ops = {}"
    by (simp add: taken_unchecked_def)
  ultimately show ?thesis
    using directory_cache_sound [OF sample_dir_init, of "Some toy_ed" ?ops] unfolding Let_def by auto
qed

section \<open>The publication quotas\<close>

text \<open>The quota part of \<open>publish\<close> on the two counters, for the window contract.\<close>

definition quota_attempt ::
    "int \<Rightarrow> int \<Rightarrow> string \<Rightarrow> real \<Rightarrow> (string, real list) pydict \<times> int \<Rightarrow> bool \<times> (string, real list) pydict \<times> int" where
  "quota_attempt pc ps c now s =
     (let h = drop_stale (now - 24 * 60 * 60) (dict_get (fst s) c []) in
      if int (length h) \<ge> pc \<or> snd s \<ge> ps then (False, AList.update c h (fst s), snd s)
      else (True, AList.update c (h @ [now]) (fst s), snd s + 1))"

interpretation publish_window: sliding_window "quota_attempt pc ps" "\<lambda>s k. dict_get (fst s) k []" "nat pc" "24 * 60 * 60"
  for pc :: int and ps :: int
  by unfold_locales
    (auto simp: quota_attempt_def Let_def dict_get_def dict_simps split: option.splits if_splits)

definition counters :: "directory \<Rightarrow> (string, real list) pydict \<times> int" where
  "counters d = (dc_creator_history d, dc_session_publish_count d)"

lemma update_twice: "AList.update k v (AList.update k w d) = AList.update k v d"
  by (induction d) auto

lemma quota_attempt_check:
  "quota_attempt (dc_max_per_creator d) (dc_max_per_session d) c now (counters d) =
     (case check_publish_quota now c d of
        (d1, Inl _) \<Rightarrow> (False, counters d1)
      | (d1, Inr _) \<Rightarrow> (True, counters (count_publish now c d1)))"
  by (auto simp: quota_attempt_def check_publish_quota_def counters_def count_publish_def Let_def
      dict_get_def dict_simps update_twice not_le)

lemma insert_ad_counters:
  "counters (fst (insert_ad now ad d)) = counters d"
  "dc_max_per_creator (fst (insert_ad now ad d)) = dc_max_per_creator d"
  "dc_max_per_session (fst (insert_ad now ad d)) = dc_max_per_session d"
  by (simp_all add: insert_ad_def Let_def trim_cache_def evict_expired_def counters_def)

text \<open>The successful publications of a sequence, by creator and time.\<close>

fun published :: "ed25519 option \<Rightarrow> (real \<times> advertisement) list \<Rightarrow> directory \<Rightarrow> (string \<times> real) list" where
  "published lib [] d = []"
| "published lib ((now, ad) # rs) d =
     (case snd (publish lib now ad d) of
        Inl _ \<Rightarrow> [] | Inr a \<Rightarrow> [(case_option [] id (ad_creator_pubkey a), now)])
     @ published lib rs (fst (publish lib now ad d))"

definition quota_requests :: "ed25519 option \<Rightarrow> (real \<times> advertisement) list \<Rightarrow> (string \<times> real) list" where
  "quota_requests lib rs = concat (map (\<lambda>(now, ad). case ad_creator_pubkey ad of
     Some c \<Rightarrow> if verify_advertisement lib ad = ok True then [(c, now)] else [] | None \<Rightarrow> []) rs)"

lemma publish_refused:
  "verify_advertisement lib ad \<noteq> ok True \<or> ad_creator_pubkey ad = None \<Longrightarrow> \<exists>err. publish lib now ad d = (d, raise err)"
  by (auto simp: publish_def split: sum.splits bool.splits option.splits)

lemma publish_quota_step:
  assumes "verify_advertisement lib ad = ok True" and "ad_creator_pubkey ad = Some c"
    and "dc_max_per_creator d = pc" and "dc_max_per_session d = ps"
  shows "fst (quota_attempt pc ps c now (counters d)) \<longleftrightarrow> snd (publish lib now ad d) = ok ad"
    and "counters (fst (publish lib now ad d)) = snd (quota_attempt pc ps c now (counters d))"
    and "dc_max_per_creator (fst (publish lib now ad d)) = pc" "dc_max_per_session (fst (publish lib now ad d)) = ps"
    and "\<not> fst (quota_attempt pc ps c now (counters d)) \<Longrightarrow> \<exists>err. snd (publish lib now ad d) = raise err"
proof -
  obtain d1 r where q: "check_publish_quota now c d = (d1, r)" by fastforce
  note fr = quota_frame [OF q]
  have att: "quota_attempt pc ps c now (counters d) =
      (case r of Inl _ \<Rightarrow> (False, counters d1) | Inr _ \<Rightarrow> (True, counters (count_publish now c d1)))"
    using quota_attempt_check [of d c now] assms(3,4) q by simp
  have pub: "publish lib now ad d = (case r of Inl err \<Rightarrow> (d1, raise err)
      | Inr _ \<Rightarrow> (fst (insert_ad now ad (count_publish now c d1)), ok ad))"
    using assms(1,2) q by (simp add: publish_def ingest_unverified split: sum.split)
  show "fst (quota_attempt pc ps c now (counters d)) \<longleftrightarrow> snd (publish lib now ad d) = ok ad"
    "counters (fst (publish lib now ad d)) = snd (quota_attempt pc ps c now (counters d))"
    "dc_max_per_creator (fst (publish lib now ad d)) = pc" "dc_max_per_session (fst (publish lib now ad d)) = ps"
    "\<not> fst (quota_attempt pc ps c now (counters d)) \<Longrightarrow> \<exists>err. snd (publish lib now ad d) = raise err"
    unfolding att pub using fr assms(3,4)
    by (auto simp: insert_ad_counters count_publish_def split: sum.splits)
qed

lemma quota_requests_Cons:
  "quota_requests lib ((now, ad) # rs) =
     (case ad_creator_pubkey ad of Some c \<Rightarrow> if verify_advertisement lib ad = ok True then [(c, now)] else []
      | None \<Rightarrow> []) @ quota_requests lib rs"
  by (simp add: quota_requests_def)

lemma published_window:
  assumes "dc_max_per_creator d = pc" and "dc_max_per_session d = ps"
  shows "map snd (filter (\<lambda>(k, _). k = c) (published lib rs d)) =
      admitted (quota_attempt pc ps) c (quota_requests lib rs) (counters d)
    \<and> dc_session_publish_count d + int (length (published lib rs d)) \<le> max (dc_session_publish_count d) ps"
  using assms
proof (induction rs arbitrary: d)
  case (Cons r rs)
  obtain now ad where r: "r = (now, ad)" by fastforce
  consider "\<exists>err. publish lib now ad d = (d, raise err)" "quota_requests lib ((now, ad) # rs) = quota_requests lib rs"
    | k where "verify_advertisement lib ad = ok True" "ad_creator_pubkey ad = Some k"
        "quota_requests lib ((now, ad) # rs) = (k, now) # quota_requests lib rs"
    using publish_refused [of lib ad now d] unfolding quota_requests_Cons
    by (cases "ad_creator_pubkey ad"; cases "verify_advertisement lib ad = ok True") auto
  then show ?case
  proof cases
    case 1
    then show ?thesis using Cons.IH [of d] Cons.prems by (auto simp: r)
  next
    case (2 k)
    note st = publish_quota_step [OF 2(1,2) Cons.prems, of now]
    let ?ok = "fst (quota_attempt pc ps k now (counters d))"
    have cnt: "dc_session_publish_count (fst (publish lib now ad d)) = dc_session_publish_count d + (if ?ok then 1 else 0)"
      "?ok \<Longrightarrow> dc_session_publish_count d < ps"
      using st(2) by (auto simp: counters_def quota_attempt_def Let_def split: if_splits)
    show ?thesis
      using Cons.IH [OF st(3,4)] st(1,2,5) cnt 2(2,3) by (cases ?ok) (auto simp: r)
  qed
qed (simp add: quota_requests_def)

lemma quota_requests_sorted: "sorted (map fst rs) \<Longrightarrow> sorted (map snd (quota_requests lib rs))"
proof (induction rs)
  case (Cons r rs)
  obtain now ad where r: "r = (now, ad)" by fastforce
  have "\<forall>t \<in> set (map snd (quota_requests lib rs)). now \<le> t"
    using Cons.prems by (force simp: r quota_requests_def split: option.splits if_splits)
  then show ?case
    using Cons by (auto simp: r quota_requests_Cons split: option.splits)
qed (simp add: quota_requests_def)

text \<open>A directory session publishes at most \<open>max_ads_per_session\<close> advertisements altogether and at most
  \<open>max_ads_per_creator_per_day\<close> per creator in any window of 24 hours, whatever advertisements are
  offered for publication.\<close>

theorem publish_quota:
  assumes "directory_init mx ttl pc ps = ok d0" and "sorted (map fst rs)"
  shows "int (length (published lib rs d0)) \<le> max 0 ps
    \<and> int (length (in_window (24 * 60 * 60) t (map snd (filter (\<lambda>(k, _). k = c) (published lib rs d0))))) \<le> max 0 pc"
proof -
  have d0: "dc_max_per_creator d0 = pc" "dc_max_per_session d0 = ps" "counters d0 = ([], 0)"
      "dc_session_publish_count d0 = 0"
    using assms(1) by (auto simp: directory_init_def counters_def split: if_splits)
  have "length (in_window (24 * 60 * 60) t (admitted (quota_attempt pc ps) c (quota_requests lib rs) ([], 0))) \<le> nat pc"
    by (rule publish_window.window_bound [OF _ quota_requests_sorted [OF assms(2)]]) (simp add: dict_get_def)
  then show ?thesis
    using published_window [OF d0(1,2), of c lib rs] d0(3,4) by auto
qed

theorem publish_quota_witness:
  "int (length (published (Some toy_ed) [(0, sample_ad), (1, sample_ad), (2, sample_ad)] sample_dir)) \<le> 2"
  using publish_quota [OF sample_dir_init, of "[(0, sample_ad), (1, sample_ad), (2, sample_ad)]" "Some toy_ed" 0 "[]"]
  by simp

section \<open>Queries\<close>

definition matches :: "ed25519 \<Rightarrow> query \<Rightarrow> advertisement \<Rightarrow> bool" where
  "matches ed q ad \<longleftrightarrow> wants_tags q ad \<and> wants_shape q ad \<and> wants_label q ad
     \<and> (case q_trusted_creators q of None \<Rightarrow> True
        | Some trusted \<Rightarrow> ad_creator_pubkey ad \<in> Some ` key_text ` trusted \<and> verify_advertisement (Some ed) ad = ok True)"

lemma query_loop_matches: "query_loop (Some ed) q ads = ok (filter (matches ed q) ads)"
proof (induction ads)
  case (Cons ad ads)
  have "\<exists>b. verify_advertisement (Some ed) ad = ok b"
    by (auto simp: verify_advertisement_def split: option.splits sum.splits)
  with Cons show ?case by (auto simp: matches_def [of ed q ad] split: option.splits)
qed simp

lemma filter_values: "map snd (filter (\<lambda>(_, v). P v) c) = filter P (map snd c)"
  by (induction c) auto

text \<open>With the signature library at hand, a query answers with exactly the cached, unexpired
  advertisements that pass every filter given, in cache order: all wanted tags, the wanted input shape, the
  wanted label type and, if trusted creators are given, one of their keys together with a valid signature.\<close>

theorem query_exact:
  "snd (query_ads (Some ed) now q d) =
     ok (filter (matches ed q) (filter (\<lambda>ad. \<not> expired now ad) (map snd (dc_cache d))))"
  by (simp add: query_ads_def evict_expired_def Let_def query_loop_matches filter_values)

end
