(* ===== verification/Manifest_Loader.thy ===== *)
theory Manifest_Loader
  imports Magnet Manifest_Properties Directory
begin

text \<open>
  Signing and verifying manifests (\<open>manifest/signing.py\<close>), loading them from a file, a URL or a magnet
  link with the integrity gate (\<open>manifest/loader.py\<close>), and the registries that map strategy names to
  classes (\<open>manifest/strategy_factory.py\<close>).

  The \<open>cryptography\<close> package is the parameter \<open>ed25519\<close> of the swarm directory (\<open>None\<close> where it is
  not installed). The outside world of the loader is a record: SHA-256, \<open>json.loads\<close>, the text of
  containers, the clock, the replacement decoding of percent-encoded text, the HTTP client (\<open>None\<close> for
  a failed request) and the file system (\<open>None\<close> for a missing file).
\<close>

section \<open>Signing\<close>

definition sign_manifest :: "ed25519 option \<Rightarrow> swarm_manifest \<Rightarrow> bytes \<Rightarrow> swarm_manifest result" where
  "sign_manifest lib m private_key_pem = (case lib of
      None \<Rightarrow> raise (ValueError ERR_SIGNING_UNAVAILABLE)
    | Some ed \<Rightarrow> (case ed_load ed private_key_pem of
        None \<Rightarrow> raise (ValueError ERR_SIGNATURE_INVALID)
      | Some (public_raw, signer) \<Rightarrow>
          let expected_pubkey = JStr (key_text public_raw) in
          if sm_creator_pubkey m \<noteq> JNull \<and> sm_creator_pubkey m \<noteq> expected_pubkey
          then raise (ValueError ERR_SIGNATURE_INVALID)
          else let signed = m\<lparr>sm_creator_pubkey := expected_pubkey, sm_signature := JNull\<rparr> in
            result_bind (manifest_canonical_bytes signed) (\<lambda>b.
            ok (signed\<lparr>sm_signature := JStr (key_text (signer b))\<rparr>))))"

definition remove_prefix :: "string \<Rightarrow> string \<Rightarrow> string" where
  "remove_prefix p s = (if startswith s p then drop (length p) s else s)"

definition verify_manifest :: "ed25519 option \<Rightarrow> swarm_manifest \<Rightarrow> bool result" where
  "verify_manifest lib m =
     (if sm_signature m = JNull \<or> sm_creator_pubkey m = JNull then ok False
      else case lib of
        None \<Rightarrow> raise (ValueError ERR_SIGNING_UNAVAILABLE)
      | Some ed \<Rightarrow> (case (sm_creator_pubkey m, sm_signature m) of
          (JStr pk, JStr sig) \<Rightarrow>
            (case (fromhex (remove_prefix ''ed25519:'' pk), fromhex (remove_prefix ''ed25519:'' sig)) of
               (Inr pub_raw, Inr sig_raw) \<Rightarrow>
                 if length pub_raw \<noteq> 32 then ok False
                 else result_bind (manifest_canonical_bytes m) (\<lambda>b. ok (ed_verify ed pub_raw sig_raw b))
             | _ \<Rightarrow> ok False)
        | _ \<Rightarrow> raise AttributeError))"

text \<open>Writing the private key: an existing file is kept unless \<open>overwrite\<close> is set; a failed write
  removes the file.\<close>

definition write_private_pem :: "bool \<Rightarrow> bool \<Rightarrow> bytes \<Rightarrow> bytes option \<Rightarrow> bytes option \<times> unit result" where
  "write_private_pem overwrite wrote data file =
     (if file \<noteq> None \<and> \<not> overwrite then (file, raise OSError)
      else if wrote then (Some data, ok ()) else (None, raise OSError))"

section \<open>Loading\<close>

definition ERR_MANIFEST_FETCH_REQUIRED :: string where "ERR_MANIFEST_FETCH_REQUIRED = ''ERR_MANIFEST_FETCH_REQUIRED''"
definition ERR_MANIFEST_HASH_MISMATCH :: string where "ERR_MANIFEST_HASH_MISMATCH = ''ERR_MANIFEST_HASH_MISMATCH''"

record load_env =
  le_sha :: "bytes \<Rightarrow> bytes"
  le_loads :: "string \<Rightarrow> json option"
  le_rep :: "json \<Rightarrow> string"
  le_now :: datetime
  le_repl :: "bytes \<Rightarrow> string"
  le_http :: "string \<Rightarrow> bytes option"
  le_files :: "string \<Rightarrow> bytes option"

definition parse_bytes :: "load_env \<Rightarrow> bool \<Rightarrow> bytes \<Rightarrow> swarm_manifest result" where
  "parse_bytes env strict raw =
     (if take 3 raw = UTF8_BOM then raise (ValueError ERR_MANIFEST_INVALID_JSON)
      else case decode raw of
        Inl _ \<Rightarrow> raise (ValueError ERR_MANIFEST_INVALID_JSON)
      | Inr text \<Rightarrow> (case le_loads env text of
          None \<Rightarrow> raise (ValueError ERR_MANIFEST_INVALID_JSON)
        | Some data \<Rightarrow>
            result_bind (manifest_from_dict (le_rep env) (le_now env) strict data) (\<lambda>m.
            result_bind (if strict then manifest_validate (le_now env) m else ok ()) (\<lambda>_. ok m))))"

text \<open>A fetcher returns octets, or a value of another type (\<open>None\<close>), or raises.\<close>

type_synonym peer_fetcher = "bytes \<Rightarrow> bytes option result"

definition load_from_magnet ::
  "load_env \<Rightarrow> peer_fetcher option \<Rightarrow> bool \<Rightarrow> string \<Rightarrow> (swarm_manifest \<times> bytes) result" where
  "load_from_magnet env peer_fetcher strict uri =
     result_bind (parse_magnet (le_repl env) uri) (\<lambda>link. case peer_fetcher of
       None \<Rightarrow> raise (ValueError ERR_MANIFEST_FETCH_REQUIRED)
     | Some fetch \<Rightarrow> result_bind (fetch (ml_swarm_id link)) (\<lambda>r. case r of
         None \<Rightarrow> raise (ValueError ERR_MANIFEST_INVALID_JSON)
       | Some raw \<Rightarrow>
           if le_sha env raw \<noteq> ml_swarm_id link then raise (ValueError ERR_MANIFEST_HASH_MISMATCH)
           else result_bind (parse_bytes env strict raw) (\<lambda>m. ok (m, le_sha env raw))))"

definition load_from_http :: "load_env \<Rightarrow> bool \<Rightarrow> string \<Rightarrow> swarm_manifest result" where
  "load_from_http env strict url = (case le_http env url of
      None \<Rightarrow> raise (ValueError ERR_MANIFEST_INVALID_JSON)
    | Some body \<Rightarrow> parse_bytes env strict body)"

text \<open>The digest of the canonical bytes.\<close>

definition canonical_id :: "load_env \<Rightarrow> swarm_manifest \<Rightarrow> bytes result" where
  "canonical_id env m = result_bind (manifest_canonical_bytes m) (\<lambda>b. ok (le_sha env b))"

definition load_manifest ::
  "load_env \<Rightarrow> peer_fetcher option \<Rightarrow> bool \<Rightarrow> bytes option \<Rightarrow> string \<Rightarrow> swarm_manifest result" where
  "load_manifest env peer_fetcher strict expected_swarm_id src =
     result_bind
       (if startswith src SCHEME then load_from_magnet env peer_fetcher strict src
        else result_bind
          (if startswith src ''http://'' \<or> startswith src ''https://'' then load_from_http env strict src
           else manifest_from_file (le_loads env) (le_rep env) (le_now env) strict (le_files env src))
          (\<lambda>m. result_bind (canonical_id env m) (\<lambda>i. ok (m, i))))
       (\<lambda>(m, parsed_id).
          if expected_swarm_id \<noteq> None \<and> expected_swarm_id \<noteq> Some parsed_id
          then raise (ValueError ERR_MANIFEST_HASH_MISMATCH) else ok m)"

section \<open>Strategy registries\<close>

definition ERR_RUN_UNKNOWN_AGGREGATION :: string where "ERR_RUN_UNKNOWN_AGGREGATION = ''ERR_RUN_UNKNOWN_AGGREGATION''"
definition ERR_RUN_UNKNOWN_TOPOLOGY :: string where "ERR_RUN_UNKNOWN_TOPOLOGY = ''ERR_RUN_UNKNOWN_TOPOLOGY''"

datatype strategy_class =
    FedAvg | FedProx | FedAvgM | Krum | MultiKrum | TrimmedMean | StalenessWeightedFedAvg
  | EntropyWeightedAvg | Scaffold
  | RandomTopology | CyclonTopology | AffinityTopology | Ring | RandomRegular | SmallWorld
  | ReliabilityAware | HybridAffinityReliability

text \<open>Lower case without white space; case and space outside ASCII are left alone.\<close>

definition to_lower :: "char \<Rightarrow> char" where
  "to_lower c = (let n = of_char c :: nat in if 65 \<le> n \<and> n \<le> 90 then char_of (n + 32) else c)"

definition norm_name :: "string \<Rightarrow> string" where
  "norm_name s = map to_lower (filter (\<lambda>c. \<not> is_space c) s)"

definition aggregation_registry :: "(string, strategy_class) pydict" where
  "aggregation_registry = map (\<lambda>(n, c). (norm_name n, c))
     [(''FedAvg'', FedAvg), (''FedProx'', FedProx), (''FedAvgM'', FedAvgM), (''Krum'', Krum),
      (''MultiKrum'', MultiKrum), (''TrimmedMean'', TrimmedMean),
      (''StalenessWeightedFedAvg'', StalenessWeightedFedAvg), (''EntropyWeightedAvg'', EntropyWeightedAvg),
      (''Scaffold'', Scaffold)]"

definition topology_registry :: "(string, strategy_class) pydict" where
  "topology_registry = map (\<lambda>(n, c). (norm_name n, c))
     [(''Random'', RandomTopology), (''RandomTopology'', RandomTopology), (''Cyclon'', CyclonTopology),
      (''CyclonTopology'', CyclonTopology), (''Affinity'', AffinityTopology), (''AffinityTopology'', AffinityTopology),
      (''Ring'', Ring), (''RingTopology'', Ring), (''RandomRegular'', RandomRegular),
      (''RandomRegularTopology'', RandomRegular), (''Expander'', RandomRegular), (''ExpanderTopology'', RandomRegular),
      (''SmallWorld'', SmallWorld), (''SmallWorldTopology'', SmallWorld), (''ReliabilityAware'', ReliabilityAware),
      (''ReliabilityAwareTopology'', ReliabilityAware), (''HybridAffinityReliability'', HybridAffinityReliability),
      (''HybridAffinityReliabilityTopology'', HybridAffinityReliability)]"

text \<open>\<open>_instantiate\<close>: the constructor of a class with \<open>**kwargs\<close> (\<open>None\<close>) takes every parameter,
  another those it names; a call the class rejects raises \<open>TypeError\<close>, reported as \<open>ValueError\<close>.\<close>

definition instantiate ::
  "(strategy_class \<Rightarrow> string list option) \<Rightarrow> (strategy_class \<Rightarrow> (string, json) pydict \<Rightarrow> bool) \<Rightarrow>
   strategy_class \<Rightarrow> (string, json) pydict \<Rightarrow> (strategy_class \<times> (string, json) pydict) result" where
  "instantiate signature accepts cls params =
     (let kw = (case signature cls of None \<Rightarrow> params | Some ns \<Rightarrow> filter (\<lambda>(k, _). k \<in> set ns) params)
      in if accepts cls kw then ok (cls, kw) else raise (ValueError ''Invalid parameters''))"

definition build_from_registry ::
  "(string, strategy_class) pydict \<Rightarrow> string \<Rightarrow> string \<Rightarrow> (strategy_class \<Rightarrow> string list option) \<Rightarrow>
   (strategy_class \<Rightarrow> (string, json) pydict \<Rightarrow> bool) \<Rightarrow> json \<Rightarrow> json \<Rightarrow>
   (strategy_class \<times> (string, json) pydict) result" where
  "build_from_registry registry dflt err signature accepts name params =
     (case (if truthy name then name else JStr dflt) of
        JStr n \<Rightarrow> (case map_of registry (norm_name n) of
            None \<Rightarrow> raise (ValueError err)
          | Some cls \<Rightarrow> result_bind (py_dict (if truthy params then params else JObj [])) (\<lambda>p. case p of
              JObj kvs \<Rightarrow> instantiate signature accepts cls kvs
            | _ \<Rightarrow> raise TypeError))
      | _ \<Rightarrow> raise AttributeError)"

definition build_aggregation_from_manifest ::
  "(strategy_class \<Rightarrow> string list option) \<Rightarrow> (strategy_class \<Rightarrow> (string, json) pydict \<Rightarrow> bool) \<Rightarrow>
   swarm_manifest \<Rightarrow> (strategy_class \<times> (string, json) pydict) result" where
  "build_aggregation_from_manifest signature accepts m =
     build_from_registry aggregation_registry ''FedAvg'' ERR_RUN_UNKNOWN_AGGREGATION signature accepts
       (sm_aggregation_name m) (sm_aggregation_params m)"

definition build_topology_from_manifest ::
  "(strategy_class \<Rightarrow> string list option) \<Rightarrow> (strategy_class \<Rightarrow> (string, json) pydict \<Rightarrow> bool) \<Rightarrow>
   swarm_manifest \<Rightarrow> (strategy_class \<times> (string, json) pydict) result" where
  "build_topology_from_manifest signature accepts m =
     build_from_registry topology_registry ''Random'' ERR_RUN_UNKNOWN_TOPOLOGY signature accepts
       (sm_topology_name m) (sm_topology_params m)"

section \<open>A signed manifest verifies\<close>

lemma remove_prefix_key_text: "remove_prefix ''ed25519:'' (key_text raw) = hex_of_bytes raw"
  by (simp add: remove_prefix_def startswith_def key_text_def)

lemma key_text_pattern: "prefixed_hex ''ed25519:'' (2 * length raw) (key_text raw)"
  using hex_of_bytes_chars [of raw] hex_of_bytes_length [of raw] by (simp add: prefixed_hex_def key_text_def)

lemma canonical_bytes_signature: "manifest_canonical_bytes (m\<lparr>sm_signature := x\<rparr>) = manifest_canonical_bytes m"
  by (simp add: manifest_canonical_bytes_def unsigned_dict_signature)

lemma signed_verifies:
  assumes "ed25519_ok ed" and l: "ed_load ed pem = Some (pub, signer)"
    and b: "manifest_canonical_bytes (m\<lparr>sm_creator_pubkey := JStr (key_text pub), sm_signature := JNull\<rparr>) = ok b"
    and m': "m' = m\<lparr>sm_creator_pubkey := JStr (key_text pub), sm_signature := JStr (key_text (signer b))\<rparr>"
  shows "verify_manifest (Some ed) m' = ok True"
    "str_matches ED25519_PUBKEY_RE (sm_creator_pubkey m') \<and> str_matches ED25519_SIG_RE (sm_signature m')"
proof -
  have ed: "length pub = 32" "length (signer b) = 64" "ed_verify ed pub (signer b) b"
    using assms(1) l by (auto simp: ed25519_ok_def)
  have "manifest_canonical_bytes m' = ok b"
    using b canonical_bytes_signature [where m = "m\<lparr>sm_creator_pubkey := JStr (key_text pub)\<rparr>"] by (simp add: m')
  with ed show "verify_manifest (Some ed) m' = ok True"
    by (simp add: m' verify_manifest_def remove_prefix_key_text fromhex_hex)
  show "str_matches ED25519_PUBKEY_RE (sm_creator_pubkey m') \<and> str_matches ED25519_SIG_RE (sm_signature m')"
    using ed key_text_pattern [of pub] key_text_pattern [of "signer b"]
    by (simp add: m' str_matches_def ED25519_PUBKEY_RE_def ED25519_SIG_RE_def dollar_def)
qed

text \<open>C24: A manifest signed with a key verifies under that key, and signing refuses everything else. \<open>sign_manifest\<close>
  returns a manifest only when the key can be loaded as an Ed25519 key and the manifest declares no creator or the one the
  key stands for; it then carries that creator, differs in creator and signature only, \<open>verify_manifest\<close> returns true on
  it, and both fields pass the patterns of the strict loader. Otherwise it raises: \<open>ERR_SIGNATURE_INVALID\<close> for a key
  that does not load (or is of another kind) and for another declared creator, and the error of the canonical bytes when
  there are none.\<close>

theorem sign_manifest_verifies:
  assumes "ed25519_ok ed"
  shows "case sign_manifest (Some ed) m pem of
      Inr m' \<Rightarrow>
        (\<exists>pub signer. ed_load ed pem = Some (pub, signer) \<and> sm_creator_pubkey m' = JStr (key_text pub))
        \<and> sm_creator_pubkey m \<in> {JNull, sm_creator_pubkey m'}
        \<and> verify_manifest (Some ed) m' = ok True
        \<and> m'\<lparr>sm_creator_pubkey := sm_creator_pubkey m, sm_signature := sm_signature m\<rparr> = m
        \<and> str_matches ED25519_PUBKEY_RE (sm_creator_pubkey m') \<and> str_matches ED25519_SIG_RE (sm_signature m')
    | Inl e \<Rightarrow>
        (case ed_load ed pem of
           None \<Rightarrow> e = ValueError ERR_SIGNATURE_INVALID
         | Some (pub, signer) \<Rightarrow>
             if sm_creator_pubkey m \<in> {JNull, JStr (key_text pub)}
             then manifest_canonical_bytes (m\<lparr>sm_creator_pubkey := JStr (key_text pub), sm_signature := JNull\<rparr>) = raise e
             else e = ValueError ERR_SIGNATURE_INVALID)"
proof (cases "ed_load ed pem")
  case None
  then show ?thesis by (simp add: sign_manifest_def)
next
  case (Some key)
  obtain pub signer where l: "ed_load ed pem = Some (pub, signer)"
    using Some by (cases key) simp
  show ?thesis
  proof (cases "sm_creator_pubkey m \<in> {JNull, JStr (key_text pub)}")
    case False
    then show ?thesis using l by (simp add: sign_manifest_def)
  next
    case True
    then have go: "\<not> (sm_creator_pubkey m \<noteq> JNull \<and> sm_creator_pubkey m \<noteq> JStr (key_text pub))" by blast
    let ?signed = "m\<lparr>sm_creator_pubkey := JStr (key_text pub), sm_signature := JNull\<rparr>"
    show ?thesis
    proof (cases "manifest_canonical_bytes ?signed")
      case (Inl e)
      then show ?thesis using l go True by (simp add: sign_manifest_def Let_def del: de_Morgan_conj)
    next
      case (Inr b)
      let ?m' = "m\<lparr>sm_creator_pubkey := JStr (key_text pub), sm_signature := JStr (key_text (signer b))\<rparr>"
      have "sign_manifest (Some ed) m pem = ok ?m'"
        using l go Inr by (simp add: sign_manifest_def Let_def del: de_Morgan_conj)
      then show ?thesis
        using signed_verifies [OF assms l Inr refl] l True by simp
    qed
  qed
qed

lemma example_canonical:
  "\<exists>b. manifest_canonical_bytes swarm_manifest_init = ok b"
  "\<exists>b. manifest_canonical_bytes (swarm_manifest_init\<lparr>sm_creator_pubkey := JStr (key_text (replicate 32 1)), sm_signature := JNull\<rparr>) = ok b"
proof -
  have fin: "finite_json (JObj (AList.delete ''signature'' (manifest_dict swarm_manifest_init)))"
    "finite_json (JObj (AList.delete ''signature''
       (manifest_dict (swarm_manifest_init\<lparr>sm_creator_pubkey := JStr (key_text (replicate 32 1))\<rparr>))))"
    by code_simp+
  have t: "manifest_to_dict swarm_manifest_init = ok (manifest_dict swarm_manifest_init)"
    "manifest_to_dict (swarm_manifest_init\<lparr>sm_creator_pubkey := JStr (key_text (replicate 32 1))\<rparr>)
       = ok (manifest_dict (swarm_manifest_init\<lparr>sm_creator_pubkey := JStr (key_text (replicate 32 1))\<rparr>))"
    by (simp_all add: manifest_to_dict_def manifest_dict_def swarm_manifest_init_def)
  show "\<exists>b. manifest_canonical_bytes swarm_manifest_init = ok b"
    by (simp only: manifest_canonical_bytes_def unsigned_dict_def t result_bind.simps canonical_json_def fin if_True) blast
  show "\<exists>b. manifest_canonical_bytes (swarm_manifest_init\<lparr>sm_creator_pubkey := JStr (key_text (replicate 32 1)), sm_signature := JNull\<rparr>) = ok b"
    unfolding canonical_bytes_signature
    by (simp only: manifest_canonical_bytes_def unsigned_dict_def t result_bind.simps canonical_json_def fin if_True) blast
qed

lemma sign_manifest_verifies_witness:
  "(\<exists>m'. sign_manifest (Some toy_ed) swarm_manifest_init [] = ok m' \<and> verify_manifest (Some toy_ed) m' = ok True)
   \<and> sign_manifest (Some toy_ed) (swarm_manifest_init\<lparr>sm_creator_pubkey := JStr ''someone else''\<rparr>) []
       = raise (ValueError ERR_SIGNATURE_INVALID)"
proof -
  have ld: "ed_load toy_ed [] = Some (replicate 32 1, \<lambda>m. take 64 (m @ replicate 64 0))" by (simp add: toy_ed_def)
  have "sm_creator_pubkey swarm_manifest_init = JNull" by (simp add: swarm_manifest_init_def)
  then obtain m' where m': "sign_manifest (Some toy_ed) swarm_manifest_init [] = ok m'"
    using example_canonical(2) by (auto simp: sign_manifest_def ld Let_def)
  have other: "JStr ''someone else'' \<notin> {JNull, JStr (key_text (replicate 32 1))}" by code_simp
  let ?m = "swarm_manifest_init\<lparr>sm_creator_pubkey := JStr ''someone else''\<rparr>"
  have "sign_manifest (Some toy_ed) ?m [] = raise (ValueError ERR_SIGNATURE_INVALID)"
    using sign_manifest_verifies [OF toy_ed_ok, of ?m "[]"] other ld
    by (cases "sign_manifest (Some toy_ed) ?m []") auto
  then show ?thesis
    using sign_manifest_verifies [OF toy_ed_ok, of swarm_manifest_init "[]"] m' by simp
qed

section \<open>The integrity gate\<close>

lemma magnet_load_parts:
  assumes "load_manifest env fetch strict expected src = ok m" "startswith src SCHEME"
  obtains link f raw where "parse_magnet (le_repl env) src = ok link" "fetch = Some f"
    "f (ml_swarm_id link) = ok (Some raw)" "le_sha env raw = ml_swarm_id link"
    "expected \<in> {None, Some (ml_swarm_id link)}" "parse_bytes env strict raw = ok m"
  using assms that
  by (auto simp: load_manifest_def load_from_magnet_def result_bind_eq_ok split: option.splits if_splits)

text \<open>C23: A manifest is only returned if it is the one that was asked for. With an expected swarm id, the
  loader returns a manifest from a file or URL only if its canonical bytes have that digest, and one from
  a magnet link only if the fetched octets have that digest, which is then also the link's; without an
  expected id, the octets fetched for a magnet link still have the digest in the link.\<close>

theorem load_manifest_integrity:
  assumes "load_manifest env fetch strict expected src = ok m"
  shows "if startswith src SCHEME then
      (\<exists>link f raw. parse_magnet (le_repl env) src = ok link \<and> fetch = Some f \<and> f (ml_swarm_id link) = ok (Some raw)
         \<and> le_sha env raw = ml_swarm_id link \<and> expected \<in> {None, Some (ml_swarm_id link)}
         \<and> parse_bytes env strict raw = ok m)
    else (\<exists>b. manifest_canonical_bytes m = ok b \<and> expected \<in> {None, Some (le_sha env b)})"
proof (cases "startswith src SCHEME")
  case True
  with assms obtain link f raw where "parse_magnet (le_repl env) src = ok link" "fetch = Some f"
    "f (ml_swarm_id link) = ok (Some raw)" "le_sha env raw = ml_swarm_id link"
    "expected \<in> {None, Some (ml_swarm_id link)}" "parse_bytes env strict raw = ok m" by (rule magnet_load_parts)
  then show ?thesis unfolding if_P [OF True] by blast
next
  case False
  then show ?thesis
    using assms by (auto simp: load_manifest_def canonical_id_def result_bind_eq_ok split: if_splits)
qed

section \<open>A magnet link leads to the unsigned manifest\<close>

lemma hex_of_bytes_ascii: "list_all is_ascii (hex_of_bytes bs)"
  using hex_of_bytes_chars [of bs] by (auto simp: list_all_iff is_lower_hex_def is_digit_def is_ascii_def)

lemma ascii_punctuation:
  "is_ascii CHR '',''" "is_ascii CHR ''[''" "is_ascii CHR '']''" "is_ascii CHR ''{''" "is_ascii CHR ''}''" "is_ascii CHR '':''"
  by (simp_all add: is_ascii_def)

lemma escape_unit_ascii: "list_all is_ascii (escape_unit u)"
proof -
  have "u \<le> 126 \<Longrightarrow> is_ascii (char_of u)" by (simp add: is_ascii_def)
  moreover have "list_all is_ascii (hex4 u)" unfolding hex4_def by (rule hex_of_bytes_ascii)
  ultimately show ?thesis by (simp add: escape_unit_def is_ascii_def)
qed

lemma dump_ascii_ascii: "list_all is_ascii (dump_ascii s)"
  using escape_unit_ascii by (auto simp: dump_ascii_def list_all_iff is_ascii_def)

lemma list_all_join: "list_all P sep \<Longrightarrow> list_all (list_all P) ws \<Longrightarrow> list_all P (join sep ws)"
  by (induction ws rule: induct_list012) auto

lemma numeric_ascii: "is_repr r \<Longrightarrow> list_all is_ascii r" "list_all is_ascii (str_of_int n)"
  using str_of_int_chars(1) [of n] by (auto simp: is_repr_def list_all_iff is_digit_def is_ascii_def)

lemma dumps_ascii_ascii: "json_wf P v \<Longrightarrow> list_all is_ascii (dumps_ascii v)"
proof (induction v rule: jnorm.induct)
  case (1 vs)
  then have "list_all (list_all is_ascii) (map dumps_ascii vs)" by (auto simp: list_all_iff)
  then show ?case by (simp add: list_all_join ascii_punctuation)
next
  case (2 kvs)
  have "list_all (list_all is_ascii) (map (\<lambda>(k, v). dump_ascii k @ '':'' @ dumps_ascii v) (members kvs))"
    using 2 dump_ascii_ascii by (fastforce simp: list_all_iff is_ascii_def case_prod_unfold)
  then show ?case by (simp add: list_all_join ascii_punctuation)
qed (simp_all add: dump_ascii_ascii numeric_ascii is_ascii_def)

lemma decode_dumps_ascii: "json_wf P v \<Longrightarrow> decode (encode (dumps_ascii v)) = ok (dumps_ascii v)"
  using dumps_ascii_ascii [of P v] by (intro decode_encode is_str_ascii) (simp add: is_ascii_def [abs_def])

text \<open>A member that is absent from one form is absent from the other.\<close>

lemma jnorm_absent:
  assumes "jnorm (JObj d) = jnorm (JObj d')" "map_of d' k = None"
  shows "map_of d k = None"
proof -
  have "fst ` set (map (\<lambda>(k, v). (k, jnorm v)) d) = fst ` set (map (\<lambda>(k, v). (k, jnorm v)) d')"
    using set_members_map [OF assms(1)] by simp
  then have "fst ` set d = fst ` set d'" by (force simp: image_image case_prod_unfold)
  with assms(2) show ?thesis by (metis map_of_eq_None_iff)
qed

lemma jnorm_JObj_cases: "jnorm w = jnorm (JObj d) \<Longrightarrow> \<exists>d'. w = JObj d'"
  by (cases w) auto

lemma manifest_fields_signature:
  "manifest_fields rep strict d = ok m \<Longrightarrow> sm_signature m = dict_get d ''signature'' JNull"
  unfolding manifest_fields_def Let_def result_bind_eq_ok by (elim exE conjE) auto

lemma manifest_from_dict_fields:
  "manifest_from_dict rep now strict (JObj d) = ok m \<Longrightarrow> manifest_fields rep strict d = ok m"
proof -
  assume l: "manifest_from_dict rep now strict (JObj d) = ok m"
  have "result_bind c (\<lambda>_. ok x) = ok m \<Longrightarrow> x = m" for c :: "unit result" and x by (cases c) auto
  with l show ?thesis
    by (cases "version_gate strict d"; cases "manifest_fields rep strict d") (simp_all add: manifest_from_dict_def)
qed

text \<open>A manifest fetched through its magnet link has lost its signature. The link carries the digest of
  the canonical bytes, which leave the signature out, so the only octets that pass the gate (SHA-256 having
  no collision on them) parse to a manifest without signature, whatever the creator had signed, and
  \<open>verify_manifest\<close> returns false on it. \<open>json.loads\<close> is assumed to return a dictionary equal to the one
  that was written.\<close>

theorem magnet_load_unsigned:
  assumes load: "load_manifest env (Some f) strict expected src = ok m"
    and link: "startswith src SCHEME" "parse_magnet (le_repl env) src = ok l"
    and created: "unsigned_dict m0 = ok d0" "json_wf is_str (JObj d0)" "manifest_canonical_bytes m0 = ok b"
      "ml_swarm_id l = le_sha env b"
    and fetched: "f (ml_swarm_id l) = ok (Some raw)" "inj_on (le_sha env) {raw, b}"
    and loads: "\<And>w. le_loads env (dumps_ascii (JObj d0)) = Some w \<Longrightarrow> jnorm w = jnorm (JObj d0)"
  shows "sm_signature m = JNull \<and> verify_manifest lib m = ok False"
proof -
  obtain link' f' raw' where q: "parse_magnet (le_repl env) src = ok link'" "Some f = Some f'"
    "f' (ml_swarm_id link') = ok (Some raw')" "le_sha env raw' = ml_swarm_id link'"
    "parse_bytes env strict raw' = ok m" by (rule magnet_load_parts [OF load link(1)]) blast
  have same: "l = link'" "f = f'" using q(1,2) link(2) by (simp_all only: sum.inject option.inject)
  then have "raw = raw'" using q(3) fetched(1) by (simp only: sum.inject option.inject)
  with q(4,5) same have p: "le_sha env raw = ml_swarm_id l" "parse_bytes env strict raw = ok m" by (simp_all only:)
  from p(1) created(4) have "le_sha env raw = le_sha env b" by (rule trans)
  then have "raw = b" by (rule inj_onD [OF fetched(2)]) simp_all
  moreover have "b = encode (dumps_ascii (JObj d0))"
    using created(1,3) by (simp add: manifest_canonical_bytes_def canonical_json_def split: if_splits)
  ultimately obtain w where w: "le_loads env (dumps_ascii (JObj d0)) = Some w"
    and m: "manifest_from_dict (le_rep env) (le_now env) strict w = ok m"
    using p(2) decode_dumps_ascii [OF created(2)]
    by (auto simp: parse_bytes_def result_bind_eq_ok split: if_splits option.splits)
  obtain d where d: "w = JObj d" using jnorm_JObj_cases [OF loads [OF w]] by blast
  have "map_of d0 ''signature'' = None"
    using created(1) by (auto simp: unsigned_dict_def result_bind_eq_ok AList.delete_conv')
  then have "map_of d ''signature'' = None" using jnorm_absent loads [OF w] d by blast
  moreover have "manifest_fields (le_rep env) strict d = ok m"
    by (rule manifest_from_dict_fields [OF m [unfolded d]])
  then have "sm_signature m = dict_get d ''signature'' JNull" by (rule manifest_fields_signature)
  ultimately have "sm_signature m = JNull" by (simp add: dict_get_def)
  then show ?thesis by (simp add: verify_manifest_def)
qed

text \<open>A world in which the default manifest is served for its link.\<close>

definition link_doc :: "(string, json) pydict" where
  "link_doc = AList.delete ''signature'' (manifest_dict swarm_manifest_init)"

definition toy_env :: load_env where
  "toy_env = \<lparr>le_sha = \<lambda>_. replicate 32 7, le_loads = \<lambda>_. Some (JObj link_doc), le_rep = \<lambda>_. [],
     le_now = [2026, 1, 1, 0, 0, 0, 0], le_repl = \<lambda>_. [], le_http = \<lambda>_. None, le_files = \<lambda>_. None\<rparr>"

definition toy_link :: magnet_link where
  "toy_link = \<lparr>ml_swarm_id = replicate 32 7, ml_display_name = None, ml_keywords = [], ml_trackers = [],
     ml_bootstrap_peers = [], ml_protocol_version = 1\<rparr>"

definition toy_uri :: string where
  "toy_uri = SCHEME @ join ''&'' (magnet_parts toy_link)"

definition toy_raw :: bytes where
  "toy_raw = encode (dumps_ascii (JObj link_doc))"

lemma toy_facts:
  "startswith toy_uri SCHEME" "parse_magnet repl toy_uri = ok toy_link"
  "unsigned_dict swarm_manifest_init = ok link_doc" "json_wf is_str (JObj link_doc)"
  "manifest_canonical_bytes swarm_manifest_init = ok toy_raw"
proof -
  show "startswith toy_uri SCHEME" by (simp add: toy_uri_def startswith_def)
  show "parse_magnet repl toy_uri = ok toy_link"
    unfolding toy_uri_def by (rule parse_format(2)) (simp add: magnet_valid_def toy_link_def)
  show u: "unsigned_dict swarm_manifest_init = ok link_doc"
    by (simp add: unsigned_dict_def manifest_to_dict_def manifest_dict_def link_doc_def swarm_manifest_init_def)
  have "json_wf ascii (JObj link_doc)" by code_simp
  then show "json_wf is_str (JObj link_doc)" using json_wf_mono ascii_is_str by blast
  have "finite_json (JObj link_doc)" by code_simp
  with u show "manifest_canonical_bytes swarm_manifest_init = ok toy_raw"
    by (simp only: manifest_canonical_bytes_def result_bind.simps canonical_json_def if_True toy_raw_def)
qed

lemma toy_load: "\<exists>m. load_manifest toy_env (Some (\<lambda>_. ok (Some toy_raw))) False None toy_uri = ok m"
proof -
  have "case manifest_from_dict (\<lambda>_. []) [2026, 1, 1, 0, 0, 0, 0] False (JObj link_doc) of Inl _ \<Rightarrow> False | Inr _ \<Rightarrow> True"
    by code_simp
  then obtain m where m: "manifest_from_dict (\<lambda>_. []) [2026, 1, 1, 0, 0, 0, 0] False (JObj link_doc) = ok m"
    by (auto split: sum.splits)
  have "take 3 toy_raw \<noteq> UTF8_BOM" "decode toy_raw = ok (dumps_ascii (JObj link_doc))"
    using decode_dumps_ascii [OF toy_facts(4)]
    by (simp_all add: toy_raw_def UTF8_BOM_def encode_def byte_of_char_def)
  with m have "parse_bytes toy_env False toy_raw = ok m"
    by (simp add: parse_bytes_def toy_env_def)
  then show ?thesis
    using toy_facts(1) by (simp add: load_manifest_def load_from_magnet_def toy_facts(2) toy_link_def)
      (simp add: toy_env_def)
qed

lemma load_manifest_integrity_witness:
  "\<exists>m link f raw. load_manifest toy_env (Some (\<lambda>_. ok (Some toy_raw))) False None toy_uri = ok m \<and>
     parse_magnet (le_repl toy_env) toy_uri = ok link \<and> le_sha toy_env raw = ml_swarm_id link"
proof -
  obtain m where m: "load_manifest toy_env (Some (\<lambda>_. ok (Some toy_raw))) False None toy_uri = ok m" using toy_load by blast
  from load_manifest_integrity [OF m] m show ?thesis by (auto simp: toy_facts(1))
qed

lemma magnet_load_unsigned_witness:
  "\<exists>m. load_manifest toy_env (Some (\<lambda>_. ok (Some toy_raw))) False None toy_uri = ok m
     \<and> verify_manifest (Some toy_ed) m = ok False"
proof -
  obtain m where m: "load_manifest toy_env (Some (\<lambda>_. ok (Some toy_raw))) False None toy_uri = ok m" using toy_load by blast
  have "sm_signature m = JNull \<and> verify_manifest (Some toy_ed) m = ok False"
    by (rule magnet_load_unsigned [OF m toy_facts(1) toy_facts(2) toy_facts(3,4,5)])
       (auto simp: toy_env_def toy_link_def)
  with m show ?thesis by blast
qed

end
