(* ===== verification/Numpy_Types.thy ===== *)
theory Numpy_Types
  imports Quink_Prelude
begin

text \<open>
  The element types of numpy arrays and the conversion \<open>astype\<close> that the aggregation strategies and the weight
  compression apply to their results. The arithmetic of the model is exact on real numbers, which stand for the
  values of \<open>float64\<close>; converting to a narrower floating type rounds to the nearest value, halves to even, and
  overflows to an infinity, converting to an integer type cuts the fraction off, and converting to \<open>bool\<close> tests
  for zero. What C leaves open, an integer out of the range of its type, is left open here as well.
\<close>

section \<open>Elements\<close>

datatype flt = Fin real | Infinity bool | NaN

fun is_finite :: "flt \<Rightarrow> bool" where
  "is_finite (Fin x) = True"
| "is_finite _ = False"

fun real_of_flt :: "flt \<Rightarrow> real" where
  "real_of_flt (Fin x) = x"
| "real_of_flt _ = 0"

section \<open>Rounding\<close>

text \<open>\<open>np.round\<close> rounds halves to even.\<close>

definition np_round :: "real \<Rightarrow> int" where
  "np_round x = (let f = \<lfloor>x\<rfloor>; r = x - of_int f in
     if r < 1 / 2 then f else if 1 / 2 < r then f + 1 else if even f then f else f + 1)"

text \<open>The nearest number of \<open>p\<close> significant bits whose last bit is worth at least \<open>2\<close> to the power of \<open>least\<close>.\<close>

definition float_exponent :: "int \<Rightarrow> int \<Rightarrow> real \<Rightarrow> int" where
  "float_exponent p least x = max least (\<lfloor>log 2 \<bar>x\<bar>\<rfloor> - p + 1)"

definition float_round :: "int \<Rightarrow> int \<Rightarrow> real \<Rightarrow> real" where
  "float_round p least x =
     (if x = 0 then 0
      else let q = 2 powr of_int (float_exponent p least x) in of_int (np_round (x / q)) * q)"

section \<open>Conversion\<close>

text \<open>Precision, exponent of the least positive value and exponent of the first power of two that overflows.\<close>

definition float_format :: "string \<Rightarrow> (int \<times> int \<times> int) option" where
  "float_format d =
     (if d = ''float16'' then Some (11, -24, 16) else if d = ''float32'' then Some (24, -149, 128) else None)"

definition int_range :: "string \<Rightarrow> (int \<times> int) option" where
  "int_range d = map_of
     [(''int8'', (- (2 ^ 7), 2 ^ 7 - 1)), (''int16'', (- (2 ^ 15), 2 ^ 15 - 1)), (''int32'', (- (2 ^ 31), 2 ^ 31 - 1)),
      (''int64'', (- (2 ^ 63), 2 ^ 63 - 1)), (''uint8'', (0, 2 ^ 8 - 1)), (''uint16'', (0, 2 ^ 16 - 1)),
      (''uint32'', (0, 2 ^ 32 - 1)), (''uint64'', (0, 2 ^ 64 - 1))] d"

definition to_int :: "int \<Rightarrow> int \<Rightarrow> real \<Rightarrow> real" where
  "to_int lo hi x =
     of_int (if lo \<le> py_int x \<and> py_int x \<le> hi then py_int x else lo + undefined x mod (hi - lo + 1))"

definition np_cast :: "string \<Rightarrow> real \<Rightarrow> flt" where
  "np_cast d x =
     (case float_format d of
        Some (p, least, emax) \<Rightarrow>
          (let r = float_round p least x in if \<bar>r\<bar> < 2 powr of_int emax then Fin r else Infinity (0 < r))
      | None \<Rightarrow>
          (case int_range d of
             Some (lo, hi) \<Rightarrow> Fin (to_int lo hi x)
           | None \<Rightarrow> if d = ''bool'' then Fin (of_bool (x \<noteq> 0)) else Fin x))"

text \<open>The nearest \<open>float64\<close>, to which a single operation rounds its result.\<close>

definition float64_round :: "real \<Rightarrow> real" where
  "float64_round = float_round 53 (- 1074)"

definition float64_value :: "real \<Rightarrow> bool" where
  "float64_value x \<longleftrightarrow> float64_round x = x"

text \<open>\<open>astype\<close> of one element, infinities and NaN included.\<close>

fun flt_cast :: "string \<Rightarrow> flt \<Rightarrow> flt" where
  "flt_cast d (Fin x) = np_cast d x"
| "flt_cast d v =
     (case int_range d of
        Some (lo, hi) \<Rightarrow> Fin (of_int (lo + undefined v mod (hi - lo + 1)))
      | None \<Rightarrow> if d = ''bool'' then Fin 1 else v)"

section \<open>The conversion is monotone\<close>

lemma np_round_bounds: "\<lfloor>x\<rfloor> \<le> np_round x" "np_round x \<le> \<lfloor>x\<rfloor> + 1"
  by (simp_all add: np_round_def Let_def)

lemma np_round_mono:
  assumes "x \<le> y"
  shows "np_round x \<le> np_round y"
proof (cases "\<lfloor>x\<rfloor> = \<lfloor>y\<rfloor>")
  case True
  then show ?thesis
    using assms by (auto simp: np_round_def Let_def)
next
  case False
  then have "\<lfloor>x\<rfloor> + 1 \<le> \<lfloor>y\<rfloor>"
    using floor_mono [OF assms] by simp
  then show ?thesis
    using np_round_bounds(2) [of x] np_round_bounds(1) [of y] by linarith
qed

lemma np_round_int [simp]: "np_round (of_int m) = m"
  by (simp add: np_round_def)

lemma np_round_zero [simp]: "np_round 0 = 0"
  using np_round_int [of 0] by simp

lemma np_round_ge: "of_int m \<le> x \<Longrightarrow> m \<le> np_round x"
  using np_round_mono [of "of_int m" x] by simp

lemma np_round_le: "x \<le> of_int m \<Longrightarrow> np_round x \<le> m"
  using np_round_mono [of x "of_int m"] by simp

lemma np_round_minus: "np_round (- x) = - np_round x"
proof (cases "x \<in> \<int>")
  case True
  then obtain m where "x = of_int m"
    by (auto elim: Ints_cases)
  then show ?thesis
    using np_round_int [of "- m"] by simp
next
  case False
  then have f: "\<lfloor>- x\<rfloor> = - \<lfloor>x\<rfloor> - 1"
    using ceiling_altdef [of x] Ints_of_int [of "\<lfloor>x\<rfloor>", where 'a = real]
    by (cases "x = of_int \<lfloor>x\<rfloor>") (simp_all add: ceiling_def)
  then show ?thesis
    by (auto simp: np_round_def Let_def)
qed

lemma float_exponent_mono: "0 < x \<Longrightarrow> x \<le> y \<Longrightarrow> float_exponent p least x \<le> float_exponent p least y"
proof -
  assume "0 < x" "x \<le> y"
  then have "\<lfloor>log 2 x\<rfloor> \<le> \<lfloor>log 2 y\<rfloor>"
    by (intro floor_mono) simp
  then show ?thesis
    using \<open>0 < x\<close> \<open>x \<le> y\<close> by (simp add: float_exponent_def)
qed

lemma float_round_minus: "float_round p least (- x) = - float_round p least x"
  by (simp add: float_round_def float_exponent_def np_round_minus Let_def)

lemma float_round_nonneg: "0 \<le> x \<Longrightarrow> 0 \<le> float_round p least x"
  using np_round_ge [of 0 "x / 2 powr of_int (float_exponent p least x)"]
  by (simp add: float_round_def Let_def)

lemma float_round_upper:
  assumes "0 < x" "0 \<le> p"
  shows "float_round p least x \<le> 2 powr of_int (p + float_exponent p least x)"
proof -
  let ?e = "float_exponent p least x"
  have "log 2 x < of_int (p + ?e)"
    using assms(1) by (simp add: float_exponent_def) linarith
  then have "x < 2 powr of_int (p + ?e)"
    using assms(1) by (simp add: log_less_iff)
  then have "x / 2 powr of_int ?e \<le> 2 powr of_int p"
    by (simp add: divide_le_eq powr_add [symmetric])
  also have "\<dots> = of_int (2 ^ nat p)"
    using assms(2) by (simp add: powr_realpow [symmetric])
  finally have "np_round (x / 2 powr of_int ?e) \<le> 2 ^ nat p"
    by (rule np_round_le)
  then have "of_int (np_round (x / 2 powr of_int ?e)) \<le> (of_int (2 ^ nat p) :: real)"
    by (rule of_int_le_iff [THEN iffD2])
  also have "\<dots> = 2 powr of_int p"
    using assms(2) by (simp add: powr_realpow [symmetric])
  finally show ?thesis
    using assms(1) by (simp add: float_round_def Let_def powr_add)
qed

lemma float_round_lower:
  assumes "0 < y" "1 \<le> p" "least < float_exponent p least y"
  shows "2 powr of_int (p - 1 + float_exponent p least y) \<le> float_round p least y"
proof -
  let ?e = "float_exponent p least y"
  have "of_int (p - 1 + ?e) \<le> log 2 y"
    using assms by (auto simp: float_exponent_def max_def split: if_splits)
  then have "2 powr of_int (p - 1 + ?e) \<le> y"
    using assms(1) by (simp add: le_log_iff)
  then have "2 powr of_int (p - 1) \<le> y / 2 powr of_int ?e"
    by (simp add: le_divide_eq powr_add [symmetric])
  moreover have "2 powr of_int (p - 1) = (of_int (2 ^ nat (p - 1)) :: real)"
    using assms(2) by (simp add: powr_realpow [symmetric])
  ultimately have "2 ^ nat (p - 1) \<le> np_round (y / 2 powr of_int ?e)"
    by (intro np_round_ge) simp
  then have "of_int (2 ^ nat (p - 1)) \<le> (of_int (np_round (y / 2 powr of_int ?e)) :: real)"
    by (rule of_int_le_iff [THEN iffD2])
  then have "2 powr of_int (p - 1) \<le> (of_int (np_round (y / 2 powr of_int ?e)) :: real)"
    using \<open>2 powr of_int (p - 1) = of_int (2 ^ nat (p - 1))\<close> by simp
  then show ?thesis
    using assms(1) by (simp add: float_round_def Let_def powr_add)
qed

lemma float_round_mono_pos:
  assumes "0 < x" "x \<le> y" "1 \<le> p"
  shows "float_round p least x \<le> float_round p least y"
proof (cases "float_exponent p least x = float_exponent p least y")
  case True
  then show ?thesis
    using assms np_round_mono [of "x / 2 powr of_int (float_exponent p least y)" "y / 2 powr of_int (float_exponent p least y)"]
    by (auto simp: float_round_def Let_def divide_right_mono mult_right_mono)
next
  case False
  then have e: "float_exponent p least x + 1 \<le> float_exponent p least y"
    using float_exponent_mono [OF assms(1,2), of p least] by simp
  then have "least < float_exponent p least y"
    by (simp add: float_exponent_def)
  then have "2 powr of_int (p - 1 + float_exponent p least y) \<le> float_round p least y"
    using assms by (intro float_round_lower) simp_all
  moreover have "(2 :: real) powr of_int (p + float_exponent p least x) \<le> 2 powr of_int (p - 1 + float_exponent p least y)"
    using e by (intro powr_mono) simp_all
  moreover have "float_round p least x \<le> 2 powr of_int (p + float_exponent p least x)"
    using assms by (intro float_round_upper) simp_all
  ultimately show ?thesis
    by linarith
qed

lemma float_round_mono:
  assumes "x \<le> y" "1 \<le> p"
  shows "float_round p least x \<le> float_round p least y"
proof -
  consider "0 < x" | "x \<le> 0" "0 \<le> y" | "y < 0"
    by linarith
  then show ?thesis
  proof cases
    case 1
    then show ?thesis
      using assms by (intro float_round_mono_pos)
  next
    case 2
    then show ?thesis
      using float_round_nonneg [of y p least] float_round_nonneg [of "- x" p least] by (simp add: float_round_minus)
  next
    case 3
    then show ?thesis
      using float_round_mono_pos [of "- y" "- x" p least] assms by (simp add: float_round_minus)
  qed
qed

lemma py_int_mono: "x \<le> y \<Longrightarrow> py_int x \<le> py_int y"
  unfolding py_int_def using floor_mono [of x y] ceiling_mono [of x y] ceiling_mono [of x 0] floor_mono [of 0 y]
  by (smt (verit) floor_zero ceiling_zero)

lemma to_int_holds:
  assumes "a \<le> b" "to_int a b z = z"
  shows "of_int (py_int z) = z \<and> a \<le> py_int z \<and> py_int z \<le> b"
proof -
  let ?n = "if a \<le> py_int z \<and> py_int z \<le> b then py_int z else a + undefined z mod (b - a + 1)"
  have "0 \<le> undefined z mod (b - a + 1)" "undefined z mod (b - a + 1) < b - a + 1"
    using assms(1) pos_mod_bound [of "b - a + 1" "undefined z"] by simp_all
  then have n: "a \<le> ?n" "?n \<le> b"
    by auto
  have z: "z = of_int ?n"
    using assms(2) by (simp only: to_int_def)
  have "py_int (of_int ?n) = ?n"
    by (simp only: py_int_def floor_of_int ceiling_of_int if_cancel)
  then have "py_int z = ?n"
    by (rule subst [OF z [symmetric], of "\<lambda>t. py_int t = ?n"])
  then show ?thesis
    using n z by (simp only:)
qed

text \<open>What lies between two numbers of a type still lies between them after the conversion.\<close>

lemma np_cast_between:
  assumes "np_cast d lo = Fin lo" "np_cast d hi = Fin hi" "lo \<le> x" "x \<le> hi"
  shows "\<exists>y. np_cast d x = Fin y \<and> lo \<le> y \<and> y \<le> hi"
proof (cases "float_format d")
  case (Some f)
  then obtain p least emax where f: "float_format d = Some (p, least, emax)" and p: "1 \<le> p"
    by (auto simp: float_format_def split: if_splits)
  have "float_round p least lo = lo" "\<bar>lo\<bar> < 2 powr of_int emax" "float_round p least hi = hi" "\<bar>hi\<bar> < 2 powr of_int emax"
    using assms(1,2) f by (simp_all add: np_cast_def Let_def split: if_splits)
  moreover have "float_round p least lo \<le> float_round p least x" "float_round p least x \<le> float_round p least hi"
    using assms(3,4) p by (simp_all add: float_round_mono)
  ultimately show ?thesis
    using f by (simp add: np_cast_def Let_def)
next
  case None
  show ?thesis
  proof (cases "int_range d")
    case (Some r)
    then obtain a b where r: "int_range d = Some (a, b)"
      by (cases r) auto
    then have ab: "a \<le> b"
      by (auto simp: int_range_def split: if_splits)
    have cast: "np_cast d z = Fin (to_int a b z)" for z
      using None r by (simp add: np_cast_def)
    have "to_int a b lo = lo" "to_int a b hi = hi"
      using assms(1,2) by (simp_all add: cast)
    note held = to_int_holds [OF ab this(1)] to_int_holds [OF ab this(2)]
    have "py_int lo \<le> py_int x" "py_int x \<le> py_int hi"
      using assms(3,4) by (simp_all add: py_int_mono)
    then have "to_int a b x = of_int (py_int x)" and "lo \<le> of_int (py_int x)" and "of_int (py_int x) \<le> hi"
      using held by (simp_all add: to_int_def)
    then show ?thesis
      by (simp add: cast)
  next
    case n: None
    then show ?thesis
      using assms None by (auto simp: np_cast_def of_bool_def split: if_splits)
  qed
qed

lemma np_cast_float64 [simp]: "np_cast ''float64'' x = Fin x"
  by (simp add: np_cast_def float_format_def int_range_def)

lemma to_int_zero: "a \<le> 0 \<Longrightarrow> 0 \<le> b \<Longrightarrow> to_int a b 0 = 0"
  by (simp add: to_int_def py_int_def)

lemma np_cast_zero [simp]: "np_cast d 0 = Fin 0"
proof (cases "float_format d")
  case None
  then show ?thesis
    by (cases "int_range d") (auto simp: np_cast_def int_range_def to_int_zero split: if_splits)
qed (auto simp: np_cast_def float_round_def split: prod.split)

text \<open>A mean of integers loses its fraction, and a number of twelve bits does not fit \<open>float16\<close>.\<close>

lemma np_cast_cuts: "np_cast ''int64'' (11 / 4) = Fin 2" "np_cast ''int64'' (- (11 / 4)) = Fin (- 2)"
  by (simp_all add: np_cast_def float_format_def int_range_def to_int_def py_int_def)

lemma np_cast_rounds: "np_cast ''float16'' 2049 = Fin 2048"
proof -
  have "\<lfloor>log 2 2049 :: real\<rfloor> = 11"
    by (intro floor_unique) (simp_all add: le_log_iff log_less_iff powr_numeral)
  then show ?thesis
    by (simp add: np_cast_def float_format_def float_round_def float_exponent_def np_round_def Let_def powr_numeral)
qed

section \<open>Nearest values\<close>

lemma np_round_near: "\<bar>of_int (np_round x) - x\<bar> \<le> 1 / 2"
proof -
  define r where "r = x - of_int \<lfloor>x\<rfloor>"
  have "0 \<le> r" "r < 1" by (simp_all add: r_def) linarith
  moreover have "of_int (np_round x) - x = (if r < 1 / 2 then - r else if 1 / 2 < r then 1 - r
      else if even \<lfloor>x\<rfloor> then - r else 1 - r)"
    by (simp add: np_round_def Let_def r_def)
  ultimately show ?thesis by (auto split: if_splits)
qed

lemma np_round_nearest: "\<bar>of_int (np_round x) - x\<bar> \<le> \<bar>of_int m - x\<bar>"
proof (cases "m = np_round x")
  case False
  then have "1 \<le> \<bar>real_of_int m - of_int (np_round x)\<bar>" by linarith
  then show ?thesis using np_round_near [of x] by linarith
qed simp

lemma float_round_multiple:
  "\<bar>float_round p least z - z\<bar> \<le> \<bar>of_int m * 2 powr of_int (float_exponent p least z) - z\<bar>"
proof (cases "z = 0")
  case False
  define q where "q = (2 :: real) powr of_int (float_exponent p least z)"
  have q: "0 < q" by (simp add: q_def)
  have "\<bar>of_int (np_round (z / q)) - z / q\<bar> * q \<le> \<bar>of_int m - z / q\<bar> * q"
    using np_round_nearest q by (intro mult_right_mono) simp_all
  moreover have "\<bar>t - z / q\<bar> * q = \<bar>t * q - z\<bar>" for t
  proof -
    have "\<bar>t - z / q\<bar> * q = \<bar>(t - z / q) * q\<bar>" using q by (simp add: abs_mult)
    then show ?thesis using q by (simp add: left_diff_distrib)
  qed
  ultimately show ?thesis
    using False by (simp add: float_round_def Let_def q_def [symmetric])
qed (simp add: float_round_def)

lemma powr_int_multiple:
  fixes e e' :: int
  assumes "e \<le> e'"
  shows "(2 :: real) powr of_int e' = of_int (2 ^ nat (e' - e)) * 2 powr of_int e"
proof -
  have "(2 :: real) powr of_int e' = 2 powr of_int (e' - e) * 2 powr of_int e"
    by (simp add: powr_add [symmetric])
  also have "(2 :: real) powr of_int (e' - e) = of_int (2 ^ nat (e' - e))"
    using assms by (simp add: powr_realpow [symmetric])
  finally show ?thesis .
qed

lemma float_round_nearest:
  assumes "float_round p least x = x" "1 \<le> p"
  shows "\<bar>float_round p least z - z\<bar> \<le> \<bar>x - z\<bar>"
proof (cases "x = 0 \<or> z = 0")
  case True
  then show ?thesis
    using float_round_multiple [of p least z 0] by (auto simp: float_round_def)
next
  case False
  let ?e = "float_exponent p least z" and ?e' = "float_exponent p least x"
  show ?thesis
  proof (cases "?e \<le> ?e'")
    case True
    define M where "M = np_round (x / 2 powr of_int ?e')"
    have "x = of_int M * 2 powr of_int ?e'"
      using assms(1) False by (simp add: float_round_def Let_def M_def)
    also have "\<dots> = of_int (M * 2 ^ nat (?e' - ?e)) * 2 powr of_int ?e"
      unfolding powr_int_multiple [OF True] by simp
    finally show ?thesis
      using float_round_multiple [of p least z "M * 2 ^ nat (?e' - ?e)"] by simp
  next
    case small: False
    define B where "B = (2 :: real) powr of_int (p - 1 + ?e)"
    have B: "B = of_int (2 ^ nat (p - 1)) * 2 powr of_int ?e"
      using powr_int_multiple [of ?e "p - 1 + ?e"] assms(2) by (simp add: B_def)
    have "least < ?e" using small by (simp add: float_exponent_def)
    then have "of_int (p - 1 + ?e) \<le> log 2 \<bar>z\<bar>"
      by (auto simp: float_exponent_def max_def split: if_splits)
    then have z: "B \<le> \<bar>z\<bar>" using False by (simp add: le_log_iff B_def)
    have "log 2 \<bar>x\<bar> < of_int (p + ?e')" by (simp add: float_exponent_def) linarith
    then have "\<bar>x\<bar> < 2 powr of_int (p + ?e')" using False by (simp add: log_less_iff)
    also have "\<dots> \<le> B" unfolding B_def using small by (intro powr_mono) simp_all
    finally have x: "\<bar>x\<bar> < B" .
    have "\<bar>float_round p least z - z\<bar> \<le> \<bar>B - z\<bar>" "\<bar>float_round p least z - z\<bar> \<le> \<bar>- B - z\<bar>"
      using float_round_multiple [of p least z "2 ^ nat (p - 1)"] float_round_multiple [of p least z "- (2 ^ nat (p - 1))"]
      by (simp_all add: B)
    then show ?thesis using z x by linarith
  qed
qed

text \<open>Multiples of a power of two with few enough bits are values of the format.\<close>

lemma float_round_exact:
  assumes "\<bar>m\<bar> < 2 ^ p" "least \<le> e" "0 < p"
  shows "float_round (int p) least (of_int m * 2 powr of_int e) = of_int m * 2 powr of_int e"
proof (cases "m = 0")
  case False
  define z where "z = real_of_int m * 2 powr of_int e"
  define E where "E = float_exponent (int p) least z"
  have "real_of_int \<bar>m\<bar> < of_int (2 ^ p)" using assms(1) by (rule of_int_less_iff [THEN iffD2])
  then have "\<bar>z\<bar> < 2 powr of_int (int p) * 2 powr of_int e"
    by (simp add: z_def abs_mult powr_realpow)
  then have "\<bar>z\<bar> < 2 powr of_int (int p + e)" by (simp add: powr_add)
  then have "\<lfloor>log 2 \<bar>z\<bar>\<rfloor> < int p + e" using False by (simp add: z_def log_less_iff floor_less_iff)
  then have E: "E \<le> e" using assms(2) by (simp add: E_def float_exponent_def)
  have "z = of_int (m * 2 ^ nat (e - E)) * 2 powr of_int E"
    unfolding z_def powr_int_multiple [OF E] by simp
  then have "z / 2 powr of_int E = of_int (m * 2 ^ nat (e - E))" by simp
  then have "of_int (np_round (z / 2 powr of_int E)) * 2 powr of_int E = z"
    using \<open>z = of_int (m * 2 ^ nat (e - E)) * 2 powr of_int E\<close> np_round_int by metis
  then show ?thesis using False by (simp add: float_round_def Let_def z_def [symmetric] E_def [symmetric])
qed (simp add: float_round_def)

lemma float64_exact:
  assumes "\<bar>m\<bar> < 2 ^ 53" "- 1074 \<le> e"
  shows "float64_value (of_int m * 2 powr of_int e)"
  using float_round_exact [of m 53 "- 1074" e] assms by (simp add: float64_value_def float64_round_def)

lemma float64_int: "\<bar>m\<bar> < 2 ^ 53 \<Longrightarrow> float64_value (of_int m)"
  using float64_exact [of m 0] by simp

text \<open>The values of \<open>float16\<close> are multiples of \<open>2\<close> to the power of \<open>-24\<close> below \<open>2\<close> to the power of 16; they and
  their differences are values of \<open>float64\<close>.\<close>

lemma float16_multiple:
  assumes "np_cast ''float16'' x = Fin x"
  shows "\<exists>m. x = of_int m * 2 powr of_int (- 24) \<and> \<bar>m\<bar> < 2 ^ 40"
proof (cases "x = 0")
  case False
  define E where "E = float_exponent 11 (- 24) x"
  have x: "float_round 11 (- 24) x = x" "\<bar>x\<bar> < 2 powr 16"
    using assms by (simp_all add: np_cast_def float_format_def Let_def split: if_splits)
  have E: "- 24 \<le> E" by (simp add: E_def float_exponent_def)
  define m where "m = np_round (x / 2 powr of_int E) * 2 ^ nat (E - (- 24))"
  have "x = of_int (np_round (x / 2 powr of_int E)) * 2 powr of_int E"
    using x(1) False by (simp add: float_round_def Let_def E_def)
  also have "\<dots> = of_int m * 2 powr of_int (- 24)"
    unfolding m_def powr_int_multiple [OF E] by simp
  finally have m: "x = of_int m * 2 powr of_int (- 24)" .
  then have "real_of_int \<bar>m\<bar> * 2 powr - 24 < 2 powr 16" using x(2) by (simp add: abs_mult)
  then have "real_of_int \<bar>m\<bar> * 2 powr - 24 * 2 powr 24 < 2 powr 16 * 2 powr 24" by simp
  then have "real_of_int \<bar>m\<bar> < 2 powr 40"
    unfolding mult.assoc powr_add [symmetric] by simp
  then have "real_of_int \<bar>m\<bar> < of_int (2 ^ 40)" by (simp add: powr_numeral)
  then have "\<bar>m\<bar> < 2 ^ 40" by (rule of_int_less_iff [THEN iffD1])
  with m show ?thesis by blast
qed (intro exI [of _ 0], simp)

lemma float16_exact:
  assumes "np_cast ''float16'' x = Fin x" "np_cast ''float16'' y = Fin y"
  shows "float64_value x" "float64_value (x - y)"
proof -
  obtain m n where m: "x = of_int m * 2 powr of_int (- 24)" "\<bar>m\<bar> < 2 ^ 40"
    and n: "y = of_int n * 2 powr of_int (- 24)" "\<bar>n\<bar> < 2 ^ 40"
    using float16_multiple [OF assms(1)] float16_multiple [OF assms(2)] by blast
  show "float64_value x" unfolding m(1) using m(2) by (intro float64_exact) simp_all
  have "x - y = of_int (m - n) * 2 powr of_int (- 24)" by (simp add: m(1) n(1) left_diff_distrib)
  moreover have "\<bar>m - n\<bar> < 2 ^ 53" using m(2) n(2) by simp
  ultimately show "float64_value (x - y)" using float64_exact [of "m - n" "- 24"] by simp
qed

text \<open>A conversion to a floating type moves a number no farther than the distance to any value of the type.\<close>

lemma np_cast_nearest:
  assumes "d \<in> {''float16'', ''float32'', ''float64''}" "np_cast d x = Fin x" "np_cast d z = Fin y"
  shows "\<bar>y - z\<bar> \<le> \<bar>x - z\<bar>"
proof (cases "float_format d")
  case (Some f)
  then obtain p least emax where f: "float_format d = Some (p, least, emax)" "1 \<le> p"
    by (auto simp: float_format_def split: if_splits)
  then have "float_round p least x = x" "float_round p least z = y"
    using assms(2,3) by (simp_all add: np_cast_def Let_def split: if_splits)
  then show ?thesis
    using float_round_nearest [of p least x z] f(2) by simp
next
  case None
  then show ?thesis
    using assms by (auto simp: float_format_def)
qed

end
