(* ===== verification/Quantization.thy ===== *)
theory Quantization
  imports Numpy_Types
begin

text \<open>
  Weight quantisation (\<open>serialization/quantization.py\<close>): the linear and the QSGD scheme on one array,
  their inverses, and the functions on whole models. Array elements are real numbers, the
  \<open>float64\<close> arithmetic on them is exact, and \<open>astype\<close> back to the dtype of an array is the conversion of
  \<open>Numpy_Types\<close> (infinities, to which a number beyond the range of a narrow float is converted, are not
  modelled: such an element is left open). The cast of a value
  outside the range of an unsigned dtype, which C leaves open, is the parameter \<open>wild\<close>, and the uniform
  noise of QSGD is a parameter.
\<close>

section \<open>Arrays and models\<close>

record narray =
  na_dtype :: string
  na_shape :: "nat list"
  na_data :: "real list"

definition floating :: "string \<Rightarrow> bool" where
  "floating d \<longleftrightarrow> d \<in> {''float16'', ''float32'', ''float64''}"

text \<open>A model is an array or a dictionary; a sparse tensor is a dictionary as well.\<close>

datatype pyval =
    PArr narray
  | PDict "(string \<times> pyval) list"
  | PTrue
  | PNone
  | POther string

text \<open>As many elements as the shape says, each a value of the dtype.\<close>

definition narray_wf :: "narray \<Rightarrow> bool" where
  "narray_wf a \<longleftrightarrow> length (na_data a) = prod_list (na_shape a)
     \<and> list_all (\<lambda>x. np_cast (na_dtype a) x = Fin x) (na_data a)"

definition round_to :: "string \<Rightarrow> real \<Rightarrow> real" where
  "round_to d x = (case np_cast d x of Fin y \<Rightarrow> y | _ \<Rightarrow> undefined d x)"

text \<open>\<open>np.array(xs).reshape(shape).astype(d)\<close>.\<close>

definition reshape :: "string \<Rightarrow> nat list \<Rightarrow> real list \<Rightarrow> narray result" where
  "reshape d shape xs = (if length xs = prod_list shape then ok \<lparr>na_dtype = d, na_shape = shape, na_data = map (round_to d) xs\<rparr>
                         else raise (ValueError ''cannot reshape array''))"

section \<open>Configuration\<close>

record quantization_config =
  qc_bits :: int
  qc_method :: string

definition quantization_config_init :: "int \<Rightarrow> string \<Rightarrow> quantization_config result" where
  "quantization_config_init bits method =
     (if bits \<notin> {4, 8, 16, 32} then raise (ValueError ''Invalid bits value'')
      else if method \<notin> {''linear'', ''stochastic''} then raise (ValueError ''Invalid quantization method'')
      else ok \<lparr>qc_bits = bits, qc_method = method\<rparr>)"

datatype qmeta =
    LinearMeta real real string "nat list" int
  | QsgdMeta real "bytes option" "real list option" string "nat list" int

section \<open>One array\<close>

definition np_clip :: "int \<Rightarrow> int \<Rightarrow> int \<Rightarrow> int" where
  "np_clip lo hi x = max lo (min hi x)"

text \<open>\<open>astype(np.uint8)\<close> or \<open>astype(np.uint16)\<close>.\<close>

definition uint_cast :: "(int \<Rightarrow> int) \<Rightarrow> int \<Rightarrow> int \<Rightarrow> int" where
  "uint_cast wild bits x = (if 0 \<le> x \<and> x < (if bits \<le> 8 then 256 else 65536) then x else wild x)"

definition uint_dtype :: "int \<Rightarrow> string" where
  "uint_dtype bits = (if bits \<le> 8 then ''uint8'' else ''uint16'')"

definition num_levels :: "int \<Rightarrow> int" where
  "num_levels bits = 2 ^ nat bits"

definition linear_level :: "real \<Rightarrow> real \<Rightarrow> int \<Rightarrow> real \<Rightarrow> int" where
  "linear_level zero_point scale levels x = np_clip 0 (levels - 1) (np_round ((x - zero_point) / scale))"

definition quantize_linear :: "(int \<Rightarrow> int) \<Rightarrow> int \<Rightarrow> narray \<Rightarrow> (narray \<times> qmeta) result" where
  "quantize_linear wild bits a =
     (if na_data a = [] then raise (ValueError ''zero-size array to reduction operation'') else
      let lo = Min (set (na_data a)); hi = Max (set (na_data a)) in
      if hi = lo then
        ok (a\<lparr>na_dtype := ''uint8'', na_data := map (\<lambda>_. 0) (na_data a)\<rparr>,
            LinearMeta 0 lo (na_dtype a) (na_shape a) bits)
      else
        let scale = (hi - lo) / of_int (num_levels bits - 1) in
        ok (a\<lparr>na_dtype := uint_dtype bits,
              na_data := map (\<lambda>x. of_int (uint_cast wild bits (linear_level lo scale (num_levels bits) x))) (na_data a)\<rparr>,
            LinearMeta scale lo (na_dtype a) (na_shape a) bits))"

text \<open>\<open>np.packbits\<close> and \<open>np.unpackbits\<close>: eight bits to an octet, the first bit highest, padded with
  zeros.\<close>

definition pack8 :: "bool list \<Rightarrow> byte" where
  "pack8 bs = of_nat (foldl (\<lambda>n b. 2 * n + of_bool b) 0 (take 8 (bs @ replicate 8 False)))"

fun packbits :: "bool list \<Rightarrow> bytes" where
  "packbits [] = []"
| "packbits (b # bs) = pack8 (b # take 7 bs) # packbits (drop 7 bs)"

definition unpack8 :: "byte \<Rightarrow> bool list" where
  "unpack8 w = map (\<lambda>i. odd (unat w div 2 ^ i)) [7, 6, 5, 4, 3, 2, 1, 0]"

definition unpackbits :: "bytes \<Rightarrow> bool list" where
  "unpackbits ws = concat (map unpack8 ws)"

definition l2_norm :: "real list \<Rightarrow> real" where
  "l2_norm xs = sqrt (\<Sum>x\<leftarrow>xs. x\<^sup>2)"

definition qsgd_level :: "real \<Rightarrow> int \<Rightarrow> real \<Rightarrow> real \<Rightarrow> int" where
  "qsgd_level nrm levels x noise =
     np_clip 0 (levels - 1) \<lfloor>\<bar>x\<bar> / nrm * of_int levels + noise\<rfloor>"

definition quantize_qsgd :: "(int \<Rightarrow> int) \<Rightarrow> real list \<Rightarrow> int \<Rightarrow> narray \<Rightarrow> (narray \<times> qmeta) result" where
  "quantize_qsgd wild noise bits a =
     (let nrm = l2_norm (na_data a) in
      if nrm = 0 then
        ok (a\<lparr>na_dtype := ''uint8'', na_data := map (\<lambda>_. 0) (na_data a)\<rparr>,
            QsgdMeta 0 None None (na_dtype a) (na_shape a) bits)
      else
        ok (a\<lparr>na_dtype := uint_dtype bits,
              na_data := map (\<lambda>(x, u). of_int (uint_cast wild bits (qsgd_level nrm (num_levels bits) x u)))
                           (zip (na_data a) noise)\<rparr>,
            QsgdMeta nrm (Some (packbits (map (\<lambda>x. 0 \<le> x) (na_data a)))) None (na_dtype a) (na_shape a) bits))"

definition quantize_array ::
  "(int \<Rightarrow> int) \<Rightarrow> real list \<Rightarrow> quantization_config \<Rightarrow> narray \<Rightarrow> (narray \<times> qmeta option) result" where
  "quantize_array wild noise cfg a =
     (if \<not> floating (na_dtype a) then ok (a, None)
      else if qc_method cfg = ''linear'' then
        result_bind (quantize_linear wild (qc_bits cfg) a) (\<lambda>(q, m). ok (q, Some m))
      else if qc_method cfg = ''qsgd'' then
        result_bind (quantize_qsgd wild noise (qc_bits cfg) a) (\<lambda>(q, m). ok (q, Some m))
      else raise (ValueError ''Unknown quantization method''))"

fun dequantize_array :: "narray \<Rightarrow> qmeta \<Rightarrow> narray result" where
  "dequantize_array q (LinearMeta scale zero_point dtype shape bits) =
     (if scale = 0 then ok \<lparr>na_dtype = dtype, na_shape = shape, na_data = replicate (prod_list shape) (round_to dtype zero_point)\<rparr>
      else reshape dtype shape (map (\<lambda>x. x * scale + zero_point) (na_data q)))"
| "dequantize_array q (QsgdMeta nrm sign_bits legacy_sign dtype shape bits) =
     (let total = prod_list shape;
          sign = (case sign_bits of
              Some ws \<Rightarrow> map (\<lambda>b. if b then 1 else -1) (take total (unpackbits ws))
            | None \<Rightarrow> (case legacy_sign of Some s \<Rightarrow> s | None \<Rightarrow> replicate total 1))
      in if length sign \<noteq> length (na_data q) then raise (ValueError ''QSGD sign/quantized length mismatch'')
         else reshape dtype shape
           (map (\<lambda>(x, s). x / of_int (num_levels bits) * nrm * s) (zip (na_data q) sign)))"

section \<open>Models\<close>

text \<open>The metadata mirrors the model: one entry, an entry for every key, or nothing.\<close>

datatype qmeta_tree = QOne "qmeta option" | QKeys "(string \<times> qmeta option) list"

definition quantize_entry ::
  "(int \<Rightarrow> int) \<Rightarrow> (string \<Rightarrow> real list) \<Rightarrow> quantization_config \<Rightarrow> string \<times> pyval \<Rightarrow> (string \<times> pyval \<times> qmeta option) result" where
  "quantize_entry wild noise cfg = (\<lambda>(k, v). case v of
      PArr a \<Rightarrow> if floating (na_dtype a)
        then result_bind (quantize_array wild (noise k) cfg a) (\<lambda>(q, m). ok (k, PArr q, m))
        else ok (k, v, None)
    | _ \<Rightarrow> ok (k, v, None))"

definition quantize_weights ::
  "(int \<Rightarrow> int) \<Rightarrow> (string \<Rightarrow> real list) \<Rightarrow> quantization_config \<Rightarrow> pyval \<Rightarrow> (pyval \<times> qmeta_tree) result" where
  "quantize_weights wild noise cfg w = (case w of
      PArr a \<Rightarrow> result_bind (quantize_array wild (noise []) cfg a) (\<lambda>(q, m). ok (PArr q, QOne m))
    | PDict kvs \<Rightarrow> result_bind (result_map (quantize_entry wild noise cfg) kvs) (\<lambda>es.
        ok (PDict (map (\<lambda>(k, v, m). (k, v)) es), QKeys (map (\<lambda>(k, v, m). (k, m)) es)))
    | _ \<Rightarrow> ok (w, QKeys []))"

definition dequantize_entry :: "(string \<times> qmeta option) list \<Rightarrow> string \<times> pyval \<Rightarrow> (string \<times> pyval) result" where
  "dequantize_entry metas = (\<lambda>(k, v). case (map_of metas k, v) of
      (Some (Some m), PArr q) \<Rightarrow> result_bind (dequantize_array q m) (\<lambda>a. ok (k, PArr a))
    | _ \<Rightarrow> ok (k, v))"

definition dequantize_weights :: "pyval \<Rightarrow> qmeta_tree \<Rightarrow> pyval result" where
  "dequantize_weights w metas = (case (w, metas) of
      (PArr q, QOne (Some m)) \<Rightarrow> result_bind (dequantize_array q m) (\<lambda>a. ok (PArr a))
    | (PDict kvs, QKeys ms) \<Rightarrow> result_bind (result_map (dequantize_entry ms) kvs) (\<lambda>es. ok (PDict es))
    | _ \<Rightarrow> ok w)"

section \<open>The error of linear quantisation\<close>

lemma round_to_value [simp]: "np_cast d x = Fin y \<Longrightarrow> round_to d x = y"
  by (simp add: round_to_def)

lemma round_to_float64 [simp]: "round_to ''float64'' = (\<lambda>x. x)"
  by (rule ext) simp

lemma narray_holds: "narray_wf a \<Longrightarrow> x \<in> set (na_data a) \<Longrightarrow> np_cast (na_dtype a) x = Fin x"
  by (simp add: narray_wf_def list_all_iff)

lemma narray_round: "narray_wf a \<Longrightarrow> map (round_to (na_dtype a)) (na_data a) = na_data a"
  by (intro map_idI) (simp add: narray_holds)

text \<open>A number near a value of the array, rounded to its dtype.\<close>

lemma round_to_near:
  assumes "floating d" "np_cast d x = Fin x" "np_cast d lo = Fin lo" "np_cast d hi = Fin hi" "lo \<le> z" "z \<le> hi" "\<bar>z - x\<bar> \<le> s / 2"
  shows "\<bar>round_to d z - x\<bar> \<le> (if d = ''float64'' then s / 2 else s) \<and> lo \<le> round_to d z \<and> round_to d z \<le> hi"
proof -
  obtain y where y: "np_cast d z = Fin y" "lo \<le> y" "y \<le> hi"
    using np_cast_between [OF assms(3,4,5,6)] by blast
  have "\<bar>y - z\<bar> \<le> \<bar>x - z\<bar>"
    using np_cast_nearest [OF _ assms(2) y(1)] assms(1) by (simp add: floating_def)
  then have "\<bar>y - x\<bar> \<le> s" using assms(7) by linarith
  then show ?thesis using y assms(7) by auto
qed

lemma np_round_range: "0 \<le> x \<Longrightarrow> x \<le> of_int n \<Longrightarrow> 0 \<le> np_round x \<and> np_round x \<le> n"
proof -
  assume "0 \<le> x" "x \<le> of_int n"
  moreover have "of_int (np_round x) - x \<le> 1 / 2" "x - of_int (np_round x) \<le> 1 / 2"
    using np_round_near [of x] by linarith+
  ultimately have "-1 < real_of_int (np_round x)" "real_of_int (np_round x) < of_int n + 1" by linarith+
  then show ?thesis by linarith
qed

lemma num_levels_pos: "bits \<in> {4, 8, 16, 32} \<Longrightarrow> 15 \<le> num_levels bits - 1"
  by (auto simp: num_levels_def)

lemma num_levels_fit: "bits \<in> {4, 8, 16} \<Longrightarrow> num_levels bits \<le> (if bits \<le> 8 then 256 else 65536)"
  by (auto simp: num_levels_def)

text \<open>The level of one element.\<close>

lemma linear_level_error:
  assumes "lo \<le> x" "x \<le> hi" "lo < hi" "0 < n" "scale = (hi - lo) / of_int n"
  shows "0 \<le> linear_level lo scale (n + 1) x" "linear_level lo scale (n + 1) x \<le> n"
    "\<bar>of_int (linear_level lo scale (n + 1) x) * scale + lo - x\<bar> \<le> scale / 2"
proof -
  have s: "0 < scale" using assms by simp
  have "(x - lo) / scale \<le> of_int n" "0 \<le> (x - lo) / scale" using assms s by (simp_all add: field_simps)
  then have r: "0 \<le> np_round ((x - lo) / scale)" "np_round ((x - lo) / scale) \<le> n"
    using np_round_range by blast+
  then have l: "linear_level lo scale (n + 1) x = np_round ((x - lo) / scale)"
    by (simp add: linear_level_def np_clip_def)
  show "0 \<le> linear_level lo scale (n + 1) x" "linear_level lo scale (n + 1) x \<le> n" using l r by simp_all
  have "\<bar>of_int (np_round ((x - lo) / scale)) - (x - lo) / scale\<bar> * scale \<le> 1 / 2 * scale"
    using np_round_near s by (intro mult_right_mono) auto
  moreover have "of_int (np_round ((x - lo) / scale)) * scale + lo - x
      = (of_int (np_round ((x - lo) / scale)) - (x - lo) / scale) * scale"
    using s by (simp add: field_simps)
  ultimately show "\<bar>of_int (linear_level lo scale (n + 1) x) * scale + lo - x\<bar> \<le> scale / 2"
    using s by (simp add: l abs_mult)
qed

lemma linear_round_trip_elements:
  assumes "na_data a \<noteq> []" "bits \<in> {4, 8, 16}"
    and q: "quantize_linear wild bits a = ok (q, m)" and d: "dequantize_array q m = ok a'" and wf: "narray_wf a" "floating (na_dtype a)"
  defines "lo \<equiv> Min (set (na_data a))" and "hi \<equiv> Max (set (na_data a))"
  defines "scale \<equiv> (hi - lo) / of_int (num_levels bits - 1)"
  shows "na_shape a' = na_shape a \<and> na_dtype a' = na_dtype a \<and>
    list_all2 (\<lambda>x y. \<bar>y - x\<bar> \<le> (if na_dtype a = ''float64'' then scale / 2 else scale) \<and> lo \<le> y \<and> y \<le> hi)
      (na_data a) (na_data a')"
proof -
  have range: "lo \<le> x" "x \<le> hi" if "x \<in> set (na_data a)" for x using that assms(1) by (simp_all add: lo_def hi_def)
  have "lo \<in> set (na_data a)" "hi \<in> set (na_data a)" using assms(1) by (simp_all add: lo_def hi_def)
  then have ends: "np_cast (na_dtype a) lo = Fin lo" "np_cast (na_dtype a) hi = Fin hi" using narray_holds [OF wf(1)] by blast+
  show ?thesis
  proof (cases "hi = lo")
    case True
    then have "na_data a = replicate (prod_list (na_shape a)) lo"
      using range wf(1) by (metis narray_wf_def antisym replicate_eqI)
    moreover have "a' = \<lparr>na_dtype = na_dtype a, na_shape = na_shape a, na_data = replicate (prod_list (na_shape a)) lo\<rparr>"
      using q d True assms(1) ends by (auto simp: quantize_linear_def Let_def lo_def [symmetric] hi_def [symmetric])
    moreover have "scale = 0" using True by (simp add: scale_def)
    ultimately show ?thesis using True by (simp add: list_all2_conv_all_nth)
  next
    case False
    have n: "0 < num_levels bits - 1" using num_levels_pos [of bits] assms(2) by auto
    have lh: "lo < hi" using False range assms(1) by (metis hd_in_set order.strict_iff_order order_trans)
    then have s: "scale = (hi - lo) / of_int (num_levels bits - 1)" "scale \<noteq> 0" "0 < scale" using n by (simp_all add: scale_def)
    let ?l = "\<lambda>x. linear_level lo scale (num_levels bits) x"
    let ?z = "\<lambda>x. of_int (?l x) * scale + lo"
    note err = linear_level_error [OF _ _ lh n s(1), simplified]
    have fit: "uint_cast wild bits (?l x) = ?l x" if "x \<in> set (na_data a)" for x
      using err [OF range [OF that]] num_levels_fit [OF assms(2)] by (auto simp: uint_cast_def)
    have a': "a' = \<lparr>na_dtype = na_dtype a, na_shape = na_shape a, na_data = map (\<lambda>x. round_to (na_dtype a) (?z x)) (na_data a)\<rparr>"
      using q d False assms(1) fit s(2)
      by (auto simp: quantize_linear_def Let_def lo_def [symmetric] hi_def [symmetric] reshape_def s(1) comp_def
          split: if_splits cong: map_cong)
    have "\<bar>round_to (na_dtype a) (?z x) - x\<bar> \<le> (if na_dtype a = ''float64'' then scale / 2 else scale)
        \<and> lo \<le> round_to (na_dtype a) (?z x) \<and> round_to (na_dtype a) (?z x) \<le> hi" if x: "x \<in> set (na_data a)" for x
    proof (rule round_to_near [OF wf(2) narray_holds [OF wf(1) x] ends])
      have l: "0 \<le> ?l x" "?l x \<le> num_levels bits - 1" using err(1,2) [OF range [OF x]] by simp_all
      then show "lo \<le> ?z x" using s(3) by simp
      have "of_int (?l x) * scale \<le> of_int (num_levels bits - 1) * scale"
        using l(2) s(3) by (intro mult_right_mono) (simp_all del: of_int_diff)
      also have "\<dots> = hi - lo" using n by (simp add: s(1))
      finally show "?z x \<le> hi" by simp
      show "\<bar>?z x - x\<bar> \<le> scale / 2" using err(3) [OF range [OF x]] by simp
    qed
    then show ?thesis by (auto simp: a' list_all2_conv_all_nth)
  qed
qed

lemma dequantize_linear_total:
  assumes "narray_wf a" "quantize_linear wild bits a = ok (q, m)"
  shows "\<exists>a'. dequantize_array q m = ok a'"
proof -
  have "na_shape a = na_shape a \<and> length (na_data q) = length (na_data a)" and m: "\<exists>s z. m = LinearMeta s z (na_dtype a) (na_shape a) bits"
    using assms(2) by (auto simp: quantize_linear_def Let_def split: if_splits)
  with assms(1) show ?thesis by (auto simp: reshape_def narray_wf_def)
qed

text \<open>The step is the range of the array divided by the number of levels less one.\<close>

definition quantization_step :: "int \<Rightarrow> narray \<Rightarrow> real" where
  "quantization_step bits a = (Max (set (na_data a)) - Min (set (na_data a))) / of_int (num_levels bits - 1)"

definition quantization_error :: "int \<Rightarrow> narray \<Rightarrow> real" where
  "quantization_error bits a =
     (if na_dtype a = ''float64'' then quantization_step bits a / 2 else quantization_step bits a)"

lemma quantize_array_linear:
  assumes "narray_wf a" "na_data a \<noteq> []" "floating (na_dtype a)" "bits \<in> {4, 8, 16}"
    and cfg: "quantization_config_init bits ''linear'' = ok cfg"
  shows "\<exists>q m a'. quantize_array wild noise cfg a = ok (q, Some m) \<and> dequantize_array q m = ok a' \<and>
    na_shape a' = na_shape a \<and> na_dtype a' = na_dtype a \<and>
    list_all2 (\<lambda>x y. \<bar>y - x\<bar> \<le> quantization_error bits a \<and> Min (set (na_data a)) \<le> y \<and> y \<le> Max (set (na_data a)))
      (na_data a) (na_data a')"
proof -
  have c: "cfg = \<lparr>qc_bits = bits, qc_method = ''linear''\<rparr>"
    using cfg assms(4) by (auto simp: quantization_config_init_def split: if_splits)
  obtain q m where q: "quantize_linear wild bits a = ok (q, m)"
    using assms(2) by (simp add: quantize_linear_def Let_def) (metis (full_types))
  then obtain a' where d: "dequantize_array q m = ok a'"
    using dequantize_linear_total [OF assms(1) q] by blast
  have "quantize_array wild noise cfg a = ok (q, Some m)"
    using assms(3) q by (simp add: quantize_array_def c)
  with d linear_round_trip_elements [OF assms(2,4) q d assms(1,3)] show ?thesis
    unfolding quantization_error_def quantization_step_def by blast
qed

text \<open>Linear quantisation loses at most a step, and half a step in \<open>float64\<close>. With 4, 8 or 16 bits, quantising a non-empty
  floating-point array and dequantising it always succeeds and gives an array of the same shape and dtype
  whose elements lie within the range of the original and differ from it by at most half the scale, the range divided
  by the number of levels less one, before they are rounded to the dtype, so at most by the scale afterwards; a
  constant array comes back exactly.\<close>

theorem linear_quantization_error:
  assumes "narray_wf a" "na_data a \<noteq> []" "floating (na_dtype a)" "bits \<in> {4, 8, 16}"
    and cfg: "quantization_config_init bits ''linear'' = ok cfg"
  shows "\<exists>q m a'. quantize_array wild noise cfg a = ok (q, Some m) \<and> dequantize_array q m = ok a' \<and>
    na_shape a' = na_shape a \<and> na_dtype a' = na_dtype a \<and>
    list_all2 (\<lambda>x y. \<bar>y - x\<bar> \<le> quantization_error bits a \<and> Min (set (na_data a)) \<le> y \<and> y \<le> Max (set (na_data a)))
      (na_data a) (na_data a')"
  by (rule quantize_array_linear [OF assms])

lemma linear_quantization_error_witness:
  "\<exists>q m a'. quantize_array (\<lambda>x. x) [] \<lparr>qc_bits = 8, qc_method = ''linear''\<rparr>
      \<lparr>na_dtype = ''float64'', na_shape = [3], na_data = [0, 1, 1/3]\<rparr> = ok (q, Some m) \<and> dequantize_array q m = ok a'"
  using linear_quantization_error [of "\<lparr>na_dtype = ''float64'', na_shape = [3], na_data = [0, 1, 1/3]\<rparr>" 8
      "\<lparr>qc_bits = 8, qc_method = ''linear''\<rparr>" "\<lambda>x. x" "[]"]
  by (auto simp: narray_wf_def floating_def quantization_config_init_def)

text \<open>With 32 bits the levels do not fit the unsigned dtype: the largest element is cast out of range.\<close>

lemma quantization_32_bits_overflows:
  "\<exists>m. quantize_linear wild 32 \<lparr>na_dtype = d, na_shape = [2], na_data = [0, 1]\<rparr>
     = ok (\<lparr>na_dtype = ''uint16'', na_shape = [2], na_data = [0, of_int (wild 4294967295)]\<rparr>, m)"
  by (simp add: quantize_linear_def Let_def num_levels_def linear_level_def np_round_def np_clip_def uint_cast_def uint_dtype_def)

text \<open>The configuration accepts a method that quantisation refuses.\<close>

lemma stochastic_accepted_then_refused:
  "\<exists>cfg. quantization_config_init 8 ''stochastic'' = ok cfg \<and>
    (\<forall>a. floating (na_dtype a) \<longrightarrow> quantize_array wild noise cfg a = raise (ValueError ''Unknown quantization method''))"
  by (simp add: quantization_config_init_def quantize_array_def)

section \<open>QSGD\<close>

lemma fold_bit:
  "i < length bs \<Longrightarrow> odd (foldl (\<lambda>n b. 2 * n + of_bool b) (0 :: nat) bs div 2 ^ i) = bs ! (length bs - 1 - i)"
proof (induction bs arbitrary: i rule: rev_induct)
  case (snoc b bs)
  show ?case
  proof (cases i)
    case (Suc j)
    let ?v = "foldl (\<lambda>n b. 2 * n + of_bool b) (0 :: nat) bs"
    have "(2 * ?v + of_bool b) div 2 ^ Suc j = ?v div 2 ^ j"
      by (simp add: div_mult2_eq)
    moreover have "length bs - Suc j < length bs" using snoc.prems Suc by simp
    ultimately show ?thesis using snoc Suc by (simp add: nth_append)
  qed simp
qed simp

lemma fold_bits_less: "foldl (\<lambda>n b. 2 * n + of_bool b) (0 :: nat) bs < 2 ^ length bs"
  by (induction bs rule: rev_induct) auto

lemma length_unpack8 [simp]: "length (unpack8 w) = 8"
  by (simp add: unpack8_def)

lemma unpack_pack8: "unpack8 (pack8 bs) = take 8 (bs @ replicate 8 False)"
proof -
  define cs where "cs = take 8 (bs @ replicate 8 False)"
  have len: "length cs = 8" by (simp add: cs_def)
  have "unat (pack8 bs) = foldl (\<lambda>n b. 2 * n + of_bool b) 0 cs"
    using fold_bits_less [of cs] len by (simp add: pack8_def cs_def unat_of_nat)
  then have key: "odd (unat (pack8 bs) div 2 ^ i) = cs ! (7 - i)" if "i < 8" for i
    using fold_bit [of i cs] len that by simp
  have "unpack8 (pack8 bs) = map (\<lambda>i. cs ! (7 - i)) [7, 6, 5, 4, 3, 2, 1, 0]"
    unfolding unpack8_def
  proof (rule map_cong [OF refl])
    fix i :: nat assume "i \<in> set [7, 6, 5, 4, 3, 2, 1, 0]"
    then have "i < 8" by auto
    then show "odd (unat (pack8 bs) div 2 ^ i) = cs ! (7 - i)" by (rule key)
  qed
  also have "\<dots> = cs" using len by (intro nth_equalityI) (auto simp: less_Suc_eq numeral_eq_Suc)
  finally show ?thesis by (simp add: cs_def)
qed

lemma take_unpack_pack: "take (length bs) (unpackbits (packbits bs)) = bs"
proof (induction bs rule: packbits.induct)
  case (2 b bs)
  have u: "unpackbits (packbits (b # bs)) = take 8 ((b # take 7 bs) @ replicate 8 False) @ unpackbits (packbits (drop 7 bs))"
    by (simp add: unpackbits_def unpack_pack8)
  show ?case
  proof (cases "7 \<le> length bs")
    case True
    then have "take 8 ((b # take 7 bs) @ replicate 8 False) = b # take 7 bs" by simp
    moreover have "length (b # bs) = 8 + length (drop 7 bs)" using True by simp
    ultimately show ?thesis using 2 u True
      by (simp add: take_Cons' min_def del: packbits.simps)
  next
    case False
    then show ?thesis unfolding u by (simp add: take_Cons')
  qed
qed (simp add: unpackbits_def)

lemma l2_norm_ge: "x \<in> set xs \<Longrightarrow> \<bar>x\<bar> \<le> l2_norm xs"
proof -
  assume "x \<in> set xs"
  then have "x\<^sup>2 \<le> (\<Sum>y\<leftarrow>xs. y\<^sup>2)" by (intro member_le_sum_list) (auto simp: rev_image_eqI)
  then have "sqrt (x\<^sup>2) \<le> l2_norm xs" unfolding l2_norm_def by (rule real_sqrt_le_mono)
  then show ?thesis by simp
qed

lemma l2_norm_nonneg [simp]: "0 \<le> l2_norm xs"
  by (auto simp: l2_norm_def intro!: sum_list_nonneg)

lemma qsgd_level_error:
  assumes "\<bar>x\<bar> \<le> n" "0 < n" "0 \<le> u" "u < 1" "0 < levels"
  shows "0 \<le> qsgd_level n levels x u" "qsgd_level n levels x u < levels"
    "\<bar>of_int (qsgd_level n levels x u) / of_int levels * n - \<bar>x\<bar>\<bar> \<le> n / of_int levels"
proof -
  define v where "v = \<bar>x\<bar> / n * of_int levels"
  have v: "0 \<le> v" "v \<le> of_int levels" using assms by (simp_all add: v_def field_simps)
  define k where "k = qsgd_level n levels x u"
  have k: "k = np_clip 0 (levels - 1) \<lfloor>v + u\<rfloor>" by (simp add: k_def qsgd_level_def v_def)
  have f: "0 \<le> \<lfloor>v + u\<rfloor>" "of_int \<lfloor>v + u\<rfloor> \<le> v + u" "v + u < of_int \<lfloor>v + u\<rfloor> + 1" using v assms by linarith+
  show "0 \<le> qsgd_level n levels x u" "qsgd_level n levels x u < levels"
    using f assms(5) by (auto simp: k_def [symmetric] k np_clip_def)
  have "\<bar>of_int k - v\<bar> \<le> 1"
  proof (cases "\<lfloor>v + u\<rfloor> \<le> levels - 1")
    case True
    then have "k = \<lfloor>v + u\<rfloor>" using f by (simp add: k np_clip_def)
    then show ?thesis unfolding abs_le_iff using f(2,3) assms(3,4) by linarith
  next
    case False
    then have "k = levels - 1" using assms(5) by (simp add: k np_clip_def)
    moreover have "of_int levels \<le> v + u" using False f(2) by linarith
    ultimately show ?thesis using v assms(4) by (simp add: abs_le_iff)
  qed
  moreover have "of_int k / of_int levels * n - \<bar>x\<bar> = (of_int k - v) * (n / of_int levels)"
    using assms by (simp add: v_def field_simps)
  ultimately have "\<bar>of_int k / of_int levels * n - \<bar>x\<bar>\<bar> \<le> 1 * (n / of_int levels)"
    using assms by (simp only: abs_mult) (intro mult_mono, auto)
  then show "\<bar>of_int (qsgd_level n levels x u) / of_int levels * n - \<bar>x\<bar>\<bar> \<le> n / of_int levels"
    by (simp add: k_def)
qed

text \<open>QSGD: whatever the noise, a \<open>float64\<close> array comes back with every element on its side of zero and off by at
  most one level.\<close>

theorem qsgd_error:
  assumes "narray_wf a \<and> na_dtype a = ''float64''" "l2_norm (na_data a) \<noteq> 0" "bits \<in> {4, 8, 16}" "length noise = length (na_data a)"
    "list_all (\<lambda>u. 0 \<le> u \<and> u < 1) noise" "quantize_qsgd wild noise bits a = ok (q, m)"
  shows "\<exists>a'. dequantize_array q m = ok a' \<and> na_shape a' = na_shape a \<and>
    list_all2 (\<lambda>x y. \<bar>y - x\<bar> \<le> l2_norm (na_data a) / of_int (num_levels bits)) (na_data a) (na_data a')"
proof -
  define n where "n = l2_norm (na_data a)"
  let ?L = "num_levels bits"
  let ?k = "\<lambda>x u. qsgd_level n ?L x u"
  have n: "0 < n" using assms(2) l2_norm_nonneg [of "na_data a"] by (simp add: n_def less_le)
  have L: "0 < ?L" using num_levels_pos [of bits] assms(3) by auto
  have elem: "uint_cast wild bits (?k x u) = ?k x u \<and> \<bar>of_int (?k x u) / of_int ?L * n - \<bar>x\<bar>\<bar> \<le> n / of_int ?L"
    if "(x, u) \<in> set (zip (na_data a) noise)" for x u
  proof -
    have "\<bar>x\<bar> \<le> n" "0 \<le> u" "u < 1"
      using that assms(5) l2_norm_ge by (auto simp: n_def list_all_iff dest: set_zip_leftD set_zip_rightD)
    from qsgd_level_error [OF this(1) n this(2,3) L] num_levels_fit [OF assms(3)]
    show ?thesis by (auto simp: uint_cast_def)
  qed
  let ?qs = "map (\<lambda>(x, u). real_of_int (?k x u)) (zip (na_data a) noise)"
  let ?signs = "map (\<lambda>x. if 0 \<le> x then 1 else - 1 :: real) (na_data a)"
  have q: "na_data q = ?qs" "m = QsgdMeta n (Some (packbits (map (\<lambda>x. 0 \<le> x) (na_data a)))) None (na_dtype a) (na_shape a) bits"
    using assms(2,6) elem by (auto simp: quantize_qsgd_def Let_def n_def [symmetric])
  have tk: "take (prod_list (na_shape a)) (unpackbits (packbits (map (\<lambda>x. 0 \<le> x) (na_data a)))) = map (\<lambda>x. 0 \<le> x) (na_data a)"
    using take_unpack_pack [of "map (\<lambda>x. 0 \<le> x) (na_data a)"] assms(1) by (simp add: narray_wf_def)
  have d: "dequantize_array q m = ok \<lparr>na_dtype = na_dtype a, na_shape = na_shape a,
      na_data = map (\<lambda>(x, s). x / of_int ?L * n * s) (zip ?qs ?signs)\<rparr>"
    unfolding q(2) dequantize_array.simps Let_def option.case tk
    using assms(1,4) by (auto simp add: q(1) reshape_def narray_wf_def comp_def)
  have "list_all2 (\<lambda>x y. \<bar>y - x\<bar> \<le> n / of_int ?L) (na_data a) (map (\<lambda>(x, s). x / of_int ?L * n * s) (zip ?qs ?signs))"
  proof (rule list_all2_all_nthI)
    fix i assume i: "i < length (na_data a)"
    let ?x = "na_data a ! i" and ?u = "noise ! i"
    have "(?x, ?u) \<in> set (zip (na_data a) noise)" using i assms(4) by (auto simp: set_zip)
    then have "\<bar>of_int (?k ?x ?u) / of_int ?L * n - \<bar>?x\<bar>\<bar> \<le> n / of_int ?L" using elem by blast
    then show "\<bar>map (\<lambda>(x, s). x / of_int ?L * n * s) (zip ?qs ?signs) ! i - ?x\<bar> \<le> n / of_int ?L"
      using i assms(4) by (cases "0 \<le> ?x") (auto simp: abs_le_iff)
  qed (use assms(4) in simp)
  with d show ?thesis by (simp add: n_def)
qed

lemma qsgd_error_example:
  "\<exists>q m a'. quantize_qsgd (\<lambda>x. x) [0, 0] 8 \<lparr>na_dtype = ''float64'', na_shape = [2], na_data = [3, -4]\<rparr> = ok (q, m)
     \<and> dequantize_array q m = ok a'"
proof -
  let ?a = "\<lparr>na_dtype = ''float64'', na_shape = [2], na_data = [3, -4 :: real]\<rparr>"
  have n: "l2_norm (na_data ?a) \<noteq> 0" by (simp add: l2_norm_def)
  then obtain q m where q: "quantize_qsgd (\<lambda>x. x) [0, 0] 8 ?a = ok (q, m)"
    by (simp add: quantize_qsgd_def Let_def)
  from qsgd_error [OF _ n _ _ _ q] show ?thesis using q by (auto simp: narray_wf_def)
qed

end
