(* ===== verification/Weight_Compression.thy ===== *)
theory Weight_Compression
  imports Quantization
begin

text \<open>
  The rest of the compression pipeline (\<open>serialization/sparsification.py\<close>, \<open>error_feedback.py\<close>,
  \<open>compression.py\<close>): top-k sparsification, deltas with tombstones, error feedback, and the two pipelines
  that chain them (a compression that raises does not return the error-feedback state it may have
  touched). Deltas round every operation to \<open>float64\<close>; the arithmetic of the error feedback is exact. Broadcasting between arrays of different shapes is not modelled: it raises
  \<open>ValueError\<close>. \<open>np.argpartition\<close> is the parameter \<open>pick\<close>; model serialisation and zlib are
  parameters of the pipelines.
\<close>

section \<open>Arithmetic on arrays\<close>

definition np_zip :: "(real \<Rightarrow> real \<Rightarrow> real) \<Rightarrow> narray \<Rightarrow> narray \<Rightarrow> narray result" where
  "np_zip f a b =
     (if na_shape a = na_shape b \<and> length (na_data a) = length (na_data b)
      then ok \<lparr>na_dtype = ''float64'', na_shape = na_shape a, na_data = map2 f (na_data a) (na_data b)\<rparr>
      else raise (ValueError ''operands could not be broadcast together''))"

definition astype :: "string \<Rightarrow> narray \<Rightarrow> narray" where
  "astype d a = a\<lparr>na_dtype := d, na_data := map (round_to d) (na_data a)\<rparr>"

fun array_of :: "pyval \<Rightarrow> narray result" where
  "array_of (PArr a) = ok a"
| "array_of _ = raise AttributeError"

section \<open>Sparsification\<close>

record sparsification_config =
  sc_top_k_ratio :: real
  sc_method :: string
  sc_min_sparsity :: real
  sc_max_sparsity :: real

definition sparsification_config_init ::
  "real \<Rightarrow> string \<Rightarrow> real \<Rightarrow> real \<Rightarrow> real option \<Rightarrow> sparsification_config result" where
  "sparsification_config_init top_k_ratio method min_sparsity max_sparsity target_sparsity =
     (let ratio = (case target_sparsity of None \<Rightarrow> top_k_ratio | Some t \<Rightarrow> 1 - t) in
      if \<not> (0 \<le> ratio \<and> ratio \<le> 1) then raise (ValueError ''Invalid top_k_ratio'')
      else if method \<notin> {''top_k'', ''random'', ''magnitude''} then raise (ValueError ''Invalid sparsification method'')
      else if \<not> (0 \<le> min_sparsity \<and> min_sparsity \<le> max_sparsity \<and> max_sparsity \<le> 1)
        then raise (ValueError ''Invalid sparsity bounds'')
      else ok \<lparr>sc_top_k_ratio = ratio, sc_method = method, sc_min_sparsity = min_sparsity, sc_max_sparsity = max_sparsity\<rparr>)"

datatype smeta = DenseMeta "nat list" string | SparseMeta nat nat "nat list" string

definition sparse_dict :: "nat list \<Rightarrow> string \<Rightarrow> real list \<Rightarrow> pyval" where
  "sparse_dict idx d vals = PDict
     [(''__sparse_weight__'', PTrue),
      (''indices'', PArr \<lparr>na_dtype = ''int32'', na_shape = [length idx], na_data = map real idx\<rparr>),
      (''values'', PArr \<lparr>na_dtype = d, na_shape = [length vals], na_data = vals\<rparr>)]"

text \<open>\<open>np.argpartition(abs_flat, -k)[-k:]\<close> is \<open>pick abs_flat k\<close>: the positions of \<open>k\<close> largest values.\<close>

type_synonym picker = "real list \<Rightarrow> nat \<Rightarrow> nat list"

definition kept_count :: "real \<Rightarrow> nat \<Rightarrow> nat" where
  "kept_count ratio tot = max 1 (nat (py_int (real tot * ratio)))"

definition sparsify_array :: "picker \<Rightarrow> sparsification_config \<Rightarrow> narray \<Rightarrow> (pyval \<times> smeta option) result" where
  "sparsify_array pick cfg a =
     (if \<not> floating (na_dtype a) then ok (PArr a, None) else
      let tot = length (na_data a); k = kept_count (sc_top_k_ratio cfg) tot in
      if sc_method cfg = ''top_k'' then
        if tot \<le> k then ok (PArr a, Some (DenseMeta (na_shape a) (na_dtype a)))
        else let idx = sort (pick (map abs (na_data a)) k) in
          ok (sparse_dict idx (na_dtype a) (map (\<lambda>i. round_to (na_dtype a) (na_data a ! i)) idx),
              Some (SparseMeta k tot (na_shape a) (na_dtype a)))
      else raise (ValueError ''Unknown sparsification method''))"

datatype smeta_tree = SOne "smeta option" | SKeys "(string \<times> smeta option) list"

definition sparsify_entry :: "picker \<Rightarrow> sparsification_config \<Rightarrow> string \<times> pyval \<Rightarrow> (string \<times> pyval \<times> smeta option) result" where
  "sparsify_entry pick cfg = (\<lambda>(k, v). case v of
      PArr a \<Rightarrow> if floating (na_dtype a)
        then result_bind (sparsify_array pick cfg a) (\<lambda>(s, m). ok (k, s, m)) else ok (k, v, None)
    | _ \<Rightarrow> ok (k, v, None))"

definition sparsify_weights :: "picker \<Rightarrow> sparsification_config \<Rightarrow> pyval \<Rightarrow> (pyval \<times> smeta_tree) result" where
  "sparsify_weights pick cfg w = (case w of
      PArr a \<Rightarrow> result_bind (sparsify_array pick cfg a) (\<lambda>(s, m). ok (s, SOne m))
    | PDict kvs \<Rightarrow> result_bind (result_map (sparsify_entry pick cfg) kvs) (\<lambda>es.
        ok (PDict (map (\<lambda>(k, v, m). (k, v)) es), SKeys (map (\<lambda>(k, v, m). (k, m)) es)))
    | _ \<Rightarrow> ok (w, SKeys []))"

text \<open>\<open>result[indices] = values\<close>.\<close>

definition scatter :: "real list \<Rightarrow> nat list \<Rightarrow> real list \<Rightarrow> real list result" where
  "scatter xs idx vals =
     (if length idx \<noteq> length vals then raise (ValueError ''shape mismatch'')
      else if \<not> list_all (\<lambda>i. i < length xs) idx then raise IndexError
      else ok (foldl (\<lambda>ys (i, v). ys[i := v]) xs (zip idx vals)))"

definition is_sparse_dict :: "(string \<times> pyval) list \<Rightarrow> bool" where
  "is_sparse_dict kvs \<longleftrightarrow> map_of kvs ''__sparse_weight__'' = Some PTrue"

definition desparsify_array :: "pyval \<Rightarrow> smeta \<Rightarrow> pyval option \<Rightarrow> pyval result" where
  "desparsify_array w meta base = (case meta of
      DenseMeta _ _ \<Rightarrow> (case base of Some b \<Rightarrow> ok b | None \<Rightarrow> ok w)
    | SparseMeta k tot shape d \<Rightarrow> (case w of
        PDict kvs \<Rightarrow>
          if \<not> is_sparse_dict kvs then raise AttributeError else
          (case (map_of kvs ''indices'', map_of kvs ''values'') of
             (Some (PArr idx), Some (PArr vals)) \<Rightarrow>
               result_bind (case base of None \<Rightarrow> ok (replicate tot 0)
                 | Some b \<Rightarrow> result_bind (array_of b) (\<lambda>a. ok (na_data a))) (\<lambda>start.
               result_bind (scatter start (map (\<lambda>x. nat \<lfloor>x\<rfloor>) (na_data idx)) (na_data vals)) (\<lambda>xs.
               result_bind (reshape d shape xs) (\<lambda>a. ok (PArr a))))
           | _ \<Rightarrow> raise KeyError)
      | PArr s \<Rightarrow>
          result_bind (case base of None \<Rightarrow> ok s
            | Some b \<Rightarrow> result_bind (array_of b) (\<lambda>a. np_zip (+) a s)) (\<lambda>r.
          result_bind (reshape d shape (na_data r)) (\<lambda>a. ok (PArr a)))
      | _ \<Rightarrow> raise AttributeError))"

definition desparsify_entry :: "(string \<times> smeta option) list \<Rightarrow> pyval option \<Rightarrow> string \<times> pyval \<Rightarrow> (string \<times> pyval) result" where
  "desparsify_entry metas base = (\<lambda>(k, v).
     let base_dict = (case base of Some (PDict b) \<Rightarrow> Some b | _ \<Rightarrow> None) in
     case map_of metas k of
       Some (Some m) \<Rightarrow> result_bind (desparsify_array v m
           (case base_dict of Some b \<Rightarrow> map_of b k | None \<Rightarrow> None)) (\<lambda>r. ok (k, r))
     | _ \<Rightarrow> ok (k, case base_dict of Some b \<Rightarrow> dict_get b k v | None \<Rightarrow> v))"

definition base_array :: "pyval option \<Rightarrow> pyval option" where
  "base_array base = (case base of Some (PArr a) \<Rightarrow> Some (PArr a) | _ \<Rightarrow> None)"

definition desparsify_weights :: "pyval \<Rightarrow> smeta_tree \<Rightarrow> pyval option \<Rightarrow> pyval result" where
  "desparsify_weights w metas base = (case w of
      PDict kvs \<Rightarrow>
        if is_sparse_dict kvs then
          (case metas of SOne (Some m) \<Rightarrow> desparsify_array w m (base_array base)
           | _ \<Rightarrow> ok (case base_array base of Some b \<Rightarrow> b | None \<Rightarrow> w))
        else (case metas of
            SKeys ms \<Rightarrow> result_bind (result_map (desparsify_entry ms base) kvs) (\<lambda>es. ok (PDict es))
          | SOne _ \<Rightarrow> raise AttributeError)
    | PArr _ \<Rightarrow> (case metas of
          SOne (Some m) \<Rightarrow> desparsify_array w m (base_array base)
        | _ \<Rightarrow> ok w)
    | _ \<Rightarrow> ok w)"

section \<open>Deltas\<close>

text \<open>A delta is taken and applied on \<open>float64\<close> operands, and each result is rounded to \<open>float64\<close>; the result of
  applying it is then converted to the dtype of the base.\<close>

definition float64_sub :: "real \<Rightarrow> real \<Rightarrow> real" where
  "float64_sub x y = float64_round (float64_round x - float64_round y)"

definition float64_add :: "real \<Rightarrow> real \<Rightarrow> real" where
  "float64_add x y = float64_round (float64_round x + float64_round y)"

definition delta_entry :: "(string \<times> pyval) list \<Rightarrow> string \<times> pyval \<Rightarrow> (string \<times> pyval) result" where
  "delta_entry base = (\<lambda>(k, v). case (map_of base k, v) of
      (Some b, PArr a) \<Rightarrow> result_bind (array_of b) (\<lambda>b. result_bind (np_zip float64_sub a b) (\<lambda>d. ok (k, PArr d)))
    | _ \<Rightarrow> ok (k, v))"

definition compute_delta :: "pyval \<Rightarrow> pyval \<Rightarrow> pyval result" where
  "compute_delta current base = (case current of
      PArr a \<Rightarrow> result_bind (array_of base) (\<lambda>b. result_bind (np_zip float64_sub a b) (\<lambda>d. ok (PArr d)))
    | PDict cur \<Rightarrow> (case base of
        PDict b \<Rightarrow> result_bind (result_map (delta_entry b) cur) (\<lambda>ds.
          ok (PDict (ds @ map (\<lambda>(k, _). (k, PNone)) (filter (\<lambda>(k, _). map_of cur k = None) b))))
      | _ \<Rightarrow> raise TypeError)
    | _ \<Rightarrow> ok current)"

text \<open>\<open>None\<close> where the entry is deleted.\<close>

definition apply_entry :: "(string \<times> pyval) list \<Rightarrow> string \<times> pyval \<Rightarrow> (string \<times> pyval) option result" where
  "apply_entry delta = (\<lambda>(k, b). case map_of delta k of
      None \<Rightarrow> ok (Some (k, b))
    | Some PNone \<Rightarrow> ok None
    | Some (PArr d) \<Rightarrow> result_bind (array_of b) (\<lambda>a. result_bind (np_zip float64_add a d)
        (\<lambda>r. ok (Some (k, PArr (astype (na_dtype a) r)))))
    | Some _ \<Rightarrow> ok (Some (k, b)))"

definition apply_delta :: "pyval \<Rightarrow> pyval \<Rightarrow> pyval result" where
  "apply_delta base delta = (case base of
      PArr a \<Rightarrow> result_bind (array_of delta) (\<lambda>d. result_bind (np_zip float64_add a d)
        (\<lambda>r. ok (PArr (astype (na_dtype a) r))))
    | PDict b \<Rightarrow> (case delta of
        PDict d \<Rightarrow> result_bind (result_map (apply_entry d) b) (\<lambda>rs.
          ok (PDict (concat (map (\<lambda>r. case r of None \<Rightarrow> [] | Some e \<Rightarrow> [e]) rs)
            @ filter (\<lambda>(k, v). map_of b k = None \<and> v \<noteq> PNone) d)))
      | _ \<Rightarrow> raise TypeError)
    | _ \<Rightarrow> ok base)"

text \<open>The cascade summation.\<close>

function pairwise_sum :: "real list \<Rightarrow> real" where
  "pairwise_sum xs = (case xs of [] \<Rightarrow> 0 | [x] \<Rightarrow> x | _ \<Rightarrow>
     (let mid = length xs div 2 in pairwise_sum (take mid xs) + pairwise_sum (drop mid xs)))"
  by pat_completeness auto
termination by (relation "measure length") auto

declare pairwise_sum.simps [simp del]

section \<open>Error feedback\<close>

record error_feedback =
  ef_enabled :: bool
  ef_momentum :: real
  ef_max_residual_norm :: "real option"
  ef_residuals :: "(string, narray) pydict"
  ef_round :: nat

definition error_feedback_init :: "bool \<Rightarrow> real \<Rightarrow> real option \<Rightarrow> error_feedback" where
  "error_feedback_init enabled momentum cap =
     \<lparr>ef_enabled = enabled, ef_momentum = momentum, ef_max_residual_norm = cap, ef_residuals = [], ef_round = 0\<rparr>"

definition SINGLE :: string where "SINGLE = ''__single__''"

definition ef_apply_array :: "error_feedback \<Rightarrow> string \<Rightarrow> narray \<Rightarrow> narray result" where
  "ef_apply_array st k delta = (case map_of (ef_residuals st) k of
      None \<Rightarrow> ok delta
    | Some r \<Rightarrow> np_zip (+) delta r)"

definition ef_apply_entry :: "error_feedback \<Rightarrow> string \<times> pyval \<Rightarrow> (string \<times> pyval) result" where
  "ef_apply_entry st = (\<lambda>(k, v). case v of
      PArr a \<Rightarrow> if floating (na_dtype a) then result_bind (ef_apply_array st k a) (\<lambda>r. ok (k, PArr r)) else ok (k, v)
    | _ \<Rightarrow> ok (k, v))"

definition ef_apply :: "error_feedback \<Rightarrow> pyval \<Rightarrow> pyval result" where
  "ef_apply st delta = (if \<not> ef_enabled st then ok delta else case delta of
      PArr a \<Rightarrow> result_bind (ef_apply_array st SINGLE a) (\<lambda>r. ok (PArr r))
    | PDict kvs \<Rightarrow> result_bind (result_map (ef_apply_entry st) kvs) (\<lambda>es. ok (PDict es))
    | _ \<Rightarrow> ok delta)"

definition blend :: "real \<Rightarrow> real list option \<Rightarrow> real list \<Rightarrow> real list" where
  "blend beta old new = (case old of
      Some o' \<Rightarrow> if 0 < beta then map2 (\<lambda>x y. beta * x + (1 - beta) * y) o' new else new
    | None \<Rightarrow> new)"

definition cap_norm :: "real option \<Rightarrow> real list \<Rightarrow> real list" where
  "cap_norm cap xs = (case cap of
      None \<Rightarrow> xs
    | Some c \<Rightarrow> if c < l2_norm xs then map (\<lambda>x. x * (c / l2_norm xs)) xs else xs)"

definition ef_update_array :: "string \<Rightarrow> narray \<Rightarrow> narray \<Rightarrow> error_feedback \<Rightarrow> error_feedback result" where
  "ef_update_array k corrected compressed st =
     result_bind (np_zip (-) corrected compressed) (\<lambda>d.
       let old = map_of (ef_residuals st) k in
       if 0 < ef_momentum st \<and> (case old of Some r \<Rightarrow> na_shape r \<noteq> na_shape d \<or> length (na_data r) \<noteq> length (na_data d) | None \<Rightarrow> False)
       then raise (ValueError ''operands could not be broadcast together'')
       else let r = d\<lparr>na_data := cap_norm (ef_max_residual_norm st) (blend (ef_momentum st) (map_option na_data old) (na_data d))\<rparr>
         in ok (st\<lparr>ef_residuals := AList.update k r (ef_residuals st)\<rparr>))"

text \<open>The loop over the keys; an exception leaves the keys before it updated.\<close>

fun ef_update_keys :: "(string \<times> pyval) list \<Rightarrow> pyval \<Rightarrow> error_feedback \<Rightarrow> error_feedback \<times> unit result" where
  "ef_update_keys [] compressed st = (st, ok ())"
| "ef_update_keys ((k, v) # kvs) compressed st = (case v of
      PArr a \<Rightarrow> if \<not> floating (na_dtype a) then ef_update_keys kvs compressed st else
        (let s = (case compressed of
             PDict cs \<Rightarrow> dict_get cs k (PArr (a\<lparr>na_data := map (\<lambda>_. 0) (na_data a)\<rparr>))
           | _ \<Rightarrow> compressed)
         in case result_bind (array_of s) (\<lambda>c. ef_update_array k a c st) of
              Inl e \<Rightarrow> (st, raise e)
            | Inr st' \<Rightarrow> ef_update_keys kvs compressed st')
    | _ \<Rightarrow> ef_update_keys kvs compressed st)"

definition ef_update :: "pyval \<Rightarrow> pyval \<Rightarrow> error_feedback \<Rightarrow> error_feedback \<times> unit result" where
  "ef_update corrected compressed st =
     (if \<not> ef_enabled st then (st, ok ()) else
      let st1 = st\<lparr>ef_round := Suc (ef_round st)\<rparr> in
      case corrected of
        PArr a \<Rightarrow> (case result_bind (array_of compressed) (\<lambda>c. ef_update_array SINGLE a c st1) of
            Inl e \<Rightarrow> (st1, raise e) | Inr st2 \<Rightarrow> (st2, ok ()))
      | PDict kvs \<Rightarrow> ef_update_keys kvs compressed st1
      | _ \<Rightarrow> (st1, ok ()))"

definition ef_reset :: "error_feedback \<Rightarrow> error_feedback" where
  "ef_reset st = st\<lparr>ef_residuals := [], ef_round := 0\<rparr>"

definition total_residual_norm :: "error_feedback \<Rightarrow> real" where
  "total_residual_norm st = sqrt (\<Sum>(k, r)\<leftarrow>ef_residuals st. \<Sum>x\<leftarrow>na_data r. x\<^sup>2)"

section \<open>The pipelines\<close>

record compression_config =
  cc_quantization :: "quantization_config option"
  cc_sparsification :: "sparsification_config option"
  cc_delta_enabled :: bool
  cc_zlib_compression :: bool
  cc_zlib_threshold_bytes :: nat
  cc_error_feedback :: bool
  cc_weight_dtype :: "string option"

text \<open>\<open>__post_init__\<close>: the alias \<open>quantization_bits\<close> makes a quantisation configuration; the alias
  \<open>sparsity\<close> is stored and never read.\<close>

definition compression_config_init :: "compression_config \<Rightarrow> int option \<Rightarrow> compression_config result" where
  "compression_config_init cfg quantization_bits = (case (cc_quantization cfg, quantization_bits) of
      (None, Some bits) \<Rightarrow> result_bind (quantization_config_init bits ''linear'') (\<lambda>q. ok (cfg\<lparr>cc_quantization := Some q\<rparr>))
    | _ \<Rightarrow> ok cfg)"

record compression_meta =
  cm_steps :: "string list"
  cm_has_delta :: bool
  cm_original_dtypes :: "(string, string) pydict"
  cm_sparse_meta :: "smeta_tree option"
  cm_quant_meta :: "qmeta_tree option"

fun record_dtypes :: "pyval \<Rightarrow> (string, string) pydict" where
  "record_dtypes (PDict kvs) = concat (map (\<lambda>(k, v). case v of PArr a \<Rightarrow> [(k, na_dtype a)] | _ \<Rightarrow> []) kvs)"
| "record_dtypes (PArr a) = [(SINGLE, na_dtype a)]"
| "record_dtypes _ = []"

definition as_dtype :: "string \<Rightarrow> pyval \<Rightarrow> pyval" where
  "as_dtype d v = (case v of PArr a \<Rightarrow> PArr (astype d a) | _ \<Rightarrow> v)"

text \<open>\<open>np.dtype(name)\<close>: numpy itself has no \<open>bfloat16\<close>.\<close>

definition downcast_weights :: "string \<Rightarrow> pyval \<Rightarrow> pyval result" where
  "downcast_weights d w = (if \<not> floating d then raise TypeError else
     ok (case w of PDict kvs \<Rightarrow> PDict (map (\<lambda>(k, v). (k, as_dtype d v)) kvs) | _ \<Rightarrow> as_dtype d w))"

definition upcast_weights :: "(string, string) pydict \<Rightarrow> pyval \<Rightarrow> pyval" where
  "upcast_weights ds w = (case w of
      PDict kvs \<Rightarrow> PDict (map (\<lambda>(k, v). (k, case map_of ds k of Some d \<Rightarrow> as_dtype d v | None \<Rightarrow> v)) kvs)
    | _ \<Rightarrow> as_dtype (dict_get ds SINGLE ''float32'') w)"

text \<open>The outside functions: picking, casting, noise, serialisation and zlib. A \<open>decompressobj\<close> is the
  history of its calls, each the data and \<open>max_length\<close>: \<open>co_inflate\<close> gives the output of the last of
  them and \<open>co_flush\<close> that of the final \<open>flush()\<close>.\<close>

record codecs =
  co_pick :: picker
  co_wild :: "int \<Rightarrow> int"
  co_noise :: "string \<Rightarrow> real list"
  co_serialize :: "pyval \<Rightarrow> bytes"
  co_deserialize :: "bytes \<Rightarrow> pyval result"
  co_zip :: "bytes \<Rightarrow> bytes"
  co_inflate :: "(bytes \<times> int) list \<Rightarrow> bytes result"
  co_flush :: "(bytes \<times> int) list \<Rightarrow> bytes result"

text \<open>The numbered steps of \<open>compress_weights\<close>, each with its entry in \<open>meta["steps"]\<close>.\<close>

definition step_downcast :: "compression_config \<Rightarrow> pyval \<Rightarrow> (pyval \<times> string list \<times> (string, string) pydict) result" where
  "step_downcast cfg w = (case cc_weight_dtype cfg of
      None \<Rightarrow> ok (w, [], [])
    | Some d \<Rightarrow> result_bind (downcast_weights d w) (\<lambda>w'. ok (w', [''downcast''], record_dtypes w)))"

definition step_delta :: "compression_config \<Rightarrow> pyval option \<Rightarrow> pyval \<Rightarrow> (pyval \<times> string list \<times> bool) result" where
  "step_delta cfg base w = (case (cc_delta_enabled cfg, base) of
      (True, Some b) \<Rightarrow> result_bind (compute_delta w b) (\<lambda>d. ok (d, [''delta''], True))
    | _ \<Rightarrow> ok (w, [], False))"

definition feedback_active :: "compression_config \<Rightarrow> error_feedback option \<Rightarrow> bool" where
  "feedback_active cfg ef \<longleftrightarrow> cc_error_feedback cfg \<and> ef \<noteq> None \<and> cc_sparsification cfg \<noteq> None"

definition step_inject :: "compression_config \<Rightarrow> error_feedback option \<Rightarrow> pyval \<Rightarrow> pyval result" where
  "step_inject cfg ef w = (if feedback_active cfg ef then ef_apply (the ef) w else ok w)"

definition step_sparsify :: "codecs \<Rightarrow> compression_config \<Rightarrow> pyval \<Rightarrow> (pyval \<times> string list \<times> smeta_tree option) result" where
  "step_sparsify co cfg w = (case cc_sparsification cfg of
      None \<Rightarrow> ok (w, [], None)
    | Some sc \<Rightarrow> result_bind (sparsify_weights (co_pick co) sc w) (\<lambda>(p, m). ok (p, [''sparsify''], Some m)))"

definition step_residual :: "compression_config \<Rightarrow> error_feedback option \<Rightarrow> pyval \<Rightarrow> pyval \<Rightarrow> smeta_tree option \<Rightarrow>
    (error_feedback option \<times> string list) result" where
  "step_residual cfg ef pre_sparse processed sparse_meta =
     (if feedback_active cfg ef then
        result_bind (case processed of
            PDict _ \<Rightarrow> desparsify_weights processed (the sparse_meta) None
          | _ \<Rightarrow> ok processed) (\<lambda>dense. case ef_update pre_sparse dense (the ef) of
              (_, Inl e) \<Rightarrow> raise e
            | (ef', Inr _) \<Rightarrow> ok (Some ef', [''error_feedback'']))
      else ok (ef, []))"

definition step_quantize :: "codecs \<Rightarrow> compression_config \<Rightarrow> pyval \<Rightarrow> (pyval \<times> string list \<times> qmeta_tree option) result" where
  "step_quantize co cfg w = (case cc_quantization cfg of
      None \<Rightarrow> ok (w, [], None)
    | Some qc \<Rightarrow> result_bind (quantize_weights (co_wild co) (co_noise co) qc w) (\<lambda>(p, m). ok (p, [''quantize''], Some m)))"

text \<open>Steps 0 to 5: what is serialised, the metadata and the error-feedback state. The residual is computed
  from the delta before the injection (\<open>pre_sparse\<close>).\<close>

definition compress_steps ::
  "codecs \<Rightarrow> compression_config \<Rightarrow> pyval option \<Rightarrow> error_feedback option \<Rightarrow> pyval \<Rightarrow>
   (pyval \<times> compression_meta \<times> error_feedback option) result" where
  "compress_steps co cfg base ef w =
     result_bind (step_downcast cfg w) (\<lambda>(w0, s0, dtypes).
     result_bind (step_delta cfg base w0) (\<lambda>(w1, s1, has_delta).
     result_bind (step_inject cfg ef w1) (\<lambda>w2.
     result_bind (step_sparsify co cfg w2) (\<lambda>(w3, s3, sparse_meta).
     result_bind (step_residual cfg ef w1 w3 sparse_meta) (\<lambda>(ef', s4).
     result_bind (step_quantize co cfg w3) (\<lambda>(w5, s5, quant_meta).
     ok (w5, \<lparr>cm_steps = s0 @ s1 @ s3 @ s4 @ s5, cm_has_delta = has_delta, cm_original_dtypes = dtypes,
              cm_sparse_meta = sparse_meta, cm_quant_meta = quant_meta\<rparr>, ef')))))))"

definition compress_weights ::
  "codecs \<Rightarrow> compression_config \<Rightarrow> pyval option \<Rightarrow> error_feedback option \<Rightarrow> pyval \<Rightarrow>
   (bytes \<times> compression_meta \<times> error_feedback option) result" where
  "compress_weights co cfg base ef w =
     result_bind (compress_steps co cfg base ef w) (\<lambda>(p, meta, ef').
       let serialized = co_serialize co p in
       if cc_zlib_compression cfg \<and> cc_zlib_threshold_bytes cfg < length serialized
       then ok (co_zip co serialized, meta\<lparr>cm_steps := cm_steps meta @ [''zlib'']\<rparr>, ef')
       else ok (serialized, meta, ef'))"

text \<open>The inflating loop of \<open>decompress_weights\<close>: pieces of 64 KB, refused once more than
  \<open>max_expansion\<close> octets came out.\<close>

definition over_budget :: "int \<Rightarrow> int \<Rightarrow> bytes \<Rightarrow> bytes result" where
  "over_budget max_expansion tot out =
     (if max_expansion < tot + int (length out) then raise (ValueError ''Decompressed data exceeds budget'') else ok out)"

function inflate_loop :: "codecs \<Rightarrow> int \<Rightarrow> (bytes \<times> int) list \<Rightarrow> int \<Rightarrow> bytes \<Rightarrow> bytes result" where
  "inflate_loop co max_expansion calls tot rest =
     (if rest = [] then result_bind (co_flush co calls) (over_budget max_expansion tot)
      else let calls' = calls @ [(take 65536 rest, max_expansion - tot)] in
        result_bind (co_inflate co calls') (\<lambda>out.
        result_bind (over_budget max_expansion tot out) (\<lambda>_.
        result_bind (inflate_loop co max_expansion calls' (tot + int (length out)) (drop 65536 rest)) (\<lambda>more.
        ok (out @ more)))))"
  by pat_completeness auto
termination by (relation "measure (\<lambda>(co, m, calls, tot, rest). length rest)") auto

declare inflate_loop.simps [simp del]

definition guarded_unzip :: "codecs \<Rightarrow> bytes \<Rightarrow> bytes result" where
  "guarded_unzip co data = inflate_loop co (int (length data) * 100) [] 0 data"

definition decompress_weights ::
  "codecs \<Rightarrow> compression_meta \<Rightarrow> pyval option \<Rightarrow> bytes \<Rightarrow> pyval result" where
  "decompress_weights co meta base data =
     result_bind (if ''zlib'' \<in> set (cm_steps meta) then guarded_unzip co data else ok data) (\<lambda>raw.
     result_bind (co_deserialize co raw) (\<lambda>w0.
     result_bind (if ''quantize'' \<in> set (cm_steps meta) then
         (case cm_quant_meta meta of None \<Rightarrow> raise (ValueError ''quant_meta is None'') | Some qm \<Rightarrow> dequantize_weights w0 qm)
       else ok w0) (\<lambda>w1.
     result_bind (if ''sparsify'' \<in> set (cm_steps meta) then
         (case cm_sparse_meta meta of None \<Rightarrow> raise (ValueError ''sparse_meta is None'')
          | Some sm \<Rightarrow> desparsify_weights w1 sm (if cm_has_delta meta then None else base))
       else ok w1) (\<lambda>w2.
     result_bind (case (cm_has_delta meta, base) of (True, Some b) \<Rightarrow> apply_delta b w2 | _ \<Rightarrow> ok w2) (\<lambda>w3.
     ok (if ''downcast'' \<in> set (cm_steps meta) then upcast_weights (cm_original_dtypes meta) w3 else w3))))))"

definition compress_decompress_roundtrip ::
  "codecs \<Rightarrow> compression_config \<Rightarrow> pyval option \<Rightarrow> error_feedback option \<Rightarrow> pyval \<Rightarrow> pyval result" where
  "compress_decompress_roundtrip co cfg base ef w =
     result_bind (compress_weights co cfg base ef w) (\<lambda>(data, meta, _). decompress_weights co meta base data)"

section \<open>Cascade summation\<close>

lemma pairwise_sum_eq: "pairwise_sum xs = sum_list xs"
proof (induction "length xs" arbitrary: xs rule: less_induct)
  case less
  consider "xs = []" | x where "xs = [x]" | x y zs where "xs = x # y # zs" by (metis list.exhaust)
  then show ?case
  proof cases
    case 3
    let ?m = "length xs div 2"
    have "pairwise_sum xs = pairwise_sum (take ?m xs) + pairwise_sum (drop ?m xs)"
      by (subst pairwise_sum.simps) (simp add: 3 Let_def)
    also have "\<dots> = sum_list (take ?m xs) + sum_list (drop ?m xs)"
      using less [of "take ?m xs"] less [of "drop ?m xs"] 3 by simp
    also have "\<dots> = sum_list xs" by (metis append_take_drop_id sum_list_append)
    finally show ?thesis .
  next
    case 1
    then show ?thesis by (subst pairwise_sum.simps) simp
  next
    case 2
    then show ?thesis by (subst pairwise_sum.simps) simp
  qed
qed

section \<open>Top-k sparsification\<close>

text \<open>What numpy documents of \<open>argpartition\<close>: the positions are distinct and in range, there are \<open>k\<close> of
  them, and no value at another position is larger.\<close>

definition picks_largest :: "picker \<Rightarrow> bool" where
  "picks_largest pick \<longleftrightarrow> (\<forall>xs k. k \<le> length xs \<longrightarrow> length (pick xs k) = k \<and> distinct (pick xs k)
     \<and> (\<forall>i \<in> set (pick xs k). i < length xs \<and> (\<forall>j < length xs. j \<notin> set (pick xs k) \<longrightarrow> xs ! j \<le> xs ! i)))"

lemma scatter_fold:
  "distinct idx \<Longrightarrow> length (foldl (\<lambda>ys (i, v). ys[i := v]) xs (zip idx (map f idx))) = length xs \<and>
   (\<forall>j < length xs. foldl (\<lambda>ys (i, v). ys[i := v]) xs (zip idx (map f idx)) ! j = (if j \<in> set idx then f j else xs ! j))"
  by (induction idx arbitrary: xs) (auto simp: nth_list_update)

lemma map_nat_floor: "map (\<lambda>x. nat \<lfloor>x\<rfloor>) (map real idx) = idx"
  by (induction idx) auto

lemma sparsify_array_top_k:
  assumes "picks_largest pick" "narray_wf a" "floating (na_dtype a)" "sc_method cfg = ''top_k''"
  shows "\<exists>s m a' keep. sparsify_array pick cfg a = ok (s, Some m) \<and> desparsify_array s m None = ok (PArr a') \<and>
    na_shape a' = na_shape a \<and> na_dtype a' = na_dtype a \<and> length (na_data a') = length (na_data a) \<and>
    keep \<subseteq> {..<length (na_data a)} \<and> card keep = min (length (na_data a)) (kept_count (sc_top_k_ratio cfg) (length (na_data a))) \<and>
    (\<forall>i < length (na_data a). na_data a' ! i = (if i \<in> keep then na_data a ! i else 0)) \<and>
    (\<forall>i \<in> keep. \<forall>j < length (na_data a). j \<notin> keep \<longrightarrow> \<bar>na_data a ! j\<bar> \<le> \<bar>na_data a ! i\<bar>)"
proof -
  define xs k where d: "xs = na_data a" "k = kept_count (sc_top_k_ratio cfg) (length (na_data a))"
  show ?thesis
  proof (cases "length xs \<le> k")
    case True
    then have "sparsify_array pick cfg a = ok (PArr a, Some (DenseMeta (na_shape a) (na_dtype a)))"
      using assms(3,4) by (simp add: sparsify_array_def Let_def d)
    moreover have "card {..<length xs} = min (length xs) k" using True by simp
    ultimately show ?thesis
      by (intro exI [of _ "PArr a"] exI [of _ "DenseMeta (na_shape a) (na_dtype a)"] exI [of _ a] exI [of _ "{..<length xs}"])
         (auto simp: desparsify_array_def d)
  next
    case False
    define p where "p = pick (map abs xs) k"
    have k: "k \<le> length (map abs xs)" using False by simp
    have pick: "length p = k \<and> distinct p \<and> (\<forall>i \<in> set p. i < length (map abs xs) \<and>
        (\<forall>j < length (map abs xs). j \<notin> set p \<longrightarrow> map abs xs ! j \<le> map abs xs ! i))"
      using assms(1) k unfolding picks_largest_def p_def by blast
    then have p: "length p = k" "distinct p" "\<And>i. i \<in> set p \<Longrightarrow> i < length xs" by auto
    have larger: "\<bar>xs ! j\<bar> \<le> \<bar>xs ! i\<bar>" if "i \<in> set p" "j < length xs" "j \<notin> set p" for i j
      using pick that p(3) [OF that(1)] by (metis length_map nth_map)
    let ?m = "SparseMeta k (length xs) (na_shape a) (na_dtype a)"
    let ?s = "sparse_dict (sort p) (na_dtype a) (map (\<lambda>i. xs ! i) (sort p))"
    have rnd: "round_to (na_dtype a) x = x" if "x \<in> set xs" for x
      using narray_holds [OF assms(2)] that by (simp add: d)
    have "map (\<lambda>i. round_to (na_dtype a) (xs ! i)) (sort p) = map (\<lambda>i. xs ! i) (sort p)"
      by (rule map_cong) (simp_all add: rnd p(3))
    note rp = this [unfolded p_def d]
    have s: "sparsify_array pick cfg a = ok (?s, Some ?m)"
      using assms(3,4) False by (simp add: sparsify_array_def Let_def d p_def rp)
    define ys where "ys = foldl (\<lambda>ys (i, v). ys[i := v]) (replicate (length xs) 0) (zip (sort p) (map (\<lambda>i. xs ! i) (sort p)))"
    have ys: "length ys = length xs" "\<forall>j < length xs. ys ! j = (if j \<in> set p then xs ! j else 0)"
      using scatter_fold [of "sort p" "replicate (length xs) 0" "\<lambda>i. xs ! i"] p(2) by (simp_all add: ys_def)
    have "round_to (na_dtype a) y = y" if y: "y \<in> set ys" for y
    proof -
      obtain j where "j < length xs" "y = ys ! j" using y ys(1) by (auto simp: in_set_conv_nth)
      then show ?thesis using ys(2) rnd by simp
    qed
    then have rys: "map (round_to (na_dtype a)) ys = ys" by (intro map_idI)
    have "scatter (replicate (length xs) 0) (sort p) (map (\<lambda>i. xs ! i) (sort p)) = ok ys"
      using p(3) by (simp add: scatter_def ys_def list_all_iff)
    then have "desparsify_array ?s ?m None = ok (PArr \<lparr>na_dtype = na_dtype a, na_shape = na_shape a, na_data = ys\<rparr>)"
      using ys(1) assms(2) unfolding desparsify_array_def sparse_dict_def
      by (simp add: is_sparse_dict_def map_nat_floor [unfolded map_map comp_def] comp_def reshape_def narray_wf_def d rys [unfolded d])
    moreover have "card (set p) = min (length xs) k" using p(1,2) False by (simp add: distinct_card)
    ultimately show ?thesis using s ys p(3) larger
      by (intro exI [of _ ?s] exI [of _ ?m] exI [of _ "\<lparr>na_dtype = na_dtype a, na_shape = na_shape a, na_data = ys\<rparr>"]
          exI [of _ "set p"]) (auto simp: d)
  qed
qed

text \<open>C30: Top-k sparsification keeps the largest entries exactly. Desparsifying without a base gives an array of
  the same shape in which a kept element is the original one and every other element is zero; the kept ones
  are \<open>max(1, int(n * ratio))\<close> many (or all), and none of the dropped ones is larger in magnitude than a kept
  one.\<close>

theorem sparsify_keeps_largest:
  assumes "picks_largest pick" "narray_wf a" "floating (na_dtype a)" "sc_method cfg = ''top_k''"
  shows "\<exists>s m a' keep. sparsify_array pick cfg a = ok (s, Some m) \<and> desparsify_array s m None = ok (PArr a') \<and>
    na_shape a' = na_shape a \<and> na_dtype a' = na_dtype a \<and> length (na_data a') = length (na_data a) \<and>
    keep \<subseteq> {..<length (na_data a)} \<and> card keep = min (length (na_data a)) (kept_count (sc_top_k_ratio cfg) (length (na_data a))) \<and>
    (\<forall>i < length (na_data a). na_data a' ! i = (if i \<in> keep then na_data a ! i else 0)) \<and>
    (\<forall>i \<in> keep. \<forall>j < length (na_data a). j \<notin> keep \<longrightarrow> \<bar>na_data a ! j\<bar> \<le> \<bar>na_data a ! i\<bar>)"
  by (rule sparsify_array_top_k [OF assms])

end
