(* ===== verification/Compression_Properties.thy ===== *)
theory Compression_Properties
  imports Weight_Compression
begin

text \<open>
  Properties of the compression pipeline: deltas invert, error feedback used as documented loses nothing and
  keeps its residuals capped, the pipeline without lossy steps is the identity, and the pipeline's own use
  of error feedback forgets the residual it injected.
\<close>

section \<open>A picker, and the witness of top-k sparsification\<close>

definition largest_first :: picker where
  "largest_first xs k = take k (sort_key (\<lambda>i. - (xs ! i)) [0..<length xs])"

lemma largest_first_picks: "picks_largest largest_first"
proof -
  have "xs ! j \<le> xs ! i" if i: "i \<in> set (take k s)" and j: "j < length xs" "j \<notin> set (take k s)"
    and s: "s = sort_key (\<lambda>i. - (xs ! i)) [0..<length xs]" for xs :: "real list" and k i j s
  proof -
    have "sorted (map (\<lambda>i. - (xs ! i)) (take k s @ drop k s))" by (simp add: s)
    then have "\<forall>x \<in> set (take k s). \<forall>y \<in> set (drop k s). - (xs ! x) \<le> - (xs ! y)"
      unfolding map_append sorted_append by simp
    moreover have "set (take k s) \<union> set (drop k s) = {0..<length xs}"
      by (metis append_take_drop_id s set_append set_sort set_upt)
    with j have "j \<in> set (drop k s)" by auto
    ultimately show ?thesis using i by fastforce
  qed
  moreover have "i < length xs" if "i \<in> set (take k (sort_key (\<lambda>i. - (xs ! i)) [0..<length xs]))"
    for xs :: "real list" and i k using in_set_takeD [OF that] by simp
  ultimately show ?thesis by (auto simp: picks_largest_def largest_first_def)
qed

definition example_sparsification :: sparsification_config where
  "example_sparsification =
     \<lparr>sc_top_k_ratio = 1 / 3, sc_method = ''top_k'', sc_min_sparsity = 0, sc_max_sparsity = 1\<rparr>"

definition example_array :: "real list \<Rightarrow> narray" where
  "example_array xs = \<lparr>na_dtype = ''float64'', na_shape = [length xs], na_data = xs\<rparr>"

lemma example_array_simps [simp]:
  "na_dtype (example_array xs) = ''float64''" "na_shape (example_array xs) = [length xs]"
  "na_data (example_array xs) = xs" "narray_wf (example_array xs)" "floating ''float64''"
  by (simp_all add: example_array_def narray_wf_def floating_def list_all_iff)

lemma sparsify_keeps_largest_witness:
  "\<exists>s m a'. sparsify_array largest_first example_sparsification (example_array [1, -5, 2]) = ok (s, Some m) \<and>
     desparsify_array s m None = ok (PArr a') \<and> length (na_data a') = 3"
proof -
  have "floating (na_dtype (example_array [1, -5, 2]))" "sc_method example_sparsification = ''top_k''"
    by (simp_all add: example_sparsification_def)
  from sparsify_keeps_largest [OF largest_first_picks example_array_simps(4) this] show ?thesis by auto
qed

section \<open>Deltas\<close>

definition same_layout :: "narray \<Rightarrow> narray \<Rightarrow> bool" where
  "same_layout a b \<longleftrightarrow> na_shape a = na_shape b \<and> length (na_data a) = length (na_data b)"

lemma np_zip_ok: "same_layout a b \<Longrightarrow>
    np_zip f a b = ok \<lparr>na_dtype = ''float64'', na_shape = na_shape a, na_data = map2 f (na_data a) (na_data b)\<rparr>"
  by (simp add: np_zip_def same_layout_def)

text \<open>The elements and their differences are values of \<open>float64\<close>, so that no operation rounds.\<close>

definition exact_delta :: "narray \<Rightarrow> narray \<Rightarrow> bool" where
  "exact_delta a b \<longleftrightarrow>
     list_all2 (\<lambda>x y. float64_value x \<and> float64_value y \<and> float64_value (x - y)) (na_data a) (na_data b)"

definition reapplied :: "narray \<Rightarrow> narray \<Rightarrow> pyval result" where
  "reapplied b d = result_bind (np_zip float64_add b d) (\<lambda>r. ok (PArr (astype (na_dtype b) r)))"

lemma float64_add_sub:
  "float64_value x \<Longrightarrow> float64_value y \<Longrightarrow> float64_value (x - y) \<Longrightarrow> float64_add y (float64_sub x y) = x"
  by (simp add: float64_add_def float64_sub_def float64_value_def)

lemma add_sub:
  "list_all2 (\<lambda>x y. float64_value x \<and> float64_value y \<and> float64_value (x - y)) xs ys \<Longrightarrow>
   map2 float64_add ys (map2 float64_sub xs ys) = xs"
  by (induction xs ys rule: list_all2_induct) (simp_all add: float64_add_sub)

lemma array_delta_round_trip:
  assumes "same_layout a b" "na_dtype a = na_dtype b" "narray_wf a" "exact_delta a b"
  shows "\<exists>d. np_zip float64_sub a b = ok d \<and> same_layout b d \<and> reapplied b d = ok (PArr a)"
proof -
  let ?d = "\<lparr>na_dtype = ''float64'', na_shape = na_shape a, na_data = map2 float64_sub (na_data a) (na_data b)\<rparr>"
  have "same_layout b ?d" using assms(1) by (simp add: same_layout_def)
  moreover have "na_dtype b = na_dtype a" "na_shape b = na_shape a" "length (na_data a) = length (na_data b)"
    using assms by (simp_all add: same_layout_def)
  moreover have "map2 float64_add (na_data b) (map2 float64_sub (na_data a) (na_data b)) = na_data a"
    using assms(4) by (simp only: exact_delta_def add_sub)
  ultimately show ?thesis
    using assms(1) narray_round [OF assms(3)] by (simp add: np_zip_ok reapplied_def astype_def)
qed

text \<open>The differences of \<open>float16\<close> arrays are always exact.\<close>

lemma float16_deltas_exact:
  assumes "same_layout a b" "narray_wf a" "narray_wf b" "na_dtype a = ''float16''" "na_dtype b = ''float16''"
  shows "exact_delta a b"
proof -
  have "np_cast ''float16'' (na_data a ! i) = Fin (na_data a ! i)" "np_cast ''float16'' (na_data b ! i) = Fin (na_data b ! i)"
    if "i < length (na_data a)" for i
    using narray_holds [OF assms(2)] narray_holds [OF assms(3)] assms(1,4,5) that by (simp_all add: same_layout_def)
  then show ?thesis
    using assms(1) by (auto simp: exact_delta_def same_layout_def list_all2_conv_all_nth intro: float16_exact)
qed

text \<open>Those of wider arrays need not be: a one that changes from two to the power of 60 comes back as zero.\<close>

lemma float64_delta_rounds: "float64_add (2 ^ 60) (float64_sub 1 (2 ^ 60)) = 0"
proof -
  have e: "float_exponent 53 (- 1074) (1 - 2 ^ 60) = 7"
  proof -
    have "\<lfloor>log 2 (2 ^ 60 - 1) :: real\<rfloor> = 59"
      by (intro floor_unique) (simp_all add: le_log_iff log_less_iff powr_numeral)
    then show ?thesis by (simp add: float_exponent_def)
  qed
  have big: "float64_round (2 ^ 60) = 2 ^ 60"
    using float64_exact [of 1 60] by (simp add: float64_value_def powr_numeral)
  have one: "float64_round 1 = 1"
    using float64_int [of 1] by (simp add: float64_value_def)
  have neg: "float64_round (- (2 ^ 60)) = - (2 ^ 60)"
    using big by (simp add: float64_round_def float_round_minus)
  have r: "np_round ((1 - 2 ^ 60) / 2 powr of_int 7) = - (2 ^ 53)"
    by (simp add: np_round_def Let_def powr_numeral)
  have "float64_round (1 - 2 ^ 60) = of_int (- (2 ^ 53)) * 2 powr of_int 7"
    unfolding float64_round_def float_round_def Let_def e r by simp
  then have "float64_round (1 - 2 ^ 60) = - (2 ^ 60)"
    by (simp add: powr_numeral)
  then have "float64_sub 1 (2 ^ 60) = - (2 ^ 60)"
    by (simp only: float64_sub_def big one)
  then show ?thesis
    by (simp only: float64_add_def big neg) (simp add: float64_round_def float_round_def)
qed

text \<open>Two models of arrays that agree on the layout and the dtype of the keys they share, with exact differences.\<close>

definition compatible_models :: "(string \<times> pyval) list \<Rightarrow> (string \<times> pyval) list \<Rightarrow> bool" where
  "compatible_models cur base \<longleftrightarrow> dict_wf cur \<and> dict_wf base \<and>
     list_all (\<lambda>(k, v). case v of
        PArr a \<Rightarrow> (case map_of base k of
            None \<Rightarrow> True
          | Some (PArr b) \<Rightarrow> same_layout a b \<and> na_dtype a = na_dtype b \<and> narray_wf a \<and> exact_delta a b
          | Some _ \<Rightarrow> False)
      | _ \<Rightarrow> False) cur"

lemma result_map_total: "(\<And>x. x \<in> set xs \<Longrightarrow> f x = ok (g x)) \<Longrightarrow> result_map f xs = ok (map g xs)"
  by (induction xs) auto

lemma map_of_apply_results:
  "map_of (concat (map (\<lambda>(k, b). case g k b of None \<Rightarrow> [] | Some v \<Rightarrow> [(k, v)]) xs)) k =
     (case map_of xs k of None \<Rightarrow> None | Some b \<Rightarrow> g k b)" if "dict_wf xs" for g :: "'k \<Rightarrow> 'v \<Rightarrow> 'w option"
  using that
proof (induction xs)
  case (Cons x xs)
  obtain k' b where [simp]: "x = (k', b)" by (cases x)
  have "map_of xs k' = None" using Cons.prems by (simp add: map_of_eq_None_iff)
  then show ?case using Cons by (cases "g k' b") (auto simp: map_add_def split: option.splits)
qed simp


lemma delta_entry_array:
  assumes "compatible_models cur base" "(k, v) \<in> set cur"
  shows "\<exists>d. delta_entry base (k, v) = ok (k, PArr d) \<and> (\<exists>a. v = PArr a \<and>
    (case map_of base k of None \<Rightarrow> d = a
     | Some b \<Rightarrow> \<exists>b'. b = PArr b' \<and> reapplied b' d = ok v))"
proof -
  obtain a where v: "v = PArr a" and b: "case map_of base k of None \<Rightarrow> True
      | Some (PArr b) \<Rightarrow> same_layout a b \<and> na_dtype a = na_dtype b \<and> narray_wf a \<and> exact_delta a b | Some _ \<Rightarrow> False"
    using assms by (auto simp: compatible_models_def list_all_iff split: pyval.splits)
  show ?thesis
  proof (cases "map_of base k")
    case None
    then show ?thesis by (simp add: delta_entry_def v)
  next
    case (Some x)
    with b obtain b' where b': "x = PArr b'" "same_layout a b'" "na_dtype a = na_dtype b'" "narray_wf a" "exact_delta a b'"
      by (auto split: pyval.splits)
    from array_delta_round_trip [OF b'(2-5)] obtain d where "np_zip float64_sub a b' = ok d"
      "reapplied b' d = ok (PArr a)" by blast
    then show ?thesis using Some b'(1) by (simp add: delta_entry_def v)
  qed
qed

lemma map_of_filter_wf:
  "dict_wf D \<Longrightarrow> map_of (filter (\<lambda>(k, v). Q k v) D) k =
     (case map_of D k of None \<Rightarrow> None | Some v \<Rightarrow> if Q k v then Some v else None)"
  by (induction D) (auto simp: map_of_eq_None_iff image_iff split: option.splits)

text \<open>What a delta holds: for a key of the current model an array, for a dropped key a tombstone.\<close>

definition delta_value :: "(string \<times> pyval) list \<Rightarrow> string \<Rightarrow> pyval \<Rightarrow> narray \<Rightarrow> bool" where
  "delta_value base k v d \<longleftrightarrow> (case map_of base k of
      None \<Rightarrow> v = PArr d
    | Some b \<Rightarrow> \<exists>b'. b = PArr b' \<and> reapplied b' d = ok v)"

lemma compute_delta_lookup:
  assumes "compatible_models cur base"
  shows "\<exists>D. compute_delta (PDict cur) (PDict base) = ok (PDict D) \<and> dict_wf D \<and>
    (\<forall>k v. map_of cur k = Some v \<longrightarrow> (\<exists>d. map_of D k = Some (PArr d) \<and> delta_value base k v d)) \<and>
    (\<forall>k. map_of cur k = None \<longrightarrow> map_of D k = (if map_of base k = None then None else Some PNone))"
proof -
  have "\<exists>d. \<forall>k v. (k, v) \<in> set cur \<longrightarrow> delta_entry base (k, v) = ok (k, PArr (d k v)) \<and> delta_value base k v (d k v)"
    using delta_entry_array [OF assms] unfolding delta_value_def by (intro choice allI) (smt (verit) option.case_eq_if)
  then obtain d where d: "\<And>k v. (k, v) \<in> set cur \<Longrightarrow> delta_entry base (k, v) = ok (k, PArr (d k v))"
    "\<And>k v. (k, v) \<in> set cur \<Longrightarrow> delta_value base k v (d k v)" by blast
  let ?ds = "map (\<lambda>(k, v). (k, PArr (d k v))) cur"
  let ?ts = "map (\<lambda>(k, _). (k, PNone)) (filter (\<lambda>(k, _). map_of cur k = None) base)"
  have "result_map (delta_entry base) cur = ok ?ds" by (rule result_map_total) (use d(1) in auto)
  then have c: "compute_delta (PDict cur) (PDict base) = ok (PDict (?ds @ ?ts))" by (simp add: compute_delta_def)
  have ds: "map_of ?ds k = map_option (\<lambda>v. PArr (d k v)) (map_of cur k)" for k
    by (induction cur) auto
  have ts: "map_of ?ts k = (if map_of cur k = None \<and> map_of base k \<noteq> None then Some PNone else None)" for k
    by (induction base) (auto split: if_splits)
  have "map fst ?ds = map fst cur" by (induction cur) auto
  moreover have "map fst ?ts = filter (\<lambda>k. map_of cur k = None) (map fst base)" by (induction base) auto
  ultimately have "dict_wf (?ds @ ?ts)" using assms
    by (auto simp: compatible_models_def map_of_eq_None_iff simp flip: set_map simp del: map_map)
  moreover have "delta_value base k v (d k v)" if "map_of cur k = Some v" for k v
    using d(2) [OF map_of_SomeD [OF that]] .
  ultimately show ?thesis using c by (intro exI [of _ "?ds @ ?ts"]) (simp add: map_add_def ds ts)
qed

lemma delta_applies:
  assumes "compatible_models cur base"
  shows "\<exists>d r. compute_delta (PDict cur) (PDict base) = ok d \<and> apply_delta (PDict base) d = ok (PDict r) \<and> map_of r = map_of cur"
proof -
  from compute_delta_lookup [OF assms] obtain D where c: "compute_delta (PDict cur) (PDict base) = ok (PDict D)"
    and wf: "dict_wf D"
    and live: "\<And>k v. map_of cur k = Some v \<Longrightarrow> \<exists>d. map_of D k = Some (PArr d) \<and> delta_value base k v d"
    and dead: "\<And>k. map_of cur k = None \<Longrightarrow> map_of D k = (if map_of base k = None then None else Some PNone)" by blast
  have wb: "dict_wf base" using assms by (simp add: compatible_models_def)
  have "apply_entry D (k, b) = ok (map_option (Pair k) (map_of cur k))" if "(k, b) \<in> set base" for k b
  proof -
    have b: "map_of base k = Some b" using that wb by (simp only: map_of_wf_iff)
    show ?thesis
    proof (cases "map_of cur k")
      case None
      then show ?thesis using dead [OF None] b by (simp only: apply_entry_def) simp
    next
      case (Some v)
      from live [OF Some] b obtain d b' where "map_of D k = Some (PArr d)" "b = PArr b'"
        "reapplied b' d = ok v"
        unfolding delta_value_def by (simp only: option.case) blast
      then show ?thesis using Some by (cases "np_zip float64_add b' d") (auto simp: apply_entry_def reapplied_def)
    qed
  qed
  then have "result_map (apply_entry D) base = ok (map (\<lambda>(k, b). map_option (Pair k) (map_of cur k)) base)"
    by (intro result_map_total) auto
  moreover have "concat (map (\<lambda>r. case r of None \<Rightarrow> [] | Some e \<Rightarrow> [e])
        (map (\<lambda>(k, b). map_option (Pair k) (map_of cur k)) xs))
      = concat (map (\<lambda>(k, b). case map_of cur k of None \<Rightarrow> [] | Some v \<Rightarrow> [(k, v)]) xs)" for xs :: "(string \<times> pyval) list"
    by (induction xs) (auto split: option.splits)
  ultimately obtain r where r: "apply_delta (PDict base) (PDict D) = ok (PDict r)"
    and rs: "r = concat (map (\<lambda>(k, b). case map_of cur k of None \<Rightarrow> [] | Some v \<Rightarrow> [(k, v)]) base)
       @ filter (\<lambda>(k, v). map_of base k = None \<and> v \<noteq> PNone) D"
    by (auto simp: apply_delta_def simp del: map_map)
  have "map_of r k = map_of cur k" for k
  proof -
    note look = map_of_append map_add_def map_of_filter_wf [OF wf, where Q = "\<lambda>k v. map_of base k = None \<and> v \<noteq> PNone"]
      map_of_apply_results [where g = "\<lambda>k b. map_of cur k", OF wb]
    show ?thesis unfolding rs look
      using live [of k] dead [of k] by (cases "map_of cur k"; cases "map_of base k") (auto simp: delta_value_def)
  qed
  then have "map_of r = map_of cur" by auto
  with c r show ?thesis by blast
qed

text \<open>A delta and its base give the model back, where the differences are values of \<open>float64\<close>: for every key, after \<open>compute_delta\<close> and
  \<open>apply_delta\<close> the value is the current one, keys that the current model dropped are gone (the
  tombstones), and keys it added are there.\<close>

theorem delta_round_trip:
  assumes "compatible_models cur base"
  shows "\<exists>d r. compute_delta (PDict cur) (PDict base) = ok d \<and> apply_delta (PDict base) d = ok (PDict r) \<and> map_of r = map_of cur"
  by (rule delta_applies [OF assms])

lemma delta_round_trip_witness:
  "\<exists>d r. compute_delta (PDict [(''w'', PArr (example_array [3, 4]))])
       (PDict [(''w'', PArr (example_array [1, 1])), (''old'', PArr (example_array [7]))]) = ok d \<and>
     apply_delta (PDict [(''w'', PArr (example_array [1, 1])), (''old'', PArr (example_array [7]))]) d = ok (PDict r) \<and>
     map_of r ''old'' = None"
proof -
  have "compatible_models [(''w'', PArr (example_array [3, 4]))]
      [(''w'', PArr (example_array [1, 1])), (''old'', PArr (example_array [7]))]"
    using float64_int [of 3] float64_int [of 4] float64_int [of 1] float64_int [of 2]
    by (simp add: compatible_models_def same_layout_def exact_delta_def)
  from delta_round_trip [OF this] show ?thesis by auto
qed

text \<open>An entry that is not an array and changed is lost: the base's value comes back.\<close>

lemma delta_loses_changed_entries:
  "compute_delta (PDict [(''step'', POther ''2'')]) (PDict [(''step'', POther ''1'')]) = ok (PDict [(''step'', POther ''2'')])"
  "apply_delta (PDict [(''step'', POther ''1'')]) (PDict [(''step'', POther ''2'')]) = ok (PDict [(''step'', POther ''1'')])"
  by (simp_all add: compute_delta_def delta_entry_def apply_delta_def apply_entry_def)

section \<open>Error feedback\<close>

text \<open>The call sequence the module documents, round after round: \<open>apply\<close>, compress, \<open>update\<close>.\<close>

fun feedback_rounds :: "(narray \<Rightarrow> narray) \<Rightarrow> narray list \<Rightarrow> error_feedback \<Rightarrow> (narray list \<times> error_feedback) result" where
  "feedback_rounds lossy [] st = ok ([], st)"
| "feedback_rounds lossy (d # ds) st =
     result_bind (ef_apply st (PArr d)) (\<lambda>c.
     result_bind (array_of c) (\<lambda>a. case ef_update c (PArr (lossy a)) st of
         (_, Inl e) \<Rightarrow> raise e
       | (st', Inr _) \<Rightarrow> result_bind (feedback_rounds lossy ds st') (\<lambda>(sent, st''). ok (lossy a # sent, st''))))"

definition residual_at :: "error_feedback \<Rightarrow> nat \<Rightarrow> real" where
  "residual_at st i = (case map_of (ef_residuals st) SINGLE of None \<Rightarrow> 0 | Some r \<Rightarrow> na_data r ! i)"

text \<open>Plain error feedback on arrays of one layout.\<close>

definition plain_feedback :: "narray \<Rightarrow> error_feedback \<Rightarrow> bool" where
  "plain_feedback model st \<longleftrightarrow> ef_enabled st \<and> ef_momentum st \<le> 0 \<and> ef_max_residual_norm st = None \<and>
     (case map_of (ef_residuals st) SINGLE of None \<Rightarrow> True | Some r \<Rightarrow> same_layout r model)"

lemma same_layout_sym: "same_layout a b \<Longrightarrow> same_layout b a"
  and same_layout_trans: "same_layout a b \<Longrightarrow> same_layout b c \<Longrightarrow> same_layout a c"
  by (simp_all add: same_layout_def)

lemma ef_apply_plain:
  assumes "plain_feedback model st" "same_layout d model"
  shows "\<exists>a. ef_apply st (PArr d) = ok (PArr a) \<and> same_layout a model \<and>
    (\<forall>i < length (na_data model). na_data a ! i = na_data d ! i + residual_at st i)"
proof (cases "map_of (ef_residuals st) SINGLE")
  case None
  then show ?thesis using assms by (simp add: ef_apply_def plain_feedback_def ef_apply_array_def residual_at_def)
next
  case (Some r)
  then have "same_layout r model" using assms(1) by (simp add: plain_feedback_def)
  then have "same_layout d r" using assms(2) by (simp add: same_layout_def)
  with assms Some show ?thesis
    by (simp add: ef_apply_def plain_feedback_def ef_apply_array_def residual_at_def np_zip_ok) (simp add: same_layout_def)
qed

lemma ef_update_plain:
  assumes "plain_feedback model st" "same_layout a model" "same_layout c model"
  shows "\<exists>st'. ef_update (PArr a) (PArr c) st = (st', ok ()) \<and> plain_feedback model st' \<and>
    (\<forall>i < length (na_data model). residual_at st' i = na_data a ! i - na_data c ! i)"
proof -
  have ac: "same_layout a c" using assms(2,3) by (simp add: same_layout_def)
  let ?r = "\<lparr>na_dtype = ''float64'', na_shape = na_shape a, na_data = map2 (-) (na_data a) (na_data c)\<rparr>"
  let ?st1 = "st\<lparr>ef_round := Suc (ef_round st)\<rparr>"
  let ?st = "?st1\<lparr>ef_residuals := AList.update SINGLE ?r (ef_residuals st)\<rparr>"
  have r: "same_layout ?r model" using assms(2,3) by (simp add: same_layout_def)
  have "ef_update_array SINGLE a c ?st1 = ok ?st"
    using assms(1) ac by (auto simp: ef_update_array_def np_zip_ok plain_feedback_def cap_norm_def blend_def Let_def split: option.splits)
  then have "ef_update (PArr a) (PArr c) st = (?st, ok ())"
    using assms(1) by (simp add: ef_update_def plain_feedback_def)
  moreover have "plain_feedback model ?st" using assms(1) r by (simp add: plain_feedback_def update_conv)
  moreover have "residual_at ?st i = na_data a ! i - na_data c ! i" if "i < length (na_data model)" for i
    using that assms(2,3) by (simp add: residual_at_def update_conv same_layout_def)
  ultimately show ?thesis by blast
qed

text \<open>C29: Plain error feedback loses nothing: enabled, without momentum and without a cap on the residual norm,
  on a single array whose layout stays the same. With the documented call sequence, whatever the compressor drops
  in whatever round, at every position the sum of what was sent and the residual left over is the sum of all the
  deltas and the residual before, in exact arithmetic: what is not sent is still owed. With a momentum or a cap it
  is not so (\<open>momentum_forgets\<close>, \<open>cap_forgets\<close>).\<close>

theorem error_feedback_conserves:
  assumes "plain_feedback model st" "list_all (\<lambda>d. same_layout d model) ds"
    and "\<And>a. same_layout a model \<Longrightarrow> same_layout (lossy a) model"
  shows "\<exists>sent st'. feedback_rounds lossy ds st = ok (sent, st') \<and> plain_feedback model st' \<and>
    length sent = length ds \<and>
    (\<forall>i < length (na_data model). (\<Sum>s\<leftarrow>sent. na_data s ! i) + residual_at st' i
        = residual_at st i + (\<Sum>d\<leftarrow>ds. na_data d ! i))"
  using assms(1,2)
proof (induction ds arbitrary: st)
  case (Cons d ds)
  obtain a where a: "ef_apply st (PArr d) = ok (PArr a)" "same_layout a model"
    "\<forall>i < length (na_data model). na_data a ! i = na_data d ! i + residual_at st i"
    using ef_apply_plain [OF Cons.prems(1), of d] Cons.prems(2) by auto
  obtain st1 where st1: "ef_update (PArr a) (PArr (lossy a)) st = (st1, ok ())" "plain_feedback model st1"
    "\<forall>i < length (na_data model). residual_at st1 i = na_data a ! i - na_data (lossy a) ! i"
    using ef_update_plain [OF Cons.prems(1) a(2) assms(3) [OF a(2)]] by blast
  have "list_all (\<lambda>d. same_layout d model) ds" using Cons.prems(2) by simp
  from Cons.IH [OF st1(2) this] obtain sent st' where st': "feedback_rounds lossy ds st1 = ok (sent, st')"
    "plain_feedback model st'" "length sent = length ds"
    "\<forall>i < length (na_data model). (\<Sum>s\<leftarrow>sent. na_data s ! i) + residual_at st' i
        = residual_at st1 i + (\<Sum>d\<leftarrow>ds. na_data d ! i)" by blast
  have "(\<Sum>s\<leftarrow>lossy a # sent. na_data s ! i) + residual_at st' i = residual_at st i + (\<Sum>d\<leftarrow>d # ds. na_data d ! i)"
    if "i < length (na_data model)" for i
    using that a(3) [rule_format, OF that] st1(3) [rule_format, OF that] st'(4) [rule_format, OF that] by simp
  with a(1) st1(1) st'(1-3) show ?case by (intro exI [of _ "lossy a # sent"] exI [of _ st']) simp
qed simp

lemma error_feedback_conserves_witness:
  "\<exists>sent st'. feedback_rounds (\<lambda>a. a\<lparr>na_data := map (\<lambda>_. 0) (na_data a)\<rparr>) [example_array [1, 2], example_array [3, 4]]
      (error_feedback_init True 0 None) = ok (sent, st') \<and> (\<Sum>s\<leftarrow>sent. na_data s ! 1) + residual_at st' 1 = 6"
proof -
  have "plain_feedback (example_array [0, 0]) (error_feedback_init True 0 None)"
    "list_all (\<lambda>d. same_layout d (example_array [0, 0])) [example_array [1, 2], example_array [3, 4]]"
    "\<And>a. same_layout a (example_array [0, 0]) \<Longrightarrow> same_layout (a\<lparr>na_data := map (\<lambda>_. 0) (na_data a)\<rparr>) (example_array [0, 0])"
    by (simp_all add: plain_feedback_def error_feedback_init_def same_layout_def)
  from error_feedback_conserves [where lossy = "\<lambda>a. a\<lparr>na_data := map (\<lambda>_. 0) (na_data a)\<rparr>", OF this] obtain sent st' where
    "feedback_rounds (\<lambda>a. a\<lparr>na_data := map (\<lambda>_. 0) (na_data a)\<rparr>) [example_array [1, 2], example_array [3, 4]]
      (error_feedback_init True 0 None) = ok (sent, st')"
    "\<forall>i < length (na_data (example_array [0, 0])). (\<Sum>s\<leftarrow>sent. na_data s ! i) + residual_at st' i
        = residual_at (error_feedback_init True 0 None) i + (\<Sum>d\<leftarrow>[example_array [1, 2], example_array [3, 4]]. na_data d ! i)"
    by blast
  moreover have "residual_at (error_feedback_init True 0 None) 1 = 0" by (simp add: residual_at_def error_feedback_init_def)
  ultimately show ?thesis by (intro exI [of _ sent] exI [of _ st']) simp
qed

text \<open>Momentum and the cap forget: with a momentum of one half a single round that drops everything leaves half of
  what was dropped, the residual before being zero, and with a cap only the capped part is left.\<close>

lemma momentum_forgets:
  "ef_update_array SINGLE (example_array [4]) (example_array [0])
     ((error_feedback_init True (1 / 2) None)\<lparr>ef_residuals := [(SINGLE, example_array [0])]\<rparr>)
   = ok ((error_feedback_init True (1 / 2) None)\<lparr>ef_residuals := [(SINGLE, example_array [2])]\<rparr>)"
  by (simp add: ef_update_array_def np_zip_def error_feedback_init_def blend_def cap_norm_def Let_def example_array_def)

lemma cap_forgets:
  "ef_update_array SINGLE (example_array [4]) (example_array [0]) (error_feedback_init True 0 (Some 1))
   = ok ((error_feedback_init True 0 (Some 1))\<lparr>ef_residuals := [(SINGLE, example_array [1])]\<rparr>)"
  by (simp add: ef_update_array_def np_zip_def error_feedback_init_def blend_def cap_norm_def l2_norm_def Let_def
      example_array_def)

text \<open>The configuration documents a momentum of one as no feedback; it keeps the first residual for
  ever.\<close>

lemma momentum_one_keeps_residual: "length old = length new \<Longrightarrow> blend 1 (Some old) new = old"
  by (induction old new rule: list_induct2) (auto simp: blend_def)

section \<open>The cap on residuals\<close>

lemma l2_norm_scale: "0 \<le> c \<Longrightarrow> l2_norm (map (\<lambda>x. x * c) xs) = c * l2_norm xs"
proof -
  assume "0 \<le> c"
  moreover have "(\<Sum>x\<leftarrow>map (\<lambda>x. x * c) xs. x\<^sup>2) = c\<^sup>2 * (\<Sum>x\<leftarrow>xs. x\<^sup>2)"
    by (induction xs) (simp_all add: power_mult_distrib algebra_simps)
  ultimately show ?thesis by (simp add: l2_norm_def real_sqrt_mult)
qed

lemma cap_norm_le: "0 \<le> c \<Longrightarrow> l2_norm (cap_norm (Some c) xs) \<le> c"
proof (cases "c < l2_norm xs")
  assume "0 \<le> c" "c < l2_norm xs"
  then show ?thesis using l2_norm_scale [of "c / l2_norm xs" xs] by (simp add: cap_norm_def)
qed (simp add: cap_norm_def)

definition residuals_capped :: "real \<Rightarrow> error_feedback \<Rightarrow> bool" where
  "residuals_capped c st \<longleftrightarrow> ef_max_residual_norm st = Some c \<and> list_all (\<lambda>(k, r). l2_norm (na_data r) \<le> c) (ef_residuals st)"

lemma ef_update_array_capped:
  "0 \<le> c \<Longrightarrow> residuals_capped c st \<Longrightarrow> ef_update_array k a s st = ok st' \<Longrightarrow> residuals_capped c st'"
  using set_update_subset [of k _ "ef_residuals st"]
  by (cases "np_zip (-) a s")
     (fastforce simp: ef_update_array_def residuals_capped_def list_all_iff Let_def cap_norm_le split: if_splits)+

lemma ef_update_keys_capped:
  "0 \<le> c \<Longrightarrow> residuals_capped c st \<Longrightarrow> residuals_capped c (fst (ef_update_keys kvs s st))"
proof (induction kvs arbitrary: st)
  case (Cons kv kvs)
  obtain k v where [simp]: "kv = (k, v)" by (cases kv)
  show ?case
    using Cons.IH [OF Cons.prems] Cons.IH [OF Cons.prems(1) ef_update_array_capped [OF Cons.prems]] Cons.prems(2)
    by (auto simp: Let_def result_bind_eq_ok split: pyval.split sum.split)
qed simp

text \<open>The cap on a residual holds for every tensor after every update, of a single array or of a
  dictionary, whatever the momentum and also when the update raises half way.\<close>

theorem residual_cap_invariant:
  assumes "0 \<le> c" "residuals_capped c st"
  shows "residuals_capped c (fst (ef_update corrected compressed st))"
proof -
  let ?st = "st\<lparr>ef_round := Suc (ef_round st)\<rparr>"
  have st: "residuals_capped c ?st" using assms(2) by (simp add: residuals_capped_def)
  show ?thesis
    using assms(2) st ef_update_keys_capped [OF assms(1) st] ef_update_array_capped [OF assms(1) st]
    by (auto simp: ef_update_def Let_def result_bind_eq_ok split: pyval.split sum.split)
qed

lemma residual_cap_invariant_witness:
  "residuals_capped 1 (fst (ef_update (PArr (example_array [3, 4])) (PArr (example_array [0, 0]))
     (error_feedback_init True (1 / 2) (Some 1))))"
  by (rule residual_cap_invariant) (simp_all add: residuals_capped_def error_feedback_init_def)

end
