(* ===== verification/Compression_Pipeline.thy ===== *)
theory Compression_Pipeline
  imports Compression_Properties
begin

text \<open>
  The two pipelines of \<open>serialization/compression.py\<close> end to end: the decompression budget, the pipeline
  without lossy steps, the pipeline with linear quantisation, and what the pipeline does with the
  error-feedback residual.
\<close>

section \<open>The decompression budget\<close>

lemma over_budget_ok: "over_budget m tot out = ok r \<longleftrightarrow> r = out \<and> tot + int (length out) \<le> m"
  by (auto simp: over_budget_def)

lemma inflate_loop_bound:
  "inflate_loop co m calls tot rest = ok r \<Longrightarrow> tot \<le> m \<Longrightarrow> tot + int (length r) \<le> m"
proof (induction co m calls tot rest arbitrary: r rule: inflate_loop.induct)
  case (1 co m calls tot rest)
  show ?case
  proof (cases "rest = []")
    case True
    then show ?thesis using "1.prems"(1) by (auto simp: inflate_loop.simps result_bind_eq_ok over_budget_ok)
  next
    case False
    then obtain out more where o: "co_inflate co (calls @ [(take 65536 rest, m - tot)]) = ok out"
        "tot + int (length out) \<le> m" "r = out @ more"
        "inflate_loop co m (calls @ [(take 65536 rest, m - tot)]) (tot + int (length out)) (drop 65536 rest) = ok more"
      using "1.prems"(1) by (subst (asm) inflate_loop.simps) (auto simp: result_bind_eq_ok over_budget_ok Let_def)
    have "over_budget m tot out = ok out" using o(2) by (simp add: over_budget_def)
    from "1.IH" [OF False refl o(1) this o(4,2)] show ?thesis by (simp add: o(3))
  qed
qed

text \<open>The decompression bomb guard: whatever zlib outputs, decompression returns at most a hundred times
  the octets it was given, or raises.\<close>

theorem unzip_budget:
  assumes "guarded_unzip co data = ok r"
  shows "length r \<le> 100 * length data"
  using inflate_loop_bound [OF assms [unfolded guarded_unzip_def]] by simp

section \<open>zlib\<close>

text \<open>What zlib documents: fed with a compressed stream piece by piece, with room each time for all that is
  still to come, the outputs and the flush together are the original.\<close>

fun outputs :: "codecs \<Rightarrow> (bytes \<times> int) list \<Rightarrow> (bytes \<times> int) list \<Rightarrow> bytes result" where
  "outputs co calls [] = co_flush co calls"
| "outputs co calls (c # cs) = result_bind (co_inflate co (calls @ [c])) (\<lambda>out.
     result_bind (outputs co (calls @ [c]) cs) (\<lambda>more. ok (out @ more)))"

definition out_length :: "bytes result \<Rightarrow> int" where
  "out_length r = (case r of Inl _ \<Rightarrow> 0 | Inr out \<Rightarrow> int (length out))"

fun roomy :: "codecs \<Rightarrow> int \<Rightarrow> int \<Rightarrow> (bytes \<times> int) list \<Rightarrow> (bytes \<times> int) list \<Rightarrow> bool" where
  "roomy co n tot calls [] = True"
| "roomy co n tot calls (c # cs) \<longleftrightarrow> n \<le> tot + snd c \<and> roomy co n (tot + out_length (co_inflate co (calls @ [c]))) (calls @ [c]) cs"

definition zlib_law :: "codecs \<Rightarrow> bool" where
  "zlib_law co \<longleftrightarrow> (\<forall>s cs. concat (map fst cs) = co_zip co s \<longrightarrow> roomy co (int (length s)) 0 [] cs \<longrightarrow> outputs co [] cs = ok s)"

text \<open>The calls the loop makes.\<close>

function loop_calls :: "codecs \<Rightarrow> int \<Rightarrow> (bytes \<times> int) list \<Rightarrow> int \<Rightarrow> bytes \<Rightarrow> (bytes \<times> int) list" where
  "loop_calls co m calls tot rest = (if rest = [] then [] else
     let c = (take 65536 rest, m - tot) in
     c # loop_calls co m (calls @ [c]) (tot + out_length (co_inflate co (calls @ [c]))) (drop 65536 rest))"
  by pat_completeness auto
termination by (relation "measure (\<lambda>(co, m, calls, tot, rest). length rest)") auto

declare loop_calls.simps [simp del]

lemma loop_calls_data: "concat (map fst (loop_calls co m calls tot rest)) = rest"
  by (induction co m calls tot rest rule: loop_calls.induct) (subst loop_calls.simps, simp add: Let_def)

lemma loop_calls_roomy: "n \<le> m \<Longrightarrow> roomy co n tot calls (loop_calls co m calls tot rest)"
  by (induction co m calls tot rest rule: loop_calls.induct) (subst loop_calls.simps, simp add: Let_def)

lemma inflate_loop_outputs:
  "outputs co calls (loop_calls co m calls tot rest) = ok s \<Longrightarrow> tot + int (length s) \<le> m \<Longrightarrow>
   inflate_loop co m calls tot rest = ok s"
proof (induction co m calls tot rest arbitrary: s rule: inflate_loop.induct)
  case (1 co m calls tot rest)
  show ?case
  proof (cases "rest = []")
    case True
    with "1.prems" show ?thesis by (simp add: loop_calls.simps inflate_loop.simps over_budget_def)
  next
    case False
    let ?c = "calls @ [(take 65536 rest, m - tot)]"
    from False "1.prems"(1) obtain out more where o: "co_inflate co ?c = ok out" "s = out @ more"
      "outputs co ?c (loop_calls co m ?c (tot + int (length out)) (drop 65536 rest)) = ok more"
      by (subst (asm) loop_calls.simps) (auto simp: Let_def result_bind_eq_ok out_length_def)
    moreover have m: "tot + int (length out) + int (length more) \<le> m" using "1.prems"(2) o(2) by simp
    then have "over_budget m tot out = ok out" by (simp add: over_budget_def)
    from "1.IH" [OF False refl o(1) this o(3) m]
    have "inflate_loop co m ?c (tot + int (length out)) (drop 65536 rest) = ok more" .
    then show ?thesis using False o(1,2) "1.prems"(2) by (subst inflate_loop.simps) (simp add: Let_def over_budget_def)
  qed
qed

lemma guarded_unzip_zip:
  assumes "zlib_law co" "length s \<le> 100 * length (co_zip co s)"
  shows "guarded_unzip co (co_zip co s) = ok s"
proof -
  let ?m = "int (length (co_zip co s)) * 100"
  have m: "int (length s) \<le> ?m" using assms(2) by simp
  have "outputs co [] (loop_calls co ?m [] 0 (co_zip co s)) = ok s"
    using assms(1) loop_calls_data loop_calls_roomy [OF m] unfolding zlib_law_def by blast
  from inflate_loop_outputs [OF this] m show ?thesis by (simp add: guarded_unzip_def)
qed

section \<open>The serialisation steps\<close>

text \<open>What the last two steps need of one payload: it deserialises, and is at most a hundred times its zlib
  stream.\<close>

definition payload_fits :: "codecs \<Rightarrow> pyval \<Rightarrow> bool" where
  "payload_fits co p \<longleftrightarrow> co_deserialize co (co_serialize co p) = ok p \<and>
     length (co_serialize co p) \<le> 100 * length (co_zip co (co_serialize co p))"

text \<open>The decompression after deserialising.\<close>

definition decompress_steps :: "compression_meta \<Rightarrow> pyval option \<Rightarrow> pyval \<Rightarrow> pyval result" where
  "decompress_steps meta base w0 =
     result_bind (if ''quantize'' \<in> set (cm_steps meta) then
         (case cm_quant_meta meta of None \<Rightarrow> raise (ValueError ''quant_meta is None'') | Some qm \<Rightarrow> dequantize_weights w0 qm)
       else ok w0) (\<lambda>w1.
     result_bind (if ''sparsify'' \<in> set (cm_steps meta) then
         (case cm_sparse_meta meta of None \<Rightarrow> raise (ValueError ''sparse_meta is None'')
          | Some sm \<Rightarrow> desparsify_weights w1 sm (if cm_has_delta meta then None else base))
       else ok w1) (\<lambda>w2.
     result_bind (case (cm_has_delta meta, base) of (True, Some b) \<Rightarrow> apply_delta b w2 | _ \<Rightarrow> ok w2) (\<lambda>w3.
     ok (if ''downcast'' \<in> set (cm_steps meta) then upcast_weights (cm_original_dtypes meta) w3 else w3))))"

lemma step_names:
  "step_downcast cfg w = ok (w0, s0, ds) \<Longrightarrow> set s0 \<subseteq> {''downcast''}"
  "step_delta cfg base w = ok (w1, s1, h) \<Longrightarrow> set s1 \<subseteq> {''delta''}"
  "step_sparsify co cfg w = ok (w3, s3, sm) \<Longrightarrow> set s3 \<subseteq> {''sparsify''}"
  "step_residual cfg ef w w' sm = ok (ef', s4) \<Longrightarrow> set s4 \<subseteq> {''error_feedback''}"
  "step_quantize co cfg w = ok (w5, s5, qm) \<Longrightarrow> set s5 \<subseteq> {''quantize''}"
  by (auto simp: step_downcast_def step_delta_def step_sparsify_def step_residual_def step_quantize_def result_bind_eq_ok
      case_prod_beta split: option.splits bool.splits if_splits sum.splits)
     (metis (full_types) old.sum.exhaust old.unit.exhaust)

lemma compress_steps_no_zlib:
  assumes "compress_steps co cfg base ef w = ok (p, meta, ef')"
  shows "''zlib'' \<notin> set (cm_steps meta)"
proof -
  from assms obtain w0 s0 ds w1 s1 h w2 w3 s3 sm s4 s5 qm where
    "step_downcast cfg w = ok (w0, s0, ds)" "step_delta cfg base w0 = ok (w1, s1, h)"
    "step_sparsify co cfg w2 = ok (w3, s3, sm)" "step_residual cfg ef w1 w3 sm = ok (ef', s4)"
    "step_quantize co cfg w3 = ok (p, s5, qm)" "cm_steps meta = s0 @ s1 @ s3 @ s4 @ s5"
    by (auto simp: compress_steps_def result_bind_eq_ok)
  then show ?thesis
    using step_names(1) [of cfg w w0 s0 ds] step_names(2) [of cfg base w0 w1 s1 h] step_names(3) [of co cfg w2 w3 s3 sm]
      step_names(4) [of cfg ef w1 w3 sm ef' s4] step_names(5) [of co cfg w3 p s5 qm] by auto
qed

lemma decompress_steps_zlib:
  "decompress_steps (meta\<lparr>cm_steps := cm_steps meta @ [''zlib'']\<rparr>) base w = decompress_steps meta base w"
  by (simp add: decompress_steps_def)

text \<open>The round trip is the steps and their inverses, whether or not zlib was used.\<close>

lemma roundtrip_steps:
  assumes "zlib_law co" "compress_steps co cfg base ef w = ok (p, meta, ef')" "payload_fits co p"
  shows "compress_decompress_roundtrip co cfg base ef w = decompress_steps meta base p"
proof -
  have d: "co_deserialize co (co_serialize co p) = ok p" using assms(3) by (simp add: payload_fits_def)
  have z: "guarded_unzip co (co_zip co (co_serialize co p)) = ok (co_serialize co p)"
    using guarded_unzip_zip assms(1,3) by (simp add: payload_fits_def)
  let ?m = "meta\<lparr>cm_steps := cm_steps meta @ [''zlib'']\<rparr>"
  have "decompress_weights co ?m base (co_zip co (co_serialize co p)) = decompress_steps ?m base p"
    by (simp add: decompress_weights_def decompress_steps_def z d)
  moreover have "decompress_weights co meta base (co_serialize co p) = decompress_steps meta base p"
    using compress_steps_no_zlib [OF assms(2)] by (simp add: decompress_weights_def decompress_steps_def d)
  ultimately show ?thesis
    by (simp add: compress_decompress_roundtrip_def compress_weights_def assms(2) Let_def decompress_steps_zlib)
qed

section \<open>Without lossy steps\<close>

text \<open>C27: A pipeline with neither sparsification, quantisation nor a smaller dtype is the identity on a
  dictionary, with or without deltas and zlib: the decompressed model has exactly the keys and values of the
  original, dropped keys included. It is so when the payload fits, that is when the serializer reads back what it
  wrote and the payload is at most a hundred times its zlib stream (more the decompression refuses), and, if a
  delta is taken, when the model and the base are arrays, agree on the shape and dtype of every key they share, and
  the elements there and their differences are values of \<open>float64\<close> (always so in \<open>float16\<close>, see
  \<open>float16_deltas_exact\<close>; \<open>float64_delta_rounds\<close> is a delta that is not).\<close>

theorem pipeline_lossless:
  assumes "zlib_law co" "cc_weight_dtype cfg = None" "cc_sparsification cfg = None" "cc_quantization cfg = None"
    and "cc_delta_enabled cfg \<Longrightarrow> case base of None \<Rightarrow> True | Some b \<Rightarrow> \<exists>kvs. b = PDict kvs \<and> compatible_models cur kvs"
    and "\<And>p meta ef'. compress_steps co cfg base ef (PDict cur) = ok (p, meta, ef') \<Longrightarrow> payload_fits co p"
  shows "\<exists>r. compress_decompress_roundtrip co cfg base ef (PDict cur) = ok (PDict r) \<and> map_of r = map_of cur"
proof (cases "cc_delta_enabled cfg \<and> base \<noteq> None")
  case True
  then obtain kvs where b: "base = Some (PDict kvs)" "compatible_models cur kvs" using assms(5) by auto
  from delta_applies [OF b(2)] obtain d r where d: "compute_delta (PDict cur) (PDict kvs) = ok d"
    "apply_delta (PDict kvs) d = ok (PDict r)" "map_of r = map_of cur" by blast
  let ?m = "\<lparr>cm_steps = [''delta''], cm_has_delta = True, cm_original_dtypes = [], cm_sparse_meta = None, cm_quant_meta = None\<rparr>"
  have c: "compress_steps co cfg base ef (PDict cur) = ok (d, ?m, ef)" using True assms(2-4) d(1) b(1)
    by (simp add: compress_steps_def step_downcast_def step_delta_def step_inject_def feedback_active_def
        step_sparsify_def step_residual_def step_quantize_def)
  from roundtrip_steps [OF assms(1) c assms(6) [OF c]] d show ?thesis by (simp add: decompress_steps_def b(1))
next
  case False
  let ?m = "\<lparr>cm_steps = [], cm_has_delta = False, cm_original_dtypes = [], cm_sparse_meta = None, cm_quant_meta = None\<rparr>"
  have c: "compress_steps co cfg base ef (PDict cur) = ok (PDict cur, ?m, ef)" using False assms(2-4)
    by (auto simp: compress_steps_def step_downcast_def step_delta_def step_inject_def feedback_active_def
        step_sparsify_def step_residual_def step_quantize_def split: bool.splits option.splits)
  from roundtrip_steps [OF assms(1) c assms(6) [OF c]] show ?thesis by (simp add: decompress_steps_def)
qed

text \<open>Toy outside functions: zlib that stores, and a serialisation of the one model \<open>p\<close>.\<close>

definition stored :: "pyval \<Rightarrow> codecs" where
  "stored p = \<lparr>co_pick = largest_first, co_wild = (\<lambda>x. x), co_noise = (\<lambda>_. []), co_serialize = (\<lambda>_. replicate 2000 0),
     co_deserialize = (\<lambda>_. ok p), co_zip = (\<lambda>b. b), co_inflate = (\<lambda>calls. ok (fst (last calls))), co_flush = (\<lambda>_. ok [])\<rparr>"

lemma stored_zlib: "zlib_law (stored p)"
proof -
  have "outputs (stored p) calls cs = ok (concat (map fst cs))" for calls cs
    by (induction cs arbitrary: calls) (simp_all add: stored_def)
  then show ?thesis by (simp add: zlib_law_def) (simp add: stored_def)
qed

lemma stored_fits: "payload_fits (stored p) p"
  by (simp add: payload_fits_def stored_def)

definition plain_config :: compression_config where
  "plain_config = \<lparr>cc_quantization = None, cc_sparsification = None, cc_delta_enabled = False, cc_zlib_compression = True,
     cc_zlib_threshold_bytes = 1024, cc_error_feedback = False, cc_weight_dtype = None\<rparr>"

lemma plain_steps:
  "compress_steps co plain_config None None w = ok (p, meta, ef') \<longleftrightarrow> p = w \<and> ef' = None \<and>
     meta = \<lparr>cm_steps = [], cm_has_delta = False, cm_original_dtypes = [], cm_sparse_meta = None, cm_quant_meta = None\<rparr>"
  by (auto simp: compress_steps_def step_downcast_def step_delta_def step_inject_def feedback_active_def
      step_sparsify_def step_residual_def step_quantize_def plain_config_def)

definition example_base :: "(string \<times> pyval) list" where
  "example_base = [(''w'', PArr (example_array [1, 1])), (''old'', PArr (example_array [7]))]"

definition delta_example :: pyval where
  "delta_example = (case compute_delta (PDict [(''w'', PArr (example_array [3, 4]))]) (PDict example_base) of
     Inr d \<Rightarrow> d | Inl _ \<Rightarrow> PNone)"

lemma example_compatible: "compatible_models [(''w'', PArr (example_array [3, 4]))] example_base"
  using float64_int [of 3] float64_int [of 4] float64_int [of 1] float64_int [of 2]
  by (simp add: compatible_models_def same_layout_def exact_delta_def example_base_def)

lemma pipeline_lossless_witness:
  "\<exists>r. compress_decompress_roundtrip (stored delta_example) (plain_config\<lparr>cc_delta_enabled := True\<rparr>)
       (Some (PDict example_base)) None (PDict [(''w'', PArr (example_array [3, 4]))]) = ok (PDict r) \<and>
     map_of r = map_of [(''w'', PArr (example_array [3, 4]))]"
proof (rule pipeline_lossless [OF stored_zlib])
  show "payload_fits (stored delta_example) p"
    if "compress_steps (stored delta_example) (plain_config\<lparr>cc_delta_enabled := True\<rparr>) (Some (PDict example_base)) None
      (PDict [(''w'', PArr (example_array [3, 4]))]) = ok (p, meta, ef')" for p meta ef'
  proof -
    have "p = delta_example" using that
      by (auto simp: compress_steps_def step_downcast_def step_delta_def step_inject_def feedback_active_def delta_example_def
          step_sparsify_def step_residual_def step_quantize_def plain_config_def result_bind_eq_ok)
    then show ?thesis using stored_fits by simp
  qed
qed (use example_compatible in \<open>simp_all add: plain_config_def\<close>)

lemma unzip_budget_witness:
  "guarded_unzip (stored PNone) [1, 2] = ok [1, 2] \<and> length [1, 2 :: byte] \<le> 100 * length [1, 2 :: byte]"
proof -
  have "guarded_unzip (stored PNone) [1, 2] = ok [1, 2]"
    by (simp add: guarded_unzip_def inflate_loop.simps [of "stored PNone"] over_budget_def) (simp add: stored_def over_budget_def)
  with unzip_budget [OF this] show ?thesis by simp
qed

section \<open>With linear quantisation\<close>

text \<open>C28: The whole pipeline with linear quantisation of 4, 8 or 16 bits. A single non-empty floating-point array
  compressed without a base, sparsification or downcast and decompressed, with or without zlib, comes back in its
  shape and dtype, within the range of the original, and differs from it in every element by at most half a
  quantisation step in \<open>float64\<close> and by at most one step in a narrower dtype, to which the result is rounded
  (the step is the range of the array divided by the number of levels less one). The payload has to fit: the
  serializer reads back what it wrote, and the payload is at most a hundred times its zlib stream, more being
  refused. Before the last rounding the arithmetic is exact.\<close>

theorem pipeline_quantization_error:
  assumes "zlib_law co" "cc_weight_dtype cfg = None" "cc_sparsification cfg = None" "cc_quantization cfg = Some qc"
    "quantization_config_init bits ''linear'' = ok qc" "bits \<in> {4, 8, 16}"
    and a: "narray_wf a" "na_data a \<noteq> []" "floating (na_dtype a)"
    and fits: "\<And>p meta ef'. compress_steps co cfg None ef (PArr a) = ok (p, meta, ef') \<Longrightarrow> payload_fits co p"
  shows "\<exists>a'. compress_decompress_roundtrip co cfg None ef (PArr a) = ok (PArr a') \<and> na_shape a' = na_shape a \<and>
    na_dtype a' = na_dtype a \<and>
    list_all2 (\<lambda>x y. \<bar>y - x\<bar> \<le> quantization_error bits a \<and> Min (set (na_data a)) \<le> y \<and> y \<le> Max (set (na_data a)))
      (na_data a) (na_data a')"
proof -
  from quantize_array_linear [OF a assms(6,5), of "co_wild co" "co_noise co []"]
  obtain q m a' where q: "quantize_array (co_wild co) (co_noise co []) qc a = ok (q, Some m)" "dequantize_array q m = ok a'"
    and a': "na_shape a' = na_shape a \<and> na_dtype a' = na_dtype a \<and>
      list_all2 (\<lambda>x y. \<bar>y - x\<bar> \<le> quantization_error bits a \<and> Min (set (na_data a)) \<le> y \<and> y \<le> Max (set (na_data a)))
        (na_data a) (na_data a')" by blast
  let ?m = "\<lparr>cm_steps = [''quantize''], cm_has_delta = False, cm_original_dtypes = [], cm_sparse_meta = None,
      cm_quant_meta = Some (QOne (Some m))\<rparr>"
  have c: "compress_steps co cfg None ef (PArr a) = ok (PArr q, ?m, ef)" using assms(2-4) q(1)
    by (auto simp: compress_steps_def step_downcast_def step_delta_def step_inject_def feedback_active_def
        step_sparsify_def step_residual_def step_quantize_def quantize_weights_def split: bool.splits)
  have "compress_decompress_roundtrip co cfg None ef (PArr a) = ok (PArr a')"
    using roundtrip_steps [OF assms(1) c fits [OF c]] q(2) by (simp add: decompress_steps_def dequantize_weights_def)
  with a' show ?thesis by blast
qed

definition quantized_example :: pyval where
  "quantized_example = (case quantize_array (\<lambda>x. x) [] \<lparr>qc_bits = 8, qc_method = ''linear''\<rparr> (example_array [0, 1]) of
     Inr (q, _) \<Rightarrow> PArr q | Inl _ \<Rightarrow> PNone)"

lemma pipeline_quantization_error_witness:
  "\<exists>a'. compress_decompress_roundtrip (stored quantized_example)
      (plain_config\<lparr>cc_quantization := Some \<lparr>qc_bits = 8, qc_method = ''linear''\<rparr>\<rparr>) None None (PArr (example_array [0, 1])) = ok (PArr a')
    \<and> na_shape a' = [2]"
proof -
  let ?cfg = "plain_config\<lparr>cc_quantization := Some \<lparr>qc_bits = 8, qc_method = ''linear''\<rparr>\<rparr>"
  have "payload_fits (stored quantized_example) p"
    if "compress_steps (stored quantized_example) ?cfg None None (PArr (example_array [0, 1])) = ok (p, meta, ef')" for p meta ef'
  proof -
    have "p = quantized_example" using that
      by (auto simp: compress_steps_def step_downcast_def step_delta_def step_inject_def feedback_active_def quantized_example_def
          step_sparsify_def step_residual_def step_quantize_def quantize_weights_def plain_config_def stored_def result_bind_eq_ok)
    then show ?thesis using stored_fits by simp
  qed
  note fits = this
  have "\<exists>a'. compress_decompress_roundtrip (stored quantized_example) ?cfg None None (PArr (example_array [0, 1])) = ok (PArr a') \<and>
      na_shape a' = na_shape (example_array [0, 1]) \<and> na_dtype a' = na_dtype (example_array [0, 1]) \<and>
      list_all2 (\<lambda>x y. \<bar>y - x\<bar> \<le> quantization_error 8 (example_array [0, 1]) \<and>
          Min (set (na_data (example_array [0, 1]))) \<le> y \<and> y \<le> Max (set (na_data (example_array [0, 1]))))
        (na_data (example_array [0, 1])) (na_data a')"
    by (rule pipeline_quantization_error [where qc = "\<lparr>qc_bits = 8, qc_method = ''linear''\<rparr>", OF stored_zlib])
       (erule fits | simp add: plain_config_def quantization_config_init_def)+
  then show ?thesis by auto
qed

section \<open>What the pipeline does with the residual\<close>

lemma sparsify_array_form:
  "sparsify_array pick cfg a = ok (s, Some m) \<Longrightarrow>
   (s = PArr a \<and> (\<exists>sh d. m = DenseMeta sh d)) \<or> (\<exists>idx d vals. s = sparse_dict idx d vals)"
  by (simp add: sparsify_array_def Let_def split: if_splits) blast+

text \<open>The dense form that the error feedback sees is what the receiver reconstructs.\<close>

lemma sparsify_dense:
  assumes "picks_largest pick" "narray_wf a" "floating (na_dtype a)" "sc_method cfg = ''top_k''"
  shows "\<exists>s m sent. sparsify_weights pick cfg (PArr a) = ok (s, m) \<and> same_layout sent a \<and>
    desparsify_weights s m None = ok (PArr sent) \<and>
    (case s of PDict _ \<Rightarrow> desparsify_weights s m None | _ \<Rightarrow> ok s) = ok (PArr sent)"
proof -
  from sparsify_array_top_k [OF assms] obtain s m a' where s: "sparsify_array pick cfg a = ok (s, Some m)"
    "desparsify_array s m None = ok (PArr a')" "na_shape a' = na_shape a" "length (na_data a') = length (na_data a)" by blast
  have w: "sparsify_weights pick cfg (PArr a) = ok (s, SOne (Some m))" by (simp add: sparsify_weights_def s(1))
  have "desparsify_weights s (SOne (Some m)) None = ok (PArr a') \<and>
      (case s of PDict _ \<Rightarrow> desparsify_weights s (SOne (Some m)) None | _ \<Rightarrow> ok s) = ok (PArr a')"
    using sparsify_array_form [OF s(1)]
  proof (elim disjE)
    assume "s = PArr a \<and> (\<exists>sh d. m = DenseMeta sh d)"
    then show ?thesis using s(2) by (auto simp: desparsify_weights_def desparsify_array_def base_array_def)
  next
    assume "\<exists>idx d vals. s = sparse_dict idx d vals"
    then have "\<exists>kvs. s = PDict kvs \<and> is_sparse_dict kvs" by (auto simp: sparse_dict_def is_sparse_dict_def)
    then show ?thesis using s(2) by (auto simp: desparsify_weights_def base_array_def)
  qed
  with w s(3,4) show ?thesis unfolding same_layout_def by blast
qed

text \<open>The pipeline forgets the residual it injects. With top-k and error feedback, what the receiver
  reconstructs and the new residual add up to the model alone, not to the model and the old residual that
  was added to it before sparsifying: the documented sequence (\<open>update(corrected, compressed)\<close>) conserves
  that sum, the pipeline passes the uncorrected delta.\<close>

theorem pipeline_residual:
  assumes "picks_largest (co_pick co)" "narray_wf a" "floating (na_dtype a)" "plain_feedback a st"
    and cfg: "cc_weight_dtype cfg = None" "cc_sparsification cfg = Some sc" "sc_method sc = ''top_k''"
      "cc_quantization cfg = None" "cc_error_feedback cfg"
  shows "\<exists>p meta st' sent. compress_steps co cfg None (Some st) (PArr a) = ok (p, meta, Some st') \<and>
    decompress_steps meta None p = ok (PArr sent) \<and>
    (\<forall>i < length (na_data a). na_data sent ! i + residual_at st' i = na_data a ! i)"
proof -
  have "same_layout a a" by (simp add: same_layout_def)
  then obtain c where c: "ef_apply st (PArr a) = ok (PArr c)" "same_layout c a" using ef_apply_plain [OF assms(4)] by blast
  have "floating (na_dtype c)"
    using c(1) assms(3,4) by (auto simp: ef_apply_def ef_apply_array_def plain_feedback_def np_zip_def floating_def split: option.splits if_splits)
  moreover have "na_dtype c = ''float64'' \<or> c = a"
    using c(1) assms(4) by (auto simp: ef_apply_def ef_apply_array_def plain_feedback_def np_zip_def split: option.splits if_splits)
  then have "narray_wf c" using c(2) assms(2) by (auto simp: narray_wf_def same_layout_def list_all_iff)
  ultimately obtain s m sent where s: "sparsify_weights (co_pick co) sc (PArr c) = ok (s, m)" "same_layout sent c"
    "desparsify_weights s m None = ok (PArr sent)"
    "(case s of PDict _ \<Rightarrow> desparsify_weights s m None | _ \<Rightarrow> ok s) = ok (PArr sent)"
    using sparsify_dense [OF assms(1) _ _ cfg(3)] by blast
  have "same_layout sent a" using s(2) c(2) by (rule same_layout_trans)
  from ef_update_plain [OF assms(4) \<open>same_layout a a\<close> this] obtain st' where
    st': "ef_update (PArr a) (PArr sent) st = (st', ok ())"
    "\<forall>i < length (na_data a). residual_at st' i = na_data a ! i - na_data sent ! i" by blast
  let ?m = "\<lparr>cm_steps = [''sparsify'', ''error_feedback''], cm_has_delta = False, cm_original_dtypes = [],
      cm_sparse_meta = Some m, cm_quant_meta = None\<rparr>"
  have "step_residual cfg (Some st) (PArr a) s (Some m) = ok (Some st', [''error_feedback''])"
    unfolding step_residual_def option.sel s(4) using cfg(2,5) st'(1) by (simp add: feedback_active_def)
  then have "compress_steps co cfg None (Some st) (PArr a) = ok (s, ?m, Some st')"
    using cfg c(1) s(1)
    by (auto simp: compress_steps_def step_downcast_def step_delta_def step_inject_def feedback_active_def
        step_sparsify_def step_quantize_def split: bool.splits)
  moreover have "decompress_steps ?m None s = ok (PArr sent)" using s(3) by (simp add: decompress_steps_def)
  ultimately show ?thesis using st'(2) by auto
qed

lemma pipeline_residual_witness:
  "\<exists>p meta st' sent. compress_steps (stored PNone)
       (plain_config\<lparr>cc_sparsification := Some example_sparsification, cc_error_feedback := True\<rparr>) None
       (Some (error_feedback_init True 0 None\<lparr>ef_residuals := [(SINGLE, example_array [0, 0, 9])]\<rparr>))
       (PArr (example_array [1, 2, 3])) = ok (p, meta, Some st') \<and>
     decompress_steps meta None p = ok (PArr sent) \<and> na_data sent ! 2 + residual_at st' 2 = 3"
proof -
  have "picks_largest (co_pick (stored PNone))" using largest_first_picks by (simp add: stored_def)
  from pipeline_residual [OF this example_array_simps(4) [of "[1, 2, 3]"], where sc = example_sparsification
      and st = "error_feedback_init True 0 None\<lparr>ef_residuals := [(SINGLE, example_array [0, 0, 9])]\<rparr>"
      and cfg = "plain_config\<lparr>cc_sparsification := Some example_sparsification, cc_error_feedback := True\<rparr>"]
  obtain p meta st' sent where "compress_steps (stored PNone)
       (plain_config\<lparr>cc_sparsification := Some example_sparsification, cc_error_feedback := True\<rparr>) None
       (Some (error_feedback_init True 0 None\<lparr>ef_residuals := [(SINGLE, example_array [0, 0, 9])]\<rparr>))
       (PArr (example_array [1, 2, 3])) = ok (p, meta, Some st')" "decompress_steps meta None p = ok (PArr sent)"
     "\<forall>i < length (na_data (example_array [1, 2, 3])). na_data sent ! i + residual_at st' i = na_data (example_array [1, 2, 3]) ! i"
    by (auto simp: plain_feedback_def error_feedback_init_def same_layout_def plain_config_def example_sparsification_def)
  then show ?thesis by (intro exI [of _ p] exI [of _ meta] exI [of _ st'] exI [of _ sent]) simp
qed

end
