(* ===== verification/Fingerprint.thy ===== *)
theory Fingerprint
  imports Quink_Prelude "HOL-Library.List_Lexorder" "HOL-Library.Char_ord"
begin

text \<open>
  Data fingerprints (\<open>fingerprint/fingerprint.py\<close>): the calibrated noise of the privacy configuration and the
  affinity of two fingerprints, a weighted mean of label, feature, gradient and history similarity. Numbers
  are reals; a set of labels is a list without repetitions. The conversion from and to JSON is not modelled.
\<close>

section \<open>Noise calibration\<close>

definition calibrated_noise_scale :: "string \<Rightarrow> real \<Rightarrow> real \<Rightarrow> real \<Rightarrow> real result" where
  "calibrated_noise_scale mechanism sensitivity epsilon delta =
     (if sensitivity \<le> 0 then raise (ValueError ''sensitivity must be > 0'')
      else if epsilon \<le> 0 then raise (ValueError ''epsilon must be > 0'')
      else if mechanism = ''none'' then ok 0
      else if mechanism = ''laplace'' then ok (sensitivity / epsilon)
      else if mechanism = ''gaussian'' then
        if \<not> (0 < delta \<and> delta < 1) then raise (ValueError ''delta must be in (0, 1)'')
        else ok (sensitivity * sqrt (2 * ln (125 / 100 / delta)) / epsilon)
      else raise (ValueError ''mechanism must be one of''))"

record privacy_config =
  pc_feature_noise_sigma :: real
  pc_feature_clip_norm :: real
  pc_feature_dp_epsilon :: "real option"
  pc_feature_dp_delta :: real
  pc_feature_sensitivity :: "real option"
  pc_feature_noise_mechanism :: string
  pc_gradient_enabled :: bool
  pc_gradient_noise_sigma :: real
  pc_gradient_dp_epsilon :: "real option"
  pc_gradient_dp_delta :: real
  pc_gradient_sensitivity :: "real option"
  pc_gradient_noise_mechanism :: string

definition valid_mechanism :: "string \<Rightarrow> bool" where
  "valid_mechanism m \<longleftrightarrow> m \<in> {''gaussian'', ''laplace'', ''none''}"

definition or_else :: "'a option \<Rightarrow> 'a \<Rightarrow> 'a" where
  "or_else v d = (case v of None \<Rightarrow> d | Some x \<Rightarrow> x)"

definition privacy_validate :: "privacy_config \<Rightarrow> unit result" where
  "privacy_validate c =
     (if pc_feature_noise_sigma c < 0 then raise (ValueError ''feature_noise_sigma must be non-negative'')
      else if pc_gradient_noise_sigma c < 0 then raise (ValueError ''gradient_noise_sigma must be non-negative'')
      else if \<exists>e. pc_feature_dp_epsilon c = Some e \<and> e \<le> 0 then raise (ValueError ''feature_dp_epsilon must be positive when set'')
      else if \<exists>e. pc_gradient_dp_epsilon c = Some e \<and> e \<le> 0 then raise (ValueError ''gradient_dp_epsilon must be positive when set'')
      else if pc_feature_dp_delta c \<le> 0 \<or> 1 \<le> pc_feature_dp_delta c then raise (ValueError ''feature_dp_delta must be in (0, 1)'')
      else if pc_gradient_dp_delta c \<le> 0 \<or> 1 \<le> pc_gradient_dp_delta c then raise (ValueError ''gradient_dp_delta must be in (0, 1)'')
      else if or_else (pc_feature_sensitivity c) (pc_feature_clip_norm c) \<le> 0
        then raise (ValueError ''feature_sensitivity/feature_clip_norm must be positive'')
      else if pc_gradient_enabled c \<and> or_else (pc_gradient_sensitivity c) (pc_feature_clip_norm c) \<le> 0
        then raise (ValueError ''gradient_sensitivity must be positive when gradient_enabled is True'')
      else ok ())"

definition privacy_post_init :: "privacy_config \<Rightarrow> unit result" where
  "privacy_post_init c =
     (if \<not> valid_mechanism (pc_feature_noise_mechanism c) then raise (ValueError ''feature_noise_mechanism must be one of'')
      else if pc_gradient_enabled c \<and> \<not> valid_mechanism (pc_gradient_noise_mechanism c)
        then raise (ValueError ''gradient_noise_mechanism must be one of'')
      else privacy_validate c)"

definition effective_feature_noise_scale :: "privacy_config \<Rightarrow> real result" where
  "effective_feature_noise_scale c = (case pc_feature_dp_epsilon c of
      None \<Rightarrow> ok (pc_feature_noise_sigma c)
    | Some e \<Rightarrow> calibrated_noise_scale (pc_feature_noise_mechanism c)
        (or_else (pc_feature_sensitivity c) (pc_feature_clip_norm c)) e (pc_feature_dp_delta c))"

definition effective_gradient_noise_scale :: "privacy_config \<Rightarrow> real result" where
  "effective_gradient_noise_scale c = (case pc_gradient_dp_epsilon c of
      None \<Rightarrow> ok (pc_gradient_noise_sigma c)
    | Some e \<Rightarrow> (case pc_gradient_sensitivity c of
        None \<Rightarrow> raise (ValueError ''gradient_sensitivity must be set when gradient_dp_epsilon is used'')
      | Some s \<Rightarrow> calibrated_noise_scale (pc_gradient_noise_mechanism c) s e (pc_gradient_dp_delta c)))"

section \<open>Affinity\<close>

definition BUCKET_RANGES :: "(string, real \<times> real) pydict" where
  "BUCKET_RANGES = [(''low'', 0, 2 / 10), (''medium'', 2 / 10, 5 / 10), (''high'', 5 / 10, 1)]"

definition adjacent_bucket :: "string \<Rightarrow> string \<Rightarrow> (string, real \<times> real) pydict option \<Rightarrow> bool" where
  "adjacent_bucket a b bucket_ranges =
     (if a = b then False else
      let ranges = (case bucket_ranges of Some (r # rs) \<Rightarrow> r # rs | _ \<Rightarrow> BUCKET_RANGES) in
      case (map_of ranges a, map_of ranges b) of
        (Some ra, Some rb) \<Rightarrow> \<not> (snd ra < fst rb \<or> snd rb < fst ra)
      | _ \<Rightarrow> False)"

record affinity_params =
  aw_label :: real
  aw_feature :: real
  aw_gradient :: real
  aw_history :: real
  aw_external_history_score :: real

definition affinity_params_init :: affinity_params where
  "affinity_params_init =
     \<lparr>aw_label = 4 / 10, aw_feature = 3 / 10, aw_gradient = 15 / 100, aw_history = 15 / 100, aw_external_history_score = 0\<rparr>"

record fingerprint =
  fp_label_buckets :: "(string, string) pydict"
  fp_noised_moments :: "(string, real \<times> real) pydict"
  fp_sample_bucket :: string
  fp_num_classes :: int
  fp_gradient_moments :: "(string, real \<times> real) pydict option"
  fp_class_count_bucket :: string
  fp_round_nonce :: "string option"

definition label_match :: "fingerprint \<Rightarrow> fingerprint \<Rightarrow> string \<Rightarrow> real" where
  "label_match a b label = (case (map_of (fp_label_buckets a) label, map_of (fp_label_buckets b) label) of
      (Some x, Some y) \<Rightarrow> if x = y then 1 else if adjacent_bucket x y None then 1 / 2 else 0
    | _ \<Rightarrow> 0)"

definition label_similarity :: "fingerprint \<Rightarrow> fingerprint \<Rightarrow> real" where
  "label_similarity a b =
     (let all_labels = remdups (map fst (fp_label_buckets a) @ map fst (fp_label_buckets b)) in
      if all_labels = [] then 1 else (\<Sum>l\<leftarrow>all_labels. label_match a b l) / real (length all_labels))"

text \<open>The moments in the order of their names; \<open>None\<close> where there are none.\<close>

definition flatten_moments :: "(string, real \<times> real) pydict \<Rightarrow> real list option" where
  "flatten_moments ms = (case concat (map (\<lambda>(k, mean, var). [mean, var]) (sort_key fst ms)) of
      [] \<Rightarrow> None | parts \<Rightarrow> Some parts)"

definition vec_norm :: "real list \<Rightarrow> real" where
  "vec_norm xs = sqrt (\<Sum>x\<leftarrow>xs. x\<^sup>2)"

text \<open>\<open>np.dot\<close> of vectors of different length raises.\<close>

definition np_dot :: "real list \<Rightarrow> real list \<Rightarrow> real result" where
  "np_dot xs ys = (if length xs = length ys then ok (\<Sum>(x, y)\<leftarrow>zip xs ys. x * y)
                   else raise (ValueError ''shapes not aligned''))"

definition cosine :: "real \<Rightarrow> real list option \<Rightarrow> real list option \<Rightarrow> real result" where
  "cosine neutral a b = (case (a, b) of
      (Some xs, Some ys) \<Rightarrow>
        if vec_norm xs = 0 \<or> vec_norm ys = 0 then ok neutral
        else result_bind (np_dot xs ys) (\<lambda>d. ok (d / (vec_norm xs * vec_norm ys)))
    | _ \<Rightarrow> ok neutral)"

definition feature_similarity :: "fingerprint \<Rightarrow> fingerprint \<Rightarrow> real result" where
  "feature_similarity a b = cosine (1 / 2) (flatten_moments (fp_noised_moments a)) (flatten_moments (fp_noised_moments b))"

definition flatten_gradient_moments :: "fingerprint \<Rightarrow> real list option" where
  "flatten_gradient_moments a = (case fp_gradient_moments a of None \<Rightarrow> None | Some ms \<Rightarrow> flatten_moments ms)"

definition gradient_similarity :: "fingerprint \<Rightarrow> fingerprint \<Rightarrow> real result" where
  "gradient_similarity a b = cosine 0 (flatten_gradient_moments a) (flatten_gradient_moments b)"

definition has_gradient :: "fingerprint \<Rightarrow> bool" where
  "has_gradient a \<longleftrightarrow> fp_gradient_moments a \<notin> {None, Some []}"

definition blend_signals :: "affinity_params \<Rightarrow> real \<Rightarrow> real \<Rightarrow> real \<Rightarrow> real" where
  "blend_signals w label_sim feature_sim gradient_sim =
     (let total_w = aw_label w + aw_feature w + aw_gradient w + aw_history w in
      if total_w = 0 then 1 / 2 else
      let active = aw_label w + aw_feature w + (if 0 < gradient_sim then aw_gradient w else 0)
            + (if 0 < aw_external_history_score w then aw_history w else 0);
          active_w = (if active = 0 then total_w else active);
          raw = aw_label w * label_sim + aw_feature w * feature_sim + aw_gradient w * gradient_sim
            + aw_history w * aw_external_history_score w
      in max 0 (min 1 (if 0 < active_w then raw / active_w else 0)))"

definition affinity_score :: "fingerprint \<Rightarrow> fingerprint \<Rightarrow> affinity_params \<Rightarrow> real result" where
  "affinity_score a b w =
     result_bind (feature_similarity a b) (\<lambda>feature_sim.
     result_bind (if has_gradient a \<and> has_gradient b then gradient_similarity a b else ok 0) (\<lambda>gradient_sim.
     ok (blend_signals w (label_similarity a b) feature_sim gradient_sim)))"

section \<open>Noise\<close>

text \<open>A configuration that passes the constructor has a noise scale for the features, and with a privacy budget and a
  mechanism it is positive.\<close>

theorem noise_scale_calibrated:
  assumes "privacy_post_init c = ok ()"
  shows "\<exists>s \<ge> 0. effective_feature_noise_scale c = ok s \<and>
    (pc_feature_dp_epsilon c \<noteq> None \<and> pc_feature_noise_mechanism c \<noteq> ''none'' \<longrightarrow> 0 < s)"
proof -
  have c: "valid_mechanism (pc_feature_noise_mechanism c)" "0 \<le> pc_feature_noise_sigma c"
    "0 < or_else (pc_feature_sensitivity c) (pc_feature_clip_norm c)"
    "0 < pc_feature_dp_delta c" "pc_feature_dp_delta c < 1" "\<And>e. pc_feature_dp_epsilon c = Some e \<Longrightarrow> 0 < e"
    using assms by (auto simp: privacy_post_init_def privacy_validate_def not_le split: if_splits)
  have "1 < 125 / 100 / pc_feature_dp_delta c" using c(4,5) by (simp add: field_simps)
  then have "0 < ln (125 / 100 / pc_feature_dp_delta c)" by (rule ln_gt_zero)
  then have "0 < sqrt (2 * ln (125 / 100 / pc_feature_dp_delta c))" by (simp only: real_sqrt_gt_0_iff zero_less_mult_iff) simp
  with c show ?thesis
    by (cases "pc_feature_dp_epsilon c")
       (auto simp: effective_feature_noise_scale_def calibrated_noise_scale_def valid_mechanism_def less_imp_le)
qed

text \<open>The constructor accepts a gradient budget without a gradient sensitivity (it falls back to the clip norm),
  which the noise scale refuses.\<close>

lemma gradient_budget_refused:
  "pc_gradient_dp_epsilon c = Some e \<Longrightarrow> pc_gradient_sensitivity c = None \<Longrightarrow> \<exists>m. effective_gradient_noise_scale c = raise (ValueError m)"
  by (simp add: effective_gradient_noise_scale_def)

section \<open>Affinity is a symmetric value between zero and one\<close>

lemma adjacent_bucket_sym: "adjacent_bucket a b r = adjacent_bucket b a r"
  by (auto simp: adjacent_bucket_def Let_def split: option.splits)

lemma label_match_sym: "label_match a b l = label_match b a l"
  by (auto simp: label_match_def adjacent_bucket_sym split: option.splits)

lemma sum_list_remdups: "(\<Sum>l\<leftarrow>remdups xs. f l) = (\<Sum>l\<in>set xs. f l)" for f :: "'a \<Rightarrow> real"
  by (simp add: sum_list_distinct_conv_sum_set)

lemma label_similarity_sym: "label_similarity a b = label_similarity b a"
proof -
  have "(\<Sum>l\<leftarrow>remdups (map fst (fp_label_buckets a) @ map fst (fp_label_buckets b)). label_match a b l)
      = (\<Sum>l\<leftarrow>remdups (map fst (fp_label_buckets b) @ map fst (fp_label_buckets a)). label_match b a l)"
    unfolding sum_list_remdups by (rule sum.cong) (auto simp: label_match_sym)
  moreover have "length (remdups (map fst (fp_label_buckets a) @ map fst (fp_label_buckets b)))
      = length (remdups (map fst (fp_label_buckets b) @ map fst (fp_label_buckets a)))"
    unfolding length_remdups_card_conv by (simp add: Un_commute)
  ultimately show ?thesis by (simp add: label_similarity_def Let_def del: remdups.simps)
qed

lemma np_dot_sym: "length xs = length ys \<Longrightarrow> (\<Sum>(x, y)\<leftarrow>zip xs ys. x * y) = (\<Sum>(x, y)\<leftarrow>zip ys xs. x * y)" for xs ys :: "real list"
  by (induction xs ys rule: list_induct2) auto

lemma cosine_sym: "cosine d a b = cosine d b a"
  by (auto simp: cosine_def np_dot_def np_dot_sym mult.commute split: option.splits)

lemma blend_signals_unit: "0 \<le> blend_signals w x y z \<and> blend_signals w x y z \<le> 1"
  by (simp add: blend_signals_def Let_def)

lemma affinity_unit: "affinity_score a b w = ok s \<Longrightarrow> 0 \<le> s \<and> s \<le> 1"
  using blend_signals_unit by (auto simp: affinity_score_def result_bind_eq_ok)

text \<open>The affinity of two fingerprints does not depend on the direction, and it lies between zero and one whatever the
  weights; where the vectors have different lengths both directions raise.\<close>

theorem affinity_symmetric:
  "affinity_score a b w = affinity_score b a w \<and> (\<forall>s. affinity_score a b w = ok s \<longrightarrow> 0 \<le> s \<and> s \<le> 1)"
proof -
  have f: "feature_similarity a b = feature_similarity b a" "gradient_similarity a b = gradient_similarity b a"
    unfolding feature_similarity_def gradient_similarity_def by (rule cosine_sym)+
  have "affinity_score a b w = affinity_score b a w"
    unfolding affinity_score_def f label_similarity_sym [of a] by (simp only: conj_commute)
  then show ?thesis using affinity_unit by blast
qed

text \<open>A peer whose fingerprint has another number of moments makes the affinity raise.\<close>

lemma affinity_dimension_mismatch:
  assumes "flatten_moments (fp_noised_moments a) = Some xs" "flatten_moments (fp_noised_moments b) = Some ys"
    "vec_norm xs \<noteq> 0" "vec_norm ys \<noteq> 0" "length xs \<noteq> length ys"
  shows "affinity_score a b w = raise (ValueError ''shapes not aligned'')"
  using assms by (simp add: affinity_score_def feature_similarity_def cosine_def np_dot_def)

end
