(* ===== verification/Peer_Sampler.thy ===== *)
theory Peer_Sampler
  imports Fingerprint
begin

text \<open>
  The partial view of the peer sampling service (\<open>topology/sampler.py\<close>, class \<open>PeerSampler\<close>) and the
  peer descriptors and selection context it works on (\<open>topology/base.py\<close>). The methods hold the
  sampler's lock only over code without an await, so each of them is one atomic step. Descriptors are
  values: the ones a method receives are the caller's and carry the age they have at the call. The time
  stamp \<open>last_seen\<close> and the context's \<open>metadata\<close> are not used and left out. What
  \<open>random.sample\<close> draws is given by a function from the population's and the sample's size to
  the positions drawn.
\<close>

section \<open>Descriptors and compatibility\<close>

text \<open>A value of a peer's metadata: a finite number (a truth value counts as one), or anything else.\<close>

datatype meta_value = MNum real | MOther string

record tpeer =
  tp_peer_id :: string
  tp_domain :: string
  tp_data_schema_hash :: string
  tp_manifest_id :: "bytes option"
  tp_model_version :: string
  tp_data_fingerprint :: "fingerprint option"
  tp_metadata :: "(string, meta_value) pydict"
  tp_age :: int

record selection_context =
  sc_my_peer_id :: string
  sc_my_domain :: string
  sc_my_data_schema_hash :: string
  sc_known_peers :: "tpeer list"
  sc_current_round :: int
  sc_my_model_version :: string
  sc_my_manifest_id :: "bytes option"
  sc_my_fingerprint :: "fingerprint option"

definition increment_age :: "tpeer \<Rightarrow> tpeer" where
  "increment_age p = p\<lparr>tp_age := tp_age p + 1\<rparr>"

definition reset_age :: "tpeer \<Rightarrow> tpeer" where
  "reset_age p = p\<lparr>tp_age := 0\<rparr>"

section \<open>Slices and samples\<close>

text \<open>\<open>xs[:k]\<close> with Python's negative indices.\<close>

definition slice_to :: "int \<Rightarrow> 'a list \<Rightarrow> 'a list" where
  "slice_to k xs = take (if 0 \<le> k then nat k else length xs - nat (- k)) xs"

type_synonym draw = "nat \<Rightarrow> nat \<Rightarrow> nat list"

text \<open>\<open>random.sample(xs, k)\<close>, and what its documentation promises of the draw: \<open>k\<close> distinct positions.\<close>

definition py_sample :: "draw \<Rightarrow> 'a list \<Rightarrow> int \<Rightarrow> 'a list result" where
  "py_sample draw xs k =
     (if k < 0 \<or> k > int (length xs) then raise (ValueError ''Sample larger than population or is negative'')
      else ok (map ((!) xs) (draw (length xs) (nat k))))"

definition fair_draw :: "draw \<Rightarrow> bool" where
  "fair_draw draw \<longleftrightarrow>
     (\<forall>n k. k \<le> n \<longrightarrow> length (draw n k) = k \<and> distinct (draw n k) \<and> set (draw n k) \<subseteq> {..<n})"

lemma py_sample_ok:
  assumes "fair_draw draw" and "py_sample draw xs k = ok ys"
  shows "set ys \<subseteq> set xs" and "int (length ys) = k" and "distinct (map f xs) \<Longrightarrow> distinct (map f ys)"
proof -
  let ?d = "draw (length xs) (nat k)"
  have k: "0 \<le> k" "k \<le> int (length xs)" and ys: "ys = map ((!) xs) ?d"
    using assms(2) by (auto simp: py_sample_def split: if_splits)
  have "nat k \<le> length xs" using k by simp
  then have d: "length ?d = nat k" "distinct ?d" "set ?d \<subseteq> {..<length xs}"
    using assms(1) by (auto simp: fair_draw_def)
  show "set ys \<subseteq> set xs" using d(3) ys by auto
  show "int (length ys) = k" using d(1) k ys by simp
  show "distinct (map f ys)" if "distinct (map f xs)"
  proof -
    have "inj_on (\<lambda>i. f (xs ! i)) (set ?d)"
      using that d(3) by (simp add: inj_on_def distinct_conv_nth subset_iff) metis
    then show ?thesis using d(2) ys by (simp add: distinct_map comp_def)
  qed
qed

section \<open>PeerSampler\<close>

record sampler =
  ps_view_size :: int
  ps_view :: "(string, tpeer) pydict"

definition sampler_init :: "int \<Rightarrow> sampler" where
  "sampler_init view_size = \<lparr>ps_view_size = view_size, ps_view = []\<rparr>"

text \<open>\<open>max(self.view.items(), key=age)\<close>: the first of the oldest entries.\<close>

definition older :: "string \<times> tpeer \<Rightarrow> string \<times> tpeer \<Rightarrow> string \<times> tpeer" where
  "older b x = (if tp_age (snd x) > tp_age (snd b) then x else b)"

definition oldest_entry :: "(string, tpeer) pydict \<Rightarrow> string \<times> tpeer" where
  "oldest_entry view = foldl older (hd view) (tl view)"

definition evict_oldest_peer :: "sampler \<Rightarrow> sampler \<times> string option" where
  "evict_oldest_peer s =
     (if ps_view s = [] then (s, None)
      else let oldest_peer_id = fst (oldest_entry (ps_view s))
           in (s\<lparr>ps_view := AList.delete oldest_peer_id (ps_view s)\<rparr>, Some oldest_peer_id))"

definition make_room :: "sampler \<Rightarrow> sampler" where
  "make_room s = (if int (length (ps_view s)) \<ge> ps_view_size s then fst (evict_oldest_peer s) else s)"

definition add_peer :: "tpeer \<Rightarrow> sampler \<Rightarrow> sampler \<times> bool" where
  "add_peer peer s =
     (if map_of (ps_view s) (tp_peer_id peer) \<noteq> None
      then (s\<lparr>ps_view := AList.update (tp_peer_id peer) (reset_age peer) (ps_view s)\<rparr>, True)
      else let s1 = make_room s
           in (s1\<lparr>ps_view := AList.update (tp_peer_id peer) peer (ps_view s1)\<rparr>, True))"

definition remove_peer :: "string \<Rightarrow> sampler \<Rightarrow> sampler \<times> bool" where
  "remove_peer peer_id s =
     (if map_of (ps_view s) peer_id \<noteq> None then (s\<lparr>ps_view := AList.delete peer_id (ps_view s)\<rparr>, True)
      else (s, False))"

definition get_view :: "sampler \<Rightarrow> tpeer list" where
  "get_view s = map snd (ps_view s)"

definition get_view_size :: "sampler \<Rightarrow> nat" where
  "get_view_size s = length (ps_view s)"

definition has_peer :: "string \<Rightarrow> sampler \<Rightarrow> bool" where
  "has_peer peer_id s \<longleftrightarrow> map_of (ps_view s) peer_id \<noteq> None"

definition select_random_peers :: "draw \<Rightarrow> int \<Rightarrow> string list \<Rightarrow> sampler \<Rightarrow> tpeer list result" where
  "select_random_peers draw count exclude s =
     (let candidates = filter (\<lambda>p. tp_peer_id p \<notin> set exclude) (get_view s) in
      if candidates = [] then ok [] else py_sample draw candidates (min count (int (length candidates))))"

text \<open>\<open>_merge_view_unsafe\<close>: who is taken over, the room made for them, and their insertion.\<close>

definition peers_to_add :: "tpeer list \<Rightarrow> int option \<Rightarrow> sampler \<Rightarrow> tpeer list" where
  "peers_to_add new_peers shuffle_length s =
     (let n = (case shuffle_length of None \<Rightarrow> int (length new_peers)
               | Some k \<Rightarrow> min k (int (length new_peers)));
          fresh = filter (\<lambda>p. map_of (ps_view s) (tp_peer_id p) = None) new_peers
      in if int (length fresh) > n then slice_to n (sort_key tp_age fresh) else fresh)"

definition insert_fresh :: "tpeer list \<Rightarrow> sampler \<Rightarrow> sampler" where
  "insert_fresh peers s =
     s\<lparr>ps_view := fold (\<lambda>p. AList.update (tp_peer_id p) (reset_age p)) peers (ps_view s)\<rparr>"

definition merge_view :: "tpeer list \<Rightarrow> int option \<Rightarrow> sampler \<Rightarrow> sampler" where
  "merge_view new_peers shuffle_length s =
     (if new_peers = [] then s
      else let adding = peers_to_add new_peers shuffle_length s
           in insert_fresh adding ((make_room ^^ length adding) s))"

definition increment_all_ages :: "sampler \<Rightarrow> sampler" where
  "increment_all_ages s = s\<lparr>ps_view := map (\<lambda>(k, p). (k, increment_age p)) (ps_view s)\<rparr>"

text \<open>\<open>sorted(..., reverse=True)\<close> keeps the order of peers of equal age.\<close>

definition get_oldest_peers :: "int \<Rightarrow> sampler \<Rightarrow> tpeer list" where
  "get_oldest_peers count s = slice_to count (sort_key (\<lambda>p. - tp_age p) (get_view s))"

definition clear :: "sampler \<Rightarrow> sampler" where
  "clear s = s\<lparr>ps_view := []\<rparr>"

section \<open>Invariant and size\<close>

text \<open>Every entry stands under its peer's name, once.\<close>

definition view_wf :: "sampler \<Rightarrow> bool" where
  "view_wf s \<longleftrightarrow> dict_wf (ps_view s) \<and> list_all (\<lambda>(k, p). tp_peer_id p = k) (ps_view s)"

definition view_ids :: "sampler \<Rightarrow> string set" where
  "view_ids s = fst ` set (ps_view s)"

lemma reset_age_id [simp]: "tp_peer_id (reset_age p) = tp_peer_id p" "tp_age (reset_age p) = 0"
  by (simp_all add: reset_age_def)

lemma view_ids_map: "k \<in> view_ids s \<longleftrightarrow> map_of (ps_view s) k \<noteq> None"
  unfolding view_ids_def dict_has_iff ..

lemma foldl_older:
  "foldl older b xs \<in> insert b (set xs)
   \<and> (\<forall>x \<in> insert b (set xs). tp_age (snd x) \<le> tp_age (snd (foldl older b xs)))"
proof (induction xs arbitrary: b)
  case (Cons x xs)
  have "tp_age (snd b) \<le> tp_age (snd (older b x))" "tp_age (snd x) \<le> tp_age (snd (older b x))"
      "older b x = b \<or> older b x = x"
    by (simp_all add: older_def)
  with Cons.IH [of "older b x"] show ?case by (auto intro: order_trans)
qed simp

lemma oldest_entry_max:
  assumes "view \<noteq> []"
  shows "oldest_entry view \<in> set view" "x \<in> set view \<Longrightarrow> tp_age (snd x) \<le> tp_age (snd (oldest_entry view))"
proof -
  have v: "insert (hd view) (set (tl view)) = set view" using assms by (cases view) simp_all
  show "oldest_entry view \<in> set view" "x \<in> set view \<Longrightarrow> tp_age (snd x) \<le> tp_age (snd (oldest_entry view))"
    using foldl_older [of "hd view" "tl view"] unfolding v oldest_entry_def by simp_all
qed

lemma evict_view:
  assumes "view_wf s" "ps_view s \<noteq> []"
  shows "Suc (length (ps_view (fst (evict_oldest_peer s)))) = length (ps_view s)"
proof -
  have "map_of (ps_view s) (fst (oldest_entry (ps_view s))) \<noteq> None"
    using oldest_entry_max(1) [OF assms(2)] unfolding dict_has_iff by (rule imageI)
  then have "Suc (length (AList.delete (fst (oldest_entry (ps_view s))) (ps_view s))) = length (ps_view s)"
    using assms(1) by (intro length_delete) (simp_all add: view_wf_def)
  then show ?thesis
    using assms(2) by (simp add: evict_oldest_peer_def Let_def)
qed

lemma view_wf_delete: "view_wf s \<Longrightarrow> view_wf (s\<lparr>ps_view := AList.delete k (ps_view s)\<rparr>)"
  using set_delete_subset [of k "ps_view s"]
  by (auto simp: view_wf_def list_all_iff AList.distinct_delete)

lemma view_wf_update:
  "view_wf s \<Longrightarrow> tp_peer_id p = k \<Longrightarrow> view_wf (s\<lparr>ps_view := AList.update k p (ps_view s)\<rparr>)"
  using set_update_subset [of k p "ps_view s"]
  by (auto simp: view_wf_def list_all_iff AList.distinct_update)

lemma make_room_wf: "view_wf s \<Longrightarrow> view_wf (make_room s)"
  by (simp add: make_room_def evict_oldest_peer_def Let_def view_wf_delete)

lemma make_room_size [simp]: "ps_view_size (make_room s) = ps_view_size s"
  by (simp add: make_room_def evict_oldest_peer_def Let_def)

lemma make_room_n_wf: "view_wf s \<Longrightarrow> view_wf ((make_room ^^ n) s) \<and> ps_view_size ((make_room ^^ n) s) = ps_view_size s"
  by (induction n) (simp_all add: make_room_wf)

lemma make_room_ids: "view_ids (make_room s) \<subseteq> view_ids s"
  using set_delete_subset [of "fst (oldest_entry (ps_view s))" "ps_view s"]
  by (auto simp: make_room_def evict_oldest_peer_def Let_def view_ids_def)

lemma make_room_n_ids: "view_ids ((make_room ^^ n) s) \<subseteq> view_ids s"
  by (induction n) (use make_room_ids in auto)

lemma make_room_length:
  assumes "view_wf s"
  shows "length (ps_view (make_room s)) =
    (if int (length (ps_view s)) \<ge> ps_view_size s then length (ps_view s) - 1 else length (ps_view s))"
  using evict_view [OF assms]
  by (cases "ps_view s = []") (auto simp: make_room_def evict_oldest_peer_def)

text \<open>The most a view can hold before a merge: one less than its size, or what was there less one per
  newcomer. Only the first of the evictions for a merge finds the view full.\<close>

lemma make_room_n_length:
  assumes "view_wf s"
  shows "int (length (ps_view ((make_room ^^ n) s)))
      \<le> max (int (length (ps_view s)) - int n) (max 1 (ps_view_size s) - 1)"
proof (induction n)
  case (Suc n)
  let ?s = "(make_room ^^ n) s"
  have "view_wf ?s" "ps_view_size ?s = ps_view_size s" using make_room_n_wf [OF assms] by simp_all
  then show ?case
    using Suc make_room_length [of ?s] by (auto split: if_splits)
qed simp

lemma make_room_n_exact:
  assumes "view_wf s" "int (length (ps_view s)) = ps_view_size s" "ps_view s \<noteq> []" "0 < n"
  shows "Suc (length (ps_view ((make_room ^^ n) s))) = length (ps_view s)"
  using assms(4)
proof (induction n)
  case (Suc n)
  let ?s = "(make_room ^^ n) s"
  have s: "view_wf ?s" "ps_view_size ?s = ps_view_size s" using make_room_n_wf [OF assms(1)] by simp_all
  show ?case
  proof (cases n)
    case 0
    then show ?thesis using make_room_length [OF assms(1)] assms by simp
  next
    case (Suc m)
    then have "Suc (length (ps_view ?s)) = length (ps_view s)" using Suc.IH by simp
    then show ?thesis using make_room_length [OF s(1)] s(2) assms(2) by simp
  qed
qed simp

lemma insert_fresh_Cons:
  "insert_fresh (p # ps) s =
     insert_fresh ps (s\<lparr>ps_view := AList.update (tp_peer_id p) (reset_age p) (ps_view s)\<rparr>)"
  by (simp add: insert_fresh_def)

lemma insert_fresh_facts:
  "view_wf s \<Longrightarrow> view_wf (insert_fresh ps s)
     \<and> view_ids (insert_fresh ps s) = view_ids s \<union> tp_peer_id ` set ps
     \<and> length (ps_view (insert_fresh ps s)) \<le> length (ps_view s) + length ps
     \<and> ps_view_size (insert_fresh ps s) = ps_view_size s"
proof (induction ps arbitrary: s)
  case Nil
  then show ?case by (simp add: insert_fresh_def)
next
  case (Cons p ps)
  let ?s = "s\<lparr>ps_view := AList.update (tp_peer_id p) (reset_age p) (ps_view s)\<rparr>"
  have "view_wf ?s" using Cons.prems by (intro view_wf_update) simp_all
  note IH = Cons.IH [OF this]
  moreover have "view_ids ?s = insert (tp_peer_id p) (view_ids s)"
    by (simp add: view_ids_def AList.update_conv' dom_map_of_conv_image_fst [symmetric])
  moreover have "length (ps_view ?s) \<le> Suc (length (ps_view s))" by (simp add: length_update)
  ultimately show ?case unfolding insert_fresh_Cons by simp
qed

lemma slice_to_length: "0 \<le> k \<Longrightarrow> int (length (slice_to k xs)) \<le> k"
  by (simp add: slice_to_def)

lemma slice_to_set: "set (slice_to k xs) \<subseteq> set xs"
  by (simp add: slice_to_def set_take_subset)

lemma peers_to_add_facts:
  assumes "0 \<le> k"
  shows "int (length (peers_to_add ps (Some k) s)) \<le> k"
    and "p \<in> set (peers_to_add ps (Some k) s) \<Longrightarrow> p \<in> set ps \<and> map_of (ps_view s) (tp_peer_id p) = None"
proof -
  let ?fresh = "filter (\<lambda>p. map_of (ps_view s) (tp_peer_id p) = None) ps"
  let ?n = "min k (int (length ps))"
  show "int (length (peers_to_add ps (Some k) s)) \<le> k"
    using assms slice_to_length [of ?n "sort_key tp_age ?fresh"]
    by (auto simp: peers_to_add_def Let_def)
  show "p \<in> set ps \<and> map_of (ps_view s) (tp_peer_id p) = None" if "p \<in> set (peers_to_add ps (Some k) s)"
    using that slice_to_set [of ?n "sort_key tp_age ?fresh"]
    by (auto simp: peers_to_add_def Let_def split: if_splits)
qed

lemma add_peer_facts:
  assumes "view_wf s"
  shows "view_wf (fst (add_peer p s)) \<and> ps_view_size (fst (add_peer p s)) = ps_view_size s
    \<and> tp_peer_id p \<in> view_ids (fst (add_peer p s))
    \<and> view_ids (fst (add_peer p s)) \<subseteq> insert (tp_peer_id p) (view_ids s)
    \<and> int (length (ps_view (fst (add_peer p s)))) \<le> max (int (length (ps_view s))) (max 1 (ps_view_size s))"
proof (cases "map_of (ps_view s) (tp_peer_id p) = None")
  case True
  let ?s = "make_room s"
  have "view_wf ?s" "int (length (ps_view ?s)) \<le> max (int (length (ps_view s)) - 1) (max 1 (ps_view_size s) - 1)"
    using make_room_wf [OF assms] make_room_n_length [OF assms, of 1] by simp_all
  then show ?thesis
    using True view_wf_update [of ?s p "tp_peer_id p"] make_room_ids [of s]
      set_update_subset [of "tp_peer_id p" p "ps_view ?s"]
    by (auto simp: add_peer_def Let_def view_ids_def length_update AList.update_conv'
        dom_map_of_conv_image_fst [symmetric] split: if_splits)
next
  case False
  then show ?thesis
    using assms view_wf_update [of s "reset_age p" "tp_peer_id p"]
    by (auto simp: add_peer_def view_ids_def length_update AList.update_conv'
        dom_map_of_conv_image_fst [symmetric])
qed

lemma remove_peer_facts:
  "view_wf s \<Longrightarrow> view_wf (fst (remove_peer k s)) \<and> ps_view_size (fst (remove_peer k s)) = ps_view_size s
     \<and> view_ids (fst (remove_peer k s)) = view_ids s - {k}
     \<and> length (ps_view (fst (remove_peer k s))) \<le> length (ps_view s)"
  using view_wf_delete [of s k] AList.length_delete_le [of k "ps_view s"]
  by (auto simp: remove_peer_def view_ids_def AList.delete_conv' dom_map_of_conv_image_fst [symmetric])

lemma merge_view_facts:
  assumes "view_wf s" "0 \<le> k"
  shows "view_wf (merge_view ps (Some k) s) \<and> ps_view_size (merge_view ps (Some k) s) = ps_view_size s
    \<and> view_ids (merge_view ps (Some k) s) \<subseteq> view_ids s \<union> tp_peer_id ` set ps
    \<and> int (length (ps_view (merge_view ps (Some k) s)))
        \<le> max (int (length (ps_view s))) (max 1 (ps_view_size s) - 1 + k)"
proof (cases "ps = []")
  case False
  let ?a = "peers_to_add ps (Some k) s"
  let ?s = "(make_room ^^ length ?a) s"
  have "view_wf ?s" "ps_view_size ?s = ps_view_size s" using make_room_n_wf [OF assms(1)] by simp_all
  note ins = insert_fresh_facts [OF this(1), of ?a] this(2)
  have "tp_peer_id ` set ?a \<subseteq> tp_peer_id ` set ps" using peers_to_add_facts(2) [OF assms(2)] by blast
  moreover have "int (length (ps_view (insert_fresh ?a ?s)))
      \<le> max (int (length (ps_view s))) (max 1 (ps_view_size s) - 1 + k)"
    using ins make_room_n_length [OF assms(1), of "length ?a"] peers_to_add_facts(1) [OF assms(2), of ps s]
    by linarith
  ultimately show ?thesis
    using False ins make_room_n_ids [of "length ?a" s] by (auto simp: merge_view_def Let_def)
qed (use assms in \<open>simp add: merge_view_def\<close>)

lemma increment_facts:
  "view_wf s \<Longrightarrow> view_wf (increment_all_ages s) \<and> ps_view_size (increment_all_ages s) = ps_view_size s
     \<and> view_ids (increment_all_ages s) = view_ids s
     \<and> length (ps_view (increment_all_ages s)) = length (ps_view s)"
  by (auto simp: increment_all_ages_def view_wf_def view_ids_def list_all_iff increment_age_def
      case_prod_beta comp_def image_image)

end
