(* ===== verification/Cyclon.thy ===== *)
theory Cyclon
  imports Peer_Sampler
begin

text \<open>
  The Cyclon topology (\<open>topology/cyclon.py\<close>): target selection, the maintenance round, both sides of the
  view exchange and the connection callbacks. The exchange suspends while the request is under way, so
  the initiator's side is two steps, before and after the answer, and anything may happen to the view in
  between.
\<close>

section \<open>State and operations\<close>

record cyclon =
  cy_sampler :: sampler
  cy_shuffle_length :: int
  cy_has_send_shuffle :: bool
  cy_my_peer_info :: "tpeer option"
  cy_running :: bool

definition cyclon_init :: "int \<Rightarrow> int \<Rightarrow> cyclon" where
  "cyclon_init view_size shuffle_length =
     \<lparr>cy_sampler = sampler_init view_size, cy_shuffle_length = shuffle_length, cy_has_send_shuffle = False,
      cy_my_peer_info = None, cy_running = False\<rparr>"

definition set_shuffle_callback :: "cyclon \<Rightarrow> cyclon" where
  "set_shuffle_callback cy = cy\<lparr>cy_has_send_shuffle := True\<rparr>"

definition set_local_peer_info :: "tpeer \<Rightarrow> cyclon \<Rightarrow> cyclon" where
  "set_local_peer_info p cy = cy\<lparr>cy_my_peer_info := Some p\<rparr>"

abbreviation on_sampler :: "(sampler \<Rightarrow> sampler) \<Rightarrow> cyclon \<Rightarrow> cyclon" where
  "on_sampler f cy \<equiv> cy\<lparr>cy_sampler := f (cy_sampler cy)\<rparr>"

text \<open>The bootstrap filter of \<open>select_targets\<close> and \<open>periodic_maintenance\<close>.\<close>

definition bootstrap_peers :: "selection_context \<Rightarrow> cyclon \<Rightarrow> tpeer list" where
  "bootstrap_peers ctx cy =
     slice_to (ps_view_size (cy_sampler cy))
       (filter (\<lambda>p. tp_domain p = sc_my_domain ctx \<and> tp_data_schema_hash p = sc_my_data_schema_hash ctx
          \<and> tp_peer_id p \<noteq> sc_my_peer_id ctx) (sc_known_peers ctx))"

definition select_targets :: "draw \<Rightarrow> selection_context \<Rightarrow> int \<Rightarrow> cyclon \<Rightarrow> cyclon \<times> string list result" where
  "select_targets draw ctx count cy =
     (let cy1 = (if get_view_size (cy_sampler cy) = 0 \<and> sc_known_peers ctx \<noteq> []
                 then on_sampler (fold (\<lambda>p s. fst (add_peer p s)) (bootstrap_peers ctx cy)) cy else cy)
      in (cy1, result_bind (select_random_peers draw count [] (cy_sampler cy1))
                 (\<lambda>selected. ok (map tp_peer_id selected))))"

definition on_new_peer_discovered :: "tpeer \<Rightarrow> cyclon \<Rightarrow> cyclon" where
  "on_new_peer_discovered p cy = on_sampler (\<lambda>s. fst (add_peer (reset_age p) s)) cy"

definition on_peer_disconnected :: "string \<Rightarrow> cyclon \<Rightarrow> cyclon" where
  "on_peer_disconnected peer_id cy = on_sampler (\<lambda>s. fst (remove_peer peer_id s)) cy"

text \<open>\<open>_perform_shuffle\<close> up to the call of the shuffle callback: the partner and the subset sent.\<close>

record exchange_request =
  rq_peer :: string
  rq_selected :: "tpeer list"

definition self_descriptor :: "cyclon \<Rightarrow> tpeer list" where
  "self_descriptor cy =
     (case cy_my_peer_info cy of None \<Rightarrow> []
      | Some me \<Rightarrow> [me\<lparr>tp_manifest_id := None, tp_data_fingerprint := None, tp_metadata := [], tp_age := 0\<rparr>])"

definition shuffle_candidates :: "string \<Rightarrow> cyclon \<Rightarrow> tpeer list" where
  "shuffle_candidates peer_id cy = filter (\<lambda>p. tp_peer_id p \<noteq> peer_id) (get_view (cy_sampler cy))"

definition shuffle_begin :: "draw \<Rightarrow> string \<Rightarrow> cyclon \<Rightarrow> exchange_request option result" where
  "shuffle_begin draw peer_id cy =
     (if \<not> cy_has_send_shuffle cy then ok None
      else let candidates = shuffle_candidates peer_id cy in
        result_bind (py_sample draw candidates (min (cy_shuffle_length cy) (int (length candidates))))
          (\<lambda>selected. ok (Some \<lparr>rq_peer = peer_id, rq_selected = selected @ self_descriptor cy\<rparr>)))"

definition sent_peer_ids :: "exchange_request \<Rightarrow> cyclon \<Rightarrow> string list" where
  "sent_peer_ids rq cy =
     filter (\<lambda>pid. map_option tp_peer_id (cy_my_peer_info cy) \<noteq> Some pid) (map tp_peer_id (rq_selected rq))"

definition discard_sent :: "string list \<Rightarrow> sampler \<Rightarrow> sampler" where
  "discard_sent ids s = fold (\<lambda>pid s. fst (remove_peer pid s)) ids s"

text \<open>\<open>peer_info = view.get(peer_id); peer_info.reset_age()\<close>.\<close>

definition refresh :: "string \<Rightarrow> sampler \<Rightarrow> sampler" where
  "refresh peer_id s =
     (case map_of (ps_view s) peer_id of None \<Rightarrow> s
      | Some p \<Rightarrow> s\<lparr>ps_view := AList.update peer_id (reset_age p) (ps_view s)\<rparr>)"

text \<open>\<open>_perform_shuffle\<close> after the callback: an exception of it is logged and nothing changes. The names
  \<open>sent\<close> were computed before the call.\<close>

fun shuffle_end :: "string \<Rightarrow> string list \<Rightarrow> tpeer list result \<Rightarrow> cyclon \<Rightarrow> cyclon" where
  "shuffle_end peer_id sent (Inl _) cy = cy"
| "shuffle_end peer_id sent (Inr remote_peers) cy =
     on_sampler (\<lambda>s. refresh peer_id
       (let s1 = discard_sent (filter (\<lambda>pid. pid \<noteq> peer_id) sent) s
        in if remote_peers = [] then s1 else merge_view remote_peers (Some (cy_shuffle_length cy)) s1)) cy"

text \<open>\<open>periodic_maintenance\<close> up to the request; an empty view is refilled instead.\<close>

definition maintenance_begin ::
    "draw \<Rightarrow> selection_context \<Rightarrow> cyclon \<Rightarrow> cyclon \<times> exchange_request option result" where
  "maintenance_begin draw ctx cy =
     (let cy1 = on_sampler increment_all_ages cy in
      case get_oldest_peers 1 (cy_sampler cy1) of
        [] \<Rightarrow> (if sc_known_peers ctx \<noteq> [] then fold on_new_peer_discovered (bootstrap_peers ctx cy1) cy1 else cy1,
               ok None)
      | shuffle_peer # _ \<Rightarrow> (cy1, shuffle_begin draw (tp_peer_id shuffle_peer) cy1))"

text \<open>A maintenance round in which nothing else runs while the request is under way; \<open>answer\<close> is
  what the callback returns for the partner and the subset.\<close>

definition periodic_maintenance ::
    "draw \<Rightarrow> selection_context \<Rightarrow> (string \<Rightarrow> tpeer list \<Rightarrow> tpeer list result) \<Rightarrow> cyclon \<Rightarrow> cyclon \<times> unit result" where
  "periodic_maintenance draw ctx answer cy =
     (let (cy1, r) = maintenance_begin draw ctx cy in
      case r of
        Inl x \<Rightarrow> (cy1, raise x)
      | Inr None \<Rightarrow> (cy1, ok ())
      | Inr (Some rq) \<Rightarrow>
          (shuffle_end (rq_peer rq) (sent_peer_ids rq cy1) (answer (rq_peer rq) (rq_selected rq)) cy1, ok ()))"

definition handle_incoming_shuffle ::
    "draw \<Rightarrow> string \<Rightarrow> tpeer list \<Rightarrow> cyclon \<Rightarrow> cyclon \<times> tpeer list result" where
  "handle_incoming_shuffle draw from_peer_id remote_peers cy =
     (let candidates = shuffle_candidates from_peer_id cy in
      case py_sample draw candidates (min (cy_shuffle_length cy) (int (length candidates))) of
        Inl x \<Rightarrow> (cy, raise x)
      | Inr response_peers \<Rightarrow>
          (on_sampler (\<lambda>s. refresh from_peer_id
             (merge_view remote_peers (Some (cy_shuffle_length cy))
               (discard_sent (map tp_peer_id response_peers) s))) cy, ok response_peers))"

definition should_accept_connection :: "selection_context \<Rightarrow> tpeer \<Rightarrow> bool" where
  "should_accept_connection ctx p =
     (case (sc_my_manifest_id ctx, tp_manifest_id p) of
        (Some m, Some m') \<Rightarrow> m' = m
      | _ \<Rightarrow> tp_domain p = sc_my_domain ctx \<and> tp_data_schema_hash p = sc_my_data_schema_hash ctx)"

definition start :: "cyclon \<Rightarrow> cyclon" where
  "start cy = cy\<lparr>cy_running := True\<rparr>"

definition stop :: "cyclon \<Rightarrow> cyclon" where
  "stop cy = cy\<lparr>cy_running := False\<rparr>"

section \<open>Runs\<close>

text \<open>Everything that happens to a topology: the loop's tick and the driver's own maintenance calls, answers
  to shuffle requests whenever they arrive, requests from others, and the peer callbacks.\<close>

datatype cyclon_op =
    Select draw selection_context int
  | Maintain draw selection_context
  | Tick draw selection_context
  | Answer string "string list" "tpeer list result"
  | Incoming draw string "tpeer list"
  | Discovered tpeer
  | Disconnected string
  | Start
  | Stop

datatype cyclon_out = Targets "string list result" | Request "exchange_request option result" | Response "tpeer list result"

fun cyclon_step :: "cyclon \<Rightarrow> cyclon_op \<Rightarrow> cyclon \<times> cyclon_out list" where
  "cyclon_step cy (Select draw ctx count) = (let (cy', r) = select_targets draw ctx count cy in (cy', [Targets r]))"
| "cyclon_step cy (Maintain draw ctx) = (let (cy', r) = maintenance_begin draw ctx cy in (cy', [Request r]))"
| "cyclon_step cy (Tick draw ctx) =
     (if cy_running cy then let (cy', r) = maintenance_begin draw ctx cy in (cy', [Request r]) else (cy, []))"
| "cyclon_step cy (Answer peer_id sent r) = (shuffle_end peer_id sent r cy, [])"
| "cyclon_step cy (Incoming draw from remote) =
     (let (cy', r) = handle_incoming_shuffle draw from remote cy in (cy', [Response r]))"
| "cyclon_step cy (Discovered p) = (on_new_peer_discovered p cy, [])"
| "cyclon_step cy (Disconnected peer_id) = (on_peer_disconnected peer_id cy, [])"
| "cyclon_step cy Start = (start cy, [])"
| "cyclon_step cy Stop = (stop cy, [])"

section \<open>The size of the view\<close>

definition sampler_inv :: "int \<Rightarrow> int \<Rightarrow> sampler \<Rightarrow> bool" where
  "sampler_inv v k s \<longleftrightarrow> view_wf s \<and> ps_view_size s = v
     \<and> int (length (ps_view s)) \<le> max 1 v + max 0 (k - 1)"

definition cyclon_inv :: "int \<Rightarrow> int \<Rightarrow> cyclon \<Rightarrow> bool" where
  "cyclon_inv v k cy \<longleftrightarrow> sampler_inv v k (cy_sampler cy) \<and> cy_shuffle_length cy = k"

lemma view_named: "view_wf s \<Longrightarrow> map_of (ps_view s) k = Some p \<Longrightarrow> tp_peer_id p = k"
  by (fastforce simp: view_wf_def list_all_iff dest: map_of_SomeD)

lemma view_card: "view_wf s \<Longrightarrow> card (view_ids s) = length (ps_view s)"
  using distinct_card [of "map fst (ps_view s)"] by (simp add: view_wf_def view_ids_def)

lemma refresh_facts:
  assumes "view_wf s"
  shows "view_wf (refresh pid s) \<and> ps_view_size (refresh pid s) = ps_view_size s
     \<and> view_ids (refresh pid s) = view_ids s \<and> length (ps_view (refresh pid s)) = length (ps_view s)"
proof (cases "map_of (ps_view s) pid")
  case (Some p)
  then show ?thesis
    using assms view_named [OF assms Some] view_wf_update [of s "reset_age p" pid]
    by (auto simp: refresh_def length_update view_ids_def AList.update_conv' dom_map_of_conv_image_fst [symmetric])
qed (use assms in \<open>simp add: refresh_def\<close>)

lemma refresh_age: "map_of (ps_view (refresh pid s)) pid = Some p \<Longrightarrow> tp_age p = 0"
  by (auto simp: refresh_def AList.update_conv' split: option.splits)

lemma discard_facts:
  "view_wf s \<Longrightarrow> view_wf (discard_sent ids s) \<and> ps_view_size (discard_sent ids s) = ps_view_size s
     \<and> view_ids (discard_sent ids s) = view_ids s - set ids
     \<and> length (ps_view (discard_sent ids s)) \<le> length (ps_view s)"
proof (induction ids arbitrary: s)
  case (Cons i ids)
  note r = remove_peer_facts [OF Cons.prems, of i]
  then show ?case
    using Cons.IH [of "fst (remove_peer i s)"] by (auto simp: discard_sent_def)
qed (simp add: discard_sent_def)

lemma sampler_inv_add: "sampler_inv v k s \<Longrightarrow> sampler_inv v k (fst (add_peer p s))"
  using add_peer_facts [of s p] by (auto simp: sampler_inv_def)

lemma sampler_inv_remove: "sampler_inv v k s \<Longrightarrow> sampler_inv v k (fst (remove_peer i s))"
  using remove_peer_facts [of s i] by (auto simp: sampler_inv_def)

lemma sampler_inv_ages: "sampler_inv v k s \<Longrightarrow> sampler_inv v k (increment_all_ages s)"
  using increment_facts [of s] by (auto simp: sampler_inv_def)

lemma sampler_inv_refresh: "sampler_inv v k s \<Longrightarrow> sampler_inv v k (refresh i s)"
  using refresh_facts [of s i] by (auto simp: sampler_inv_def)

lemma sampler_inv_discard: "sampler_inv v k s \<Longrightarrow> sampler_inv v k (discard_sent ids s)"
  using discard_facts [of s ids] by (auto simp: sampler_inv_def)

lemma sampler_inv_merge:
  assumes "0 \<le> k" "sampler_inv v k s"
  shows "sampler_inv v k (merge_view ps (Some k) s)"
  using merge_view_facts [of s k ps] assms by (auto simp: sampler_inv_def)

lemmas sampler_inv_ops = sampler_inv_add sampler_inv_remove sampler_inv_ages sampler_inv_refresh
  sampler_inv_discard sampler_inv_merge

lemma sampler_inv_add_all: "sampler_inv v k s \<Longrightarrow> sampler_inv v k (fold (\<lambda>p s. fst (add_peer p s)) ps s)"
  by (induction ps arbitrary: s) (simp_all add: sampler_inv_add)

lemma discovered_inv: "cyclon_inv v k cy \<Longrightarrow> cyclon_inv v k (on_new_peer_discovered p cy)"
  by (simp add: cyclon_inv_def on_new_peer_discovered_def sampler_inv_add)

lemma discovered_all_inv: "cyclon_inv v k cy \<Longrightarrow> cyclon_inv v k (fold on_new_peer_discovered ps cy)"
  by (induction ps arbitrary: cy) (simp_all add: discovered_inv)

lemma select_targets_inv: "cyclon_inv v k cy \<Longrightarrow> cyclon_inv v k (fst (select_targets draw ctx n cy))"
  by (simp add: select_targets_def cyclon_inv_def Let_def sampler_inv_add_all)

lemma maintenance_inv: "cyclon_inv v k cy \<Longrightarrow> cyclon_inv v k (fst (maintenance_begin draw ctx cy))"
proof -
  assume "cyclon_inv v k cy"
  then have "cyclon_inv v k (on_sampler increment_all_ages cy)"
    by (simp add: cyclon_inv_def sampler_inv_ages)
  then show ?thesis
    by (auto simp: maintenance_begin_def Let_def discovered_all_inv split: list.split)
qed

lemma shuffle_end_inv: "0 \<le> k \<Longrightarrow> cyclon_inv v k cy \<Longrightarrow> cyclon_inv v k (shuffle_end pid sent r cy)"
  by (cases r) (auto simp: cyclon_inv_def Let_def intro!: sampler_inv_ops)

lemma incoming_inv: "0 \<le> k \<Longrightarrow> cyclon_inv v k cy \<Longrightarrow> cyclon_inv v k (fst (handle_incoming_shuffle draw i ps cy))"
  by (auto simp: cyclon_inv_def handle_incoming_shuffle_def Let_def intro!: sampler_inv_ops split: sum.split)

lemma control_inv:
  "cyclon_inv v k cy \<Longrightarrow> cyclon_inv v k (on_peer_disconnected i cy)"
  "cyclon_inv v k cy \<Longrightarrow> cyclon_inv v k (start cy)"
  "cyclon_inv v k cy \<Longrightarrow> cyclon_inv v k (stop cy)"
  by (simp_all add: cyclon_inv_def on_peer_disconnected_def start_def stop_def sampler_inv_remove)

text \<open>The \<open>valid\<close> argument of the contract carries the configuration's side condition.\<close>

interpretation cyclon_life: reactive cyclon_step "cyclon_inv v k" "\<lambda>_. 0 \<le> k" for v k :: int
proof unfold_locales
  fix cy op
  assume "cyclon_inv v k cy" "0 \<le> k"
  then show "cyclon_inv v k (fst (cyclon_step cy op))"
    by (cases op) (simp_all add: case_prod_beta select_targets_inv maintenance_inv shuffle_end_inv incoming_inv
        discovered_inv control_inv)
qed

lemma cyclon_init_inv: "cyclon_inv v k (cyclon_init v k)"
  by (simp add: cyclon_inv_def sampler_inv_def cyclon_init_def sampler_init_def view_wf_def)

lemma merge_unknown:
  assumes "length ps = nat k" "\<forall>p \<in> set ps. map_of (ps_view s) (tp_peer_id p) = None"
  shows "peers_to_add ps (Some k) s = ps"
  using assms by (cases "0 \<le> k") (auto simp: peers_to_add_def Let_def filter_id_conv slice_to_def)

lemma merge_overflows:
  assumes "view_wf s" "int (length (ps_view s)) = ps_view_size s" "ps_view s \<noteq> []" "0 < k"
    and "length ps = nat k" "distinct (map tp_peer_id ps)" "\<forall>p \<in> set ps. map_of (ps_view s) (tp_peer_id p) = None"
  shows "int (length (ps_view (merge_view ps (Some k) s))) = ps_view_size s + k - 1"
proof -
  let ?s = "(make_room ^^ length ps) s"
  let ?t = "insert_fresh ps ?s"
  have s: "view_wf ?s" using make_room_n_wf [OF assms(1)] by simp
  have t: "view_wf ?t" "view_ids ?t = view_ids ?s \<union> tp_peer_id ` set ps"
    using insert_fresh_facts [OF s] by simp_all
  have "view_ids ?s \<inter> tp_peer_id ` set ps = {}"
    using make_room_n_ids [of "length ps" s] assms(7) view_ids_map by fastforce
  moreover have "finite (view_ids ?s)" by (simp add: view_ids_def)
  ultimately have "card (view_ids ?t) = length (ps_view ?s) + length ps"
    using t(2) assms(6) view_card [OF s] distinct_card [of "map tp_peer_id ps"] by (simp add: card_Un_disjoint)
  then have "length (ps_view ?t) = length (ps_view ?s) + length ps" using view_card [OF t(1)] by simp
  moreover have "Suc (length (ps_view ?s)) = length (ps_view s)"
    using make_room_n_exact [OF assms(1-3), of "length ps"] assms(4,5) by simp
  moreover have "merge_view ps (Some k) s = ?t"
    using assms(4,5) merge_unknown [OF assms(5,7)] by (auto simp: merge_view_def Let_def)
  ultimately show ?thesis using assms(2,4,5) by simp
qed

lemma shuffle_candidates_facts:
  assumes "view_wf (cy_sampler cy)"
  shows "set (shuffle_candidates i cy) \<subseteq> set (get_view (cy_sampler cy))"
    and "distinct (map tp_peer_id (shuffle_candidates i cy))"
    and "tp_peer_id ` set (shuffle_candidates i cy) = view_ids (cy_sampler cy) - {i}"
    and "card (view_ids (cy_sampler cy) - {i}) = length (shuffle_candidates i cy)"
proof -
  let ?v = "ps_view (cy_sampler cy)"
  have ids: "map tp_peer_id (map snd ?v) = map fst ?v" and wf: "distinct (map fst ?v)"
    using assms by (auto simp: view_wf_def list_all_iff)
  show "set (shuffle_candidates i cy) \<subseteq> set (get_view (cy_sampler cy))"
    by (auto simp: shuffle_candidates_def)
  show dist: "distinct (map tp_peer_id (shuffle_candidates i cy))"
    unfolding shuffle_candidates_def get_view_def using ids wf by (intro distinct_map_filter) argo
  have "tp_peer_id ` set (shuffle_candidates i cy) = set (map tp_peer_id (map snd ?v)) - {i}"
    by (auto simp: shuffle_candidates_def get_view_def)
  then show set_eq: "tp_peer_id ` set (shuffle_candidates i cy) = view_ids (cy_sampler cy) - {i}"
    unfolding ids by (simp add: view_ids_def)
  show "card (view_ids (cy_sampler cy) - {i}) = length (shuffle_candidates i cy)"
    using distinct_card [OF dist] unfolding set_eq [symmetric] by simp
qed

lemma view_member_id: "view_wf s \<Longrightarrow> p \<in> set (get_view s) \<Longrightarrow> tp_peer_id p \<in> view_ids s"
  unfolding view_wf_def get_view_def view_ids_def list_all_iff by force

lemma oldest_exists: "ps_view s \<noteq> [] \<Longrightarrow> \<exists>q. get_oldest_peers 1 s = [q]"
  by (cases "sort_key (\<lambda>p. - tp_age p) (get_view s)")
    (auto simp: get_oldest_peers_def slice_to_def get_view_def dest!: arg_cong [where f = length])

section \<open>Properties\<close>

lemma answer_keeps_disjoint:
  assumes "view_wf s" and "view_ids s \<inter> set ids = {}"
  shows "view_wf (discard_sent ids s) \<and> ps_view_size (discard_sent ids s) = ps_view_size s
    \<and> view_ids (discard_sent ids s) = view_ids s \<and> length (ps_view (discard_sent ids s)) = length (ps_view s)"
proof -
  have d: "view_wf (discard_sent ids s)" "view_ids (discard_sent ids s) = view_ids s"
    using discard_facts [OF assms(1), of ids] assms(2) by auto
  then show ?thesis
    using discard_facts [OF assms(1), of ids] view_card [OF d(1)] view_card [OF assms(1)] by simp
qed

lemma full_view_answered:
  assumes "view_wf (cy_sampler cy)" and "ps_view_size (cy_sampler cy) = v" and "cy_shuffle_length cy = k"
    and "1 \<le> v" and "1 \<le> k" and "int (length (ps_view (cy_sampler cy))) = v"
    and "view_ids (cy_sampler cy) \<inter> set sent \<subseteq> {i}" and "int (length ps) = k"
    and "distinct (map tp_peer_id ps)" and "tp_peer_id ` set ps \<inter> view_ids (cy_sampler cy) = {}"
  shows "int (length (ps_view (cy_sampler (shuffle_end i sent (Inr ps) cy)))) = v + k - 1"
proof -
  let ?s = "discard_sent (filter (\<lambda>pid. pid \<noteq> i) sent) (cy_sampler cy)"
  have "view_ids (cy_sampler cy) \<inter> set (filter (\<lambda>pid. pid \<noteq> i) sent) = {}"
    using assms(7) by auto
  note d = answer_keeps_disjoint [OF assms(1) this]
  have "\<forall>p \<in> set ps. map_of (ps_view ?s) (tp_peer_id p) = None"
    using assms(10) d view_ids_map by blast
  then have m: "int (length (ps_view (merge_view ps (Some k) ?s))) = v + k - 1"
    using merge_overflows [of ?s k ps] d assms by (cases "ps_view ?s = []") auto
  have "view_wf (merge_view ps (Some k) ?s)"
    using merge_view_facts [of ?s k ps] d assms(5) by simp
  then show ?thesis
    using m refresh_facts [of "merge_view ps (Some k) ?s" i] assms(3,5,8) by (cases ps) (simp_all add: Let_def)
qed

text \<open>C37: However selections, maintenance rounds, answers, requests from others and peer events interleave,
  the view never holds more than \<open>view_size + shuffle_length - 1\<close> peers (for sizes of at least one), each
  of them once. The bound is attained: when an answer of \<open>shuffle_length\<close> unknown peers finds the view full and
  the peers that were sent no longer in it (other peers took their places while the request was under way, or nobody but the
  partner was in the view), the view ends up that large, since only the first of the evictions that
  should make room finds it full.\<close>

theorem cyclon_view_bound:
  assumes "1 \<le> v" and "1 \<le> k"
  shows "let cy = fst (run cyclon_step (cyclon_init v k) ops); s = cy_sampler cy in
      dict_wf (ps_view s) \<and> int (length (ps_view s)) \<le> v + k - 1
      \<and> (int (length (ps_view s)) = v \<and> view_ids s \<inter> set sent \<subseteq> {i} \<and> int (length ps) = k
          \<and> distinct (map tp_peer_id ps) \<and> tp_peer_id ` set ps \<inter> view_ids s = {} \<longrightarrow>
         int (length (ps_view (cy_sampler (fst (cyclon_step cy (Answer i sent (Inr ps))))))) = v + k - 1)"
proof -
  let ?cy = "fst (run cyclon_step (cyclon_init v k) ops)"
  have "cyclon_inv v k ?cy"
    using cyclon_life.run_inv [OF cyclon_init_inv [of v k], of ops] assms by (simp add: list_all_iff)
  then have i: "view_wf (cy_sampler ?cy)" "ps_view_size (cy_sampler ?cy) = v" "cy_shuffle_length ?cy = k"
      "dict_wf (ps_view (cy_sampler ?cy))" "int (length (ps_view (cy_sampler ?cy))) \<le> v + k - 1"
    using assms by (simp_all add: cyclon_inv_def sampler_inv_def view_wf_def)
  show ?thesis
    unfolding Let_def cyclon_step.simps fst_conv
    using full_view_answered [OF i(1-3) assms, where i = i and sent = sent and ps = ps] i(4,5) by blast
qed

definition sample_tpeer :: "string \<Rightarrow> int \<Rightarrow> tpeer" where
  "sample_tpeer name age = \<lparr>tp_peer_id = name, tp_domain = ''d'', tp_data_schema_hash = ''h'',
     tp_manifest_id = None, tp_model_version = ''1.0.0'', tp_data_fingerprint = None, tp_metadata = [], tp_age = age\<rparr>"

definition sample_sampler :: sampler where
  "sample_sampler = \<lparr>ps_view_size = 2, ps_view = [(''a'', sample_tpeer ''a'' 3), (''b'', sample_tpeer ''b'' 1)]\<rparr>"

definition sample_ctx :: selection_context where
  "sample_ctx = \<lparr>sc_my_peer_id = ''me'', sc_my_domain = ''d'', sc_my_data_schema_hash = ''h'', sc_known_peers = [],
     sc_current_round = 0, sc_my_model_version = ''1.0.0'', sc_my_manifest_id = None, sc_my_fingerprint = None\<rparr>"

definition first_draw :: draw where
  "first_draw n k = [0..<k]"

lemma first_draw_fair: "fair_draw first_draw"
  by (auto simp: fair_draw_def first_draw_def)

text \<open>A request that carried \<open>a\<close> is under way while \<open>a\<close> leaves and \<open>c\<close> arrives; the answer
  then makes the view of two peers three entries long.\<close>

definition refilled_view :: "cyclon_op list" where
  "refilled_view = [Discovered (sample_tpeer ''a'' 3), Discovered (sample_tpeer ''b'' 1),
     Maintain first_draw sample_ctx, Disconnected ''a'', Discovered (sample_tpeer ''c'' 0)]"

theorem cyclon_view_bound_witness:
  "int (length (ps_view (cy_sampler (fst (run cyclon_step (cyclon_init 2 2) (refilled_view @
     [Answer ''b'' [''a''] (Inr [sample_tpeer ''x'' 0, sample_tpeer ''y'' 0])])))))) = 3"
  using cyclon_view_bound [where v = 2 and k = 2 and ops = refilled_view and sent = "[''a'']" and i = "''b''"
      and ps = "[sample_tpeer ''x'' 0, sample_tpeer ''y'' 0]"]
  by code_simp

text \<open>The receiving side of a view exchange answers with a sample of its view that leaves out the
  initiator: distinct peers, as many as \<open>shuffle_length\<close> allows. Afterwards the peers handed over are gone unless
  the initiator sent them itself, every other newcomer was in the initiator's subset, and an
  initiator that is in the view counts as fresh.\<close>

theorem incoming_shuffle_exchange:
  assumes "fair_draw draw" and "view_wf (cy_sampler cy)" and "0 \<le> cy_shuffle_length cy"
  shows "\<exists>response. snd (handle_incoming_shuffle draw i remote cy) = ok response
    \<and> (let cy' = fst (handle_incoming_shuffle draw i remote cy) in
       set response \<subseteq> set (get_view (cy_sampler cy)) \<and> i \<notin> tp_peer_id ` set response
       \<and> distinct (map tp_peer_id response)
       \<and> int (length response) = min (cy_shuffle_length cy) (int (card (view_ids (cy_sampler cy) - {i})))
       \<and> view_ids (cy_sampler cy') \<subseteq>
           (view_ids (cy_sampler cy) - tp_peer_id ` set response) \<union> tp_peer_id ` set remote
       \<and> (\<forall>p. map_of (ps_view (cy_sampler cy')) i = Some p \<longrightarrow> tp_age p = 0))"
proof -
  let ?s = "cy_sampler cy"
  let ?c = "shuffle_candidates i cy"
  let ?n = "min (cy_shuffle_length cy) (int (length ?c))"
  note c = shuffle_candidates_facts [OF assms(2), of i]
  obtain response where r: "py_sample draw ?c ?n = ok response"
    using assms(3) that by (cases "?n < 0") (auto simp: py_sample_def)
  note sampled = py_sample_ok [OF assms(1) r]
  let ?d = "discard_sent (map tp_peer_id response) ?s"
  let ?m = "merge_view remote (Some (cy_shuffle_length cy)) ?d"
  have d: "view_wf ?d" "view_ids ?d = view_ids ?s - tp_peer_id ` set response"
    using discard_facts [OF assms(2), of "map tp_peer_id response"] by simp_all
  have m: "view_wf ?m" "view_ids ?m \<subseteq> view_ids ?d \<union> tp_peer_id ` set remote"
    using merge_view_facts [OF d(1) assms(3), of remote] by simp_all
  have res: "handle_incoming_shuffle draw i remote cy = (cy\<lparr>cy_sampler := refresh i ?m\<rparr>, ok response)"
    using r by (simp add: handle_incoming_shuffle_def Let_def)
  show ?thesis
    unfolding res Let_def
    using sampled(1,2) sampled(3) [OF c(2)] c refresh_facts [OF m(1), of i] m(2) d(2) refresh_age [of i ?m]
    by auto
qed

theorem incoming_shuffle_exchange_witness:
  "\<exists>response. snd (handle_incoming_shuffle first_draw ''b'' [sample_tpeer ''b'' 9]
      (set_shuffle_callback (cyclon_init 2 1)\<lparr>cy_sampler := sample_sampler\<rparr>)) = ok response
    \<and> distinct (map tp_peer_id response) \<and> int (length response) = 1"
  using incoming_shuffle_exchange [OF first_draw_fair,
      where cy = "set_shuffle_callback (cyclon_init 2 1)\<lparr>cy_sampler := sample_sampler\<rparr>" and i = "''b''"
      and remote = "[sample_tpeer ''b'' 9]"]
  by (auto simp: set_shuffle_callback_def cyclon_init_def sample_sampler_def sample_tpeer_def view_wf_def
      view_ids_def Let_def insert_Diff_if)

text \<open>The view after the sent peers are dropped and the partner is refreshed, and after the whole round when no answer comes.\<close>

lemma drained_view:
  assumes s: "view_wf s" and q: "q \<in> view_ids s" and ids: "set ids \<subseteq> view_ids s - {q}" "distinct ids"
  shows "q \<in> view_ids (refresh q (discard_sent ids s))" "view_ids (refresh q (discard_sent ids s)) \<subseteq> view_ids s"
    "length (ps_view (refresh q (discard_sent ids s))) = length (ps_view s) - length ids"
proof -
  have d: "view_wf (discard_sent ids s)" "view_ids (discard_sent ids s) = view_ids s - set ids"
    using discard_facts [OF s, of ids] by simp_all
  have "length (ps_view (discard_sent ids s)) = length (ps_view s) - length ids"
    using view_card [OF d(1)] view_card [OF s] d(2) ids distinct_card [OF ids(2)]
    by (simp add: card_Diff_subset le_infI1 subset_Diff_insert)
  then show "length (ps_view (refresh q (discard_sent ids s))) = length (ps_view s) - length ids"
    using refresh_facts [OF d(1), of q] by simp
  show "q \<in> view_ids (refresh q (discard_sent ids s))" "view_ids (refresh q (discard_sent ids s)) \<subseteq> view_ids s"
    using refresh_facts [OF d(1), of q] d(2) ids(1) q by auto
qed

lemma unanswered_round:
  fixes cy :: cyclon
  defines "cy1 \<equiv> on_sampler increment_all_ages cy"
  assumes q: "get_oldest_peers 1 (cy_sampler cy1) = q # rest" and cb: "cy_has_send_shuffle cy"
    and r: "py_sample draw (shuffle_candidates (tp_peer_id q) cy1)
        (min (cy_shuffle_length cy1) (int (length (shuffle_candidates (tp_peer_id q) cy1)))) = ok sel"
    and ids: "set (map tp_peer_id sel) \<subseteq> view_ids (cy_sampler cy1) - {tp_peer_id q}"
    and me: "\<forall>me. cy_my_peer_info cy = Some me \<longrightarrow> tp_peer_id me \<notin> view_ids (cy_sampler cy1)"
  shows "fst (periodic_maintenance draw ctx (\<lambda>_ _. ok []) cy) =
    cy1\<lparr>cy_sampler := refresh (tp_peer_id q) (discard_sent (map tp_peer_id sel) (cy_sampler cy1))\<rparr>"
proof -
  let ?rq = "\<lparr>rq_peer = tp_peer_id q, rq_selected = sel @ self_descriptor cy1\<rparr>"
  have "maintenance_begin draw ctx cy = (cy1, ok (Some ?rq))"
    using q r cb by (simp add: maintenance_begin_def shuffle_begin_def Let_def cy1_def)
  moreover have "sent_peer_ids ?rq cy1 = map tp_peer_id sel"
    using me ids
    by (cases "cy_my_peer_info cy") (auto simp: sent_peer_ids_def self_descriptor_def filter_id_conv cy1_def)
  moreover have "filter (\<lambda>pid. pid \<noteq> tp_peer_id q) (map tp_peer_id sel) = map tp_peer_id sel"
    using ids by (auto simp: filter_id_conv)
  ultimately show ?thesis
    by (simp add: periodic_maintenance_def Let_def)
qed

text \<open>A maintenance round whose shuffle callback answers with no peers, as the one the node installs always
  does, shrinks the view: the peers sent are dropped, nobody is added, and the view loses as many peers as
  \<open>shuffle_length\<close> allows, all but the partner. The partner stays and counts as fresh.\<close>

theorem unanswered_shuffle_drains:
  assumes "fair_draw draw" and "view_wf (cy_sampler cy)" and "0 \<le> cy_shuffle_length cy"
    and "cy_has_send_shuffle cy" and "get_view_size (cy_sampler cy) \<noteq> 0"
    and "\<forall>me. cy_my_peer_info cy = Some me \<longrightarrow> tp_peer_id me \<notin> view_ids (cy_sampler cy)"
  shows "let cy' = fst (periodic_maintenance draw ctx (\<lambda>_ _. ok []) cy) in
    view_ids (cy_sampler cy') \<subseteq> view_ids (cy_sampler cy)
    \<and> (\<exists>q. q \<in> view_ids (cy_sampler cy') \<and> (\<forall>p. map_of (ps_view (cy_sampler cy')) q = Some p \<longrightarrow> tp_age p = 0))
    \<and> int (get_view_size (cy_sampler cy')) =
        int (get_view_size (cy_sampler cy))
          - min (cy_shuffle_length cy) (int (get_view_size (cy_sampler cy)) - 1)"
proof -
  let ?cy = "on_sampler increment_all_ages cy"
  let ?s = "cy_sampler ?cy"
  have s: "view_wf ?s" "view_ids ?s = view_ids (cy_sampler cy)"
      "length (ps_view ?s) = length (ps_view (cy_sampler cy))"
    using increment_facts [OF assms(2)] by simp_all
  have "ps_view ?s \<noteq> []"
    using assms(5) s(3) unfolding get_view_size_def by (metis length_0_conv)
  then obtain q rest where q: "get_oldest_peers 1 ?s = q # rest"
    using oldest_exists by blast
  let ?q = "tp_peer_id q"
  have "q \<in> set (get_view ?s)"
    using q slice_to_set [of 1 "sort_key (\<lambda>p. - tp_age p) (get_view ?s)"] unfolding get_oldest_peers_def by auto
  then have qin: "?q \<in> view_ids ?s"
    by (rule view_member_id [OF s(1)])
  note c = shuffle_candidates_facts [of ?cy ?q, OF s(1)]
  let ?n = "min (cy_shuffle_length ?cy) (int (length (shuffle_candidates ?q ?cy)))"
  obtain sel where r: "py_sample draw (shuffle_candidates ?q ?cy) ?n = ok sel"
    using assms(3) that by (cases "?n < 0") (auto simp: py_sample_def)
  note sampled = py_sample_ok [OF assms(1) r]
  let ?ids = "map tp_peer_id sel"
  have ids: "set ?ids \<subseteq> view_ids ?s - {?q}" "distinct ?ids"
    using sampled(1) sampled(3) [OF c(2)] c(3) by auto
  have pm: "fst (periodic_maintenance draw ctx (\<lambda>_ _. ok []) cy)
      = ?cy\<lparr>cy_sampler := refresh ?q (discard_sent ?ids ?s)\<rparr>"
    using unanswered_round [OF q assms(4) r ids(1)] assms(6) s(2) by simp
  have "length (shuffle_candidates ?q ?cy) = length (ps_view ?s) - 1"
    using c(4) qin view_card [OF s(1)] by (simp add: view_ids_def)
  then have "int (length sel) = min (cy_shuffle_length cy) (int (length (ps_view ?s)) - 1)"
    using sampled(2) \<open>ps_view ?s \<noteq> []\<close> by (cases "ps_view ?s") simp_all
  moreover have "length sel \<le> length (ps_view ?s)"
    using calculation by linarith
  ultimately show ?thesis
    unfolding pm Let_def get_view_size_def
    using drained_view [OF s(1) qin ids] s(2,3) refresh_age [of ?q "discard_sent ?ids ?s"] by auto
qed

theorem unanswered_shuffle_drains_witness:
  "int (get_view_size (cy_sampler (fst (periodic_maintenance first_draw sample_ctx (\<lambda>_ _. ok [])
      (set_shuffle_callback (cyclon_init 2 8)\<lparr>cy_sampler := sample_sampler\<rparr>))))) = 1"
  using unanswered_shuffle_drains [OF first_draw_fair,
      where cy = "set_shuffle_callback (cyclon_init 2 8)\<lparr>cy_sampler := sample_sampler\<rparr>" and ctx = sample_ctx]
  by (simp add: set_shuffle_callback_def cyclon_init_def sample_sampler_def sample_tpeer_def view_wf_def
      get_view_size_def Let_def)

end
