(* ===== verification/Aggregation.thy ===== *)
theory Aggregation
  imports Numpy_Types "HOL-Library.List_Lexorder" "HOL-Library.Char_ord"
begin

text \<open>
  Model updates, their validation and the averaging strategies of \<open>aggregation/\<close>: \<open>base.py\<close>, \<open>fedavg.py\<close> and
  \<open>staleness_fedavg.py\<close>. Weights are a numpy array or a state dictionary whose values are arrays,
  nested dictionaries or plain values other than \<open>None\<close>; an array is its dtype, its shape and its elements in
  row-major order. An element is a real number, an infinity or NaN; the arithmetic on real numbers, which the code
  does in \<open>float64\<close>, is exact, and the conversion of a result back to the dtype of the first array is
  \<open>np_cast\<close>. Weights of any other type (the generic fallback of
  \<open>FedAvg\<close>) are not modelled, nor are the metadata of a result.
\<close>

section \<open>Weights\<close>

record ndarray =
  nd_dtype :: string
  nd_shape :: "nat list"
  nd_data :: "flt list"

datatype entry = Tensor ndarray | SubDict "(string \<times> entry) list" | Plain string

datatype weights = NdArray ndarray | StateDict "(string, entry) pydict"

record peer_update =
  up_peer_id :: string
  up_weights :: weights
  up_sample_count :: int
  up_loss :: "real option"
  up_round_number :: int

record aggregated_model =
  ag_weights :: weights
  ag_contributing_peers :: "string list"
  ag_total_samples :: int

text \<open>The elements as real numbers, and \<open>xs.astype(a.dtype)\<close> in the shape of \<open>a\<close>.\<close>

definition reals :: "ndarray \<Rightarrow> real list" where
  "reals a = map real_of_flt (nd_data a)"

definition array_like :: "ndarray \<Rightarrow> real list \<Rightarrow> ndarray" where
  "array_like a xs = \<lparr>nd_dtype = nd_dtype a, nd_shape = nd_shape a, nd_data = map (np_cast (nd_dtype a)) xs\<rparr>"

section \<open>Validation\<close>

text \<open>\<open>_check_weights_valid\<close>: no element is NaN or infinite, nested dictionaries included.\<close>

definition finite_array :: "ndarray \<Rightarrow> bool" where
  "finite_array a \<longleftrightarrow> list_all is_finite (nd_data a)"

fun finite_entry :: "entry \<Rightarrow> bool" where
  "finite_entry (Tensor a) = finite_array a"
| "finite_entry (SubDict kvs) = list_all (\<lambda>(k, v). finite_entry v) kvs"
| "finite_entry (Plain s) = True"

fun weights_valid :: "weights \<Rightarrow> bool" where
  "weights_valid (NdArray a) = finite_array a"
| "weights_valid (StateDict kvs) = list_all (\<lambda>(k, v). finite_entry v) kvs"

text \<open>\<open>_get_shape\<close>: a tuple of the dimensions, or of the keys with the shapes of their values in the order
  of the keys; the empty tuple for anything else.\<close>

datatype shape = SInt nat | SPair string shape | STup "shape list"

definition keyed_shape :: "(string \<times> shape) list \<Rightarrow> shape" where
  "keyed_shape kss = STup (map (\<lambda>(k, s). SPair k s) (sort_key fst kss))"

definition array_shape :: "ndarray \<Rightarrow> shape" where
  "array_shape a = STup (map SInt (nd_shape a))"

fun entry_shape :: "entry \<Rightarrow> shape" where
  "entry_shape (Tensor a) = array_shape a"
| "entry_shape (SubDict kvs) = keyed_shape (map (\<lambda>(k, v). (k, entry_shape v)) kvs)"
| "entry_shape (Plain s) = STup []"

fun get_shape :: "weights \<Rightarrow> shape" where
  "get_shape (NdArray a) = array_shape a"
| "get_shape (StateDict kvs) = keyed_shape (map (\<lambda>(k, v). (k, entry_shape v)) kvs)"

text \<open>\<open>_validate_updates\<close>.\<close>

definition validate_updates :: "peer_update list \<Rightarrow> unit result" where
  "validate_updates updates =
     (if updates = [] then raise (ValueError ''Cannot aggregate empty list of updates'')
      else if \<not> distinct (map up_peer_id updates) then raise (ValueError ''Duplicate peer_id in updates'')
      else if \<not> list_all (\<lambda>u. weights_valid (up_weights u)) updates
      then raise (ValueError ''Weights contain NaN or Inf'')
      else if \<not> list_all (\<lambda>u. get_shape (up_weights u) = get_shape (up_weights (hd updates))) (tl updates)
      then raise (ValueError ''Incompatible weight shapes'')
      else ok ())"

section \<open>FedAvg\<close>

record fedavg =
  fa_weight_by :: string
  fa_clip_inverse_loss :: bool
  fa_inverse_loss_min :: real
  fa_inverse_loss_max :: real

definition clip_value :: "real \<Rightarrow> real \<Rightarrow> real \<Rightarrow> real" where
  "clip_value v lo hi = max lo (min hi v)"

definition compute_weight :: "fedavg \<Rightarrow> peer_update \<Rightarrow> real" where
  "compute_weight cfg u =
     (if fa_weight_by cfg = ''data_size'' then of_int (up_sample_count u)
      else if fa_weight_by cfg = ''uniform'' then 1
      else if fa_weight_by cfg = ''inverse_loss'' then
        (case up_loss u of
           None \<Rightarrow> 1
         | Some loss \<Rightarrow>
             if loss \<le> 0 then 1
             else if fa_clip_inverse_loss cfg
             then clip_value (1 / loss) (fa_inverse_loss_min cfg) (fa_inverse_loss_max cfg)
             else 1 / loss)
      else 1)"

text \<open>\<open>result += value * (weight / total)\<close>, element by element, from an array of zeros.\<close>

definition add_scaled :: "real list \<Rightarrow> real \<Rightarrow> real list \<Rightarrow> real list" where
  "add_scaled acc c xs = map2 (\<lambda>a x. a + x * c) acc xs"

definition weighted_sum :: "ndarray \<Rightarrow> (ndarray \<times> real) list \<Rightarrow> real \<Rightarrow> ndarray" where
  "weighted_sum like vws total_weight =
     array_like like (fold (\<lambda>(a, w) acc. add_scaled acc (w / total_weight) (reals a)) vws
       (replicate (length (nd_data like)) 0))"

fun as_array :: "weights \<Rightarrow> ndarray result" where
  "as_array (NdArray a) = ok a"
| "as_array (StateDict _) = raise AttributeError"

fun as_tensor :: "entry \<Rightarrow> ndarray result" where
  "as_tensor (Tensor a) = ok a"
| "as_tensor _ = raise AttributeError"

text \<open>\<open>_aggregate_numpy\<close> and \<open>_aggregate_numpy_values\<close>; the weights are Python floats, so a total of zero
  raises \<open>ZeroDivisionError\<close>.\<close>

definition aggregate_arrays :: "(ndarray \<times> real) list \<Rightarrow> real \<Rightarrow> ndarray result" where
  "aggregate_arrays vws total_weight =
     (if total_weight = 0 then raise ZeroDivisionError
      else ok (weighted_sum (fst (hd vws)) vws total_weight))"

definition aggregate_numpy :: "peer_update list \<Rightarrow> real list \<Rightarrow> real \<Rightarrow> weights result" where
  "aggregate_numpy updates weights_list total_weight =
     result_bind (result_map (\<lambda>u. as_array (up_weights u)) updates) (\<lambda>arrays.
     result_bind (aggregate_arrays (zip arrays weights_list) total_weight) (\<lambda>a. ok (NdArray a)))"

fun dict_items :: "weights \<Rightarrow> (string, entry) pydict" where
  "dict_items (NdArray _) = []"
| "dict_items (StateDict kvs) = kvs"

text \<open>The values of a key with the weights of their updates, in the order of the updates.\<close>

definition values_of :: "string \<Rightarrow> peer_update list \<Rightarrow> real list \<Rightarrow> (entry \<times> real) list" where
  "values_of key updates weights_list =
     concat (map (\<lambda>(u, w). case map_of (dict_items (up_weights u)) key of
         None \<Rightarrow> [] | Some v \<Rightarrow> [(v, w)]) (zip updates weights_list))"

text \<open>One key of \<open>_aggregate_dict\<close>: arrays are averaged over the updates that have the key, of anything
  else the first value is taken.\<close>

definition aggregate_key :: "(entry \<times> real) list \<Rightarrow> entry result" where
  "aggregate_key vws =
     (case fst (hd vws) of
        Tensor _ \<Rightarrow>
          result_bind (result_map (\<lambda>(v, w). result_bind (as_tensor v) (\<lambda>a. ok (a, w))) vws) (\<lambda>aws.
          result_bind (aggregate_arrays aws (sum_list (map snd aws))) (\<lambda>a. ok (Tensor a)))
      | v \<Rightarrow> ok v)"

text \<open>The keys of all updates; the set's iteration order, which only fixes the order of the result, is
  the order of first occurrence.\<close>

definition all_keys :: "peer_update list \<Rightarrow> string list" where
  "all_keys updates = remdups (concat (map (\<lambda>u. map fst (dict_items (up_weights u))) updates))"

definition aggregate_dict :: "peer_update list \<Rightarrow> real list \<Rightarrow> weights result" where
  "aggregate_dict updates weights_list =
     result_bind (result_map (\<lambda>key. result_bind (aggregate_key (values_of key updates weights_list))
         (\<lambda>v. ok (key, v))) (all_keys updates)) (\<lambda>kvs. ok (StateDict kvs))"

definition aggregate_weights :: "peer_update list \<Rightarrow> real list \<Rightarrow> real \<Rightarrow> weights result" where
  "aggregate_weights updates weights_list total_weight =
     (case up_weights (hd updates) of
        NdArray _ \<Rightarrow> aggregate_numpy updates weights_list total_weight
      | StateDict _ \<Rightarrow> aggregate_dict updates weights_list)"

definition aggregated :: "peer_update list \<Rightarrow> weights \<Rightarrow> aggregated_model" where
  "aggregated updates w = \<lparr>ag_weights = w, ag_contributing_peers = map up_peer_id updates,
     ag_total_samples = sum_list (map up_sample_count updates)\<rparr>"

definition fedavg_aggregate :: "fedavg \<Rightarrow> peer_update list \<Rightarrow> aggregated_model result" where
  "fedavg_aggregate cfg updates =
     result_bind (validate_updates updates) (\<lambda>_.
       let weights_list = map (compute_weight cfg) updates;
           total_weight = sum_list weights_list;
           total_weight' = (if total_weight = 0 then real (length updates) else total_weight)
       in result_bind (aggregate_weights updates weights_list total_weight') (\<lambda>w. ok (aggregated updates w)))"

section \<open>Staleness weights\<close>

definition compute_staleness_weight :: "real \<Rightarrow> fedavg \<Rightarrow> int \<Rightarrow> peer_update \<Rightarrow> real" where
  "compute_staleness_weight staleness_coefficient cfg current_round u =
     (let staleness = max 0 (current_round - up_round_number u);
          staleness_factor = 1 / (1 + staleness_coefficient * of_int staleness)
      in compute_weight cfg u * staleness_factor)"

definition staleness_reference_round :: "int \<Rightarrow> peer_update list \<Rightarrow> int" where
  "staleness_reference_round current_round updates =
     (if current_round = 0 then Max (set (map up_round_number updates)) else current_round)"

definition staleness_aggregate :: "real \<Rightarrow> fedavg \<Rightarrow> int \<Rightarrow> peer_update list \<Rightarrow> aggregated_model result" where
  "staleness_aggregate staleness_coefficient cfg current_round updates =
     result_bind (validate_updates updates) (\<lambda>_.
       let rnd = staleness_reference_round current_round updates;
           weights_list = map (compute_staleness_weight staleness_coefficient cfg rnd) updates;
           total_weight = sum_list weights_list
       in if total_weight = 0 then raise (ValueError ''Total staleness-weight is zero, cannot aggregate'')
          else result_bind (aggregate_weights updates weights_list total_weight) (\<lambda>w. ok (aggregated updates w)))"

section \<open>Well-formed weights and their coordinates\<close>

text \<open>An array has as many elements as its shape says, and they are values of its dtype. The arrays of a model are named by their
  locators: the whole array, or a key of the state dictionary.\<close>

definition array_wf :: "ndarray \<Rightarrow> bool" where
  "array_wf a \<longleftrightarrow> length (nd_data a) = prod_list (nd_shape a)
     \<and> list_all (\<lambda>v. case v of Fin x \<Rightarrow> np_cast (nd_dtype a) x = Fin x | _ \<Rightarrow> True) (nd_data a)"

fun weights_wf :: "weights \<Rightarrow> bool" where
  "weights_wf (NdArray a) = array_wf a"
| "weights_wf (StateDict kvs) =
     (dict_wf kvs \<and> list_all (\<lambda>(k, v). case v of Tensor a \<Rightarrow> array_wf a | _ \<Rightarrow> True) kvs)"

fun tensor_at :: "weights \<Rightarrow> string option \<Rightarrow> ndarray option" where
  "tensor_at (NdArray a) None = Some a"
| "tensor_at (StateDict kvs) (Some k) = (case map_of kvs k of Some (Tensor a) \<Rightarrow> Some a | _ \<Rightarrow> None)"
| "tensor_at _ _ = None"

fun locators :: "weights \<Rightarrow> string option list" where
  "locators (NdArray a) = [None]"
| "locators (StateDict kvs) =
     concat (map (\<lambda>(k, v). case v of Tensor a \<Rightarrow> [Some k] | _ \<Rightarrow> []) kvs)"

definition same_arrays :: "weights \<Rightarrow> weights \<Rightarrow> bool" where
  "same_arrays v w \<longleftrightarrow> set (locators v) = set (locators w)"

definition element :: "weights \<Rightarrow> string option \<Rightarrow> nat \<Rightarrow> real" where
  "element w l i = (case tensor_at w l of None \<Rightarrow> 0 | Some a \<Rightarrow> reals a ! i)"

definition elements :: "peer_update list \<Rightarrow> string option \<Rightarrow> nat \<Rightarrow> real list" where
  "elements updates l i = map (\<lambda>u. element (up_weights u) l i) updates"

text \<open>All updates have the array \<open>l\<close> in one dtype; the validation does not ask for it.\<close>

definition agreed_dtype :: "peer_update list \<Rightarrow> string option \<Rightarrow> bool" where
  "agreed_dtype us l \<longleftrightarrow>
     list_all (\<lambda>u. map_option nd_dtype (tensor_at (up_weights u) l) =
       map_option nd_dtype (tensor_at (up_weights (hd us)) l)) us"

definition weighted_mean :: "real list \<Rightarrow> real list \<Rightarrow> real" where
  "weighted_mean ws xs = sum_list (map2 (*) ws xs) / sum_list ws"

lemma locators_dict:
  assumes "dict_wf kvs"
  shows "l \<in> set (locators (StateDict kvs)) \<longleftrightarrow> tensor_at (StateDict kvs) l \<noteq> None"
proof (cases l)
  case (Some k)
  have "l \<in> set (locators (StateDict kvs)) \<longleftrightarrow> (\<exists>a. map_of kvs k = Some (Tensor a))"
    using assms Some by (auto simp: map_of_wf_iff split: entry.splits)
  then show ?thesis
    using Some by (auto split: entry.splits option.splits)
qed (auto split: entry.splits)

lemma locators_keys: "None \<notin> set (locators (StateDict kvs))"
  by (auto split: entry.splits)

lemma locators_iff: "weights_wf w \<Longrightarrow> l \<in> set (locators w) \<longleftrightarrow> tensor_at w l \<noteq> None"
  by (cases w; cases l) (simp_all add: locators_dict del: locators.simps(2) tensor_at.simps(2))

lemma tensor_at_wf: "weights_wf w \<Longrightarrow> tensor_at w l = Some a \<Longrightarrow> array_wf a"
  by (cases "(w, l)" rule: tensor_at.cases)
    (fastforce split: entry.splits option.splits dest: map_of_SomeD simp: list_all_iff)+

lemma keyed_shape_eq_set: "keyed_shape xs = keyed_shape ys \<Longrightarrow> set xs = set ys"
proof -
  assume "keyed_shape xs = keyed_shape ys"
  then have "map (\<lambda>(k, s). SPair k s) (sort_key fst xs) = map (\<lambda>(k, s). SPair k s) (sort_key fst ys)"
    by (simp add: keyed_shape_def)
  moreover have "inj (\<lambda>(k, s). SPair k s)"
    by (auto simp: inj_def)
  ultimately have "sort_key fst xs = sort_key fst ys"
    by (simp add: inj_map_eq_map)
  then show ?thesis
    by (metis set_sort)
qed

lemma same_shape_tensors:
  assumes "get_shape v = get_shape w" "weights_wf v" "weights_wf w"
    "tensor_at v l = Some a" "tensor_at w l = Some b"
  shows "nd_shape a = nd_shape b"
proof (cases "(v, l)" rule: tensor_at.cases)
  case (1 x)
  with assms show ?thesis
    by (cases w) (auto simp: array_shape_def inj_map_eq_map inj_def)
next
  case (2 kvs k)
  then obtain kvs' where w: "w = StateDict kvs'" and k: "map_of kvs k = Some (Tensor a)"
      "map_of kvs' k = Some (Tensor b)"
    using assms by (cases w) (auto split: option.splits entry.splits)
  have "(\<lambda>(k, v). (k, entry_shape v)) ` set kvs = (\<lambda>(k, v). (k, entry_shape v)) ` set kvs'"
    using assms(1) 2 w keyed_shape_eq_set by fastforce
  moreover have "(k, array_shape a) \<in> (\<lambda>(k, v). (k, entry_shape v)) ` set kvs"
    using k by (force dest: map_of_SomeD)
  ultimately obtain v' where "(k, v') \<in> set kvs'" "entry_shape v' = array_shape a"
    by auto
  moreover have "dict_wf kvs'"
    using assms(3) w by simp
  ultimately have "array_shape b = array_shape a"
    using k by (metis entry_shape.simps(1) map_of_wf_iff option.inject)
  then show ?thesis
    by (simp add: array_shape_def inj_map_eq_map inj_def)
qed (use assms in auto)

section \<open>Weighted means\<close>

lemma length_fold_add_scaled:
  "(\<And>u. u \<in> set us \<Longrightarrow> length (reals (arr u)) = length acc) \<Longrightarrow>
   length (fold (\<lambda>u acc. add_scaled acc (f u) (reals (arr u))) us acc) = length acc"
  by (induction us arbitrary: acc) (auto simp: add_scaled_def)

lemma nth_fold_add_scaled:
  "(\<And>u. u \<in> set us \<Longrightarrow> length (reals (arr u)) = length acc) \<Longrightarrow> i < length acc \<Longrightarrow>
   fold (\<lambda>u acc. add_scaled acc (f u) (reals (arr u))) us acc ! i =
     acc ! i + (\<Sum>u\<leftarrow>us. reals (arr u) ! i * f u)"
  by (induction us arbitrary: acc) (auto simp: add_scaled_def)

lemma weighted_mean_map:
  "weighted_mean (map f us) (map g us) = (\<Sum>u\<leftarrow>us. f u * g u) / sum_list (map f us)"
proof -
  have "map2 (*) (map f us) (map g us) = map (\<lambda>u. f u * g u) us"
    by (induction us) auto
  then show ?thesis
    by (simp add: weighted_mean_def)
qed

lemma weighted_sum_nth:
  assumes "\<And>u. u \<in> set us \<Longrightarrow> length (nd_data (arr u)) = length (nd_data like)"
    and "i < length (nd_data like)"
  shows "nd_data (weighted_sum like (map (\<lambda>u. (arr u, f u)) us) (sum_list (map f us))) ! i =
     np_cast (nd_dtype like) (weighted_mean (map f us) (map (\<lambda>u. reals (arr u) ! i) us))"
proof -
  let ?T = "sum_list (map f us)"
  have len: "length (reals (arr u)) = length (replicate (length (nd_data like)) (0 :: real))"
    if "u \<in> set us" for u
    using assms(1) that by (simp add: reals_def)
  have "(\<Sum>u\<leftarrow>us. reals (arr u) ! i * (f u / ?T)) = (\<Sum>u\<leftarrow>us. f u * reals (arr u) ! i) / ?T"
    by (simp add: sum_list_const_mult [symmetric] divide_inverse mult_ac)
  then show ?thesis
    using assms(2) nth_fold_add_scaled [where us = us and f = "\<lambda>u. f u / ?T" and i = i, OF len]
      length_fold_add_scaled [where us = us and f = "\<lambda>u. f u / ?T", OF len]
    by (simp add: weighted_sum_def array_like_def weighted_mean_map fold_map o_def)
qed

lemma weighted_sum_bounds:
  assumes "length ws = length xs" "\<forall>w\<in>set ws. 0 \<le> (w :: real)" "\<forall>x\<in>set xs. lo \<le> x \<and> x \<le> hi"
  shows "lo * sum_list ws \<le> sum_list (map2 (*) ws xs) \<and> sum_list (map2 (*) ws xs) \<le> hi * sum_list ws"
  using assms
proof (induction ws xs rule: list_induct2)
  case (Cons w ws x xs)
  then have "lo * w \<le> w * x" "w * x \<le> hi * w"
    using mult_right_mono [of lo x w] mult_right_mono [of x hi w] by (simp_all add: mult.commute)
  with Cons show ?case
    by (auto simp: ring_distribs)
qed simp

lemma weighted_mean_bounds:
  assumes "length ws = length xs" "\<forall>w\<in>set ws. 0 \<le> w" "0 < sum_list ws" "\<forall>x\<in>set xs. lo \<le> x \<and> x \<le> hi"
  shows "lo \<le> weighted_mean ws xs \<and> weighted_mean ws xs \<le> hi"
  using weighted_sum_bounds [OF assms(1,2,4)] assms(3)
  by (simp add: weighted_mean_def pos_le_divide_eq pos_divide_le_eq)

lemma weighted_mean_Min_Max:
  assumes "length ws = length xs" "\<forall>w\<in>set ws. 0 \<le> w" "0 < sum_list ws"
  shows "Min (set xs) \<le> weighted_mean ws xs \<and> weighted_mean ws xs \<le> Max (set xs)"
  by (rule weighted_mean_bounds [OF assms]) simp

section \<open>What the averages compute\<close>

lemma validate_updates_ok:
  assumes "validate_updates us = ok ()"
  shows "us \<noteq> []" "distinct (map up_peer_id us)" "\<And>u. u \<in> set us \<Longrightarrow> weights_valid (up_weights u)"
    "\<And>u. u \<in> set us \<Longrightarrow> get_shape (up_weights u) = get_shape (up_weights (hd us))"
  using assms by (cases us; auto simp: validate_updates_def list_all_iff split: if_splits)+

text \<open>The reference: every array of the result has the shape of the inputs and the dtype of the first one, and each of
  its elements is the weighted mean of the elements at its place, converted to that dtype.\<close>

definition mean_array :: "(peer_update \<Rightarrow> real) \<Rightarrow> peer_update list \<Rightarrow> string option \<Rightarrow> ndarray \<Rightarrow> bool" where
  "mean_array f us l a \<longleftrightarrow>
     (\<forall>u\<in>set us. map_option nd_shape (tensor_at (up_weights u) l) = Some (nd_shape a)) \<and>
     map_option nd_dtype (tensor_at (up_weights (hd us)) l) = Some (nd_dtype a) \<and>
     length (nd_data a) = prod_list (nd_shape a) \<and>
     (\<forall>i<length (nd_data a). nd_data a ! i = np_cast (nd_dtype a) (weighted_mean (map f us) (elements us l i)))"

definition mean_weights :: "(peer_update \<Rightarrow> real) \<Rightarrow> peer_update list \<Rightarrow> weights \<Rightarrow> bool" where
  "mean_weights f us w \<longleftrightarrow>
     same_arrays w (up_weights (hd us)) \<and>
     (\<forall>l\<in>set (locators w). case tensor_at w l of None \<Rightarrow> False | Some a \<Rightarrow> mean_array f us l a)"

text \<open>Updates that can be averaged: validated, well-formed, with the same arrays.\<close>

definition averageable :: "peer_update list \<Rightarrow> bool" where
  "averageable us \<longleftrightarrow> validate_updates us = ok () \<and>
     list_all (\<lambda>u. weights_wf (up_weights u) \<and> same_arrays (up_weights u) (up_weights (hd us))) us"

lemma averageable_ne: "averageable us \<Longrightarrow> us \<noteq> []"
  using validate_updates_ok(1) unfolding averageable_def by blast

lemma averageable_wf:
  "averageable us \<Longrightarrow> u \<in> set us \<Longrightarrow>
     weights_wf (up_weights u) \<and> set (locators (up_weights u)) = set (locators (up_weights (hd us)))"
  by (simp add: averageable_def list_all_iff same_arrays_def)

lemma averageable_tensor:
  assumes "averageable us" "u \<in> set us" "l \<in> set (locators (up_weights (hd us)))"
  shows "\<exists>a b. tensor_at (up_weights u) l = Some a \<and> tensor_at (up_weights (hd us)) l = Some b \<and>
    nd_shape a = nd_shape b \<and> array_wf a"
proof -
  have wf: "weights_wf (up_weights u)" "weights_wf (up_weights (hd us))"
    and l: "l \<in> set (locators (up_weights u))" and v: "validate_updates us = ok ()"
    using averageable_wf [OF assms(1,2)] averageable_wf [OF assms(1) hd_in_set] averageable_ne [OF assms(1)] assms
    by (simp_all add: averageable_def)
  obtain a b where "tensor_at (up_weights u) l = Some a" "tensor_at (up_weights (hd us)) l = Some b"
    using locators_iff [OF wf(1)] locators_iff [OF wf(2)] l assms(3) by auto
  then show ?thesis
    using same_shape_tensors [OF validate_updates_ok(4) [OF v assms(2)] wf] tensor_at_wf [OF wf(1)] by blast
qed

text \<open>The elements of an array, infinities and NaN read as zero, are values of its dtype.\<close>

lemma reals_hold: "array_wf a \<Longrightarrow> x \<in> set (reals a) \<Longrightarrow> np_cast (nd_dtype a) x = Fin x"
proof -
  assume "array_wf a" "x \<in> set (reals a)"
  then obtain v where v: "x = real_of_flt v"
      "case v of Fin x \<Rightarrow> np_cast (nd_dtype a) x = Fin x | _ \<Rightarrow> True"
    by (auto simp: array_wf_def reals_def list_all_iff)
  show ?thesis
    using v by (cases v) simp_all
qed

lemma element_holds:
  assumes "averageable us" "u \<in> set us" "l \<in> set (locators (up_weights (hd us)))"
    and "tensor_at (up_weights (hd us)) l = Some b" "i < length (nd_data b)" "agreed_dtype us l"
  shows "np_cast (nd_dtype b) (element (up_weights u) l i) = Fin (element (up_weights u) l i)"
proof -
  obtain a where a: "tensor_at (up_weights u) l = Some a" "nd_shape a = nd_shape b" "nd_dtype a = nd_dtype b" "array_wf a"
    using averageable_tensor [OF assms(1-3)] assms(2,4,6) by (auto simp: agreed_dtype_def list_all_iff)
  have "array_wf b"
    using averageable_tensor [OF assms(1) hd_in_set [OF averageable_ne [OF assms(1)]] assms(3)] assms(4) by auto
  then have "reals a ! i \<in> set (reals a)"
    using a assms(5) by (intro nth_mem) (simp add: reals_def array_wf_def)
  then show ?thesis
    using reals_hold [OF a(4)] a by (simp add: element_def)
qed

lemma aggregate_arrays_mean:
  assumes us: "averageable us" and l: "l \<in> set (locators (up_weights (hd us)))" and total: "sum_list (map f us) \<noteq> 0"
  shows "\<exists>a. aggregate_arrays (map (\<lambda>u. (the (tensor_at (up_weights u) l), f u)) us) (sum_list (map f us)) = ok a \<and>
    mean_array f us l a"
proof -
  let ?arr = "\<lambda>u. the (tensor_at (up_weights u) l)"
  let ?like = "?arr (hd us)"
  let ?a = "weighted_sum ?like (map (\<lambda>u. (?arr u, f u)) us) (sum_list (map f us))"
  have ne: "us \<noteq> []"
    using us by (rule averageable_ne)
  have shape: "map_option nd_shape (tensor_at (up_weights u) l) = Some (nd_shape ?like)"
    and len: "length (nd_data (?arr u)) = length (nd_data ?like)" if "u \<in> set us" for u
    using averageable_tensor [OF us that l] averageable_tensor [OF us hd_in_set [OF ne] l]
    unfolding array_wf_def by (metis option.map(2) option.sel)+
  have "length (nd_data ?a) = length (nd_data ?like)"
    using length_fold_add_scaled [where us = us and arr = ?arr and f = "\<lambda>u. f u / sum_list (map f us)"
        and acc = "replicate (length (nd_data ?like)) 0"] len
    by (simp add: weighted_sum_def array_like_def fold_map o_def reals_def)
  moreover have "nd_data ?a ! i = np_cast (nd_dtype ?like) (weighted_mean (map f us) (elements us l i))"
    if "i < length (nd_data ?like)" for i
  proof -
    have "map (\<lambda>u. reals (?arr u) ! i) us = elements us l i"
      using shape by (fastforce simp: elements_def element_def split: option.splits)
    then show ?thesis
      using weighted_sum_nth [where us = us and arr = ?arr and f = f, OF len that] by simp
  qed
  moreover have "nd_shape ?a = nd_shape ?like" "nd_dtype ?a = nd_dtype ?like"
    by (simp_all add: weighted_sum_def array_like_def)
  moreover have "map_option nd_dtype (tensor_at (up_weights (hd us)) l) = Some (nd_dtype ?like)"
    using averageable_tensor [OF us hd_in_set [OF ne] l] by auto
  moreover have "array_wf ?like"
    using averageable_tensor [OF us hd_in_set [OF ne] l] by auto
  ultimately have "mean_array f us l ?a"
    using shape by (simp add: mean_array_def array_wf_def)
  then show ?thesis
    using total ne by (intro exI [where x = ?a]) (simp add: aggregate_arrays_def hd_map)
qed

lemma result_map_ok: "(\<And>x. x \<in> set xs \<Longrightarrow> h x = ok (g x)) \<Longrightarrow> result_map h xs = ok (map g xs)"
  by (induction xs) auto

lemma aggregate_numpy_mean:
  assumes us: "averageable us" and total: "sum_list (map f us) \<noteq> 0" and hd: "up_weights (hd us) = NdArray b"
  shows "\<exists>w. aggregate_numpy us (map f us) (sum_list (map f us)) = ok w \<and> mean_weights f us w"
proof -
  have l: "None \<in> set (locators (up_weights (hd us)))"
    by (simp add: hd)
  have "as_array (up_weights u) = ok (the (tensor_at (up_weights u) None))" if "u \<in> set us" for u
    using averageable_tensor [OF us that l] by (cases "up_weights u") auto
  then have "result_map (\<lambda>u. as_array (up_weights u)) us = ok (map (\<lambda>u. the (tensor_at (up_weights u) None)) us)"
    by (rule result_map_ok)
  moreover have "zip (map g us) (map f us) = map (\<lambda>u. (g u, f u)) us" for g :: "peer_update \<Rightarrow> ndarray"
    by (simp add: zip_map_map zip_same_conv_map)
  ultimately show ?thesis
    using aggregate_arrays_mean [OF us l total]
    by (auto simp: aggregate_numpy_def mean_weights_def same_arrays_def hd)
qed

lemma values_of_tensors:
  "(\<And>u. u \<in> set us \<Longrightarrow> map_of (dict_items (up_weights u)) k = Some (g u)) \<Longrightarrow>
     values_of k us (map f us) = map (\<lambda>u. (g u, f u)) us"
  by (induction us) (auto simp: values_of_def)

lemma values_of_hd:
  assumes "k \<in> set (all_keys us)"
  shows "\<exists>u\<in>set us. map_of (dict_items (up_weights u)) k = Some (fst (hd (values_of k us (map f us))))"
proof -
  obtain u v where u: "u \<in> set us" "map_of (dict_items (up_weights u)) k = Some v"
    using assms by (force simp: all_keys_def dest: weak_map_of_SomeI)
  then have "(v, f u) \<in> set (values_of k us (map f us))"
    by (force simp: values_of_def zip_map2 zip_same_conv_map)
  then have "hd (values_of k us (map f us)) \<in> set (values_of k us (map f us))"
    by (metis hd_in_set empty_iff empty_set)
  then show ?thesis
    by (fastforce simp: values_of_def zip_map2 zip_same_conv_map split: option.splits)
qed

lemma aggregate_key_tensor:
  assumes us: "averageable us" and l: "Some k \<in> set (locators (up_weights (hd us)))"
    and total: "sum_list (map f us) \<noteq> 0"
  shows "\<exists>a. aggregate_key (values_of k us (map f us)) = ok (Tensor a) \<and> mean_array f us (Some k) a"
proof -
  let ?arr = "\<lambda>u. the (tensor_at (up_weights u) (Some k))"
  have "map_of (dict_items (up_weights u)) k = Some (Tensor (?arr u))" if "u \<in> set us" for u
    using averageable_tensor [OF us that l]
    by (cases "up_weights u") (auto split: option.splits entry.splits)
  then have "values_of k us (map f us) = map (\<lambda>u. (Tensor (?arr u), f u)) us"
    by (rule values_of_tensors)
  moreover have "result_map (\<lambda>(v, w). result_bind (as_tensor v) (\<lambda>a. ok (a, w))) (map (\<lambda>u. (Tensor (?arr u), f u)) us)
      = ok (map (\<lambda>u. (?arr u, f u)) us)"
    by (induction us) auto
  ultimately show ?thesis
    using aggregate_arrays_mean [OF us l total] averageable_ne [OF us]
    by (auto simp: aggregate_key_def hd_map o_def)
qed

lemma aggregate_key_other:
  assumes us: "averageable us" and k: "k \<in> set (all_keys us)" and l: "Some k \<notin> set (locators (up_weights (hd us)))"
  shows "\<exists>v. aggregate_key (values_of k us (map f us)) = ok v \<and> (\<forall>a. v \<noteq> Tensor a)"
proof -
  obtain u where u: "u \<in> set us"
    and v: "map_of (dict_items (up_weights u)) k = Some (fst (hd (values_of k us (map f us))))"
    using values_of_hd [OF k] by blast
  have "tensor_at (up_weights u) (Some k) = None"
    using locators_iff averageable_wf [OF us u] l by blast
  then have "\<forall>a. fst (hd (values_of k us (map f us))) \<noteq> Tensor a"
    using v by (cases "up_weights u") auto
  then show ?thesis
    by (auto simp: aggregate_key_def split: entry.splits)
qed

lemma all_keys_locator:
  assumes "averageable us" "Some k \<in> set (locators (up_weights (hd us)))"
  shows "k \<in> set (all_keys us)"
proof -
  have "k \<in> fst ` set (dict_items (up_weights (hd us)))"
    using assms(2) by (cases "up_weights (hd us)") (force split: entry.splits)+
  then show ?thesis
    using hd_in_set [OF averageable_ne [OF assms(1)]] by (force simp: all_keys_def)
qed

text \<open>A dictionary computed key by key has an array exactly where the inputs have one.\<close>

lemma dict_by_key:
  fixes agg :: "string \<Rightarrow> entry result" and us :: "peer_update list"
  defines "L \<equiv> set (locators (up_weights (hd us)))"
    and "kvs \<equiv> map (\<lambda>k. (k, projr (agg k))) (all_keys us)"
  assumes us: "averageable us" and hd: "up_weights (hd us) = StateDict b"
    and tensor: "\<And>k. Some k \<in> L \<Longrightarrow> \<exists>a. agg k = ok (Tensor a) \<and> P (Some k) a"
    and other: "\<And>k. k \<in> set (all_keys us) \<Longrightarrow> Some k \<notin> L \<Longrightarrow> \<exists>v. agg k = ok v \<and> (\<forall>a. v \<noteq> Tensor a)"
  shows "result_map (\<lambda>k. result_bind (agg k) (\<lambda>v. ok (k, v))) (all_keys us) = ok kvs"
    "set (locators (StateDict kvs)) = L"
    "l \<in> L \<Longrightarrow> \<exists>a. tensor_at (StateDict kvs) l = Some a \<and> P l a"
proof -
  show "result_map (\<lambda>k. result_bind (agg k) (\<lambda>v. ok (k, v))) (all_keys us) = ok kvs"
    unfolding kvs_def using tensor other by (intro result_map_ok) (metis result_bind.simps(2) sum.sel(2))
  have keys: "Some k \<in> L \<Longrightarrow> k \<in> set (all_keys us)" for k
    unfolding L_def by (rule all_keys_locator [OF us])
  have at: "map_of kvs k = (if k \<in> set (all_keys us) then Some (projr (agg k)) else None)" for k
    by (simp add: kvs_def map_of_map_restrict restrict_map_def)
  have wf: "tensor_at (StateDict kvs) (Some k) = Some a \<longleftrightarrow> Some k \<in> L \<and> agg k = ok (Tensor a)" for k a
    using tensor [of k] other [of k] keys [of k] by (cases "Some k \<in> L") (auto simp: at split: entry.splits)
  have none: "None \<notin> L" "tensor_at (StateDict kvs) None = None"
    by (simp_all add: L_def hd locators_keys del: locators.simps(2))
  show found: "\<exists>a. tensor_at (StateDict kvs) l = Some a \<and> P l a" if L: "l \<in> L" for l
  proof (cases l)
    case (Some k)
    then obtain a where "agg k = ok (Tensor a)" "P l a"
      using tensor [of k] L by blast
    then show ?thesis
      using L wf [of k a] Some by blast
  qed (use L none(1) in blast)
  have lost: "l \<in> L" if "tensor_at (StateDict kvs) l = Some a" for l a
    using that none(2) wf by (cases l) (simp_all del: tensor_at.simps(2))
  have "dict_wf kvs"
    by (simp add: kvs_def o_def all_keys_def)
  then have "l \<in> set (locators (StateDict kvs)) \<longleftrightarrow> l \<in> L" for l
    unfolding locators_dict [OF \<open>dict_wf kvs\<close>] using found [of l] lost [of l] by fastforce
  then show "set (locators (StateDict kvs)) = L"
    by blast
qed

lemma aggregate_dict_mean:
  assumes us: "averageable us" and total: "sum_list (map f us) \<noteq> 0" and hd: "up_weights (hd us) = StateDict b"
  shows "\<exists>w. aggregate_dict us (map f us) = ok w \<and> mean_weights f us w"
proof -
  note by_key = dict_by_key [OF us hd, where P = "mean_array f us",
      OF aggregate_key_tensor [OF us _ total] aggregate_key_other [OF us]]
  show ?thesis
    using by_key(1,2) by_key(3) unfolding mean_weights_def same_arrays_def aggregate_dict_def
    by (auto simp del: tensor_at.simps(2) locators.simps(2)) fastforce
qed

text \<open>Both layouts of the weights.\<close>

lemma aggregate_weights_mean:
  assumes "averageable us" "sum_list (map f us) \<noteq> 0"
  shows "\<exists>w. aggregate_weights us (map f us) (sum_list (map f us)) = ok w \<and> mean_weights f us w"
  using aggregate_numpy_mean [OF assms] aggregate_dict_mean [OF assms]
  by (cases "up_weights (hd us)") (simp_all add: aggregate_weights_def)

lemma mean_array_bounds:
  assumes us: "averageable us" and l: "l \<in> set (locators (up_weights (hd us)))"
    and a: "mean_array f us l a" "\<forall>u\<in>set us. 0 \<le> f u" "0 < sum_list (map f us)" "i < length (nd_data a)"
      "agreed_dtype us l"
  shows "\<exists>x. nd_data a ! i = Fin x \<and> Min (set (elements us l i)) \<le> x \<and> x \<le> Max (set (elements us l i))"
proof -
  have ne: "us \<noteq> []"
    using us by (rule averageable_ne)
  obtain b where b: "tensor_at (up_weights (hd us)) l = Some b" "array_wf b"
    using averageable_tensor [OF us hd_in_set [OF ne] l] by auto
  have i: "i < length (nd_data b)" and d: "nd_dtype a = nd_dtype b"
    using a(1,4) b hd_in_set [OF ne] by (auto simp: mean_array_def array_wf_def)
  let ?es = "set (elements us l i)"
  have "Min ?es \<in> ?es" "Max ?es \<in> ?es"
    using ne by (simp_all add: elements_def)
  then have "np_cast (nd_dtype b) (Min ?es) = Fin (Min ?es)" "np_cast (nd_dtype b) (Max ?es) = Fin (Max ?es)"
    using element_holds [OF us _ l b(1) i a(5)] by (auto simp: elements_def)
  then show ?thesis
    using np_cast_between [where d = "nd_dtype b"] weighted_mean_Min_Max [of "map f us" "elements us l i"] a d
    by (simp add: mean_array_def elements_def)
qed

section \<open>The contract of a strategy\<close>

text \<open>What \<open>AggregationStrategy\<close> promises its caller: nothing that fails the validation is aggregated, and a
  result names peers of the given updates.\<close>

locale aggregation_strategy =
  fixes aggregate :: "peer_update list \<Rightarrow> aggregated_model result"
  assumes rejects: "validate_updates us = Inl e \<Longrightarrow> aggregate us = Inl e"
    and contributors: "aggregate us = Inr m \<Longrightarrow> set (ag_contributing_peers m) \<subseteq> up_peer_id ` set us"
begin

lemma aggregate_validates: "aggregate us = Inr m \<Longrightarrow> validate_updates us = ok ()"
  using rejects by (cases "validate_updates us") auto

lemma duplicate_rejected:
  assumes "\<not> distinct (map up_peer_id us)"
  shows "\<exists>e. aggregate us = Inl e"
  using assms aggregate_validates validate_updates_ok(2) by (cases "aggregate us") blast+

lemma invalid_rejected:
  assumes "u \<in> set us" "\<not> weights_valid (up_weights u)"
  shows "\<exists>e. aggregate us = Inl e"
  using assms aggregate_validates validate_updates_ok(3) by (cases "aggregate us") blast+

lemma misshaped_rejected:
  assumes "u \<in> set us" "get_shape (up_weights u) \<noteq> get_shape (up_weights (hd us))"
  shows "\<exists>e. aggregate us = Inl e"
  using assms aggregate_validates validate_updates_ok(4) by (cases "aggregate us") blast+

end

interpretation fedavg: aggregation_strategy "fedavg_aggregate cfg" for cfg
  by unfold_locales (auto simp: fedavg_aggregate_def aggregated_def result_bind_eq_ok Let_def)

interpretation staleness: aggregation_strategy "staleness_aggregate c cfg r" for c cfg r
  by unfold_locales
    (auto simp: staleness_aggregate_def aggregated_def result_bind_eq_ok Let_def split: if_splits)

section \<open>Correctness of the averages\<close>

text \<open>Bounds of a result: every element of an array that all inputs have in one dtype is a real number between the
  least and the greatest element of the inputs at its place.\<close>

definition within_inputs :: "peer_update list \<Rightarrow> weights \<Rightarrow> bool" where
  "within_inputs us w \<longleftrightarrow>
     (\<forall>l\<in>set (locators w). agreed_dtype us l \<longrightarrow> (\<forall>i<length (nd_data (the (tensor_at w l))).
        \<exists>x. nd_data (the (tensor_at w l)) ! i = Fin x \<and>
            Min (set (elements us l i)) \<le> x \<and> x \<le> Max (set (elements us l i))))"

lemma mean_weights_within:
  assumes "averageable us" "mean_weights f us w" "\<forall>u\<in>set us. 0 \<le> f u" "0 < sum_list (map f us)"
  shows "within_inputs us w"
  unfolding within_inputs_def
proof (intro ballI allI impI)
  fix l i
  assume "l \<in> set (locators w)" "agreed_dtype us l" "i < length (nd_data (the (tensor_at w l)))"
  moreover from this(1) obtain a where "tensor_at w l = Some a" "mean_array f us l a"
    using assms(2) by (auto simp: mean_weights_def split: option.splits)
  moreover have "l \<in> set (locators (up_weights (hd us)))"
    using \<open>l \<in> set (locators w)\<close> assms(2) by (simp add: mean_weights_def same_arrays_def)
  ultimately show "\<exists>x. nd_data (the (tensor_at w l)) ! i = Fin x \<and>
      Min (set (elements us l i)) \<le> x \<and> x \<le> Max (set (elements us l i))"
    using mean_array_bounds [OF assms(1)] assms(3,4) by simp
qed


text \<open>The staleness weights never grow with the age of an update, and the average under them has the same bounds.\<close>

lemma staleness_weight_antimono:
  assumes "0 \<le> c" "0 \<le> compute_weight cfg u" "up_round_number u \<le> up_round_number v"
    "compute_weight cfg u = compute_weight cfg v"
  shows "compute_staleness_weight c cfg r u \<le> compute_staleness_weight c cfg r v"
proof -
  have "1 / (1 + c * of_int (max 0 (r - up_round_number u))) \<le> 1 / (1 + c * of_int (max 0 (r - up_round_number v)))"
    using assms by (intro divide_left_mono add_left_mono mult_left_mono mult_pos_pos add_pos_nonneg) auto
  then show ?thesis
    using assms(2,4) mult_left_mono unfolding compute_staleness_weight_def Let_def by metis
qed

lemma staleness_convex:
  assumes "averageable us"
    and "\<forall>u\<in>set us. 0 \<le> compute_staleness_weight c cfg (staleness_reference_round r us) u"
    and "0 < sum_list (map (compute_staleness_weight c cfg (staleness_reference_round r us)) us)"
  shows "\<exists>m. staleness_aggregate c cfg r us = ok m \<and> within_inputs us (ag_weights m)"
proof -
  let ?f = "compute_staleness_weight c cfg (staleness_reference_round r us)"
  obtain w where "aggregate_weights us (map ?f us) (sum_list (map ?f us)) = ok w" "mean_weights ?f us w"
    using aggregate_weights_mean [OF assms(1), of ?f] assms(3) by auto
  then show ?thesis
    using assms mean_weights_within [OF assms(1), of ?f]
    by (auto simp: staleness_aggregate_def averageable_def aggregated_def Let_def)
qed

section \<open>A total weight of zero\<close>

lemma add_scaled_zero: "length xs = length acc \<Longrightarrow> add_scaled acc 0 xs = acc"
  by (auto simp: add_scaled_def intro: nth_equalityI)

lemma fold_add_scaled_zero:
  "(\<And>u. u \<in> set us \<Longrightarrow> length (reals (arr u)) = length acc \<and> f u = 0) \<Longrightarrow>
     fold (\<lambda>u acc. add_scaled acc (f u) (reals (arr u))) us acc = acc"
  by (induction us) (simp_all add: add_scaled_zero)

lemma result_map_fails:
  "\<exists>x\<in>set xs. h x = raise e \<Longrightarrow> (\<And>x. x \<in> set xs \<Longrightarrow> h x = raise e \<or> (\<exists>y. h x = ok y)) \<Longrightarrow> result_map h xs = raise e"
proof (induction xs)
  case (Cons x xs)
  then show ?case
    by (cases "h x") (use Cons in fastforce)+
qed simp

lemma aggregate_numpy_zero:
  assumes us: "averageable us" and zero: "\<forall>u\<in>set us. f u = 0" and hd: "up_weights (hd us) = NdArray b" and "t \<noteq> 0"
  shows "aggregate_numpy us (map f us) t = ok (NdArray (array_like b (replicate (length (nd_data b)) 0)))"
proof -
  let ?arr = "\<lambda>u. the (tensor_at (up_weights u) None)"
  have l: "None \<in> set (locators (up_weights (hd us)))"
    by (simp add: hd)
  have u: "as_array (up_weights u) = ok (?arr u) \<and> length (reals (?arr u)) = length (nd_data b)" if "u \<in> set us" for u
    using averageable_tensor [OF us that l] averageable_tensor [OF us hd_in_set [OF averageable_ne [OF us]] l] hd
    by (cases "up_weights u") (auto simp: array_wf_def reals_def)
  have "result_map (\<lambda>u. as_array (up_weights u)) us = ok (map ?arr us)"
    using u by (intro result_map_ok) blast
  moreover have "fold (\<lambda>u acc. add_scaled acc (f u / t) (reals (?arr u))) us (replicate (length (nd_data b)) 0) =
      replicate (length (nd_data b)) 0"
    using u zero by (intro fold_add_scaled_zero) simp
  moreover have "?arr (hd us) = b"
    by (simp add: hd)
  ultimately show ?thesis
    using \<open>t \<noteq> 0\<close> averageable_ne [OF us]
    by (simp add: aggregate_numpy_def aggregate_arrays_def weighted_sum_def zip_map_map zip_same_conv_map
        fold_map o_def hd_map)
qed

lemma aggregate_key_zero:
  assumes us: "averageable us" and l: "Some k \<in> set (locators (up_weights (hd us)))" and zero: "\<forall>u\<in>set us. f u = 0"
  shows "aggregate_key (values_of k us (map f us)) = raise ZeroDivisionError"
proof -
  let ?arr = "\<lambda>u. the (tensor_at (up_weights u) (Some k))"
  have "map_of (dict_items (up_weights u)) k = Some (Tensor (?arr u))" if "u \<in> set us" for u
    using averageable_tensor [OF us that l]
    by (cases "up_weights u") (auto split: option.splits entry.splits)
  then have "values_of k us (map f us) = map (\<lambda>u. (Tensor (?arr u), f u)) us"
    by (rule values_of_tensors)
  moreover have "map f us = replicate (length us) 0"
    using zero by (simp add: map_replicate_const [symmetric])
  moreover have "result_map (\<lambda>(v, w). result_bind (as_tensor v) (\<lambda>a. ok (a, w))) (map (\<lambda>u. (Tensor (?arr u), f u)) us)
      = ok (map (\<lambda>u. (?arr u, f u)) us)"
    by (induction us) auto
  ultimately show ?thesis
    using averageable_ne [OF us]
    by (simp add: aggregate_key_def hd_map aggregate_arrays_def o_def sum_list_replicate)
qed

lemma aggregate_dict_zero:
  assumes us: "averageable us" and zero: "\<forall>u\<in>set us. f u = 0" and hd: "up_weights (hd us) = StateDict kvs"
    and ne: "locators (up_weights (hd us)) \<noteq> []"
  shows "aggregate_dict us (map f us) = raise ZeroDivisionError"
proof -
  let ?h = "\<lambda>k. result_bind (aggregate_key (values_of k us (map f us))) (\<lambda>v. ok (k, v))"
  let ?L = "set (locators (up_weights (hd us)))"
  have L: "?h k = raise ZeroDivisionError" if "Some k \<in> ?L" for k
    using aggregate_key_zero [OF us that zero] by simp
  have "\<exists>k. Some k \<in> ?L"
    using ne hd locators_keys by (metis last_in_set not_Some_eq)
  then have fails: "\<exists>k\<in>set (all_keys us). ?h k = raise ZeroDivisionError"
    using L all_keys_locator [OF us] by blast
  have "?h k = raise ZeroDivisionError \<or> (\<exists>y. ?h k = ok y)" if k: "k \<in> set (all_keys us)" for k
  proof (cases "Some k \<in> ?L")
    case False
    then obtain v where "aggregate_key (values_of k us (map f us)) = ok v"
      using aggregate_key_other [OF us k] by blast
    then show ?thesis
      by simp
  qed (use L in blast)
  then show ?thesis
    using result_map_fails [OF fails] by (simp add: aggregate_dict_def)
qed

text \<open>When all weights are zero (updates of zero samples, say) the announced fallback to uniform weights does
  not take place: an array model becomes an array of zeros, whatever the peers sent, and a state
  dictionary with at least one array makes the aggregation raise \<open>ZeroDivisionError\<close>.
\<close>

theorem fedavg_zero_weight:
  assumes "averageable us" "\<forall>u\<in>set us. compute_weight cfg u = 0" "locators (up_weights (hd us)) \<noteq> []"
  shows "fedavg_aggregate cfg us =
    (case up_weights (hd us) of
       NdArray b \<Rightarrow> ok (aggregated us (NdArray (array_like b (replicate (length (nd_data b)) 0))))
     | StateDict _ \<Rightarrow> raise ZeroDivisionError)"
proof -
  let ?f = "compute_weight cfg"
  have sum: "sum_list (map ?f us) = 0" and ne: "us \<noteq> []" and valid: "validate_updates us = ok ()"
    using assms averageable_ne by (auto simp: averageable_def map_replicate_const sum_list_replicate cong: map_cong)
  show ?thesis
  proof (cases "up_weights (hd us)")
    case (NdArray b)
    then show ?thesis
      using aggregate_numpy_zero [OF assms(1,2), of b "real (length us)"] ne sum valid
      by (simp add: fedavg_aggregate_def aggregate_weights_def Let_def)
  next
    case (StateDict kvs)
    then have "aggregate_dict us (map ?f us) = raise ZeroDivisionError"
      using aggregate_dict_zero assms by blast
    then show ?thesis
      using StateDict sum valid by (simp add: fedavg_aggregate_def aggregate_weights_def Let_def)
  qed
qed

section \<open>Examples\<close>

definition sample_weights :: "real list \<Rightarrow> weights" where
  "sample_weights xs = StateDict [(''fc'', Tensor \<lparr>nd_dtype = ''float64'', nd_shape = [length xs], nd_data = map Fin xs\<rparr>), (''tag'', Plain ''v1'')]"

definition sample_update :: "string \<Rightarrow> int \<Rightarrow> real list \<Rightarrow> peer_update" where
  "sample_update p n xs = \<lparr>up_peer_id = p, up_weights = sample_weights xs, up_sample_count = n, up_loss = None,
     up_round_number = 1\<rparr>"

definition by_data_size :: fedavg where
  "by_data_size = \<lparr>fa_weight_by = ''data_size'', fa_clip_inverse_loss = True, fa_inverse_loss_min = 1 / 10,
     fa_inverse_loss_max = 10\<rparr>"

lemmas sample_defs = sample_update_def sample_weights_def by_data_size_def

lemma sample_averageable:
  "p \<noteq> q \<Longrightarrow> length xs = length ys \<Longrightarrow> averageable [sample_update p m xs, sample_update q n ys]"
  by (auto simp: averageable_def sample_defs validate_updates_def finite_array_def list_all_iff same_arrays_def
      array_wf_def keyed_shape_def array_shape_def)


theorem fedavg_zero_weight_witness:
  "fedavg_aggregate by_data_size [sample_update ''a'' 0 [1], sample_update ''b'' 0 [2]] = raise ZeroDivisionError"
proof -
  have a: "averageable [sample_update ''a'' 0 [1], sample_update ''b'' 0 [2]]"
    by (rule sample_averageable) simp_all
  show ?thesis
    using fedavg_zero_weight [OF a, of by_data_size] by (simp add: compute_weight_def sample_defs)
qed

end
