(* ===== verification/Gossip_Protocol.thy ===== *)
theory Gossip_Protocol
  imports Aggregation
begin

text \<open>
  The messages of the learning layer and their admission (\<open>gossip/protocol.py\<close>). Messages are built by the \<open>create\<close> methods, so
  the class of a message and its \<open>msg_type\<close> agree and the body is one datatype. A timestamp is the epoch time
  that \<open>timestamp()\<close> returns, or \<open>None\<close> where the call raises.
\<close>

datatype message_type =
    DISCOVERY_ANNOUNCE | DISCOVERY_OFFER | DISCOVERY_ACCEPT | DISCOVERY_REJECT
  | MODEL_REQUEST | MODEL_UPDATE | MODEL_PUSH | MODEL_ACK
  | HEARTBEAT | PEER_INFO | ERROR | CHECKPOINT_ANNOUNCE | PROTOTYPE_EXCHANGE

fun message_code :: "message_type \<Rightarrow> int" where
  "message_code DISCOVERY_ANNOUNCE = 1"
| "message_code DISCOVERY_OFFER = 2"
| "message_code DISCOVERY_ACCEPT = 3"
| "message_code DISCOVERY_REJECT = 4"
| "message_code MODEL_REQUEST = 16"
| "message_code MODEL_UPDATE = 17"
| "message_code MODEL_PUSH = 18"
| "message_code MODEL_ACK = 19"
| "message_code HEARTBEAT = 32"
| "message_code PEER_INFO = 33"
| "message_code ERROR = 34"
| "message_code CHECKPOINT_ANNOUNCE = 48"
| "message_code PROTOTYPE_EXCHANGE = 64"

definition message_types :: "message_type list" where
  "message_types = [DISCOVERY_ANNOUNCE, DISCOVERY_OFFER, DISCOVERY_ACCEPT, DISCOVERY_REJECT, MODEL_REQUEST,
     MODEL_UPDATE, MODEL_PUSH, MODEL_ACK, HEARTBEAT, PEER_INFO, ERROR, CHECKPOINT_ANNOUNCE, PROTOTYPE_EXCHANGE]"

text \<open>\<open>MessageType(code)\<close>.\<close>

definition message_type_of :: "int \<Rightarrow> message_type result" where
  "message_type_of c =
     (case List.find (\<lambda>t. message_code t = c) message_types of
        None \<Rightarrow> raise (ValueError ''not a valid MessageType'') | Some t \<Rightarrow> ok t)"

datatype gossip_body =
    DiscoveryAnnounce string string string
  | ModelUpdateMessage weights int "real option" int
  | HeartbeatMessage int
  | CheckpointAnnounceMessage int real real string
  | PrototypeMessage string
  | PlainMessage message_type

record gossip_message =
  gm_sender_id :: string
  gm_timestamp :: "real option"
  gm_payload :: "(string, string) pydict"
  gm_body :: gossip_body

fun msg_type :: "gossip_body \<Rightarrow> message_type" where
  "msg_type (DiscoveryAnnounce _ _ _) = DISCOVERY_ANNOUNCE"
| "msg_type (ModelUpdateMessage _ _ _ _) = MODEL_UPDATE"
| "msg_type (HeartbeatMessage _) = HEARTBEAT"
| "msg_type (CheckpointAnnounceMessage _ _ _ _) = CHECKPOINT_ANNOUNCE"
| "msg_type (PrototypeMessage _) = PROTOTYPE_EXCHANGE"
| "msg_type (PlainMessage t) = t"

text \<open>The \<open>create\<close> methods: the fields go into the body, the payload stays empty.\<close>

definition create_message :: "string \<Rightarrow> real \<Rightarrow> gossip_body \<Rightarrow> gossip_message" where
  "create_message sender_id now body =
     \<lparr>gm_sender_id = sender_id, gm_timestamp = Some now, gm_payload = [], gm_body = body\<rparr>"

record gossip_protocol =
  gp_peer_id :: string
  gp_sequence_number :: int

definition create_discovery_announce ::
    "real \<Rightarrow> string \<Rightarrow> string \<Rightarrow> string \<Rightarrow> gossip_protocol \<Rightarrow> gossip_message" where
  "create_discovery_announce now domain data_schema_hash model_version p =
     create_message (gp_peer_id p) now (DiscoveryAnnounce domain data_schema_hash model_version)"

definition create_model_update ::
    "real \<Rightarrow> weights \<Rightarrow> int \<Rightarrow> real option \<Rightarrow> int \<Rightarrow> gossip_protocol \<Rightarrow> gossip_message" where
  "create_model_update now w sample_count loss round_number p =
     create_message (gp_peer_id p) now (ModelUpdateMessage w sample_count loss round_number)"

text \<open>The constructor is called without \<open>msg_type\<close>, which has no default: the call raises \<open>TypeError\<close> with the
  sequence number already advanced.\<close>

definition create_heartbeat :: "gossip_protocol \<Rightarrow> gossip_protocol \<times> gossip_message result" where
  "create_heartbeat p = (p\<lparr>gp_sequence_number := gp_sequence_number p + 1\<rparr>, raise TypeError)"

definition max_message_age_seconds :: real where
  "max_message_age_seconds = 300"

definition validate_message :: "real \<Rightarrow> gossip_message \<Rightarrow> gossip_protocol \<Rightarrow> bool" where
  "validate_message now m p =
     (if gm_sender_id m = [] then False
      else if gm_sender_id m = gp_peer_id p then False
      else case gm_timestamp m of
        None \<Rightarrow> False
      | Some msg_epoch \<Rightarrow>
          let age = now - msg_epoch in
          if age > max_message_age_seconds then False else if age < - 60 then False else True)"

lemma message_type_round_trip: "message_type_of (message_code t) = ok t"
  by (cases t) (simp_all add: message_type_of_def message_types_def)

lemma validate_message_window:
  "validate_message now m p \<longleftrightarrow>
     gm_sender_id m \<noteq> [] \<and> gm_sender_id m \<noteq> gp_peer_id p \<and>
     (\<exists>t. gm_timestamp m = Some t \<and> now - 300 \<le> t \<and> t \<le> now + 60)"
  by (auto simp: validate_message_def max_message_age_seconds_def Let_def split: option.splits)

end
