(* ===== verification/Robust_Aggregation.thy ===== *)
theory Robust_Aggregation
  imports Aggregation "HOL-Library.Multiset"
begin

text \<open>
  The Byzantine-resilient strategies of \<open>aggregation/\<close>: \<open>trimmed_mean.py\<close> and \<open>krum.py\<close> (Krum and MultiKrum). Arithmetic is exact on
  real numbers and a result is converted to the dtype of the first array, as in the averages; the rounding of the
  intermediate rows to the common dtype of the stacked arrays, the same dtype when they agree, is left out.
  \<open>np.argsort\<close> does not fix the order of equal scores and is an argument of MultiKrum.
\<close>

section \<open>Rows and columns of a stacked matrix\<close>

definition np_mean :: "real list \<Rightarrow> real" where
  "np_mean xs = sum_list xs / real (length xs)"

text \<open>\<open>np.stack\<close> of flattened arrays; the rows must agree in length.\<close>

definition np_stack :: "real list list \<Rightarrow> real list list result" where
  "np_stack rows =
     (if rows = [] \<or> \<not> list_all (\<lambda>r. length r = length (hd rows)) rows
      then raise (ValueError ''all input arrays must have the same shape'') else ok rows)"

definition column :: "real list list \<Rightarrow> nat \<Rightarrow> real list" where
  "column rows i = map (\<lambda>r. r ! i) rows"

definition flat_array :: "string \<Rightarrow> real list \<Rightarrow> ndarray" where
  "flat_array d xs = \<lparr>nd_dtype = d, nd_shape = [length xs], nd_data = map (np_cast d) xs\<rparr>"

section \<open>Trimmed mean\<close>

definition trimmed_mean_init :: "real \<Rightarrow> real result" where
  "trimmed_mean_init trim_ratio =
     (if 0 \<le> trim_ratio \<and> trim_ratio < 1 / 2 then ok trim_ratio
      else raise (ValueError ''trim_ratio must be in [0, 0.5)''))"

definition get_trim_count :: "real \<Rightarrow> nat \<Rightarrow> nat" where
  "get_trim_count trim_ratio n = nat (py_int (real n * trim_ratio))"

text \<open>One parameter: \<open>np.mean(np.sort(values)[k:n-k])\<close>.\<close>

definition trimmed_values :: "nat \<Rightarrow> real list \<Rightarrow> real list" where
  "trimmed_values k xs = (let sorted_values = sort xs; n = length xs in drop k (take (n - k) sorted_values))"

definition trim_rows :: "nat \<Rightarrow> real list list \<Rightarrow> real list" where
  "trim_rows k rows =
     map (\<lambda>i. np_mean (if k = 0 then column rows i else trimmed_values k (column rows i))) [0..<length (hd rows)]"

text \<open>\<open>_trim_numpy\<close>: the mean of the untrimmed case is returned flattened, the trimmed result in the shape of the first
  update.\<close>

definition trim_numpy :: "real \<Rightarrow> peer_update list \<Rightarrow> weights result" where
  "trim_numpy trim_ratio updates =
     result_bind (result_map (\<lambda>u. as_array (up_weights u)) updates) (\<lambda>arrays.
     result_bind (np_stack (map reals arrays)) (\<lambda>rows.
       let k = get_trim_count trim_ratio (length updates)
       in ok (NdArray (if k = 0 then flat_array (nd_dtype (hd arrays)) (trim_rows k rows) else array_like (hd arrays) (trim_rows k rows)))))"

text \<open>\<open>_trim_dict\<close>: the arrays under a key are flattened before they are stacked, and the result keeps the shape of the
  flattened values; of a key without arrays the first value is taken.\<close>

definition lookup_all :: "string \<Rightarrow> peer_update list \<Rightarrow> entry list" where
  "lookup_all key updates =
     concat (map (\<lambda>u. case map_of (dict_items (up_weights u)) key of None \<Rightarrow> [] | Some v \<Rightarrow> [v]) updates)"

definition tensors_of :: "entry list \<Rightarrow> ndarray list" where
  "tensors_of vs = concat (map (\<lambda>v. case v of Tensor a \<Rightarrow> [a] | _ \<Rightarrow> []) vs)"

definition trim_key :: "real \<Rightarrow> entry list \<Rightarrow> entry result" where
  "trim_key trim_ratio vs =
     (let arrays = tensors_of vs; values = map reals arrays in
      if values = [] then ok (hd vs)
      else result_bind (np_stack values) (\<lambda>rows.
        ok (Tensor (flat_array (nd_dtype (hd arrays)) (trim_rows (get_trim_count trim_ratio (length values)) rows)))))"

definition trim_dict :: "real \<Rightarrow> peer_update list \<Rightarrow> weights result" where
  "trim_dict trim_ratio updates =
     result_bind (result_map (\<lambda>key. result_bind (trim_key trim_ratio (lookup_all key updates)) (\<lambda>v. ok (key, v)))
       (all_keys updates)) (\<lambda>kvs. ok (StateDict kvs))"

definition trimmed_mean_aggregate :: "real \<Rightarrow> peer_update list \<Rightarrow> aggregated_model result" where
  "trimmed_mean_aggregate trim_ratio updates =
     result_bind (validate_updates updates) (\<lambda>_.
       if length updates < 3 then raise (ValueError ''TrimmedMean requires at least 3 updates'')
       else result_bind (case up_weights (hd updates) of
           NdArray _ \<Rightarrow> trim_numpy trim_ratio updates
         | StateDict _ \<Rightarrow> trim_dict trim_ratio updates) (\<lambda>w. ok (aggregated updates w)))"

section \<open>Krum\<close>

text \<open>\<open>__init__\<close>; the type test on the argument is the model's type.\<close>

definition krum_init :: "int \<Rightarrow> nat result" where
  "krum_init num_byzantines =
     (if num_byzantines < 0 then raise (ValueError ''num_byzantines must be a non-negative integer'')
      else ok (nat num_byzantines))"

definition validate_krum_requirements :: "nat \<Rightarrow> peer_update list \<Rightarrow> nat result" where
  "validate_krum_requirements f updates =
     (let n = length updates in
      if n < 2 * f + 3 then raise (ValueError ''requires n >= 2*f + 3 (2f+3) updates'') else ok n)"

text \<open>A model as one vector: the arrays of a dictionary in the order of the keys. \<open>np.concatenate\<close> of nothing raises.\<close>

definition dict_parts :: "(string, entry) pydict \<Rightarrow> real list list" where
  "dict_parts kvs = map reals (tensors_of (map (\<lambda>k. the (map_of kvs k)) (sort (map fst kvs))))"

fun weight_vector :: "weights \<Rightarrow> real list result" where
  "weight_vector (NdArray a) = ok (reals a)"
| "weight_vector (StateDict kvs) =
     (if dict_parts kvs = [] then raise (ValueError ''need at least one array to concatenate'')
      else ok (concat (dict_parts kvs)))"

text \<open>The difference of two vectors under numpy's broadcasting, and its Euclidean norm.\<close>

definition np_sub :: "real list \<Rightarrow> real list \<Rightarrow> real list result" where
  "np_sub xs ys =
     (if length xs = length ys then ok (map2 (-) xs ys)
      else if length xs = 1 then ok (map (\<lambda>y. hd xs - y) ys)
      else if length ys = 1 then ok (map (\<lambda>x. x - hd ys) xs)
      else raise (ValueError ''operands could not be broadcast together''))"

definition np_norm :: "real list \<Rightarrow> real" where
  "np_norm xs = sqrt (\<Sum>x\<leftarrow>xs. x * x)"

text \<open>\<open>_compute_distances\<close>: the upper triangle is computed row by row and mirrored, the diagonal stays zero.\<close>

definition pair_distance :: "real list list \<Rightarrow> nat \<Rightarrow> nat \<Rightarrow> real result" where
  "pair_distance vs i j =
     (if i = j then ok 0
      else result_bind (np_sub (vs ! min i j) (vs ! max i j)) (\<lambda>d. ok (np_norm d)))"

definition compute_distances :: "peer_update list \<Rightarrow> real list list result" where
  "compute_distances updates =
     result_bind (result_map (\<lambda>u. weight_vector (up_weights u)) updates) (\<lambda>vs.
       let n = length updates in
       result_map (\<lambda>i. result_map (pair_distance vs i) [0..<n]) [0..<n])"

definition np_delete :: "'a list \<Rightarrow> nat \<Rightarrow> 'a list" where
  "np_delete xs i = take i xs @ drop (Suc i) xs"

definition krum_score :: "nat \<Rightarrow> real list list \<Rightarrow> nat \<Rightarrow> real" where
  "krum_score f distances i =
     (let n = length distances; n_closest = n - f - 2
      in sum_list (take n_closest (sort (np_delete (distances ! i) i))))"

definition compute_scores :: "nat \<Rightarrow> real list list \<Rightarrow> real list" where
  "compute_scores f distances = map (krum_score f distances) [0..<length distances]"

text \<open>\<open>np.argmin\<close>: the first index of a least element.\<close>

fun argmin_from :: "nat \<Rightarrow> nat \<Rightarrow> real \<Rightarrow> real list \<Rightarrow> nat" where
  "argmin_from i best m [] = best"
| "argmin_from i best m (x # xs) = (if x < m then argmin_from (Suc i) i x xs else argmin_from (Suc i) best m xs)"

definition argmin :: "real list \<Rightarrow> nat" where
  "argmin xs = argmin_from 1 0 (hd xs) (tl xs)"

definition krum_aggregate :: "nat \<Rightarrow> peer_update list \<Rightarrow> aggregated_model result" where
  "krum_aggregate f updates =
     result_bind (validate_updates updates) (\<lambda>_.
     result_bind (validate_krum_requirements f updates) (\<lambda>_.
     result_bind (compute_distances updates) (\<lambda>distances.
       let selected_update = updates ! argmin (compute_scores f distances)
       in ok \<lparr>ag_weights = up_weights selected_update, ag_contributing_peers = [up_peer_id selected_update],
              ag_total_samples = up_sample_count selected_update\<rparr>)))"

definition uniform_fedavg :: fedavg where
  "uniform_fedavg = \<lparr>fa_weight_by = ''uniform'', fa_clip_inverse_loss = True, fa_inverse_loss_min = 1 / 10,
     fa_inverse_loss_max = 10\<rparr>"

definition multikrum_aggregate :: "(real list \<Rightarrow> nat list) \<Rightarrow> nat \<Rightarrow> peer_update list \<Rightarrow> aggregated_model result" where
  "multikrum_aggregate argsort f updates =
     result_bind (validate_updates updates) (\<lambda>_.
     result_bind (validate_krum_requirements f updates) (\<lambda>n.
     result_bind (compute_distances updates) (\<lambda>distances.
       let num_selected = n - 2 * f;
           selected_indices = take num_selected (argsort (compute_scores f distances))
       in fedavg_aggregate uniform_fedavg (map (\<lambda>i. updates ! i) selected_indices))))"

section \<open>Order statistics\<close>


lemma length_filter_sort [simp]: "length (filter P (sort xs)) = length (filter P xs)"
  by (metis mset_filter mset_sort size_mset)

lemma sorted_count_le:
  "sorted ys \<Longrightarrow> j < length ys \<Longrightarrow> Suc j \<le> length (filter (\<lambda>x. x \<le> ys ! j) ys)"
proof -
  assume *: "sorted ys" "j < length ys"
  then have "filter (\<lambda>x. x \<le> ys ! j) (take (Suc j) ys) = take (Suc j) ys"
    by (auto simp: filter_id_conv in_set_conv_nth sorted_nth_mono)
  then show ?thesis
    using *(2) by (metis (no_types, lifting) Suc_leI append_take_drop_id filter_append le_add1 length_append length_take min.absorb2)
qed


text \<open>More values with a property than bad updates: a good update has the property.\<close>

lemma good_exists:
  assumes "length (filter (\<lambda>u. \<not> good u) us) < length (filter P (map g us))"
  shows "\<exists>u\<in>set us. good u \<and> P (g u)"
proof (rule ccontr)
  assume "\<not> ?thesis"
  then have "length (filter (\<lambda>u. P (g u)) us) \<le> length (filter (\<lambda>u. \<not> good u) us)"
    by (intro length_filter_mono) blast
  with assms show False
    by (simp add: filter_map o_def)
qed


section \<open>Resilience of the trimmed mean\<close>





lemma length_trim_rows [simp]: "length (trim_rows k rows) = length (hd rows)"
  by (simp add: trim_rows_def)

lemma averageable_row:
  assumes us: "averageable us" and u: "u \<in> set us" and l: "l \<in> set (locators (up_weights (hd us)))"
  shows "\<exists>a. tensor_at (up_weights u) l = Some a \<and>
    length (nd_data a) = length (nd_data (the (tensor_at (up_weights (hd us)) l)))"
proof -
  obtain a b where a: "tensor_at (up_weights u) l = Some a" "tensor_at (up_weights (hd us)) l = Some b"
      "nd_shape a = nd_shape b" "array_wf a"
    using averageable_tensor [OF us u l] by blast
  moreover have "array_wf b"
    using averageable_tensor [OF us hd_in_set [OF averageable_ne [OF us]] l] a(2) by auto
  ultimately show ?thesis
    by (simp add: array_wf_def)
qed










section \<open>Vectors and distances\<close>

lemma tensors_of_keys:
  "set ks \<subseteq> fst ` set kvs \<Longrightarrow>
   tensors_of (map (\<lambda>k. the (map_of kvs k)) ks) =
     map (\<lambda>k. the (tensor_at (StateDict kvs) (Some k))) (filter (\<lambda>k. tensor_at (StateDict kvs) (Some k) \<noteq> None) ks)"
proof (induction ks)
  case (Cons k ks)
  then obtain v where "map_of kvs k = Some v"
    by (cases "map_of kvs k") (auto simp: map_of_eq_None_iff)
  with Cons show ?case
    by (cases v) (simp_all add: tensors_of_def)
qed (simp add: tensors_of_def)

definition array_keys :: "weights \<Rightarrow> string list" where
  "array_keys w = sorted_list_of_set {k. Some k \<in> set (locators w)}"

lemma dict_parts_keys:
  assumes "weights_wf (StateDict kvs)"
  shows "dict_parts kvs = map (\<lambda>k. reals (the (tensor_at (StateDict kvs) (Some k)))) (array_keys (StateDict kvs))"
proof -
  let ?P = "\<lambda>k. tensor_at (StateDict kvs) (Some k) \<noteq> None"
  let ?ks = "filter ?P (sort (map fst kvs))"
  have "k \<in> fst ` set kvs" if "?P k" for k
    using that by (cases "map_of kvs k") (force dest: map_of_SomeD)+
  then have "set ?ks = {k. Some k \<in> set (locators (StateDict kvs))}"
    using locators_iff [OF assms] by (auto simp del: tensor_at.simps(2) locators.simps(2))
  moreover have "sorted ?ks" "distinct ?ks"
    using assms by (simp_all add: sorted_filter [where f = "\<lambda>x. x", simplified])
  ultimately have "array_keys (StateDict kvs) = ?ks"
    unfolding array_keys_def by (metis sorted_list_of_set.idem_if_sorted_distinct)
  then show ?thesis
    using tensors_of_keys [of "sort (map fst kvs)" kvs] by (simp add: dict_parts_def del: tensor_at.simps(2))
qed

text \<open>The vector of an update and the distance of two updates.\<close>

definition update_vector :: "peer_update \<Rightarrow> real list" where
  "update_vector u = projr (weight_vector (up_weights u))"

definition update_distance :: "peer_update \<Rightarrow> peer_update \<Rightarrow> real" where
  "update_distance u v = np_norm (map2 (-) (update_vector u) (update_vector v))"

lemma weight_vector_dict:
  assumes us: "averageable us" "locators (up_weights (hd us)) \<noteq> []" and hd: "up_weights (hd us) = StateDict b"
    and u: "u \<in> set us"
  shows "weight_vector (up_weights u) = ok (concat (map (\<lambda>k. reals (the (tensor_at (up_weights u) (Some k))))
      (array_keys (up_weights (hd us)))))"
proof -
  have wf: "weights_wf (up_weights u)" and L: "set (locators (up_weights u)) = set (locators (up_weights (hd us)))"
    using averageable_wf [OF us(1) u] by auto
  obtain l where l: "l \<in> set (locators (up_weights u))"
    using us(2) L by (metis last_in_set)
  obtain kvs where kvs: "up_weights u = StateDict kvs"
    using L hd locators_keys by (cases "up_weights u") (auto simp del: locators.simps(2))
  have "finite {k. Some k \<in> set (locators (up_weights u))}"
    by (rule finite_vimageI [of _ Some, unfolded vimage_def]) auto
  moreover obtain k where "l = Some k"
    using l kvs locators_keys by (metis not_Some_eq)
  ultimately have "array_keys (up_weights u) \<noteq> []"
    using l unfolding array_keys_def by (auto simp: sorted_list_of_set_eq_Nil_iff)
  moreover have "array_keys (up_weights u) = array_keys (up_weights (hd us))"
    by (simp add: array_keys_def L)
  ultimately show ?thesis
    using dict_parts_keys wf kvs by (simp del: tensor_at.simps(2))
qed

lemma weight_vector_ok:
  assumes us: "averageable us" "locators (up_weights (hd us)) \<noteq> []" and u: "u \<in> set us"
  shows "weight_vector (up_weights u) = ok (update_vector u) \<and> length (update_vector u) = length (update_vector (hd us))"
proof -
  have hd: "hd us \<in> set us"
    using averageable_ne [OF us(1)] by simp
  show ?thesis
  proof (cases "up_weights (hd us)")
    case (NdArray b)
    then have "None \<in> set (locators (up_weights (hd us)))"
      by simp
    from averageable_row [OF us(1) u this] NdArray show ?thesis
      by (cases "up_weights u") (auto simp: update_vector_def reals_def)
  next
    case (StateDict b)
    let ?ks = "array_keys (up_weights (hd us))"
    have "length (reals (the (tensor_at (up_weights u) (Some k)))) =
        length (reals (the (tensor_at (up_weights (hd us)) (Some k))))" if "k \<in> set ?ks" for k
    proof -
      have "finite {k. Some k \<in> set (locators (up_weights (hd us)))}"
        by (rule finite_vimageI [of _ Some, unfolded vimage_def]) auto
      then have "Some k \<in> set (locators (up_weights (hd us)))"
        using that by (simp add: array_keys_def)
      from averageable_row [OF us(1) u this] show ?thesis
        by (auto simp: reals_def)
    qed
    then have "(\<Sum>k\<leftarrow>?ks. length (reals (the (tensor_at (up_weights u) (Some k))))) =
        (\<Sum>k\<leftarrow>?ks. length (reals (the (tensor_at (up_weights (hd us)) (Some k)))))"
      by (intro arg_cong [where f = sum_list] map_cong refl)
    then show ?thesis
      using weight_vector_dict [OF us StateDict u] weight_vector_dict [OF us StateDict hd]
      by (simp add: update_vector_def length_concat o_def del: weight_vector.simps tensor_at.simps)
  qed
qed

lemma np_norm_sym: "np_norm (map2 (-) xs ys) = np_norm (map2 (-) ys xs)"
proof -
  have "(\<Sum>x\<leftarrow>map2 (-) xs ys. x * x) = (\<Sum>x\<leftarrow>map2 (-) ys xs. x * x)"
  proof (induction xs arbitrary: ys)
    case (Cons x xs)
    then show ?case
      by (cases ys) (simp_all add: algebra_simps)
  qed simp
  then show ?thesis
    by (simp add: np_norm_def)
qed

lemma np_norm_self: "np_norm (map2 (-) xs xs) = 0"
  by (simp add: np_norm_def zip_same_conv_map o_def)

lemma update_distance_sym: "update_distance u v = update_distance v u"
  by (simp add: update_distance_def np_norm_sym)

lemma update_distance_nonneg: "0 \<le> update_distance u v"
proof -
  have "0 \<le> (\<Sum>x\<leftarrow>xs. x * x)" for xs :: "real list"
    by (rule sum_list_nonneg) auto
  then show ?thesis
    unfolding update_distance_def np_norm_def by (intro real_sqrt_ge_zero)
qed

lemma compute_distances_ok:
  assumes us: "averageable us" "locators (up_weights (hd us)) \<noteq> []"
  shows "compute_distances us =
    ok (map (\<lambda>i. map (\<lambda>j. update_distance (us ! i) (us ! j)) [0..<length us]) [0..<length us])"
proof -
  let ?n = "length us"
  let ?vs = "map update_vector us"
  have "result_map (\<lambda>u. weight_vector (up_weights u)) us = ok ?vs"
    using weight_vector_ok [OF us] by (intro result_map_ok) blast
  moreover have "pair_distance ?vs i j = ok (update_distance (us ! i) (us ! j))" if "i < ?n" "j < ?n" for i j
  proof -
    have "length (update_vector (us ! i)) = length (update_vector (us ! j))"
      using weight_vector_ok [OF us] that by (metis nth_mem)
    then show ?thesis
      using that update_distance_sym [of "us ! i" "us ! j"]
      by (cases i j rule: linorder_cases)
        (simp_all add: pair_distance_def np_sub_def update_distance_def np_norm_self min_def max_def)
  qed
  then have "result_map (\<lambda>i. result_map (pair_distance ?vs i) [0..<?n]) [0..<?n] =
      ok (map (\<lambda>i. map (\<lambda>j. update_distance (us ! i) (us ! j)) [0..<?n]) [0..<?n])"
    by (intro result_map_ok) simp_all
  ultimately show ?thesis
    by (simp add: compute_distances_def Let_def)
qed

section \<open>Resilience of Krum\<close>

lemma argmin_from_spec:
  "best < length ys \<Longrightarrow> ys ! best = m \<Longrightarrow> i = length pre \<Longrightarrow> ys = pre @ xs \<Longrightarrow> \<forall>y\<in>set pre. m \<le> y \<Longrightarrow>
   argmin_from i best m xs < length ys \<and> (\<forall>y\<in>set ys. ys ! argmin_from i best m xs \<le> y)"
proof (induction xs arbitrary: i best m pre)
  case (Cons x xs)
  show ?case
  proof (cases "x < m")
    case True
    have "argmin_from (Suc i) i x xs < length ys \<and> (\<forall>y\<in>set ys. ys ! argmin_from (Suc i) i x xs \<le> y)"
      using Cons.prems True by (intro Cons.IH [of i x "Suc i" "pre @ [x]"]) (auto simp: nth_append)
    with True show ?thesis
      by simp
  next
    case False
    have "argmin_from (Suc i) best m xs < length ys \<and> (\<forall>y\<in>set ys. ys ! argmin_from (Suc i) best m xs \<le> y)"
      using Cons.prems False by (intro Cons.IH [of best m "Suc i" "pre @ [x]"]) auto
    with False show ?thesis
      by simp
  qed
qed auto

lemma argmin_spec: "xs \<noteq> [] \<Longrightarrow> argmin xs < length xs \<and> (\<forall>y\<in>set xs. xs ! argmin xs \<le> y)"
  unfolding argmin_def by (rule argmin_from_spec [where pre = "[hd xs]"]; cases xs; simp)

lemma sorted_nth_le_count:
  assumes "sorted ys" "j < length (filter (\<lambda>x. x \<le> d) ys)"
  shows "ys ! j \<le> (d :: real)"
proof (rule ccontr)
  assume *: "\<not> ?thesis"
  have j: "j < length ys"
    using assms(2) length_filter_le [of "\<lambda>x. x \<le> d" ys] by linarith
  have "filter (\<lambda>x. x \<le> d) (drop j ys) = []"
  proof -
    have "\<not> drop j ys ! i \<le> d" if "i < length (drop j ys)" for i
      using sorted_nth_mono [OF assms(1), of j "j + i"] that * by (auto simp: less_diff_conv add.commute)
    then show ?thesis
      by (auto simp: filter_empty_conv in_set_conv_nth)
  qed
  then have "filter (\<lambda>x. x \<le> d) ys = filter (\<lambda>x. x \<le> d) (take j ys)"
    by (metis append_Nil2 append_take_drop_id filter_append)
  from arg_cong [OF this, of length] have "length (filter (\<lambda>x. x \<le> d) ys) \<le> length (take j ys)"
    using length_filter_le [of "\<lambda>x. x \<le> d" "take j ys"] by linarith
  with assms(2) j show False
    by simp
qed

text \<open>The sum of the \<open>m\<close> least values is small if \<open>m\<close> values are, and it bounds the value of a good index.\<close>

lemma sum_list_le_length: "\<forall>y\<in>set ys. y \<le> (d :: real) \<Longrightarrow> sum_list ys \<le> real (length ys) * d"
  by (induction ys) (auto simp: algebra_simps)

lemma member_le_sum: "y \<in> set ys \<Longrightarrow> \<forall>x\<in>set ys. 0 \<le> (x :: real) \<Longrightarrow> y \<le> sum_list ys"
proof (induction ys)
  case (Cons x ys)
  then show ?case
    using sum_list_nonneg [of ys] by auto
qed simp

lemma sum_least_le:
  assumes "m \<le> length (filter (\<lambda>x. x \<le> d) xs)"
  shows "sum_list (take m (sort xs)) \<le> real m * d"
proof -
  have "\<forall>y\<in>set (take m (sort xs)). y \<le> d"
    using assms sorted_nth_le_count [of "sort xs" _ d] by (auto simp: in_set_conv_nth)
  then have "sum_list (take m (sort xs)) \<le> real (length (take m (sort xs))) * d"
    by (rule sum_list_le_length)
  then show ?thesis
    using assms length_filter_le [of "\<lambda>x. x \<le> d" xs] by simp
qed

lemma sum_least_ge:
  fixes g :: "'a \<Rightarrow> real"
  assumes bad: "length (filter (\<lambda>u. \<not> good u) js) < m" and m: "m \<le> length js" and nonneg: "\<forall>j\<in>set js. 0 \<le> g j"
  shows "\<exists>j\<in>set js. good j \<and> g j \<le> sum_list (take m (sort (map g js)))"
proof -
  let ?ys = "sort (map g js)"
  have m': "m - 1 < length ?ys" "0 < m"
    using bad m by auto
  have "m \<le> length (filter (\<lambda>x. x \<le> ?ys ! (m - 1)) (map g js))"
    using sorted_count_le [of ?ys "m - 1"] m' by simp
  then obtain j where j: "j \<in> set js" "good j" "g j \<le> ?ys ! (m - 1)"
    using good_exists [of good js "\<lambda>x. x \<le> ?ys ! (m - 1)" g] bad by (meson le_trans less_le_trans)
  have "?ys ! (m - 1) \<in> set (take m ?ys)"
    using m' by (auto simp: in_set_conv_nth intro!: exI [of _ "m - 1"])
  then have "?ys ! (m - 1) \<le> sum_list (take m ?ys)"
    by (rule member_le_sum) (use nonneg in \<open>auto dest!: in_set_takeD\<close>)
  with j show ?thesis
    by (auto intro: order_trans)
qed

lemma krum_score_distances:
  assumes "i < n"
  shows "krum_score f (map (\<lambda>i. map (d i) [0..<n]) [0..<n]) i =
    sum_list (take (n - f - 2) (sort (map (d i) ([0..<i] @ [Suc i..<n]))))"
  using assms by (simp add: krum_score_def np_delete_def Let_def take_map drop_map)

lemma others_count:
  assumes "i < length us"
  shows "length (filter (\<lambda>j. P (us ! j)) ([0..<i] @ [Suc i..<length us])) =
    length (filter P us) - (if P (us ! i) then 1 else 0)"
proof -
  have "[0..<length us] = [0..<i] @ i # [Suc i..<length us]"
    using assms by (metis le_add1 less_imp_add_positive plus_nat.add_0 upt_add_eq_append upt_conv_Cons)
  moreover have "length (filter P us) = length (filter (\<lambda>j. P (us ! j)) [0..<length us])"
    by (subst map_nth [symmetric]) (simp add: filter_map o_def)
  ultimately show ?thesis
    by simp
qed

text \<open>The score of an update is the sum of its least distances to the others: small for a good update, and no less than the
  distance to some good one.\<close>

definition closest_sum :: "nat \<Rightarrow> peer_update list \<Rightarrow> nat \<Rightarrow> real" where
  "closest_sum f us i = sum_list (take (length us - f - 2)
     (sort (map (\<lambda>j. update_distance (us ! i) (us ! j)) ([0..<i] @ [Suc i..<length us]))))"

lemma compute_scores_sums:
  "compute_scores f (map (\<lambda>i. map (\<lambda>j. update_distance (us ! i) (us ! j)) [0..<length us]) [0..<length us]) =
     map (closest_sum f us) [0..<length us]"
  using krum_score_distances [of _ "length us" f "\<lambda>i j. update_distance (us ! i) (us ! j)"]
  by (simp add: compute_scores_def closest_sum_def)

lemma closest_sum_good:
  assumes i: "i < length us" "good (us ! i)" and bad: "length (filter (\<lambda>u. \<not> good u) us) \<le> f"
    and close: "\<forall>u\<in>set us. \<forall>v\<in>set us. good u \<longrightarrow> good v \<longrightarrow> update_distance u v \<le> d"
  shows "closest_sum f us i \<le> real (length us - f - 2) * d"
proof -
  let ?others = "[0..<i] @ [Suc i..<length us]"
  have "length us - f - 2 \<le> length (filter (\<lambda>j. good (us ! j)) ?others)"
    using others_count [of i us good] i bad sum_length_filter_compl [of good us] by simp
  also have "\<dots> \<le> length (filter (\<lambda>j. update_distance (us ! i) (us ! j) \<le> d) ?others)"
    using close i by (intro length_filter_mono) auto
  finally have "length us - f - 2 \<le> length (filter (\<lambda>x. x \<le> d) (map (\<lambda>j. update_distance (us ! i) (us ! j)) ?others))"
    by (simp add: filter_map o_def)
  then show ?thesis
    unfolding closest_sum_def by (rule sum_least_le)
qed

lemma closest_sum_near:
  assumes i: "i < length us" and n: "2 * f + 3 \<le> length us" and bad: "length (filter (\<lambda>u. \<not> good u) us) \<le> f"
  shows "\<exists>h\<in>set us. good h \<and> update_distance (us ! i) h \<le> closest_sum f us i"
proof -
  let ?others = "[0..<i] @ [Suc i..<length us]"
  have "length (filter (\<lambda>j. \<not> good (us ! j)) ?others) < length us - f - 2"
    using others_count [of i us "\<lambda>u. \<not> good u"] i bad n by simp
  moreover have "length us - f - 2 \<le> length ?others"
    using i by simp
  ultimately obtain j where "j \<in> set ?others" "good (us ! j)" "update_distance (us ! i) (us ! j) \<le> closest_sum f us i"
    using sum_least_ge [of "\<lambda>j. good (us ! j)" ?others "length us - f - 2" "\<lambda>j. update_distance (us ! i) (us ! j)"]
      update_distance_nonneg unfolding closest_sum_def by blast
  moreover from this(1) i have "us ! j \<in> set us"
    by auto
  ultimately show ?thesis
    by blast
qed

lemma krum_selection:
  fixes us :: "peer_update list" and f :: nat
  defines "s \<equiv> argmin (map (closest_sum f us) [0..<length us])"
  assumes n: "2 * f + 3 \<le> length us" and bad: "length (filter (\<lambda>u. \<not> good u) us) \<le> f"
    and close: "\<forall>u\<in>set us. \<forall>v\<in>set us. good u \<longrightarrow> good v \<longrightarrow> update_distance u v \<le> d"
  shows "s < length us \<and> (\<exists>h\<in>set us. good h \<and> update_distance (us ! s) h \<le> real (length us - f - 2) * d)"
proof -
  have "map (closest_sum f us) [0..<length us] \<noteq> []"
    using n by auto
  from argmin_spec [OF this] have s: "s < length us" "\<forall>i<length us. closest_sum f us s \<le> closest_sum f us i"
    by (auto simp: s_def)
  have "filter good us \<noteq> []"
    using n bad sum_length_filter_compl [of good us] by auto
  then obtain i where i: "i < length us" "good (us ! i)"
    by (auto simp: filter_empty_conv in_set_conv_nth)
  have "closest_sum f us s \<le> real (length us - f - 2) * d"
    using s(2) i(1) closest_sum_good [OF i bad close] by fastforce
  then show ?thesis
    using s(1) closest_sum_near [OF s(1) n bad] by fastforce
qed

text \<open>C31: Krum returns one of the updates unchanged. If at most \<open>f\<close> of the \<open>n \<ge> 2f + 3\<close> updates are bad and the good ones are within
  distance \<open>d\<close> of each other, the chosen update is within \<open>(n - f - 2) * d\<close> of a good update, even if it is a bad one.
\<close>

theorem krum_robust:
  assumes us: "averageable us" "locators (up_weights (hd us)) \<noteq> []"
    and n: "2 * f + 3 \<le> length us" and bad: "length (filter (\<lambda>u. \<not> good u) us) \<le> f"
    and close: "\<forall>u\<in>set us. \<forall>v\<in>set us. good u \<longrightarrow> good v \<longrightarrow> update_distance u v \<le> d"
  shows "\<exists>u\<in>set us. krum_aggregate f us = ok \<lparr>ag_weights = up_weights u, ag_contributing_peers = [up_peer_id u],
        ag_total_samples = up_sample_count u\<rparr> \<and>
      (\<exists>h\<in>set us. good h \<and> update_distance u h \<le> real (length us - f - 2) * d)"
  using compute_distances_ok [OF us] krum_selection [OF n bad close] us(1) n
  by (force simp: krum_aggregate_def validate_krum_requirements_def averageable_def compute_scores_sums Let_def)

section \<open>The strategies keep the contract\<close>

text \<open>A stable sort of the indices, one of the orders \<open>np.argsort\<close> may return.\<close>

definition stable_argsort :: "real list \<Rightarrow> nat list" where
  "stable_argsort xs = sort_key (\<lambda>i. xs ! i) [0..<length xs]"

lemma compute_distances_length: "compute_distances us = ok ds \<Longrightarrow> length ds = length us"
proof -
  have len: "result_map h xs = ok ys \<Longrightarrow> length ys = length xs" for h :: "nat \<Rightarrow> real list result" and xs ys
    by (induction xs arbitrary: ys) (auto simp: result_bind_eq_ok)
  show "compute_distances us = ok ds \<Longrightarrow> length ds = length us"
    by (auto simp: compute_distances_def Let_def result_bind_eq_ok dest!: len)
qed

lemma multikrum_contributors:
  assumes "\<And>xs. set (argsort xs) \<subseteq> {..<length xs}" "multikrum_aggregate argsort f us = ok m"
  shows "set (ag_contributing_peers m) \<subseteq> up_peer_id ` set us"
proof -
  obtain ds where ds: "compute_distances us = ok ds"
    and m: "fedavg_aggregate uniform_fedavg (map ((!) us) (take (length us - 2 * f) (argsort (compute_scores f ds)))) = ok m"
    using assms(2)
    by (auto simp: multikrum_aggregate_def validate_krum_requirements_def result_bind_eq_ok Let_def split: if_splits)
  have "set (take (length us - 2 * f) (argsort (compute_scores f ds))) \<subseteq> {..<length us}"
    using assms(1) [of "compute_scores f ds"] compute_distances_length [OF ds]
    by (auto simp: compute_scores_def dest!: in_set_takeD)
  then show ?thesis
    using fedavg.contributors [OF m] by force
qed

interpretation trimmed_mean: aggregation_strategy "trimmed_mean_aggregate r" for r
  by unfold_locales (auto simp: trimmed_mean_aggregate_def aggregated_def result_bind_eq_ok split: if_splits)

lemma krum_contributors:
  assumes "krum_aggregate f us = ok m"
  shows "set (ag_contributing_peers m) \<subseteq> up_peer_id ` set us"
proof -
  obtain ds where ds: "compute_distances us = ok ds" and n: "3 \<le> length us"
    and m: "ag_contributing_peers m = [up_peer_id (us ! argmin (compute_scores f ds))]"
    using assms
    by (auto simp: krum_aggregate_def validate_krum_requirements_def result_bind_eq_ok Let_def split: if_splits)
  have "length (compute_scores f ds) = length us"
    using compute_distances_length [OF ds] by (simp add: compute_scores_def)
  then have "argmin (compute_scores f ds) < length us"
    using argmin_spec [of "compute_scores f ds"] n by (metis list.size(3) not_numeral_le_zero)
  then show ?thesis
    by (simp add: m)
qed

interpretation krum: aggregation_strategy "krum_aggregate f" for f
  using krum_contributors by unfold_locales (auto simp: krum_aggregate_def)

interpretation multikrum: aggregation_strategy "multikrum_aggregate stable_argsort f" for f
proof unfold_locales
  show "set (ag_contributing_peers m) \<subseteq> up_peer_id ` set us"
    if "multikrum_aggregate stable_argsort f us = Inr m" for us m
    by (rule multikrum_contributors [OF _ that]) (auto simp: stable_argsort_def)
qed (auto simp: multikrum_aggregate_def)

section \<open>Examples\<close>

lemma sample_averageable3:
  "distinct [p, q, r] \<Longrightarrow> averageable [sample_update p 1 [x], sample_update q 1 [y], sample_update r 1 [z]]"
  by (auto simp: averageable_def sample_defs validate_updates_def finite_array_def list_all_iff same_arrays_def
      array_wf_def keyed_shape_def array_shape_def)


theorem krum_robust_witness:
  "\<exists>u\<in>set [sample_update ''a'' 1 [1], sample_update ''b'' 1 [2], sample_update ''c'' 1 [3]].
     krum_aggregate 0 [sample_update ''a'' 1 [1], sample_update ''b'' 1 [2], sample_update ''c'' 1 [3]] =
       ok \<lparr>ag_weights = up_weights u, ag_contributing_peers = [up_peer_id u], ag_total_samples = up_sample_count u\<rparr>"
proof -
  have a: "averageable [sample_update ''a'' 1 [1], sample_update ''b'' 1 [2], sample_update ''c'' 1 [3]]"
    by (rule sample_averageable3) simp
  have v: "update_vector (sample_update p 1 [x]) = [x]" for p x
    by (simp add: update_vector_def sample_defs dict_parts_def tensors_of_def reals_def)
  have d: "update_distance (sample_update p 1 [x]) (sample_update q 1 [y]) = \<bar>x - y\<bar>" for p q x y
    by (simp add: update_distance_def v np_norm_def)
  show ?thesis
    using krum_robust [OF a, of 0 "\<lambda>_. True" 2] by (auto simp: d) (simp_all add: sample_defs)
qed

text \<open>The validation compares shapes, not dtypes: one bad update that comes first and is of integers makes the trimmed
  mean of three good ones, all \<open>0.9\<close>, zero.\<close>

definition single_update :: "string \<Rightarrow> string \<Rightarrow> real \<Rightarrow> peer_update" where
  "single_update p d x = \<lparr>up_peer_id = p, up_weights = NdArray \<lparr>nd_dtype = d, nd_shape = [1], nd_data = [Fin x]\<rparr>,
     up_sample_count = 1, up_loss = None, up_round_number = 1\<rparr>"

lemma first_dtype_decides:
  "map_option ag_weights (case trimmed_mean_aggregate (1 / 4) [single_update ''x'' ''int64'' 0,
       single_update ''a'' ''float64'' (9 / 10), single_update ''b'' ''float64'' (9 / 10),
       single_update ''c'' ''float64'' (9 / 10)] of Inl _ \<Rightarrow> None | Inr m \<Rightarrow> Some m)
     = Some (NdArray \<lparr>nd_dtype = ''int64'', nd_shape = [1], nd_data = [Fin 0]\<rparr>)"
  by (simp add: trimmed_mean_aggregate_def single_update_def validate_updates_def finite_array_def trim_numpy_def
      np_stack_def reals_def get_trim_count_def py_int_def trim_rows_def column_def trimmed_values_def np_mean_def
      array_like_def aggregated_def array_shape_def Let_def np_cast_def float_format_def int_range_def to_int_def)

end
