(* ===== verification/Consensus.thy ===== *)
theory Consensus
  imports Quink_Prelude
begin

text \<open>
  Convergence consensus over checkpoint announcements (\<open>gossip/consensus.py\<close>). Losses and accuracies are
  reals: rounding, infinities and NaN of the floats are not modelled.
\<close>

section \<open>State and operations\<close>

record peer_checkpoint =
  pc_peer_id :: string
  pc_round_number :: int
  pc_loss :: real
  pc_accuracy :: real
  pc_model_version :: string

record consensus_result =
  cr_reached :: bool
  cr_total_peers :: int
  cr_agreeing_peers :: int
  cr_agreement_ratio :: real
  cr_mean_loss :: real
  cr_mean_accuracy :: real
  cr_checkpoint_round :: int

record consensus_tracker =
  ct_checkpoint_interval :: int
  ct_consensus_threshold :: real
  ct_loss_tolerance :: real
  ct_min_peers_for_consensus :: int
  ct_max_round_ahead :: int
  ct_checkpoints :: "(int, (string, peer_checkpoint) pydict) pydict"
  ct_last_local_checkpoint_round :: int
  ct_last_seen_checkpoint_round :: int

definition tracker_init :: "int \<Rightarrow> real \<Rightarrow> real \<Rightarrow> int \<Rightarrow> int \<Rightarrow> consensus_tracker" where
  "tracker_init checkpoint_interval consensus_threshold loss_tolerance min_peers max_round_ahead =
     \<lparr>ct_checkpoint_interval = checkpoint_interval, ct_consensus_threshold = consensus_threshold,
      ct_loss_tolerance = max loss_tolerance (1 / 10 ^ 6), ct_min_peers_for_consensus = min_peers,
      ct_max_round_ahead = max_round_ahead, ct_checkpoints = [], ct_last_local_checkpoint_round = 0,
      ct_last_seen_checkpoint_round = 0\<rparr>"

definition should_checkpoint :: "int \<Rightarrow> consensus_tracker \<Rightarrow> bool" where
  "should_checkpoint current_round t \<longleftrightarrow>
     current_round - ct_last_local_checkpoint_round t \<ge> ct_checkpoint_interval t"

definition clamp_round :: "peer_checkpoint \<Rightarrow> consensus_tracker \<Rightarrow> peer_checkpoint" where
  "clamp_round c t =
     (let max_allowed = ct_last_seen_checkpoint_round t + ct_max_round_ahead t in
      if pc_round_number c > max_allowed then c\<lparr>pc_round_number := max_allowed\<rparr> else c)"

definition record_checkpoint :: "peer_checkpoint \<Rightarrow> consensus_tracker \<Rightarrow> consensus_tracker" where
  "record_checkpoint checkpoint t =
     (let c = clamp_round checkpoint t; rnd = pc_round_number c;
          table = (if map_of (ct_checkpoints t) rnd = None
                   then AList.update rnd [] (ct_checkpoints t) else ct_checkpoints t);
          t1 = t\<lparr>ct_checkpoints := table\<rparr>;
          ballots = dict_get table rnd []
      in if map_of ballots (pc_peer_id c) \<noteq> None then t1
         else t1\<lparr>ct_checkpoints := AList.update rnd (AList.update (pc_peer_id c) c ballots) table,
                 ct_last_seen_checkpoint_round := max (ct_last_seen_checkpoint_round t) rnd\<rparr>)"

text \<open>\<open>max(self._checkpoints.keys())\<close>.\<close>

definition latest_round :: "consensus_tracker \<Rightarrow> int" where
  "latest_round t = foldr max (map fst (tl (ct_checkpoints t))) (fst (hd (ct_checkpoints t)))"

definition agreeing_with :: "consensus_tracker \<Rightarrow> real \<Rightarrow> peer_checkpoint list \<Rightarrow> peer_checkpoint list" where
  "agreeing_with t mean_loss peer_list = filter (\<lambda>c. \<bar>pc_loss c - mean_loss\<bar> \<le> ct_loss_tolerance t) peer_list"

definition mean :: "real list \<Rightarrow> real" where
  "mean xs = sum_list xs / real (length xs)"

definition check_consensus :: "int option \<Rightarrow> consensus_tracker \<Rightarrow> consensus_result option" where
  "check_consensus round_number t =
     (if ct_checkpoints t = [] then None
      else let r = (case round_number of None \<Rightarrow> latest_round t | Some r \<Rightarrow> r);
               peer_list = map snd (dict_get (ct_checkpoints t) r []) in
        if peer_list = [] then None
        else let mean_loss = mean (map pc_loss peer_list);
                 agreeing = agreeing_with t mean_loss peer_list;
                 ratio = real (length agreeing) / real (length peer_list)
             in Some \<lparr>cr_reached = (ratio \<ge> ct_consensus_threshold t
                          \<and> int (length peer_list) \<ge> ct_min_peers_for_consensus t),
                      cr_total_peers = int (length peer_list), cr_agreeing_peers = int (length agreeing),
                      cr_agreement_ratio = ratio, cr_mean_loss = mean_loss,
                      cr_mean_accuracy = mean (map pc_accuracy peer_list), cr_checkpoint_round = r\<rparr>)"

text \<open>\<open>sorted_rounds[keep_rounds:]\<close> with Python's negative indices.\<close>

definition slice_from :: "int \<Rightarrow> 'a list \<Rightarrow> 'a list" where
  "slice_from k xs = drop (if 0 \<le> k then nat k else length xs - nat (- k)) xs"

definition prune_old_checkpoints :: "int \<Rightarrow> consensus_tracker \<Rightarrow> consensus_tracker" where
  "prune_old_checkpoints keep_rounds t =
     (let sorted_rounds = rev (sort (map fst (ct_checkpoints t)))
      in t\<lparr>ct_checkpoints := fold AList.delete (slice_from keep_rounds sorted_rounds) (ct_checkpoints t)\<rparr>)"

definition record_local_checkpoint :: "int \<Rightarrow> consensus_tracker \<Rightarrow> consensus_tracker" where
  "record_local_checkpoint round_number t =
     t\<lparr>ct_last_local_checkpoint_round := max (ct_last_local_checkpoint_round t) round_number\<rparr>"

section \<open>Ballots\<close>

text \<open>The checkpoint a peer is counted with in a round.\<close>

definition ballot :: "consensus_tracker \<Rightarrow> int \<Rightarrow> string \<Rightarrow> peer_checkpoint option" where
  "ballot t r p = map_of (dict_get (ct_checkpoints t) r []) p"

text \<open>Every round has one ballot per peer, under the peer's name and the round; no round is ahead of the
  latest one seen.\<close>

definition tracker_inv :: "consensus_tracker \<Rightarrow> bool" where
  "tracker_inv t \<longleftrightarrow> dict_wf (ct_checkpoints t) \<and>
     (\<forall>r d. map_of (ct_checkpoints t) r = Some d \<longrightarrow>
        dict_wf d \<and> r \<le> ct_last_seen_checkpoint_round t
        \<and> (\<forall>p c. map_of d p = Some c \<longrightarrow> pc_peer_id c = p \<and> pc_round_number c = r))"

lemma record_ballot:
  "ballot (record_checkpoint c t) r p =
     (let c' = clamp_round c t in
      if r = pc_round_number c' \<and> p = pc_peer_id c' \<and> ballot t r p = None then Some c' else ballot t r p)"
  by (auto simp: record_checkpoint_def ballot_def dict_get_def dict_simps Let_def split: option.splits)

lemma record_table:
  "map_of (ct_checkpoints (record_checkpoint c t)) r =
     (let c' = clamp_round c t; b = dict_get (ct_checkpoints t) (pc_round_number c') [] in
      if r = pc_round_number c'
      then Some (if map_of b (pc_peer_id c') = None then AList.update (pc_peer_id c') c' b else b)
      else map_of (ct_checkpoints t) r)"
  by (cases "map_of (ct_checkpoints t) (pc_round_number (clamp_round c t))")
    (auto simp: record_checkpoint_def Let_def dict_get_def AList.update_conv')

lemma record_wf: "dict_wf (ct_checkpoints t) \<Longrightarrow> dict_wf (ct_checkpoints (record_checkpoint c t))"
  by (simp add: record_checkpoint_def Let_def AList.distinct_update)

lemma record_seen:
  "ct_last_seen_checkpoint_round (record_checkpoint c t) \<le>
     ct_last_seen_checkpoint_round t + max 0 (ct_max_round_ahead t)"
  "ct_last_seen_checkpoint_round t \<le> ct_last_seen_checkpoint_round (record_checkpoint c t)"
  by (auto simp: record_checkpoint_def clamp_round_def Let_def)

lemma record_config [simp]:
  "ct_max_round_ahead (record_checkpoint c t) = ct_max_round_ahead t"
  "ct_checkpoint_interval (record_checkpoint c t) = ct_checkpoint_interval t"
  "ct_last_local_checkpoint_round (record_checkpoint c t) = ct_last_local_checkpoint_round t"
  by (simp_all add: record_checkpoint_def Let_def)

lemma record_inv:
  assumes inv: "tracker_inv t"
  shows "tracker_inv (record_checkpoint c t)"
proof -
  let ?c = "clamp_round c t"
  let ?r = "pc_round_number ?c"
  let ?b = "dict_get (ct_checkpoints t) ?r []"
  let ?t = "record_checkpoint c t"
  have b: "dict_wf ?b" "\<And>p x. map_of ?b p = Some x \<Longrightarrow> pc_peer_id x = p \<and> pc_round_number x = ?r"
    using inv unfolding tracker_inv_def dict_get_def by (auto split: option.split)
  have le: "?r \<le> ct_last_seen_checkpoint_round ?t"
  proof (cases "map_of ?b (pc_peer_id ?c)")
    case None
    then show ?thesis
      by (cases "map_of (ct_checkpoints t) ?r")
        (simp_all add: record_checkpoint_def Let_def dict_get_def AList.update_conv')
  next
    case (Some x)
    then obtain d where "map_of (ct_checkpoints t) ?r = Some d"
      by (cases "map_of (ct_checkpoints t) ?r") (simp_all add: dict_get_def)
    then show ?thesis
      using inv record_seen(2) [of t c] unfolding tracker_inv_def by (meson order_trans)
  qed
  have "dict_wf d \<and> r \<le> ct_last_seen_checkpoint_round ?t
      \<and> (\<forall>p x. map_of d p = Some x \<longrightarrow> pc_peer_id x = p \<and> pc_round_number x = r)"
    if "map_of (ct_checkpoints ?t) r = Some d" for r d
  proof (cases "r = ?r")
    case True
    then have d: "d = (if map_of ?b (pc_peer_id ?c) = None then AList.update (pc_peer_id ?c) ?c ?b else ?b)"
      using that by (simp add: record_table Let_def)
    have "dict_wf d" using b(1) d by (simp add: AList.distinct_update)
    moreover have "pc_peer_id x = p \<and> pc_round_number x = ?r" if "map_of d p = Some x" for p x
      using b(2) [of p x] that d by (auto simp: AList.update_conv' split: if_splits)
    ultimately show ?thesis using le True by blast
  next
    case False
    then have "map_of (ct_checkpoints t) r = Some d"
      using that by (simp add: record_table Let_def)
    then show ?thesis
      using inv record_seen(2) [of t c] unfolding tracker_inv_def by (meson order_trans)
  qed
  then show ?thesis
    using inv record_wf [of t c] unfolding tracker_inv_def by blast
qed

section \<open>What the tracker promises\<close>

abbreviation record_all :: "peer_checkpoint list \<Rightarrow> consensus_tracker \<Rightarrow> consensus_tracker" where
  "record_all cs t \<equiv> fold record_checkpoint cs t"

lemma tracker_init_inv: "tracker_inv (tracker_init i th tol mp ahead)"
  by (simp add: tracker_inv_def tracker_init_def)

lemma record_all_inv: "tracker_inv t \<Longrightarrow> tracker_inv (record_all cs t)"
  by (induction cs arbitrary: t) (simp_all add: record_inv)

lemma record_all_config [simp]:
  "ct_max_round_ahead (record_all cs t) = ct_max_round_ahead t"
  "ct_checkpoint_interval (record_all cs t) = ct_checkpoint_interval t"
  "ct_last_local_checkpoint_round (record_all cs t) = ct_last_local_checkpoint_round t"
  by (induction cs arbitrary: t) simp_all

lemma ballot_kept: "ballot t r p = Some c \<Longrightarrow> ballot (record_all cs t) r p = Some c"
  by (induction cs arbitrary: t) (simp_all add: record_ballot Let_def)

lemma clamp_round_fields [simp]:
  "pc_peer_id (clamp_round c t) = pc_peer_id c" "pc_loss (clamp_round c t) = pc_loss c"
  "pc_accuracy (clamp_round c t) = pc_accuracy c" "pc_model_version (clamp_round c t) = pc_model_version c"
  "pc_round_number (clamp_round c t) \<le> pc_round_number c"
  by (simp_all add: clamp_round_def Let_def)

lemma ballot_origin:
  "ballot (record_all cs t) r p = Some c \<Longrightarrow>
     ballot t r p = Some c \<or> (\<exists>c0 \<in> set cs. pc_peer_id c0 = p \<and> pc_loss c0 = pc_loss c \<and> r \<le> pc_round_number c0)"
proof (induction cs arbitrary: t)
  case (Cons c1 cs)
  then consider "ballot (record_checkpoint c1 t) r p = Some c"
    | "\<exists>c0 \<in> set cs. pc_peer_id c0 = p \<and> pc_loss c0 = pc_loss c \<and> r \<le> pc_round_number c0"
    by auto
  then show ?case
  proof cases
    case 1
    then show ?thesis
      using clamp_round_fields [of c1 t] by (fastforce simp: record_ballot Let_def split: if_splits)
  qed auto
qed simp

lemma ballots_of_round:
  assumes "tracker_inv t"
  shows "distinct (map pc_peer_id (map snd (dict_get (ct_checkpoints t) r [])))"
    and "x \<in> set (map snd (dict_get (ct_checkpoints t) r [])) \<longleftrightarrow> ballot t r (pc_peer_id x) = Some x"
proof -
  let ?d = "dict_get (ct_checkpoints t) r []"
  have d: "dict_wf ?d" "\<And>p x. map_of ?d p = Some x \<Longrightarrow> pc_peer_id x = p"
    using assms unfolding tracker_inv_def dict_get_def by (auto split: option.split)
  have named: "pc_peer_id (snd e) = fst e" if "e \<in> set ?d" for e
    using that d map_of_is_SomeI [of ?d "fst e" "snd e"] by simp
  then have "map pc_peer_id (map snd ?d) = map fst ?d" by simp
  with d(1) show "distinct (map pc_peer_id (map snd ?d))" by argo
  show "x \<in> set (map snd ?d) \<longleftrightarrow> ballot t r (pc_peer_id x) = Some x"
    unfolding ballot_def
  proof
    assume "x \<in> set (map snd ?d)"
    then obtain k where "(k, x) \<in> set ?d" by auto
    with named [of "(k, x)"] d(1) show "map_of ?d (pc_peer_id x) = Some x" by simp
  next
    assume "map_of ?d (pc_peer_id x) = Some x"
    then show "x \<in> set (map snd ?d)" by (force dest: map_of_SomeD)
  qed
qed

lemma ballots_card:
  assumes "tracker_inv t" and "xs = map snd (dict_get (ct_checkpoints t) r [])"
  shows "card {p. ballot t r p \<noteq> None} = length xs"
proof -
  have "{p. ballot t r p \<noteq> None} = set (map pc_peer_id xs)"
  proof -
    have "p \<in> set (map pc_peer_id xs)" if "ballot t r p = Some c" for p c
    proof -
      have "pc_peer_id c = p"
        using assms(1) that unfolding tracker_inv_def ballot_def dict_get_def by (auto split: option.splits)
      then show ?thesis
        using that assms(2) ballots_of_round(2) [OF assms(1), of c r] by force
    qed
    moreover have "ballot t r (pc_peer_id c) \<noteq> None" if "c \<in> set xs" for c
      using that assms(2) ballots_of_round(2) [OF assms(1), of c r] by simp
    ultimately show ?thesis by fastforce
  qed
  then show ?thesis
    using ballots_of_round(1) [OF assms(1), of r] distinct_card [of "map pc_peer_id xs"] assms(2) by simp
qed

lemma record_all_seen:
  "ct_last_seen_checkpoint_round (record_all cs t)
     \<le> ct_last_seen_checkpoint_round t + int (length cs) * max 0 (ct_max_round_ahead t)"
proof (induction cs arbitrary: t)
  case (Cons c cs)
  show ?case
    using Cons.IH [of "record_checkpoint c t"] record_seen(1) [of c t] by (simp add: distrib_right)
qed simp

lemma record_all_seen_mono:
  "ct_last_seen_checkpoint_round t \<le> ct_last_seen_checkpoint_round (record_all cs t)"
  by (induction cs arbitrary: t) (auto intro: order_trans [OF record_seen(2)])

lemma record_all_limits:
  "ct_consensus_threshold (record_all cs t) = ct_consensus_threshold t"
  "ct_loss_tolerance (record_all cs t) = ct_loss_tolerance t"
  "ct_min_peers_for_consensus (record_all cs t) = ct_min_peers_for_consensus t"
  by (induction cs arbitrary: t) (simp_all add: record_checkpoint_def Let_def)

lemma clamp_step:
  assumes inv: "tracker_inv t" and ahead: "0 < ct_max_round_ahead t"
    and far: "ct_last_seen_checkpoint_round t + ct_max_round_ahead t \<le> pc_round_number c"
  shows "ct_last_seen_checkpoint_round (record_checkpoint c t)
    = ct_last_seen_checkpoint_round t + ct_max_round_ahead t"
proof -
  let ?r = "ct_last_seen_checkpoint_round t + ct_max_round_ahead t"
  have r: "pc_round_number (clamp_round c t) = ?r"
    using far by (simp add: clamp_round_def Let_def)
  have "map_of (ct_checkpoints t) ?r = None"
  proof (rule ccontr)
    assume "map_of (ct_checkpoints t) ?r \<noteq> None"
    with inv have "?r \<le> ct_last_seen_checkpoint_round t" unfolding tracker_inv_def by blast
    with ahead show False by simp
  qed
  then show ?thesis
    using ahead r by (simp add: record_checkpoint_def Let_def dict_get_def AList.update_conv')
qed

lemma clamp_drift:
  "tracker_inv t \<Longrightarrow> 0 < ct_max_round_ahead t \<Longrightarrow>
     ct_last_seen_checkpoint_round t + int n * ct_max_round_ahead t \<le> pc_round_number c \<Longrightarrow>
     ct_last_seen_checkpoint_round (record_all (replicate n c) t)
       = ct_last_seen_checkpoint_round t + int n * ct_max_round_ahead t"
proof (induction n arbitrary: t)
  case (Suc n)
  have "0 \<le> int n * ct_max_round_ahead t" using Suc.prems(2) by simp
  then have "ct_last_seen_checkpoint_round t + ct_max_round_ahead t \<le> pc_round_number c"
    using Suc.prems(3) by (simp add: distrib_right)
  from clamp_step [OF Suc.prems(1,2) this] show ?case
    using Suc.IH [OF record_inv [OF Suc.prems(1)], of c] Suc.prems(2,3) by (simp add: distrib_right)
qed simp

section \<open>Properties\<close>

text \<open>Freeze-first ballots: the checkpoint a peer is counted with in a round is never replaced, whatever
  is recorded afterwards, and a ballot that appears comes from a checkpoint submitted under that very peer
  name with that very loss, for this round or a later one.\<close>

theorem freeze_first_ballots:
  "case ballot t r p of
     Some c \<Rightarrow> ballot (record_all cs t) r p = Some c
   | None \<Rightarrow> \<forall>c. ballot (record_all cs t) r p = Some c \<longrightarrow>
       (\<exists>c0 \<in> set cs. pc_peer_id c0 = p \<and> pc_loss c0 = pc_loss c \<and> r \<le> pc_round_number c0)"
  using ballot_kept ballot_origin by (fastforce split: option.split)

definition sample_checkpoint :: "string \<Rightarrow> int \<Rightarrow> real \<Rightarrow> peer_checkpoint" where
  "sample_checkpoint p r l =
     \<lparr>pc_peer_id = p, pc_round_number = r, pc_loss = l, pc_accuracy = 0, pc_model_version = ''1.0.0''\<rparr>"

definition sample_tracker :: consensus_tracker where
  "sample_tracker = record_all [sample_checkpoint ''a'' 10 1, sample_checkpoint ''b'' 10 1,
     sample_checkpoint ''c'' 10 1] (tracker_init 10 (1 / 2) (1 / 20) 3 50)"

lemmas tracker_eval =
  sample_tracker_def sample_checkpoint_def tracker_init_def record_checkpoint_def clamp_round_def
  ballot_def dict_get_def Let_def

theorem freeze_first_ballots_witness:
  "ballot (record_all [sample_checkpoint ''a'' 10 9] sample_tracker) 10 ''a'' = Some (sample_checkpoint ''a'' 10 1)
   \<and> (\<exists>c0 \<in> set [sample_checkpoint ''d'' 99 7]. pc_peer_id c0 = ''d'' \<and> pc_loss c0 = 7 \<and> 60 \<le> pc_round_number c0)"
proof
  have "ballot sample_tracker 10 ''a'' = Some (sample_checkpoint ''a'' 10 1)" by (simp add: tracker_eval)
  then show "ballot (record_all [sample_checkpoint ''a'' 10 9] sample_tracker) 10 ''a'' = Some (sample_checkpoint ''a'' 10 1)"
    using freeze_first_ballots [where t = sample_tracker and r = 10 and p = "''a''" and cs = "[sample_checkpoint ''a'' 10 9]"] by simp
  have "ballot sample_tracker 60 ''d'' = None"
      "ballot (record_all [sample_checkpoint ''d'' 99 7] sample_tracker) 60 ''d'' = Some (sample_checkpoint ''d'' 60 7)"
    by (simp_all add: tracker_eval)
  then have "\<exists>c0 \<in> set [sample_checkpoint ''d'' 99 7]. pc_peer_id c0 = ''d''
      \<and> pc_loss c0 = pc_loss (sample_checkpoint ''d'' 60 7) \<and> 60 \<le> pc_round_number c0"
    using freeze_first_ballots [where t = sample_tracker and r = 60 and p = "''d''" and cs = "[sample_checkpoint ''d'' 99 7]"] by simp
  then show "\<exists>c0 \<in> set [sample_checkpoint ''d'' 99 7]. pc_peer_id c0 = ''d'' \<and> pc_loss c0 = 7
      \<and> 60 \<le> pc_round_number c0"
    by (simp add: sample_checkpoint_def)
qed

text \<open>C35: What a declared consensus means: in a tracker built from any sequence of announcements, the peers
  counted are exactly the distinct peers with a ballot in the round, there are at least the configured
  minimum of them, the agreeing ones are at least the configured fraction, and the losses of any two
  agreeing peers differ by at most twice the tolerance.\<close>

theorem consensus_sound:
  assumes t: "t = record_all cs (tracker_init i th tol mp ahead)"
    and res: "check_consensus rnd t = Some res" "cr_reached res"
  shows "\<exists>P. P \<subseteq> {p. ballot t (cr_checkpoint_round res) p \<noteq> None}
      \<and> cr_total_peers res = int (card {p. ballot t (cr_checkpoint_round res) p \<noteq> None})
      \<and> cr_total_peers res \<ge> mp \<and> cr_agreeing_peers res = int (card P)
      \<and> real (card P) \<ge> th * real_of_int (cr_total_peers res)
      \<and> (\<forall>p \<in> P. \<forall>q \<in> P. \<forall>c d. ballot t (cr_checkpoint_round res) p = Some c \<longrightarrow>
           ballot t (cr_checkpoint_round res) q = Some d \<longrightarrow>
           \<bar>pc_loss c - pc_loss d\<bar> \<le> 2 * max tol (1 / 10 ^ 6))"
proof -
  let ?r = "cr_checkpoint_round res"
  let ?xs = "map snd (dict_get (ct_checkpoints t) ?r [])"
  let ?m = "mean (map pc_loss ?xs)"
  let ?ag = "agreeing_with t ?m ?xs"
  let ?P = "set (map pc_peer_id ?ag)"
  have inv: "tracker_inv t" using t record_all_inv tracker_init_inv by blast
  have cfg: "ct_consensus_threshold t = th" "ct_loss_tolerance t = max tol (1 / 10 ^ 6)"
      "ct_min_peers_for_consensus t = mp"
    using t record_all_limits [of cs "tracker_init i th tol mp ahead"] by (simp_all add: tracker_init_def)
  have r: "?xs \<noteq> []" "cr_total_peers res = int (length ?xs)" "cr_agreeing_peers res = int (length ?ag)"
      "real (length ?ag) / real (length ?xs) \<ge> th" "int (length ?xs) \<ge> mp"
    using res cfg by (auto simp: check_consensus_def Let_def split: if_splits)
  have "distinct (map pc_peer_id ?ag)"
    using ballots_of_round(1) [OF inv, of ?r] unfolding agreeing_with_def by (rule distinct_map_filter)
  then have card: "card ?P = length ?ag" by (metis distinct_card length_map)
  have agree: "\<bar>pc_loss c - ?m\<bar> \<le> max tol (1 / 10 ^ 6)" if "p \<in> ?P" "ballot t ?r p = Some c" for p c
  proof -
    obtain x where x: "x \<in> set ?ag" "p = pc_peer_id x" using \<open>p \<in> ?P\<close> by auto
    then have "x = c"
      using that(2) ballots_of_round(2) [OF inv, of x ?r] by (simp add: agreeing_with_def)
    with x cfg show ?thesis by (simp add: agreeing_with_def)
  qed
  show ?thesis
  proof (intro exI [of _ ?P] conjI)
    show "?P \<subseteq> {p. ballot t ?r p \<noteq> None}"
      using ballots_of_round(2) [OF inv, of _ ?r] by (auto simp: agreeing_with_def)
    show "real (card ?P) \<ge> th * real_of_int (cr_total_peers res)"
      using r card by (simp add: field_simps)
    show "\<forall>p \<in> ?P. \<forall>q \<in> ?P. \<forall>c d. ballot t ?r p = Some c \<longrightarrow> ballot t ?r q = Some d \<longrightarrow>
        \<bar>pc_loss c - pc_loss d\<bar> \<le> 2 * max tol (1 / 10 ^ 6)"
    proof (intro ballI allI impI)
      fix p q c d
      assume "p \<in> ?P" "q \<in> ?P" "ballot t ?r p = Some c" "ballot t ?r q = Some d"
      then show "\<bar>pc_loss c - pc_loss d\<bar> \<le> 2 * max tol (1 / 10 ^ 6)"
        using agree [of p c] agree [of q d] by linarith
    qed
  qed (use r card ballots_card [OF inv refl, of ?r] in simp_all)
qed

theorem consensus_sound_witness:
  "\<exists>P. P \<subseteq> {p. ballot sample_tracker 10 p \<noteq> None} \<and> card P = 3"
proof -
  have "check_consensus None sample_tracker = Some \<lparr>cr_reached = True, cr_total_peers = 3,
      cr_agreeing_peers = 3, cr_agreement_ratio = 1, cr_mean_loss = 1, cr_mean_accuracy = 0,
      cr_checkpoint_round = 10\<rparr>"
    by (simp add: tracker_eval check_consensus_def latest_round_def mean_def agreeing_with_def)
  from consensus_sound [OF sample_tracker_def this] obtain P where
    "P \<subseteq> {p. ballot sample_tracker 10 p \<noteq> None}" "(3::int) = int (card P)"
    unfolding consensus_result.simps by blast
  then show ?thesis by (intro exI [of _ P]) simp
qed

text \<open>The round clamp: recording announcements moves the round a node believes the network has reached by
  at most \<open>max_round_ahead\<close> each and never backwards, and never changes whether the node itself is due a
  checkpoint. The bound is attained by a single peer announcing one far-away round over and over, so the
  clamp bounds the speed of the drift and not its extent.\<close>

lemma round_clamp:
  "ct_last_seen_checkpoint_round t \<le> ct_last_seen_checkpoint_round (record_all cs t)
   \<and> ct_last_seen_checkpoint_round (record_all cs t)
       \<le> ct_last_seen_checkpoint_round t + int (length cs) * max 0 (ct_max_round_ahead t)
   \<and> should_checkpoint r (record_all cs t) = should_checkpoint r t
   \<and> (tracker_inv t \<and> 0 < ct_max_round_ahead t
        \<and> ct_last_seen_checkpoint_round t + int n * ct_max_round_ahead t \<le> pc_round_number c \<longrightarrow>
      ct_last_seen_checkpoint_round (record_all (replicate n c) t)
        = ct_last_seen_checkpoint_round t + int n * ct_max_round_ahead t)"
  using record_all_seen [of cs t] record_all_seen_mono [of t cs] clamp_drift [of t n c]
  by (simp add: should_checkpoint_def)

end
