(* ===== verification/Model_Aggregator.thy ===== *)
theory Model_Aggregator
  imports Gossip_Protocol Robust_Aggregation Consensus Peer_Sampler "HOL-Library.Product_Lexorder" "HOL-Library.Sublist"
begin

text \<open>
  The learning loop's aggregator (\<open>gossip/aggregator.py\<close>, class \<open>ModelAggregator\<close>): the queue of pending updates and
  its message handlers, one aggregation in its two halves (the drain, and the combination with the own model after the
  awaits in between), the rounds of \<open>run_continuous\<close> with their error counting, and the shutdown.

  The strategy is an argument, a function of the validated contract of \<open>Aggregation\<close>, and so is \<open>set_weights\<close> of the wrapped
  model, which takes the model's weights and the new ones and may raise. Everything else a round meets comes in a
  \<open>round_env\<close>: the outcome of training, of target selection and sending, the messages that arrive and when.
  A cancellation or an exception outside the strategy can end an aggregation between its halves. Metrics, events, hooks,
  fingerprints and logging are not modelled.
\<close>

section \<open>State\<close>

record model_aggregator =
  ma_peer_id :: string
  ma_domain :: string
  ma_data_schema_hash :: string
  ma_model_version :: string
  ma_min_peers_before_aggregate :: int
  ma_stale_round_tolerance :: int
  ma_max_pending_updates :: int
  ma_batch_size :: int
  ma_tracker :: consensus_tracker
  ma_running :: bool
  ma_run_continuous_active :: bool
  ma_current_round :: int
  ma_known_peers :: "(string, tpeer) pydict"
  ma_pending_updates :: "peer_update list"
  ma_aggregating :: bool
  ma_aggregation_event :: bool
  ma_peer_rejection_counts :: "(string, int) pydict"
  ma_last_samples_trained :: "int option"
  ma_weights :: weights

definition select_fanout :: "int \<Rightarrow> int" where
  "select_fanout candidate_count =
     (if candidate_count \<le> 0 then 0
      else if candidate_count < 3 then candidate_count
      else if candidate_count \<le> 100 then 3
      else if candidate_count \<le> 250 then 5
      else if candidate_count \<le> 500 then 7
      else 10)"

section \<open>Peers\<close>

definition add_peer :: "tpeer \<Rightarrow> model_aggregator \<Rightarrow> model_aggregator" where
  "add_peer p s =
     (if map_of (ma_known_peers s) (tp_peer_id p) = None
      then s\<lparr>ma_known_peers := AList.update (tp_peer_id p) p (ma_known_peers s)\<rparr> else s)"

definition remove_peer :: "string \<Rightarrow> model_aggregator \<Rightarrow> model_aggregator" where
  "remove_peer peer_id s =
     (if map_of (ma_known_peers s) peer_id \<noteq> None
      then s\<lparr>ma_known_peers := AList.delete peer_id (ma_known_peers s)\<rparr> else s)"

section \<open>Messages\<close>

definition max_peer_rejection_entries :: nat where
  "max_peer_rejection_entries = 256"

text \<open>\<open>min(counts, key=lambda pid: (counts[pid], pid))\<close>.\<close>

definition oldest_peer :: "(string, int) pydict \<Rightarrow> string" where
  "oldest_peer counts = snd (foldr min (map (\<lambda>(p, c). (c, p)) (tl counts)) ((\<lambda>(p, c). (c, p)) (hd counts)))"

definition count_rejection :: "string \<Rightarrow> model_aggregator \<Rightarrow> model_aggregator" where
  "count_rejection sender_id s =
     (let counts = AList.update sender_id (dict_get (ma_peer_rejection_counts s) sender_id 0 + 1)
                     (ma_peer_rejection_counts s)
      in s\<lparr>ma_peer_rejection_counts :=
           (if length counts > max_peer_rejection_entries then AList.delete (oldest_peer counts) counts else counts)\<rparr>)"

text \<open>\<open>_handle_model_update\<close>; the section under \<open>_pending_lock\<close> has no await.\<close>

definition handle_model_update ::
    "string \<Rightarrow> weights \<Rightarrow> int \<Rightarrow> real option \<Rightarrow> int \<Rightarrow> model_aggregator \<Rightarrow> model_aggregator" where
  "handle_model_update sender_id w sample_count loss round_number s =
     (if \<not> ma_running s then s
      else if \<bar>round_number - ma_current_round s\<bar> > ma_stale_round_tolerance s then count_rejection sender_id s
      else let update = \<lparr>up_peer_id = sender_id, up_weights = w, up_sample_count = sample_count, up_loss = loss,
                         up_round_number = round_number\<rparr>
           in if list_ex (\<lambda>u. up_peer_id u = sender_id) (ma_pending_updates s) then s
              else if int (length (ma_pending_updates s)) \<ge> ma_max_pending_updates s then s
              else s\<lparr>ma_pending_updates := ma_pending_updates s @ [update], ma_aggregation_event := True\<rparr>)"

text \<open>\<open>_handle_discovery_announce\<close> reads the payload dictionary, not the fields of the message.\<close>

definition handle_discovery_announce :: "gossip_message \<Rightarrow> model_aggregator \<Rightarrow> model_aggregator" where
  "handle_discovery_announce m s =
     (if map_of (gm_payload m) ''domain'' = Some (ma_domain s) \<and>
         map_of (gm_payload m) ''data_schema_hash'' = Some (ma_data_schema_hash s)
      then add_peer \<lparr>tp_peer_id = gm_sender_id m, tp_domain = ma_domain s, tp_data_schema_hash = ma_data_schema_hash s,
             tp_manifest_id = None, tp_model_version = dict_get (gm_payload m) ''model_version'' ''1.0.0'',
             tp_data_fingerprint = None, tp_metadata = [], tp_age = 0\<rparr> s
      else s)"

text \<open>\<open>_handle_checkpoint_announce\<close>: \<open>record_checkpoint\<close> is not a coroutine, so awaiting the \<open>None\<close> it returns raises
  \<open>TypeError\<close> after the checkpoint has been recorded.\<close>

definition handle_checkpoint_announce ::
    "string \<Rightarrow> int \<Rightarrow> real \<Rightarrow> real \<Rightarrow> string \<Rightarrow> model_aggregator \<Rightarrow> model_aggregator \<times> unit result" where
  "handle_checkpoint_announce sender_id round_number loss accuracy model_version s =
     (if map_of (ma_known_peers s) sender_id = None then (s, ok ())
      else if \<not> ma_running s then (s, ok ())
      else (s\<lparr>ma_tracker := record_checkpoint \<lparr>pc_peer_id = sender_id, pc_round_number = round_number, pc_loss = loss,
                pc_accuracy = accuracy, pc_model_version = model_version\<rparr> (ma_tracker s)\<rparr>, raise TypeError))"

text \<open>\<open>handle_incoming_message\<close>: what a handler raises is logged and dropped; a heartbeat only moves \<open>last_seen\<close>.\<close>

definition handle_incoming_message :: "real \<Rightarrow> gossip_message \<Rightarrow> model_aggregator \<Rightarrow> model_aggregator" where
  "handle_incoming_message now m s =
     (if \<not> validate_message now m \<lparr>gp_peer_id = ma_peer_id s, gp_sequence_number = 0\<rparr> then s
      else case gm_body m of
        ModelUpdateMessage w n loss r \<Rightarrow> handle_model_update (gm_sender_id m) w n loss r s
      | DiscoveryAnnounce _ _ _ \<Rightarrow> handle_discovery_announce m s
      | CheckpointAnnounceMessage r loss acc v \<Rightarrow> fst (handle_checkpoint_announce (gm_sender_id m) r loss acc v s)
      | _ \<Rightarrow> s)"

section \<open>Aggregation\<close>

text \<open>\<open>_aggregate_models\<close> up to the drain: the batch, unless one is in progress or too few updates are pending.\<close>

definition begin_aggregation :: "model_aggregator \<Rightarrow> model_aggregator \<times> peer_update list option" where
  "begin_aggregation s =
     (if ma_aggregating s then (s, None)
      else if ma_pending_updates s = [] then (s, None)
      else if int (length (ma_pending_updates s)) < ma_min_peers_before_aggregate s then (s, None)
      else (s\<lparr>ma_pending_updates := [], ma_aggregating := True\<rparr>, Some (ma_pending_updates s)))"

definition own_sample_count :: "peer_update list \<Rightarrow> model_aggregator \<Rightarrow> int" where
  "own_sample_count batch s =
     (let trained = (case ma_last_samples_trained s of None \<Rightarrow> 0 | Some n \<Rightarrow> n);
          peer_counts = filter (\<lambda>n. n > 0) (map up_sample_count batch)
      in if trained > 0 then trained
         else if peer_counts \<noteq> [] then sum_list peer_counts div int (length peer_counts)
         else ma_batch_size s)"

definition own_update :: "peer_update list \<Rightarrow> model_aggregator \<Rightarrow> peer_update" where
  "own_update batch s = \<lparr>up_peer_id = ma_peer_id s, up_weights = ma_weights s,
     up_sample_count = own_sample_count batch s, up_loss = None, up_round_number = ma_current_round s\<rparr>"

type_synonym strategy = "peer_update list \<Rightarrow> aggregated_model result"
type_synonym set_weights = "weights \<Rightarrow> weights \<Rightarrow> weights result"

text \<open>The rest of \<open>_aggregate_models\<close>: a failing strategy puts the batch back in front of what arrived meanwhile; a failing
  \<open>set_weights\<close> does not.\<close>

definition finish_aggregation ::
    "strategy \<Rightarrow> set_weights \<Rightarrow> peer_update list \<Rightarrow> model_aggregator \<Rightarrow> model_aggregator \<times> aggregated_model result" where
  "finish_aggregation aggregate set_weights batch s =
     (case aggregate (own_update batch s # batch) of
        Inl e \<Rightarrow> (s\<lparr>ma_pending_updates := batch @ ma_pending_updates s, ma_aggregating := False\<rparr>, raise e)
      | Inr m \<Rightarrow>
          (case set_weights (ma_weights s) (ag_weights m) of
             Inl e \<Rightarrow> (s\<lparr>ma_aggregating := False\<rparr>, raise e)
           | Inr w \<Rightarrow> (s\<lparr>ma_weights := w, ma_aggregation_event := False, ma_aggregating := False\<rparr>, ok m)))"

text \<open>The task is cancelled, or the snapshot of the own weights fails, while the batch is being aggregated: a cancellation is no
  \<open>Exception\<close>, so only the \<open>finally\<close> block runs, and the batch is not put back.\<close>

definition abort_aggregation :: "model_aggregator \<Rightarrow> model_aggregator" where
  "abort_aggregation s = s\<lparr>ma_aggregating := False\<rparr>"

section \<open>Rounds\<close>

text \<open>\<open>_broadcast_checkpoint\<close>: the \<open>TypeError\<close> of the awaited \<open>record_checkpoint\<close> is caught, so \<open>record_local_checkpoint\<close> is not
  reached; the announcement is sent all the same.\<close>

definition broadcast_checkpoint ::
    "real \<Rightarrow> real \<Rightarrow> real \<Rightarrow> model_aggregator \<Rightarrow> model_aggregator \<times> gossip_message" where
  "broadcast_checkpoint now loss accuracy s =
     (s\<lparr>ma_tracker := record_checkpoint \<lparr>pc_peer_id = ma_peer_id s, pc_round_number = ma_current_round s, pc_loss = loss,
          pc_accuracy = accuracy, pc_model_version = ma_model_version s\<rparr> (ma_tracker s)\<rparr>,
      create_message (ma_peer_id s) now
        (CheckpointAnnounceMessage (ma_current_round s) loss accuracy (ma_model_version s)))"

text \<open>Step 7 of a round: the announcement that is sent, if any; the tracker is pruned to five rounds.\<close>

definition checkpoint_step ::
    "real \<Rightarrow> real \<Rightarrow> real \<Rightarrow> model_aggregator \<Rightarrow> model_aggregator \<times> gossip_message option" where
  "checkpoint_step now loss accuracy s =
     (if should_checkpoint (ma_current_round s) (ma_tracker s)
      then let (s1, msg) = broadcast_checkpoint now loss accuracy s
           in (s1\<lparr>ma_tracker := prune_old_checkpoints 5 (ma_tracker s1)\<rparr>, Some msg)
      else (s, None))"

text \<open>What a round meets: the messages that arrive before and during the wait, the outcome of training (none without a data
  provider; the trained weights and the samples otherwise), whether the convergence monitor asks to stop, the outcome of selection,
  sending and maintenance, whether \<open>stop()\<close> is called, the messages that arrive while a batch is being aggregated, whether
  the metrics of an aggregation can be computed, and the metrics of a checkpoint.\<close>

record round_env =
  rv_early :: "(real \<times> gossip_message) list"
  rv_training :: "(weights \<times> int) result option"
  rv_should_stop :: bool
  rv_exchange :: "unit result"
  rv_incoming :: "(real \<times> gossip_message) list"
  rv_stop_called :: bool
  rv_during :: "(real \<times> gossip_message) list"
  rv_quality :: "unit result"
  rv_checkpoint :: "real \<times> real \<times> real"

datatype round_result = Completed | EarlyStop | Failed py_error

definition receive :: "(real \<times> gossip_message) list \<Rightarrow> model_aggregator \<Rightarrow> model_aggregator" where
  "receive ms s = fold (\<lambda>(now, m). handle_incoming_message now m) ms s"

text \<open>Step 6: one whole aggregation. The similarity and fingerprint metrics computed at its end may still raise, after the model has been
  replaced.\<close>

definition aggregate_models ::
    "strategy \<Rightarrow> set_weights \<Rightarrow> (real \<times> gossip_message) list \<Rightarrow> unit result \<Rightarrow> model_aggregator \<Rightarrow>
     model_aggregator \<times> aggregated_model option result" where
  "aggregate_models aggregate set_weights during quality s =
     (case begin_aggregation s of
        (s1, None) \<Rightarrow> (s1, ok None)
      | (s1, Some batch) \<Rightarrow>
          (case finish_aggregation aggregate set_weights batch (receive during s1) of
             (s2, Inl e) \<Rightarrow> (s2, raise e)
           | (s2, Inr m) \<Rightarrow> (s2, result_bind quality (\<lambda>_. ok (Some m)))))"

definition start_round :: "round_env \<Rightarrow> model_aggregator \<Rightarrow> model_aggregator" where
  "start_round env s =
     receive (rv_early env) (s\<lparr>ma_last_samples_trained := None, ma_current_round := ma_current_round s + 1\<rparr>)"

definition finish_round ::
    "strategy \<Rightarrow> set_weights \<Rightarrow> round_env \<Rightarrow> model_aggregator \<Rightarrow> model_aggregator \<times> round_result" where
  "finish_round aggregate set_weights env s =
     (case rv_exchange env of
        Inl e \<Rightarrow> (s, Failed e)
      | Inr _ \<Rightarrow>
          let s1 = receive (rv_incoming env) s;
              s2 = (if rv_stop_called env then s1\<lparr>ma_running := False\<rparr> else s1)
          in case aggregate_models aggregate set_weights (rv_during env) (rv_quality env) s2 of
               (s3, Inl e) \<Rightarrow> (s3, Failed e)
             | (s3, Inr _) \<Rightarrow> (case rv_checkpoint env of (now, loss, acc) \<Rightarrow>
                 (fst (checkpoint_step now loss acc s3), Completed)))"

definition run_round ::
    "strategy \<Rightarrow> set_weights \<Rightarrow> round_env \<Rightarrow> model_aggregator \<Rightarrow> model_aggregator \<times> round_result" where
  "run_round aggregate set_weights env s =
     (let s1 = start_round env s in
      case rv_training env of
        None \<Rightarrow> finish_round aggregate set_weights env s1
      | Some (Inl e) \<Rightarrow> (s1, Failed e)
      | Some (Inr (w, samples)) \<Rightarrow>
          let s2 = s1\<lparr>ma_weights := w, ma_last_samples_trained := Some samples\<rparr>
          in if rv_should_stop env then (s2\<lparr>ma_running := False\<rparr>, EarlyStop)
             else finish_round aggregate set_weights env s2)"

definition max_consecutive_errors :: nat where
  "max_consecutive_errors = 5"

text \<open>The loop over the rounds the environment allows; \<open>None\<close> when it is still running after them.\<close>

fun run_loop ::
    "strategy \<Rightarrow> set_weights \<Rightarrow> round_env list \<Rightarrow> nat \<Rightarrow> model_aggregator \<Rightarrow> model_aggregator \<times> unit result option" where
  "run_loop aggregate set_weights [] consecutive_errors s =
     (s, if ma_running s then None else Some (ok ()))"
| "run_loop aggregate set_weights (env # envs) consecutive_errors s =
     (if \<not> ma_running s then (s, Some (ok ()))
      else case run_round aggregate set_weights env s of
        (s1, Completed) \<Rightarrow> run_loop aggregate set_weights envs 0 s1
      | (s1, EarlyStop) \<Rightarrow> (s1, Some (ok ()))
      | (s1, Failed e) \<Rightarrow>
          if consecutive_errors + 1 \<ge> max_consecutive_errors then (s1, Some (raise RuntimeError))
          else run_loop aggregate set_weights envs (consecutive_errors + 1) (s1\<lparr>ma_aggregation_event := False\<rparr>))"

text \<open>The \<open>finally\<close> block: one last aggregation, whatever it raises, then the queue is emptied.\<close>

definition shut_down :: "strategy \<Rightarrow> set_weights \<Rightarrow> model_aggregator \<Rightarrow> model_aggregator" where
  "shut_down aggregate set_weights s =
     (let s1 = s\<lparr>ma_run_continuous_active := False, ma_running := False\<rparr>;
          s2 = (if int (length (ma_pending_updates s1)) \<ge> ma_min_peers_before_aggregate s1
                then fst (aggregate_models aggregate set_weights [] (ok ()) s1) else s1)
      in s2\<lparr>ma_pending_updates := []\<rparr>)"

definition run_continuous ::
    "strategy \<Rightarrow> set_weights \<Rightarrow> round_env list \<Rightarrow> model_aggregator \<Rightarrow> model_aggregator \<times> unit result option" where
  "run_continuous aggregate set_weights envs s =
     (if ma_run_continuous_active s then (s, Some (ok ()))
      else case run_loop aggregate set_weights envs 0 (s\<lparr>ma_run_continuous_active := True, ma_running := True\<rparr>) of
        (s1, None) \<Rightarrow> (s1, None)
      | (s1, Some r) \<Rightarrow> (shut_down aggregate set_weights s1, Some r))"

section \<open>What the handlers keep\<close>

text \<open>Handling a message appends at most one update to the queue and changes nothing of the rest of the aggregation.\<close>

definition same_setup :: "model_aggregator \<Rightarrow> model_aggregator \<Rightarrow> bool" where
  "same_setup s s' \<longleftrightarrow> ma_peer_id s' = ma_peer_id s \<and> ma_running s' = ma_running s \<and>
     ma_aggregating s' = ma_aggregating s \<and> ma_min_peers_before_aggregate s' = ma_min_peers_before_aggregate s \<and>
     ma_max_pending_updates s' = ma_max_pending_updates s \<and> ma_weights s' = ma_weights s \<and>
     ma_last_samples_trained s' = ma_last_samples_trained s \<and> ma_current_round s' = ma_current_round s \<and>
     ma_batch_size s' = ma_batch_size s"

lemma same_setup_refl [simp]: "same_setup s s"
  by (simp add: same_setup_def)

lemma same_setup_trans: "same_setup s t \<Longrightarrow> same_setup t u \<Longrightarrow> same_setup s u"
  by (simp add: same_setup_def)

lemma add_peer_frame [simp]:
  "ma_pending_updates (add_peer p s) = ma_pending_updates s" "same_setup s (add_peer p s)"
  by (simp_all add: add_peer_def same_setup_def)

lemma count_rejection_frame [simp]:
  "ma_pending_updates (count_rejection p s) = ma_pending_updates s" "same_setup s (count_rejection p s)"
  by (simp_all add: count_rejection_def same_setup_def Let_def)

lemma handle_model_update_frame:
  "same_setup s (handle_model_update p w n l r s)"
  "\<exists>us. ma_pending_updates (handle_model_update p w n l r s) = ma_pending_updates s @ us \<and>
     (us = [] \<or> (length us = 1 \<and> int (length (ma_pending_updates s)) < ma_max_pending_updates s))"
  by (auto simp: handle_model_update_def Let_def) (simp add: same_setup_def)

lemma handle_discovery_frame [simp]:
  "ma_pending_updates (handle_discovery_announce m s) = ma_pending_updates s" "same_setup s (handle_discovery_announce m s)"
  by (simp_all add: handle_discovery_announce_def)

lemma handle_checkpoint_frame [simp]:
  "ma_pending_updates (fst (handle_checkpoint_announce p r l a v s)) = ma_pending_updates s"
  "same_setup s (fst (handle_checkpoint_announce p r l a v s))"
  by (simp_all add: handle_checkpoint_announce_def same_setup_def)

lemma handle_incoming_setup: "same_setup s (handle_incoming_message now m s)"
  by (cases "gm_body m") (simp_all add: handle_incoming_message_def handle_model_update_frame(1))

lemma handle_incoming_queue:
  "\<exists>us. ma_pending_updates (handle_incoming_message now m s) = ma_pending_updates s @ us \<and>
     (us = [] \<or> (length us = 1 \<and> int (length (ma_pending_updates s)) < ma_max_pending_updates s))"
proof (cases "gm_body m")
  case (ModelUpdateMessage w n l r)
  then show ?thesis
    using handle_model_update_frame(2) [of "gm_sender_id m" w n l r s] by (auto simp: handle_incoming_message_def)
qed (simp_all add: handle_incoming_message_def)

text \<open>The same for any sequence of messages: the queue keeps what it has, in order, and does not pass its limit.\<close>

lemma receive_frame:
  "same_setup s (receive ms s) \<and> prefix (ma_pending_updates s) (ma_pending_updates (receive ms s)) \<and>
   int (length (ma_pending_updates (receive ms s))) \<le> max (int (length (ma_pending_updates s))) (ma_max_pending_updates s)"
proof (induction ms arbitrary: s)
  case (Cons nm ms)
  obtain now m where nm: "nm = (now, m)"
    by (cases nm)
  let ?t = "handle_incoming_message now m s"
  have t: "same_setup s ?t" "prefix (ma_pending_updates s) (ma_pending_updates ?t)"
      "int (length (ma_pending_updates ?t)) \<le> max (int (length (ma_pending_updates s))) (ma_max_pending_updates s)"
    using handle_incoming_setup [of s now m] handle_incoming_queue [of now m s] by auto
  have "receive (nm # ms) s = receive ms ?t"
    by (simp add: receive_def nm)
  then show ?case
    using t Cons.IH [of ?t] same_setup_trans [of s ?t "receive ms ?t"] prefix_order.trans
    by (fastforce simp: same_setup_def)
qed (simp add: receive_def)

section \<open>Interleavings of the queue\<close>

text \<open>\<open>__init__\<close>; the round is the one of the latest stored checkpoint, or zero.\<close>

definition model_aggregator_init ::
    "string \<Rightarrow> string \<Rightarrow> string \<Rightarrow> string \<Rightarrow> int \<Rightarrow> int \<Rightarrow> int \<Rightarrow> int \<Rightarrow> consensus_tracker \<Rightarrow> int \<Rightarrow> weights \<Rightarrow> model_aggregator" where
  "model_aggregator_init peer_id domain data_schema_hash model_version min_peers stale_round_tolerance max_pending_updates
     batch_size tracker start_round_number w =
     \<lparr>ma_peer_id = peer_id, ma_domain = domain, ma_data_schema_hash = data_schema_hash, ma_model_version = model_version,
      ma_min_peers_before_aggregate = min_peers, ma_stale_round_tolerance = stale_round_tolerance,
      ma_max_pending_updates = max_pending_updates, ma_batch_size = batch_size, ma_tracker = tracker, ma_running = False,
      ma_run_continuous_active = False, ma_current_round = start_round_number, ma_known_peers = [], ma_pending_updates = [],
      ma_aggregating = False, ma_aggregation_event = False, ma_peer_rejection_counts = [],
      ma_last_samples_trained = None, ma_weights = w\<rparr>"

text \<open>The aggregator with its bookkeeping: the batch being aggregated, the updates ever admitted to the queue, those that left it for
  good (aggregated into the model, lost to an aborted aggregation or a failing \<open>set_weights\<close>, discarded at shutdown), and how
  often a batch has been put back since one last left the queue.\<close>

record agg_run =
  ar_state :: model_aggregator
  ar_in_flight :: "peer_update list option"
  ar_admitted :: "peer_update list"
  ar_aggregated :: "peer_update list"
  ar_lost :: "peer_update list"
  ar_discarded :: "peer_update list"
  ar_failures :: nat

datatype agg_event =
    Deliver real gossip_message
  | NextRound weights "int option"
  | RunLoop bool
  | BeginAggregation
  | FinishAggregation
  | AbortAggregation
  | ClearQueue
  | PeerAdded tpeer
  | PeerRemoved string


fun agg_step :: "strategy \<Rightarrow> set_weights \<Rightarrow> agg_event \<Rightarrow> agg_run \<Rightarrow> agg_run" where
  "agg_step aggregate set_weights (Deliver now m) r =
     (let s = handle_incoming_message now m (ar_state r)
      in r\<lparr>ar_state := s, ar_admitted := ar_admitted r @ drop (length (ma_pending_updates (ar_state r))) (ma_pending_updates s)\<rparr>)"
| "agg_step aggregate set_weights (NextRound w samples) r =
     r\<lparr>ar_state := (ar_state r)\<lparr>ma_current_round := ma_current_round (ar_state r) + 1, ma_weights := w,
         ma_last_samples_trained := samples\<rparr>\<rparr>"
| "agg_step aggregate set_weights (RunLoop b) r = r\<lparr>ar_state := (ar_state r)\<lparr>ma_running := b\<rparr>\<rparr>"
| "agg_step aggregate set_weights BeginAggregation r =
     (case begin_aggregation (ar_state r) of
        (s, None) \<Rightarrow> r\<lparr>ar_state := s\<rparr>
      | (s, Some batch) \<Rightarrow> r\<lparr>ar_state := s, ar_in_flight := Some batch\<rparr>)"
| "agg_step aggregate set_weights FinishAggregation r =
     (case ar_in_flight r of
        None \<Rightarrow> r
      | Some batch \<Rightarrow>
          let s = fst (finish_aggregation aggregate set_weights batch (ar_state r)) in
          case aggregate (own_update batch (ar_state r) # batch) of
            Inl _ \<Rightarrow> r\<lparr>ar_state := s, ar_in_flight := None, ar_failures := ar_failures r + 1\<rparr>
          | Inr m \<Rightarrow>
              (case set_weights (ma_weights (ar_state r)) (ag_weights m) of
                 Inl _ \<Rightarrow> r\<lparr>ar_state := s, ar_in_flight := None, ar_lost := ar_lost r @ batch, ar_failures := 0\<rparr>
               | Inr _ \<Rightarrow> r\<lparr>ar_state := s, ar_in_flight := None, ar_aggregated := ar_aggregated r @ batch, ar_failures := 0\<rparr>))"
| "agg_step aggregate set_weights AbortAggregation r =
     (case ar_in_flight r of
        None \<Rightarrow> r
      | Some batch \<Rightarrow> r\<lparr>ar_state := abort_aggregation (ar_state r), ar_in_flight := None, ar_lost := ar_lost r @ batch,
          ar_failures := 0\<rparr>)"
| "agg_step aggregate set_weights ClearQueue r =
     (if ar_in_flight r \<noteq> None then r
      else r\<lparr>ar_state := (ar_state r)\<lparr>ma_pending_updates := []\<rparr>,
             ar_discarded := ar_discarded r @ ma_pending_updates (ar_state r), ar_failures := 0\<rparr>)"
| "agg_step aggregate set_weights (PeerAdded p) r = r\<lparr>ar_state := add_peer p (ar_state r)\<rparr>"
| "agg_step aggregate set_weights (PeerRemoved p) r = r\<lparr>ar_state := remove_peer p (ar_state r)\<rparr>"

definition agg_start :: "model_aggregator \<Rightarrow> agg_run" where
  "agg_start s = \<lparr>ar_state = s, ar_in_flight = None, ar_admitted = [], ar_aggregated = [],
     ar_lost = [], ar_discarded = [], ar_failures = 0\<rparr>"










section \<open>A poisoned queue\<close>

text \<open>A running loop whose queue is long enough to be aggregated and holds an update that no strategy accepts.\<close>

definition poisoned :: "model_aggregator \<Rightarrow> bool" where
  "poisoned s \<longleftrightarrow> ma_running s \<and> \<not> ma_aggregating s \<and>
     ma_min_peers_before_aggregate s \<le> int (length (ma_pending_updates s)) \<and>
     list_ex (\<lambda>u. \<not> weights_valid (up_weights u)) (ma_pending_updates s)"



lemma receive_round: "ma_current_round (receive ms s) = ma_current_round s"
  using receive_frame by (simp add: same_setup_def)

lemma poisoned_cong:
  "ma_running t = ma_running s \<Longrightarrow> ma_aggregating t = ma_aggregating s \<Longrightarrow>
   ma_min_peers_before_aggregate t = ma_min_peers_before_aggregate s \<Longrightarrow>
   ma_pending_updates t = ma_pending_updates s \<Longrightarrow> poisoned t = poisoned s"
  by (simp add: poisoned_def)


lemma start_round_number: "ma_current_round (start_round env s) = ma_current_round s + 1"
  by (simp add: start_round_def receive_round)






section \<open>A successful aggregation\<close>



section \<open>Announcements\<close>

text \<open>An announcement made by \<open>create_discovery_announce\<close> carries its fields outside the payload the handler reads: it adds no peer.\<close>

lemma announced_peer_ignored:
  "handle_incoming_message t (create_discovery_announce now d h v p) s = s"
  by (simp add: handle_incoming_message_def create_discovery_announce_def create_message_def handle_discovery_announce_def)

text \<open>The own checkpoint never counts as recorded: once the first interval has passed, every round announces a checkpoint.\<close>

lemma checkpoint_step_local:
  "ct_last_local_checkpoint_round (ma_tracker (fst (checkpoint_step now loss acc s))) =
     ct_last_local_checkpoint_round (ma_tracker s)"
  by (simp add: checkpoint_step_def broadcast_checkpoint_def prune_old_checkpoints_def record_checkpoint_def Let_def)

lemma checkpoint_every_round:
  assumes "should_checkpoint (ma_current_round s) (ma_tracker s)"
    "ma_current_round s \<le> ma_current_round t" "ct_checkpoint_interval (ma_tracker t) = ct_checkpoint_interval (ma_tracker s)"
    "ct_last_local_checkpoint_round (ma_tracker t) = ct_last_local_checkpoint_round (ma_tracker s)"
  shows "\<exists>m. snd (checkpoint_step now loss acc t) = Some m"
  using assms by (simp add: checkpoint_step_def should_checkpoint_def broadcast_checkpoint_def Let_def)

section \<open>Examples\<close>






text \<open>A run in which \<open>c\<close> arrives while the update of \<open>a\<close> is being aggregated, and the same run cut off.\<close>

definition update_from :: "string \<Rightarrow> agg_event" where
  "update_from p = Deliver 100 (create_message p 100 (ModelUpdateMessage (sample_weights [3]) 1 None 0))"

definition sample_run :: "agg_event list \<Rightarrow> agg_run" where
  "sample_run evs = fold (agg_step (\<lambda>us. ok (aggregated us (up_weights (hd us)))) (\<lambda>old new. ok new)) evs
     (agg_start (model_aggregator_init ''n'' ''d'' ''h'' ''1.0.0'' 1 10 1024 32 (tracker_init 10 (1 / 2) (1 / 20) 3 50) 0
       (sample_weights [0])))"

definition busy_run :: "agg_event \<Rightarrow> agg_event list" where
  "busy_run final = [RunLoop True, update_from ''a'', BeginAggregation, update_from ''c'', final]"

lemmas sample_run_defs = sample_run_def busy_run_def update_from_def agg_start_def model_aggregator_init_def
  handle_incoming_message_def create_message_def validate_message_window handle_model_update_def
  begin_aggregation_def finish_aggregation_def abort_aggregation_def


lemma cancelled_batch_lost:
  "map up_peer_id (ar_lost (sample_run (busy_run AbortAggregation))) = [''a''] \<and>
   map up_peer_id (ma_pending_updates (ar_state (sample_run (busy_run AbortAggregation)))) = [''c'']"
  by (simp add: sample_run_defs)


end
