(* ===== verification/Topology_Selection.thy ===== *)
theory Topology_Selection
  imports Cyclon Model_Aggregator
begin

text \<open>
  Whom a node sends its model to: the compatibility of peers (\<open>topology/base.py\<close>), the random topology with its cache
  (\<open>topology/random.py\<close>), and the contract of a topology strategy with the fanout of the learning loop, interpreted for the random
  topology and for Cyclon. A set of peer ids is a list without repetitions; \<open>rng.sample\<close> is given by the positions it draws,
  which also stands for the order in which the set is listed. Version components are read as ASCII digits. The cache key, a text made of
  the context's fields, is their tuple.
\<close>

section \<open>Compatibility\<close>

definition is_digit :: "char \<Rightarrow> bool" where
  "is_digit c \<longleftrightarrow> 48 \<le> (of_char c :: nat) \<and> (of_char c :: nat) \<le> 57"

definition is_space :: "char \<Rightarrow> bool" where
  "is_space c \<longleftrightarrow> (of_char c :: nat) = 32 \<or> (9 \<le> (of_char c :: nat) \<and> (of_char c :: nat) \<le> 13) \<or>
     (28 \<le> (of_char c :: nat) \<and> (of_char c :: nat) \<le> 31)"

text \<open>\<open>int(text)\<close>: white space around, a sign, digits with single underscores between them.\<close>

fun int_digits :: "int \<Rightarrow> string \<Rightarrow> int option" where
  "int_digits acc [] = Some acc"
| "int_digits acc (c # cs) =
     (if is_digit c then int_digits (10 * acc + int (of_char c - 48)) cs
      else if c = CHR ''_'' \<and> cs \<noteq> [] \<and> is_digit (hd cs) then int_digits acc cs
      else None)"

definition int_unsigned :: "string \<Rightarrow> int option" where
  "int_unsigned cs = (if cs \<noteq> [] \<and> is_digit (hd cs) then int_digits 0 cs else None)"

definition strip :: "string \<Rightarrow> string" where
  "strip cs = rev (dropWhile is_space (rev (dropWhile is_space cs)))"

definition int_of_text :: "string \<Rightarrow> int option" where
  "int_of_text text =
     (case strip text of
        c # cs \<Rightarrow> if c = CHR ''-'' then map_option uminus (int_unsigned cs)
                 else if c = CHR ''+'' then int_unsigned cs else int_unsigned (c # cs)
      | [] \<Rightarrow> None)"

definition parse_major :: "string \<Rightarrow> int" where
  "parse_major ver = (case int_of_text (takeWhile (\<lambda>c. c \<noteq> CHR ''.'') ver) of None \<Rightarrow> 0 | Some n \<Rightarrow> n)"

definition is_version_compatible :: "string \<Rightarrow> string \<Rightarrow> bool" where
  "is_version_compatible local_version remote_version \<longleftrightarrow> parse_major local_version = parse_major remote_version"

definition compatible_peer :: "selection_context \<Rightarrow> tpeer \<Rightarrow> bool" where
  "compatible_peer ctx p =
     (case (sc_my_manifest_id ctx, tp_manifest_id p) of
        (Some m, Some m') \<Rightarrow> m' = m
      | _ \<Rightarrow> tp_domain p = sc_my_domain ctx \<and> tp_data_schema_hash p = sc_my_data_schema_hash ctx \<and>
          is_version_compatible (sc_my_model_version ctx) (tp_model_version p))"

definition get_compatible_peers :: "bool \<Rightarrow> selection_context \<Rightarrow> tpeer list" where
  "get_compatible_peers exclude_self ctx =
     filter (\<lambda>p. \<not> (exclude_self \<and> tp_peer_id p = sc_my_peer_id ctx) \<and> compatible_peer ctx p) (sc_known_peers ctx)"

text \<open>\<open>GossipProtocol.is_compatible\<close> of an announcement's fields.\<close>

definition is_compatible :: "string \<Rightarrow> string \<Rightarrow> string \<Rightarrow> string \<Rightarrow> string \<Rightarrow> string \<Rightarrow> bool" where
  "is_compatible domain data_schema_hash model_version my_domain my_schema my_version \<longleftrightarrow>
     domain = my_domain \<and> data_schema_hash = my_schema \<and> is_version_compatible my_version model_version"

text \<open>The base class's \<open>should_accept_connection\<close>, which compares the major versions as text.\<close>

definition base_version_compatible :: "string \<Rightarrow> string \<Rightarrow> bool" where
  "base_version_compatible my_version peer_version \<longleftrightarrow>
     takeWhile (\<lambda>c. c \<noteq> CHR ''.'') my_version = takeWhile (\<lambda>c. c \<noteq> CHR ''.'') peer_version"

definition base_should_accept_connection :: "selection_context \<Rightarrow> tpeer \<Rightarrow> bool" where
  "base_should_accept_connection ctx p =
     (case (sc_my_manifest_id ctx, tp_manifest_id p) of
        (Some m, Some m') \<Rightarrow> m' = m
      | _ \<Rightarrow> if tp_domain p \<noteq> sc_my_domain ctx then False
             else if tp_data_schema_hash p \<noteq> sc_my_data_schema_hash ctx then False
             else if \<not> base_version_compatible (sc_my_model_version ctx) (tp_model_version p) then False
             else True)"

section \<open>The random topology\<close>

type_synonym cache_key = "string \<times> string \<times> bytes option \<times> string \<times> nat"

record random_topology =
  rt_cache_duration :: real
  rt_last_cache_time :: real
  rt_cached_peer_ids :: "string list"
  rt_cache_key :: "cache_key option"

definition random_topology_init :: "real \<Rightarrow> random_topology" where
  "random_topology_init cache_duration =
     \<lparr>rt_cache_duration = cache_duration, rt_last_cache_time = 0, rt_cached_peer_ids = [], rt_cache_key = None\<rparr>"

definition cache_key_of :: "selection_context \<Rightarrow> cache_key" where
  "cache_key_of ctx = (sc_my_domain ctx, sc_my_data_schema_hash ctx, sc_my_manifest_id ctx, sc_my_model_version ctx,
     length (sc_known_peers ctx))"

definition is_cache_valid :: "real \<Rightarrow> cache_key \<Rightarrow> random_topology \<Rightarrow> bool" where
  "is_cache_valid current_time key rt \<longleftrightarrow>
     rt_cache_duration rt > 0 \<and> Some key = rt_cache_key rt \<and> current_time - rt_last_cache_time rt < rt_cache_duration rt"

definition update_cache :: "real \<Rightarrow> string list \<Rightarrow> cache_key \<Rightarrow> random_topology \<Rightarrow> random_topology" where
  "update_cache now peer_ids key rt =
     rt\<lparr>rt_cached_peer_ids := peer_ids, rt_cache_key := Some key, rt_last_cache_time := now\<rparr>"

text \<open>The clock is read once to test the cache and once to stamp it.\<close>

definition get_compatible_peer_ids ::
    "real \<Rightarrow> real \<Rightarrow> selection_context \<Rightarrow> random_topology \<Rightarrow> random_topology \<times> string list" where
  "get_compatible_peer_ids now now' ctx rt =
     (let key = cache_key_of ctx in
      if is_cache_valid now key rt then (rt, rt_cached_peer_ids rt)
      else let peer_ids = remdups (map tp_peer_id (get_compatible_peers True ctx))
           in (update_cache now' peer_ids key rt, peer_ids))"

definition random_select_targets ::
    "draw \<Rightarrow> real \<Rightarrow> real \<Rightarrow> selection_context \<Rightarrow> int \<Rightarrow> random_topology \<Rightarrow> random_topology \<times> string list result" where
  "random_select_targets draw now now' ctx wanted rt =
     (let (rt', ids) = get_compatible_peer_ids now now' ctx rt in
      if ids = [] then (rt', ok []) else (rt', py_sample draw ids (min wanted (int (length ids)))))"

definition random_should_accept_connection :: "selection_context \<Rightarrow> tpeer \<Rightarrow> bool" where
  "random_should_accept_connection ctx p =
     (case (sc_my_manifest_id ctx, tp_manifest_id p) of
        (Some m, Some m') \<Rightarrow> m' = m
      | _ \<Rightarrow> tp_domain p = sc_my_domain ctx \<and> tp_data_schema_hash p = sc_my_data_schema_hash ctx)"

section \<open>The contract of a topology\<close>

text \<open>The targets of successive rounds: the loop asks for the adaptive fanout of the compatible peers it knows.\<close>

fun select_rounds :: "(selection_context \<Rightarrow> int \<Rightarrow> 's \<Rightarrow> 's \<times> string list result) \<Rightarrow> selection_context list \<Rightarrow> 's \<Rightarrow>
    string list result list" where
  "select_rounds select [] s = []"
| "select_rounds select (ctx # ctxs) s =
     (let (s', r) = select ctx (select_fanout (int (length (get_compatible_peers True ctx)))) s
      in r # select_rounds select ctxs s')"

text \<open>The known peers of a context are the values of a dictionary by peer id.\<close>

definition context_wf :: "selection_context \<Rightarrow> bool" where
  "context_wf ctx \<longleftrightarrow> distinct (map tp_peer_id (sc_known_peers ctx))"

text \<open>A strategy with a well-formed state answers, when it does not raise, with at most as many distinct peers as it is asked for and stays
  well-formed. Its client is the loop, which asks for the adaptive fanout of each round.\<close>

locale topology_strategy =
  fixes select :: "selection_context \<Rightarrow> int \<Rightarrow> 's \<Rightarrow> 's \<times> string list result" and inv :: "'s \<Rightarrow> bool"
  assumes keeps: "inv s \<Longrightarrow> inv (fst (select ctx wanted s))"
    and targets: "inv s \<Longrightarrow> context_wf ctx \<Longrightarrow> 0 \<le> wanted \<Longrightarrow> snd (select ctx wanted s) = ok ids \<Longrightarrow>
      distinct ids \<and> int (length ids) \<le> wanted"
begin

lemma fanout_bounds: "0 \<le> select_fanout n" "select_fanout n \<le> 10"
  by (simp_all add: select_fanout_def)

lemma rounds_bounded:
  "inv s \<Longrightarrow> list_all context_wf ctxs \<Longrightarrow> ok ids \<in> set (select_rounds select ctxs s) \<Longrightarrow> distinct ids \<and> length ids \<le> 10"
proof (induction ctxs arbitrary: s)
  case (Cons ctx ctxs)
  let ?n = "select_fanout (int (length (get_compatible_peers True ctx)))"
  consider "snd (select ctx ?n s) = ok ids" | "ok ids \<in> set (select_rounds select ctxs (fst (select ctx ?n s)))"
    using Cons.prems(3) by (auto simp: case_prod_beta Let_def)
  then show ?case
  proof cases
    case 1
    then have "distinct ids \<and> int (length ids) \<le> ?n" using targets [OF Cons.prems(1) _ fanout_bounds(1) 1] Cons.prems(2) by simp
    then show ?thesis using fanout_bounds(2) [of "int (length (get_compatible_peers True ctx))"] by auto
  next
    case 2
    then show ?thesis using Cons.IH [OF keeps [OF Cons.prems(1)]] Cons.prems(2) by simp
  qed
qed simp

end

text \<open>A strategy that never raises.\<close>

locale total_topology = topology_strategy +
  assumes total: "inv s \<Longrightarrow> 0 \<le> wanted \<Longrightarrow> \<exists>ids. snd (select ctx wanted s) = ok ids"
begin

lemma rounds_total: "inv s \<Longrightarrow> r \<in> set (select_rounds select ctxs s) \<Longrightarrow> \<exists>ids. r = ok ids"
proof (induction ctxs arbitrary: s)
  case (Cons ctx ctxs)
  then show ?case
    using total [OF Cons.prems(1) fanout_bounds(1)] keeps [OF Cons.prems(1)] by (fastforce simp: case_prod_beta Let_def)
qed simp

end

text \<open>A strategy that selects among the compatible peers of the context, which leave the node itself out.\<close>

locale compatible_topology = topology_strategy +
  assumes compatible: "inv s \<Longrightarrow> 0 \<le> wanted \<Longrightarrow> snd (select ctx wanted s) = ok ids \<Longrightarrow>
    set ids \<subseteq> tp_peer_id ` set (get_compatible_peers True ctx)"
begin

lemma rounds_compatible:
  "inv s \<Longrightarrow> (ctx, ok ids) \<in> set (zip ctxs (select_rounds select ctxs s)) \<Longrightarrow>
     set ids \<subseteq> tp_peer_id ` set (get_compatible_peers True ctx)"
proof (induction ctxs arbitrary: s)
  case (Cons c ctxs)
  let ?r = "select c (select_fanout (int (length (get_compatible_peers True c)))) s"
  have "ctx = c \<and> snd ?r = ok ids \<or> (ctx, ok ids) \<in> set (zip ctxs (select_rounds select ctxs (fst ?r)))"
    using Cons.prems(2) by (auto simp: case_prod_beta Let_def)
  then show ?case
    using Cons.IH [OF keeps [OF Cons.prems(1)]] compatible [OF Cons.prems(1) fanout_bounds(1)] by blast
qed simp

end

lemma total_topologyI:
  assumes "\<And>s ctx wanted. Inv s \<Longrightarrow> Inv (fst (select ctx wanted s))"
    and targets: "\<And>s ctx wanted. Inv s \<Longrightarrow> 0 \<le> wanted \<Longrightarrow>
      \<exists>ids. snd (select ctx wanted s) = ok ids \<and> distinct ids \<and> int (length ids) \<le> wanted"
  shows "total_topology select Inv"
proof unfold_locales
  fix s ctx ids and wanted :: int
  assume "Inv s" "0 \<le> wanted" "snd (select ctx wanted s) = ok ids"
  then show "distinct ids \<and> int (length ids) \<le> wanted" using targets [of s wanted ctx] by auto
qed (use assms in blast)+

lemma py_sample_min: "0 \<le> wanted \<Longrightarrow> \<exists>ys. py_sample draw xs (min wanted (int (length xs))) = ok ys"
  by (simp add: py_sample_def min_def)

lemma py_sample_within:
  assumes "fair_draw draw" "0 \<le> wanted" "distinct xs"
  shows "\<exists>ys. py_sample draw xs (min wanted (int (length xs))) = ok ys \<and> distinct ys \<and> int (length ys) \<le> wanted \<and> set ys \<subseteq> set xs"
proof -
  obtain ys where ys: "py_sample draw xs (min wanted (int (length xs))) = ok ys"
    using py_sample_min [OF assms(2)] by blast
  show ?thesis
    using ys py_sample_ok [OF assms(1) ys] py_sample_ok(3) [OF assms(1) ys, of "\<lambda>x. x"] assms(3) by auto
qed

definition random_inv :: "random_topology \<Rightarrow> bool" where
  "random_inv rt \<longleftrightarrow> distinct (rt_cached_peer_ids rt)"

lemma compatible_ids_distinct:
  "random_inv rt \<Longrightarrow> random_inv (fst (get_compatible_peer_ids n n' ctx rt)) \<and> distinct (snd (get_compatible_peer_ids n n' ctx rt))"
  by (simp add: get_compatible_peer_ids_def random_inv_def update_cache_def Let_def)

lemma random_select_facts:
  assumes "fair_draw draw" "random_inv rt" "0 \<le> wanted"
  shows "\<exists>ids. snd (random_select_targets draw n n' ctx wanted rt) = ok ids \<and> distinct ids \<and> int (length ids) \<le> wanted \<and>
    set ids \<subseteq> set (snd (get_compatible_peer_ids n n' ctx rt))"
  using py_sample_within [OF assms(1,3), of "snd (get_compatible_peer_ids n n' ctx rt)"] compatible_ids_distinct [OF assms(2)] assms(3)
  by (auto simp: random_select_targets_def case_prod_beta Let_def)

lemma random_contract:
  assumes "fair_draw draw"
  shows "total_topology (random_select_targets draw n n') random_inv"
proof (rule total_topologyI)
  fix rt ctx and wanted :: int
  assume "random_inv rt"
  then show "random_inv (fst (random_select_targets draw n n' ctx wanted rt))"
    using compatible_ids_distinct [of rt n n' ctx] by (simp add: random_select_targets_def case_prod_beta)
qed (use random_select_facts [OF assms] in blast)

interpretation random_topology: total_topology "random_select_targets first_draw n n'" random_inv for n n'
  by (rule random_contract [OF first_draw_fair])

lemma cyclon_contract:
  assumes "fair_draw draw"
  shows "total_topology (select_targets draw) (cyclon_inv v k)"
proof -
  have "\<exists>ids. snd (select_targets draw ctx wanted cy) = ok ids \<and> distinct ids \<and> int (length ids) \<le> wanted"
    if cy: "cyclon_inv v k cy" and wanted: "0 \<le> wanted" for cy ctx wanted
  proof -
  let ?s = "cy_sampler (fst (select_targets draw ctx wanted cy))"
  have wf: "view_wf ?s"
    using select_targets_inv [OF cy] by (simp add: cyclon_inv_def sampler_inv_def)
  then have "map tp_peer_id (get_view ?s) = map fst (ps_view ?s)"
    by (auto simp: view_wf_def get_view_def list_all_iff)
  then have d: "distinct (map tp_peer_id (get_view ?s))"
    using wf by (simp add: view_wf_def)
  have sel: "snd (select_targets draw ctx wanted cy) =
      result_bind (select_random_peers draw wanted [] ?s) (\<lambda>selected. ok (map tp_peer_id selected))"
    by (simp add: select_targets_def Let_def)
  show "\<exists>ids. snd (select_targets draw ctx wanted cy) = ok ids \<and> distinct ids \<and> int (length ids) \<le> wanted"
  proof (cases "get_view ?s = []")
    case False
    obtain ys where ys: "py_sample draw (get_view ?s) (min wanted (int (length (get_view ?s)))) = ok ys"
      using py_sample_min [OF wanted] by blast
    show ?thesis
      using False ys py_sample_ok(2) [OF assms ys] py_sample_ok(3) [OF assms ys d]
      by (simp add: sel select_random_peers_def)
  qed (use wanted in \<open>simp add: sel select_random_peers_def\<close>)
  qed
  then show ?thesis using select_targets_inv by (intro total_topologyI) blast+
qed

interpretation cyclon_topology: total_topology "select_targets first_draw" "cyclon_inv v k" for v k
  by (rule cyclon_contract [OF first_draw_fair])

section \<open>Targets\<close>

text \<open>Over any sequence of rounds and contexts, and whatever a fair random source draws, each round of the random topology and of
  Cyclon selects its targets without an error, without repetitions, and never more than ten of them.\<close>

theorem targets_bounded:
  assumes "fair_draw draw" "list_all context_wf ctxs"
  shows "(\<forall>r\<in>set (select_rounds (random_select_targets draw n n') ctxs (random_topology_init d)).
      \<exists>ids. r = ok ids \<and> distinct ids \<and> length ids \<le> 10) \<and>
    (\<forall>r\<in>set (select_rounds (select_targets draw) ctxs (cyclon_init v k)).
      \<exists>ids. r = ok ids \<and> distinct ids \<and> length ids \<le> 10)"
proof -
  have bounded: "\<exists>ids. r = ok ids \<and> distinct ids \<and> length ids \<le> 10"
    if "total_topology select Inv" "Inv s" "r \<in> set (select_rounds select ctxs s)"
    for select and s :: 's and Inv r
    using total_topology.rounds_total [OF that] that(3)
      topology_strategy.rounds_bounded [OF total_topology.axioms(1) [OF that(1)] that(2) assms(2)] by blast
  have "random_inv (random_topology_init d)" by (simp add: random_inv_def random_topology_init_def)
  then show ?thesis using bounded [OF random_contract [OF assms(1)]] bounded [OF cyclon_contract [OF assms(1)] cyclon_init_inv]
    by (meson cyclon_init_inv)
qed

theorem targets_bounded_witness:
  "fair_draw first_draw \<and>
   list_all (\<lambda>r. \<exists>ids. r = ok ids \<and> distinct ids \<and> length ids \<le> 10)
     (select_rounds (random_select_targets first_draw 0 0) [sample_ctx] (random_topology_init 5))"
  using targets_bounded [OF first_draw_fair, of "[sample_ctx]" 0 0 5 4 2] first_draw_fair
  unfolding list_all_iff by (simp add: context_wf_def sample_ctx_def)

text \<open>What the random topology returns was compatible when the cache was filled, which is less than the cache duration ago.\<close>

lemma random_targets_compatible:
  assumes "fair_draw draw" "random_inv rt" "0 \<le> wanted" "\<not> is_cache_valid now (cache_key_of ctx) rt"
  shows "\<exists>ids. snd (random_select_targets draw now now' ctx wanted rt) = ok ids \<and>
    (\<forall>i\<in>set ids. \<exists>p\<in>set (sc_known_peers ctx). tp_peer_id p = i \<and> i \<noteq> sc_my_peer_id ctx \<and> compatible_peer ctx p)"
  using random_select_facts [OF assms(1-3), of now now' ctx] assms(4)
  by (fastforce simp: get_compatible_peer_ids_def get_compatible_peers_def Let_def)

text \<open>The cache key holds only the number of known peers: while it is valid, a change of the peers that keeps their number goes unseen.\<close>

lemma random_cache_stale:
  assumes "is_cache_valid now (cache_key_of ctx) rt" "length (sc_known_peers ctx') = length (sc_known_peers ctx)"
    "ctx' = ctx\<lparr>sc_known_peers := sc_known_peers ctx'\<rparr>"
  shows "get_compatible_peer_ids now now' ctx' rt = (rt, rt_cached_peer_ids rt)"
proof -
  have "cache_key_of ctx' = cache_key_of ctx"
    using assms(2) by (subst assms(3)) (simp add: cache_key_of_def)
  then show ?thesis
    using assms(1) by (simp add: get_compatible_peer_ids_def)
qed

text \<open>A version without a numeric major part counts as major version zero.\<close>

lemma unparsable_versions_compatible:
  "int_of_text (takeWhile (\<lambda>c. c \<noteq> CHR ''.'') a) = None \<Longrightarrow> int_of_text (takeWhile (\<lambda>c. c \<noteq> CHR ''.'') b) = None \<Longrightarrow>
     is_version_compatible a b"
  by (simp add: is_version_compatible_def parse_major_def)

end
