(* ===== verification/Graph_Topologies.thy ===== *)
theory Graph_Topologies
  imports Topology_Selection Quantization
begin

text \<open>
  The graph and reliability strategies (\<open>topology/graph.py\<close>): ring, random regular, small world, reliability and
  the hybrid of reliability and data affinity. They keep no state that matters to the selection (the state of
  the contract is \<open>unit\<close>). BLAKE2b is a parameter, as is what the random module draws.
\<close>

section \<open>Shared helpers\<close>

definition ring_order :: "selection_context \<Rightarrow> tpeer list \<Rightarrow> string list" where
  "ring_order ctx peers = sort (remdups (sc_my_peer_id ctx # map tp_peer_id peers))"

definition seed_or_0 :: "int option \<Rightarrow> int" where
  "seed_or_0 seed = (case seed of None \<Rightarrow> 0 | Some n \<Rightarrow> n)"

definition stable_score :: "(bytes \<Rightarrow> bytes) \<Rightarrow> int option \<Rightarrow> int \<Rightarrow> string \<Rightarrow> nat" where
  "stable_score blake seed round_number peer_id =
     be_nat (blake (encode (str_of_int (seed_or_0 seed) @ '':'' @ str_of_int round_number @ '':'' @ peer_id)))"

definition accepts_compatible :: "selection_context \<Rightarrow> tpeer \<Rightarrow> bool" where
  "accepts_compatible ctx p =
     (case (sc_my_manifest_id ctx, tp_manifest_id p) of
        (Some m, Some m') \<Rightarrow> m' = m
      | _ \<Rightarrow> tp_domain p = sc_my_domain ctx \<and> tp_data_schema_hash p = sc_my_data_schema_hash ctx \<and>
          is_version_compatible (sc_my_model_version ctx) (tp_model_version p))"

fun metadata_float :: "(string, meta_value) pydict \<Rightarrow> string list \<Rightarrow> real \<Rightarrow> real" where
  "metadata_float metadata [] fallback = fallback"
| "metadata_float metadata (key # keys) fallback = (case map_of metadata key of
      Some (MNum x) \<Rightarrow> x
    | _ \<Rightarrow> metadata_float metadata keys fallback)"

section \<open>Ring\<close>

text \<open>\<open>order.index(my_peer_id)\<close>.\<close>

definition index_of :: "string \<Rightarrow> string list \<Rightarrow> nat" where
  "index_of x xs = length (takeWhile (\<lambda>y. y \<noteq> x) xs)"

definition ring_candidates :: "string list \<Rightarrow> nat \<Rightarrow> string list" where
  "ring_candidates order own =
     concat (map (\<lambda>distance. map (\<lambda>direction. order ! nat ((int own + direction * int distance) mod int (length order))) [1, -1])
       [1..<length order])"

fun ring_loop :: "int \<Rightarrow> string list \<Rightarrow> string list \<Rightarrow> string list \<Rightarrow> string list" where
  "ring_loop wanted ids [] targets = targets"
| "ring_loop wanted ids (c # cs) targets =
     (if c \<in> set ids \<and> c \<notin> set targets then
        if wanted \<le> int (length (targets @ [c])) then targets @ [c] else ring_loop wanted ids cs (targets @ [c])
      else ring_loop wanted ids cs targets)"

definition ring_targets :: "selection_context \<Rightarrow> int \<Rightarrow> string list" where
  "ring_targets ctx wanted =
     (let peers = get_compatible_peers True ctx in
      if peers = [] \<or> wanted \<le> 0 then [] else
      let order = ring_order ctx peers; own = index_of (sc_my_peer_id ctx) order
      in ring_loop wanted (map tp_peer_id peers) (ring_candidates order own) [])"

definition ring_select_targets :: "selection_context \<Rightarrow> int \<Rightarrow> unit \<Rightarrow> unit \<times> string list result" where
  "ring_select_targets ctx wanted s = (s, ok (ring_targets ctx wanted))"

section \<open>Random regular\<close>

definition ranked_targets :: "(tpeer \<Rightarrow> ('b :: linorder)) \<Rightarrow> tpeer list \<Rightarrow> int \<Rightarrow> string list" where
  "ranked_targets key peers limit = map tp_peer_id (slice_to limit (sort_key key peers))"

definition random_regular_select_targets ::
  "(bytes \<Rightarrow> bytes) \<Rightarrow> int option \<Rightarrow> int option \<Rightarrow> selection_context \<Rightarrow> int \<Rightarrow> unit \<Rightarrow> unit \<times> string list result" where
  "random_regular_select_targets blake degree seed ctx wanted s =
     (let peers = get_compatible_peers True ctx in
      if peers = [] \<or> wanted \<le> 0 then (s, ok []) else
      let limit = (case degree of None \<Rightarrow> wanted | Some d \<Rightarrow> min wanted (max 0 d)) in
      if limit \<le> 0 then (s, ok [])
      else (s, ok (ranked_targets (\<lambda>p. (stable_score blake seed (sc_current_round ctx) (tp_peer_id p), tp_peer_id p)) peers limit)))"

section \<open>Small world\<close>

definition small_world_init :: "real \<Rightarrow> real" where
  "small_world_init local_ratio = min 1 (max 0 local_ratio)"

text \<open>\<open>round\<close> of a float rounds halves to even, as \<open>np_round\<close> does.\<close>

definition local_count :: "real \<Rightarrow> int \<Rightarrow> int" where
  "local_count local_ratio wanted = min wanted (max 1 (np_round (of_int wanted * local_ratio)))"

definition small_world_select_targets ::
  "draw \<Rightarrow> real \<Rightarrow> selection_context \<Rightarrow> int \<Rightarrow> unit \<Rightarrow> unit \<times> string list result" where
  "small_world_select_targets draw local_ratio ctx wanted s =
     (let peers = get_compatible_peers True ctx in
      if peers = [] \<or> wanted \<le> 0 then (s, ok []) else
      let ring = ring_targets ctx (local_count local_ratio wanted);
          remaining = filter (\<lambda>i. i \<notin> set ring) (map tp_peer_id peers);
          shortcut_count = min (wanted - int (length ring)) (int (length remaining))
      in (s, result_bind (if 0 < shortcut_count then py_sample draw remaining shortcut_count else ok [])
            (\<lambda>shortcuts. ok (slice_to wanted (ring @ shortcuts)))))"

section \<open>Reliability\<close>

record reliability_params =
  rp_success_weight :: real
  rp_latency_weight :: real
  rp_penalty_weight :: real
  rp_max_latency_ms :: real

definition reliability_init :: "real \<Rightarrow> real \<Rightarrow> real \<Rightarrow> real \<Rightarrow> reliability_params" where
  "reliability_init success_weight latency_weight penalty_weight max_latency_ms =
     \<lparr>rp_success_weight = success_weight, rp_latency_weight = latency_weight, rp_penalty_weight = penalty_weight,
      rp_max_latency_ms = max 1 max_latency_ms\<rparr>"

definition clamp01 :: "real \<Rightarrow> real" where
  "clamp01 x = min 1 (max 0 x)"

definition reliability_score :: "reliability_params \<Rightarrow> tpeer \<Rightarrow> real" where
  "reliability_score rp p =
     (let metadata = tp_metadata p;
          explicit = metadata_float metadata [''reliability_score'', ''reliability'', ''trust_score''] (-1) in
      if 0 \<le> explicit then clamp01 explicit else
      let success = metadata_float metadata [''transfer_success_rate'', ''success_rate'', ''chunk_success_rate''] (1 / 2);
          latency_ms = metadata_float metadata [''last_latency_ms'', ''latency_ms'', ''rtt_ms''] (rp_max_latency_ms rp);
          latency_score = 1 - clamp01 (latency_ms / rp_max_latency_ms rp);
          failures = metadata_float metadata [''failed_transfers'', ''timeouts'', ''stale_transfers'', ''nack_count''] 0;
          penalty = clamp01 (failures / 10)
      in clamp01 (rp_success_weight rp * clamp01 success + rp_latency_weight rp * latency_score - rp_penalty_weight rp * penalty))"

definition reliability_select_targets ::
  "reliability_params \<Rightarrow> selection_context \<Rightarrow> int \<Rightarrow> unit \<Rightarrow> unit \<times> string list result" where
  "reliability_select_targets rp ctx wanted s =
     (let peers = get_compatible_peers True ctx in
      if peers = [] \<or> wanted \<le> 0 then (s, ok [])
      else (s, ok (ranked_targets (\<lambda>p. (- reliability_score rp p, tp_peer_id p)) peers wanted)))"

section \<open>Hybrid\<close>

record hybrid_params = reliability_params +
  hp_affinity_weight :: real
  hp_reliability_weight :: real
  hp_min_affinity :: real
  hp_affinity_weights :: affinity_params

definition hybrid_init :: "reliability_params \<Rightarrow> real \<Rightarrow> real \<Rightarrow> real \<Rightarrow> affinity_params option \<Rightarrow> hybrid_params" where
  "hybrid_init rp affinity_weight reliability_weight min_affinity aw =
     (let total_w = affinity_weight + reliability_weight;
          (a, r, t) = (if total_w \<le> 0 then (0, 1, 1) else (affinity_weight, reliability_weight, total_w)) in
      reliability_params.extend rp \<lparr>hp_affinity_weight = a / t, hp_reliability_weight = r / t, hp_min_affinity = min_affinity,
        hp_affinity_weights = or_else aw affinity_params_init\<rparr>)"

definition hybrid_affinity :: "hybrid_params \<Rightarrow> selection_context \<Rightarrow> tpeer \<Rightarrow> real result" where
  "hybrid_affinity hp ctx p = (case (sc_my_fingerprint ctx, tp_data_fingerprint p) of
      (Some mine, Some theirs) \<Rightarrow> affinity_score mine theirs (hp_affinity_weights hp)
    | _ \<Rightarrow> ok (1 / 2))"

definition hybrid_score :: "hybrid_params \<Rightarrow> selection_context \<Rightarrow> tpeer \<Rightarrow> real result" where
  "hybrid_score hp ctx p = result_bind (hybrid_affinity hp ctx p) (\<lambda>affinity.
     if affinity < hp_min_affinity hp then ok (-1)
     else ok (hp_affinity_weight hp * affinity + hp_reliability_weight hp * reliability_score (reliability_params.truncate hp) p))"

definition hybrid_select_targets ::
  "hybrid_params \<Rightarrow> selection_context \<Rightarrow> int \<Rightarrow> unit \<Rightarrow> unit \<times> string list result" where
  "hybrid_select_targets hp ctx wanted s =
     (let peers = get_compatible_peers True ctx in
      if peers = [] \<or> wanted \<le> 0 then (s, ok [])
      else (s, result_bind (result_map (\<lambda>p. result_bind (hybrid_score hp ctx p) (\<lambda>x. ok (x, p))) peers) (\<lambda>scored.
        ok (slice_to wanted (map (\<lambda>(x, p). tp_peer_id p)
          (filter (\<lambda>(x, p). 0 \<le> x) (sort_key (\<lambda>(x, p). (- x, tp_peer_id p)) scored)))))))"

section \<open>The contracts\<close>

lemma compatible_ids: "context_wf ctx \<Longrightarrow> distinct (map tp_peer_id (get_compatible_peers b ctx))"
  by (simp add: context_wf_def get_compatible_peers_def distinct_map_filter)

lemma slice_to_nonneg: "0 \<le> k \<Longrightarrow> slice_to k xs = take (nat k) xs"
  by (simp add: slice_to_def)

text \<open>A strategy without state that always answers with a list.\<close>

lemma pure_topology:
  assumes select: "\<And>ctx wanted. select ctx wanted () = ((), answer ctx wanted)"
    and ids: "\<And>ctx wanted ids. answer ctx wanted = ok ids \<Longrightarrow> 0 \<le> wanted \<Longrightarrow>
      (context_wf ctx \<longrightarrow> distinct ids) \<and> int (length ids) \<le> wanted \<and> set ids \<subseteq> tp_peer_id ` set (get_compatible_peers True ctx)"
  shows "compatible_topology select (\<lambda>_. True)"
  by unfold_locales (use ids in \<open>auto simp: select\<close>)

lemma ring_loop_facts:
  "distinct targets \<Longrightarrow> set targets \<subseteq> set ids \<Longrightarrow> int (length targets) \<le> wanted \<Longrightarrow> 0 < wanted \<Longrightarrow>
   distinct (ring_loop wanted ids cs targets) \<and> set targets \<subseteq> set (ring_loop wanted ids cs targets) \<and>
   set (ring_loop wanted ids cs targets) \<subseteq> set ids \<and>
   (int (length targets) < wanted \<longrightarrow> int (length (ring_loop wanted ids cs targets)) \<le> wanted)"
proof (induction cs arbitrary: targets)
  case (Cons c cs)
  show ?case
  proof (cases "c \<in> set ids \<and> c \<notin> set targets \<and> int (length (targets @ [c])) < wanted")
    case True
    then show ?thesis using Cons.IH [of "targets @ [c]"] Cons.prems by auto
  next
    case False
    then show ?thesis using Cons.IH [of targets] Cons.prems by auto
  qed
qed auto

lemma ring_targets_facts:
  "0 \<le> wanted \<Longrightarrow> distinct (ring_targets ctx wanted) \<and> int (length (ring_targets ctx wanted)) \<le> wanted \<and>
     set (ring_targets ctx wanted) \<subseteq> tp_peer_id ` set (get_compatible_peers True ctx)"
  using ring_loop_facts [of "[]" "map tp_peer_id (get_compatible_peers True ctx)" wanted]
  by (auto simp: ring_targets_def Let_def)

interpretation ring: compatible_topology ring_select_targets "\<lambda>_. True"
  by (rule pure_topology [where answer = "\<lambda>ctx wanted. ok (ring_targets ctx wanted)"])
     (use ring_targets_facts in \<open>auto simp: ring_select_targets_def\<close>)

lemma ranked_targets_facts:
  assumes "0 \<le> limit"
  shows "int (length (ranked_targets key peers limit)) \<le> limit" "set (ranked_targets key peers limit) \<subseteq> tp_peer_id ` set peers"
    "distinct (map tp_peer_id peers) \<Longrightarrow> distinct (ranked_targets key peers limit)"
proof -
  have r: "ranked_targets key peers limit = take (nat limit) (map tp_peer_id (sort_key key peers))"
    using assms by (simp add: ranked_targets_def slice_to_nonneg take_map)
  show "int (length (ranked_targets key peers limit)) \<le> limit" unfolding r using assms by simp
  show "set (ranked_targets key peers limit) \<subseteq> tp_peer_id ` set peers"
    unfolding r using set_take_subset [of "nat limit" "map tp_peer_id (sort_key key peers)"] by simp
  have "mset (map tp_peer_id (sort_key key peers)) = mset (map tp_peer_id peers)" by simp
  then have "distinct (map tp_peer_id (sort_key key peers)) = distinct (map tp_peer_id peers)"
    by (rule mset_eq_imp_distinct_iff)
  then show "distinct (ranked_targets key peers limit)" if "distinct (map tp_peer_id peers)"
    unfolding r using that by simp
qed

definition ranked_answer :: "(int \<Rightarrow> int) \<Rightarrow> (selection_context \<Rightarrow> tpeer \<Rightarrow> ('b :: linorder)) \<Rightarrow> selection_context \<Rightarrow> int \<Rightarrow> string list" where
  "ranked_answer limit key ctx wanted = (let peers = get_compatible_peers True ctx in
     if peers = [] \<or> wanted \<le> 0 \<or> limit wanted \<le> 0 then [] else ranked_targets (key ctx) peers (limit wanted))"

lemma ranked_topology:
  assumes "\<And>ctx wanted. select ctx wanted () = ((), ok (ranked_answer limit key ctx wanted))" "\<And>wanted. limit wanted \<le> wanted"
  shows "compatible_topology select (\<lambda>_. True)"
proof (rule pure_topology [where answer = "\<lambda>ctx wanted. ok (ranked_answer limit key ctx wanted)"])
  fix ctx wanted ids
  assume a: "ok (ranked_answer limit key ctx wanted) = ok ids" "0 \<le> wanted"
  show "(context_wf ctx \<longrightarrow> distinct ids) \<and> int (length ids) \<le> wanted \<and> set ids \<subseteq> tp_peer_id ` set (get_compatible_peers True ctx)"
  proof (cases "ids = []")
    case False
    then have "ids = ranked_targets (key ctx) (get_compatible_peers True ctx) (limit wanted)" "0 \<le> limit wanted"
      using a(1) by (auto simp: ranked_answer_def Let_def split: if_splits)
    then show ?thesis
      using ranked_targets_facts [where limit = "limit wanted" and key = "key ctx" and peers = "get_compatible_peers True ctx"] compatible_ids assms(2) [of wanted] by fastforce
  qed (use a in simp)
qed (rule assms(1))

interpretation random_regular: compatible_topology "random_regular_select_targets blake degree seed" "\<lambda>_. True" for blake degree seed
  by (rule ranked_topology [where limit = "\<lambda>wanted. case degree of None \<Rightarrow> wanted | Some d \<Rightarrow> min wanted (max 0 d)"
        and key = "\<lambda>ctx p. (stable_score blake seed (sc_current_round ctx) (tp_peer_id p), tp_peer_id p)"])
     (auto simp: random_regular_select_targets_def ranked_answer_def Let_def split: option.splits)

interpretation reliability: compatible_topology "reliability_select_targets rp" "\<lambda>_. True" for rp
  by (rule ranked_topology [where limit = "\<lambda>wanted. wanted" and key = "\<lambda>ctx p. (- reliability_score rp p, tp_peer_id p)"])
     (auto simp: reliability_select_targets_def ranked_answer_def Let_def)

lemma small_world_contract:
  assumes "fair_draw draw"
  shows "compatible_topology (small_world_select_targets draw r) (\<lambda>_. True)"
proof (rule pure_topology [where answer = "\<lambda>ctx wanted. snd (small_world_select_targets draw r ctx wanted ())"])
  fix ctx wanted ids
  assume a: "snd (small_world_select_targets draw r ctx wanted ()) = ok ids" "0 \<le> wanted"
  let ?peers = "get_compatible_peers True ctx" and ?ring = "ring_targets ctx (local_count r wanted)"
  let ?rem = "filter (\<lambda>i. i \<notin> set ?ring) (map tp_peer_id ?peers)"
  show "(context_wf ctx \<longrightarrow> distinct ids) \<and> int (length ids) \<le> wanted \<and> set ids \<subseteq> tp_peer_id ` set ?peers"
  proof (cases "?peers = [] \<or> wanted \<le> 0")
    case True
    with a show ?thesis by (auto simp: small_world_select_targets_def Let_def)
  next
    case False
    have l: "0 \<le> local_count r wanted" "local_count r wanted \<le> wanted" using a(2) by (simp_all add: local_count_def)
    have ring: "distinct ?ring" "int (length ?ring) \<le> wanted" "set ?ring \<subseteq> tp_peer_id ` set ?peers"
      using ring_targets_facts [OF l(1), of ctx] l(2) by auto
    let ?k = "min (wanted - int (length ?ring)) (int (length ?rem))"
    from a False obtain extra where extra: "ids = slice_to wanted (?ring @ extra)"
      and "(if 0 < ?k then py_sample draw ?rem ?k else ok []) = ok extra"
      unfolding small_world_select_targets_def Let_def by (simp only: result_bind_eq_ok snd_conv if_False) blast
    then have e: "extra = [] \<or> py_sample draw ?rem ?k = ok extra" by (metis sum.inject(2))
    have sub: "set extra \<subseteq> set ?rem" and d: "context_wf ctx \<Longrightarrow> distinct extra"
      using e py_sample_ok(1) [OF assms, of ?rem ?k extra] py_sample_ok(3) [OF assms, of ?rem ?k extra "\<lambda>x. x"] compatible_ids by auto
    have ids: "ids = take (nat wanted) (?ring @ extra)" using extra a(2) by (simp add: slice_to_nonneg)
    have all: "set (?ring @ extra) \<subseteq> tp_peer_id ` set ?peers" "context_wf ctx \<Longrightarrow> distinct (?ring @ extra)"
      using ring sub d by auto
    have "set ids \<subseteq> set (?ring @ extra)" unfolding ids by (rule set_take_subset)
    moreover have "int (length ids) \<le> wanted" unfolding ids using a(2) by simp
    moreover have "context_wf ctx \<longrightarrow> distinct ids" unfolding ids using all(2) distinct_take by blast
    ultimately show ?thesis using all(1) by blast
  qed
qed (simp add: small_world_select_targets_def Let_def)

interpretation small_world: compatible_topology "small_world_select_targets first_draw r" "\<lambda>_. True" for r
  by (rule small_world_contract [OF first_draw_fair])

lemma result_map_scored:
  "result_map (\<lambda>p. result_bind (f p) (\<lambda>x. ok (x, p))) ps = ok xs \<Longrightarrow> map snd xs = ps"
  by (induction ps arbitrary: xs) (auto simp: result_bind_eq_ok)

interpretation hybrid: compatible_topology "hybrid_select_targets hp" "\<lambda>_. True" for hp
proof (rule pure_topology [where answer = "\<lambda>ctx wanted. snd (hybrid_select_targets hp ctx wanted ())"])
  fix ctx wanted ids
  assume a: "snd (hybrid_select_targets hp ctx wanted ()) = ok ids" "0 \<le> wanted"
  let ?peers = "get_compatible_peers True ctx"
  show "(context_wf ctx \<longrightarrow> distinct ids) \<and> int (length ids) \<le> wanted \<and> set ids \<subseteq> tp_peer_id ` set ?peers"
  proof (cases "ids = []")
    case False
    let ?key = "\<lambda>(x, p). (- x :: real, tp_peer_id p)"
    from a False obtain scored where s: "map snd scored = ?peers"
      and ids: "ids = slice_to wanted (map (\<lambda>(x, p). tp_peer_id p) (filter (\<lambda>(x, p). 0 \<le> x) (sort_key ?key scored)))"
      by (auto simp: hybrid_select_targets_def Let_def result_bind_eq_ok dest: result_map_scored split: if_splits)
    have f: "(\<lambda>(x, p). tp_peer_id p) = (\<lambda>q :: real \<times> tpeer. tp_peer_id (snd q))" by auto
    have "mset (map (tp_peer_id \<circ> snd) (sort_key ?key scored)) = mset (map tp_peer_id ?peers)"
      using s by (simp flip: s add: multiset.map_comp)
    then have "distinct (map (tp_peer_id \<circ> snd) (sort_key ?key scored)) = distinct (map tp_peer_id ?peers)"
      by (rule mset_eq_imp_distinct_iff)
    then have "context_wf ctx \<longrightarrow> distinct ids"
      using compatible_ids [of ctx True] a(2) by (simp add: ids slice_to_nonneg f comp_def distinct_map_filter)
    moreover have "set ids \<subseteq> tp_peer_id ` set ?peers"
      using a(2) s [symmetric] unfolding ids slice_to_nonneg [OF a(2)] by (force simp: f dest!: in_set_takeD)
    ultimately show ?thesis using a(2) by (simp add: ids slice_to_nonneg)
  qed (use a in simp)
qed (simp add: hybrid_select_targets_def Let_def)

section \<open>Dissemination over a ring\<close>

text \<open>One round of forwarding: everyone who has a model sends it to its targets.\<close>

definition spread :: "('n \<Rightarrow> 'n set) \<Rightarrow> 'n set \<Rightarrow> 'n set" where
  "spread targets R = R \<union> \<Union> (targets ` R)"

text \<open>Whenever everyone sends to its successor in a cyclic order, a model reaches all.\<close>

locale cyclic_forwarding =
  fixes order :: "'n list" and targets :: "'n \<Rightarrow> 'n set"
  assumes successor: "i < length order \<Longrightarrow> 2 \<le> length order \<Longrightarrow> order ! ((i + 1) mod length order) \<in> targets (order ! i)"
begin

lemma spread_mono: "R \<subseteq> spread targets R"
  by (auto simp: spread_def)

lemma spread_reaches:
  assumes "i < length order" "j \<le> k"
  shows "order ! ((i + j) mod length order) \<in> (spread targets ^^ k) {order ! i}"
  using assms(2)
proof (induction k arbitrary: j)
  case 0
  then show ?case using assms(1) by simp
next
  case (Suc k)
  show ?case
  proof (cases "j \<le> k")
    case True
    then show ?thesis using Suc.IH spread_mono by (metis funpow.simps(2) comp_apply subsetD)
  next
    case False
    then have j: "j = Suc k" using Suc.prems by simp
    let ?m = "(i + k) mod length order"
    have m: "?m < length order" using assms(1) by (metis gr_zeroI less_nat_zero_code mod_less_divisor)
    show ?thesis
    proof (cases "2 \<le> length order")
      case True
      have "order ! ((?m + 1) mod length order) \<in> targets (order ! ?m)" by (rule successor [OF m True])
      then show ?thesis using Suc.IH [of k] by (auto simp: j spread_def mod_Suc_eq)
    next
      case False
      then have "length order = 1" using assms(1) by linarith
      then have "order ! ((i + j) mod length order) = order ! ((i + k) mod length order)" by simp
      then show ?thesis using Suc.IH [of k] spread_mono by auto
    qed
  qed
qed

lemma everyone_reached:
  assumes "v \<in> set order"
  shows "set order \<subseteq> (spread targets ^^ (length order - 1)) {v}"
proof
  obtain i where i: "i < length order" "v = order ! i" using assms by (metis in_set_conv_nth)
  fix u assume "u \<in> set order"
  then obtain l where l: "l < length order" "u = order ! l" by (metis in_set_conv_nth)
  define j where "j = (l + length order - i) mod length order"
  have "j < length order" unfolding j_def using i(1) by (intro mod_less_divisor) linarith
  then have "j \<le> length order - 1" by linarith
  moreover have "(i + j) mod length order = l"
  proof -
    have "(i + j) mod length order = (i + (l + length order - i)) mod length order" unfolding j_def by (rule mod_add_right_eq)
    also have "i + (l + length order - i) = l + length order" using i(1) by simp
    finally show ?thesis using l(1) by simp
  qed
  ultimately show "u \<in> (spread targets ^^ (length order - 1)) {v}"
    using spread_reaches [OF i(1), of j "length order - 1"] i(2) l(2) by simp
qed

end

text \<open>A network in which every node knows all the others as compatible peers.\<close>

definition full_network :: "string set \<Rightarrow> (string \<Rightarrow> selection_context) \<Rightarrow> bool" where
  "full_network V ctx \<longleftrightarrow> finite V \<and> (\<forall>v \<in> V. sc_my_peer_id (ctx v) = v \<and>
     tp_peer_id ` set (get_compatible_peers True (ctx v)) = V - {v})"

lemma ring_loop_mono: "set targets \<subseteq> set (ring_loop wanted ids cs targets)"
proof (induction cs arbitrary: targets)
  case (Cons c cs)
  then show ?case using Cons.IH [of "targets @ [c]"] by auto
qed simp

lemma ring_order_full:
  assumes "full_network V ctx" "v \<in> V"
  shows "ring_order (ctx v) (get_compatible_peers True (ctx v)) = sorted_list_of_set V"
proof -
  have "set (sc_my_peer_id (ctx v) # map tp_peer_id (get_compatible_peers True (ctx v))) = V"
    using assms by (auto simp: full_network_def)
  then show ?thesis unfolding ring_order_def by (metis sorted_list_of_set_sort_remdups)
qed

lemma index_of_nth: "distinct xs \<Longrightarrow> i < length xs \<Longrightarrow> index_of (xs ! i) xs = i"
proof -
  assume d: "distinct xs" and i: "i < length xs"
  have "takeWhile (\<lambda>y. y \<noteq> xs ! i) xs = take i xs"
    by (rule takeWhile_eq_take_P_nth) (use d i in \<open>auto simp: nth_eq_iff_index_eq\<close>)
  then show ?thesis using i by (simp add: index_of_def)
qed

lemma ring_successor:
  assumes net: "full_network V ctx" and i: "i < card V" and n: "2 \<le> card V" and w: "0 < wanted"
  defines "O' \<equiv> sorted_list_of_set V"
  shows "O' ! ((i + 1) mod card V) \<in> set (ring_targets (ctx (O' ! i)) wanted)"
proof -
  have fin: "finite V" using net by (simp add: full_network_def)
  have l: "length O' = card V" "distinct O'" "set O' = V" using fin by (simp_all add: O'_def)
  let ?v = "O' ! i" and ?s = "O' ! ((i + 1) mod card V)"
  have v: "?v \<in> V" "?s \<in> V" using i l by (metis nth_mem, metis mod_less_divisor nth_mem not_less_zero gr_zeroI)
  have "(i + 1) mod card V \<noteq> i" using i n by (cases "i + 1 = card V") auto
  then have "?s \<noteq> ?v" using l i nth_eq_iff_index_eq [OF l(2), of "(i + 1) mod card V" i] by simp
  let ?peers = "get_compatible_peers True (ctx ?v)"
  have me: "sc_my_peer_id (ctx ?v) = ?v" "tp_peer_id ` set ?peers = V - {?v}"
    using net v(1) unfolding full_network_def by blast+
  then have ids: "?s \<in> set (map tp_peer_id ?peers)" using v(2) \<open>?s \<noteq> ?v\<close> by simp
  have own: "index_of (sc_my_peer_id (ctx ?v)) O' = i"
    unfolding me(1) by (rule index_of_nth [OF l(2)]) (use i l(1) in simp)
  have "[1..<length O'] = 1 # [2..<length O']" using n l(1) upt_conv_Cons [of 1 "length O'"] by (simp add: numeral_2_eq_2)
  moreover have "nat ((int i + 1) mod int (card V)) = (i + 1) mod card V"
    by (metis nat_int of_nat_1 of_nat_add zmod_int)
  ultimately obtain cs where cs: "ring_candidates O' i = ?s # cs" by (simp add: ring_candidates_def l(1))
  have "ring_targets (ctx ?v) wanted = ring_loop wanted (map tp_peer_id ?peers) (?s # cs) []"
  proof -
    have "?peers \<noteq> []" using ids by auto
    moreover have "ring_order (ctx ?v) ?peers = O'" using ring_order_full [OF net v(1)] by (simp add: O'_def)
    ultimately show ?thesis using w own cs by (simp add: ring_targets_def Let_def)
  qed
  then show ?thesis using ids ring_loop_mono [of "[?s]" wanted "map tp_peer_id ?peers" cs] by auto
qed

lemma ring_forwarding:
  assumes "full_network V ctx" "\<And>v. 0 < wanted v"
  shows "cyclic_forwarding (sorted_list_of_set V) (\<lambda>v. set (ring_targets (ctx v) (wanted v)))"
proof unfold_locales
  fix i assume "i < length (sorted_list_of_set V)" "2 \<le> length (sorted_list_of_set V)"
  then show "sorted_list_of_set V ! ((i + 1) mod length (sorted_list_of_set V))
      \<in> set (ring_targets (ctx (sorted_list_of_set V ! i)) (wanted (sorted_list_of_set V ! i)))"
    using ring_successor [OF assms(1) _ _ assms(2)] by simp
qed

text \<open>The contexts of the nodes \<open>V\<close> of one domain that all know each other.\<close>

definition ring_peer :: "string \<Rightarrow> tpeer" where
  "ring_peer name = sample_tpeer name 0"

definition ring_context :: "string set \<Rightarrow> string \<Rightarrow> selection_context" where
  "ring_context V v = sample_ctx\<lparr>sc_my_peer_id := v, sc_known_peers := map ring_peer (sorted_list_of_set V)\<rparr>"

lemma ring_context_peers:
  "get_compatible_peers True (ring_context V v) = map ring_peer (filter (\<lambda>x. x \<noteq> v) (sorted_list_of_set V))"
  by (auto simp: get_compatible_peers_def ring_context_def ring_peer_def sample_tpeer_def sample_ctx_def filter_map comp_def
      compatible_peer_def is_version_compatible_def intro!: filter_cong)

lemma ring_context_full: "finite V \<Longrightarrow> full_network V (ring_context V)"
  unfolding full_network_def ring_context_peers
  by (auto simp: ring_context_def ring_peer_def sample_tpeer_def image_image)

interpretation ring_of: cyclic_forwarding "sorted_list_of_set (set vs)" "\<lambda>v. set (ring_targets (ring_context (set vs) v) 1)" for vs
  by (rule ring_forwarding [OF ring_context_full]) simp_all

lemma small_world_forwarding:
  assumes "full_network V ctx" "\<And>v. 0 < wanted v" "fair_draw draw"
  shows "cyclic_forwarding (sorted_list_of_set V)
    (\<lambda>v. case snd (small_world_select_targets draw r (ctx v) (wanted v) ()) of Inr ids \<Rightarrow> set ids | Inl _ \<Rightarrow> {})"
proof unfold_locales
  fix i assume i: "i < length (sorted_list_of_set V)" "2 \<le> length (sorted_list_of_set V)"
  let ?v = "sorted_list_of_set V ! i" and ?s = "sorted_list_of_set V ! ((i + 1) mod length (sorted_list_of_set V))"
  let ?ring = "ring_targets (ctx ?v) (local_count r (wanted ?v))" and ?peers = "get_compatible_peers True (ctx ?v)"
  let ?rem = "filter (\<lambda>i. i \<notin> set ?ring) (map tp_peer_id ?peers)"
  let ?k = "min (wanted ?v - int (length ?ring)) (int (length ?rem))"
  have l: "0 < local_count r (wanted ?v)" "local_count r (wanted ?v) \<le> wanted ?v" using assms(2) by (simp_all add: local_count_def)
  have s: "?s \<in> set ?ring" using ring_successor [OF assms(1) _ _ l(1)] i by simp
  then have p: "?peers \<noteq> []" "int (length ?ring) \<le> wanted ?v" using ring_targets_facts [of "local_count r (wanted ?v)" "ctx ?v"] l by auto
  have "\<exists>extra. (if 0 < ?k then py_sample draw ?rem ?k else ok []) = ok extra" by (simp add: py_sample_def)
  then obtain extra where "(if 0 < ?k then py_sample draw ?rem ?k else ok []) = ok extra" by blast
  then have "snd (small_world_select_targets draw r (ctx ?v) (wanted ?v) ()) = ok (slice_to (wanted ?v) (?ring @ extra))"
    using p(1) assms(2) [of ?v] unfolding small_world_select_targets_def Let_def by (simp only: result_bind.simps snd_conv if_False) simp
  moreover have "set ?ring \<subseteq> set (slice_to (wanted ?v) (?ring @ extra))" using p(2) assms(2) [of ?v] by (simp add: slice_to_nonneg less_imp_le)
  ultimately show "?s \<in> (case snd (small_world_select_targets draw r (ctx ?v) (wanted ?v) ()) of Inr ids \<Rightarrow> set ids | Inl _ \<Rightarrow> {})"
    using s by auto
qed

text \<open>C16: A model reaches every node. In a network whose nodes know each other, with the ring topology or the small-world
  topology, any positive fanouts and whatever is drawn for the shortcuts, a model that every node forwards to its targets has
  reached all the nodes after one round less than there are nodes, from whichever node it starts.\<close>

theorem ring_disseminates:
  assumes "full_network V ctx" "v \<in> V" "\<And>u. 0 < wanted u" "fair_draw draw"
  shows "V \<subseteq> (spread (\<lambda>u. set (ring_targets (ctx u) (wanted u))) ^^ (card V - 1)) {v} \<and>
    V \<subseteq> (spread (\<lambda>u. case snd (small_world_select_targets draw r (ctx u) (wanted u) ()) of Inr ids \<Rightarrow> set ids | Inl _ \<Rightarrow> {})
      ^^ (card V - 1)) {v}"
proof -
  have fin: "finite V" using assms(1) by (simp add: full_network_def)
  then have v: "v \<in> set (sorted_list_of_set V)" using assms(2) by simp
  show ?thesis
    using cyclic_forwarding.everyone_reached [OF ring_forwarding [OF assms(1,3)] v]
      cyclic_forwarding.everyone_reached [OF small_world_forwarding [OF assms(1,3,4)] v] fin by simp
qed

theorem ring_disseminates_witness:
  "{''a'', ''b''} \<subseteq> (spread (\<lambda>u. set (ring_targets (ring_context {''a'', ''b''} u) 1)) ^^ (card {''a'', ''b''} - 1)) {''a''} \<and>
    {''a'', ''b''} \<subseteq> (spread (\<lambda>u. case snd (small_world_select_targets first_draw (1/2) (ring_context {''a'', ''b''} u) 1 ())
      of Inr ids \<Rightarrow> set ids | Inl _ \<Rightarrow> {}) ^^ (card {''a'', ''b''} - 1)) {''a''}"
  by (rule ring_disseminates [OF ring_context_full]) (simp_all add: first_draw_fair)

end
