(* ===== verification/Affinity_Topology.thy ===== *)
theory Affinity_Topology
  imports Graph_Topologies
begin

text \<open>
  The affinity topology (\<open>topology/affinity.py\<close>): edges to peers with an affinity and a smoothed weight, the
  history of edges with eviction, and the selection that exploits similar peers and explores the others. The
  time stamp of an edge, which nothing reads, is left out; the affinities are those of \<open>Fingerprint\<close>.
\<close>

section \<open>Edges\<close>

record edge =
  ce_peer_id :: string
  ce_affinity :: real
  ce_weight :: real
  ce_rounds_since_update :: int
  ce_successful_rounds :: int
  ce_total_rounds :: int

definition edge_init :: "string \<Rightarrow> edge" where
  "edge_init peer_id = \<lparr>ce_peer_id = peer_id, ce_affinity = 0, ce_weight = 1 / 2, ce_rounds_since_update = 0,
     ce_successful_rounds = 0, ce_total_rounds = 0\<rparr>"

definition success_rate :: "edge \<Rightarrow> real" where
  "success_rate e = (if ce_total_rounds e = 0 then 0 else of_int (ce_successful_rounds e) / of_int (ce_total_rounds e))"

definition update_affinity :: "real \<Rightarrow> real \<Rightarrow> edge \<Rightarrow> edge" where
  "update_affinity new_affinity ema_alpha e =
     e\<lparr>ce_affinity := new_affinity, ce_weight := (1 - ema_alpha) * ce_weight e + ema_alpha * new_affinity,
       ce_rounds_since_update := 0\<rparr>"

definition edge_decay :: "real \<Rightarrow> edge \<Rightarrow> edge" where
  "edge_decay decay_factor e =
     e\<lparr>ce_rounds_since_update := ce_rounds_since_update e + 1, ce_weight := ce_weight e * decay_factor\<rparr>"

definition record_collaboration :: "bool \<Rightarrow> edge \<Rightarrow> edge" where
  "record_collaboration success e =
     e\<lparr>ce_total_rounds := ce_total_rounds e + 1,
       ce_successful_rounds := (if success then ce_successful_rounds e + 1 else ce_successful_rounds e)\<rparr>"

section \<open>The history of edges\<close>

record history =
  ch_history :: "(string, edge) pydict"
  ch_max_peers :: int

definition history_init :: "int \<Rightarrow> history" where
  "history_init max_peers = \<lparr>ch_history = [], ch_max_peers = max_peers\<rparr>"

definition get_edge :: "string \<Rightarrow> history \<Rightarrow> edge option" where
  "get_edge peer_id h = map_of (ch_history h) peer_id"

text \<open>\<open>min\<close> returns the first of the weakest items.\<close>

definition evict_weakest :: "history \<Rightarrow> history" where
  "evict_weakest h = (case sort_key (\<lambda>(pid, e). ce_weight e) (ch_history h) of
      [] \<Rightarrow> h
    | (pid, e) # _ \<Rightarrow> h\<lparr>ch_history := AList.delete pid (ch_history h)\<rparr>)"

text \<open>The edge the caller goes on to change is the one stored under the peer.\<close>

definition get_or_create_edge :: "string \<Rightarrow> history \<Rightarrow> history \<times> edge" where
  "get_or_create_edge peer_id h = (case map_of (ch_history h) peer_id of
      Some e \<Rightarrow> (h, e)
    | None \<Rightarrow>
        let h' = (if ch_max_peers h \<le> int (length (ch_history h)) then evict_weakest h else h); e = edge_init peer_id
        in (h'\<lparr>ch_history := AList.update peer_id e (ch_history h')\<rparr>, e))"

definition store_edge :: "string \<Rightarrow> (edge \<Rightarrow> edge) \<Rightarrow> history \<Rightarrow> history" where
  "store_edge peer_id f h =
     (let (h', e) = get_or_create_edge peer_id h in h'\<lparr>ch_history := AList.update peer_id (f e) (ch_history h')\<rparr>)"

definition get_history_score :: "string \<Rightarrow> history \<Rightarrow> real" where
  "get_history_score peer_id h = (case map_of (ch_history h) peer_id of
      None \<Rightarrow> 0
    | Some e \<Rightarrow> if ce_total_rounds e < 3 then 0 else success_rate e)"

definition update_peer :: "string \<Rightarrow> real \<Rightarrow> real \<Rightarrow> history \<Rightarrow> history" where
  "update_peer peer_id new_affinity ema_alpha h = store_edge peer_id (update_affinity new_affinity ema_alpha) h"

definition record_collaboration_result :: "string \<Rightarrow> bool \<Rightarrow> history \<Rightarrow> history" where
  "record_collaboration_result peer_id success h = store_edge peer_id (record_collaboration success) h"

definition decay_all :: "real \<Rightarrow> history \<Rightarrow> history" where
  "decay_all decay_factor h = h\<lparr>ch_history := map (\<lambda>(pid, e). (pid, edge_decay decay_factor e)) (ch_history h)\<rparr>"

definition evict_dead_edges :: "real \<Rightarrow> history \<Rightarrow> history" where
  "evict_dead_edges min_weight h = h\<lparr>ch_history := filter (\<lambda>(pid, e). \<not> ce_weight e < min_weight) (ch_history h)\<rparr>"

definition get_top_peers :: "int \<Rightarrow> history \<Rightarrow> (string \<times> real) list" where
  "get_top_peers n h =
     map (\<lambda>(pid, e). (pid, ce_weight e)) (slice_to n (sort_key (\<lambda>(pid, e). - ce_weight e) (ch_history h)))"

text \<open>The persisted form of an edge, and of the history; on loading every entry may be missing.\<close>

record edge_state =
  es_weight :: real
  es_rounds_since_update :: int
  es_total_rounds :: int
  es_successful_rounds :: int

record history_state =
  hs_history :: "(string, edge_state) pydict option"
  hs_max_peers :: "int option"

definition history_state_dict :: "history \<Rightarrow> history_state" where
  "history_state_dict h =
     \<lparr>hs_history = Some (map (\<lambda>(pid, e). (pid, \<lparr>es_weight = ce_weight e, es_rounds_since_update = ce_rounds_since_update e,
        es_total_rounds = ce_total_rounds e, es_successful_rounds = ce_successful_rounds e\<rparr>)) (ch_history h)),
      hs_max_peers = Some (ch_max_peers h)\<rparr>"

text \<open>\<open>CollaborationEdge()\<close> lacks its required argument: the first entry raises, after the history was emptied.\<close>

definition history_load_state_dict :: "history_state \<Rightarrow> history \<Rightarrow> history \<times> unit result" where
  "history_load_state_dict s h =
     (let h' = h\<lparr>ch_history := []\<rparr> in
      case or_else (hs_history s) [] of
        [] \<Rightarrow> (h'\<lparr>ch_max_peers := or_else (hs_max_peers s) 100\<rparr>, ok ())
      | _ # _ \<Rightarrow> (h', raise TypeError))"

section \<open>The topology\<close>

record affinity_topology =
  at_min_affinity :: real
  at_exploration_ratio :: real
  at_exploration_initial :: real
  at_exploration_decay :: real
  at_exploration_min :: real
  at_ema_alpha :: real
  at_edge_decay_factor :: real
  at_eviction_min_weight :: real
  at_cold_start_rounds :: int
  at_affinity_weights :: affinity_params
  at_history :: history
  at_round_count :: int

definition affinity_topology_init ::
    "real \<Rightarrow> real \<Rightarrow> real \<Rightarrow> real \<Rightarrow> real \<Rightarrow> real \<Rightarrow> real \<Rightarrow> int \<Rightarrow> affinity_params option \<Rightarrow> affinity_topology" where
  "affinity_topology_init min_affinity exploration_initial exploration_decay exploration_min ema_alpha edge_decay_factor
      eviction_min_weight cold_start_rounds affinity_weights =
     \<lparr>at_min_affinity = min_affinity, at_exploration_ratio = exploration_initial, at_exploration_initial = exploration_initial,
      at_exploration_decay = exploration_decay, at_exploration_min = exploration_min, at_ema_alpha = ema_alpha,
      at_edge_decay_factor = edge_decay_factor, at_eviction_min_weight = eviction_min_weight,
      at_cold_start_rounds = cold_start_rounds, at_affinity_weights = or_else affinity_weights affinity_params_init,
      at_history = history_init 100, at_round_count = 0\<rparr>"

definition affinity_topology_default :: affinity_topology where
  "affinity_topology_default = affinity_topology_init (3 / 10) (8 / 10) (95 / 100) (1 / 10) (2 / 10) (95 / 100) (5 / 100) 3 None"

datatype phase = Blind | Learning | Exploiting

definition cold_start_phase :: "affinity_topology \<Rightarrow> phase" where
  "cold_start_phase t =
     (if at_round_count t \<le> at_cold_start_rounds t then Blind
      else if at_round_count t \<le> at_cold_start_rounds t * 3 then Learning
      else Exploiting)"

record affinity_state =
  as_round_count :: "int option"
  as_exploration_ratio :: "real option"
  as_history :: "history_state option"

definition affinity_state_dict :: "affinity_topology \<Rightarrow> affinity_state" where
  "affinity_state_dict t = \<lparr>as_round_count = Some (at_round_count t), as_exploration_ratio = Some (at_exploration_ratio t),
     as_history = Some (history_state_dict (at_history t))\<rparr>"

definition affinity_load_state_dict :: "affinity_state \<Rightarrow> affinity_topology \<Rightarrow> affinity_topology \<times> unit result" where
  "affinity_load_state_dict s t =
     (let (h, r) = history_load_state_dict (or_else (as_history s) \<lparr>hs_history = None, hs_max_peers = None\<rparr>) (at_history t)
      in (t\<lparr>at_round_count := or_else (as_round_count s) 0,
           at_exploration_ratio := or_else (as_exploration_ratio s) (at_exploration_initial t), at_history := h\<rparr>, r))"

text \<open>The peers with a fingerprint and their affinity, and those without one.\<close>

definition score_peer :: "affinity_topology \<Rightarrow> fingerprint \<Rightarrow> string \<Rightarrow> fingerprint \<Rightarrow> real result" where
  "score_peer t my_fp peer_id fp =
     affinity_score my_fp fp ((at_affinity_weights t)\<lparr>aw_external_history_score := get_history_score peer_id (at_history t)\<rparr>)"

fun score_peers :: "affinity_topology \<Rightarrow> fingerprint \<Rightarrow> tpeer list \<Rightarrow> ((string \<times> real) list \<times> string list) result" where
  "score_peers t my_fp [] = ok ([], [])"
| "score_peers t my_fp (p # ps) = (case tp_data_fingerprint p of
      None \<Rightarrow> result_bind (score_peers t my_fp ps) (\<lambda>(scored, unscored). ok (scored, tp_peer_id p # unscored))
    | Some fp \<Rightarrow> result_bind (score_peer t my_fp (tp_peer_id p) fp) (\<lambda>aff.
        result_bind (score_peers t my_fp ps) (\<lambda>(scored, unscored). ok ((tp_peer_id p, aff) # scored, unscored))))"

definition by_affinity :: "(string \<times> real) list \<Rightarrow> (string \<times> real) list" where
  "by_affinity scored = sort_key (\<lambda>(pid, aff). - aff) scored"

definition n_exploit :: "affinity_topology \<Rightarrow> int \<Rightarrow> int" where
  "n_exploit t wanted = max 1 (py_int (of_int wanted * (1 - at_exploration_ratio t)))"

definition exploit_targets :: "affinity_topology \<Rightarrow> int \<Rightarrow> (string \<times> real) list \<Rightarrow> string list" where
  "exploit_targets t wanted scored =
     map fst (slice_to (n_exploit t wanted) (filter (\<lambda>(pid, aff). at_min_affinity t \<le> aff) scored))"

definition explore_pool :: "affinity_topology \<Rightarrow> string list \<Rightarrow> (string \<times> real) list \<Rightarrow> string list \<Rightarrow> string list" where
  "explore_pool t targets scored unscored =
     filter (\<lambda>pid. pid \<notin> set targets) unscored
     @ map fst (filter (\<lambda>(pid, aff). aff < at_min_affinity t \<and> pid \<notin> set targets) scored)"

definition explore_targets :: "draw \<Rightarrow> affinity_topology \<Rightarrow> int \<Rightarrow> string list \<Rightarrow> string list result" where
  "explore_targets draw t wanted pool =
     (let n_explore = wanted - n_exploit t wanted in
      if pool \<noteq> [] \<and> 0 < n_explore then py_sample draw pool (min n_explore (int (length pool))) else ok [])"

definition after_selection :: "int \<Rightarrow> (string \<times> real) list \<Rightarrow> affinity_topology \<Rightarrow> affinity_topology" where
  "after_selection current_round scored t =
     t\<lparr>at_round_count := (if 0 < current_round then current_round else at_round_count t + 1),
       at_exploration_ratio := max (at_exploration_min t) (at_exploration_ratio t * at_exploration_decay t),
       at_history := evict_dead_edges (at_eviction_min_weight t) (decay_all (at_edge_decay_factor t)
         (fold (\<lambda>(pid, aff). update_peer pid aff (at_ema_alpha t)) scored (at_history t)))\<rparr>"

definition affinity_select_targets ::
    "draw \<Rightarrow> selection_context \<Rightarrow> int \<Rightarrow> affinity_topology \<Rightarrow> affinity_topology \<times> string list result" where
  "affinity_select_targets draw ctx wanted t =
     (let compatible = get_compatible_peers True ctx in
      if compatible = [] then (t, ok []) else
      case sc_my_fingerprint ctx of
        None \<Rightarrow> (t, result_bind (py_sample draw compatible (min wanted (int (length compatible)))) (\<lambda>sel. ok (map tp_peer_id sel)))
      | Some my_fp \<Rightarrow> (case score_peers t my_fp compatible of
            Inl e \<Rightarrow> (t, Inl e)
          | Inr (unsorted, unscored) \<Rightarrow>
              let scored = by_affinity unsorted; exploit = exploit_targets t wanted scored in
              case explore_targets draw t wanted (explore_pool t exploit scored unscored) of
                Inl e \<Rightarrow> (t, Inl e)
              | Inr explore \<Rightarrow> (after_selection (sc_current_round ctx) scored t, ok (slice_to wanted (exploit @ explore)))))"

definition affinity_should_accept_connection :: "selection_context \<Rightarrow> tpeer \<Rightarrow> bool" where
  "affinity_should_accept_connection ctx p =
     (case (sc_my_manifest_id ctx, tp_manifest_id p) of
        (Some m, Some m') \<Rightarrow> m' = m
      | _ \<Rightarrow> if tp_domain p \<noteq> sc_my_domain ctx then False
             else if tp_data_schema_hash p \<noteq> sc_my_data_schema_hash ctx then False
             else if \<not> is_version_compatible (sc_my_model_version ctx) (tp_model_version p) then False
             else True)"

definition record_round_result :: "string \<Rightarrow> bool \<Rightarrow> affinity_topology \<Rightarrow> affinity_topology" where
  "record_round_result peer_id success t = t\<lparr>at_history := record_collaboration_result peer_id success (at_history t)\<rparr>"

record graph_summary =
  gs_round :: int
  gs_phase :: phase
  gs_exploration_ratio :: real
  gs_active_edges :: nat
  gs_top_peers :: "(string \<times> real) list"

definition get_collaboration_graph_summary :: "affinity_topology \<Rightarrow> graph_summary" where
  "get_collaboration_graph_summary t =
     \<lparr>gs_round = at_round_count t, gs_phase = cold_start_phase t, gs_exploration_ratio = at_exploration_ratio t,
      gs_active_edges = length (ch_history (at_history t)), gs_top_peers = get_top_peers 20 (at_history t)\<rparr>"

section \<open>The history stays within its bounds\<close>

definition edge_wf :: "string \<times> edge \<Rightarrow> bool" where
  "edge_wf = (\<lambda>(pid, e). ce_peer_id e = pid \<and> 0 \<le> ce_weight e \<and> ce_weight e \<le> 1 \<and>
     0 \<le> ce_successful_rounds e \<and> ce_successful_rounds e \<le> ce_total_rounds e)"

definition history_wf :: "history \<Rightarrow> bool" where
  "history_wf h \<longleftrightarrow> dict_wf (ch_history h) \<and> list_all edge_wf (ch_history h) \<and> 1 \<le> ch_max_peers h \<and>
     int (length (ch_history h)) \<le> ch_max_peers h"

lemma evict_weakest_facts:
  "ch_max_peers (evict_weakest h) = ch_max_peers h"
  "dict_wf (ch_history h) \<Longrightarrow> dict_wf (ch_history (evict_weakest h))"
  "set (ch_history (evict_weakest h)) \<subseteq> set (ch_history h)"
  "dict_wf (ch_history h) \<Longrightarrow> ch_history h \<noteq> [] \<Longrightarrow> Suc (length (ch_history (evict_weakest h))) = length (ch_history h)"
proof -
  let ?sorted = "sort_key (\<lambda>(pid, e). ce_weight e) (ch_history h)"
  have s: "set ?sorted = set (ch_history h)" by simp
  show "ch_max_peers (evict_weakest h) = ch_max_peers h" by (simp add: evict_weakest_def split: list.split)
  show "dict_wf (ch_history (evict_weakest h))" if "dict_wf (ch_history h)"
    using that by (auto simp: evict_weakest_def AList.distinct_delete split: list.split)
  show "set (ch_history (evict_weakest h)) \<subseteq> set (ch_history h)"
    by (cases ?sorted) (auto simp: evict_weakest_def dest: subsetD [OF set_delete_subset])
  assume d: "dict_wf (ch_history h)" and ne: "ch_history h \<noteq> []"
  then obtain pid e rest where sorted: "?sorted = (pid, e) # rest"
    by (metis length_0_conv length_sort list.exhaust prod.exhaust)
  then have "(pid, e) \<in> set (ch_history h)" using s by (metis list.set_intros(1))
  then have "map_of (ch_history h) pid \<noteq> None" by (metis fst_conv image_eqI map_of_eq_None_iff)
  then show "Suc (length (ch_history (evict_weakest h))) = length (ch_history h)"
    using length_delete [OF d] by (simp add: evict_weakest_def sorted)
qed

lemma list_all_edge_update:
  "list_all edge_wf d \<Longrightarrow> edge_wf (pid, e) \<Longrightarrow> list_all edge_wf (AList.update pid e d)"
  using set_update_subset [of pid e d] by (auto simp: list_all_iff)

lemma get_or_create_edge_wf:
  assumes "history_wf h"
  shows "history_wf (fst (get_or_create_edge pid h))"
    and "map_of (ch_history (fst (get_or_create_edge pid h))) pid = Some (snd (get_or_create_edge pid h))"
    and "edge_wf (pid, snd (get_or_create_edge pid h))"
proof -
  let ?g = "get_or_create_edge pid h"
  have "history_wf (fst ?g) \<and> map_of (ch_history (fst ?g)) pid = Some (snd ?g) \<and> edge_wf (pid, snd ?g)"
  proof (cases "map_of (ch_history h) pid")
    case (Some e)
    then show ?thesis using assms by (auto simp: get_or_create_edge_def history_wf_def list_all_iff dest: map_of_SomeD)
  next
    case None
    let ?h = "if ch_max_peers h \<le> int (length (ch_history h)) then evict_weakest h else h"
    have wf: "dict_wf (ch_history h)" "list_all edge_wf (ch_history h)" "1 \<le> ch_max_peers h" "int (length (ch_history h)) \<le> ch_max_peers h"
      using assms by (simp_all add: history_wf_def)
    have room: "int (length (ch_history ?h)) < ch_max_peers h"
      using wf evict_weakest_facts(4) [of h] by (cases "ch_history h") fastforce+
    have "list_all edge_wf (ch_history ?h)" using wf(2) evict_weakest_facts(3) [of h] by (auto simp: list_all_iff)
    moreover have "edge_wf (pid, edge_init pid)" by (simp add: edge_wf_def edge_init_def)
    moreover have "dict_wf (ch_history ?h)" "ch_max_peers ?h = ch_max_peers h" using wf(1) evict_weakest_facts(1,2) by simp_all
    ultimately show ?thesis
      using room wf(3) None
      by (simp add: get_or_create_edge_def Let_def history_wf_def list_all_edge_update length_update AList.distinct_update AList.update_conv' del: if_split)
  qed
  then show "history_wf (fst ?g)" "map_of (ch_history (fst ?g)) pid = Some (snd ?g)" "edge_wf (pid, snd ?g)" by blast+
qed

lemma store_edge_wf:
  assumes "history_wf h" "\<And>e. edge_wf (pid, e) \<Longrightarrow> edge_wf (pid, f e)"
  shows "history_wf (store_edge pid f h)"
  using get_or_create_edge_wf [OF assms(1), of pid] assms(2)
  by (simp add: store_edge_def case_prod_beta history_wf_def list_all_edge_update length_update AList.distinct_update)

lemma convex_unit:
  fixes a :: real
  assumes "0 \<le> a" "a \<le> 1" "0 \<le> x" "x \<le> 1" "0 \<le> y" "y \<le> 1"
  shows "0 \<le> (1 - a) * x + a * y" "(1 - a) * x + a * y \<le> 1"
proof -
  show "0 \<le> (1 - a) * x + a * y" using assms by simp
  have "(1 - a) * x + a * y \<le> (1 - a) * 1 + a * 1" using assms by (intro add_mono mult_left_mono) auto
  then show "(1 - a) * x + a * y \<le> 1" by simp
qed

lemma update_peer_wf:
  assumes "history_wf h" "0 \<le> aff" "aff \<le> 1" "0 \<le> a" "a \<le> 1"
  shows "history_wf (update_peer pid aff a h)"
  unfolding update_peer_def
  by (rule store_edge_wf [OF assms(1)]) (use assms in \<open>auto simp: edge_wf_def update_affinity_def convex_unit\<close>)

lemma record_collaboration_result_wf: "history_wf h \<Longrightarrow> history_wf (record_collaboration_result pid b h)"
  unfolding record_collaboration_result_def
  by (erule store_edge_wf) (auto simp: edge_wf_def record_collaboration_def)

lemma decay_all_wf: "history_wf h \<Longrightarrow> 0 \<le> d \<Longrightarrow> d \<le> 1 \<Longrightarrow> history_wf (decay_all d h)"
  by (auto simp: history_wf_def decay_all_def edge_wf_def edge_decay_def list_all_iff comp_def case_prod_beta mult_le_one)

lemma evict_dead_edges_wf: "history_wf h \<Longrightarrow> history_wf (evict_dead_edges w h)"
  using length_filter_le [of "\<lambda>(pid, e). \<not> ce_weight e < w" "ch_history h"]
  by (auto simp: history_wf_def evict_dead_edges_def list_all_iff dict_wf_filter simp del: length_filter_le)

lemma success_rate_unit: "edge_wf (pid, e) \<Longrightarrow> 0 \<le> success_rate e \<and> success_rate e \<le> 1"
  by (auto simp: success_rate_def edge_wf_def divide_le_eq_1)

section \<open>The state of the topology\<close>

text \<open>What the documentation asks of the parameters, and the state.\<close>

definition params_wf :: "affinity_topology \<Rightarrow> bool" where
  "params_wf t \<longleftrightarrow> 0 \<le> at_ema_alpha t \<and> at_ema_alpha t \<le> 1 \<and> 0 \<le> at_edge_decay_factor t \<and> at_edge_decay_factor t \<le> 1 \<and>
     0 \<le> at_exploration_decay t \<and> at_exploration_decay t \<le> 1 \<and>
     0 \<le> at_exploration_min t \<and> at_exploration_min t \<le> at_exploration_initial t \<and> at_exploration_initial t \<le> 1"

definition affinity_wf :: "affinity_topology \<Rightarrow> bool" where
  "affinity_wf t \<longleftrightarrow> params_wf t \<and> history_wf (at_history t) \<and>
     at_exploration_min t \<le> at_exploration_ratio t \<and> at_exploration_ratio t \<le> at_exploration_initial t \<and>
     ch_max_peers (at_history t) = 100"

lemma store_edge_max: "ch_max_peers (store_edge pid f h) = ch_max_peers h"
  by (simp add: store_edge_def get_or_create_edge_def Let_def evict_weakest_facts(1) split: option.split)

lemma score_peer_unit: "score_peer t my_fp pid fp = ok x \<Longrightarrow> 0 \<le> x \<and> x \<le> 1"
  using affinity_unit by (simp add: score_peer_def)

lemma score_peers_facts:
  "score_peers t my_fp ps = ok (scored, unscored) \<Longrightarrow>
     list_all (\<lambda>(pid, aff). 0 \<le> aff \<and> aff \<le> 1) scored \<and> mset (map fst scored @ unscored) = mset (map tp_peer_id ps)"
proof (induction ps arbitrary: scored unscored)
  case (Cons p ps)
  then show ?case
    by (cases "tp_data_fingerprint p") (fastforce simp: result_bind_eq_ok dest: score_peer_unit)+
qed simp

lemma fold_update_wf:
  "list_all (\<lambda>(pid, aff). 0 \<le> aff \<and> aff \<le> 1) scored \<Longrightarrow> 0 \<le> a \<Longrightarrow> a \<le> 1 \<Longrightarrow> history_wf h \<Longrightarrow>
     history_wf (fold (\<lambda>(pid, aff). update_peer pid aff a) scored h)"
  by (induction scored arbitrary: h) (auto simp: update_peer_wf)

lemma after_selection_wf:
  assumes "affinity_wf t" "list_all (\<lambda>(pid, aff). 0 \<le> aff \<and> aff \<le> 1) scored"
  shows "affinity_wf (after_selection r scored t)"
proof -
  have p: "params_wf t" "history_wf (at_history t)" "0 \<le> at_exploration_ratio t"
    "at_exploration_min t \<le> at_exploration_initial t" "at_exploration_ratio t \<le> at_exploration_initial t"
    using assms(1) by (auto simp: affinity_wf_def params_wf_def)
  have "at_exploration_ratio t * at_exploration_decay t \<le> at_exploration_ratio t"
    using p(1,3) by (simp add: params_wf_def mult_left_le)
  then have "max (at_exploration_min t) (at_exploration_ratio t * at_exploration_decay t) \<le> at_exploration_initial t"
    using p(4,5) by simp
  moreover have "history_wf (at_history (after_selection r scored t))"
    using p(1,2) assms(2) by (simp add: after_selection_def evict_dead_edges_wf decay_all_wf fold_update_wf params_wf_def)
  moreover have "ch_max_peers (fold (\<lambda>(pid, aff). update_peer pid aff a) ss h) = ch_max_peers h" for a ss h
    by (induction ss arbitrary: h) (auto simp: update_peer_def store_edge_max)
  ultimately show ?thesis
    using p(1) assms(1) by (simp add: affinity_wf_def after_selection_def params_wf_def evict_dead_edges_def decay_all_def)
qed

lemma exploit_targets_take:
  "exploit_targets t wanted scored = take (nat (n_exploit t wanted)) (map fst (filter (\<lambda>(pid, aff). at_min_affinity t \<le> aff) scored))"
  by (simp add: exploit_targets_def slice_to_nonneg n_exploit_def take_map)

lemma exploit_targets_subset: "set (exploit_targets t wanted scored) \<subseteq> set (map fst scored)"
  using set_take_subset unfolding exploit_targets_take by fastforce

lemma explore_pool_facts:
  "set (explore_pool t targets scored unscored) \<subseteq> set (map fst scored) \<union> set unscored"
  "set (explore_pool t targets scored unscored) \<inter> set targets = {}"
  by (auto simp: explore_pool_def)

text \<open>What a selection among scored peers returns.\<close>

lemma selected_facts:
  assumes draw: "fair_draw draw" and wanted: "0 \<le> wanted"
    and scored: "score_peers t my_fp peers = ok (unsorted, unscored)"
    and explore: "explore_targets draw t wanted (explore_pool t (exploit_targets t wanted (by_affinity unsorted)) (by_affinity unsorted) unscored) = ok explore"
  defines "ids \<equiv> slice_to wanted (exploit_targets t wanted (by_affinity unsorted) @ explore)"
  shows "int (length ids) \<le> wanted" "set ids \<subseteq> tp_peer_id ` set peers"
    "distinct (map tp_peer_id peers) \<Longrightarrow> distinct ids"
proof -
  let ?s = "by_affinity unsorted"
  let ?exploit = "exploit_targets t wanted ?s"
  let ?pool = "explore_pool t ?exploit ?s unscored"
  have ids: "ids = take (nat wanted) (?exploit @ explore)" using wanted by (simp add: ids_def slice_to_nonneg)
  have m: "mset (map fst ?s @ unscored) = mset (map tp_peer_id peers)"
    using score_peers_facts [OF scored] by (simp add: by_affinity_def)
  then have all: "set (map fst ?s) \<union> set unscored = tp_peer_id ` set peers" by (metis list.set_map mset_eq_setD set_append)
  have x: "set ?exploit \<subseteq> set (map fst ?s)" "set ?pool \<subseteq> set (map fst ?s) \<union> set unscored" "set ?pool \<inter> set ?exploit = {}"
    by (rule exploit_targets_subset, rule explore_pool_facts, rule explore_pool_facts)
  have e: "explore = [] \<or> py_sample draw ?pool (min (wanted - n_exploit t wanted) (int (length ?pool))) = ok explore"
    using explore by (auto simp: explore_targets_def Let_def split: if_splits)
  then have sub: "set explore \<subseteq> set ?pool" using py_sample_ok(1) [OF draw] by fastforce
  show "int (length ids) \<le> wanted" unfolding ids using wanted by simp
  have "set ids \<subseteq> set (?exploit @ explore)" unfolding ids by (rule set_take_subset)
  then show "set ids \<subseteq> tp_peer_id ` set peers" unfolding all [symmetric] using x sub by (simp only: set_append) blast
  assume "distinct (map tp_peer_id peers)"
  then have d: "distinct (map fst ?s @ unscored)" using m by (metis mset_eq_imp_distinct_iff)
  have "distinct ?exploit"
    using d by (simp add: exploit_targets_take distinct_map_filter distinct_take)
  moreover have "distinct ?pool"
    using d by (auto simp: explore_pool_def distinct_map_filter)
  then have "distinct explore" using e py_sample_ok(3) [OF draw, of ?pool _ explore "\<lambda>x. x"] by auto
  ultimately have "distinct (?exploit @ explore)" using x(3) sub by auto
  then show "distinct ids" unfolding ids using distinct_take by blast
qed

lemma select_keeps:
  assumes "affinity_wf t"
  shows "affinity_wf (fst (affinity_select_targets draw ctx wanted t))"
proof -
  have "list_all (\<lambda>(pid, aff). 0 \<le> aff \<and> aff \<le> 1) (by_affinity unsorted)"
    if "score_peers t my_fp ps = ok (unsorted, unscored)" for my_fp ps unsorted unscored
    using score_peers_facts [OF that] by (simp add: by_affinity_def list_all_iff)
  then show ?thesis
    using assms by (auto simp: affinity_select_targets_def Let_def after_selection_wf split: option.splits sum.splits)
qed

lemma affinity_contract:
  assumes "fair_draw draw"
  shows "compatible_topology (affinity_select_targets draw) affinity_wf"
proof -
  have "(context_wf ctx \<longrightarrow> distinct ids) \<and> int (length ids) \<le> wanted \<and> set ids \<subseteq> tp_peer_id ` set (get_compatible_peers True ctx)"
    if sel: "snd (affinity_select_targets draw ctx wanted t) = ok ids" and wanted: "0 \<le> wanted" for ctx wanted t ids
  proof (cases "get_compatible_peers True ctx = []")
    case True
    then show ?thesis using sel wanted by (auto simp: affinity_select_targets_def)
  next
    case False
    note ne = False
    show ?thesis
    proof (cases "sc_my_fingerprint ctx")
      case None
      let ?peers = "get_compatible_peers True ctx"
      obtain ps where ps: "py_sample draw ?peers (min wanted (int (length ?peers))) = ok ps" and ids: "ids = map tp_peer_id ps"
        using sel ne None by (auto simp: affinity_select_targets_def Let_def result_bind_eq_ok)
      show ?thesis
        unfolding ids using py_sample_ok [OF assms ps] py_sample_ok(3) [OF assms ps, of tp_peer_id] compatible_ids [of ctx True] by auto
    next
      case (Some my_fp)
      then obtain unsorted unscored explore where s: "score_peers t my_fp (get_compatible_peers True ctx) = ok (unsorted, unscored)"
        and e: "explore_targets draw t wanted (explore_pool t (exploit_targets t wanted (by_affinity unsorted)) (by_affinity unsorted) unscored) = ok explore"
        and ids: "ids = slice_to wanted (exploit_targets t wanted (by_affinity unsorted) @ explore)"
        using sel ne by (auto simp: affinity_select_targets_def Let_def split: sum.splits)
      show ?thesis unfolding ids using selected_facts [OF assms wanted s e] compatible_ids [of ctx True] by blast
    qed
  qed
  then show ?thesis using select_keeps by unfold_locales blast+
qed

interpretation affinity: compatible_topology "affinity_select_targets first_draw" affinity_wf
  by (rule affinity_contract [OF first_draw_fair])

section \<open>Any sequence of selections and round results\<close>

datatype affinity_event = Select draw selection_context int | Round_Result string bool

fun affinity_step :: "affinity_topology \<Rightarrow> affinity_event \<Rightarrow> affinity_topology \<times> string list result list" where
  "affinity_step t (Select draw ctx wanted) = (let (t', r) = affinity_select_targets draw ctx wanted t in (t', [r]))"
| "affinity_step t (Round_Result peer_id success) = (record_round_result peer_id success t, [])"

lemma record_round_result_wf: "affinity_wf t \<Longrightarrow> affinity_wf (record_round_result peer_id success t)"
  using record_collaboration_result_wf [of "at_history t" peer_id success]
  by (simp add: affinity_wf_def record_round_result_def params_wf_def record_collaboration_result_def store_edge_max)

interpretation affinity_events: reactive affinity_step affinity_wf "\<lambda>_. True"
proof
  fix t e assume "affinity_wf t"
  then show "affinity_wf (fst (affinity_step t e))"
    using select_keeps record_round_result_wf by (cases e) (simp_all add: case_prod_beta)
qed

text \<open>C15: Whatever sequence of target selections and round results a node with documented parameters sees, its
  history holds at most one hundred edges, one per peer, with weights and success rates between zero and one, and
  its exploration ratio stays between its floor and its initial value.\<close>

theorem affinity_state_bounded:
  assumes "params_wf (affinity_topology_init m i d f a e w c aw)"
  shows "case run affinity_step (affinity_topology_init m i d f a e w c aw) es of (t, _) \<Rightarrow>
    length (ch_history (at_history t)) \<le> 100 \<and> dict_wf (ch_history (at_history t)) \<and>
    list_all (\<lambda>(pid, e). 0 \<le> ce_weight e \<and> ce_weight e \<le> 1 \<and> 0 \<le> success_rate e \<and> success_rate e \<le> 1) (ch_history (at_history t)) \<and>
    at_exploration_min t \<le> at_exploration_ratio t \<and> at_exploration_ratio t \<le> at_exploration_initial t"
proof -
  let ?t = "fst (run affinity_step (affinity_topology_init m i d f a e w c aw) es)"
  have "affinity_wf (affinity_topology_init m i d f a e w c aw)"
    using assms by (simp add: affinity_wf_def params_wf_def affinity_topology_init_def history_wf_def history_init_def)
  then have "affinity_wf ?t" by (rule affinity_events.run_inv) (simp add: list_all_iff)
  moreover have "0 \<le> ce_weight e \<and> ce_weight e \<le> 1 \<and> 0 \<le> success_rate e \<and> success_rate e \<le> 1" if "edge_wf (pid, e)" for pid e
    using that success_rate_unit [OF that] by (simp add: edge_wf_def)
  ultimately show ?thesis by (auto simp: affinity_wf_def history_wf_def list_all_iff case_prod_beta)
qed

theorem affinity_state_bounded_witness:
  "case run affinity_step (affinity_topology_init (3 / 10) (8 / 10) (95 / 100) (1 / 10) (2 / 10) (95 / 100) (5 / 100) 3 None)
      [Round_Result ''a'' True] of (t, _) \<Rightarrow>
    length (ch_history (at_history t)) \<le> 100 \<and> dict_wf (ch_history (at_history t)) \<and>
    list_all (\<lambda>(pid, e). 0 \<le> ce_weight e \<and> ce_weight e \<le> 1 \<and> 0 \<le> success_rate e \<and> success_rate e \<le> 1) (ch_history (at_history t)) \<and>
    at_exploration_min t \<le> at_exploration_ratio t \<and> at_exploration_ratio t \<le> at_exploration_initial t"
  by (rule affinity_state_bounded) (simp add: params_wf_def affinity_topology_init_def)

section \<open>A departed peer is forgotten\<close>

definition weight_le :: "string \<Rightarrow> real \<Rightarrow> history \<Rightarrow> bool" where
  "weight_le peer c h \<longleftrightarrow> (\<forall>e. (peer, e) \<in> set (ch_history h) \<longrightarrow> ce_weight e \<le> c)"

lemma store_other_subset:
  assumes "(peer, e) \<in> set (ch_history (store_edge pid f h))" "pid \<noteq> peer"
  shows "(peer, e) \<in> set (ch_history h)"
  using assms evict_weakest_facts(3) [of h]
  by (auto simp: store_edge_def get_or_create_edge_def Let_def split: option.splits if_splits dest!: subsetD [OF set_update_subset])

lemma fold_other_subset:
  "(peer, e) \<in> set (ch_history (fold (\<lambda>(pid, aff). update_peer pid aff a) scored h)) \<Longrightarrow> peer \<notin> fst ` set scored \<Longrightarrow>
     (peer, e) \<in> set (ch_history h)"
proof (induction scored arbitrary: h)
  case (Cons x scored)
  obtain pid aff where x: "x = (pid, aff)" by (cases x)
  have "(peer, e) \<in> set (ch_history (update_peer pid aff a h))" using Cons.IH Cons.prems by (simp add: x)
  moreover have "pid \<noteq> peer" using Cons.prems(2) x by force
  ultimately show ?case unfolding update_peer_def by (rule store_other_subset)
qed simp

lemma after_selection_forgets:
  assumes "weight_le peer c (at_history t)" "peer \<notin> fst ` set scored" "0 \<le> at_edge_decay_factor t"
    "(peer, e) \<in> set (ch_history (at_history (after_selection r scored t)))"
  shows "at_eviction_min_weight t \<le> ce_weight e" "ce_weight e \<le> c * at_edge_decay_factor t"
proof -
  from assms(4) obtain e' where e: "e = edge_decay (at_edge_decay_factor t) e'" "at_eviction_min_weight t \<le> ce_weight e"
    "(peer, e') \<in> set (ch_history (fold (\<lambda>(pid, aff). update_peer pid aff (at_ema_alpha t)) scored (at_history t)))"
    by (auto simp: after_selection_def evict_dead_edges_def decay_all_def)
  then show "at_eviction_min_weight t \<le> ce_weight e" by simp
  have "ce_weight e' \<le> c" using fold_other_subset [OF e(3) assms(2)] assms(1) by (simp add: weight_le_def)
  then show "ce_weight e \<le> c * at_edge_decay_factor t" using assms(3) by (simp add: e(1) edge_decay_def mult_right_mono)
qed

text \<open>Selections among scored peers without \<open>peer\<close>, and results of other peers.\<close>

fun departed :: "string \<Rightarrow> affinity_event \<Rightarrow> bool" where
  "departed peer (Select draw ctx wanted) \<longleftrightarrow> sc_my_fingerprint ctx \<noteq> None \<and> get_compatible_peers True ctx \<noteq> [] \<and>
     peer \<notin> tp_peer_id ` set (get_compatible_peers True ctx)"
| "departed peer (Round_Result peer_id success) \<longleftrightarrow> peer_id \<noteq> peer"

fun selections :: "affinity_event list \<Rightarrow> nat" where
  "selections [] = 0"
| "selections (Select draw ctx wanted # es) = Suc (selections es)"
| "selections (Round_Result peer_id success # es) = selections es"

definition weight_ge :: "string \<Rightarrow> real \<Rightarrow> history \<Rightarrow> bool" where
  "weight_ge peer c h \<longleftrightarrow> (\<forall>e. (peer, e) \<in> set (ch_history h) \<longrightarrow> c \<le> ce_weight e)"

lemma scored_departed:
  assumes "affinity_select_targets draw ctx wanted t = (t', ok ids)" "departed peer (Select draw ctx wanted)"
  shows "\<exists>scored. t' = after_selection (sc_current_round ctx) scored t \<and> peer \<notin> fst ` set scored"
proof -
  from assms obtain my_fp unsorted unscored where s: "score_peers t my_fp (get_compatible_peers True ctx) = ok (unsorted, unscored)"
    and t': "t' = after_selection (sc_current_round ctx) (by_affinity unsorted) t"
    by (auto simp: affinity_select_targets_def Let_def split: sum.splits)
  have "set (map fst unsorted @ unscored) = tp_peer_id ` set (get_compatible_peers True ctx)"
    using score_peers_facts [OF s] by (metis mset_eq_setD list.set_map)
  then have "peer \<notin> fst ` set (by_affinity unsorted)" using assms(2) by (auto simp: by_affinity_def)
  then show ?thesis using t' by blast
qed

lemma departed_step:
  assumes "departed peer e" "list_all (\<lambda>r. \<exists>ids. r = ok ids) (snd (affinity_step t e))" "0 \<le> at_edge_decay_factor t"
    and le: "weight_le peer c (at_history t)"
  defines "t' \<equiv> fst (affinity_step t e)"
  shows "at_edge_decay_factor t' = at_edge_decay_factor t \<and> at_eviction_min_weight t' = at_eviction_min_weight t \<and>
    weight_le peer (c * at_edge_decay_factor t ^ selections [e]) (at_history t') \<and>
    (0 < selections [e] \<or> weight_ge peer (at_eviction_min_weight t) (at_history t) \<longrightarrow>
      weight_ge peer (at_eviction_min_weight t) (at_history t'))"
proof (cases e)
  case (Select draw ctx wanted)
  then obtain ids where "affinity_select_targets draw ctx wanted t = (t', ok ids)"
    using assms(2) by (cases "affinity_select_targets draw ctx wanted t") (auto simp: t'_def)
  then obtain scored where t': "t' = after_selection (sc_current_round ctx) scored t" and s: "peer \<notin> fst ` set scored"
    using scored_departed assms(1) Select by blast
  have "weight_le peer (c * at_edge_decay_factor t) (at_history t')" "weight_ge peer (at_eviction_min_weight t) (at_history t')"
    using after_selection_forgets [OF le s assms(3)] by (simp_all add: weight_le_def weight_ge_def t')
  then show ?thesis by (simp add: Select t' after_selection_def)
next
  case (Round_Result peer_id success)
  then have "peer_id \<noteq> peer" using assms(1) by simp
  then have "(peer, x) \<in> set (ch_history (at_history t'))  \<Longrightarrow> (peer, x) \<in> set (ch_history (at_history t))" for x
    unfolding t'_def Round_Result by (auto simp: record_round_result_def record_collaboration_result_def dest: store_other_subset)
  then show ?thesis
    using le by (auto simp: Round_Result weight_le_def weight_ge_def t'_def record_round_result_def)
qed

lemma departed_run:
  assumes "list_all (departed peer) es" "list_all (\<lambda>r. \<exists>ids. r = ok ids) (snd (run affinity_step t es))" "0 \<le> at_edge_decay_factor t"
    and "weight_le peer c (at_history t)"
  shows "weight_le peer (c * at_edge_decay_factor t ^ selections es) (at_history (fst (run affinity_step t es))) \<and>
    (0 < selections es \<or> weight_ge peer (at_eviction_min_weight t) (at_history t) \<longrightarrow>
      weight_ge peer (at_eviction_min_weight t) (at_history (fst (run affinity_step t es))))"
  using assms
proof (induction es arbitrary: t c)
  case (Cons e es)
  let ?t = "fst (affinity_step t e)"
  have o: "list_all (\<lambda>r. \<exists>ids. r = ok ids) (snd (affinity_step t e))" "list_all (\<lambda>r. \<exists>ids. r = ok ids) (snd (run affinity_step ?t es))"
    using Cons.prems(2) by (auto simp: case_prod_beta Let_def)
  have d: "departed peer e" using Cons.prems(1) by simp
  note step = departed_step [OF d o(1) Cons.prems(3,4)]
  have n: "selections (e # es) = selections [e] + selections es" by (cases e) auto
  have "weight_le peer (c * at_edge_decay_factor t ^ selections [e] * at_edge_decay_factor t ^ selections es)
      (at_history (fst (run affinity_step ?t es))) \<and>
    (0 < selections es \<or> weight_ge peer (at_eviction_min_weight t) (at_history ?t) \<longrightarrow>
      weight_ge peer (at_eviction_min_weight t) (at_history (fst (run affinity_step ?t es))))"
    using Cons.IH [of ?t "c * at_edge_decay_factor t ^ selections [e]"] step o(2) Cons.prems(1,3) by simp
  then show ?case using step unfolding n run_Cons power_add by (auto simp: mult.assoc)
qed simp

text \<open>C9: A departed peer is forgotten. Once a node no longer meets a peer and no longer reports results for it, its edge is
  gone after any sequence of events with \<open>n\<close> scored selections, where \<open>n\<close> is such that the decay factor to the power
  of \<open>n\<close> is below the eviction threshold; what weight the edge had and how the other peers fare does not matter.\<close>

theorem departed_peer_forgotten:
  assumes "affinity_wf t" "list_all (departed peer) es" "list_all (\<lambda>r. \<exists>ids. r = ok ids) (snd (run affinity_step t es))"
    and "0 < n" "n \<le> selections es" "at_edge_decay_factor t ^ n < at_eviction_min_weight t"
  shows "get_edge peer (at_history (fst (run affinity_step t es))) = None"
proof (rule ccontr)
  let ?h = "at_history (fst (run affinity_step t es))"
  assume "get_edge peer ?h \<noteq> None"
  then obtain e where e: "(peer, e) \<in> set (ch_history ?h)" by (auto simp: get_edge_def dest: map_of_SomeD)
  have d: "0 \<le> at_edge_decay_factor t" "at_edge_decay_factor t \<le> 1" and le: "weight_le peer 1 (at_history t)"
    using assms(1) by (auto simp: affinity_wf_def params_wf_def history_wf_def weight_le_def edge_wf_def list_all_iff)
  have "at_eviction_min_weight t \<le> ce_weight e" "ce_weight e \<le> at_edge_decay_factor t ^ selections es"
    using departed_run [OF assms(2,3) d(1) le] assms(4,5) e by (auto simp: weight_le_def weight_ge_def)
  moreover have "at_edge_decay_factor t ^ selections es \<le> at_edge_decay_factor t ^ n"
    using assms(5) d by (rule power_decreasing)
  ultimately show False using assms(6) by linarith
qed

definition sample_fingerprint :: fingerprint where
  "sample_fingerprint = \<lparr>fp_label_buckets = [], fp_noised_moments = [], fp_sample_bucket = ''0-100'', fp_num_classes = 0,
     fp_gradient_moments = None, fp_class_count_bucket = ''small'', fp_round_nonce = None\<rparr>"

definition sample_affinity :: affinity_topology where
  "sample_affinity = record_round_result ''a'' True
     (affinity_topology_init (3 / 10) (8 / 10) (95 / 100) (1 / 10) (2 / 10) (1 / 100) (5 / 100) 3 None)"

definition sample_selection :: affinity_event where
  "sample_selection =
     Select first_draw (sample_ctx\<lparr>sc_known_peers := [sample_tpeer ''b'' 0], sc_my_fingerprint := Some sample_fingerprint\<rparr>) 2"

theorem departed_peer_forgotten_witness:
  "get_edge ''a'' (at_history sample_affinity) \<noteq> None \<and>
   get_edge ''a'' (at_history (fst (run affinity_step sample_affinity [sample_selection]))) = None"
proof -
  let ?ctx = "sample_ctx\<lparr>sc_known_peers := [sample_tpeer ''b'' 0], sc_my_fingerprint := Some sample_fingerprint\<rparr>"
  have c: "get_compatible_peers True ?ctx = [sample_tpeer ''b'' 0]"
    by (simp add: get_compatible_peers_def sample_ctx_def sample_tpeer_def compatible_peer_def is_version_compatible_def)
  have b: "tp_peer_id (sample_tpeer ''b'' 0) = ''b''" "tp_data_fingerprint (sample_tpeer ''b'' 0) = None"
    by (simp_all add: sample_tpeer_def)
  have wf: "affinity_wf sample_affinity" unfolding sample_affinity_def
    by (rule record_round_result_wf) (simp add: affinity_wf_def params_wf_def affinity_topology_init_def history_wf_def history_init_def)
  have dep: "departed ''a'' sample_selection" by (simp add: sample_selection_def c b)
  have "\<exists>ids. snd (affinity_select_targets first_draw ?ctx 2 sample_affinity) = ok ids"
    by (simp add: affinity_select_targets_def c b Let_def explore_targets_def explore_pool_def by_affinity_def py_sample_def
        split: sum.split)
  then have "list_all (\<lambda>r. \<exists>ids. r = ok ids) (snd (run affinity_step sample_affinity [sample_selection]))"
    by (simp add: sample_selection_def case_prod_beta)
  then have "get_edge ''a'' (at_history (fst (run affinity_step sample_affinity [sample_selection]))) = None"
    by (rule departed_peer_forgotten [OF wf _ _ , where n = 1, rotated])
       (use dep in \<open>auto simp: sample_selection_def sample_affinity_def record_round_result_def affinity_topology_init_def\<close>)
  then show ?thesis
    by (simp add: get_edge_def sample_affinity_def record_round_result_def record_collaboration_result_def store_edge_def
        get_or_create_edge_def Let_def affinity_topology_init_def history_init_def)
qed

text \<open>The exploration ratio after a number of scored selections.\<close>

theorem exploration_schedule:
  assumes "params_wf t" "sels \<noteq> []"
  shows "at_exploration_ratio (fold (\<lambda>(r, scored). after_selection r scored) sels t) =
    max (at_exploration_min t) (at_exploration_ratio t * at_exploration_decay t ^ length sels)"
  using assms
proof (induction sels arbitrary: t)
  case (Cons x sels)
  obtain r scored where x: "x = (r, scored)" by (cases x)
  let ?t = "after_selection r scored t" and ?m = "at_exploration_min t" and ?d = "at_exploration_decay t"
  have p: "params_wf ?t" "at_exploration_min ?t = ?m" "at_exploration_decay ?t = ?d"
    "at_exploration_ratio ?t = max ?m (at_exploration_ratio t * ?d)"
    using Cons.prems(1) by (simp_all add: params_wf_def after_selection_def)
  show ?case
  proof (cases "sels = []")
    case False
    have d: "0 \<le> ?d ^ length sels" "?m * ?d ^ length sels \<le> ?m"
      using Cons.prems(1) by (simp_all add: params_wf_def mult_left_le power_le_one)
    have "max ?m (max ?m (at_exploration_ratio t * ?d) * ?d ^ length sels) = max ?m (at_exploration_ratio t * ?d * ?d ^ length sels)"
      using d by (simp add: max_mult_distrib_right)
    then show ?thesis using Cons.IH [OF p(1) False] by (simp add: x p(2-4) mult.assoc)
  qed (simp add: x p(4))
qed simp

text \<open>A history with an edge cannot be restored: loading what was persisted raises and leaves the history empty.\<close>

lemma history_not_restored:
  assumes "ch_history (at_history t) \<noteq> []"
  shows "snd (affinity_load_state_dict (affinity_state_dict t) u) = raise TypeError"
    and "ch_history (at_history (fst (affinity_load_state_dict (affinity_state_dict t) u))) = []"
  using assms
  by (auto simp: affinity_load_state_dict_def affinity_state_dict_def history_load_state_dict_def history_state_dict_def or_else_def Let_def
      split: list.split)

end
