(* ===== verification/Spectral.thy ===== *)
theory Spectral
  imports Peer_Sampler
begin

text \<open>
  The analysis of a communication graph (\<open>topology/spectral.py\<close>): adjacency matrices, the Metropolis-Hastings mixing
  matrix and the report. A matrix is a list of rows with real entries; the two solvers for eigenvalues are
  parameters that return a sorted list, and what the random module chooses is a draw.
\<close>

section \<open>Matrices\<close>

type_synonym matrix = "real list list"

definition mat_get :: "matrix \<Rightarrow> nat \<Rightarrow> nat \<Rightarrow> real" where
  "mat_get A i j = A ! i ! j"

definition mat_set :: "matrix \<Rightarrow> nat \<Rightarrow> nat \<Rightarrow> real \<Rightarrow> matrix" where
  "mat_set A i j x = A[i := (A ! i)[j := x]]"

definition mat_of :: "nat \<Rightarrow> (nat \<Rightarrow> nat \<Rightarrow> real) \<Rightarrow> matrix" where
  "mat_of n f = map (\<lambda>i. map (f i) [0..<n]) [0..<n]"

definition mat_zeros :: "nat \<Rightarrow> matrix" where
  "mat_zeros n = mat_of n (\<lambda>i j. 0)"

definition square :: "nat \<Rightarrow> matrix \<Rightarrow> bool" where
  "square n A \<longleftrightarrow> length A = n \<and> list_all (\<lambda>r. length r = n) A"

text \<open>An undirected edge, written in both places.\<close>

definition set_edge :: "nat \<times> nat \<Rightarrow> real \<Rightarrow> matrix \<Rightarrow> matrix" where
  "set_edge e w A = (case e of (i, j) \<Rightarrow> mat_set (mat_set A i j w) j i w)"

section \<open>The mixing matrix\<close>

definition mh_weight :: "real list \<Rightarrow> nat \<Rightarrow> nat \<Rightarrow> real" where
  "mh_weight degrees i j = 1 / (1 + max (degrees ! i) (degrees ! j))"

definition node_pairs :: "nat \<Rightarrow> (nat \<times> nat) list" where
  "node_pairs n = concat (map (\<lambda>i. map (Pair i) [i + 1..<n]) [0..<n])"

definition mh_step :: "matrix \<Rightarrow> real list \<Rightarrow> nat \<times> nat \<Rightarrow> matrix \<Rightarrow> matrix" where
  "mh_step A degrees p W = (case p of (i, j) \<Rightarrow> if 0 < mat_get A i j then set_edge (i, j) (mh_weight degrees i j) W else W)"

definition mh_edges :: "matrix \<Rightarrow> real list \<Rightarrow> nat \<Rightarrow> matrix" where
  "mh_edges A degrees n = fold (mh_step A degrees) (node_pairs n) (mat_zeros n)"

definition fill_diagonal :: "nat \<Rightarrow> matrix \<Rightarrow> matrix" where
  "fill_diagonal i W = mat_set W i i (1 - sum_list (W ! i))"

definition metropolis_hastings :: "matrix \<Rightarrow> real list \<Rightarrow> nat \<Rightarrow> matrix" where
  "metropolis_hastings A degrees n = fold fill_diagonal [0..<n] (mh_edges A degrees n)"

section \<open>The analysis\<close>

text \<open>The diagonal is zeroed, and directed edges count in both directions.\<close>

definition undirected :: "matrix \<Rightarrow> matrix" where
  "undirected A = (let n = length A; B = mat_of n (\<lambda>i j. if i = j then 0 else mat_get A i j)
     in mat_of n (\<lambda>i j. max (mat_get B i j) (mat_get B j i)))"

definition degrees_of :: "matrix \<Rightarrow> real list" where
  "degrees_of A = map sum_list A"

definition laplacian :: "matrix \<Rightarrow> matrix" where
  "laplacian A = mat_of (length A) (\<lambda>i j. (if i = j then degrees_of A ! i else 0) - mat_get A i j)"

record degree_stats =
  ds_min :: real
  ds_max :: real
  ds_mean :: real
  ds_std :: real

definition mean_of :: "real list \<Rightarrow> real" where
  "mean_of xs = sum_list xs / real (length xs)"

definition degree_stats_of :: "real list \<Rightarrow> degree_stats" where
  "degree_stats_of ds = \<lparr>ds_min = Min (set ds), ds_max = Max (set ds), ds_mean = mean_of ds,
     ds_std = sqrt (mean_of (map (\<lambda>d. (d - mean_of ds)\<^sup>2) ds))\<rparr>"

text \<open>\<open>None\<close> is the infinite mixing time.\<close>

record spectral_report =
  sr_num_nodes :: nat
  sr_num_edges :: int
  sr_algebraic_connectivity :: real
  sr_spectral_gap :: real
  sr_mixing_time_upper :: "real option"
  sr_is_connected :: bool
  sr_laplacian_eigenvalues :: "real list"
  sr_mixing_matrix_eigenvalues :: "real list"
  sr_degree_stats :: "degree_stats option"

definition spectral_report_init :: spectral_report where
  "spectral_report_init = \<lparr>sr_num_nodes = 0, sr_num_edges = 0, sr_algebraic_connectivity = 0, sr_spectral_gap = 0,
     sr_mixing_time_upper = None, sr_is_connected = False, sr_laplacian_eigenvalues = [], sr_mixing_matrix_eigenvalues = [],
     sr_degree_stats = None\<rparr>"

text \<open>The dense solver, and the sparse one that may fail and then is replaced by the dense one.\<close>

definition eigenvalues :: "(matrix \<Rightarrow> real list) \<Rightarrow> (nat \<Rightarrow> matrix \<Rightarrow> real list option) option \<Rightarrow> nat \<Rightarrow> matrix \<Rightarrow> nat \<Rightarrow> real list" where
  "eigenvalues dense sparse subsample_threshold M n =
     (case sparse of
        None \<Rightarrow> sort (dense M)
      | Some solver \<Rightarrow> if n \<le> subsample_threshold then sort (dense M)
          else (case solver (min 6 n) M of None \<Rightarrow> sort (dense M) | Some vals \<Rightarrow> sort vals))"

definition spectral_gap_of :: "nat \<Rightarrow> real list \<Rightarrow> real" where
  "spectral_gap_of n mix = (if n < 2 then 0 else
     let abs_eigs = rev (sort (map abs mix)) in 1 - (if 1 < length abs_eigs then abs_eigs ! 1 else 0))"

definition analyze :: "(matrix \<Rightarrow> real list) \<Rightarrow> (nat \<Rightarrow> matrix \<Rightarrow> real list option) option \<Rightarrow>
    (nat \<Rightarrow> matrix \<Rightarrow> real list option) option \<Rightarrow> real \<Rightarrow> nat \<Rightarrow> matrix \<Rightarrow> spectral_report" where
  "analyze dense smallest largest tolerance subsample_threshold adjacency =
     (let n = length adjacency in
      if n = 0 then spectral_report_init else
      let A = undirected adjacency;
          degrees = degrees_of A;
          lap = eigenvalues dense smallest subsample_threshold (laplacian A) n;
          connectivity = (if n < 2 then 0 else max (lap ! 1) 0);
          mix = eigenvalues dense largest subsample_threshold (metropolis_hastings A degrees n) n;
          gap = spectral_gap_of n mix
      in \<lparr>sr_num_nodes = n, sr_num_edges = py_int (sum_list degrees / 2), sr_algebraic_connectivity = connectivity,
          sr_spectral_gap = gap, sr_mixing_time_upper = (if tolerance < gap then Some (ln (real n) / gap) else None),
          sr_is_connected = tolerance < connectivity, sr_laplacian_eigenvalues = lap, sr_mixing_matrix_eigenvalues = mix,
          sr_degree_stats = Some (degree_stats_of degrees)\<rparr>)"

section \<open>Building graphs\<close>

definition peer_lists_adjacency :: "(string, string list) pydict \<Rightarrow> matrix" where
  "peer_lists_adjacency neighborhoods =
     (let all_ids = sort (remdups (map fst neighborhoods @ concat (map snd neighborhoods)));
          idx = (\<lambda>pid. length (takeWhile (\<lambda>x. x \<noteq> pid) all_ids));
          n = length all_ids
      in fold (\<lambda>(node_id, neighbors). fold (\<lambda>nbr_id A. set_edge (idx node_id, idx nbr_id) 1 A) neighbors) neighborhoods
           (mat_zeros n))"

definition analyze_from_peer_lists :: "(matrix \<Rightarrow> spectral_report) \<Rightarrow> (string, string list) pydict \<Rightarrow> spectral_report" where
  "analyze_from_peer_lists an neighborhoods = an (peer_lists_adjacency neighborhoods)"

definition compare_topologies :: "(matrix \<Rightarrow> spectral_report) \<Rightarrow> (string, matrix) pydict \<Rightarrow> (string, spectral_report) pydict" where
  "compare_topologies an topologies = map (\<lambda>(name, adj). (name, an adj)) topologies"

definition build_ring_adjacency :: "nat \<Rightarrow> matrix" where
  "build_ring_adjacency n = fold (\<lambda>i. set_edge (i, (i + 1) mod n) 1) [0..<n] (mat_zeros n)"

definition build_complete_adjacency :: "nat \<Rightarrow> matrix" where
  "build_complete_adjacency n = mat_of n (\<lambda>i j. if i = j then 0 else 1)"

text \<open>One node of a trial: it gets all the edges it lacks, or none when too few other nodes have room.\<close>

definition regular_candidates :: "nat \<Rightarrow> int \<Rightarrow> nat \<Rightarrow> matrix \<Rightarrow> nat list" where
  "regular_candidates n degree i A =
     filter (\<lambda>j. j \<noteq> i \<and> mat_get A i j = 0 \<and> py_int (sum_list (A ! j)) < degree) [0..<n]"

definition regular_node :: "draw \<Rightarrow> nat \<Rightarrow> int \<Rightarrow> nat \<Rightarrow> matrix \<Rightarrow> matrix" where
  "regular_node draw n degree i A =
     (let needed = degree - py_int (sum_list (A ! i)); candidates = regular_candidates n degree i A in
      if needed \<le> 0 then A
      else if needed \<le> int (length candidates) then
        fold (\<lambda>j. set_edge (i, j) 1) (map ((!) candidates) (draw (length candidates) (nat needed))) A
      else A)"

definition regular_trial :: "(nat \<Rightarrow> draw) \<Rightarrow> nat \<Rightarrow> int \<Rightarrow> matrix" where
  "regular_trial draws n degree = fold (\<lambda>i. regular_node (draws i) n degree i) [0..<n] (mat_zeros n)"

fun regular_retries :: "(nat \<Rightarrow> nat \<Rightarrow> draw) \<Rightarrow> nat \<Rightarrow> int \<Rightarrow> nat \<Rightarrow> matrix" where
  "regular_retries draws n degree 0 = regular_trial (draws 0) n degree"
| "regular_retries draws n degree (Suc k) =
     (let trial = regular_trial (draws (Suc k)) n degree in
      if of_int (degree - 1) \<le> Min (set (degrees_of trial)) then trial else regular_retries draws n degree k)"

text \<open>Ten trials, counted down; the last one is returned as it is. The minimum of no degrees raises.\<close>

definition build_random_regular_adjacency :: "(nat \<Rightarrow> nat \<Rightarrow> draw) \<Rightarrow> nat \<Rightarrow> int \<Rightarrow> matrix result" where
  "build_random_regular_adjacency draws n degree =
     (if int n \<le> degree then ok (build_complete_adjacency n)
      else if n = 0 then raise (ValueError ''zero-size array to reduction operation minimum'')
      else ok (regular_retries draws n degree 9))"

section \<open>Entries\<close>

lemma square_mat_of [simp]: "square n (mat_of n f)"
  by (simp add: square_def mat_of_def list_all_iff)

lemma get_mat_of [simp]: "i < n \<Longrightarrow> j < n \<Longrightarrow> mat_get (mat_of n f) i j = f i j"
  by (simp add: mat_get_def mat_of_def)

lemma square_row: "square n A \<Longrightarrow> i < n \<Longrightarrow> length (A ! i) = n"
  by (simp add: square_def list_all_length)

lemma square_mat_set: "square n A \<Longrightarrow> square n (mat_set A i j x)"
  by (cases "i < length A") (auto simp: square_def mat_set_def list_all_length nth_list_update list_update_beyond)

lemma get_mat_set:
  assumes "square n A" "i < n" "j < n" "a < n" "b < n"
  shows "mat_get (mat_set A i j x) a b = (if a = i \<and> b = j then x else mat_get A a b)"
  using assms square_row [OF assms(1)] by (auto simp: mat_get_def mat_set_def nth_list_update square_def)

lemma square_set_edge: "square n A \<Longrightarrow> square n (set_edge e w A)"
  by (cases e) (simp add: set_edge_def square_mat_set)

lemma if_or_if: "(if P then w else if Q then w else r) = (if Q \<or> P then w else r)"
  by simp

lemma get_set_edge:
  assumes "square n A" "i < n" "j < n" "a < n" "b < n"
  shows "mat_get (set_edge (i, j) w A) a b = (if a = i \<and> b = j \<or> a = j \<and> b = i then w else mat_get A a b)"
proof -
  have "mat_get (set_edge (i, j) w A) a b = mat_get (mat_set (mat_set A i j w) j i w) a b" by (simp add: set_edge_def)
  also have "\<dots> = (if a = j \<and> b = i then w else mat_get (mat_set A i j w) a b)"
    by (rule get_mat_set [OF square_mat_set [OF assms(1)] assms(3,2,4,5)])
  also have "mat_get (mat_set A i j w) a b = (if a = i \<and> b = j then w else mat_get A a b)" by (rule get_mat_set [OF assms])
  finally show ?thesis unfolding if_or_if .
qed

lemma sum_row: "square n A \<Longrightarrow> i < n \<Longrightarrow> sum_list (A ! i) = (\<Sum>j<n. mat_get A i j)"
  by (simp add: sum_list_sum_nth square_row mat_get_def atLeast0LessThan)

lemma square_mat_of_get: "square n A \<Longrightarrow> mat_of n (mat_get A) = A"
  by (intro nth_equalityI) (auto simp: mat_of_def mat_get_def square_def list_all_length intro!: nth_equalityI)

text \<open>A symmetric matrix, entry by entry.\<close>

definition symmetric :: "nat \<Rightarrow> matrix \<Rightarrow> bool" where
  "symmetric n A \<longleftrightarrow> square n A \<and> (\<forall>i<n. \<forall>j<n. mat_get A i j = mat_get A j i)"

lemma symmetric_set_edge:
  assumes "symmetric n A" "fst e < n" "snd e < n"
  shows "symmetric n (set_edge e w A)"
  using assms by (cases e) (auto simp: symmetric_def square_set_edge get_set_edge)

lemma symmetric_fold_edges: "symmetric n A \<Longrightarrow> list_all (\<lambda>e. fst e < n \<and> snd e < n) es \<Longrightarrow> symmetric n (fold (\<lambda>e. set_edge e w) es A)"
  by (induction es arbitrary: A) (auto simp: symmetric_set_edge)

lemma symmetric_zeros: "symmetric n (mat_zeros n)"
  by (simp add: symmetric_def mat_zeros_def)

section \<open>The Metropolis-Hastings matrix\<close>

lemma mh_fold:
  assumes "list_all (\<lambda>(i, j). i < j \<and> j < n) ps" "square n W" "a < n" "b < n"
  shows "square n (fold (mh_step A degrees) ps W) \<and> mat_get (fold (mh_step A degrees) ps W) a b =
    (if (min a b, max a b) \<in> set ps \<and> 0 < mat_get A (min a b) (max a b) then mh_weight degrees a b else mat_get W a b)"
  using assms(1,2)
proof (induction ps arbitrary: W)
  case (Cons p ps)
  obtain i j where p: "p = (i, j)" by (cases p)
  have ij: "i < j" "j < n" "i < n" using Cons.prems(1) p by auto
  let ?W = "mh_step A degrees p W"
  have sq: "square n ?W" using Cons.prems(2) by (simp add: mh_step_def square_set_edge p)
  have e: "mat_get ?W a b = (if (min a b, max a b) = (i, j) \<and> 0 < mat_get A i j then mh_weight degrees a b else mat_get W a b)"
    using get_set_edge [OF Cons.prems(2) ij(3,2) assms(3,4)] ij
    by (auto simp: mh_step_def p mh_weight_def max.commute min_def max_def)
  show ?case using Cons.IH [OF _ sq] Cons.prems(1) e by (auto simp: p)
qed (use assms in simp)

lemma set_node_pairs: "set (node_pairs n) = {(i, j). i < j \<and> j < n}"
  by (fastforce simp: node_pairs_def)

lemma mh_edges_entries:
  assumes "a < n" "b < n"
  shows "square n (mh_edges A degrees n)"
    and "mat_get (mh_edges A degrees n) a b =
      (if a \<noteq> b \<and> 0 < mat_get A (min a b) (max a b) then mh_weight degrees a b else 0)"
proof -
  have ps: "list_all (\<lambda>(i, j). i < j \<and> j < n) (node_pairs n)" by (simp add: list_all_iff set_node_pairs)
  have z: "square n (mat_zeros n)" by (simp add: mat_zeros_def)
  show "square n (mh_edges A degrees n)" unfolding mh_edges_def by (rule mh_fold [OF ps z assms, THEN conjunct1])
  show "mat_get (mh_edges A degrees n) a b =
      (if a \<noteq> b \<and> 0 < mat_get A (min a b) (max a b) then mh_weight degrees a b else 0)"
    unfolding mh_edges_def mh_fold [OF ps z assms, THEN conjunct2] using assms by (auto simp: set_node_pairs mat_zeros_def)
qed

lemma diagonal_fold:
  assumes "square n W" "m \<le> n" "a < n" "b < n"
  shows "square n (fold fill_diagonal [0..<m] W) \<and>
    mat_get (fold fill_diagonal [0..<m] W) a b = (if a = b \<and> a < m then 1 - sum_list (W ! a) else mat_get W a b) \<and>
    (\<forall>c<n. m \<le> c \<longrightarrow> fold fill_diagonal [0..<m] W ! c = W ! c)"
  using assms(2)
proof (induction m)
  case (Suc m)
  let ?F = "fold fill_diagonal [0..<m] W"
  from Suc have IH: "square n ?F" "mat_get ?F a b = (if a = b \<and> a < m then 1 - sum_list (W ! a) else mat_get W a b)"
    "\<forall>c<n. m \<le> c \<longrightarrow> ?F ! c = W ! c" by auto
  have m: "m < n" "?F ! m = W ! m" using Suc.prems IH(3) by auto
  have f: "fold fill_diagonal [0..<Suc m] W = mat_set ?F m m (1 - sum_list (W ! m))" by (simp add: m(2) fill_diagonal_def)
  show ?case
  proof (intro conjI)
    show "square n (fold fill_diagonal [0..<Suc m] W)" unfolding f by (rule square_mat_set [OF IH(1)])
    show "mat_get (fold fill_diagonal [0..<Suc m] W) a b = (if a = b \<and> a < Suc m then 1 - sum_list (W ! a) else mat_get W a b)"
      unfolding f using IH(2) by (auto simp: get_mat_set [OF IH(1) m(1) m(1) assms(3,4)])
    show "\<forall>c<n. Suc m \<le> c \<longrightarrow> fold fill_diagonal [0..<Suc m] W ! c = W ! c" unfolding f using IH(3) by (simp add: mat_set_def)
  qed
qed (use assms in simp)

lemma mh_entries:
  assumes "a < n" "b < n"
  shows "square n (metropolis_hastings A degrees n)"
    and "mat_get (metropolis_hastings A degrees n) a b =
      (if a = b then 1 - (\<Sum>j<n. mat_get (mh_edges A degrees n) a j) else mat_get (mh_edges A degrees n) a b)"
  using diagonal_fold [OF mh_edges_entries(1) [OF assms, of A degrees] order_refl assms] assms
    sum_row [OF mh_edges_entries(1) [OF assms, of A degrees] assms(1)]
  by (auto simp: metropolis_hastings_def)

section \<open>Gossip averaging with the mixing matrix\<close>

text \<open>A 0/1 graph without loops and directions, and its degrees.\<close>

definition simple_graph :: "nat \<Rightarrow> matrix \<Rightarrow> bool" where
  "simple_graph n A \<longleftrightarrow> symmetric n A \<and> (\<forall>i<n. mat_get A i i = 0 \<and> (\<forall>j<n. mat_get A i j \<in> {0, 1}))"

lemma undirected_simple:
  assumes "square n A" "\<forall>i<n. \<forall>j<n. mat_get A i j \<in> {0, 1}"
  shows "simple_graph n (undirected A)"
proof -
  have n: "length A = n" using assms(1) by (simp add: square_def)
  have "mat_get (undirected A) i j = max (if i = j then 0 else mat_get A i j) (if j = i then 0 else mat_get A j i)"
    if "i < n" "j < n" for i j
    using that by (simp add: undirected_def Let_def n)
  moreover have "square n (undirected A)" by (simp add: undirected_def Let_def n)
  ultimately show ?thesis using assms(2) by (fastforce simp: simple_graph_def symmetric_def max_def)
qed

text \<open>One round in which every node replaces its value by the weighted mean over its row.\<close>

definition gossip_round :: "matrix \<Rightarrow> nat \<Rightarrow> (nat \<Rightarrow> real) \<Rightarrow> nat \<Rightarrow> real" where
  "gossip_round W n x i = (\<Sum>j<n. mat_get W i j * x j)"

text \<open>The contract of a mixing matrix, and what gossip with it does to the values.\<close>

locale mixing =
  fixes W :: matrix and n :: nat
  assumes sym: "i < n \<Longrightarrow> j < n \<Longrightarrow> mat_get W i j = mat_get W j i"
    and row: "i < n \<Longrightarrow> (\<Sum>j<n. mat_get W i j) = 1"
    and nonneg: "i < n \<Longrightarrow> j < n \<Longrightarrow> 0 \<le> mat_get W i j"
begin

lemma round_sum: "(\<Sum>i<n. gossip_round W n x i) = (\<Sum>i<n. x i)"
proof -
  have "(\<Sum>i<n. gossip_round W n x i) = (\<Sum>j<n. \<Sum>i<n. mat_get W i j * x j)"
    unfolding gossip_round_def by (rule sum.swap)
  also have "\<dots> = (\<Sum>j<n. (\<Sum>i<n. mat_get W j i) * x j)"
    unfolding sum_distrib_right by (intro sum.cong refl) (simp add: sym)
  finally show ?thesis by (simp add: row)
qed

lemma round_between:
  assumes "\<And>j. j < n \<Longrightarrow> lo \<le> x j \<and> x j \<le> hi" "i < n"
  shows "lo \<le> gossip_round W n x i \<and> gossip_round W n x i \<le> hi"
proof -
  have "(\<Sum>j<n. mat_get W i j * lo) \<le> gossip_round W n x i" "gossip_round W n x i \<le> (\<Sum>j<n. mat_get W i j * hi)"
    unfolding gossip_round_def using assms by (auto intro!: sum_mono mult_left_mono nonneg)
  then show ?thesis by (simp add: row assms(2) flip: sum_distrib_right)
qed

lemma rounds_sum: "(\<Sum>i<n. (gossip_round W n ^^ k) x i) = (\<Sum>i<n. x i)"
  by (induction k) (simp_all add: round_sum)

lemma rounds_between:
  assumes "\<And>j. j < n \<Longrightarrow> lo \<le> x j \<and> x j \<le> hi"
  shows "i < n \<Longrightarrow> lo \<le> (gossip_round W n ^^ k) x i \<and> (gossip_round W n ^^ k) x i \<le> hi"
proof (induction k arbitrary: i)
  case (Suc k)
  then show ?case using round_between [of lo "(gossip_round W n ^^ k) x" hi i] by simp
qed (use assms in simp)

end

lemma mh_row_weight:
  assumes "simple_graph n A" "i < n"
  shows "(\<Sum>j<n. mat_get (mh_edges A (degrees_of A) n) i j) \<le> degrees_of A ! i / (1 + degrees_of A ! i)"
proof -
  let ?d = "degrees_of A"
  have sq: "square n A" and A: "mat_get A i j = mat_get A j i" "mat_get A i j \<in> {0, 1}" if "j < n" for j
    using assms that by (auto simp: simple_graph_def symmetric_def)
  have n: "square n A" using assms(1) by (simp add: simple_graph_def symmetric_def)
  have d: "?d ! i = (\<Sum>j<n. mat_get A i j)" using sum_row [OF n assms(2)] n assms(2) by (simp add: degrees_of_def square_def)
  have "0 \<le> ?d ! i" unfolding d by (rule sum_nonneg) (use A(2) in fastforce)
  have "mat_get (mh_edges A ?d n) i j \<le> mat_get A i j * (1 / (1 + ?d ! i))" if j: "j < n" for j
  proof -
    have m: "mat_get A (min i j) (max i j) = mat_get A i j" using A(1) [OF j] by (auto simp: min_def max_def)
    have "1 / (1 + max (?d ! i) (?d ! j)) \<le> 1 / (1 + ?d ! i)" using \<open>0 \<le> ?d ! i\<close> by (intro divide_left_mono) auto
    then show ?thesis using A(2) [OF j] \<open>0 \<le> ?d ! i\<close> unfolding mh_edges_entries(2) [OF assms(2) j] m by (auto simp: mh_weight_def)
  qed
  then have "(\<Sum>j<n. mat_get (mh_edges A ?d n) i j) \<le> (\<Sum>j<n. mat_get A i j * (1 / (1 + ?d ! i)))" by (intro sum_mono) simp
  then show ?thesis by (simp add: d flip: sum_divide_distrib)
qed

lemma mh_mixing:
  assumes "simple_graph n A"
  shows "mixing (metropolis_hastings A (degrees_of A) n) n"
proof
  let ?d = "degrees_of A" and ?W = "metropolis_hastings A (degrees_of A) n" and ?E = "mh_edges A (degrees_of A) n"
  have sym: "symmetric n A" using assms by (simp add: simple_graph_def)
  have n: "square n A" using sym by (simp add: symmetric_def)
  have d: "0 \<le> ?d ! i" if "i < n" for i
    using sum_row [OF n that] n that assms by (fastforce simp: degrees_of_def square_def simple_graph_def intro!: sum_nonneg)
  have E0: "mat_get ?E i i = 0" if "i < n" for i using mh_edges_entries(2) [OF that that] by simp
  have E: "mat_get ?E i j = mat_get ?E j i" if "i < n" "j < n" for i j
    using mh_edges_entries(2) [OF that] mh_edges_entries(2) [OF that(2,1)] by (auto simp: mh_weight_def max.commute min.commute)
  have Epos: "0 \<le> mat_get ?E i j" if "i < n" "j < n" for i j
    unfolding mh_edges_entries(2) [OF that] using d [OF that(1)] by (simp add: mh_weight_def max_def)
  show "mat_get ?W i j = mat_get ?W j i" if "i < n" "j < n" for i j
    using mh_entries(2) [OF that] mh_entries(2) [OF that(2,1)] E [OF that] by auto
  show "(\<Sum>j<n. mat_get ?W i j) = 1" if i: "i < n" for i
  proof -
    have "(\<Sum>j<n. mat_get ?W i j) = mat_get ?W i i + (\<Sum>j \<in> {..<n} - {i}. mat_get ?W i j)"
      using i by (simp add: sum.remove)
    also have "(\<Sum>j \<in> {..<n} - {i}. mat_get ?W i j) = (\<Sum>j \<in> {..<n} - {i}. mat_get ?E i j)"
      using mh_entries(2) [OF i] by (intro sum.cong) auto
    also have "\<dots> = (\<Sum>j<n. mat_get ?E i j)" using i E0 by (simp add: sum.remove [of "{..<n}" i])
    finally show ?thesis using mh_entries(2) [OF i i] by simp
  qed
  show "0 \<le> mat_get ?W i j" if "i < n" "j < n" for i j
  proof (cases "i = j")
    case True
    have "?d ! i / (1 + ?d ! i) \<le> 1" using d [OF that(1)] by simp
    then have "(\<Sum>k<n. mat_get ?E i k) \<le> 1" using mh_row_weight [OF assms that(1)] by linarith
    then show ?thesis using mh_entries(2) [OF that] True by simp
  next
    case False
    then show ?thesis using mh_entries(2) [OF that] Epos [OF that] by simp
  qed
qed

interpretation complete_mixing: mixing "metropolis_hastings (undirected (build_complete_adjacency n)) (degrees_of (undirected (build_complete_adjacency n))) n" n for n
  by (rule mh_mixing, rule undirected_simple) (simp_all add: build_complete_adjacency_def)

text \<open>C10: The mixing matrix of the analysis. For any graph of zeros and ones the matrix is symmetric and non-negative with rows
  that sum to one, so gossip averaging with it keeps the sum of the values over any number of rounds and never
  leaves their range.\<close>

theorem mixing_matrix_preserves_average:
  assumes "square n A" "\<forall>i<n. \<forall>j<n. mat_get A i j \<in> {0, 1}" "\<forall>j<n. lo \<le> x j \<and> x j \<le> hi"
  shows "let W = metropolis_hastings (undirected A) (degrees_of (undirected A)) n in
    mixing W n \<and> (\<Sum>i<n. (gossip_round W n ^^ k) x i) = (\<Sum>i<n. x i) \<and>
    (\<forall>i<n. lo \<le> (gossip_round W n ^^ k) x i \<and> (gossip_round W n ^^ k) x i \<le> hi)"
proof -
  let ?W = "metropolis_hastings (undirected A) (degrees_of (undirected A)) n"
  have m: "mixing ?W n" by (rule mh_mixing [OF undirected_simple [OF assms(1,2)]])
  show ?thesis using m mixing.rounds_sum [OF m] mixing.rounds_between [OF m, of lo x hi] assms(3) unfolding Let_def by blast
qed

theorem mixing_matrix_preserves_average_witness:
  "let W = metropolis_hastings (undirected [[1, 1], [0, 1]]) (degrees_of (undirected [[1, 1], [0, 1]])) 2 in
    mixing W 2 \<and> (\<Sum>i<2. (gossip_round W 2 ^^ 3) real i) = (\<Sum>i<2. real i) \<and>
    list_all (\<lambda>i. 0 \<le> (gossip_round W 2 ^^ 3) real i \<and> (gossip_round W 2 ^^ 3) real i \<le> 1) [0, 1]"
proof -
  have "\<forall>i<2. \<forall>j<2. mat_get [[1, 1], [0, 1]] i j \<in> {0, 1}" by (simp add: mat_get_def numeral_2_eq_2 less_Suc_eq)
  then show ?thesis
    using mixing_matrix_preserves_average [of 2 "[[1, 1], [0, 1]]" 0 real 1 3] by (simp add: square_def Let_def)
qed

section \<open>Built graphs\<close>

lemma set_edge_binary:
  assumes "simple_graph n A" "fst e < n" "snd e < n" "fst e \<noteq> snd e"
  shows "simple_graph n (set_edge e 1 A)"
proof (cases e)
  case (Pair i j)
  have A: "square n A" "\<And>a. a < n \<Longrightarrow> mat_get A a a = 0" "\<And>a b. a < n \<Longrightarrow> b < n \<Longrightarrow> mat_get A a b \<in> {0, 1}"
    using assms(1) by (auto simp: simple_graph_def symmetric_def)
  have "mat_get (set_edge e 1 A) a a = 0" "mat_get (set_edge e 1 A) a b \<in> {0, 1}" if "a < n" "b < n" for a b
    using that A(2,3) assms(2-4) by (auto simp: Pair get_set_edge [OF A(1)])
  then show ?thesis using symmetric_set_edge [of n A e 1] assms by (auto simp: simple_graph_def)
qed

lemma fold_edges_simple:
  "simple_graph n A \<Longrightarrow> list_all (\<lambda>e. fst e < n \<and> snd e < n \<and> fst e \<noteq> snd e) es \<Longrightarrow> simple_graph n (fold (\<lambda>e. set_edge e 1) es A)"
  by (induction es arbitrary: A) (auto simp: set_edge_binary)

lemma zeros_simple: "simple_graph n (mat_zeros n)"
  by (simp add: simple_graph_def symmetric_zeros) (simp add: mat_zeros_def)

lemma ring_simple:
  assumes "2 \<le> n"
  shows "simple_graph n (build_ring_adjacency n)"
proof -
  have "(i + 1) mod n \<noteq> i \<and> (i + 1) mod n < n" if "i < n" for i
    using that assms by (cases "i + 1 = n") auto
  then have "list_all (\<lambda>e. fst e < n \<and> snd e < n \<and> fst e \<noteq> snd e) (map (\<lambda>i. (i, (i + 1) mod n)) [0..<n])"
    by (fastforce simp: list_all_iff)
  from fold_edges_simple [OF zeros_simple this] show ?thesis by (simp add: build_ring_adjacency_def fold_map comp_def)
qed

lemma complete_simple: "simple_graph n (build_complete_adjacency n)"
  by (auto simp: simple_graph_def symmetric_def build_complete_adjacency_def)

text \<open>Degrees of a graph of zeros and ones, as the trial counts them.\<close>

definition degree_at :: "nat \<Rightarrow> matrix \<Rightarrow> nat \<Rightarrow> nat" where
  "degree_at n A i = card {j. j < n \<and> mat_get A i j = 1}"

lemma row_degree: "simple_graph n A \<Longrightarrow> i < n \<Longrightarrow> sum_list (A ! i) = real (degree_at n A i)"
proof -
  assume A: "simple_graph n A" and i: "i < n"
  then have "sum_list (A ! i) = (\<Sum>j<n. mat_get A i j)" using sum_row [of n A i] unfolding simple_graph_def symmetric_def by blast
  also have "\<dots> = (\<Sum>j<n. if mat_get A i j = 1 then 1 else 0)"
    using A i by (intro sum.cong) (auto simp: simple_graph_def)
  also have "\<dots> = real (card ({..<n} \<inter> {j. mat_get A i j = 1}))" by (simp add: sum.If_cases)
  also have "{..<n} \<inter> {j. mat_get A i j = 1} = {j. j < n \<and> mat_get A i j = 1}" by auto
  finally show ?thesis by (simp add: degree_at_def)
qed

lemma new_edge_degree:
  assumes "simple_graph n A" "i < n" "j < n" "i \<noteq> j" "mat_get A i j = 0" "v < n"
  shows "degree_at n (set_edge (i, j) 1 A) v = degree_at n A v + (if v = i \<or> v = j then 1 else 0)"
proof -
  have sq: "square n A" and ji: "mat_get A j i = 0" using assms by (auto simp: simple_graph_def symmetric_def)
  define new where "new = (if v = i then {j} else if v = j then {i} else {})"
  have "{u. u < n \<and> mat_get (set_edge (i, j) 1 A) v u = 1} = {u. u < n \<and> mat_get A v u = 1} \<union> new"
    using assms(2-4) get_set_edge [OF sq assms(2,3,6), of _ 1] by (cases "v = i"; cases "v = j") (auto simp: new_def)
  moreover have "{u. u < n \<and> mat_get A v u = 1} \<inter> new = {}" using assms(5) ji by (auto simp: new_def)
  moreover have "finite new" "card new = (if v = i \<or> v = j then 1 else 0)" using assms(4) by (auto simp: new_def)
  ultimately show ?thesis by (simp add: degree_at_def card_Un_disjoint)
qed

lemma new_edges_degree:
  assumes "simple_graph n A" "i < n" "distinct js" "list_all (\<lambda>j. j < n \<and> j \<noteq> i \<and> mat_get A i j = 0) js" "v < n"
  shows "simple_graph n (fold (\<lambda>j. set_edge (i, j) 1) js A) \<and> degree_at n (fold (\<lambda>j. set_edge (i, j) 1) js A) v =
    degree_at n A v + (if v = i then length js else if v \<in> set js then 1 else 0)"
  using assms(1,3,4)
proof (induction js arbitrary: A)
  case (Cons j js)
  have j: "j < n" "i \<noteq> j" "mat_get A i j = 0" using Cons.prems(3) by auto
  let ?A = "set_edge (i, j) 1 A"
  have simple: "simple_graph n ?A" using set_edge_binary [OF Cons.prems(1), of "(i, j)"] assms(2) j by simp
  have sq: "square n A" using Cons.prems(1) by (simp add: simple_graph_def symmetric_def)
  have "mat_get ?A i k = 0" if "k \<in> set js" for k
  proof -
    have k: "k < n" "k \<noteq> j" "k \<noteq> i" "mat_get A i k = 0" using Cons.prems(2,3) that by (auto simp: list_all_iff)
    then show ?thesis using get_set_edge [OF sq assms(2) j(1) assms(2) k(1)] by simp
  qed
  then have js: "list_all (\<lambda>k. k < n \<and> k \<noteq> i \<and> mat_get ?A i k = 0) js" using Cons.prems(3) by (simp add: list_all_iff)
  have d: "distinct js" using Cons.prems(2) by simp
  show ?case
    using Cons.IH [OF simple d js] new_edge_degree [OF Cons.prems(1) assms(2) j assms(5)] Cons.prems(2) j(2) by auto
qed simp

definition degrees_le :: "nat \<Rightarrow> int \<Rightarrow> matrix \<Rightarrow> bool" where
  "degrees_le n d A \<longleftrightarrow> simple_graph n A \<and> (\<forall>v<n. int (degree_at n A v) \<le> d)"

lemma regular_node_degrees:
  assumes "fair_draw draw" "degrees_le n d A" "i < n"
  shows "degrees_le n d (regular_node draw n d i A)"
proof (cases "regular_node draw n d i A = A")
  case False
  have A: "simple_graph n A" "\<And>v. v < n \<Longrightarrow> int (degree_at n A v) \<le> d" using assms(2) by (simp_all add: degrees_le_def)
  have deg: "py_int (sum_list (A ! v)) = int (degree_at n A v)" if "v < n" for v
    using row_degree [OF A(1) that] by (simp add: py_int_def)
  let ?c = "regular_candidates n d i A" and ?k = "d - int (degree_at n A i)"
  let ?js = "map ((!) ?c) (draw (length ?c) (nat ?k))"
  have node: "regular_node draw n d i A = fold (\<lambda>j. set_edge (i, j) 1) ?js A" "0 < ?k" "?k \<le> int (length ?c)"
    using False deg [OF assms(3)] by (auto simp: regular_node_def Let_def split: if_splits)
  then have s: "py_sample draw ?c ?k = ok ?js" by (simp add: py_sample_def)
  have js: "int (length ?js) = ?k" "set ?js \<subseteq> set ?c" "distinct ?js"
    using py_sample_ok [OF assms(1) s] py_sample_ok(3) [OF assms(1) s, of "\<lambda>x. x"] by (simp_all add: regular_candidates_def)
  have c: "j < n \<and> j \<noteq> i \<and> mat_get A i j = 0 \<and> int (degree_at n A j) < d" if "j \<in> set ?js" for j
    using that js(2) deg by (fastforce simp: regular_candidates_def)
  then have "list_all (\<lambda>j. j < n \<and> j \<noteq> i \<and> mat_get A i j = 0) ?js" unfolding list_all_iff by blast
  note new = new_edges_degree [OF A(1) assms(3) js(3) this]
  have "int (degree_at n (fold (\<lambda>j. set_edge (i, j) 1) ?js A) v) \<le> d" if v: "v < n" for v
    using new [OF v] js(1) A(2) [OF v] c [of v] by (auto split: if_splits)
  then show ?thesis unfolding node(1) degrees_le_def using new [OF assms(3)] by blast
qed (use assms in simp)

lemma regular_trial_degrees:
  assumes "\<And>i. fair_draw (draws i)" "0 \<le> d"
  shows "degrees_le n d (regular_trial draws n d)"
proof -
  have "degree_at n (mat_zeros n) v = 0" if "v < n" for v
  proof -
    have "{j. j < n \<and> mat_get (mat_zeros n) v j = 1} = {}" using that by (auto simp: mat_zeros_def)
    then show ?thesis unfolding degree_at_def by (simp only: card.empty)
  qed
  then have z: "degrees_le n d (mat_zeros n)" using zeros_simple assms(2) by (simp add: degrees_le_def)
  have "degrees_le n d (fold (\<lambda>i. regular_node (draws i) n d i) is A)" if "degrees_le n d A" "list_all (\<lambda>i. i < n) is" for "is" A
    using that by (induction "is" arbitrary: A) (auto simp: regular_node_degrees [OF assms(1)])
  then show ?thesis using z by (simp add: regular_trial_def list_all_iff)
qed

text \<open>The graph of \<open>build_random_regular_adjacency\<close> is simple and no node has more than \<open>degree\<close> neighbours,
  whatever is chosen; some may have fewer, none at all included.\<close>

theorem random_regular_degrees:
  assumes "\<And>r i. fair_draw (draws r i)" "0 \<le> degree" "0 < n"
  shows "\<exists>A. build_random_regular_adjacency draws n degree = ok A \<and> simple_graph n A \<and>
    (degree < int n \<longrightarrow> list_all (\<lambda>d. d \<le> of_int degree) (degrees_of A))"
proof (cases "int n \<le> degree")
  case False
  have r: "degrees_le n degree (regular_retries draws n degree k)" for k
    by (induction k) (simp_all add: regular_trial_degrees [OF assms(1,2)] Let_def)
  define B where "B = regular_retries draws n degree 9"
  have B: "simple_graph n B" "\<And>v. v < n \<Longrightarrow> int (degree_at n B v) \<le> degree" using r [of 9] by (simp_all add: degrees_le_def B_def)
  then have n: "length B = n" by (simp add: simple_graph_def symmetric_def square_def)
  have "sum_list (B ! v) \<le> of_int degree" if "v < n" for v
    unfolding row_degree [OF B(1) that] using B(2) [OF that] by linarith
  then have "list_all (\<lambda>d. d \<le> of_int degree) (degrees_of B)" by (simp add: degrees_of_def list_all_length n)
  then show ?thesis using False assms(3) B(1) by (simp add: build_random_regular_adjacency_def B_def)
qed (simp add: build_random_regular_adjacency_def complete_simple)

theorem random_regular_degrees_witness:
  "\<exists>A. build_random_regular_adjacency (\<lambda>r i n k. [0..<k]) 3 2 = ok A \<and> simple_graph 3 A \<and> list_all (\<lambda>d. d \<le> 2) (degrees_of A)"
proof -
  have "fair_draw (\<lambda>n k. [0..<k])" by (auto simp: fair_draw_def)
  then show ?thesis using random_regular_degrees [of "\<lambda>r i n k. [0..<k]" 2 3] by simp
qed

end
