(* ===== verification/Momentum_Strategies.thy ===== *)
theory Momentum_Strategies
  imports Aggregation
begin

text \<open>
  The strategies that remember the last global model: \<open>FedAvgM\<close> (\<open>aggregation/fedavgm.py\<close>) with a momentum buffer and
  \<open>FedProx\<close> (\<open>aggregation/fedprox.py\<close>). Their persistence is not modelled. Element-wise operations need equal shapes; where
  numpy would broadcast different ones the model raises. A result is converted to the dtype of the left array;
  what numpy rounds between two operations on arrays narrower than \<open>float64\<close> is not modelled.
\<close>

section \<open>Element-wise operations\<close>

text \<open>Two elements combined in the dtype of the result. Which non-finite value an operation on a non-finite one gives is
  not modelled; the model takes NaN.\<close>

definition flt_map2 :: "string \<Rightarrow> (real \<Rightarrow> real \<Rightarrow> real) \<Rightarrow> flt \<Rightarrow> flt \<Rightarrow> flt" where
  "flt_map2 d f x y = (case (x, y) of (Fin a, Fin b) \<Rightarrow> np_cast d (f a b) | _ \<Rightarrow> NaN)"

definition array_map2 :: "(real \<Rightarrow> real \<Rightarrow> real) \<Rightarrow> ndarray \<Rightarrow> ndarray \<Rightarrow> ndarray result" where
  "array_map2 f a b = (if nd_shape a = nd_shape b 
     then ok (a\<lparr>nd_data := map2 (flt_map2 (nd_dtype a) f) (nd_data a) (nd_data b)\<rparr>)
     else raise (ValueError ''operands could not be broadcast together''))"

text \<open>What the delta, the momentum, the server step and the proximal correction share: arrays are combined element by
  element, in a dictionary those that the other one has too, and anything else is kept. The error is the one
  of the operation on something that is no array.\<close>

definition combine_entry :: "py_error \<Rightarrow> (real \<Rightarrow> real \<Rightarrow> real) \<Rightarrow> (string, entry) pydict \<Rightarrow> string \<times> entry \<Rightarrow> (string \<times> entry) result" where
  "combine_entry e f other = (\<lambda>(key, v). case (v, map_of other key) of
      (Tensor a, Some (Tensor b)) \<Rightarrow> result_bind (array_map2 f a b) (\<lambda>c. ok (key, Tensor c))
    | (Tensor a, Some _) \<Rightarrow> raise e
    | _ \<Rightarrow> ok (key, v))"

fun combine_weights :: "py_error \<Rightarrow> (real \<Rightarrow> real \<Rightarrow> real) \<Rightarrow> weights \<Rightarrow> weights \<Rightarrow> weights result" where
  "combine_weights e f (NdArray a) (NdArray b) = result_bind (array_map2 f a b) (\<lambda>c. ok (NdArray c))"
| "combine_weights e f (NdArray a) (StateDict _) = raise e"
| "combine_weights e f (StateDict kvs) w =
     result_bind (result_map (combine_entry e f (dict_items w)) kvs) (\<lambda>kvs'. ok (StateDict kvs'))"

section \<open>FedAvgM\<close>

record fedavgm =
  fm_server_momentum :: real
  fm_momentum_buffer :: "weights option"
  fm_global_weights :: "weights option"

definition fedavgm_init :: "real \<Rightarrow> fedavgm result" where
  "fedavgm_init server_momentum =
     (if \<not> (0 \<le> server_momentum \<and> server_momentum < 1) then raise (ValueError ''server_momentum must be in [0, 1)'')
      else ok \<lparr>fm_server_momentum = server_momentum, fm_momentum_buffer = None, fm_global_weights = None\<rparr>)"

text \<open>\<open>compute_weight\<close> of the base class.\<close>

definition sample_weight :: "peer_update \<Rightarrow> real" where
  "sample_weight u = of_int (up_sample_count u)"

text \<open>\<open>_average_numpy\<close> and \<open>_average_dict\<close> repeat the code of \<open>FedAvg\<close>.\<close>

definition fedavgm_average_numpy :: "peer_update list \<Rightarrow> real list \<Rightarrow> real \<Rightarrow> weights result" where
  "fedavgm_average_numpy updates weights_list total_weight = aggregate_numpy updates weights_list total_weight"

definition fedavgm_average_dict :: "peer_update list \<Rightarrow> real list \<Rightarrow> weights result" where
  "fedavgm_average_dict updates weights_list = aggregate_dict updates weights_list"

definition fedavgm_average :: "peer_update list \<Rightarrow> weights result" where
  "fedavgm_average updates =
     (let weights_list = map sample_weight updates;
          total_weight = sum_list weights_list;
          total_weight' = (if total_weight = 0 then real (length updates) else total_weight)
      in case up_weights (hd updates) of
           NdArray _ \<Rightarrow> fedavgm_average_numpy updates weights_list total_weight'
         | StateDict _ \<Rightarrow> fedavgm_average_dict updates weights_list)"

fun zeros_entry :: "entry \<Rightarrow> entry" where
  "zeros_entry (Tensor a) = Tensor (array_like a (replicate (length (nd_data a)) 0))"
| "zeros_entry v = v"

fun zeros_like :: "weights \<Rightarrow> weights" where
  "zeros_like (NdArray a) = NdArray (array_like a (replicate (length (nd_data a)) 0))"
| "zeros_like (StateDict kvs) = StateDict (map (\<lambda>(k, v). (k, zeros_entry v)) kvs)"

definition compute_model_delta :: "weights \<Rightarrow> weights \<Rightarrow> weights result" where
  "compute_model_delta previous_global averaged = combine_weights AttributeError (\<lambda>g a. g - a) previous_global averaged"

text \<open>A buffer that is missing (after a partial restore) stays missing, and the step that needs it raises.\<close>

definition apply_momentum :: "real \<Rightarrow> weights option \<Rightarrow> weights \<Rightarrow> weights option result" where
  "apply_momentum server_momentum buffer delta = (case buffer of
      None \<Rightarrow> ok None
    | Some b \<Rightarrow> result_bind (combine_weights TypeError (\<lambda>v d. server_momentum * v + d) b delta) (\<lambda>b'. ok (Some b')))"

definition apply_server_update :: "weights \<Rightarrow> weights option \<Rightarrow> weights result" where
  "apply_server_update previous_global momentum_buffer = (case momentum_buffer of
      Some b \<Rightarrow> combine_weights AttributeError (\<lambda>g v. g - v) previous_global b
    | None \<Rightarrow> (case previous_global of
        NdArray _ \<Rightarrow> raise AttributeError
      | StateDict [] \<Rightarrow> ok (StateDict [])
      | StateDict (_ # _) \<Rightarrow> raise TypeError))"

definition fedavgm_momentum_step :: "fedavgm \<Rightarrow> weights \<Rightarrow> weights \<Rightarrow> fedavgm \<times> unit result" where
  "fedavgm_momentum_step s g averaged =
     (case result_bind (compute_model_delta g averaged) (apply_momentum (fm_server_momentum s) (fm_momentum_buffer s)) of
        Inl e \<Rightarrow> (s, Inl e)
      | Inr b \<Rightarrow>
          let s' = s\<lparr>fm_momentum_buffer := b\<rparr> in
          case apply_server_update g b of
            Inl e \<Rightarrow> (s', Inl e)
          | Inr g' \<Rightarrow> (s'\<lparr>fm_global_weights := Some g'\<rparr>, ok ()))"

definition fedavgm_aggregate :: "fedavgm \<Rightarrow> peer_update list \<Rightarrow> fedavgm \<times> aggregated_model result" where
  "fedavgm_aggregate s updates =
     (case result_bind (validate_updates updates) (\<lambda>_. fedavgm_average updates) of
        Inl e \<Rightarrow> (s, Inl e)
      | Inr averaged \<Rightarrow> (case fm_global_weights s of
            None \<Rightarrow> (s\<lparr>fm_global_weights := Some averaged, fm_momentum_buffer := Some (zeros_like averaged)\<rparr>,
                     ok (aggregated updates averaged))
          | Some g \<Rightarrow> (case fedavgm_momentum_step s g averaged of
                (s', Inl e) \<Rightarrow> (s', Inl e)
              | (s', Inr _) \<Rightarrow> (s', case fm_global_weights s' of
                    Some g' \<Rightarrow> ok (aggregated updates g') | None \<Rightarrow> raise TypeError))))"

section \<open>FedProx\<close>

datatype prox_mode = Training_Time | Weight_Interpolation | Other_Mode string

record fedprox =
  fx_mu :: real
  fx_mode :: prox_mode
  fx_config :: fedavg
  fx_global_weights :: "weights option"

definition fedprox_init :: "real \<Rightarrow> prox_mode \<Rightarrow> fedavg \<Rightarrow> fedprox result" where
  "fedprox_init mu mode cfg =
     (if mu \<le> 0 then raise (ValueError ''mu must be > 0'')
      else ok \<lparr>fx_mu = mu, fx_mode = mode, fx_config = cfg, fx_global_weights = None\<rparr>)"

text \<open>The correction of a whole array is not converted back: its dtype is the one numpy gives the sum of two arrays
  scaled by Python floats.\<close>

definition scaled_sum_dtype :: "string \<Rightarrow> string \<Rightarrow> string" where
  "scaled_sum_dtype d d' =
     (if d = ''float16'' \<and> d' = ''float16'' then ''float16''
      else if d \<in> {''float16'', ''float32''} \<and> d' \<in> {''float16'', ''float32''} then ''float32'' else ''float64'')"

definition proximal_correction :: "real \<Rightarrow> weights \<Rightarrow> weights \<Rightarrow> weights result" where
  "proximal_correction mu w global_weights =
     (let f = (\<lambda>x g. (1 - mu) * x + mu * g) in
      case (w, global_weights) of
        (NdArray a, NdArray g) \<Rightarrow>
          combine_weights TypeError f (NdArray (a\<lparr>nd_dtype := scaled_sum_dtype (nd_dtype a) (nd_dtype g)\<rparr>)) (NdArray g)
      | _ \<Rightarrow> combine_weights TypeError f w global_weights)"

definition apply_proximal_term :: "fedprox \<Rightarrow> peer_update list \<Rightarrow> peer_update list result" where
  "apply_proximal_term s updates = (case fx_global_weights s of
      None \<Rightarrow> ok updates
    | Some g \<Rightarrow> result_map (\<lambda>u. result_bind (proximal_correction (fx_mu s) (up_weights u) g) (\<lambda>w. ok (u\<lparr>up_weights := w\<rparr>))) updates)"

definition fedprox_aggregate :: "fedprox \<Rightarrow> peer_update list \<Rightarrow> fedprox \<times> aggregated_model result" where
  "fedprox_aggregate s updates =
     (let result = result_bind (validate_updates updates) (\<lambda>_.
          if fx_global_weights s \<noteq> None \<and> fx_mode s = Weight_Interpolation
          then result_bind (apply_proximal_term s updates) (fedavg_aggregate (fx_config s))
          else fedavg_aggregate (fx_config s) updates)
      in (case result of Inl e \<Rightarrow> s | Inr m \<Rightarrow> s\<lparr>fx_global_weights := Some (ag_weights m)\<rparr>, result))"

text \<open>What the training loop is given; round zero reads a logger the module does not have.\<close>

datatype overrides = No_Overrides | Proximal real weights | Raises_NameError

definition get_training_config_overrides :: "fedprox \<Rightarrow> int option \<Rightarrow> overrides" where
  "get_training_config_overrides s current_round = (case (fx_mode s, fx_global_weights s) of
      (Training_Time, Some g) \<Rightarrow> if current_round = Some 0 then Raises_NameError else Proximal (fx_mu s) g
    | _ \<Rightarrow> No_Overrides)"

section \<open>Contracts\<close>

interpretation fedavgm: aggregation_strategy "\<lambda>us. snd (fedavgm_aggregate s us)" for s
  by unfold_locales
    (auto simp: fedavgm_aggregate_def fedavgm_momentum_step_def aggregated_def Let_def split: sum.splits option.splits)

lemma apply_proximal_ids:
  assumes "apply_proximal_term s us = ok vs"
  shows "map up_peer_id vs = map up_peer_id us"
proof -
  have "map up_peer_id vs = map up_peer_id us"
    if "result_map (\<lambda>u. result_bind (h u) (\<lambda>w. ok (u\<lparr>up_weights := w\<rparr>))) us = ok vs" for h
    using that by (induction us arbitrary: vs) (auto simp: result_bind_eq_ok)
  then show ?thesis using assms by (auto simp: apply_proximal_term_def split: option.splits)
qed

interpretation fedprox: aggregation_strategy "\<lambda>us. snd (fedprox_aggregate s us)" for s
proof
  fix us m assume "snd (fedprox_aggregate s us) = Inr m"
  then obtain vs where "fedavg_aggregate (fx_config s) vs = Inr m" "vs = us \<or> apply_proximal_term s us = ok vs"
    by (auto simp: fedprox_aggregate_def Let_def result_bind_eq_ok split: if_splits)
  then have "set (ag_contributing_peers m) \<subseteq> up_peer_id ` set vs" "map up_peer_id vs = map up_peer_id us"
    using fedavg.contributors apply_proximal_ids by blast+
  then show "set (ag_contributing_peers m) \<subseteq> up_peer_id ` set us" by (metis list.set_map)
qed (simp add: fedprox_aggregate_def Let_def)

section \<open>Element by element\<close>

text \<open>Weights whose arrays hold finite numbers in \<open>float64\<close>: no conversion changes a value.\<close>

definition float64_array :: "ndarray \<Rightarrow> bool" where
  "float64_array a \<longleftrightarrow> array_wf a \<and> nd_dtype a = ''float64'' \<and> finite_array a"

definition float64_weights :: "weights \<Rightarrow> bool" where
  "float64_weights w \<longleftrightarrow> weights_wf w \<and> list_all (\<lambda>l. float64_array (the (tensor_at w l))) (locators w)"

lemma float64_weights_iff:
  "float64_weights w \<longleftrightarrow> weights_wf w \<and> (\<forall>l a. tensor_at w l = Some a \<longrightarrow> float64_array a)"
proof (cases "weights_wf w")
  case True
  then show ?thesis
    by (auto simp: float64_weights_def list_all_iff Ball_def locators_iff [OF True])
qed (simp add: float64_weights_def)

text \<open>Such weights with the same arrays of the same shapes.\<close>

definition matching :: "weights \<Rightarrow> weights \<Rightarrow> bool" where
  "matching v w \<longleftrightarrow> float64_weights v \<and> float64_weights w \<and>
     (\<forall>l. map_option nd_shape (tensor_at v l) = map_option nd_shape (tensor_at w l))"

lemma matching_wf: "matching v w \<Longrightarrow> weights_wf v \<and> weights_wf w"
  by (simp add: matching_def float64_weights_def)

lemma matching_sym: "matching v w \<Longrightarrow> matching w v"
  by (simp add: matching_def)

lemma matching_trans: "matching u v \<Longrightarrow> matching v w \<Longrightarrow> matching u w"
  by (simp add: matching_def)

lemma matching_refl: "float64_weights v \<Longrightarrow> matching v v"
  by (simp add: matching_def)

lemma matching_locators: "matching v w \<Longrightarrow> set (locators v) = set (locators w)"
  using locators_iff [of v] locators_iff [of w] matching_wf [of v w] unfolding matching_def
  by (intro equalityI subsetI) (metis option.map_disc_iff)+

lemma matching_arrays:
  assumes "matching v w"
  shows "tensor_at v l = Some a \<Longrightarrow> float64_array a" "tensor_at w l = Some b \<Longrightarrow> float64_array b"
  using assms by (auto simp: matching_def float64_weights_iff)

definition size_at :: "weights \<Rightarrow> string option \<Rightarrow> nat" where
  "size_at w l = (case tensor_at w l of None \<Rightarrow> 0 | Some a \<Rightarrow> length (nd_data a))"

lemma matching_size: "matching v w \<Longrightarrow> size_at v l = size_at w l"
proof -
  assume m: "matching v w"
  have "map_option nd_shape (tensor_at v l) = map_option nd_shape (tensor_at w l)" using m by (simp add: matching_def)
  moreover have "array_wf a" if "tensor_at v l = Some a" for a
    using matching_arrays(1) [OF m that] by (simp add: float64_array_def)
  moreover have "array_wf b" if "tensor_at w l = Some b" for b
    using matching_arrays(2) [OF m that] by (simp add: float64_array_def)
  ultimately show ?thesis by (cases "tensor_at v l"; cases "tensor_at w l") (simp_all add: size_at_def array_wf_def)
qed

definition elementwise :: "(real \<Rightarrow> real \<Rightarrow> real) \<Rightarrow> weights \<Rightarrow> weights \<Rightarrow> weights \<Rightarrow> bool" where
  "elementwise f u v w \<longleftrightarrow> matching u v \<and> (\<forall>l i. i < size_at v l \<longrightarrow> element u l i = f (element v l i) (element w l i))"

lemma is_finite_iff: "is_finite v \<longleftrightarrow> (\<exists>x. v = Fin x)"
  by (cases v) simp_all

lemma array_map2_same:
  assumes "nd_shape a = nd_shape b" "float64_array a" "float64_array b"
  shows "\<exists>c. array_map2 f a b = ok c \<and> nd_shape c = nd_shape a \<and> float64_array c \<and>
    (\<forall>i<length (nd_data a). reals c ! i = f (reals a ! i) (reals b ! i))"
proof -
  have len: "length (nd_data a) = length (nd_data b)"
    using assms by (simp add: float64_array_def array_wf_def)
  have fin: "\<exists>x. nd_data a ! i = Fin x" "\<exists>y. nd_data b ! i = Fin y" if "i < length (nd_data a)" for i
    using assms(2,3) that len by (simp_all add: float64_array_def finite_array_def list_all_length is_finite_iff)
  let ?c = "a\<lparr>nd_data := map2 (flt_map2 ''float64'' f) (nd_data a) (nd_data b)\<rparr>"
  have nth: "nd_data ?c ! i = Fin (f (reals a ! i) (reals b ! i))" if "i < length (nd_data a)" for i
    using fin [OF that] len that by (auto simp: flt_map2_def reals_def)
  have "finite_array ?c"
    using nth len by (simp add: finite_array_def list_all_length)
  moreover have "array_wf ?c"
    using len assms(2) by (auto simp: array_wf_def float64_array_def list_all_iff split: flt.split)
  moreover have "reals ?c ! i = f (reals a ! i) (reals b ! i)" if "i < length (nd_data a)" for i
    using nth [OF that] len that by (simp add: reals_def)
  ultimately show ?thesis
    using assms(1,2) by (intro exI [of _ ?c]) (simp add: array_map2_def float64_array_def)
qed

lemma float64_single: "float64_weights (NdArray a) \<longleftrightarrow> float64_array a"
  by (simp add: float64_weights_def float64_array_def)

lemma combine_arrays:
  assumes "matching (NdArray a) w"
  shows "\<exists>u. combine_weights e f (NdArray a) w = ok u \<and> elementwise f u (NdArray a) w"
proof -
  have m: "float64_array a" "map_option nd_shape (tensor_at w None) = Some (nd_shape a)"
    using assms matching_arrays(1) [OF assms, of None a] unfolding matching_def
    by (simp, metis option.map(2) tensor_at.simps(1))
  then obtain b where w: "w = NdArray b" "nd_shape b = nd_shape a" by (cases w) auto
  have wb: "float64_array b" using matching_arrays(2) [OF assms, of None b] w by simp
  obtain c where c: "array_map2 f a b = ok c" "nd_shape c = nd_shape a" "float64_array c"
    "\<forall>i<length (nd_data a). reals c ! i = f (reals a ! i) (reals b ! i)"
    using array_map2_same [of a b f] m(1) w wb by auto
  have "map_option nd_shape (tensor_at (NdArray c) l) = map_option nd_shape (tensor_at (NdArray a) l)" for l
    using c(2) by (cases l) simp_all
  moreover have "element (NdArray c) l i = f (element (NdArray a) l i) (element w l i)" if "i < size_at (NdArray a) l" for l i
    using that c(4) by (cases l) (simp_all add: size_at_def element_def w(1))
  ultimately show ?thesis
    using c(1,3) m(1) by (simp add: w(1) elementwise_def matching_def float64_single)
qed

lemma combine_dicts:
  assumes "matching (StateDict kvs) w"
  shows "\<exists>u. combine_weights e f (StateDict kvs) w = ok u \<and> elementwise f u (StateDict kvs) w"
proof -
  have d: "dict_wf kvs"
    using matching_wf [OF assms] by simp
  have tw: "float64_array a" if "(k, Tensor a) \<in> set kvs" for k a
    using matching_arrays(1) [OF assms, of "Some k" a] that d by (simp add: map_of_wf_iff)
  define g where "g = (\<lambda>(k, v). case (v, tensor_at w (Some k)) of
      (Tensor a, Some b) \<Rightarrow> Tensor (projr (array_map2 f a b)) | _ \<Rightarrow> v)"
  have at: "\<exists>b. map_of (dict_items w) k = Some (Tensor b) \<and> tensor_at w (Some k) = Some b \<and> nd_shape b = nd_shape a \<and> float64_array b"
    if "(k, Tensor a) \<in> set kvs" for k a
  proof -
    have "tensor_at (StateDict kvs) (Some k) = Some a" using that d by (simp add: map_of_wf_iff)
    then have "map_option nd_shape (tensor_at w (Some k)) = Some (nd_shape a)"
      using assms unfolding matching_def by (metis option.map(2))
    then obtain b where b: "tensor_at w (Some k) = Some b" "nd_shape b = nd_shape a" by auto
    then show ?thesis using matching_arrays(2) [OF assms, of "Some k" b]
      by (cases w) (auto split: option.splits entry.splits)
  qed
  have entry: "combine_entry e f (dict_items w) x = ok (fst x, g x)" if x: "x \<in> set kvs" for x
  proof (cases x)
    case (Pair k v)
    show ?thesis
    proof (cases v)
      case (Tensor a)
      obtain b where b: "map_of (dict_items w) k = Some (Tensor b)" "tensor_at w (Some k) = Some b" "nd_shape b = nd_shape a" "float64_array b"
        using at [of k a] x Pair Tensor by auto
      obtain c where "array_map2 f a b = ok c" using array_map2_same [of a b f] b tw [of k a] x Pair Tensor by auto
      then show ?thesis by (simp add: Pair Tensor combine_entry_def g_def b(1,2))
    qed (simp_all add: Pair combine_entry_def g_def)
  qed
  define kvs' where "kvs' = map (\<lambda>x. (fst x, g x)) kvs"
  have u: "combine_weights e f (StateDict kvs) w = ok (StateDict kvs')"
    using result_map_ok [of kvs _ "\<lambda>x. (fst x, g x)", OF entry] by (simp add: kvs'_def)
  have "map fst kvs' = map fst kvs" by (simp add: kvs'_def)
  then have d': "dict_wf kvs'" using d by simp
  have new: "\<exists>c. tensor_at (StateDict kvs') (Some k) = Some c \<and> nd_shape c = nd_shape a \<and> float64_array c \<and>
      (\<forall>i<length (nd_data a). reals c ! i = f (reals a ! i) (element w (Some k) i))"
    if "tensor_at (StateDict kvs) (Some k) = Some a" for k a
  proof -
    have ka: "(k, Tensor a) \<in> set kvs" using that by (auto split: option.splits entry.splits dest: map_of_SomeD)
    obtain b where b: "tensor_at w (Some k) = Some b" "nd_shape b = nd_shape a" "float64_array b" using at [OF ka] by auto
    obtain c where c: "array_map2 f a b = ok c" "nd_shape c = nd_shape a" "float64_array c"
      "\<forall>i<length (nd_data a). reals c ! i = f (reals a ! i) (reals b ! i)"
      using array_map2_same [of a b f] b tw [OF ka] by auto
    have "(k, Tensor c) \<in> set kvs'" using ka c(1) by (force simp: kvs'_def g_def b(1))
    then show ?thesis using c d' by (auto simp: map_of_wf_iff element_def b(1))
  qed
  have other: "tensor_at (StateDict kvs') (Some k) = None" if "tensor_at (StateDict kvs) (Some k) = None" for k
  proof (rule ccontr)
    assume "tensor_at (StateDict kvs') (Some k) \<noteq> None"
    then obtain c where "(k, Tensor c) \<in> set kvs'" by (auto split: option.splits entry.splits dest: map_of_SomeD)
    then obtain v where "(k, v) \<in> set kvs" "g (k, v) = Tensor c" by (auto simp: kvs'_def)
    then show False using that d by (cases v) (auto simp: g_def map_of_wf_iff split: option.splits)
  qed
  have "float64_weights (StateDict kvs')"
  proof -
    have fa: "float64_array c" if "tensor_at (StateDict kvs') l = Some c" for l c
      using that new other by (cases l; cases "tensor_at (StateDict kvs) l") fastforce+
    have "array_wf c" if "(k, Tensor c) \<in> set kvs'" for k c
      using fa [of "Some k" c] that d' by (simp add: map_of_wf_iff float64_array_def)
    then have "weights_wf (StateDict kvs')" using d' by (auto simp: list_all_iff split: entry.splits)
    then show ?thesis using fa by (simp add: float64_weights_iff del: weights_wf.simps tensor_at.simps)
  qed
  moreover have "map_option nd_shape (tensor_at (StateDict kvs') l) = map_option nd_shape (tensor_at (StateDict kvs) l)" for l
    using new other by (cases l; cases "tensor_at (StateDict kvs) l") fastforce+
  moreover have "element (StateDict kvs') l i = f (element (StateDict kvs) l i) (element w l i)" if "i < size_at (StateDict kvs) l" for l i
    using that new by (cases l; cases "tensor_at (StateDict kvs) l") (fastforce simp: size_at_def element_def)+
  ultimately show ?thesis using u assms by (auto simp: elementwise_def matching_def)
qed

lemma combine_weights_elementwise:
  "matching v w \<Longrightarrow> \<exists>u. combine_weights e f v w = ok u \<and> elementwise f u v w"
  using combine_arrays combine_dicts by (cases v) blast+

section \<open>The average as a matching model\<close>

lemma result_map_keys: "result_map (\<lambda>k. result_bind (agg k) (\<lambda>v. ok (k, v))) ks = ok kvs \<Longrightarrow> map fst kvs = ks"
  by (induction ks arbitrary: kvs) (auto simp: result_bind_eq_ok)

lemma aggregate_dict_keys: "aggregate_dict us ws = ok w \<Longrightarrow> \<exists>kvs. w = StateDict kvs \<and> dict_wf kvs"
  by (auto simp: aggregate_dict_def result_bind_eq_ok all_keys_def dest!: result_map_keys)

lemma mean_weights_matching:
  assumes us: "averageable us" and mean: "mean_weights f us w" and wf: "case w of NdArray _ \<Rightarrow> True | StateDict kvs \<Rightarrow> dict_wf kvs"
    and f64: "float64_weights (up_weights (hd us))"
  shows "matching w (up_weights (hd us))"
proof -
  let ?w0 = "up_weights (hd us)"
  have w0: "weights_wf ?w0" "hd us \<in> set us" using averageable_wf [OF us] averageable_ne [OF us] by simp_all
  have L: "set (locators w) = set (locators ?w0)" using mean by (simp add: mean_weights_def same_arrays_def)
  have at: "\<exists>a. tensor_at w l = Some a \<and> float64_array a \<and> map_option nd_shape (tensor_at ?w0 l) = Some (nd_shape a)"
    if L: "l \<in> set (locators w)" for l
  proof -
    have "case tensor_at w l of None \<Rightarrow> False | Some a \<Rightarrow> mean_array f us l a"
      using mean L by (simp add: mean_weights_def)
    then obtain a where a: "tensor_at w l = Some a" "mean_array f us l a"
      by (cases "tensor_at w l") simp_all
    then obtain b where b: "tensor_at ?w0 l = Some b" "nd_dtype a = nd_dtype b" "nd_shape b = nd_shape a"
      using w0(2) by (fastforce simp: mean_array_def)
    then have "nd_dtype a = ''float64''"
      using f64 by (auto simp: float64_weights_iff float64_array_def)
    then have "float64_array a"
      using a(2) by (auto simp: float64_array_def mean_array_def array_wf_def finite_array_def list_all_length split: flt.split)
    then show ?thesis using a(1) b by simp
  qed
  have "weights_wf w"
  proof (cases w)
    case (NdArray a)
    then show ?thesis using at [of None] by (auto simp: float64_array_def)
  next
    case (StateDict kvs)
    then have d: "dict_wf kvs" using wf by simp
    have "array_wf a" if "(k, Tensor a) \<in> set kvs" for k a
    proof -
      have t: "tensor_at w (Some k) = Some a" using that d by (simp add: StateDict map_of_wf_iff)
      then have "Some k \<in> set (locators w)" using locators_dict [OF d, of "Some k"] t by (simp add: StateDict del: locators.simps tensor_at.simps)
      then show ?thesis using at t by (fastforce simp: float64_array_def)
    qed
    then show ?thesis using d by (auto simp: StateDict list_all_iff split: entry.splits)
  qed
  moreover have "map_option nd_shape (tensor_at w l) = map_option nd_shape (tensor_at ?w0 l)" for l
  proof (cases "l \<in> set (locators w)")
    case False
    then have "tensor_at w l = None" "tensor_at ?w0 l = None"
      using locators_iff [OF calculation] locators_iff [OF w0(1)] L by blast+
    then show ?thesis by simp
  qed (use at in fastforce)
  moreover have "float64_weights w"
    unfolding float64_weights_iff using at calculation(1) locators_iff [OF calculation(1)] by fastforce
  ultimately show ?thesis using f64 by (simp add: matching_def)
qed

definition mean_at :: "(peer_update \<Rightarrow> real) \<Rightarrow> peer_update list \<Rightarrow> string option \<Rightarrow> nat \<Rightarrow> real" where
  "mean_at f us l i = weighted_mean (map f us) (elements us l i)"

text \<open>Either average: a model that matches the inputs and has their weighted means as its elements.\<close>

lemma aggregate_weights_matching:
  assumes us: "averageable us" and total: "sum_list (map f us) \<noteq> 0" and f64: "float64_weights (up_weights (hd us))"
  shows "\<exists>w. aggregate_weights us (map f us) (sum_list (map f us)) = ok w \<and> matching w (up_weights (hd us)) \<and>
    (\<forall>l i. i < size_at w l \<longrightarrow> element w l i = mean_at f us l i)"
proof -
  obtain w where w: "aggregate_weights us (map f us) (sum_list (map f us)) = ok w" "mean_weights f us w"
    using aggregate_weights_mean [OF us total] by blast
  have "case w of NdArray _ \<Rightarrow> True | StateDict kvs \<Rightarrow> dict_wf kvs"
    using w(1) by (auto simp: aggregate_weights_def aggregate_numpy_def result_bind_eq_ok split: weights.splits dest: aggregate_dict_keys)
  then have m: "matching w (up_weights (hd us))" using mean_weights_matching [OF us w(2) _ f64] by blast
  have "element w l i = mean_at f us l i" if i: "i < size_at w l" for l i
  proof -
    obtain a where a: "tensor_at w l = Some a" "i < length (nd_data a)" using i by (auto simp: size_at_def split: option.splits)
    have "l \<in> set (locators w)" using a(1) matching_wf [OF m] locators_iff by auto
    then have "mean_array f us l a" using w(2) a(1) by (auto simp: mean_weights_def)
    moreover have "nd_dtype a = ''float64''" using matching_arrays(1) [OF m a(1)] by (simp add: float64_array_def)
    ultimately show ?thesis using a by (simp add: mean_array_def element_def reals_def mean_at_def)
  qed
  then show ?thesis using w(1) m by blast
qed

lemma fedavgm_average_eq:
  assumes "sum_list (map sample_weight us) \<noteq> 0"
  shows "fedavgm_average us = aggregate_weights us (map sample_weight us) (sum_list (map sample_weight us))"
  using assms
  by (cases "up_weights (hd us)")
     (simp_all add: fedavgm_average_def aggregate_weights_def fedavgm_average_numpy_def fedavgm_average_dict_def Let_def)

section \<open>The momentum of FedAvgM\<close>

text \<open>The state of a strategy that has a global model matching the updates.\<close>

definition fedavgm_wf :: "peer_update list \<Rightarrow> fedavgm \<Rightarrow> bool" where
  "fedavgm_wf us s \<longleftrightarrow> 0 \<le> fm_server_momentum s \<and> fm_server_momentum s < 1 \<and>
     (\<exists>g b. fm_global_weights s = Some g \<and> fm_momentum_buffer s = Some b \<and> matching g (up_weights (hd us)) \<and> matching b g)"

abbreviation global_at :: "fedavgm \<Rightarrow> string option \<Rightarrow> nat \<Rightarrow> real" where
  "global_at s l i \<equiv> element (the (fm_global_weights s)) l i"

abbreviation buffer_at :: "fedavgm \<Rightarrow> string option \<Rightarrow> nat \<Rightarrow> real" where
  "buffer_at s l i \<equiv> element (the (fm_momentum_buffer s)) l i"

text \<open>One round is the heavy-ball step towards the weighted mean.\<close>

lemma fedavgm_step:
  assumes us: "averageable us" and total: "sum_list (map sample_weight us) \<noteq> 0" and s: "fedavgm_wf us s"
  shows "\<exists>s' m. fedavgm_aggregate s us = (s', ok m) \<and> fedavgm_wf us s' \<and> fm_server_momentum s' = fm_server_momentum s \<and>
    fm_global_weights s' = Some (ag_weights m) \<and> ag_contributing_peers m = map up_peer_id us \<and>
    (\<forall>l i. i < size_at (up_weights (hd us)) l \<longrightarrow>
       buffer_at s' l i = fm_server_momentum s * buffer_at s l i + (global_at s l i - mean_at sample_weight us l i) \<and>
       global_at s' l i = global_at s l i - buffer_at s' l i)"
proof -
  let ?m = "fm_server_momentum s" and ?w0 = "up_weights (hd us)"
  obtain g b where gb: "fm_global_weights s = Some g" "fm_momentum_buffer s = Some b" "matching g ?w0" "matching b g"
    using s by (auto simp: fedavgm_wf_def)
  obtain a where a: "fedavgm_average us = ok a" "matching a ?w0" "\<forall>l i. i < size_at a l \<longrightarrow> element a l i = mean_at sample_weight us l i"
    using aggregate_weights_matching [OF us total] fedavgm_average_eq [OF total] gb(3) by (auto simp: matching_def)
  have "matching g a" using gb(3) matching_sym [OF a(2)] by (rule matching_trans)
  then obtain d where d: "compute_model_delta g a = ok d" "elementwise (\<lambda>g a. g - a) d g a"
    using combine_weights_elementwise unfolding compute_model_delta_def by blast
  have "matching b d" using d(2) gb(4) matching_trans [OF gb(4) matching_sym] by (auto simp: elementwise_def)
  then obtain b' where b': "apply_momentum ?m (Some b) d = ok (Some b')" "elementwise (\<lambda>v d. ?m * v + d) b' b d"
    using combine_weights_elementwise [of b d TypeError "\<lambda>v d. ?m * v + d"] by (auto simp: apply_momentum_def)
  have b'g: "matching b' g" using b'(2) gb(4) matching_trans by (auto simp: elementwise_def)
  then obtain g' where g': "apply_server_update g (Some b') = ok g'" "elementwise (\<lambda>g v. g - v) g' g b'"
    using combine_weights_elementwise [OF matching_sym, of b' g AttributeError "\<lambda>g v. g - v"] by (auto simp: apply_server_update_def)
  let ?s = "s\<lparr>fm_momentum_buffer := Some b', fm_global_weights := Some g'\<rparr>"
  have "fedavgm_aggregate s us = (?s, ok (aggregated us g'))"
    using us a(1) d(1) b'(1) g'(1) gb(1,2)
    by (simp add: fedavgm_aggregate_def fedavgm_momentum_step_def averageable_def Let_def)
  moreover have "fedavgm_wf us ?s"
  proof -
    have gg: "matching g' g" using g'(2) by (simp add: elementwise_def)
    have "matching g' ?w0" "matching b' g'"
      by (rule matching_trans [OF gg gb(3)], rule matching_trans [OF b'g matching_sym [OF gg]])
    then show ?thesis using s by (simp add: fedavgm_wf_def)
  qed
  moreover have "element b' l i = ?m * element b l i + (element g l i - mean_at sample_weight us l i) \<and>
      element g' l i = element g l i - element b' l i" if i: "i < size_at ?w0 l" for l i
  proof -
    have "i < size_at g l" "i < size_at b l" "i < size_at a l"
      using i matching_size [OF gb(3), of l] matching_size [OF gb(4), of l] matching_size [OF a(2), of l] by simp_all
    moreover have "element d l i = element g l i - element a l i" "element b' l i = ?m * element b l i + element d l i"
      "element g' l i = element g l i - element b' l i"
      using calculation d(2) b'(2) g'(2) unfolding elementwise_def by blast+
    ultimately show ?thesis using a(3) by simp
  qed
  ultimately show ?thesis using gb(1,2) by (simp add: aggregated_def)
qed

text \<open>The first round is federated averaging, with a buffer of zeros.\<close>

lemma zeros_array_wf:
  "array_wf a \<Longrightarrow> array_wf (array_like a (replicate (length (nd_data a)) 0))"
  by (simp add: array_wf_def array_like_def list_all_iff)

lemma zeros_array_float64:
  "float64_array a \<Longrightarrow> float64_array (array_like a (replicate (length (nd_data a)) 0))"
  by (simp add: float64_array_def zeros_array_wf) (simp add: array_like_def finite_array_def list_all_iff)

lemma zeros_like_facts:
  assumes "float64_weights w"
  shows "matching (zeros_like w) w" "i < size_at w l \<Longrightarrow> element (zeros_like w) l i = 0"
proof -
  have at: "tensor_at (zeros_like w) l = map_option (\<lambda>a. array_like a (replicate (length (nd_data a)) 0)) (tensor_at w l)" for l
  proof (cases "(w, l)" rule: tensor_at.cases)
    case (2 kvs k)
    have "map_of (map (\<lambda>(k, v). (k, zeros_entry v)) kvs) k = map_option zeros_entry (map_of kvs k)" by (simp add: map_of_map)
    then show ?thesis using 2 by (auto split: option.splits entry.splits)
  qed simp_all
  have wf: "weights_wf w" using assms by (simp add: float64_weights_def)
  have "weights_wf (zeros_like w)"
  proof (cases w)
    case (StateDict kvs)
    have "fst \<circ> (\<lambda>(k, v). (k, zeros_entry v)) = (fst :: string \<times> entry \<Rightarrow> string)" by auto
    moreover have "(case zeros_entry v of Tensor a \<Rightarrow> array_wf a | _ \<Rightarrow> True)" if "(k, v) \<in> set kvs" for k v
      using wf that by (cases v) (auto simp: StateDict list_all_iff zeros_array_wf)
    ultimately show ?thesis using wf by (auto simp: StateDict list_all_iff)
  qed (use wf in \<open>simp add: zeros_array_wf\<close>)
  then have "float64_weights (zeros_like w)"
    using assms unfolding float64_weights_iff at by (auto simp: zeros_array_float64)
  moreover have "map_option nd_shape (tensor_at (zeros_like w) l) = map_option nd_shape (tensor_at w l)" for l
    unfolding at by (cases "tensor_at w l") (simp_all add: array_like_def)
  ultimately show "matching (zeros_like w) w" using assms by (simp add: matching_def)
  show "element (zeros_like w) l i = 0" if "i < size_at w l"
    using that by (auto simp: element_def at size_at_def array_like_def reals_def split: option.splits)
qed

lemma fedavgm_first:
  assumes us: "averageable us" and total: "sum_list (map sample_weight us) \<noteq> 0"
    and s: "fm_global_weights s = None" "0 \<le> fm_server_momentum s" "fm_server_momentum s < 1"
    and f64: "float64_weights (up_weights (hd us))"
  shows "\<exists>s' m. fedavgm_aggregate s us = (s', ok m) \<and> fedavgm_wf us s' \<and> fm_server_momentum s' = fm_server_momentum s \<and>
    fm_global_weights s' = Some (ag_weights m) \<and>
    (\<forall>l i. i < size_at (up_weights (hd us)) l \<longrightarrow> buffer_at s' l i = 0 \<and> global_at s' l i = mean_at sample_weight us l i)"
proof -
  obtain a where a: "fedavgm_average us = ok a" "matching a (up_weights (hd us))"
    "\<forall>l i. i < size_at a l \<longrightarrow> element a l i = mean_at sample_weight us l i"
    using aggregate_weights_matching [OF us total f64] fedavgm_average_eq [OF total] by auto
  have wf: "float64_weights a" using a(2) by (simp add: matching_def)
  have "fedavgm_aggregate s us = (s\<lparr>fm_global_weights := Some a, fm_momentum_buffer := Some (zeros_like a)\<rparr>, ok (aggregated us a))"
    using us a(1) s(1) by (simp add: fedavgm_aggregate_def averageable_def)
  then show ?thesis
    using s(2,3) a(2,3) zeros_like_facts [OF wf] matching_size [OF a(2)] by (simp add: fedavgm_wf_def aggregated_def)
qed







text \<open>Without momentum a round is federated averaging.\<close>

lemma fedavgm_without_momentum:
  assumes "averageable us" "sum_list (map sample_weight us) \<noteq> 0" "fedavgm_wf us s" "fm_server_momentum s = 0"
    "i < size_at (up_weights (hd us)) l"
  shows "global_at (fst (fedavgm_aggregate s us)) l i = mean_at sample_weight us l i"
  using fedavgm_step [OF assms(1-3)] assms(4,5) by auto

text \<open>An array of the global model that the updates of a round do not have becomes zero: its delta is the array itself.\<close>

lemma fedavgm_missing_key:
  assumes "fedavgm_momentum_step s (StateDict [(k, Tensor a)]) (StateDict []) = (s', ok ())"
    "fm_momentum_buffer s = Some (zeros_like (StateDict [(k, Tensor a)]))" "float64_array a"
  shows "\<exists>b. fm_global_weights s' = Some (StateDict [(k, Tensor b)]) \<and> (\<forall>i<length (nd_data b). reals b ! i = 0)"
proof -
  have zero: "real_of_flt (flt_map2 (nd_dtype a) (-) (nd_data a ! i) (flt_map2 (nd_dtype a) (\<lambda>v. (+) (m * v)) (Fin 0) (nd_data a ! i))) = 0"
    if "i < length (nd_data a)" for i m
    using assms(3) that by (auto simp: float64_array_def finite_array_def list_all_length is_finite_iff flt_map2_def split: flt.split)
  show ?thesis
    using assms zero
    by (auto simp: fedavgm_momentum_step_def compute_model_delta_def apply_momentum_def apply_server_update_def combine_entry_def
        array_map2_def array_like_def reals_def Let_def)
qed

section \<open>The proximal term\<close>

lemma averageable_matching:
  assumes us: "averageable us" and u: "u \<in> set us" and f64: "list_all (\<lambda>u. float64_weights (up_weights u)) us"
  shows "matching (up_weights u) (up_weights (hd us))"
proof -
  have wf: "weights_wf (up_weights u)" "weights_wf (up_weights (hd us))" and L: "set (locators (up_weights u)) = set (locators (up_weights (hd us)))"
    using averageable_wf [OF us u] averageable_wf [OF us hd_in_set [OF averageable_ne [OF us]]] by auto
  have "map_option nd_shape (tensor_at (up_weights u) l) = map_option nd_shape (tensor_at (up_weights (hd us)) l)" for l
  proof (cases "l \<in> set (locators (up_weights (hd us)))")
    case True
    then show ?thesis using averageable_tensor [OF us u True] by auto
  next
    case False
    then have "tensor_at (up_weights u) l = None" "tensor_at (up_weights (hd us)) l = None"
      using locators_iff [OF wf(1)] locators_iff [OF wf(2)] L by blast+
    then show ?thesis by simp
  qed
  then show ?thesis using f64 u averageable_ne [OF us] by (simp add: matching_def list_all_iff)
qed

lemma array_map2_keeps: "array_map2 f a b = ok c \<Longrightarrow> array_shape c = array_shape a"
  by (auto simp: array_map2_def array_shape_def split: if_splits)

lemma combine_entry_keeps:
  assumes "combine_entry e f d (k, v) = ok (k', v')"
  shows "k' = k \<and> entry_shape v' = entry_shape v \<and> ((\<exists>a. v' = Tensor a) \<or> v' = v)"
proof (cases v)
  case (Tensor a)
  then show ?thesis
    using assms array_map2_keeps
    by (auto simp: combine_entry_def result_bind_eq_ok split: option.splits entry.splits)
qed (use assms in \<open>auto simp: combine_entry_def\<close>)

text \<open>Combining keeps the shape and, when the arrays of the result are finite, the finiteness that the validation
  looks at.\<close>

lemma combine_entries_keep:
  "result_map (combine_entry e f d) kvs = ok kvs' \<Longrightarrow>
     map (\<lambda>(k, v). (k, entry_shape v)) kvs' = map (\<lambda>(k, v). (k, entry_shape v)) kvs \<and>
     (\<forall>k v. (k, v) \<in> set kvs' \<longrightarrow> (\<exists>a. v = Tensor a) \<or> (k, v) \<in> set kvs)"
proof (induction kvs arbitrary: kvs')
  case (Cons x kvs)
  obtain k v where x: "x = (k, v)" by (cases x)
  obtain k' v' ys where y: "combine_entry e f d (k, v) = ok (k', v')"
    "result_map (combine_entry e f d) kvs = ok ys" "kvs' = (k', v') # ys"
    using Cons.prems by (auto simp: x result_bind_eq_ok)
  then show ?case using Cons.IH [OF y(2)] combine_entry_keeps [OF y(1)] by (auto simp: x)
qed simp

lemma combine_weights_keeps:
  assumes "combine_weights e f v w = ok u"
  shows "get_shape u = get_shape v" "weights_valid v \<Longrightarrow> float64_weights u \<Longrightarrow> weights_valid u"
proof -
  have "get_shape u = get_shape v \<and> (weights_valid v \<longrightarrow> float64_weights u \<longrightarrow> weights_valid u)"
  proof (cases v)
    case (NdArray a)
    then show ?thesis using assms array_map2_keeps
      by (cases w) (auto simp: result_bind_eq_ok float64_single float64_array_def)
  next
    case (StateDict kvs)
    then obtain kvs' where u: "u = StateDict kvs'" "result_map (combine_entry e f (dict_items w)) kvs = ok kvs'"
      using assms by (auto simp: result_bind_eq_ok)
    note keep = combine_entries_keep [OF u(2)]
    have "finite_entry x" if x: "(k, x) \<in> set kvs'" and valid: "weights_valid v" and f64: "float64_weights u" for k x
    proof (cases "\<exists>a. x = Tensor a")
      case True
      then obtain a where "x = Tensor a" by blast
      then have "tensor_at u (Some k) = Some a"
        using x f64 by (simp add: u(1) float64_weights_def map_of_wf_iff)
      then show ?thesis using f64 \<open>x = Tensor a\<close> by (auto simp: float64_weights_iff float64_array_def)
    next
      case False
      then have "(k, x) \<in> set kvs" using keep x by blast
      then show ?thesis using valid by (auto simp: StateDict list_all_iff)
    qed
    then have "weights_valid v \<longrightarrow> float64_weights u \<longrightarrow> weights_valid u"
      by (auto simp: u(1) list_all_iff)
    then show ?thesis using keep by (simp add: StateDict u(1))
  qed
  then show "get_shape u = get_shape v" "weights_valid v \<Longrightarrow> float64_weights u \<Longrightarrow> weights_valid u" by blast+
qed

lemma weighted_mean_affine:
  assumes "length ws = length xs" "sum_list ws \<noteq> 0"
  shows "weighted_mean ws (map (\<lambda>x. c * x + d) xs) = c * weighted_mean ws xs + d"
proof -
  have "sum_list (map2 (*) ws (map (\<lambda>x. c * x + d) xs)) = c * sum_list (map2 (*) ws xs) + d * sum_list ws"
    using assms(1) by (induction ws xs rule: list_induct2) (simp_all add: algebra_simps)
  then show ?thesis using assms(2) by (simp add: weighted_mean_def add_divide_distrib)
qed

lemma same_dtype: "nd_dtype a = d \<Longrightarrow> a\<lparr>nd_dtype := d\<rparr> = a"
  by (cases a) simp

text \<open>On \<open>float64\<close> models both layouts are corrected alike.\<close>

lemma proximal_correction_eq:
  assumes "matching w g"
  shows "proximal_correction mu w g = combine_weights TypeError (\<lambda>x g. (1 - mu) * x + mu * g) w g"
  using matching_arrays(1) [OF assms, of None] matching_arrays(2) [OF assms, of None]
  by (cases w; cases g) (auto simp: proximal_correction_def scaled_sum_dtype_def float64_array_def same_dtype)

text \<open>The corrected updates can be averaged when the originals can.\<close>

lemma corrected_averageable:
  assumes us: "averageable us" and f64: "list_all (\<lambda>u. float64_weights (up_weights u)) us" and W: "\<And>u. u \<in> set us \<Longrightarrow> combine_weights e f (up_weights u) g = ok (W u) \<and> elementwise f (W u) (up_weights u) g"
  shows "averageable (map (\<lambda>u. u\<lparr>up_weights := W u\<rparr>) us)"
proof -
  have ne: "us \<noteq> []" using us by (rule averageable_ne)
  have v: "validate_updates us = ok ()" using us by (simp add: averageable_def)
  have w64: "float64_weights (W u)" if "u \<in> set us" for u
    using W [OF that] by (simp add: elementwise_def matching_def)
  have keeps: "get_shape (W u) = get_shape (up_weights u)" "weights_valid (up_weights u) \<Longrightarrow> weights_valid (W u)" if "u \<in> set us" for u
    using combine_weights_keeps W [OF that] w64 [OF that] by blast+
  have hd: "up_weights (hd (map (\<lambda>u. u\<lparr>up_weights := W u\<rparr>) us)) = W (hd us)" using ne by (simp add: hd_map)
  have ids: "map up_peer_id (map (\<lambda>u. u\<lparr>up_weights := W u\<rparr>) us) = map up_peer_id us" by simp
  have valid: "list_all (\<lambda>u. weights_valid (up_weights u)) (map (\<lambda>u. u\<lparr>up_weights := W u\<rparr>) us)"
    using keeps(2) validate_updates_ok(3) [OF v] by (auto simp: list_all_iff)
  have "get_shape (W u) = get_shape (W (hd us))" if "u \<in> set us" for u
    using keeps(1) [OF that] keeps(1) [OF hd_in_set [OF ne]] validate_updates_ok(4) [OF v that] by simp
  then have shapes: "list_all (\<lambda>u. get_shape (up_weights u) = get_shape (W (hd us))) (tl (map (\<lambda>u. u\<lparr>up_weights := W u\<rparr>) us))"
    using list.set_sel(2) [OF ne] by (auto simp: list_all_iff simp flip: map_tl)
  have "validate_updates (map (\<lambda>u. u\<lparr>up_weights := W u\<rparr>) us) = ok ()"
    unfolding validate_updates_def hd ids using ne valid shapes validate_updates_ok(2) [OF v] by simp
  moreover have "weights_wf (W u) \<and> same_arrays (W u) (W (hd us))" if u: "u \<in> set us" for u
  proof -
    have "matching (W u) (up_weights u)" "matching (W (hd us)) (up_weights (hd us))"
      using W [OF u] W [OF hd_in_set [OF ne]] by (simp_all add: elementwise_def)
    then have "matching (W u) (W (hd us))"
      using averageable_matching [OF us u f64] matching_trans matching_sym by blast
    then show ?thesis using matching_locators matching_wf by (simp add: same_arrays_def)
  qed
  ultimately show ?thesis using hd by (simp add: averageable_def list_all_iff)
qed

text \<open>The legacy mode of FedProx. Correcting every update towards the last global model before averaging gives the same as moving the
  average: each element of the result is the weighted mean of the updates pulled towards the global model by \<open>mu\<close>.\<close>

theorem fedprox_interpolates:
  assumes us: "averageable us" and total: "sum_list (map (compute_weight (fx_config s)) us) \<noteq> 0"
    and s: "fx_global_weights s = Some g" "fx_mode s = Weight_Interpolation" and g: "matching g (up_weights (hd us))"
    and f64: "list_all (\<lambda>u. float64_weights (up_weights u)) us"
  shows "\<exists>s' m. fedprox_aggregate s us = (s', ok m) \<and> fx_global_weights s' = Some (ag_weights m) \<and>
    (\<forall>l i. i < size_at g l \<longrightarrow> element (ag_weights m) l i =
       (1 - fx_mu s) * mean_at (compute_weight (fx_config s)) us l i + fx_mu s * element g l i)"
proof -
  let ?mu = "fx_mu s" and ?cw = "compute_weight (fx_config s)"
  let ?f = "\<lambda>x g. (1 - ?mu) * x + ?mu * g"
  define W where "W u = projr (proximal_correction ?mu (up_weights u) g)" for u :: peer_update
  have ne: "us \<noteq> []" using us by (rule averageable_ne)
  have ug: "matching (up_weights u) g" if "u \<in> set us" for u
    using averageable_matching [OF us that f64] matching_sym [OF g] by (rule matching_trans)
  then have W: "combine_weights TypeError ?f (up_weights u) g = ok (W u) \<and> elementwise ?f (W u) (up_weights u) g" if "u \<in> set us" for u
    using combine_weights_elementwise [of "up_weights u" g TypeError ?f] that by (auto simp: W_def proximal_correction_eq ug)
  let ?vs = "map (\<lambda>u. u\<lparr>up_weights := W u\<rparr>) us"
  have vs: "averageable ?vs" by (rule corrected_averageable [OF us f64 W])
  have term_applied: "apply_proximal_term s us = ok ?vs"
    unfolding apply_proximal_term_def s(1) option.case
    by (rule result_map_ok) (use W ug in \<open>simp add: proximal_correction_eq\<close>)
  have cw: "map ?cw ?vs = map ?cw us" by (simp add: compute_weight_def)
  have total': "sum_list (map ?cw ?vs) \<noteq> 0" unfolding cw by (rule total)
  have first: "float64_weights (up_weights (hd ?vs))"
    using W [OF hd_in_set [OF ne]] ne by (simp add: hd_map elementwise_def matching_def)
  obtain w where w: "aggregate_weights ?vs (map ?cw ?vs) (sum_list (map ?cw ?vs)) = ok w" "matching w (up_weights (hd ?vs))"
    "\<forall>l i. i < size_at w l \<longrightarrow> element w l i = mean_at ?cw ?vs l i"
    using aggregate_weights_matching [OF vs total' first] by blast
  have "fedavg_aggregate (fx_config s) ?vs = ok (aggregated ?vs w)"
    using vs w(1) total' unfolding fedavg_aggregate_def averageable_def Let_def by simp
  then have agg: "fedprox_aggregate s us = (s\<lparr>fx_global_weights := Some w\<rparr>, ok (aggregated ?vs w))"
    using us s term_applied by (simp add: fedprox_aggregate_def averageable_def aggregated_def Let_def)
  have "element w l i = (1 - ?mu) * mean_at ?cw us l i + ?mu * element g l i" if i: "i < size_at g l" for l i
  proof -
    have "size_at w l = size_at g l"
      using matching_size [OF w(2)] W [OF hd_in_set [OF ne]] matching_size [of "W (hd us)" "up_weights (hd us)"] matching_size [OF g] ne
      by (simp add: elementwise_def hd_map)
    then have "element w l i = mean_at ?cw ?vs l i" using w(3) i by simp
    moreover have "elements ?vs l i = map (\<lambda>x. (1 - ?mu) * x + ?mu * element g l i) (elements us l i)"
      using W ug matching_size i by (fastforce simp: elements_def elementwise_def)
    moreover have "length (map ?cw us) = length (elements us l i)" by (simp add: elements_def)
    ultimately show ?thesis unfolding mean_at_def cw using weighted_mean_affine [OF _ total] by metis
  qed
  then show ?thesis using agg by (simp add: aggregated_def)
qed

text \<open>In the default mode FedProx is federated averaging.\<close>

lemma fedprox_training_time:
  "fx_mode s \<noteq> Weight_Interpolation \<Longrightarrow> snd (fedprox_aggregate s us) = fedavg_aggregate (fx_config s) us"
  using fedavg.rejects [of us] by (cases "validate_updates us") (auto simp: fedprox_aggregate_def Let_def)

section \<open>Examples\<close>

lemma sample_float64: "float64_weights (sample_weights xs)"
  by (auto simp: float64_weights_def sample_weights_def float64_array_def array_wf_def finite_array_def list_all_iff)

lemma sample_matching: "length xs = length ys \<Longrightarrow> matching (sample_weights xs) (sample_weights ys)"
proof -
  assume "length xs = length ys"
  then have "map_option nd_shape (tensor_at (sample_weights xs) l) = map_option nd_shape (tensor_at (sample_weights ys) l)" for l
    by (cases l) (auto simp: sample_weights_def)
  then show ?thesis by (simp add: matching_def sample_float64)
qed

lemma sample_elements: "i < length xs \<Longrightarrow> element (sample_weights xs) (Some ''fc'') i = xs ! i"
  by (simp add: element_def sample_weights_def reals_def)

lemma sample_size: "size_at (sample_weights xs) (Some ''fc'') = length xs"
  by (simp add: size_at_def sample_weights_def)

definition sample_updates :: "peer_update list" where
  "sample_updates = [sample_update ''a'' 1 [0, 4], sample_update ''b'' 3 [4, 0]]"

lemma sample_updates_averageable: "averageable sample_updates"
  unfolding sample_updates_def by (rule sample_averageable) simp_all

lemma sample_mean: "mean_at sample_weight sample_updates (Some ''fc'') 0 = 3"
  by (simp add: mean_at_def weighted_mean_def elements_def sample_updates_def sample_update_def sample_weight_def sample_elements)



definition sample_fedprox :: fedprox where
  "sample_fedprox = \<lparr>fx_mu = 1 / 4, fx_mode = Weight_Interpolation, fx_config = by_data_size,
     fx_global_weights = Some (sample_weights [7, 7])\<rparr>"

theorem fedprox_interpolates_witness:
  "\<exists>s' m. fedprox_aggregate sample_fedprox sample_updates = (s', ok m) \<and> element (ag_weights m) (Some ''fc'') 0 = 4"
proof -
  have hd: "up_weights (hd sample_updates) = sample_weights [0, 4]" by (simp add: sample_updates_def sample_update_def)
  have w: "compute_weight by_data_size = sample_weight" by (auto simp: compute_weight_def by_data_size_def sample_weight_def)
  have t: "sum_list (map (compute_weight (fx_config sample_fedprox)) sample_updates) \<noteq> 0"
    by (simp add: sample_fedprox_def w) (simp add: sample_updates_def sample_update_def sample_weight_def)
  have "list_all (\<lambda>u. float64_weights (up_weights u)) sample_updates"
    by (simp add: sample_updates_def sample_update_def sample_float64)
  moreover have "0 < size_at (sample_weights [7, 7]) (Some ''fc'')" by (simp add: sample_size)
  ultimately show ?thesis
    using fedprox_interpolates [OF sample_updates_averageable t, of "sample_weights [7, 7]"]
    by (fastforce simp: sample_fedprox_def hd sample_matching w sample_mean sample_elements)
qed

end
