(* ===== verification/Entropy_Scaffold.thy ===== *)
theory Entropy_Scaffold
  imports Momentum_Strategies
begin

text \<open>
  Averaging by the entropy of the label distributions (\<open>aggregation/entropy_weighted.py\<close>) and with control variates
  (\<open>aggregation/scaffold.py\<close>). What an update carries in its metadata (a label distribution, a control variate) is a function of
  the update. Persistence and the fallbacks for other types of weights are not modelled.
\<close>

section \<open>Entropy weights\<close>

definition shannon_entropy :: "(string, real) pydict \<Rightarrow> real" where
  "shannon_entropy distribution =
     (let values = map snd distribution; total_count = sum_list values in
      if total_count \<le> 0 then 0 else
      let probs = filter (\<lambda>p. 0 < p) (map (\<lambda>v. v / total_count) values)
      in - (\<Sum>p\<leftarrow>probs. p * ln p))"

record entropy_avg =
  ea_fallback_weight :: real
  ea_entropy_floor :: real
  ea_normalize :: bool

definition entropy_avg_init :: entropy_avg where
  "entropy_avg_init = \<lparr>ea_fallback_weight = 1, ea_entropy_floor = 1 / 100, ea_normalize = True\<rparr>"

type_synonym distributions = "peer_update \<Rightarrow> (string, real) pydict option"

definition compute_entropy_weight :: "entropy_avg \<Rightarrow> distributions \<Rightarrow> peer_update \<Rightarrow> real" where
  "compute_entropy_weight cfg labels u = (case labels u of
      None \<Rightarrow> ea_fallback_weight cfg
    | Some [] \<Rightarrow> ea_fallback_weight cfg
    | Some d \<Rightarrow> max (ea_entropy_floor cfg) (shannon_entropy d))"

text \<open>An array model is summed under the normalised weights as they are, a total of one; a dictionary divides by the total of each key.\<close>

definition entropy_weighted_sum :: "peer_update list \<Rightarrow> real list \<Rightarrow> weights result" where
  "entropy_weighted_sum updates norm_weights = (case up_weights (hd updates) of
      NdArray _ \<Rightarrow> aggregate_numpy updates norm_weights 1
    | StateDict _ \<Rightarrow> aggregate_dict updates norm_weights)"

definition entropy_aggregate :: "entropy_avg \<Rightarrow> distributions \<Rightarrow> peer_update list \<Rightarrow> aggregated_model result" where
  "entropy_aggregate cfg labels updates =
     result_bind (validate_updates updates) (\<lambda>_.
       let raw_weights = map (compute_entropy_weight cfg labels) updates; total_w = sum_list raw_weights in
       if total_w = 0 then raise (ValueError ''Total entropy weight is zero, cannot aggregate'')
       else let norm_weights = map (\<lambda>w. w / total_w) raw_weights
            in result_bind (entropy_weighted_sum updates norm_weights) (\<lambda>w. ok (aggregated updates w)))"

interpretation entropy: aggregation_strategy "entropy_aggregate cfg labels" for cfg labels
  by unfold_locales (auto simp: entropy_aggregate_def aggregated_def result_bind_eq_ok Let_def split: if_splits)

text \<open>The entropy of a label distribution lies between zero and the logarithm of the number of classes that occur, and it is the
  same for counts and for proportions.\<close>

theorem shannon_entropy_bounds:
  assumes "list_all (\<lambda>v. 0 \<le> v) (map snd d)" "0 < sum_list (map snd d)" "0 < c"
  shows "0 \<le> shannon_entropy d \<and> shannon_entropy d \<le> ln (real (length (filter (\<lambda>(k, v). 0 < v) d))) \<and>
    shannon_entropy (map (\<lambda>(k, v). (k, c * v)) d) = shannon_entropy d"
proof -
  define T where "T = sum_list (map snd d)"
  define ps where "ps = filter (\<lambda>p. 0 < p) (map (\<lambda>v. v / T) (map snd d))"
  have T: "0 < T" using assms(2) by (simp add: T_def)
  have H: "shannon_entropy d = - (\<Sum>p\<leftarrow>ps. p * ln p)" using T by (simp add: shannon_entropy_def T_def ps_def Let_def)
  have len: "length ps = length (filter (\<lambda>(k, v). 0 < v) d)"
    using T by (simp add: ps_def filter_map o_def case_prod_unfold zero_less_divide_iff)
  have "sum_list (filter (\<lambda>p. 0 < p) xs) = sum_list xs" if "list_all (\<lambda>v. 0 \<le> v) xs" for xs :: "real list"
    using that by (induction xs) auto
  then have "sum_list ps = sum_list (map (\<lambda>v. v / T) (map snd d))"
    using assms(1) T unfolding ps_def by (simp add: list_all_iff)
  also have "\<dots> = (\<Sum>v\<leftarrow>map snd d. v) / T" by (simp add: divide_inverse sum_list_mult_const o_def)
  finally have one: "sum_list ps = 1" using T by (simp add: T_def)
  have pos: "0 < p \<and> p \<le> 1" if "p \<in> set ps" for p
  proof -
    have "0 < p" using that by (simp add: ps_def)
    moreover have "p \<le> sum_list ps" using that member_le_sum_list [of p ps] by (simp add: ps_def less_imp_le)
    ultimately show ?thesis using one by simp
  qed
  have "(\<Sum>p\<leftarrow>ps. p * ln p) \<le> (\<Sum>p\<leftarrow>ps. 0)" using pos by (intro sum_list_mono) (force simp: mult_le_0_iff)
  then have low: "0 \<le> shannon_entropy d" by (simp add: H)
  define n where "n = real (length ps)"
  have n: "0 < n" using one by (cases ps) (simp_all add: n_def)
  have "- (p * ln p) - p * ln n \<le> 1 / n - p" if "p \<in> set ps" for p
  proof -
    have p: "0 < p" using pos that by blast
    have "ln (1 / (p * n)) \<le> 1 / (p * n) - 1" using p n by (intro ln_le_minus_one) simp
    then have "p * ln (1 / (p * n)) \<le> p * (1 / (p * n) - 1)" using p by (intro mult_left_mono) simp_all
    then show ?thesis using p n by (simp add: ln_div ln_mult algebra_simps)
  qed
  then have "(\<Sum>p\<leftarrow>ps. - (p * ln p) - p * ln n) \<le> (\<Sum>p\<leftarrow>ps. 1 / n - p)" by (rule sum_list_mono)
  also have "\<dots> = 0" using n one by (simp add: sum_list_subtractf sum_list_triv n_def)
  finally have "- (\<Sum>p\<leftarrow>ps. p * ln p) - (\<Sum>p\<leftarrow>ps. p) * ln n \<le> 0"
    by (simp add: sum_list_subtractf uminus_sum_list_map sum_list_mult_const o_def)
  then have "shannon_entropy d \<le> ln n" using one by (simp add: H)
  moreover have "shannon_entropy (map (\<lambda>(k, v). (k, c * v)) d) = shannon_entropy d"
  proof -
    have s: "map snd (map (\<lambda>(k, v). (k, c * v)) d) = map (\<lambda>v. c * v) (map snd d)" by (simp add: case_prod_beta)
    have t: "sum_list (map (\<lambda>v. c * v) (map snd d)) = c * T" unfolding T_def by (simp add: sum_list_const_mult o_def)
    have m: "map (\<lambda>v. v / (c * T)) (map (\<lambda>v. c * v) (map snd d)) = map (\<lambda>v. v / T) (map snd d)" using assms(3) by simp
    have "c * T \<le> 0 \<longleftrightarrow> T \<le> 0" using T assms(3) by (simp add: mult_le_0_iff)
    then show ?thesis unfolding shannon_entropy_def Let_def s t m by (simp only: T_def [symmetric])
  qed
  ultimately show ?thesis using low len by (simp add: n_def)
qed

lemma entropy_weight_pos: "0 < ea_fallback_weight cfg \<Longrightarrow> 0 < ea_entropy_floor cfg \<Longrightarrow> 0 < compute_entropy_weight cfg labels u"
  by (auto simp: compute_entropy_weight_def max_def split: option.split list.split)

text \<open>Averages under positive weights divided by their total.\<close>

lemma weighted_mean_normalised: "t \<noteq> 0 \<Longrightarrow> weighted_mean (map (\<lambda>w. w / t) ws) xs = weighted_mean ws xs"
proof -
  assume t: "t \<noteq> 0"
  have "sum_list (map2 (*) (map (\<lambda>w. w / t) ws) xs) = sum_list (map2 (*) ws xs) / t"
  proof (induction ws arbitrary: xs)
    case (Cons w ws)
    then show ?case by (cases xs) (simp_all add: add_divide_distrib)
  qed simp
  moreover have "sum_list (map (\<lambda>w. w / t) ws) = sum_list ws / t" by (induction ws) (simp_all add: add_divide_distrib)
  ultimately show ?thesis using t by (simp add: weighted_mean_def)
qed

text \<open>The entropy-weighted average always exists: with a positive floor and fallback, whatever distributions the peers
  announce, validated updates are averaged, every element is the mean under the entropy weights, converted to the dtype of the
  first update, and stays within the inputs where they agree in the dtype.\<close>

theorem entropy_average_within:
  assumes us: "averageable us" and cfg: "0 < ea_fallback_weight cfg" "0 < ea_entropy_floor cfg"
  shows "\<exists>m. entropy_aggregate cfg labels us = ok m \<and> within_inputs us (ag_weights m) \<and>
    mean_weights (compute_entropy_weight cfg labels) us (ag_weights m)"
proof -
  let ?f = "compute_entropy_weight cfg labels"
  let ?t = "sum_list (map ?f us)"
  let ?g = "\<lambda>u. ?f u / ?t"
  have ne: "us \<noteq> []" using us by (rule averageable_ne)
  have f: "0 < ?f u" for u by (rule entropy_weight_pos [OF cfg])
  have "0 < sum_list (map ?f xs)" if "xs \<noteq> []" for xs
    using that f by (induction xs rule: list_nonempty_induct) (simp_all add: add_pos_pos)
  then have t: "0 < ?t" using ne by blast
  have "sum_list (map ?g us) = ?t / ?t" by (simp add: divide_inverse sum_list_mult_const)
  then have one: "sum_list (map ?g us) = 1" using t by simp
  have n: "map (\<lambda>w. w / ?t) (map ?f us) = map ?g us" by simp
  obtain w where w: "aggregate_weights us (map ?g us) 1 = ok w" "mean_weights ?g us w"
    using aggregate_weights_mean [OF us, of ?g] one by auto
  have within: "within_inputs us w"
    by (rule mean_weights_within [OF us w(2)]) (use f t one in \<open>simp_all add: less_imp_le\<close>)
  have "weighted_mean (map ?g us) xs = weighted_mean (map ?f us) xs" for xs
    using weighted_mean_normalised [of ?t "map ?f us"] t by (simp add: o_def)
  then have "mean_weights ?f us w"
    using w(2) by (simp add: mean_weights_def mean_array_def cong: option.case_cong)
  moreover have "entropy_weighted_sum us (map ?g us) = ok w"
    using w(1) by (simp add: entropy_weighted_sum_def aggregate_weights_def split: weights.splits)
  moreover from this have "entropy_aggregate cfg labels us = ok (aggregated us w)"
    using us t unfolding entropy_aggregate_def Let_def n averageable_def by simp
  ultimately show ?thesis using within by (simp add: aggregated_def)
qed

section \<open>SCAFFOLD\<close>

text \<open>A control variate in the metadata is a dictionary of arrays, under the key \<open>__single__\<close> for an array model, or an array.\<close>

type_synonym variates = "(string, ndarray) pydict"

datatype control = Control_Dict variates | Control_Array ndarray

record scaffold =
  sf_learning_rate :: real
  sf_global_learning_rate :: real
  sf_control_momentum :: real
  sf_c_global :: "variates option"
  sf_round :: nat

definition scaffold_init :: "real \<Rightarrow> real \<Rightarrow> real \<Rightarrow> scaffold result" where
  "scaffold_init learning_rate global_learning_rate control_momentum =
     (if learning_rate \<le> 0 then raise (ValueError ''learning_rate must be > 0'')
      else ok \<lparr>sf_learning_rate = learning_rate, sf_global_learning_rate = global_learning_rate,
        sf_control_momentum = control_momentum, sf_c_global = None, sf_round = 0\<rparr>)"

fun result_fold :: "('x \<Rightarrow> 'a \<Rightarrow> 'a result) \<Rightarrow> 'x list \<Rightarrow> 'a \<Rightarrow> 'a result" where
  "result_fold f [] a = ok a"
| "result_fold f (x # xs) a = result_bind (f x a) (result_fold f xs)"

text \<open>\<open>a.astype(np.float64)\<close>, which keeps the values, \<open>a.astype(d)\<close>, and \<open>np.zeros_like(a, dtype=np.float64)\<close>.\<close>

definition as_float64 :: "ndarray \<Rightarrow> ndarray" where
  "as_float64 a = a\<lparr>nd_dtype := ''float64''\<rparr>"

definition astype :: "string \<Rightarrow> ndarray \<Rightarrow> ndarray" where
  "astype d a = a\<lparr>nd_dtype := d, nd_data := map (flt_cast d) (nd_data a)\<rparr>"

definition zeros_array :: "ndarray \<Rightarrow> ndarray" where
  "zeros_array a = array_like (as_float64 a) (replicate (length (nd_data a)) 0)"

text \<open>The total number of samples, or the number of updates when there are none.\<close>

definition sample_total :: "peer_update list \<Rightarrow> real" where
  "sample_total updates =
     (let t = sum_list (map up_sample_count updates) in if t = 0 then real (length updates) else of_int t)"

definition add_control :: "real \<Rightarrow> string \<times> ndarray \<Rightarrow> variates \<Rightarrow> variates result" where
  "add_control w = (\<lambda>(key, val) acc.
     result_bind (array_map2 (\<lambda>a x. a + x * w) (case map_of acc key of None \<Rightarrow> zeros_array val | Some a \<Rightarrow> a) val)
       (\<lambda>a. ok (AList.update key a acc)))"

fun add_controls :: "real \<Rightarrow> control \<Rightarrow> variates \<Rightarrow> variates result" where
  "add_controls w (Control_Dict cv) acc = result_fold (add_control w) cv acc"
| "add_controls w (Control_Array _) acc = raise AttributeError"

definition average_control_variates :: "variates option \<Rightarrow> (control option \<times> peer_update) list \<Rightarrow> variates option result" where
  "average_control_variates c_global controls =
     (let valid = concat (map (\<lambda>(cv, u). case cv of None \<Rightarrow> [] | Some c \<Rightarrow> [(c, u)]) controls) in
      if valid = [] then ok c_global else
      let total_samples = sample_total (map snd valid);
          share = (\<lambda>u. if 0 < total_samples then sample_weight u / total_samples else 1 / real (length valid))
      in result_bind (result_fold (\<lambda>(c, u) acc. add_controls (share u) c acc) valid []) (\<lambda>r. ok (Some r)))"

text \<open>The running estimate is changed in place, key by key.\<close>

fun blend_controls :: "real \<Rightarrow> variates \<Rightarrow> variates \<Rightarrow> variates \<times> unit result" where
  "blend_controls beta [] c_global = (c_global, ok ())"
| "blend_controls beta ((key, a) # c_avg) c_global = (case map_of c_global key of
      None \<Rightarrow> blend_controls beta c_avg (AList.update key a c_global)
    | Some g \<Rightarrow> (case array_map2 (\<lambda>g a. beta * g + (1 - beta) * a) (as_float64 g) a of
          Inl e \<Rightarrow> (c_global, Inl e)
        | Inr b \<Rightarrow> blend_controls beta c_avg (AList.update key b c_global)))"

definition update_global_control :: "scaffold \<Rightarrow> variates \<Rightarrow> scaffold \<times> unit result" where
  "update_global_control s c_avg = (case sf_c_global s of
      None \<Rightarrow> (s\<lparr>sf_c_global := Some c_avg\<rparr>, ok ())
    | Some c \<Rightarrow> if sf_control_momentum s = 0 then (s\<lparr>sf_c_global := Some c_avg\<rparr>, ok ())
        else (let (c', r) = blend_controls (sf_control_momentum s) c_avg c in (s\<lparr>sf_c_global := Some c'\<rparr>, r)))"

text \<open>A peer's array moved against its drift, when both variates are known.\<close>

definition corrected :: "real \<Rightarrow> ndarray \<Rightarrow> ndarray option \<Rightarrow> ndarray option \<Rightarrow> ndarray result" where
  "corrected eta peer_w cv c = (case (cv, c) of
      (Some x, Some y) \<Rightarrow> result_bind (array_map2 (\<lambda>x y. x - y) (as_float64 x) y)
        (array_map2 (\<lambda>p d. p - eta * d) (as_float64 peer_w))
    | _ \<Rightarrow> ok (as_float64 peer_w))"

definition add_peer_array :: "real \<Rightarrow> ndarray \<Rightarrow> ndarray \<Rightarrow> ndarray result" where
  "add_peer_array w peer_w acc = array_map2 (\<lambda>a x. a + x * w) acc peer_w"

fun variate :: "string \<Rightarrow> control option \<Rightarrow> ndarray option" where
  "variate key (Some (Control_Dict cv)) = map_of cv key"
| "variate key _ = None"

definition reference_variate :: "string \<Rightarrow> variates option \<Rightarrow> ndarray option" where
  "reference_variate key c = (case c of None \<Rightarrow> None | Some cs \<Rightarrow> map_of cs key)"

definition scaffold_key :: "real \<Rightarrow> real \<Rightarrow> variates option \<Rightarrow> (control option \<times> peer_update) list \<Rightarrow> string \<Rightarrow> entry result" where
  "scaffold_key eta total_samples c_avg controls key =
     (let having = concat (map (\<lambda>(cv, u). case map_of (dict_items (up_weights u)) key of
            None \<Rightarrow> [] | Some v \<Rightarrow> [(v, cv, u)]) controls)
      in result_bind (as_tensor (fst (hd having))) (\<lambda>ref.
         result_bind (result_fold (\<lambda>(v, cv, u) acc. result_bind (as_tensor v) (\<lambda>a.
             result_bind (corrected eta a (variate key cv) (reference_variate key c_avg)) (\<lambda>p.
             add_peer_array (sample_weight u / total_samples) p acc))) having (zeros_array ref))
             (\<lambda>acc. ok (Tensor (astype (nd_dtype ref) acc)))))"

definition scaffold_aggregate_dict :: "real \<Rightarrow> variates option \<Rightarrow> (control option \<times> peer_update) list \<Rightarrow> weights result" where
  "scaffold_aggregate_dict eta c_avg controls =
     result_bind (result_map (\<lambda>key. result_bind (scaffold_key eta (sample_total (map snd controls)) c_avg controls key)
         (\<lambda>v. ok (key, v))) (all_keys (map snd controls))) (\<lambda>kvs. ok (StateDict kvs))"

definition scaffold_single :: "string" where
  "scaffold_single = ''__single__''"

definition scaffold_aggregate_numpy :: "real \<Rightarrow> variates option \<Rightarrow> (control option \<times> peer_update) list \<Rightarrow> weights result" where
  "scaffold_aggregate_numpy eta c_avg controls =
     result_bind (as_array (up_weights (snd (hd controls)))) (\<lambda>ref.
     result_bind (result_fold (\<lambda>(cv, u) acc. result_bind (as_array (up_weights u)) (\<lambda>a.
         if c_avg = Some [] \<and> variate scaffold_single cv \<noteq> None then raise TypeError else
         result_bind (corrected eta a (variate scaffold_single cv) (reference_variate scaffold_single c_avg)) (\<lambda>p.
         add_peer_array (sample_weight u / sample_total (map snd controls)) p acc))) controls (zeros_array ref))
     (\<lambda>acc. ok (NdArray (astype (nd_dtype ref) acc))))"

definition scaffold_aggregate :: "(peer_update \<Rightarrow> control option) \<Rightarrow> scaffold \<Rightarrow> peer_update list \<Rightarrow> scaffold \<times> aggregated_model result" where
  "scaffold_aggregate metadata s updates =
     (case validate_updates updates of Inl e \<Rightarrow> (s, Inl e) | Inr _ \<Rightarrow>
      let s1 = s\<lparr>sf_round := sf_round s + 1\<rparr>; controls = map (\<lambda>u. (metadata u, u)) updates in
      case average_control_variates (sf_c_global s) controls of Inl e \<Rightarrow> (s1, Inl e) | Inr c_avg \<Rightarrow>
      (case (case up_weights (hd updates) of
          StateDict _ \<Rightarrow> scaffold_aggregate_dict (sf_learning_rate s) (sf_c_global s) controls
        | NdArray _ \<Rightarrow> scaffold_aggregate_numpy (sf_learning_rate s) (sf_c_global s) controls) of
        Inl e \<Rightarrow> (s1, Inl e)
      | Inr w \<Rightarrow>
          let (s2, r) = (case c_avg of None \<Rightarrow> (s1, ok ()) | Some c \<Rightarrow> update_global_control s1 c)
          in (s2, result_bind r (\<lambda>_. ok (aggregated updates w)))))"

interpretation scaffold: aggregation_strategy "\<lambda>us. snd (scaffold_aggregate metadata s us)" for metadata s
  by unfold_locales
    (auto simp: scaffold_aggregate_def aggregated_def result_bind_eq_ok Let_def case_prod_beta split: sum.splits)

text \<open>The variate a node attaches after training: for a number of local steps other than zero. The gradient argument is not used.\<close>

definition or_zeros :: "ndarray \<Rightarrow> ndarray option \<Rightarrow> ndarray" where
  "or_zeros like c = (case c of None \<Rightarrow> zeros_array like | Some a \<Rightarrow> as_float64 a)"

definition local_variate :: "scaffold \<Rightarrow> int \<Rightarrow> ndarray \<Rightarrow> ndarray \<Rightarrow> ndarray option \<Rightarrow> ndarray option \<Rightarrow> ndarray result" where
  "local_variate s num_local_steps lw gw c_local c_ref =
     result_bind (array_map2 (\<lambda>g l. (g - l) / (of_int num_local_steps * sf_learning_rate s)) (as_float64 gw) lw) (\<lambda>diff.
     result_bind (array_map2 (\<lambda>c r. c - r) (or_zeros diff c_local) (or_zeros diff c_ref)) (\<lambda>d.
     result_bind (array_map2 (\<lambda>d x. d + x) d diff) (\<lambda>cv. ok (astype (nd_dtype lw) cv))))"

definition local_variate_entry :: "scaffold \<Rightarrow> int \<Rightarrow> weights \<Rightarrow> control option \<Rightarrow> string \<times> entry \<Rightarrow> (string \<times> ndarray) result" where
  "local_variate_entry s num_local_steps global_weights c_local = (\<lambda>(key, v).
     result_bind (as_tensor v) (\<lambda>lw.
     result_bind (case map_of (dict_items global_weights) key of None \<Rightarrow> ok lw | Some g \<Rightarrow> as_tensor g) (\<lambda>gw.
     result_bind (local_variate s num_local_steps lw gw (variate key c_local) (reference_variate key (sf_c_global s))) (\<lambda>a.
     ok (key, a)))))"

definition single_variate :: "control option \<Rightarrow> ndarray option" where
  "single_variate c = (case c of Some (Control_Array a) \<Rightarrow> Some a | _ \<Rightarrow> variate scaffold_single c)"

definition get_local_control_variate :: "scaffold \<Rightarrow> weights \<Rightarrow> weights \<Rightarrow> int \<Rightarrow> control option \<Rightarrow> control result" where
  "get_local_control_variate s local_weights global_weights num_local_steps c_local = (case local_weights of
      StateDict kvs \<Rightarrow> result_bind (result_map (local_variate_entry s num_local_steps global_weights c_local) kvs)
        (\<lambda>cv. ok (Control_Dict cv))
    | NdArray lw \<Rightarrow> result_bind (as_array global_weights) (\<lambda>gw.
        result_bind (local_variate s num_local_steps lw gw (single_variate c_local)
          (reference_variate scaffold_single (sf_c_global s))) (\<lambda>a. ok (Control_Array a))))"

section \<open>What the correction does\<close>

text \<open>The arrays of one key: \<open>A u\<close> of the peer, \<open>X u\<close> its variate, \<open>Y\<close> the reference.\<close>

lemma as_float64_facts [simp]:
  "nd_shape (as_float64 a) = nd_shape a" "reals (as_float64 a) = reals a" "nd_data (as_float64 a) = nd_data a"
  by (simp_all add: as_float64_def reals_def)





















section \<open>Examples\<close>

theorem shannon_entropy_bounds_witness:
  "0 \<le> shannon_entropy [(''cat'', 1), (''dog'', 3), (''eel'', 0)] \<and> shannon_entropy [(''cat'', 1), (''dog'', 3), (''eel'', 0)] \<le> ln 2 \<and>
   shannon_entropy [(''cat'', 2), (''dog'', 6), (''eel'', 0)] = shannon_entropy [(''cat'', 1), (''dog'', 3), (''eel'', 0)]"
  using shannon_entropy_bounds [of "[(''cat'', 1), (''dog'', 3), (''eel'', 0)]" 2] by simp

theorem entropy_average_within_witness:
  "\<exists>m. entropy_aggregate entropy_avg_init (\<lambda>u. Some [(''cat'', 1), (''dog'', 3)]) sample_updates = ok m \<and> within_inputs sample_updates (ag_weights m)"
proof -
  have "0 < ea_fallback_weight entropy_avg_init" "0 < ea_entropy_floor entropy_avg_init" by (simp_all add: entropy_avg_init_def)
  then show ?thesis using entropy_average_within [OF sample_updates_averageable] by blast
qed





end
