(* ===== verification/Convergence.thy ===== *)
theory Convergence
  imports Consensus
begin

text \<open>
  The convergence monitor that stops the learning loop early (\<open>training/convergence.py\<close>). Losses and accuracies are reals; the
  initial best loss, infinity, is \<open>None\<close>. \<open>state_dict\<close> and \<open>load_state_dict\<close> copy the fields and are not modelled.
\<close>

section \<open>State and operations\<close>

datatype convergence_status = IMPROVING | PLATEAU | CONVERGED | DIVERGING

record convergence_config =
  cc_window_size :: int
  cc_patience :: int
  cc_min_delta :: real
  cc_target_accuracy :: "real option"
  cc_target_loss :: "real option"
  cc_diverging_threshold :: real

record convergence_report =
  cv_status :: convergence_status
  cv_current_loss :: real
  cv_current_accuracy :: real
  cv_best_loss :: "real option"
  cv_best_accuracy :: real
  cv_rounds_without_improvement :: int
  cv_loss_trend :: string
  cv_accuracy_trend :: string
  cv_reason_code :: string

record convergence_monitor =
  mo_config :: convergence_config
  mo_best_loss :: "real option"
  mo_best_accuracy :: real
  mo_rounds_without_improvement :: int
  mo_loss_history :: "real list"
  mo_accuracy_history :: "real list"

definition monitor_init :: "convergence_config \<Rightarrow> convergence_monitor" where
  "monitor_init cfg = \<lparr>mo_config = cfg, mo_best_loss = None, mo_best_accuracy = 0, mo_rounds_without_improvement = 0,
     mo_loss_history = [], mo_accuracy_history = []\<rparr>"

text \<open>\<open>_mann_kendall_plateau\<close>: the signs of all pairwise differences beyond \<open>min_delta\<close>, in the order of the pairs.\<close>

definition pair_sign :: "real \<Rightarrow> real \<Rightarrow> real \<Rightarrow> int" where
  "pair_sign min_delta x y =
     (let diff = y - x in if diff > min_delta then 1 else if diff < - min_delta then - 1 else 0)"

fun mann_kendall_s :: "real \<Rightarrow> real list \<Rightarrow> int" where
  "mann_kendall_s min_delta [] = 0"
| "mann_kendall_s min_delta (x # xs) = sum_list (map (pair_sign min_delta x) xs) + mann_kendall_s min_delta xs"

definition mann_kendall_plateau :: "real list \<Rightarrow> real \<Rightarrow> bool" where
  "mann_kendall_plateau values min_delta =
     (let n = int (length values) in
      if n < 2 then True
      else let s = mann_kendall_s min_delta values; max_s = of_int (n * (n - 1)) / (2 :: real)
           in if max_s = 0 then True else \<bar>of_int s\<bar> / max_s < 3 / 10)"

definition target_reached :: "convergence_config \<Rightarrow> real \<Rightarrow> real \<Rightarrow> bool" where
  "target_reached cfg loss accuracy \<longleftrightarrow>
     (case cc_target_accuracy cfg of None \<Rightarrow> False | Some a \<Rightarrow> accuracy \<ge> a) \<or>
     (case cc_target_loss cfg of None \<Rightarrow> False | Some l \<Rightarrow> loss \<le> l)"

definition determine_status :: "real \<Rightarrow> real \<Rightarrow> convergence_monitor \<Rightarrow> convergence_status" where
  "determine_status loss accuracy m =
     (let cfg = mo_config m in
      if target_reached cfg loss accuracy then CONVERGED
      else if int (length (mo_loss_history m)) < cc_window_size cfg then IMPROVING
      else let recent = slice_from (- cc_window_size cfg) (mo_loss_history m) in
        if length recent < 2 then IMPROVING
        else if mann_kendall_plateau recent (cc_min_delta cfg)
        then if mo_rounds_without_improvement m \<ge> cc_patience cfg then CONVERGED else PLATEAU
        else if (case mo_best_loss m of None \<Rightarrow> False | Some b \<Rightarrow> loss > b * (1 + cc_diverging_threshold cfg))
        then DIVERGING else IMPROVING)"

definition reason_code :: "convergence_status \<Rightarrow> real \<Rightarrow> real \<Rightarrow> convergence_monitor \<Rightarrow> string" where
  "reason_code status loss accuracy m =
     (let cfg = mo_config m in
      case status of
        CONVERGED \<Rightarrow>
          if (case cc_target_accuracy cfg of None \<Rightarrow> False | Some a \<Rightarrow> accuracy \<ge> a) then ''target_accuracy_reached''
          else if (case cc_target_loss cfg of None \<Rightarrow> False | Some l \<Rightarrow> loss \<le> l) then ''target_loss_reached''
          else if mo_rounds_without_improvement m \<ge> cc_patience cfg then ''plateau_patience_exceeded''
          else ''continue''
      | DIVERGING \<Rightarrow> ''loss_diverging''
      | _ \<Rightarrow> ''continue'')"

definition compute_trend :: "real list \<Rightarrow> string" where
  "compute_trend history =
     (if length history < 2 then ''stable''
      else let recent = (if length history \<ge> 5 then drop (length history - 5) history else history) in
        if length recent < 2 then ''stable''
        else let diff = last recent - hd recent in
          if \<bar>diff\<bar> < 1 / 10 ^ 6 then ''stable'' else if diff > 0 then ''increasing'' else ''decreasing'')"

text \<open>The histories keep two windows.\<close>

definition push_history :: "convergence_config \<Rightarrow> real \<Rightarrow> real list \<Rightarrow> bool \<Rightarrow> real list" where
  "push_history cfg x history trim =
     (if trim then slice_from (- cc_window_size cfg * 2) (history @ [x]) else history @ [x])"

definition loss_improves :: "convergence_config \<Rightarrow> real option \<Rightarrow> real \<Rightarrow> bool" where
  "loss_improves cfg best loss \<longleftrightarrow> (case best of None \<Rightarrow> True | Some b \<Rightarrow> loss < b - cc_min_delta cfg)"

definition accuracy_improves :: "convergence_config \<Rightarrow> real \<Rightarrow> real \<Rightarrow> bool" where
  "accuracy_improves cfg best accuracy \<longleftrightarrow> accuracy > best + cc_min_delta cfg"

definition monitor_update :: "real \<Rightarrow> real \<Rightarrow> convergence_monitor \<Rightarrow> convergence_monitor \<times> convergence_report" where
  "monitor_update loss accuracy m =
     (let cfg = mo_config m;
          trim = int (length (mo_loss_history m @ [loss])) > cc_window_size cfg * 2;
          li = loss_improves cfg (mo_best_loss m) loss;
          ai = accuracy_improves cfg (mo_best_accuracy m) accuracy;
          m' = m\<lparr>mo_loss_history := push_history cfg loss (mo_loss_history m) trim,
                 mo_accuracy_history := push_history cfg accuracy (mo_accuracy_history m) trim,
                 mo_best_loss := (if li then Some loss else mo_best_loss m),
                 mo_best_accuracy := (if ai then accuracy else mo_best_accuracy m),
                 mo_rounds_without_improvement := (if li \<or> ai then 0 else mo_rounds_without_improvement m + 1)\<rparr>;
          status = determine_status loss accuracy m'
      in (m', \<lparr>cv_status = status, cv_current_loss = loss, cv_current_accuracy = accuracy,
               cv_best_loss = mo_best_loss m', cv_best_accuracy = mo_best_accuracy m',
               cv_rounds_without_improvement = mo_rounds_without_improvement m',
               cv_loss_trend = compute_trend (mo_loss_history m'), cv_accuracy_trend = compute_trend (mo_accuracy_history m'),
               cv_reason_code = reason_code status loss accuracy m'\<rparr>))"

definition should_stop :: "convergence_report \<Rightarrow> convergence_monitor \<Rightarrow> bool" where
  "should_stop report m =
     (if cv_status report = CONVERGED then True
      else if cv_rounds_without_improvement report \<ge> cc_patience (mo_config m) then True
      else False)"

section \<open>When training stops\<close>

text \<open>A sequence of rounds, and which of its rounds improve on the best values so far.\<close>

definition monitor_all :: "convergence_config \<Rightarrow> (real \<times> real) list \<Rightarrow> convergence_monitor" where
  "monitor_all cfg obs = fold (\<lambda>(loss, accuracy) m. fst (monitor_update loss accuracy m)) obs (monitor_init cfg)"

fun improvements :: "convergence_config \<Rightarrow> real option \<Rightarrow> real \<Rightarrow> (real \<times> real) list \<Rightarrow> bool list" where
  "improvements cfg bl ba [] = []"
| "improvements cfg bl ba ((loss, accuracy) # obs) =
     (loss_improves cfg bl loss \<or> accuracy_improves cfg ba accuracy) #
     improvements cfg (if loss_improves cfg bl loss then Some loss else bl)
       (if accuracy_improves cfg ba accuracy then accuracy else ba) obs"

definition stale_rounds :: "bool list \<Rightarrow> nat" where
  "stale_rounds flags = length (takeWhile Not (rev flags))"

lemma stale_rounds_snoc [simp]: "stale_rounds (flags @ [b]) = (if b then 0 else Suc (stale_rounds flags))"
  by (simp add: stale_rounds_def)

lemma improvements_append:
  "improvements cfg bl ba (obs @ [(l, a)]) = improvements cfg bl ba obs @
     [loss_improves cfg (fold (\<lambda>(l, a) b. if loss_improves cfg b l then Some l else b) obs bl) l \<or>
      accuracy_improves cfg (fold (\<lambda>(l, a) b. if accuracy_improves cfg b a then a else b) obs ba) a]"
  by (induction cfg bl ba obs rule: improvements.induct) simp_all

lemma monitor_update_fields:
  "mo_config (fst (monitor_update l a m)) = mo_config m"
  "mo_best_loss (fst (monitor_update l a m)) =
     (if loss_improves (mo_config m) (mo_best_loss m) l then Some l else mo_best_loss m)"
  "mo_best_accuracy (fst (monitor_update l a m)) =
     (if accuracy_improves (mo_config m) (mo_best_accuracy m) a then a else mo_best_accuracy m)"
  "mo_rounds_without_improvement (fst (monitor_update l a m)) =
     (if loss_improves (mo_config m) (mo_best_loss m) l \<or> accuracy_improves (mo_config m) (mo_best_accuracy m) a
      then 0 else mo_rounds_without_improvement m + 1)"
  by (simp_all add: monitor_update_def Let_def)

lemma monitor_all_fields:
  "mo_config (monitor_all cfg obs) = cfg \<and>
   mo_best_loss (monitor_all cfg obs) = fold (\<lambda>(l, a) b. if loss_improves cfg b l then Some l else b) obs None \<and>
   mo_best_accuracy (monitor_all cfg obs) = fold (\<lambda>(l, a) b. if accuracy_improves cfg b a then a else b) obs 0 \<and>
   mo_rounds_without_improvement (monitor_all cfg obs) = int (stale_rounds (improvements cfg None 0 obs))"
proof (induction obs rule: rev_induct)
  case Nil
  then show ?case
    by (simp add: monitor_all_def monitor_init_def stale_rounds_def)
next
  case (snoc p obs)
  obtain l a where p: "p = (l, a)"
    by (cases p)
  have "monitor_all cfg (obs @ [p]) = fst (monitor_update l a (monitor_all cfg obs))"
    by (simp add: monitor_all_def p)
  with snoc show ?case
    by (simp add: p monitor_update_fields improvements_append)
qed

lemma should_stop_update:
  "should_stop (snd (monitor_update l a m)) m \<longleftrightarrow>
     target_reached (mo_config m) l a \<or>
     cc_patience (mo_config m) \<le> mo_rounds_without_improvement (fst (monitor_update l a m))"
  by (auto simp: should_stop_def monitor_update_def determine_status_def Let_def)

text \<open>C36: Training is stopped after a round exactly if the round reaches a target or none of the last \<open>patience\<close> rounds improved the best
  loss or accuracy by more than \<open>min_delta\<close>: the plateau test, the windows and the trends change the reported status, never the
  decision. The first criterion of the class's documentation, that the loss has not improved for \<open>patience\<close> rounds, is not the one the code
  applies: a gain in accuracy postpones the stop as well (\<open>accuracy_postpones_stop\<close>).\<close>

theorem early_stop_exact:
  "should_stop (snd (monitor_update l a (monitor_all cfg obs))) (monitor_all cfg obs) \<longleftrightarrow>
     target_reached cfg l a \<or> cc_patience cfg \<le> int (stale_rounds (improvements cfg None 0 (obs @ [(l, a)])))"
proof -
  have "fst (monitor_update l a (monitor_all cfg obs)) = monitor_all cfg (obs @ [(l, a)])"
    by (simp add: monitor_all_def)
  then show ?thesis
    using should_stop_update [of l a "monitor_all cfg obs"] monitor_all_fields [of cfg] by metis
qed

text \<open>The loss has not improved for as many rounds as the patience, and training goes on because the accuracy has.\<close>

lemma accuracy_postpones_stop:
  assumes "cc_patience cfg = 2" "cc_min_delta cfg = 0" "cc_target_accuracy cfg = None" "cc_target_loss cfg = None"
  shows "\<not> should_stop (snd (monitor_update 1 (3 / 10) (monitor_all cfg [(1, 1 / 10), (1, 2 / 10)]))) (monitor_all cfg [(1, 1 / 10), (1, 2 / 10)])"
  using assms monitor_all_fields [of cfg "[(1, 1 / 10), (1, 2 / 10)]"]
  by (simp add: should_stop_update monitor_update_fields target_reached_def loss_improves_def accuracy_improves_def)

text \<open>The histories stay within two windows.\<close>

lemma history_bound:
  assumes "0 < cc_window_size cfg"
  shows "int (length (mo_loss_history (monitor_all cfg obs))) \<le> 2 * cc_window_size cfg"
proof (induction obs rule: rev_induct)
  case (snoc p obs)
  obtain l a where p: "p = (l, a)"
    by (cases p)
  have "monitor_all cfg (obs @ [p]) = fst (monitor_update l a (monitor_all cfg obs))"
    by (simp add: monitor_all_def p)
  then show ?case
    using snoc assms monitor_all_fields [of cfg obs]
    by (auto simp: monitor_update_def push_history_def slice_from_def Let_def)
qed (use assms in \<open>simp add: monitor_all_def monitor_init_def\<close>)

text \<open>The plateau statistic is bounded by the number of pairs.\<close>

lemma mann_kendall_bound: "2 * \<bar>mann_kendall_s d xs\<bar> \<le> int (length xs) * (int (length xs) - 1)"
proof (induction xs)
  case (Cons x xs)
  have "\<bar>sum_list (map (pair_sign d x) xs)\<bar> \<le> int (length xs)"
    by (induction xs) (auto simp: pair_sign_def Let_def)
  then have "\<bar>mann_kendall_s d (x # xs)\<bar> \<le> int (length xs) + \<bar>mann_kendall_s d xs\<bar>"
    by simp
  with Cons show ?case
    by (simp add: algebra_simps)
qed simp

end
