(* ===== verification/Checkpoint_Codec.thy ===== *)
theory Checkpoint_Codec
  imports Quink_Prelude
begin

text \<open>
  Checkpoints and their serialized form (\<open>storage/model_store.py\<close>). The values a checkpoint holds are a datatype; msgpack, the format of
  numpy arrays, zlib, SHA-256 and the texts of a date are in the record \<open>codec_env\<close>. A date is a number, an array is opaque but for
  its dtype and shape. \<open>ModelStoreError\<close> is written \<open>RuntimeError\<close>.
\<close>

section \<open>Values\<close>

record stored_array =
  sa_dtype :: string
  sa_shape :: "nat list"
  sa_data :: bytes

text \<open>The keys of a dictionary: strings, or integers, which msgpack writes but by default does not read back; other
  keys are not modelled.\<close>

datatype dkey = DkStr string | DkInt int

datatype svalue =
    SvArray stored_array
  | SvDate int
  | SvDict "(dkey \<times> svalue) list"
  | SvList "svalue list"
  | SvTuple "svalue list"
  | SvStr string
  | SvInt int
  | SvFloat float64
  | SvNpInt int
  | SvNpFloat float64
  | SvBool bool
  | SvNone

record codec_env =
  se_sha :: "bytes \<Rightarrow> bytes"
  se_pack :: "svalue \<Rightarrow> bytes result"
  se_unpack :: "bytes \<Rightarrow> svalue result"
  se_np_save :: "stored_array \<Rightarrow> bytes"
  se_np_load :: "bytes \<Rightarrow> stored_array result"
  se_zip :: "bytes \<Rightarrow> bytes"
  se_isoformat :: "int \<Rightarrow> string"
  se_fromisoformat :: "string \<Rightarrow> int result"
  se_date_text :: "int \<Rightarrow> string"

definition text_keys :: "(string \<times> svalue) list \<Rightarrow> (dkey \<times> svalue) list" where
  "text_keys kvs = map (\<lambda>(k, v). (DkStr k, v)) kvs"

lemma text_keys_lookup [simp]: "map_of (text_keys kvs) (DkStr k) = map_of kvs k"
  by (induction kvs) (auto simp: text_keys_def)

lemma text_keys_simps [simp]: "text_keys [] = []" "text_keys ((k, v) # kvs) = (DkStr k, v) # text_keys kvs"
  "text_keys (kvs @ kws) = text_keys kvs @ text_keys kws"
  by (simp_all add: text_keys_def)

text \<open>The shape is a tuple, which msgpack writes as it writes a list.\<close>

definition array_document :: "codec_env \<Rightarrow> stored_array \<Rightarrow> svalue" where
  "array_document e a = SvDict (text_keys [(''__type__'', SvStr ''numpy.ndarray''), (''__data__'', SvStr (hex_of_bytes (se_np_save e a))),
     (''dtype'', SvStr (sa_dtype a)), (''shape'', SvList (map (\<lambda>n. SvInt (int n)) (sa_shape a)))])"

definition date_document :: "codec_env \<Rightarrow> int \<Rightarrow> svalue" where
  "date_document e t = SvDict (text_keys [(''__type__'', SvStr ''datetime''), (''value'', SvStr (se_isoformat e t))])"

fun serialize_value :: "codec_env \<Rightarrow> svalue \<Rightarrow> svalue" where
  "serialize_value e (SvArray a) = array_document e a"
| "serialize_value e (SvNpInt n) = SvInt n"
| "serialize_value e (SvNpFloat x) = SvFloat x"
| "serialize_value e (SvDate t) = date_document e t"
| "serialize_value e (SvDict kvs) = SvDict (map (\<lambda>(k, v). (k, serialize_value e v)) kvs)"
| "serialize_value e (SvList vs) = SvList (map (serialize_value e) vs)"
| "serialize_value e (SvTuple vs) = SvList (map (serialize_value e) vs)"
| "serialize_value e v = v"

fun as_text :: "svalue \<Rightarrow> string result" where
  "as_text (SvStr s) = ok s"
| "as_text _ = raise TypeError"

definition field :: "(dkey \<times> svalue) list \<Rightarrow> string \<Rightarrow> svalue result" where
  "field kvs k = (case map_of kvs (DkStr k) of None \<Rightarrow> raise KeyError | Some v \<Rightarrow> ok v)"

lemma result_map_cong [fundef_cong]:
  "xs = ys \<Longrightarrow> (\<And>x. x \<in> set ys \<Longrightarrow> f x = g x) \<Longrightarrow> result_map f xs = result_map g ys"
  by (induction ys arbitrary: xs) auto

fun deserialize_value :: "codec_env \<Rightarrow> svalue \<Rightarrow> svalue result" where
  "deserialize_value e (SvDict kvs) =
     (if map_of kvs (DkStr ''__type__'') = Some (SvStr ''numpy.ndarray'') then
        result_bind (field kvs ''__data__'') (\<lambda>d. result_bind (as_text d) (\<lambda>h. result_bind (fromhex h) (\<lambda>b.
        result_bind (se_np_load e b) (\<lambda>a. ok (SvArray a)))))
      else if map_of kvs (DkStr ''__type__'') = Some (SvStr ''datetime'') then
        result_bind (field kvs ''value'') (\<lambda>d. result_bind (as_text d) (\<lambda>s. result_bind (se_fromisoformat e s) (\<lambda>t. ok (SvDate t))))
      else result_bind (result_map (\<lambda>(k, v). result_bind (deserialize_value e v) (\<lambda>w. ok (k, w))) kvs) (\<lambda>kvs'. ok (SvDict kvs')))"
| "deserialize_value e (SvList vs) = result_bind (result_map (deserialize_value e) vs) (\<lambda>ws. ok (SvList ws))"
| "deserialize_value e v = ok v"

section \<open>Checkpoints\<close>

record checkpoint =
  cp_round_number :: int
  cp_weights :: svalue
  cp_timestamp :: svalue
  cp_metrics :: svalue
  cp_contributing_peers :: svalue
  cp_checkpoint_id :: string
  cp_checksum :: svalue

definition id_char :: "char \<Rightarrow> bool" where
  "id_char c \<longleftrightarrow> (let n = (of_char c :: nat) in
     65 \<le> n \<and> n \<le> 90 \<or> 97 \<le> n \<and> n \<le> 122 \<or> 48 \<le> n \<and> n \<le> 57 \<or> c = CHR ''_'' \<or> c = CHR ''-'')"

definition valid_checkpoint_id :: "string \<Rightarrow> bool" where
  "valid_checkpoint_id s \<longleftrightarrow> 1 \<le> length s \<and> length s \<le> 64 \<and> list_all id_char s"

definition validate_checkpoint_id :: "string \<Rightarrow> string result" where
  "validate_checkpoint_id s = (if valid_checkpoint_id s then ok s else raise (ValueError ''checkpoint_id must match''))"

definition checkpoint_payload_dict :: "codec_env \<Rightarrow> checkpoint \<Rightarrow> (string \<times> svalue) list" where
  "checkpoint_payload_dict e c =
     [(''round_number'', SvInt (cp_round_number c)), (''timestamp'', serialize_value e (cp_timestamp c)),
      (''metrics'', serialize_value e (cp_metrics c)), (''contributing_peers'', serialize_value e (cp_contributing_peers c)),
      (''checkpoint_id'', SvStr (cp_checkpoint_id c)), (''weights'', serialize_value e (cp_weights c))]"

definition compute_checksum :: "codec_env \<Rightarrow> checkpoint \<Rightarrow> string result" where
  "compute_checksum e c = result_bind (se_pack e (SvDict (text_keys (checkpoint_payload_dict e c)))) (\<lambda>b. ok (hex_of_bytes (se_sha e b)))"

definition verify_checksum :: "codec_env \<Rightarrow> checkpoint \<Rightarrow> bool result" where
  "verify_checksum e c = result_bind (compute_checksum e c) (\<lambda>s. ok (cp_checksum c = SvStr s))"

fun falsy :: "svalue \<Rightarrow> bool" where
  "falsy (SvStr s) = (s = [])"
| "falsy (SvInt n) = (n = 0)"
| "falsy (SvBool b) = (\<not> b)"
| "falsy SvNone = True"
| "falsy (SvList vs) = (vs = [])"
| "falsy (SvDict kvs) = (kvs = [])"
| "falsy (SvTuple vs) = (vs = [])"
| "falsy (SvFloat x) = (x = 0 \<or> x = push_bit 63 1)"
| "falsy _ = False"

text \<open>The text of the date in the generated identifier is that of \<open>str\<close>.\<close>

fun date_text :: "codec_env \<Rightarrow> svalue \<Rightarrow> string" where
  "date_text e (SvDate t) = se_date_text e t"
| "date_text e _ = []"

definition checkpoint_post_init :: "codec_env \<Rightarrow> checkpoint \<Rightarrow> checkpoint result" where
  "checkpoint_post_init e c =
     (if cp_round_number c < 0 then raise (ValueError ''round_number must be >= 0'')
      else
        let generated = take 16 (hex_of_bytes (se_sha e (encode (str_of_int (cp_round_number c) @ ''_'' @ date_text e (cp_timestamp c)))));
            cid = (if cp_checkpoint_id c = [] then generated else cp_checkpoint_id c)
        in result_bind (validate_checkpoint_id cid) (\<lambda>cid.
           let c1 = c\<lparr>cp_checkpoint_id := cid\<rparr> in
           if falsy (cp_checksum c1) then result_bind (compute_checksum e c1) (\<lambda>s. ok (c1\<lparr>cp_checksum := SvStr s\<rparr>)) else ok c1))"

definition serialize_checkpoint :: "codec_env \<Rightarrow> checkpoint \<Rightarrow> bool \<Rightarrow> bytes result" where
  "serialize_checkpoint e c compress =
     result_bind (se_pack e (SvDict (text_keys (checkpoint_payload_dict e c @ [(''checksum'', cp_checksum c)]))))
       (\<lambda>b. ok (if compress then se_zip e b else b))"

text \<open>\<open>zlib.decompress\<close> has no parameter \<open>max_length\<close>: decompressing always raises. A document that is no dictionary,
  lacks a field or holds one of another type raises as well, and every exception becomes a \<open>ModelStoreError\<close>.\<close>

definition zlib_decompress_max_length :: "bytes \<Rightarrow> bytes result" where
  "zlib_decompress_max_length data = raise TypeError"

fun as_fields :: "svalue \<Rightarrow> (dkey \<times> svalue) list result" where
  "as_fields (SvDict kvs) = ok kvs"
| "as_fields _ = raise AttributeError"

fun as_int :: "svalue \<Rightarrow> int result" where
  "as_int (SvInt n) = ok n"
| "as_int (SvBool b) = ok (if b then 1 else 0)"
| "as_int _ = raise TypeError"

definition as_identifier :: "svalue \<Rightarrow> string result" where
  "as_identifier v = (case v of SvStr s \<Rightarrow> ok s | _ \<Rightarrow> if falsy v then ok [] else raise (ValueError ''checkpoint_id must match''))"

definition model_store_error :: "'a result \<Rightarrow> 'a result" where
  "model_store_error r = (case r of Inl _ \<Rightarrow> raise RuntimeError | Inr x \<Rightarrow> ok x)"

definition checkpoint_of_fields :: "codec_env \<Rightarrow> (dkey \<times> svalue) list \<Rightarrow> checkpoint result" where
  "checkpoint_of_fields e kvs =
     result_bind (field kvs ''round_number'') (\<lambda>r. result_bind (field kvs ''timestamp'') (\<lambda>t. result_bind (deserialize_value e t) (\<lambda>t.
     result_bind (field kvs ''metrics'') (\<lambda>m. result_bind (field kvs ''contributing_peers'') (\<lambda>p.
     result_bind (field kvs ''checkpoint_id'') (\<lambda>i. result_bind (field kvs ''weights'') (\<lambda>w. result_bind (deserialize_value e w) (\<lambda>w.
     result_bind (as_int r) (\<lambda>r. result_bind (as_identifier i) (\<lambda>i.
     checkpoint_post_init e \<lparr>cp_round_number = r, cp_weights = w, cp_timestamp = t, cp_metrics = m, cp_contributing_peers = p,
       cp_checkpoint_id = i, cp_checksum = (case map_of kvs (DkStr ''checksum'') of None \<Rightarrow> SvStr [] | Some s \<Rightarrow> s)\<rparr>))))))))))"

definition deserialize_checkpoint :: "codec_env \<Rightarrow> bytes \<Rightarrow> bool \<Rightarrow> checkpoint result" where
  "deserialize_checkpoint e data compressed = model_store_error (
     result_bind (if compressed then zlib_decompress_max_length data else ok data) (\<lambda>data.
     result_bind (se_unpack e data) (\<lambda>v. result_bind (as_fields v) (checkpoint_of_fields e))))"

section \<open>Metadata\<close>

record checkpoint_meta =
  md_checkpoint_id :: string
  md_round_number :: int
  md_timestamp :: svalue
  md_metrics :: svalue
  md_contributing_peers :: svalue
  md_checksum :: svalue
  md_size_bytes :: int

definition checkpoint_to_metadata :: "checkpoint \<Rightarrow> int \<Rightarrow> checkpoint_meta" where
  "checkpoint_to_metadata c nbytes = \<lparr>md_checkpoint_id = cp_checkpoint_id c, md_round_number = cp_round_number c,
     md_timestamp = cp_timestamp c, md_metrics = cp_metrics c, md_contributing_peers = cp_contributing_peers c,
     md_checksum = cp_checksum c, md_size_bytes = nbytes\<rparr>"

definition checkpoint_metadata_dict :: "codec_env \<Rightarrow> checkpoint_meta \<Rightarrow> (string \<times> svalue) list" where
  "checkpoint_metadata_dict e m =
     [(''round_number'', SvInt (md_round_number m)), (''timestamp'', serialize_value e (md_timestamp m)),
      (''metrics'', serialize_value e (md_metrics m)), (''contributing_peers'', serialize_value e (md_contributing_peers m)),
      (''checkpoint_id'', SvStr (md_checkpoint_id m)), (''checksum'', md_checksum m), (''size_bytes'', SvInt (md_size_bytes m))]"

definition serialize_checkpoint_metadata :: "codec_env \<Rightarrow> checkpoint_meta \<Rightarrow> bytes result" where
  "serialize_checkpoint_metadata e m = se_pack e (SvDict (text_keys (checkpoint_metadata_dict e m)))"

definition field_or :: "svalue \<Rightarrow> (dkey \<times> svalue) list \<Rightarrow> string \<Rightarrow> svalue" where
  "field_or d kvs k = (case map_of kvs (DkStr k) of None \<Rightarrow> d | Some v \<Rightarrow> v)"

text \<open>A document whose round or size is no integer counts as unreadable.\<close>

definition deserialize_checkpoint_metadata :: "codec_env \<Rightarrow> bytes \<Rightarrow> checkpoint_meta result" where
  "deserialize_checkpoint_metadata e data =
     result_bind (se_unpack e data) (\<lambda>v. result_bind (as_fields v) (\<lambda>kvs.
     result_bind (field kvs ''round_number'') (\<lambda>r. result_bind (as_int r) (\<lambda>r.
     result_bind (field kvs ''timestamp'') (\<lambda>t. result_bind (deserialize_value e t) (\<lambda>t.
     result_bind (deserialize_value e (field_or (SvDict []) kvs ''metrics'')) (\<lambda>m.
     result_bind (deserialize_value e (field_or (SvList []) kvs ''contributing_peers'')) (\<lambda>p.
     result_bind (field kvs ''checkpoint_id'') (\<lambda>i. result_bind (as_text i) (\<lambda>i. result_bind (validate_checkpoint_id i) (\<lambda>i.
     result_bind (as_int (field_or (SvInt 0) kvs ''size_bytes'')) (\<lambda>s.
     ok \<lparr>md_checkpoint_id = i, md_round_number = r, md_timestamp = t, md_metrics = m, md_contributing_peers = p,
       md_checksum = field_or (SvStr []) kvs ''checksum'', md_size_bytes = s\<rparr>))))))))))))"

section \<open>What survives serialization\<close>

text \<open>Values that come back as they were, provided msgpack reads back what it writes: no tuples or numpy scalars, and no dictionary that looks like a tagged one.\<close>

fun survives :: "codec_env \<Rightarrow> svalue \<Rightarrow> bool" where
  "survives e (SvArray a) = (se_np_load e (se_np_save e a) = ok a)"
| "survives e (SvDate t) = (se_fromisoformat e (se_isoformat e t) = ok t)"
| "survives e (SvDict kvs) = (map_of kvs (DkStr ''__type__'') \<noteq> Some (SvStr ''numpy.ndarray'') \<and>
     map_of kvs (DkStr ''__type__'') \<noteq> Some (SvStr ''datetime'') \<and> list_all (\<lambda>(k, v). survives e v) kvs)"
| "survives e (SvList vs) = list_all (survives e) vs"
| "survives e (SvTuple vs) = False"
| "survives e (SvNpInt n) = False"
| "survives e (SvNpFloat x) = False"
| "survives e v = True"

lemma serialize_text: "serialize_value e v = SvStr s \<longleftrightarrow> v = SvStr s"
  by (cases v) (auto simp: array_document_def date_document_def)

lemma map_of_serialized: "map_of (map (\<lambda>(k, v). (k, serialize_value e v)) kvs) k = Some (SvStr s) \<longleftrightarrow> map_of kvs k = Some (SvStr s)"
  by (induction kvs) (auto simp: serialize_text)

lemma result_map_mapped: "(\<And>x. x \<in> set xs \<Longrightarrow> h (g x) = ok x) \<Longrightarrow> result_map h (map g xs) = ok xs"
  by (induction xs) auto

lemma deserialize_serialize: "survives e v \<Longrightarrow> deserialize_value e (serialize_value e v) = ok v"
proof (induction v rule: survives.induct)
  case (3 e kvs)
  have "deserialize_value e (serialize_value e v) = ok v" if "(k, v) \<in> set kvs" for k v
    using 3 that by (fastforce simp: list_all_iff)
  then have "result_map (\<lambda>(k, v). result_bind (deserialize_value e v) (\<lambda>w. ok (k, w))) (map (\<lambda>(k, v). (k, serialize_value e v)) kvs) = ok kvs"
    by (intro result_map_mapped) auto
  then show ?case using 3 by (simp add: map_of_serialized)
next
  case (4 e vs)
  have "result_map (deserialize_value e) (map (serialize_value e) vs) = ok vs"
    by (rule result_map_mapped) (use 4 in \<open>auto simp: list_all_iff\<close>)
  then show ?case by simp
qed (simp_all add: array_document_def date_document_def field_def codec_simps)

text \<open>A checkpoint as the constructor leaves it, whose values survive; its metrics and peers are read back without deserializing.\<close>

definition storable :: "codec_env \<Rightarrow> checkpoint \<Rightarrow> bool" where
  "storable e c \<longleftrightarrow> 0 \<le> cp_round_number c \<and> valid_checkpoint_id (cp_checkpoint_id c) \<and> \<not> falsy (cp_checksum c) \<and>
     survives e (cp_weights c) \<and> survives e (cp_timestamp c) \<and>
     serialize_value e (cp_metrics c) = cp_metrics c \<and> serialize_value e (cp_contributing_peers c) = cp_contributing_peers c \<and>
     (case se_pack e (SvDict (text_keys (checkpoint_payload_dict e c @ [(''checksum'', cp_checksum c)]))) of
        Inl _ \<Rightarrow> False
      | Inr b \<Rightarrow> se_unpack e b = ok (SvDict (text_keys (checkpoint_payload_dict e c @ [(''checksum'', cp_checksum c)]))))"

lemma checkpoint_post_init_stored:
  "0 \<le> cp_round_number c \<Longrightarrow> valid_checkpoint_id (cp_checkpoint_id c) \<Longrightarrow> \<not> falsy (cp_checksum c) \<Longrightarrow> checkpoint_post_init e c = ok c"
  by (auto simp: checkpoint_post_init_def validate_checkpoint_id_def valid_checkpoint_id_def Let_def)

lemma storable_round_trip:
  assumes "storable e c"
  shows "\<exists>b. serialize_checkpoint e c False = ok b \<and> deserialize_checkpoint e b False = ok c"
proof -
  let ?doc = "text_keys (checkpoint_payload_dict e c @ [(''checksum'', cp_checksum c)])"
  obtain b where b: "se_pack e (SvDict ?doc) = ok b" "se_unpack e b = ok (SvDict ?doc)"
    using assms by (auto simp: storable_def split: sum.splits)
  have "checkpoint_of_fields e ?doc = ok c"
    using assms deserialize_serialize [of e "cp_weights c"] deserialize_serialize [of e "cp_timestamp c"] checkpoint_post_init_stored [of c e]
    by (cases c) (simp add: checkpoint_of_fields_def checkpoint_payload_dict_def field_def as_identifier_def storable_def)
  then show ?thesis
    using b by (simp add: serialize_checkpoint_def deserialize_checkpoint_def model_store_error_def)
qed

text \<open>What msgpack reads back of what it wrote: documents without an integer key, and nothing else
  (\<open>strict_map_key\<close>).\<close>

fun text_keyed :: "svalue \<Rightarrow> bool" where
  "text_keyed (SvDict kvs) = list_all (\<lambda>(k, v). (\<exists>s. k = DkStr s) \<and> text_keyed v) kvs"
| "text_keyed (SvList vs) = list_all text_keyed vs"
| "text_keyed (SvTuple vs) = list_all text_keyed vs"
| "text_keyed _ = True"

definition strict_msgpack :: "codec_env \<Rightarrow> bool" where
  "strict_msgpack e \<longleftrightarrow> (\<forall>v b. se_pack e v = ok b \<longrightarrow>
     se_unpack e b = (if text_keyed v then ok v else raise (ValueError ''not allowed for map key'')))"

text \<open>A checkpoint with an integer for a key of its weights is written and cannot be read back.\<close>

lemma int_keys_unreadable:
  assumes "strict_msgpack e" "serialize_checkpoint e c False = ok b" "cp_weights c = SvDict kvs" "(DkInt n, v) \<in> set kvs"
  shows "deserialize_checkpoint e b False = raise RuntimeError"
proof -
  let ?doc = "SvDict (text_keys (checkpoint_payload_dict e c @ [(''checksum'', cp_checksum c)]))"
  have "\<not> text_keyed (serialize_value e (cp_weights c))"
    using assms(3,4) by (auto simp: list_all_iff intro!: bexI [of _ "(DkInt n, v)"])
  then have "\<not> text_keyed ?doc"
    by (simp add: checkpoint_payload_dict_def)
  then have "se_unpack e b = raise (ValueError ''not allowed for map key'')"
    using assms(1,2) by (auto simp: strict_msgpack_def serialize_checkpoint_def result_bind_eq_ok)
  then show ?thesis
    by (simp add: deserialize_checkpoint_def model_store_error_def)
qed

text \<open>A tuple of weights comes back as a list.\<close>

lemma tuple_comes_back_as_list:
  "deserialize_value e (serialize_value e (SvTuple [SvInt 1])) = ok (SvList [SvInt 1])"
  by simp

text \<open>A checkpoint written with compression can never be read.\<close>

lemma compressed_unreadable: "deserialize_checkpoint e b True = raise RuntimeError"
  by (simp add: deserialize_checkpoint_def zlib_decompress_max_length_def model_store_error_def)

end
