(* ===== verification/Model_Store.thy ===== *)
theory Model_Store
  imports Checkpoint_Codec "HOL-Library.List_Lexorder" "HOL-Library.Char_ord" "HOL-Library.Product_Lexorder"
begin

text \<open>
  The checkpoint store (\<open>ModelStore\<close> of \<open>storage/model_store.py\<close>): checkpoints in memory and in a directory of files, written atomically,
  with an index of rounds and caches of the listing. The directory is a dictionary of file names; the names that \<open>mkstemp\<close> draws, the
  faults of a write and the order in which a directory is listed are in the record \<open>store_env\<close>. Reading or unlinking a file that exists succeeds.
  The lock makes every operation one step. The async variants run the same operations in a thread. Log records are left out, and
  so is \<open>_list_cache\<close>, which no method uses.
\<close>

section \<open>Files\<close>

type_synonym disk = "(string, bytes) pydict"

datatype write_fault = No_fault | Mkstemp_fails | Write_fails nat | Replace_fails

record store_env =
  st_codec :: codec_env
  st_random :: "string \<Rightarrow> string"
  st_fault :: "string \<Rightarrow> bytes \<Rightarrow> write_fault"
  st_listing :: "string list \<Rightarrow> string list"

definition temp_path :: "store_env \<Rightarrow> string \<Rightarrow> string" where
  "temp_path e f = ''.'' @ f @ ''.'' @ st_random e f @ ''.tmp''"

definition replace_file :: "disk \<Rightarrow> string \<Rightarrow> string \<Rightarrow> disk" where
  "replace_file d tmp f = (case map_of d tmp of None \<Rightarrow> d | Some b \<Rightarrow> AList.update f b (AList.delete tmp d))"

definition write_bytes_atomically :: "store_env \<Rightarrow> disk \<Rightarrow> string \<Rightarrow> bytes \<Rightarrow> disk \<times> unit result" where
  "write_bytes_atomically e d f data =
     (let tmp = temp_path e f; made = AList.update tmp [] d; written = AList.update tmp data made
      in case st_fault e f data of
           Mkstemp_fails \<Rightarrow> (d, raise OSError)
         | Write_fails n \<Rightarrow> (AList.delete tmp (AList.update tmp (take n data) made), raise OSError)
         | Replace_fails \<Rightarrow> (AList.delete tmp written, raise OSError)
         | No_fault \<Rightarrow> (replace_file written tmp f, ok ()))"

text \<open>The directories a crash during the call can leave behind.\<close>

definition crash_disks :: "store_env \<Rightarrow> disk \<Rightarrow> string \<Rightarrow> bytes \<Rightarrow> disk list" where
  "crash_disks e d f data =
     (let tmp = temp_path e f; made = AList.update tmp [] d
      in d # map (\<lambda>n. AList.update tmp (take n data) made) [0..<Suc (length data)]
         @ [replace_file (AList.update tmp data made) tmp f])"

section \<open>The store\<close>

record model_store =
  ms_dir :: "disk option"
  ms_keep_in_memory :: bool
  ms_compression :: bool
  ms_max_memory :: int
  ms_checkpoints :: "(string, checkpoint) pydict"
  ms_round_index :: "(int, string) pydict"
  ms_cache_dirty :: bool
  ms_metadata_cache :: "checkpoint_meta list option"
  ms_storage_size_cache :: "int option"

definition open_store :: "disk option \<Rightarrow> bool \<Rightarrow> bool \<Rightarrow> int \<Rightarrow> model_store" where
  "open_store d keep compression max_memory =
     \<lparr>ms_dir = d, ms_keep_in_memory = keep, ms_compression = compression, ms_max_memory = max_memory,
      ms_checkpoints = [], ms_round_index = [], ms_cache_dirty = True, ms_metadata_cache = None, ms_storage_size_cache = None\<rparr>"

text \<open>A new process opens the same directory with the same settings.\<close>

definition restart_store :: "model_store \<Rightarrow> model_store" where
  "restart_store s = open_store (ms_dir s) (ms_keep_in_memory s) (ms_compression s) (ms_max_memory s)"

definition disk_of :: "model_store \<Rightarrow> disk" where
  "disk_of s = (case ms_dir s of None \<Rightarrow> [] | Some d \<Rightarrow> d)"

definition file_size :: "model_store \<Rightarrow> string \<Rightarrow> int" where
  "file_size s f = (case map_of (disk_of s) f of None \<Rightarrow> 0 | Some b \<Rightarrow> int (length b))"

definition checkpoint_file :: "string \<Rightarrow> string \<Rightarrow> string" where
  "checkpoint_file i ext = ''checkpoint_'' @ i @ ext"

definition path_in_store :: "model_store \<Rightarrow> string \<Rightarrow> string \<Rightarrow> string result" where
  "path_in_store s i ext = result_bind (validate_checkpoint_id i)
     (\<lambda>i. if ms_dir s = None then raise TypeError else ok (checkpoint_file i ext))"

definition get_checkpoint_path :: "model_store \<Rightarrow> string \<Rightarrow> string result" where
  "get_checkpoint_path s i = path_in_store s i (if ms_compression s then ''.msgpack.gz'' else ''.msgpack'')"

definition get_metadata_path :: "model_store \<Rightarrow> string \<Rightarrow> string result" where
  "get_metadata_path s i = path_in_store s i ''.meta.msgpack''"

definition ends_with :: "string \<Rightarrow> string \<Rightarrow> bool" where
  "ends_with ext f \<longleftrightarrow> length ext \<le> length f \<and> drop (length f - length ext) f = ext"

definition glob_match :: "string \<Rightarrow> string \<Rightarrow> bool" where
  "glob_match ext f \<longleftrightarrow> 11 + length ext \<le> length f \<and> take 11 f = ''checkpoint_'' \<and> ends_with ext f"

definition checkpoint_id_from_path :: "string \<Rightarrow> string result" where
  "checkpoint_id_from_path f =
     (let body = \<lambda>ext. take (length f - length ext - 11) (drop 11 f)
      in if ends_with ''.msgpack.gz'' f then validate_checkpoint_id (body ''.msgpack.gz'')
         else if ends_with ''.msgpack'' f then validate_checkpoint_id (body ''.msgpack'')
         else if ends_with ''.pkl'' f then validate_checkpoint_id (body ''.pkl'')
         else raise (ValueError ''Unsupported checkpoint filename''))"

definition find_checkpoint_files :: "store_env \<Rightarrow> model_store \<Rightarrow> string list" where
  "find_checkpoint_files e s = (case ms_dir s of None \<Rightarrow> []
     | Some d \<Rightarrow> let names = st_listing e (map fst d) in
         (if ms_compression s then filter (glob_match ''.msgpack.gz'') names else [])
         @ filter (\<lambda>f. glob_match ''.msgpack'' f \<and> \<not> ends_with ''.meta.msgpack'' f) names
         @ filter (glob_match ''.pkl'') names)"

definition invalidate_cache :: "model_store \<Rightarrow> model_store" where
  "invalidate_cache s = s\<lparr>ms_cache_dirty := True, ms_metadata_cache := None, ms_storage_size_cache := None\<rparr>"

definition write_file :: "store_env \<Rightarrow> model_store \<Rightarrow> string \<Rightarrow> bytes \<Rightarrow> model_store \<times> unit result" where
  "write_file e s f data = (let (d, r) = write_bytes_atomically e (disk_of s) f data in (s\<lparr>ms_dir := Some d\<rparr>, r))"

definition save_metadata_to_disk :: "store_env \<Rightarrow> model_store \<Rightarrow> checkpoint \<Rightarrow> int \<Rightarrow> model_store \<times> unit result" where
  "save_metadata_to_disk e s c nbytes =
     (case result_bind (get_metadata_path s (cp_checkpoint_id c)) (\<lambda>f.
            result_bind (serialize_checkpoint_metadata (st_codec e) (checkpoint_to_metadata c nbytes)) (\<lambda>b. ok (f, b))) of
        Inl err \<Rightarrow> (s, raise err)
      | Inr (f, b) \<Rightarrow> write_file e s f b)"

section \<open>Loading\<close>

text \<open>A checksum that does not match is only logged; one that cannot be computed is an error like the others.\<close>

definition read_checkpoint :: "codec_env \<Rightarrow> bytes \<Rightarrow> bool \<Rightarrow> checkpoint option" where
  "read_checkpoint e data compressed =
     (case result_bind (deserialize_checkpoint e data compressed)
             (\<lambda>c. if falsy (cp_checksum c) then ok c else result_bind (verify_checksum e c) (\<lambda>_. ok c)) of
        Inl _ \<Rightarrow> None
      | Inr c \<Rightarrow> Some c)"

definition load_from_file :: "store_env \<Rightarrow> model_store \<Rightarrow> string \<Rightarrow> bool \<Rightarrow> model_store \<times> checkpoint option" where
  "load_from_file e s f compressed =
     (case Option.bind (map_of (disk_of s) f) (\<lambda>data. read_checkpoint (st_codec e) data compressed) of
        None \<Rightarrow> (s, None)
      | Some c \<Rightarrow>
          (s\<lparr>ms_round_index := AList.update (cp_round_number c) (cp_checkpoint_id c) (ms_round_index s),
             ms_checkpoints := (if ms_keep_in_memory s then AList.update (cp_checkpoint_id c) c (ms_checkpoints s) else ms_checkpoints s)\<rparr>,
           Some c))"

definition load_from_disk :: "store_env \<Rightarrow> model_store \<Rightarrow> string \<Rightarrow> model_store \<times> checkpoint option result" where
  "load_from_disk e s i =
     (case validate_checkpoint_id i of
        Inl err \<Rightarrow> (s, raise err)
      | Inr i \<Rightarrow>
          if ms_dir s = None then (s, raise TypeError)
          else if ms_compression s \<and> dict_has (disk_of s) (checkpoint_file i ''.msgpack.gz'') then
            map_prod id ok (load_from_file e s (checkpoint_file i ''.msgpack.gz'') True)
          else if dict_has (disk_of s) (checkpoint_file i ''.msgpack'') then
            map_prod id ok (load_from_file e s (checkpoint_file i ''.msgpack'') False)
          else (s, ok None))"

definition load_checkpoint :: "store_env \<Rightarrow> model_store \<Rightarrow> string \<Rightarrow> model_store \<times> checkpoint option result" where
  "load_checkpoint e s i =
     (case validate_checkpoint_id i of
        Inl err \<Rightarrow> (s, raise err)
      | Inr i \<Rightarrow>
          (case map_of (ms_checkpoints s) i of
             Some c \<Rightarrow> (s, ok (Some c))
           | None \<Rightarrow> if ms_dir s \<noteq> None then load_from_disk e s i else (s, ok None)))"

definition load_metadata_from_disk :: "store_env \<Rightarrow> model_store \<Rightarrow> string \<Rightarrow> model_store \<times> checkpoint_meta option result" where
  "load_metadata_from_disk e s i =
     (case get_metadata_path s i of
        Inl err \<Rightarrow> (s, raise err)
      | Inr p \<Rightarrow>
          (case (case map_of (disk_of s) p of None \<Rightarrow> raise KeyError | Some b \<Rightarrow> deserialize_checkpoint_metadata (st_codec e) b) of
             Inr m \<Rightarrow> (s, ok (Some m))
           | Inl _ \<Rightarrow>
               (case load_from_disk e s i of
                  (s1, Inl err) \<Rightarrow> (s1, raise err)
                | (s1, Inr None) \<Rightarrow> (s1, ok None)
                | (s1, Inr (Some c)) \<Rightarrow>
                    (case get_checkpoint_path s1 i of
                       Inl err \<Rightarrow> (s1, raise err)
                     | Inr f \<Rightarrow>
                         (fst (save_metadata_to_disk e s1 c (file_size s1 f)), ok (Some (checkpoint_to_metadata c (file_size s1 f))))))))"

section \<open>Saving\<close>

text \<open>Popping a heap of pairs yields them in increasing order.\<close>

definition evict :: "(int \<times> string) list \<Rightarrow> model_store \<Rightarrow> model_store" where
  "evict oldest s = fold (\<lambda>(r, i) s.
     if dict_has (ms_checkpoints s) i
     then s\<lparr>ms_checkpoints := AList.delete i (ms_checkpoints s), ms_round_index := AList.delete r (ms_round_index s)\<rparr>
     else s) oldest s"

definition enforce_memory_limit :: "model_store \<Rightarrow> model_store" where
  "enforce_memory_limit s =
     (if ms_max_memory s \<le> 0 \<or> int (length (ms_checkpoints s)) \<le> ms_max_memory s then s
      else let heap = map (\<lambda>(_, c). (cp_round_number c, cp_checkpoint_id c)) (ms_checkpoints s);
               evicted_count = nat (int (length (ms_checkpoints s)) - ms_max_memory s)
           in evict (take evicted_count (sort heap)) s)"

definition save_to_disk :: "store_env \<Rightarrow> model_store \<Rightarrow> checkpoint \<Rightarrow> model_store \<times> int result" where
  "save_to_disk e s c =
     (case get_checkpoint_path s (cp_checkpoint_id c) of
        Inl err \<Rightarrow> (s, raise err)
      | Inr f \<Rightarrow>
          (case serialize_checkpoint (st_codec e) c (ms_compression s) of
             Inl _ \<Rightarrow> (s, raise RuntimeError)
           | Inr b \<Rightarrow>
               (case write_file e s f b of
                  (s1, Inl _) \<Rightarrow> (s1, raise RuntimeError)
                | (s1, Inr _) \<Rightarrow> (s1, ok (int (length b))))))"

definition new_checkpoint :: "codec_env \<Rightarrow> int \<Rightarrow> int \<Rightarrow> svalue \<Rightarrow> svalue \<Rightarrow> svalue \<Rightarrow> checkpoint result" where
  "new_checkpoint e now round_number weights metrics peers = checkpoint_post_init e
     \<lparr>cp_round_number = round_number, cp_weights = weights, cp_timestamp = SvDate now,
      cp_metrics = (if falsy metrics then SvDict [] else metrics),
      cp_contributing_peers = (if falsy peers then SvList [] else peers),
      cp_checkpoint_id = [], cp_checksum = SvStr []\<rparr>"

definition keep_on_disk :: "store_env \<Rightarrow> model_store \<Rightarrow> checkpoint \<Rightarrow> model_store \<times> unit result" where
  "keep_on_disk e s c =
     (if ms_dir s = None then (s, ok ())
      else (case save_to_disk e s c of
              (s1, Inl err) \<Rightarrow> (s1, raise err)
            | (s1, Inr nbytes) \<Rightarrow> (fst (save_metadata_to_disk e s1 c nbytes), ok ())))"

definition keep_in_index :: "model_store \<Rightarrow> checkpoint \<Rightarrow> model_store" where
  "keep_in_index s c =
     (let s1 = (invalidate_cache s)\<lparr>ms_round_index := AList.update (cp_round_number c) (cp_checkpoint_id c) (ms_round_index s)\<rparr>
      in if ms_keep_in_memory s1
         then enforce_memory_limit (s1\<lparr>ms_checkpoints := AList.update (cp_checkpoint_id c) c (ms_checkpoints s1)\<rparr>)
         else s1)"

definition save_checkpoint ::
  "store_env \<Rightarrow> model_store \<Rightarrow> int \<Rightarrow> int \<Rightarrow> svalue \<Rightarrow> svalue \<Rightarrow> svalue \<Rightarrow> model_store \<times> checkpoint result" where
  "save_checkpoint e s now round_number weights metrics peers =
     (case new_checkpoint (st_codec e) now round_number weights metrics peers of
        Inl err \<Rightarrow> (s, raise err)
      | Inr c \<Rightarrow>
          (case keep_on_disk e s c of
             (s1, Inl err) \<Rightarrow> (s1, raise err)
           | (s1, Inr _) \<Rightarrow> (keep_in_index s1 c, ok c)))"

section \<open>Finding and listing\<close>

fun search_round :: "store_env \<Rightarrow> model_store \<Rightarrow> int \<Rightarrow> string list \<Rightarrow> model_store \<times> checkpoint option result" where
  "search_round e s r [] = (s, ok None)"
| "search_round e s r (f # fs) =
     (case checkpoint_id_from_path f of
        Inl _ \<Rightarrow> search_round e s r fs
      | Inr i \<Rightarrow>
          (case load_from_disk e s i of
             (s1, Inl err) \<Rightarrow> (s1, raise err)
           | (s1, Inr None) \<Rightarrow> search_round e s1 r fs
           | (s1, Inr (Some c)) \<Rightarrow>
               if cp_round_number c = r
               then (s1\<lparr>ms_round_index := AList.update r (cp_checkpoint_id c) (ms_round_index s1)\<rparr>, ok (Some c))
               else search_round e s1 r fs))"

definition get_checkpoint_by_round :: "store_env \<Rightarrow> model_store \<Rightarrow> int \<Rightarrow> model_store \<times> checkpoint option result" where
  "get_checkpoint_by_round e s r =
     (case map_of (ms_round_index s) r of
        Some (ch # i) \<Rightarrow> load_checkpoint e s (ch # i)
      | _ \<Rightarrow> if ms_dir s \<noteq> None then search_round e s r (find_checkpoint_files e s) else (s, ok None))"

definition get_latest_checkpoint :: "store_env \<Rightarrow> model_store \<Rightarrow> model_store \<times> checkpoint option result" where
  "get_latest_checkpoint e s =
     (if ms_round_index s = [] then (s, ok None)
      else (case map_of (ms_round_index s) (Max (set (map fst (ms_round_index s)))) of
              Some (ch # i) \<Rightarrow>
                (case map_of (ms_checkpoints s) (ch # i) of
                   Some c \<Rightarrow> (s, ok (Some c))
                 | None \<Rightarrow> load_from_disk e s (ch # i))
            | _ \<Rightarrow> (s, ok None)))"

definition memory_metadata :: "model_store \<Rightarrow> checkpoint_meta list result" where
  "memory_metadata s =
     (if ms_keep_in_memory s
      then result_map (\<lambda>(_, c). if ms_dir s = None then ok (checkpoint_to_metadata c 0)
             else result_bind (get_checkpoint_path s (cp_checkpoint_id c)) (\<lambda>f. ok (checkpoint_to_metadata c (file_size s f)))) (ms_checkpoints s)
      else ok [])"

fun disk_metadata :: "store_env \<Rightarrow> model_store \<Rightarrow> string list \<Rightarrow> string list \<Rightarrow> model_store \<times> checkpoint_meta list result" where
  "disk_metadata e s seen [] = (s, ok [])"
| "disk_metadata e s seen (f # fs) =
     (case checkpoint_id_from_path f of
        Inl _ \<Rightarrow> disk_metadata e s seen fs
      | Inr i \<Rightarrow>
          if ends_with ''.pkl'' f \<or> i \<in> set seen then disk_metadata e s seen fs
          else (case load_metadata_from_disk e s i of
                  (s1, Inl err) \<Rightarrow> (s1, raise err)
                | (s1, Inr None) \<Rightarrow> disk_metadata e s1 seen fs
                | (s1, Inr (Some m)) \<Rightarrow>
                    let m1 = (if md_size_bytes m = 0 then m\<lparr>md_size_bytes := file_size s1 f\<rparr> else m)
                    in map_prod id (\<lambda>r. result_bind r (\<lambda>ms. ok (m1 # ms))) (disk_metadata e s1 seen fs)))"

definition list_checkpoint_metadata :: "store_env \<Rightarrow> model_store \<Rightarrow> model_store \<times> checkpoint_meta list result" where
  "list_checkpoint_metadata e s =
     (case (if ms_cache_dirty s then None else ms_metadata_cache s) of
        Some entries \<Rightarrow> (s, ok entries)
      | None \<Rightarrow>
          (case memory_metadata s of
             Inl err \<Rightarrow> (s, raise err)
           | Inr in_memory \<Rightarrow>
               (case disk_metadata e s (map md_checkpoint_id in_memory) (find_checkpoint_files e s) of
                  (s1, Inl err) \<Rightarrow> (s1, raise err)
                | (s1, Inr on_disk) \<Rightarrow>
                    let entries = sort_key md_round_number (in_memory @ on_disk)
                    in (s1\<lparr>ms_metadata_cache := Some entries, ms_cache_dirty := False\<rparr>, ok entries))))"

section \<open>Deleting\<close>

definition remove_files :: "string list \<Rightarrow> disk \<Rightarrow> disk" where
  "remove_files fs d = fold AList.delete fs d"

definition stored_variants :: "disk \<Rightarrow> string \<Rightarrow> string list" where
  "stored_variants d i = filter (dict_has d) (map (checkpoint_file i) [''.msgpack.gz'', ''.msgpack'', ''.pkl'', ''.meta.msgpack''])"

definition forget_in_memory :: "model_store \<Rightarrow> string \<Rightarrow> model_store" where
  "forget_in_memory s i = (case map_of (ms_checkpoints s) i of
     None \<Rightarrow> s
   | Some c \<Rightarrow> s\<lparr>ms_checkpoints := AList.delete i (ms_checkpoints s), ms_round_index := AList.delete (cp_round_number c) (ms_round_index s)\<rparr>)"

definition delete_checkpoint :: "model_store \<Rightarrow> string \<Rightarrow> model_store \<times> bool result" where
  "delete_checkpoint s i =
     (case validate_checkpoint_id i of
        Inl err \<Rightarrow> (s, raise err)
      | Inr i \<Rightarrow>
          let s1 = invalidate_cache (forget_in_memory s i);
              files = stored_variants (disk_of s) i
          in (if ms_dir s = None then s1 else s1\<lparr>ms_dir := Some (remove_files files (disk_of s))\<rparr>,
              ok (dict_has (ms_checkpoints s) i \<or> files \<noteq> [])))"

fun delete_all :: "model_store \<Rightarrow> checkpoint_meta list \<Rightarrow> model_store \<times> unit result" where
  "delete_all s [] = (s, ok ())"
| "delete_all s (m # ms) =
     (case delete_checkpoint s (md_checkpoint_id m) of
        (s1, Inl err) \<Rightarrow> (s1, raise err)
      | (s1, Inr _) \<Rightarrow> delete_all s1 ms)"

text \<open>The slice \<open>xs[:-n]\<close>: for \<open>n = 0\<close> it is empty.\<close>

definition slice_to_minus :: "'a list \<Rightarrow> int \<Rightarrow> 'a list" where
  "slice_to_minus xs n = (if 0 < n then take (length xs - nat n) xs else take (nat (- n)) xs)"

definition clear_old_checkpoints :: "store_env \<Rightarrow> model_store \<Rightarrow> int \<Rightarrow> model_store \<times> unit result" where
  "clear_old_checkpoints e s keep_last_n =
     (case list_checkpoint_metadata e s of
        (s1, Inl err) \<Rightarrow> (s1, raise err)
      | (s1, Inr entries) \<Rightarrow>
          if int (length entries) \<le> keep_last_n then (s1, ok ()) else delete_all s1 (slice_to_minus entries keep_last_n))"

definition get_storage_size :: "store_env \<Rightarrow> model_store \<Rightarrow> model_store \<times> int result" where
  "get_storage_size e s =
     (if ms_dir s = None then
        (s, result_bind (result_map (\<lambda>(_, c). serialize_checkpoint (st_codec e) c (ms_compression s)) (ms_checkpoints s))
              (\<lambda>bs. ok (sum_list (map (int \<circ> length) bs))))
      else (case ms_storage_size_cache s of
              Some n \<Rightarrow> (s, ok n)
            | None \<Rightarrow>
                (case list_checkpoint_metadata e s of
                   (s1, Inl err) \<Rightarrow> (s1, raise err)
                 | (s1, Inr entries) \<Rightarrow>
                     let total_size = sum_list (map md_size_bytes entries)
                     in (s1\<lparr>ms_storage_size_cache := Some total_size\<rparr>, ok total_size))))"

end
