(* ===== verification/Store_Properties.thy ===== *)
theory Store_Properties
  imports Model_Store
begin

text \<open>
  What the checkpoint store promises. An uncompressed store in a directory refines a map from identifiers to checkpoints under every
  operation, fault and restart; a crash while a file is written leaves the old or the new content; a save respects the memory limit. The
  contract of such a store is the locale \<open>recorded_map\<close>, interpreted on the operations of the store.
\<close>

section \<open>File names\<close>

lemma valid_id_no_dot: "valid_checkpoint_id i \<Longrightarrow> CHR ''.'' \<notin> set i"
  by (auto simp: valid_checkpoint_id_def list_all_iff id_char_def Let_def)

lemma validate_iff: "validate_checkpoint_id i = (if valid_checkpoint_id i then ok i else raise (ValueError ''checkpoint_id must match''))"
  by (simp add: validate_checkpoint_id_def)

lemma checkpoint_file_inj:
  assumes "valid_checkpoint_id i" "valid_checkpoint_id j"
  shows "checkpoint_file i (CHR ''.'' # x) = checkpoint_file j (CHR ''.'' # y) \<longleftrightarrow> i = j \<and> x = y"
proof -
  have split: "takeWhile (\<lambda>ch. ch \<noteq> CHR ''.'') (k @ CHR ''.'' # z) = k" "dropWhile (\<lambda>ch. ch \<noteq> CHR ''.'') (k @ CHR ''.'' # z) = CHR ''.'' # z"
    if "valid_checkpoint_id k" for k z
    using valid_id_no_dot [OF that] by (simp_all add: takeWhile_append dropWhile_append takeWhile_eq_all_conv)
  show ?thesis
    using split [of i x] split [of j y] assms by (auto simp: checkpoint_file_def dest: arg_cong)
qed

lemma temp_is_no_checkpoint [simp]: "temp_path e f \<noteq> checkpoint_file i ext" "checkpoint_file i ext \<noteq> temp_path e f"
  by (simp_all add: temp_path_def checkpoint_file_def)

lemma temp_is_not_listed: "temp_path e f \<notin> set (find_checkpoint_files e' s)"
  by (auto simp: find_checkpoint_files_def glob_match_def temp_path_def Let_def split: option.splits if_splits)

section \<open>Writing\<close>

lemma written_elsewhere:
  "write_bytes_atomically e d f data = (d', r) \<Longrightarrow> g \<noteq> temp_path e f \<Longrightarrow> map_of d' g = (if r = ok () \<and> g = f then Some data else map_of d g)"
  by (auto simp: write_bytes_atomically_def Let_def replace_file_def dict_simps split: write_fault.splits if_splits option.splits)

lemma crashed_elsewhere:
  "d' \<in> set (crash_disks e d f data) \<Longrightarrow> g \<noteq> temp_path e f \<Longrightarrow> map_of d' g = map_of d g \<or> g = f \<and> map_of d' g = Some data"
  by (auto simp: crash_disks_def Let_def replace_file_def dict_simps simp del: upt_Suc split: option.splits if_splits)

section \<open>What a store holds\<close>

definition contents :: "codec_env \<Rightarrow> disk \<Rightarrow> string \<Rightarrow> checkpoint option" where
  "contents e d i = (if valid_checkpoint_id i
     then Option.bind (map_of d (checkpoint_file i ''.msgpack'')) (\<lambda>data. read_checkpoint e data False) else None)"

lemma contents_same:
  "(\<And>i. valid_checkpoint_id i \<Longrightarrow> map_of d' (checkpoint_file i ''.msgpack'') = map_of d (checkpoint_file i ''.msgpack''))
    \<Longrightarrow> contents e d' = contents e d"
  by (auto simp: contents_def)

lemma read_storable: "storable e c \<Longrightarrow> serialize_checkpoint e c False = ok b \<Longrightarrow> verify_checksum e c = ok t \<Longrightarrow> read_checkpoint e b False = Some c"
  using storable_round_trip [of e c] by (auto simp: read_checkpoint_def)

text \<open>The values of a checkpoint survive, and its checksum can be computed.\<close>

definition keepable :: "codec_env \<Rightarrow> checkpoint \<Rightarrow> bool" where
  "keepable e c \<longleftrightarrow> storable e c \<and> (case verify_checksum e c of Inl _ \<Rightarrow> False | Inr _ \<Rightarrow> True)"

lemma keepable_facts:
  "keepable e c \<Longrightarrow> valid_checkpoint_id (cp_checkpoint_id c)"
  "keepable e c \<Longrightarrow> serialize_checkpoint e c False = ok b \<Longrightarrow> read_checkpoint e b False = Some c"
  using read_storable [of e c b] by (auto simp: keepable_def storable_def split: sum.splits)

lemma contents_written:
  assumes "keepable e c" and data: "serialize_checkpoint e c False = ok b"
    and "\<And>g. g \<noteq> tmp \<Longrightarrow> map_of d' g = (if g = checkpoint_file (cp_checkpoint_id c) ''.msgpack'' then Some b else map_of d g)"
    and "\<And>i. tmp \<noteq> checkpoint_file i ''.msgpack''"
  shows "contents e d' = (contents e d)(cp_checkpoint_id c \<mapsto> c)"
proof
  fix i
  have "map_of d' (checkpoint_file i ''.msgpack'') = (if i = cp_checkpoint_id c then Some b else map_of d (checkpoint_file i ''.msgpack''))"
    if "valid_checkpoint_id i"
    using assms(3) [of "checkpoint_file i ''.msgpack''"] assms(4) [of i] that keepable_facts(1) [OF assms(1)] by (simp add: checkpoint_file_inj)
  then show "contents e d' i = ((contents e d)(cp_checkpoint_id c \<mapsto> c)) i"
    using keepable_facts [OF assms(1)] data by (auto simp: contents_def)
qed

section \<open>The invariant of a store on disk\<close>

text \<open>An uncompressed store in a directory, whose files hold checkpoints under their own identifiers and whose memory agrees with them.\<close>

definition store_inv :: "store_env \<Rightarrow> model_store \<Rightarrow> bool" where
  "store_inv e s \<longleftrightarrow> ms_dir s \<noteq> None \<and> \<not> ms_compression s \<and> (ms_keep_in_memory s \<or> ms_checkpoints s = []) \<and>
     (\<forall>i c. contents (st_codec e) (disk_of s) i = Some c \<longrightarrow> cp_checkpoint_id c = i) \<and>
     (\<forall>i c. map_of (ms_checkpoints s) i = Some c \<longrightarrow> contents (st_codec e) (disk_of s) i = Some c)"

abbreviation holds :: "store_env \<Rightarrow> model_store \<Rightarrow> string \<Rightarrow> checkpoint option" where
  "holds e s \<equiv> contents (st_codec e) (disk_of s)"

definition untouched :: "store_env \<Rightarrow> model_store \<Rightarrow> model_store \<Rightarrow> bool" where
  "untouched e s s' \<longleftrightarrow> store_inv e s' \<and> holds e s' = holds e s"

lemma untouched_refl: "store_inv e s \<Longrightarrow> untouched e s s"
  by (simp add: untouched_def)

lemma untouched_trans: "untouched e s s' \<Longrightarrow> untouched e s' s'' \<Longrightarrow> untouched e s s''"
  by (simp add: untouched_def)

lemma untouched_inv: "untouched e s s' \<Longrightarrow> store_inv e s'"
  by (simp add: untouched_def)

lemma untouched_same:
  "untouched e s s' \<Longrightarrow> ms_dir s'' = ms_dir s' \<Longrightarrow> ms_compression s'' = ms_compression s' \<Longrightarrow> ms_checkpoints s'' = ms_checkpoints s' \<Longrightarrow>
    ms_keep_in_memory s'' = ms_keep_in_memory s' \<Longrightarrow> untouched e s s''"
  unfolding untouched_def store_inv_def disk_of_def by metis

lemma untouched_remember:
  "store_inv e s \<Longrightarrow> holds e s i = Some c \<Longrightarrow>
    untouched e s (s\<lparr>ms_round_index := idx, ms_checkpoints := (if ms_keep_in_memory s then AList.update (cp_checkpoint_id c) c (ms_checkpoints s) else ms_checkpoints s)\<rparr>)"
  by (auto simp: untouched_def store_inv_def disk_of_def dict_simps)

lemma load_from_file_holds:
  assumes "store_inv e s" "valid_checkpoint_id i" "load_from_file e s (checkpoint_file i ''.msgpack'') False = (s', r)"
  shows "untouched e s s'" "r = holds e s i"
proof -
  have held: "holds e s i = Option.bind (map_of (disk_of s) (checkpoint_file i ''.msgpack'')) (\<lambda>data. read_checkpoint (st_codec e) data False)"
    using assms(2) by (simp add: contents_def)
  show "untouched e s s'" "r = holds e s i"
    using assms(3) untouched_refl [OF assms(1)] untouched_remember [OF assms(1), of i]
    unfolding load_from_file_def held [symmetric] by (auto split: option.splits)
qed

lemma load_from_disk_holds:
  assumes "store_inv e s" "load_from_disk e s i = (s', r)"
  shows "untouched e s s'" "r = (if valid_checkpoint_id i then ok (holds e s i) else raise (ValueError ''checkpoint_id must match''))"
proof -
  have plain: "ms_dir s \<noteq> None" "\<not> ms_compression s"
    using assms(1) by (simp_all add: store_inv_def)
  have "untouched e s s' \<and> r = (if valid_checkpoint_id i then ok (holds e s i) else raise (ValueError ''checkpoint_id must match''))"
  proof (cases "valid_checkpoint_id i \<and> dict_has (disk_of s) (checkpoint_file i ''.msgpack'')")
    case True
    obtain s1 r1 where load: "load_from_file e s (checkpoint_file i ''.msgpack'') False = (s1, r1)"
      by fastforce
    then have "s' = s1" "r = ok r1"
      using assms(2) True plain by (simp_all add: load_from_disk_def validate_iff)
    then show ?thesis
      using load_from_file_holds [OF assms(1) _ load] True by simp
  next
    case False
    then show ?thesis
      using assms(2) plain untouched_refl [OF assms(1)] by (auto simp: load_from_disk_def validate_iff contents_def split: if_splits)
  qed
  then show "untouched e s s'" "r = (if valid_checkpoint_id i then ok (holds e s i) else raise (ValueError ''checkpoint_id must match''))"
    by auto
qed

lemma load_checkpoint_holds:
  assumes "store_inv e s" "load_checkpoint e s i = (s', r)"
  shows "untouched e s s'" "r = (if valid_checkpoint_id i then ok (holds e s i) else raise (ValueError ''checkpoint_id must match''))"
  using assms load_from_disk_holds [OF assms(1), of i s' r] untouched_refl [OF assms(1)]
  by (auto simp: load_checkpoint_def validate_iff store_inv_def split: if_splits option.splits)

section \<open>Metadata, searches and listings\<close>

lemma untouched_write:
  assumes "store_inv e s" "\<And>i. valid_checkpoint_id i \<Longrightarrow> f \<noteq> checkpoint_file i ''.msgpack''" "write_file e s f data = (s', r)"
  shows "untouched e s s'"
proof -
  obtain d' where wrote: "write_bytes_atomically e (disk_of s) f data = (d', r)" and s': "s' = s\<lparr>ms_dir := Some d'\<rparr>"
    using assms(3) by (auto simp: write_file_def split: prod.splits)
  have "contents (st_codec e) d' = holds e s"
    using written_elsewhere [OF wrote] assms(2) by (intro contents_same) auto
  then show ?thesis
    using assms(1) unfolding untouched_def store_inv_def s' by (simp add: disk_of_def)
qed

lemma meta_is_no_checkpoint: "valid_checkpoint_id i \<Longrightarrow> valid_checkpoint_id j \<Longrightarrow> checkpoint_file i ''.meta.msgpack'' \<noteq> checkpoint_file j ''.msgpack''"
  by (simp add: checkpoint_file_inj)

lemma save_metadata_untouched:
  assumes "store_inv e s"
  shows "untouched e s (fst (save_metadata_to_disk e s c n))"
proof (cases "result_bind (get_metadata_path s (cp_checkpoint_id c)) (\<lambda>f.
            result_bind (serialize_checkpoint_metadata (st_codec e) (checkpoint_to_metadata c n)) (\<lambda>b. ok (f, b)))")
  case (Inl err)
  then show ?thesis using untouched_refl [OF assms] by (simp add: save_metadata_to_disk_def)
next
  case (Inr fb)
  obtain f b where fb: "fb = (f, b)"
    by fastforce
  obtain s' r where wrote: "write_file e s f b = (s', r)"
    by fastforce
  have "f = checkpoint_file (cp_checkpoint_id c) ''.meta.msgpack''" "valid_checkpoint_id (cp_checkpoint_id c)"
    using Inr fb by (auto simp: result_bind_eq_ok get_metadata_path_def path_in_store_def validate_iff split: if_splits)
  then have "untouched e s s'"
    using untouched_write [OF assms _ wrote] meta_is_no_checkpoint by blast
  then show ?thesis using Inr fb wrote by (simp add: save_metadata_to_disk_def)
qed

lemma load_metadata_untouched:
  assumes "store_inv e s" "load_metadata_from_disk e s i = (s', r)"
  shows "untouched e s s'"
proof -
  obtain s1 r1 where load: "load_from_disk e s i = (s1, r1)"
    by fastforce
  have "untouched e s s1"
    using load_from_disk_holds [OF assms(1) load] by blast
  then have "untouched e s (fst (save_metadata_to_disk e s1 c n))" for c n
    using save_metadata_untouched [OF untouched_inv] untouched_trans by blast
  then show ?thesis
    using assms load \<open>untouched e s s1\<close> untouched_refl [OF assms(1)]
    by (auto simp: load_metadata_from_disk_def split: sum.splits option.splits)
qed

lemma search_round_untouched: "store_inv e s \<Longrightarrow> search_round e s r fs = (s', res) \<Longrightarrow> untouched e s s'"
proof (induction e s r fs rule: search_round.induct)
  case (1 e s r)
  then show ?case by (simp add: untouched_refl)
next
  case (2 e s r f fs)
  show ?case
  proof (cases "checkpoint_id_from_path f")
    case (Inl err)
    then show ?thesis using 2 by simp
  next
    case (Inr i)
    obtain s1 r1 where load: "load_from_disk e s i = (s1, r1)"
      by fastforce
    have s1: "untouched e s s1"
      using load_from_disk_holds [OF 2(4) load] by blast
    have index: "untouched e s (s1\<lparr>ms_round_index := idx\<rparr>)" for idx
      by (rule untouched_same [OF s1]) simp_all
    show ?thesis
    proof (cases r1)
      case l: (Inl err)
      then show ?thesis using 2(5) Inr load s1 by simp
    next
      case r: (Inr found)
      then show ?thesis
        using 2(5) Inr load s1 index 2(2) [OF Inr load [symmetric] r] 2(3) [OF Inr load [symmetric] r] untouched_inv [OF s1] untouched_trans [OF s1]
        by (auto split: option.splits if_splits)
    qed
  qed
qed

lemma by_round_untouched:
  assumes "store_inv e s" "get_checkpoint_by_round e s r = (s', res)"
  shows "untouched e s s'"
  using assms untouched_refl [OF assms(1)] load_checkpoint_holds [OF assms(1)] search_round_untouched [OF assms(1)]
  by (auto simp: get_checkpoint_by_round_def split: option.splits list.splits if_splits)

lemma latest_untouched:
  assumes "store_inv e s" "get_latest_checkpoint e s = (s', res)"
  shows "untouched e s s'"
  using assms untouched_refl [OF assms(1)] load_from_disk_holds(1) [OF assms(1)]
  by (auto simp: get_latest_checkpoint_def split: option.splits list.splits if_splits)

lemma disk_metadata_untouched: "store_inv e s \<Longrightarrow> disk_metadata e s seen fs = (s', res) \<Longrightarrow> untouched e s s'"
proof (induction fs arbitrary: s s' res)
  case Nil
  then show ?case by (simp add: untouched_refl)
next
  case (Cons f fs)
  have s1: "untouched e s s1" if "load_metadata_from_disk e s i = (s1, r1)" for i s1 r1
    using load_metadata_untouched [OF Cons.prems(1) that] .
  have "untouched e s s2" if "load_metadata_from_disk e s i = (s1, r1)" "disk_metadata e s1 seen fs = (s2, r2)" for i s1 r1 s2 r2
    using untouched_trans [OF s1 [OF that(1)] Cons.IH [OF untouched_inv [OF s1 [OF that(1)]] that(2)]] .
  then show ?case
    using Cons s1 by (auto simp: Let_def map_prod_def split: sum.splits option.splits if_splits prod.splits)
qed

lemma list_untouched:
  assumes "store_inv e s" "list_checkpoint_metadata e s = (s', res)"
  shows "untouched e s s'"
proof -
  have s1: "untouched e s s1" if "disk_metadata e s seen (find_checkpoint_files e s) = (s1, r1)" for s1 r1 seen
    using disk_metadata_untouched [OF assms(1) that] .
  have "untouched e s (s1\<lparr>ms_metadata_cache := m, ms_cache_dirty := b\<rparr>)"
    if "disk_metadata e s seen (find_checkpoint_files e s) = (s1, r1)" for s1 r1 seen m b
    by (rule untouched_same [OF s1 [OF that]]) simp_all
  then show ?thesis
    using assms(2) s1 untouched_refl [OF assms(1)]
    by (auto simp: list_checkpoint_metadata_def Let_def split: sum.splits option.splits if_splits prod.splits)
qed

lemma size_untouched:
  assumes "store_inv e s" "get_storage_size e s = (s', res)"
  shows "untouched e s s'"
proof -
  obtain s1 r1 where entries: "list_checkpoint_metadata e s = (s1, r1)"
    by fastforce
  have s1: "untouched e s s1"
    by (rule list_untouched [OF assms(1) entries])
  have "untouched e s (s1\<lparr>ms_storage_size_cache := n\<rparr>)" for n
    by (rule untouched_same [OF s1]) simp_all
  then show ?thesis
    using assms(2) entries s1 untouched_refl [OF assms(1)]
    by (auto simp: get_storage_size_def Let_def split: sum.splits option.splits if_splits)
qed

section \<open>Saving and deleting\<close>

text \<open>What an eviction leaves alone.\<close>

definition same_frame :: "model_store \<Rightarrow> model_store \<Rightarrow> bool" where
  "same_frame s s' \<longleftrightarrow> ms_compression s' = ms_compression s \<and> ms_keep_in_memory s' = ms_keep_in_memory s \<and> ms_max_memory s' = ms_max_memory s"

lemma evict_shrinks:
  "ms_dir (evict xs s) = ms_dir s \<and> same_frame s (evict xs s) \<and> map_of (ms_checkpoints (evict xs s)) \<subseteq>\<^sub>m map_of (ms_checkpoints s)"
proof (induction xs arbitrary: s)
  case Nil
  then show ?case by (simp add: evict_def same_frame_def)
next
  case (Cons x xs)
  obtain r i where x: "x = (r, i)"
    by fastforce
  let ?s = "if dict_has (ms_checkpoints s) i
     then s\<lparr>ms_checkpoints := AList.delete i (ms_checkpoints s), ms_round_index := AList.delete r (ms_round_index s)\<rparr> else s"
  have "evict (x # xs) s = evict xs ?s"
    by (simp add: evict_def x)
  moreover have "map_of (ms_checkpoints ?s) \<subseteq>\<^sub>m map_of (ms_checkpoints s)" "ms_dir ?s = ms_dir s" "same_frame s ?s"
    by (auto simp: dict_simps map_le_def same_frame_def)
  ultimately show ?case
    using Cons [of ?s] map_le_trans [of _ "map_of (ms_checkpoints ?s)"] by (simp only: same_frame_def)
qed

lemma enforce_shrinks:
  "ms_dir (enforce_memory_limit s) = ms_dir s" "same_frame s (enforce_memory_limit s)"
  "map_of (ms_checkpoints (enforce_memory_limit s)) \<subseteq>\<^sub>m map_of (ms_checkpoints s)"
  by (simp_all add: enforce_memory_limit_def Let_def evict_shrinks) (simp_all add: same_frame_def)

lemma keep_in_index_frame: "ms_dir (keep_in_index s c) = ms_dir s" "same_frame s (keep_in_index s c)"
  using enforce_shrinks(2) by (auto simp: keep_in_index_def Let_def invalidate_cache_def enforce_shrinks(1) same_frame_def)

lemma keep_in_index_memory:
  "map_of (ms_checkpoints (keep_in_index s c)) i = Some d \<Longrightarrow> ms_keep_in_memory s \<Longrightarrow> ((map_of (ms_checkpoints s))(cp_checkpoint_id c \<mapsto> c)) i = Some d"
  "\<not> ms_keep_in_memory s \<Longrightarrow> ms_checkpoints (keep_in_index s c) = ms_checkpoints s"
proof -
  let ?s = "(invalidate_cache s)\<lparr>ms_round_index := AList.update (cp_round_number c) (cp_checkpoint_id c) (ms_round_index s),
    ms_checkpoints := AList.update (cp_checkpoint_id c) c (ms_checkpoints s)\<rparr>"
  show "map_of (ms_checkpoints (keep_in_index s c)) i = Some d \<Longrightarrow> ms_keep_in_memory s \<Longrightarrow> ((map_of (ms_checkpoints s))(cp_checkpoint_id c \<mapsto> c)) i = Some d"
  proof -
    assume kept: "map_of (ms_checkpoints (keep_in_index s c)) i = Some d" "ms_keep_in_memory s"
    have "keep_in_index s c = enforce_memory_limit ?s"
      using kept(2) by (simp add: keep_in_index_def invalidate_cache_def)
    moreover have "map_of (ms_checkpoints ?s) = (map_of (ms_checkpoints s))(cp_checkpoint_id c \<mapsto> c)"
      by (simp add: dict_simps)
    ultimately show ?thesis
      using enforce_shrinks(3) [of ?s] kept(1) unfolding map_le_def by (metis domI)
  qed
  show "\<not> ms_keep_in_memory s \<Longrightarrow> ms_checkpoints (keep_in_index s c) = ms_checkpoints s"
    by (simp add: keep_in_index_def invalidate_cache_def)
qed

text \<open>A save that succeeds changes the contents under its identifier; one that fails changes nothing.\<close>

lemma write_contents:
  assumes "write_file e s f data = (s', r)"
  shows "s' = s\<lparr>ms_dir := ms_dir s'\<rparr>" "ms_dir s' \<noteq> None" "write_bytes_atomically e (disk_of s) f data = (disk_of s', r)"
  using assms by (auto simp: write_file_def disk_of_def split: prod.splits)

lemma save_metadata_contents:
  assumes "ms_dir s \<noteq> None"
  shows "holds e (fst (save_metadata_to_disk e s c n)) = holds e s"
    "\<exists>d. fst (save_metadata_to_disk e s c n) = s\<lparr>ms_dir := Some d\<rparr>"
proof -
  obtain s' r where result: "save_metadata_to_disk e s c n = (s', r)"
    by fastforce
  have "holds e s' = holds e s \<and> (\<exists>d. s' = s\<lparr>ms_dir := Some d\<rparr>)"
  proof (cases "\<exists>f b. get_metadata_path s (cp_checkpoint_id c) = ok f \<and> write_file e s f b = (s', r)")
    case True
    then obtain f b where f: "get_metadata_path s (cp_checkpoint_id c) = ok f" and wrote: "write_file e s f b = (s', r)"
      by blast
    have "holds e s' = holds e s"
      using written_elsewhere [OF write_contents(3) [OF wrote]] f
      by (intro contents_same) (auto simp: get_metadata_path_def path_in_store_def validate_iff result_bind_eq_ok checkpoint_file_inj split: if_splits)
    then show ?thesis
      using write_contents(1,2) [OF wrote] by (metis option.exhaust)
  next
    case False
    then have "s' = s"
      using result by (auto simp: save_metadata_to_disk_def result_bind_eq_ok split: sum.splits)
    then show ?thesis
      using assms by (auto intro!: exI [of _ "disk_of s"] simp: disk_of_def)
  qed
  then show "holds e (fst (save_metadata_to_disk e s c n)) = holds e s"
    "\<exists>d. fst (save_metadata_to_disk e s c n) = s\<lparr>ms_dir := Some d\<rparr>"
    using result by simp_all
qed

lemma save_to_disk_contents:
  assumes "store_inv e s" "keepable (st_codec e) c" "save_to_disk e s c = (s', r)"
  shows "holds e s' = (case r of Inl _ \<Rightarrow> holds e s | Inr _ \<Rightarrow> (holds e s)(cp_checkpoint_id c \<mapsto> c))" "\<exists>d. s' = s\<lparr>ms_dir := Some d\<rparr>"
proof -
  let ?f = "checkpoint_file (cp_checkpoint_id c) ''.msgpack''"
  have path: "get_checkpoint_path s (cp_checkpoint_id c) = ok ?f" and plain: "\<not> ms_compression s"
    using assms(1) keepable_facts(1) [OF assms(2)] by (simp_all add: get_checkpoint_path_def path_in_store_def validate_iff store_inv_def)
  obtain b where b: "serialize_checkpoint (st_codec e) c False = ok b"
    using assms(2) storable_round_trip by (auto simp: keepable_def)
  obtain s1 w where wrote: "write_file e s ?f b = (s1, w)"
    by fastforce
  have s': "s' = s1" and r: "case w of Inl _ \<Rightarrow> r = raise RuntimeError | Inr _ \<Rightarrow> r = ok (int (length b))"
    using assms(3) path b plain wrote by (auto simp: save_to_disk_def split: sum.splits)
  note elsewhere = written_elsewhere [OF write_contents(3) [OF wrote]]
  show "holds e s' = (case r of Inl _ \<Rightarrow> holds e s | Inr _ \<Rightarrow> (holds e s)(cp_checkpoint_id c \<mapsto> c))"
  proof (cases w)
    case (Inl err)
    then have "holds e s1 = holds e s"
      using elsewhere by (intro contents_same) auto
    then show ?thesis using s' r Inl by simp
  next
    case (Inr u)
    then have "holds e s1 = (holds e s)(cp_checkpoint_id c \<mapsto> c)"
      using elsewhere by (intro contents_written [OF assms(2) b, where tmp = "temp_path e ?f"]) auto
    then show ?thesis using s' r Inr by simp
  qed
  show "\<exists>d. s' = s\<lparr>ms_dir := Some d\<rparr>"
    using write_contents(1,2) [OF wrote] s' by (metis option.exhaust)
qed

lemma keep_on_disk_contents:
  assumes "store_inv e s" "keepable (st_codec e) c" "keep_on_disk e s c = (s', r)"
  shows "holds e s' = (case r of Inl _ \<Rightarrow> holds e s | Inr _ \<Rightarrow> (holds e s)(cp_checkpoint_id c \<mapsto> c))" "\<exists>d. s' = s\<lparr>ms_dir := Some d\<rparr>"
proof -
  obtain s1 r1 where save: "save_to_disk e s c = (s1, r1)"
    by fastforce
  note saved = save_to_disk_contents [OF assms(1,2) save]
  have dir: "ms_dir s1 \<noteq> None"
    using saved(2) by auto
  show "holds e s' = (case r of Inl _ \<Rightarrow> holds e s | Inr _ \<Rightarrow> (holds e s)(cp_checkpoint_id c \<mapsto> c))" "\<exists>d. s' = s\<lparr>ms_dir := Some d\<rparr>"
    using assms(1,3) save saved save_metadata_contents [OF dir, of e c] by (auto simp: keep_on_disk_def store_inv_def split: sum.splits)
qed

lemma save_checkpoint_holds:
  assumes "store_inv e s" "save_checkpoint e s now rn w m p = (s', r)"
    and "\<And>c. new_checkpoint (st_codec e) now rn w m p = ok c \<Longrightarrow> keepable (st_codec e) c"
  shows "store_inv e s'" "holds e s' = (case r of Inl _ \<Rightarrow> holds e s | Inr c \<Rightarrow> (holds e s)(cp_checkpoint_id c \<mapsto> c))"
proof -
  have "store_inv e s' \<and> holds e s' = (case r of Inl _ \<Rightarrow> holds e s | Inr c \<Rightarrow> (holds e s)(cp_checkpoint_id c \<mapsto> c))"
  proof (cases "new_checkpoint (st_codec e) now rn w m p")
    case (Inl err)
    have "(s, raise err) = (s', r)"
      using assms(2) unfolding save_checkpoint_def Inl by simp
    then show ?thesis using assms(1) by auto
  next
    case (Inr c)
    obtain s1 r1 where disk: "keep_on_disk e s c = (s1, r1)"
      by fastforce
    obtain d where s1: "s1 = s\<lparr>ms_dir := Some d\<rparr>"
      using keep_on_disk_contents(2) [OF assms(1,3) disk] Inr by blast
    note held = keep_on_disk_contents(1) [OF assms(1,3) disk, OF Inr]
    show ?thesis
    proof (cases r1)
      case l: (Inl err)
      have "untouched e s s1"
        using assms(1) held l unfolding untouched_def store_inv_def s1 by simp
      moreover have "(s1, raise err) = (s', r)"
        using assms(2) unfolding save_checkpoint_def Inr sum.case disk prod.case l .
      ultimately show ?thesis
        by (auto simp: untouched_def)
    next
      case k: (Inr u)
      have s': "s' = keep_in_index s1 c" and r: "r = ok c"
        using assms(2) Inr disk k by (simp_all add: save_checkpoint_def)
      have dir: "ms_dir s' = Some d" "ms_compression s' = ms_compression s" "ms_keep_in_memory s' = ms_keep_in_memory s"
        using keep_in_index_frame [of s1 c] s1 s' by (simp_all add: same_frame_def)
      have now_held: "holds e s' = (holds e s)(cp_checkpoint_id c \<mapsto> c)"
        using held k dir(1) s1 by (simp add: disk_of_def)
      have old: "holds e s i = Some c'" if "map_of (ms_checkpoints s) i = Some c'" for i c'
        using assms(1) that by (simp add: store_inv_def)
      have mem: "holds e s' i = Some c'" if "map_of (ms_checkpoints s') i = Some c'" for i c'
      proof (cases "ms_keep_in_memory s1")
        case True
        then have "((map_of (ms_checkpoints s))(cp_checkpoint_id c \<mapsto> c)) i = Some c'"
          using keep_in_index_memory(1) [of s1 c i c'] that by (simp add: s' s1)
        then show ?thesis
          using old [of i c'] by (simp add: now_held split: if_splits)
      next
        case False
        then have "ms_checkpoints s' = []"
          using keep_in_index_memory(2) [of s1 c] assms(1) by (simp add: s' s1 store_inv_def)
        then show ?thesis using that by simp
      qed
      have "ms_keep_in_memory s' \<or> ms_checkpoints s' = []"
        using keep_in_index_memory(2) [of s1 c] assms(1) dir(3) by (auto simp: s' s1 store_inv_def)
      moreover have "cp_checkpoint_id c' = i" if "holds e s' i = Some c'" for i c'
        using that assms(1) by (auto simp: now_held store_inv_def split: if_splits)
      ultimately have "store_inv e s'"
        using assms(1) dir mem by (simp add: store_inv_def)
      then show ?thesis
        using now_held r by simp
    qed
  qed
  then show "store_inv e s'" "holds e s' = (case r of Inl _ \<Rightarrow> holds e s | Inr c \<Rightarrow> (holds e s)(cp_checkpoint_id c \<mapsto> c))"
    by simp_all
qed

lemma fold_delete_lookup: "map_of (fold AList.delete fs d) g = (if g \<in> set fs then None else map_of d g)"
  by (induction fs arbitrary: d) (auto simp: dict_simps)

lemma delete_holds:
  assumes "store_inv e s" "delete_checkpoint s i = (s', r)"
  shows "store_inv e s'"
    "if valid_checkpoint_id i then \<exists>found. r = ok found else r = raise (ValueError ''checkpoint_id must match'')"
    "holds e s' = (case r of Inl _ \<Rightarrow> holds e s | Inr _ \<Rightarrow> (holds e s)(i := None))"
proof -
  have "store_inv e s' \<and> (if valid_checkpoint_id i then \<exists>found. r = ok found else r = raise (ValueError ''checkpoint_id must match'')) \<and>
      holds e s' = (case r of Inl _ \<Rightarrow> holds e s | Inr _ \<Rightarrow> (holds e s)(i := None))"
  proof (cases "valid_checkpoint_id i")
    case False
    then show ?thesis
      using assms by (auto simp: delete_checkpoint_def validate_iff)
  next
    case True
    have plain: "ms_dir s \<noteq> None" "\<not> ms_compression s"
      using assms(1) by (simp_all add: store_inv_def)
    have forget: "map_of (ms_checkpoints (forget_in_memory s i)) = (map_of (ms_checkpoints s))(i := None)" "same_frame s (forget_in_memory s i)"
      by (auto simp: forget_in_memory_def same_frame_def dict_simps split: option.splits)
    have "s' = (invalidate_cache (forget_in_memory s i))\<lparr>ms_dir := Some (remove_files (stored_variants (disk_of s) i) (disk_of s))\<rparr>"
      and r: "\<exists>found. r = ok found"
      using assms(2) True plain(1) by (auto simp: delete_checkpoint_def validate_iff Let_def)
    then have s': "disk_of s' = remove_files (stored_variants (disk_of s) i) (disk_of s)" "ms_dir s' \<noteq> None" "ms_compression s' = ms_compression s"
        "ms_keep_in_memory s' = ms_keep_in_memory s" "map_of (ms_checkpoints s') = (map_of (ms_checkpoints s))(i := None)"
      using forget by (simp_all add: invalidate_cache_def disk_of_def same_frame_def)
    have "map_of (disk_of s') (checkpoint_file j ''.msgpack'') = (if j = i then None else map_of (disk_of s) (checkpoint_file j ''.msgpack''))"
      if "valid_checkpoint_id j" for j
      using that True by (auto simp: s'(1) remove_files_def stored_variants_def fold_delete_lookup checkpoint_file_inj)
    then have held: "holds e s' = (holds e s)(i := None)"
      using True by (auto simp: contents_def)
    have "store_inv e s'"
      using assms(1) s' unfolding store_inv_def held by (auto split: if_splits)
    then show ?thesis
      using held r True by auto
  qed
  then show "store_inv e s'"
    "if valid_checkpoint_id i then \<exists>found. r = ok found else r = raise (ValueError ''checkpoint_id must match'')"
    "holds e s' = (case r of Inl _ \<Rightarrow> holds e s | Inr _ \<Rightarrow> (holds e s)(i := None))"
    by blast+
qed

lemma delete_all_holds:
  "store_inv e s \<Longrightarrow> delete_all s ms = (s', r) \<Longrightarrow>
    store_inv e s' \<and> holds e s' = fold (\<lambda>i m. m(i := None)) (takeWhile valid_checkpoint_id (map md_checkpoint_id ms)) (holds e s)"
proof (induction ms arbitrary: s)
  case Nil
  then show ?case by simp
next
  case (Cons m ms)
  obtain s1 r1 where del: "delete_checkpoint s (md_checkpoint_id m) = (s1, r1)"
    by fastforce
  note deleted = delete_holds [OF Cons.prems(1) del]
  show ?case
  proof (cases "valid_checkpoint_id (md_checkpoint_id m)")
    case True
    then show ?thesis
      using Cons.IH [OF deleted(1)] Cons.prems(2) del deleted(2,3) by auto
  next
    case False
    then show ?thesis
      using Cons.prems(2) del deleted by auto
  qed
qed

section \<open>The contract of a recorded map\<close>

text \<open>Steps report the changes they made; what is held is the result of the changes reported.\<close>

locale recorded_map = reactive step inv valid
  for step :: "'s \<Rightarrow> 'op \<Rightarrow> 's \<times> 'change list" and inv :: "'s \<Rightarrow> bool" and valid :: "'op \<Rightarrow> bool" +
  fixes held :: "'s \<Rightarrow> 'content"
    and effect :: "'change \<Rightarrow> 'content \<Rightarrow> 'content"
  assumes step_held: "inv s \<Longrightarrow> valid x \<Longrightarrow> held (fst (step s x)) = fold effect (snd (step s x)) (held s)"
begin

lemma run_held: "inv s \<Longrightarrow> list_all valid xs \<Longrightarrow> held (fst (run step s xs)) = fold effect (snd (run step s xs)) (held s)"
proof (induction xs arbitrary: s)
  case Nil
  then show ?case by simp
next
  case (Cons x xs)
  then have "held (fst (run step (fst (step s x)) xs)) = fold effect (snd (run step (fst (step s x)) xs)) (held (fst (step s x)))"
    using step_inv by simp
  then show ?case
    using Cons.prems step_held by (simp add: case_prod_beta)
qed

end

section \<open>An example\<close>

text \<open>A codec that knows one document, and a directory whose writes succeed.\<close>

definition example_document :: svalue where
  "example_document = SvDict (text_keys [(''round_number'', SvInt 1),
     (''timestamp'', SvDict (text_keys [(''__type__'', SvStr ''datetime''), (''value'', SvStr ''t'')])),
     (''metrics'', SvDict []), (''contributing_peers'', SvList []), (''checkpoint_id'', SvStr ''04''),
     (''weights'', SvList [SvInt 7]), (''checksum'', SvStr ''06'')])"

definition example_codec :: codec_env where
  "example_codec = \<lparr>se_sha = (\<lambda>bs. [sum_list bs]),
     se_pack = (\<lambda>v. case v of SvDict kvs \<Rightarrow> ok [of_nat (length kvs)] | _ \<Rightarrow> raise TypeError),
     se_unpack = (\<lambda>bs. ok example_document), se_np_save = (\<lambda>_. []), se_np_load = (\<lambda>_. raise (ValueError ''no array'')),
     se_zip = id, se_isoformat = (\<lambda>_. ''t''), se_fromisoformat = (\<lambda>_. ok 5), se_date_text = (\<lambda>_. ''t'')\<rparr>"

definition example_store_env :: store_env where
  "example_store_env = \<lparr>st_codec = example_codec, st_random = (\<lambda>_. ''r''), st_fault = (\<lambda>_ _. No_fault), st_listing = id\<rparr>"

definition example_checkpoint :: checkpoint where
  "example_checkpoint = \<lparr>cp_round_number = 1, cp_weights = SvList [SvInt 7], cp_timestamp = SvDate 5, cp_metrics = SvDict [],
     cp_contributing_peers = SvList [], cp_checkpoint_id = ''04'', cp_checksum = SvStr ''06''\<rparr>"

lemma example_new: "new_checkpoint example_codec 5 1 (SvList [SvInt 7]) SvNone SvNone = ok example_checkpoint"
  by code_simp

lemma example_keepable: "keepable example_codec example_checkpoint"
  by code_simp

section \<open>The store as a recorded map\<close>

datatype store_op =
    Save_op int int svalue svalue svalue
  | Load_op string
  | Round_op int
  | Latest_op
  | List_op
  | Size_op
  | Delete_op string
  | Clear_op int
  | Restart_op

datatype store_change = Saved checkpoint | Deleted string

fun change_effect :: "store_change \<Rightarrow> (string \<Rightarrow> checkpoint option) \<Rightarrow> string \<Rightarrow> checkpoint option" where
  "change_effect (Saved c) m = m(cp_checkpoint_id c \<mapsto> c)"
| "change_effect (Deleted i) m = m(i := None)"

text \<open>The identifiers that \<open>clear_old_checkpoints\<close> deletes.\<close>

definition clear_changes :: "store_env \<Rightarrow> model_store \<Rightarrow> int \<Rightarrow> store_change list" where
  "clear_changes e s n =
     (case snd (list_checkpoint_metadata e s) of
        Inl _ \<Rightarrow> []
      | Inr entries \<Rightarrow>
          if int (length entries) \<le> n then []
          else map Deleted (takeWhile valid_checkpoint_id (map md_checkpoint_id (slice_to_minus entries n))))"

fun store_step :: "store_env \<Rightarrow> model_store \<Rightarrow> store_op \<Rightarrow> model_store \<times> store_change list" where
  "store_step e s (Save_op now rn w m p) =
     (case save_checkpoint e s now rn w m p of (s1, r) \<Rightarrow> (s1, case r of Inl _ \<Rightarrow> [] | Inr c \<Rightarrow> [Saved c]))"
| "store_step e s (Load_op i) = (fst (load_checkpoint e s i), [])"
| "store_step e s (Round_op r) = (fst (get_checkpoint_by_round e s r), [])"
| "store_step e s Latest_op = (fst (get_latest_checkpoint e s), [])"
| "store_step e s List_op = (fst (list_checkpoint_metadata e s), [])"
| "store_step e s Size_op = (fst (get_storage_size e s), [])"
| "store_step e s (Delete_op i) =
     (case delete_checkpoint s i of (s1, r) \<Rightarrow> (s1, case r of Inl _ \<Rightarrow> [] | Inr _ \<Rightarrow> [Deleted i]))"
| "store_step e s (Clear_op n) = (fst (clear_old_checkpoints e s n), clear_changes e s n)"
| "store_step e s Restart_op = (restart_store s, [])"

text \<open>The values a caller saves survive serialization.\<close>

fun keepable_op :: "codec_env \<Rightarrow> store_op \<Rightarrow> bool" where
  "keepable_op e (Save_op now rn w m p) = (case new_checkpoint e now rn w m p of Inl _ \<Rightarrow> True | Inr c \<Rightarrow> keepable e c)"
| "keepable_op e _ = True"

lemma fold_deleted: "fold change_effect (map Deleted is) m = fold (\<lambda>i m. m(i := None)) is m"
  by (induction "is" arbitrary: m) simp_all

lemma clear_holds:
  assumes "store_inv e s"
  shows "store_inv e (fst (clear_old_checkpoints e s n))"
    "holds e (fst (clear_old_checkpoints e s n)) = fold change_effect (clear_changes e s n) (holds e s)"
proof -
  obtain s1 r where entries: "list_checkpoint_metadata e s = (s1, r)"
    by fastforce
  have s1: "store_inv e s1" "holds e s1 = holds e s"
    using list_untouched [OF assms entries] by (simp_all add: untouched_def)
  have "store_inv e (fst (delete_all s1 ms)) \<and>
      holds e (fst (delete_all s1 ms)) = fold (\<lambda>i m. m(i := None)) (takeWhile valid_checkpoint_id (map md_checkpoint_id ms)) (holds e s)" for ms
    using delete_all_holds [OF s1(1), of ms] s1(2) by (metis surjective_pairing)
  then show "store_inv e (fst (clear_old_checkpoints e s n))"
    "holds e (fst (clear_old_checkpoints e s n)) = fold change_effect (clear_changes e s n) (holds e s)"
    using s1 by (auto simp: clear_old_checkpoints_def clear_changes_def entries fold_deleted split: sum.splits)
qed

lemma reading_untouched:
  assumes "store_inv e s"
  shows "untouched e s (fst (load_checkpoint e s i))" "untouched e s (fst (get_checkpoint_by_round e s rn))"
    "untouched e s (fst (get_latest_checkpoint e s))" "untouched e s (fst (list_checkpoint_metadata e s))"
    "untouched e s (fst (get_storage_size e s))"
  using load_checkpoint_holds(1) [OF assms surjective_pairing] by_round_untouched [OF assms surjective_pairing]
    latest_untouched [OF assms surjective_pairing] list_untouched [OF assms surjective_pairing] size_untouched [OF assms surjective_pairing]
  by blast+

lemma store_step_holds:
  assumes "store_inv e s" "keepable_op (st_codec e) x"
  shows "store_inv e (fst (store_step e s x)) \<and> holds e (fst (store_step e s x)) = fold change_effect (snd (store_step e s x)) (holds e s)"
proof -
  show ?thesis
  proof (cases x)
    case (Save_op now rn w m p)
    obtain s' r where save: "save_checkpoint e s now rn w m p = (s', r)"
      by fastforce
    have "keepable (st_codec e) c" if "new_checkpoint (st_codec e) now rn w m p = ok c" for c
      using assms(2) Save_op that by simp
    then show ?thesis
      using save_checkpoint_holds [OF assms(1) save] Save_op save by (auto split: sum.splits)
  next
    case (Delete_op i)
    obtain s' r where del: "delete_checkpoint s i = (s', r)"
      by fastforce
    show ?thesis
      using delete_holds [OF assms(1) del] Delete_op del by (auto split: sum.splits)
  next
    case Restart_op
    then show ?thesis
      using assms(1) by (simp add: restart_store_def open_store_def store_inv_def disk_of_def)
  qed (use reading_untouched [OF assms(1)] clear_holds [OF assms(1)] in \<open>auto simp: untouched_def\<close>)
qed

interpretation stored: recorded_map "store_step e" "store_inv e" "keepable_op (st_codec e)" "holds e" change_effect for e
  by unfold_locales (simp_all add: store_step_holds)

lemma empty_store_inv: "store_inv e (open_store (Some []) keep False n)" "holds e (open_store (Some []) keep False n) = Map.empty"
  by (auto simp: store_inv_def open_store_def disk_of_def contents_def)

text \<open>C13: An uncompressed store in a directory that starts empty refines a map from identifiers to checkpoints, provided that every
  checkpoint it is given to save survives serialization unchanged (\<open>keepable\<close>: arrays, lists, numbers, strings and dictionaries with
  string keys do; tuples and numpy scalars come back as something else, and a dictionary with integer keys is written and cannot be read
  back, see \<open>tuple_comes_back_as_list\<close> and \<open>int_keys_unreadable\<close>). Then after any history of saves,
  loads, searches, listings, deletions, clearings and restarts, with any memory limit, with or without a memory, and with writes that fail,
  loading an identifier returns the checkpoint last saved under it and not deleted since.\<close>

theorem store_refines_map:
  assumes "list_all (keepable_op (st_codec e)) ops" "run (store_step e) (open_store (Some []) keep False n) ops = (s, changes)"
  shows "snd (load_checkpoint e s i) =
    (if valid_checkpoint_id i then ok (fold change_effect changes Map.empty i) else raise (ValueError ''checkpoint_id must match''))"
proof -
  have "store_inv e s" "holds e s = fold change_effect changes Map.empty"
    using stored.run_inv [OF empty_store_inv(1) [of e keep n] assms(1)] stored.run_held [OF empty_store_inv(1) [of e keep n] assms(1)] assms(2)
    by (simp_all add: empty_store_inv(2))
  then show ?thesis
    using load_checkpoint_holds(2) [OF _ surjective_pairing] by simp
qed

lemma store_refines_map_witness:
  "snd (load_checkpoint example_store_env
      (fst (run (store_step example_store_env) (open_store (Some []) True False 1) [Save_op 5 1 (SvList [SvInt 7]) SvNone SvNone, Restart_op])) ''04'')
    = ok (Some example_checkpoint)"
proof -
  let ?run = "run (store_step example_store_env) (open_store (Some []) True False 1) [Save_op 5 1 (SvList [SvInt 7]) SvNone SvNone, Restart_op]"
  have ops: "list_all (keepable_op (st_codec example_store_env)) [Save_op 5 1 (SvList [SvInt 7]) SvNone SvNone, Restart_op]"
    using example_new example_keepable by (simp add: example_store_env_def)
  have changes: "?run = (fst ?run, [Saved example_checkpoint])" and valid: "valid_checkpoint_id ''04''"
    by code_simp+
  have "fold change_effect [Saved example_checkpoint] Map.empty ''04'' = Some example_checkpoint"
    by (simp add: example_checkpoint_def)
  then show ?thesis
    using store_refines_map [OF ops changes, of "''04''"] valid by (simp only: if_True)
qed

text \<open>A crash.\<close>

lemma crash_contents:
  assumes "keepable e' c" "serialize_checkpoint e' c False = ok b"
    and "d' \<in> set (crash_disks e d (checkpoint_file (cp_checkpoint_id c) ''.msgpack'') b)"
  shows "contents e' d' i = contents e' d i \<or> i = cp_checkpoint_id c \<and> contents e' d' i = Some c"
  using crashed_elsewhere [OF assms(3), of "checkpoint_file i ''.msgpack''"] keepable_facts [OF assms(1)] assms(2)
  by (auto simp: contents_def checkpoint_file_inj)

text \<open>C14: In an uncompressed store, a process that dies while it writes the file of a checkpoint that survives serialization unchanged
  (\<open>keepable\<close>), at any point of the write, leaves a directory from which a new uncompressed
  store loads every other checkpoint as before, and under the new identifier what was there before or the whole new checkpoint; the
  temporary file is never taken for a checkpoint. The old store is one that a history of operations left (\<open>store_inv\<close>).\<close>

theorem crash_leaves_old_or_new:
  assumes "store_inv e s" "keepable (st_codec e) c" "serialize_checkpoint (st_codec e) c False = ok b"
    and f: "f = checkpoint_file (cp_checkpoint_id c) ''.msgpack''" "d' \<in> set (crash_disks e (disk_of s) f b)"
    and i: "valid_checkpoint_id i" "s' = open_store (Some d') keep False n"
  shows "(snd (load_checkpoint e s' i) = snd (load_checkpoint e s i) \<or>
      i = cp_checkpoint_id c \<and> snd (load_checkpoint e s' i) = ok (Some c)) \<and> temp_path e f \<notin> set (find_checkpoint_files e s')"
proof -
  have now: "holds e s' j = holds e s j \<or> j = cp_checkpoint_id c \<and> holds e s' j = Some c" for j
    using crash_contents [OF assms(2,3) f(2) [unfolded f(1)]] i(2) by (simp add: open_store_def disk_of_def)
  have "cp_checkpoint_id d = j" if "holds e s' j = Some d" for j d
    using now [of j] that assms(1) by (auto simp: store_inv_def)
  then have "store_inv e s'"
    using i(2) by (simp add: store_inv_def open_store_def)
  then show ?thesis
    using load_checkpoint_holds(2) [OF _ surjective_pairing, of e _ i] assms(1) i(1) now [of i] temp_is_not_listed by auto
qed

lemma crash_leaves_old_or_new_witness:
  "snd (load_checkpoint example_store_env (open_store (Some [(''.checkpoint_04.msgpack.r.tmp'', [])]) True False 0) ''04'') = ok None"
proof -
  let ?d = "[(''.checkpoint_04.msgpack.r.tmp'', [])] :: disk" and ?s = "open_store (Some []) True False 0"
  have codec: "st_codec example_store_env = example_codec"
    by (simp add: example_store_env_def)
  have written: "serialize_checkpoint example_codec example_checkpoint False = ok [7]" "valid_checkpoint_id ''04''"
    by code_simp+
  have crash: "?d \<in> set (crash_disks example_store_env (disk_of ?s) (checkpoint_file (cp_checkpoint_id example_checkpoint) ''.msgpack'') [7])"
    by code_simp
  have loads: "snd (load_checkpoint example_store_env ?s ''04'') = ok None"
    "snd (load_checkpoint example_store_env (open_store (Some ?d) True False 0) ''04'') \<noteq> ok (Some example_checkpoint)"
    by code_simp+
  show ?thesis
    using crash_leaves_old_or_new [OF empty_store_inv(1) example_keepable [folded codec] written(1) [folded codec] refl crash written(2) refl, of True 0] loads
    by simp
qed

end
