(* ===== verification/Store_Limits.thy ===== *)
theory Store_Limits
  imports Store_Properties
begin

text \<open>
  Further facts about the checkpoint store: the memory limit of a save, what \<open>clear_old_checkpoints\<close> keeps, and the checkpoints
  a compressing store cannot read back.
\<close>

section \<open>The memory limit\<close>

definition memory_wf :: "model_store \<Rightarrow> bool" where
  "memory_wf s \<longleftrightarrow> dict_wf (ms_checkpoints s) \<and> (\<forall>(i, c) \<in> set (ms_checkpoints s). cp_checkpoint_id c = i)"

lemma memory_wf_update: "memory_wf s \<Longrightarrow> memory_wf (s\<lparr>ms_checkpoints := AList.update (cp_checkpoint_id c) c (ms_checkpoints s)\<rparr>)"
  using set_update_subset [of "cp_checkpoint_id c" c "ms_checkpoints s"] by (auto simp: memory_wf_def dict_simps)

lemma evict_checkpoints: "ms_checkpoints (evict xs s) = filter (\<lambda>p. fst p \<notin> snd ` set xs) (ms_checkpoints s)"
proof (induction xs arbitrary: s)
  case Nil
  then show ?case by (simp add: evict_def)
next
  case (Cons x xs)
  obtain r i where x: "x = (r, i)"
    by fastforce
  let ?s = "if dict_has (ms_checkpoints s) i
     then s\<lparr>ms_checkpoints := AList.delete i (ms_checkpoints s), ms_round_index := AList.delete r (ms_round_index s)\<rparr> else s"
  have "filter (\<lambda>p. fst p \<noteq> i) (ms_checkpoints s) = ms_checkpoints s" if "\<not> dict_has (ms_checkpoints s) i"
    using that by (auto simp: map_of_eq_None_iff filter_id_conv rev_image_eqI)
  then have "ms_checkpoints ?s = filter (\<lambda>p. fst p \<noteq> i) (ms_checkpoints s)"
    by (auto simp: AList.delete_eq case_prod_beta intro!: filter_cong)
  moreover have "evict (x # xs) s = evict xs ?s"
    by (simp add: evict_def x)
  ultimately show ?case
    using Cons [of ?s] by (auto simp: x intro!: filter_cong)
qed

text \<open>Dropping the entries with the least keys.\<close>

lemma drop_least:
  fixes rank :: "'k :: linorder \<times> 'v \<Rightarrow> 'r :: linorder"
  assumes "distinct (map fst pool)" "k \<le> length pool"
    and out: "out = take k (sort (map (\<lambda>p. (rank p, fst p)) pool))"
  shows "length (filter (\<lambda>p. fst p \<notin> snd ` set out) pool) = length pool - k"
    "kept \<in> set pool \<Longrightarrow> fst kept \<notin> snd ` set out \<Longrightarrow> gone \<in> set pool \<Longrightarrow> fst gone \<in> snd ` set out \<Longrightarrow> rank gone \<le> rank kept"
proof -
  let ?key = "\<lambda>p. (rank p, fst p)" and ?heap = "sort (map (\<lambda>p. (rank p, fst p)) pool)"
  have "distinct (map snd (map ?key pool))"
    using assms(1) by (simp add: comp_def)
  then have keys: "distinct (map ?key pool)"
    by (rule distinct_map [THEN iffD1, THEN conjunct1])
  have same: "p = q" if "p \<in> set pool" "q \<in> set pool" "fst p = fst q" for p q
    using assms(1) that by (auto simp: distinct_map inj_on_def)
  have sub: "set out \<subseteq> ?key ` set pool"
    using set_take_subset [of k ?heap] by (simp add: out)
  have mem: "fst p \<in> snd ` set out \<longleftrightarrow> ?key p \<in> set out" if "p \<in> set pool" for p
  proof
    assume "fst p \<in> snd ` set out"
    then obtain x where x: "x \<in> set out" "fst p = snd x"
      by blast
    then obtain q where "q \<in> set pool" "x = ?key q"
      using sub by blast
    then have q: "q \<in> set pool" "?key q \<in> set out" "fst q = fst p"
      using x by simp_all
    then show "?key p \<in> set out"
      using same [OF q(1) that q(3)] by simp
  next
    assume "?key p \<in> set out"
    then show "fst p \<in> snd ` set out"
      by (metis image_eqI snd_conv)
  qed
  have "length (filter (\<lambda>p. fst p \<in> snd ` set out) pool) = length (filter (\<lambda>q. q \<in> set out) (map ?key pool))"
    using mem by (simp add: filter_map comp_def cong: filter_cong)
  also have "\<dots> = card (set out)"
    using sub keys by (subst distinct_card [symmetric]) (auto intro!: arg_cong [where f = card])
  also have "\<dots> = k"
    using keys assms(2) by (simp add: out distinct_card)
  finally show "length (filter (\<lambda>p. fst p \<notin> snd ` set out) pool) = length pool - k"
    using sum_length_filter_compl [of "\<lambda>p. fst p \<in> snd ` set out" pool] by simp
  assume k: "kept \<in> set pool" "fst kept \<notin> snd ` set out" "gone \<in> set pool" "fst gone \<in> snd ` set out"
  have "?key kept \<in> set (drop k ?heap)"
    using k(1,2) mem [OF k(1)] set_append [of "take k ?heap" "drop k ?heap"] by (auto simp: out)
  moreover have "?key gone \<in> set (take k ?heap)"
    using k(3,4) mem [OF k(3)] by (simp add: out)
  moreover have "sorted (take k ?heap @ drop k ?heap)"
    by simp
  ultimately have "?key gone \<le> ?key kept"
    unfolding sorted_append by blast
  then show "rank gone \<le> rank kept"
    by (auto simp: less_eq_prod_def)
qed

text \<open>Enforcing the limit keeps as many checkpoints as it allows, and the newest ones.\<close>

lemma enforce_keeps_newest:
  assumes "memory_wf s" "0 < ms_max_memory s"
  shows "int (length (ms_checkpoints (enforce_memory_limit s))) = min (ms_max_memory s) (int (length (ms_checkpoints s)))"
    "set (ms_checkpoints (enforce_memory_limit s)) \<subseteq> set (ms_checkpoints s)"
    "kept \<in> set (ms_checkpoints (enforce_memory_limit s)) \<Longrightarrow> gone \<in> set (ms_checkpoints s) - set (ms_checkpoints (enforce_memory_limit s))
      \<Longrightarrow> cp_round_number (snd gone) \<le> cp_round_number (snd kept)"
proof -
  let ?pool = "ms_checkpoints s" and ?k = "nat (int (length (ms_checkpoints s)) - ms_max_memory s)"
  let ?out = "take ?k (sort (map (\<lambda>p. (cp_round_number (snd p), fst p)) ?pool))"
  have heap: "map (\<lambda>(_, c). (cp_round_number c, cp_checkpoint_id c)) ?pool = map (\<lambda>p. (cp_round_number (snd p), fst p)) ?pool"
    using assms(1) by (auto simp: memory_wf_def)
  consider (within) "int (length ?pool) \<le> ms_max_memory s"
    | (beyond) "ms_max_memory s < int (length ?pool)"
        "ms_checkpoints (enforce_memory_limit s) = filter (\<lambda>p. fst p \<notin> snd ` set ?out) ?pool"
    using assms(2) heap by (cases "int (length ?pool) \<le> ms_max_memory s") (simp_all add: enforce_memory_limit_def Let_def evict_checkpoints)
  then have "int (length (ms_checkpoints (enforce_memory_limit s))) = min (ms_max_memory s) (int (length ?pool)) \<and>
      set (ms_checkpoints (enforce_memory_limit s)) \<subseteq> set ?pool \<and>
      (kept \<in> set (ms_checkpoints (enforce_memory_limit s)) \<longrightarrow> gone \<in> set ?pool - set (ms_checkpoints (enforce_memory_limit s))
        \<longrightarrow> cp_round_number (snd gone) \<le> cp_round_number (snd kept))"
  proof cases
    case within
    then show ?thesis by (simp add: enforce_memory_limit_def)
  next
    case beyond
    have "dict_wf ?pool" "?k \<le> length ?pool"
      using assms beyond(1) by (auto simp: memory_wf_def)
    from drop_least [OF this refl, where rank = "\<lambda>p. cp_round_number (snd p)"] show ?thesis
      using beyond assms(2) by auto
  qed
  then show "int (length (ms_checkpoints (enforce_memory_limit s))) = min (ms_max_memory s) (int (length (ms_checkpoints s)))"
    "set (ms_checkpoints (enforce_memory_limit s)) \<subseteq> set (ms_checkpoints s)"
    "kept \<in> set (ms_checkpoints (enforce_memory_limit s)) \<Longrightarrow> gone \<in> set (ms_checkpoints s) - set (ms_checkpoints (enforce_memory_limit s))
      \<Longrightarrow> cp_round_number (snd gone) \<le> cp_round_number (snd kept)"
    by blast+
qed

lemma same_but_dir: "(\<exists>d. s' = s\<lparr>ms_dir := d\<rparr>) \<longleftrightarrow> s'\<lparr>ms_dir := None\<rparr> = s\<lparr>ms_dir := None\<rparr>" for s s' :: model_store
  by (cases s; cases s') auto

lemma keep_on_disk_frame: "(fst (keep_on_disk e s c))\<lparr>ms_dir := None\<rparr> = s\<lparr>ms_dir := None\<rparr>"
proof -
  have wrote: "s1\<lparr>ms_dir := None\<rparr> = s\<lparr>ms_dir := None\<rparr>" if "write_file e s f b = (s1, r)" for f b s s1 r
    using that by (auto simp: write_file_def split: prod.splits)
  have meta: "(fst (save_metadata_to_disk e s c n))\<lparr>ms_dir := None\<rparr> = s\<lparr>ms_dir := None\<rparr>" for s n
    using wrote by (auto simp: save_metadata_to_disk_def split: sum.splits) (metis surjective_pairing)
  have "s1\<lparr>ms_dir := None\<rparr> = s\<lparr>ms_dir := None\<rparr>" if "save_to_disk e s c = (s1, r)" for s1 r
    using that wrote by (auto simp: save_to_disk_def split: sum.splits prod.splits)
  then show ?thesis
    using meta by (auto simp: keep_on_disk_def split: prod.splits sum.splits)
qed

text \<open>A save into a store with a memory limit leaves as many checkpoints in memory as the limit allows, and those that leave the memory are
  no newer than those that stay.\<close>

theorem save_respects_memory_limit:
  assumes "memory_wf s" "ms_keep_in_memory s" "0 < ms_max_memory s" "save_checkpoint e s now rn w m p = (s', ok c)"
    and pool: "pool = AList.update (cp_checkpoint_id c) c (ms_checkpoints s)"
  shows "int (length (ms_checkpoints s')) = min (ms_max_memory s) (int (length pool)) \<and> set (ms_checkpoints s') \<subseteq> set pool \<and>
    (\<forall>kept \<in> set (ms_checkpoints s'). \<forall>gone \<in> set pool - set (ms_checkpoints s'). cp_round_number (snd gone) \<le> cp_round_number (snd kept))"
proof -
  obtain s1 where disk: "keep_on_disk e s c = (s1, ok ())" and s': "s' = keep_in_index s1 c"
    using assms(4) by (auto simp: save_checkpoint_def split: sum.splits prod.splits)
  obtain d where s1: "s1 = s\<lparr>ms_dir := d\<rparr>"
    using keep_on_disk_frame [of e s c] disk same_but_dir [of s1 s] by auto
  let ?s = "(invalidate_cache s1)\<lparr>ms_round_index := AList.update (cp_round_number c) (cp_checkpoint_id c) (ms_round_index s1), ms_checkpoints := pool\<rparr>"
  have "s' = enforce_memory_limit ?s"
    using assms(2) by (simp add: s' s1 keep_in_index_def invalidate_cache_def pool)
  moreover have "memory_wf ?s" "ms_max_memory ?s = ms_max_memory s" "ms_checkpoints ?s = pool"
    using memory_wf_update [OF assms(1), of c] by (simp_all add: memory_wf_def s1 invalidate_cache_def pool)
  ultimately show ?thesis
    using enforce_keeps_newest [of ?s] assms(3) by simp
qed

lemma save_respects_memory_limit_witness:
  "length (ms_checkpoints (fst (save_checkpoint example_store_env
      ((open_store None True False 1)\<lparr>ms_checkpoints := [(''old'', example_checkpoint\<lparr>cp_checkpoint_id := ''old'', cp_round_number := 0\<rparr>)]\<rparr>)
      5 1 (SvList [SvInt 7]) SvNone SvNone))) = 1"
proof -
  let ?s = "(open_store None True False 1)\<lparr>ms_checkpoints := [(''old'', example_checkpoint\<lparr>cp_checkpoint_id := ''old'', cp_round_number := 0\<rparr>)]\<rparr>"
  have "memory_wf ?s" "ms_keep_in_memory ?s" "0 < ms_max_memory ?s"
    by (simp_all add: memory_wf_def open_store_def)
  moreover have "save_checkpoint example_store_env ?s 5 1 (SvList [SvInt 7]) SvNone SvNone
      = (fst (save_checkpoint example_store_env ?s 5 1 (SvList [SvInt 7]) SvNone SvNone), ok example_checkpoint)"
    using example_new by (simp add: save_checkpoint_def example_store_env_def keep_on_disk_def open_store_def)
  ultimately show ?thesis
    using save_respects_memory_limit [OF _ _ _ _ refl, of ?s example_store_env 5 1 "SvList [SvInt 7]" SvNone SvNone _ example_checkpoint]
    by (simp add: open_store_def example_checkpoint_def)
qed

section \<open>Clearing\<close>

lemma sorted_filter_tail:
  assumes "distinct (map f xs)"
  shows "filter (\<lambda>x. f x \<notin> f ` set (take k xs)) xs = drop k xs"
proof -
  have "f ` set (take k xs) \<inter> f ` set (drop k xs) = {}"
    using assms by (metis append_take_drop_id distinct_append map_append set_map)
  then have "filter (\<lambda>x. f x \<notin> f ` set (take k xs)) (take k xs @ drop k xs) = drop k xs"
    by (auto simp del: append_take_drop_id simp: filter_empty_conv filter_id_conv)
  then show ?thesis by simp
qed

lemma memory_listing:
  "ms_dir s = None \<Longrightarrow> ms_keep_in_memory s \<Longrightarrow> ms_cache_dirty s \<Longrightarrow>
    list_checkpoint_metadata e s =
      (s\<lparr>ms_metadata_cache := Some (sort_key md_round_number (map (\<lambda>(_, c). checkpoint_to_metadata c 0) (ms_checkpoints s))), ms_cache_dirty := False\<rparr>,
       ok (sort_key md_round_number (map (\<lambda>(_, c). checkpoint_to_metadata c 0) (ms_checkpoints s))))"
proof -
  have "result_map (\<lambda>(_, c). ok (checkpoint_to_metadata c 0)) ps = ok (map (\<lambda>(_, c). checkpoint_to_metadata c 0) ps)"
    for ps :: "(string \<times> checkpoint) list"
    by (induction ps) auto
  then show "ms_dir s = None \<Longrightarrow> ms_keep_in_memory s \<Longrightarrow> ms_cache_dirty s \<Longrightarrow> ?thesis"
    by (simp add: list_checkpoint_metadata_def memory_metadata_def find_checkpoint_files_def Let_def case_prod_beta)
qed

lemma memory_delete_all:
  "ms_dir s = None \<Longrightarrow> \<forall>m \<in> set ms. valid_checkpoint_id (md_checkpoint_id m) \<Longrightarrow> ms \<noteq> [] \<Longrightarrow>
    ms_dir (fst (delete_all s ms)) = None \<and> ms_keep_in_memory (fst (delete_all s ms)) = ms_keep_in_memory s \<and> ms_cache_dirty (fst (delete_all s ms)) \<and>
    ms_checkpoints (fst (delete_all s ms)) = filter (\<lambda>p. fst p \<notin> md_checkpoint_id ` set ms) (ms_checkpoints s)"
proof (induction ms arbitrary: s)
  case Nil
  then show ?case by simp
next
  case (Cons m ms)
  let ?i = "md_checkpoint_id m" and ?s = "fst (delete_checkpoint s (md_checkpoint_id m))"
  have all: "delete_all s (m # ms) = delete_all ?s ms"
    using Cons.prems by (simp add: delete_checkpoint_def validate_iff Let_def)
  have "filter (\<lambda>p. fst p \<noteq> ?i) (ms_checkpoints s) = ms_checkpoints s" if "map_of (ms_checkpoints s) ?i = None"
    using that by (auto simp: map_of_eq_None_iff filter_id_conv rev_image_eqI)
  then have "ms_checkpoints (forget_in_memory s ?i) = filter (\<lambda>p. fst p \<noteq> ?i) (ms_checkpoints s)"
    by (auto simp: forget_in_memory_def AList.delete_eq case_prod_beta split: option.splits intro!: filter_cong)
  moreover have "ms_dir (forget_in_memory s ?i) = ms_dir s" "ms_keep_in_memory (forget_in_memory s ?i) = ms_keep_in_memory s"
    by (auto simp: forget_in_memory_def split: option.splits)
  ultimately have s1: "ms_dir ?s = None" "ms_keep_in_memory ?s = ms_keep_in_memory s" "ms_cache_dirty ?s"
      "ms_checkpoints ?s = filter (\<lambda>p. fst p \<noteq> ?i) (ms_checkpoints s)"
    using Cons.prems by (simp_all add: delete_checkpoint_def validate_iff Let_def invalidate_cache_def)
  show ?case
  proof (cases "ms = []")
    case True
    then show ?thesis unfolding all using s1 by simp
  next
    case False
    then show ?thesis
      unfolding all using Cons.IH [OF s1(1)] Cons.prems s1 by (auto intro!: filter_cong)
  qed
qed

text \<open>Clearing a store that lives in memory keeps the newest checkpoints: what is listed afterwards is the tail of the listing before, as long
  as the number asked for.\<close>

theorem clear_keeps_newest:
  assumes s: "ms_dir s = None" "ms_keep_in_memory s" "ms_cache_dirty s" "memory_wf s"
    and valid: "\<forall>p \<in> set (ms_checkpoints s). valid_checkpoint_id (fst p)" and "0 < n"
    and before: "snd (list_checkpoint_metadata e s) = ok entries"
  shows "snd (list_checkpoint_metadata e (fst (clear_old_checkpoints e s n))) = ok (drop (length entries - nat n) entries)"
proof -
  let ?k = "length entries - nat n"
  let ?meta = "\<lambda>p. checkpoint_to_metadata (snd p) 0"
  obtain s1 where list: "list_checkpoint_metadata e s = (s1, ok entries)" and entries: "entries = sort_key md_round_number (map ?meta (ms_checkpoints s))"
    and s1: "s1 = s\<lparr>ms_metadata_cache := Some entries, ms_cache_dirty := False\<rparr>"
    using before memory_listing [OF s(1-3), of e] by (simp add: case_prod_unfold)
  have ids: "md_checkpoint_id (?meta p) = fst p" if "p \<in> set (ms_checkpoints s)" for p
    using s(4) that by (auto simp: memory_wf_def checkpoint_to_metadata_def)
  have "map md_checkpoint_id (map ?meta (ms_checkpoints s)) = map fst (ms_checkpoints s)"
    using ids by simp
  then have "distinct (map md_checkpoint_id (map ?meta (ms_checkpoints s)))"
    using s(4) by (simp only: memory_wf_def)
  then have "distinct (map md_checkpoint_id entries)"
    unfolding entries distinct_map [of md_checkpoint_id] by simp
  note tail = sorted_filter_tail [OF this]
  show ?thesis
  proof (cases "length entries \<le> nat n")
    case True
    then have "int (length entries) \<le> n"
      using \<open>0 < n\<close> by linarith
    then have "fst (clear_old_checkpoints e s n) = s1"
      by (simp add: clear_old_checkpoints_def list)
    moreover have "list_checkpoint_metadata e s1 = (s1, ok entries)"
      by (simp add: s1 list_checkpoint_metadata_def)
    ultimately show ?thesis
      using True by simp
  next
    case False
    let ?gone = "take ?k entries" and ?s = "fst (delete_all s1 (take ?k entries))"
    have cleared: "fst (clear_old_checkpoints e s n) = ?s"
      using False \<open>0 < n\<close> by (simp add: clear_old_checkpoints_def list slice_to_minus_def)
    have ok_ids: "\<forall>m \<in> set ?gone. valid_checkpoint_id (md_checkpoint_id m)"
      using valid ids by (fastforce simp: entries dest!: in_set_takeD)
    have gone: "?gone \<noteq> []"
      using False \<open>0 < n\<close> by auto
    have after: "ms_dir ?s = None" "ms_keep_in_memory ?s" "ms_cache_dirty ?s"
        "ms_checkpoints ?s = filter (\<lambda>p. fst p \<notin> md_checkpoint_id ` set ?gone) (ms_checkpoints s)"
      using memory_delete_all [of s1, OF _ ok_ids gone] s(1,2) by (simp_all add: s1)
    have "map ?meta (ms_checkpoints ?s) = filter (\<lambda>m. md_checkpoint_id m \<notin> md_checkpoint_id ` set ?gone) (map ?meta (ms_checkpoints s))"
      using ids by (auto simp: after(4) filter_map comp_def intro!: arg_cong [where f = "map _"] filter_cong)
    then have "sort_key md_round_number (map ?meta (ms_checkpoints ?s)) = filter (\<lambda>m. md_checkpoint_id m \<notin> md_checkpoint_id ` set ?gone) entries"
      by (simp only: entries filter_sort)
    then show ?thesis
      using memory_listing [OF after(1-3), of e] tail [of ?k] by (simp add: cleared case_prod_unfold)
  qed
qed

lemma clear_keeps_newest_witness:
  "snd (list_checkpoint_metadata example_store_env (fst (clear_old_checkpoints example_store_env
      ((open_store None True False 0)\<lparr>ms_checkpoints := [(''b'', example_checkpoint\<lparr>cp_checkpoint_id := ''b'', cp_round_number := 2\<rparr>), (''04'', example_checkpoint)]\<rparr>) 1)))
    = ok [checkpoint_to_metadata (example_checkpoint\<lparr>cp_checkpoint_id := ''b'', cp_round_number := 2\<rparr>) 0]"
proof -
  let ?s = "(open_store None True False 0)\<lparr>ms_checkpoints := [(''b'', example_checkpoint\<lparr>cp_checkpoint_id := ''b'', cp_round_number := 2\<rparr>), (''04'', example_checkpoint)]\<rparr>"
  have "ms_dir ?s = None" "ms_keep_in_memory ?s" "ms_cache_dirty ?s" "memory_wf ?s"
    by (simp_all add: memory_wf_def open_store_def example_checkpoint_def)
  moreover have "\<forall>p \<in> set (ms_checkpoints ?s). valid_checkpoint_id (fst p)"
    by code_simp
  moreover have "snd (list_checkpoint_metadata example_store_env ?s) = ok [checkpoint_to_metadata example_checkpoint 0,
      checkpoint_to_metadata (example_checkpoint\<lparr>cp_checkpoint_id := ''b'', cp_round_number := 2\<rparr>) 0]"
    by code_simp
  ultimately show ?thesis
    using clear_keeps_newest [of ?s 1 example_store_env] by simp
qed

section \<open>What the store does not do\<close>

text \<open>A compressing store never reads back what it wrote: after a restart a checkpoint that was saved is not found.\<close>

theorem compressed_checkpoint_lost:
  assumes "ms_compression s" "ms_dir s \<noteq> None" "save_checkpoint e s now rn w m p = (s', ok c)"
  shows "snd (load_checkpoint e (restart_store s') (cp_checkpoint_id c)) = ok None"
proof -
  let ?f = "checkpoint_file (cp_checkpoint_id c) ''.msgpack.gz''"
  obtain s1 where disk: "keep_on_disk e s c = (s1, ok ())" and s': "s' = keep_in_index s1 c"
    using assms(3) by (auto simp: save_checkpoint_def split: sum.splits prod.splits)
  obtain s0 n where save: "save_to_disk e s c = (s0, ok n)" and s1: "s1 = fst (save_metadata_to_disk e s0 c n)"
    using disk assms(2) by (auto simp: keep_on_disk_def split: sum.splits prod.splits)
  obtain b where wrote: "write_file e s ?f b = (s0, ok ())" and valid: "valid_checkpoint_id (cp_checkpoint_id c)"
    using save assms(1,2) by (auto simp: save_to_disk_def get_checkpoint_path_def path_in_store_def validate_iff split: sum.splits prod.splits if_splits)
  have file0: "map_of (disk_of s0) ?f = Some b" "ms_dir s0 \<noteq> None"
    using written_elsewhere [OF write_contents(3) [OF wrote], of ?f] write_contents(2) [OF wrote] by simp_all
  have "map_of (disk_of s1) ?f = Some b"
  proof (cases "\<exists>g d r. checkpoint_file (cp_checkpoint_id c) ''.meta.msgpack'' = g \<and> write_file e s0 g d = (s1, r)")
    case True
    then obtain d r where meta: "write_file e s0 (checkpoint_file (cp_checkpoint_id c) ''.meta.msgpack'') d = (s1, r)"
      by blast
    show ?thesis
      using written_elsewhere [OF write_contents(3) [OF meta], of ?f] file0 valid by (simp add: checkpoint_file_inj)
  next
    case False
    then have "s1 = s0"
      by (auto simp: s1 save_metadata_to_disk_def get_metadata_path_def path_in_store_def validate_iff result_bind_eq_ok
          split: sum.splits if_splits) (metis surjective_pairing)
    then show ?thesis using file0 by simp
  qed
  moreover have "ms_compression s1"
    using keep_on_disk_frame [of e s c] disk assms(1) same_but_dir [of s1 s] by auto
  moreover have "ms_dir s1 \<noteq> None"
    using calculation(1) by (cases "ms_dir s1") (simp_all add: disk_of_def)
  ultimately show ?thesis
    using keep_in_index_frame [of s1 c] valid
    by (simp add: s' load_checkpoint_def load_from_disk_def load_from_file_def restart_store_def open_store_def disk_of_def validate_iff
        same_frame_def read_checkpoint_def compressed_unreadable)
qed

lemma compressed_checkpoint_lost_witness:
  "snd (load_checkpoint example_store_env (restart_store (fst (save_checkpoint example_store_env (open_store (Some []) True True 0)
      5 1 (SvList [SvInt 7]) SvNone SvNone))) ''04'') = ok None"
proof -
  let ?s = "open_store (Some []) True True 0"
  have "ms_compression ?s" "ms_dir ?s \<noteq> None"
    by (simp_all add: open_store_def)
  moreover have "save_checkpoint example_store_env ?s 5 1 (SvList [SvInt 7]) SvNone SvNone
      = (fst (save_checkpoint example_store_env ?s 5 1 (SvList [SvInt 7]) SvNone SvNone), ok example_checkpoint)"
    by code_simp
  ultimately show ?thesis
    using compressed_checkpoint_lost [of ?s example_store_env 5 1 "SvList [SvInt 7]" SvNone SvNone _ example_checkpoint]
    by (simp add: example_checkpoint_def)
qed

text \<open>\<open>clear_old_checkpoints(keep_last_n=0)\<close> deletes nothing; a checksum that does not match does not stop a load; without a directory and
  without a memory the latest checkpoint cannot be asked for.\<close>

lemma clear_zero_deletes_nothing: "fst (clear_old_checkpoints e s 0) = fst (list_checkpoint_metadata e s)"
  by (simp add: clear_old_checkpoints_def slice_to_minus_def split: prod.splits sum.splits)

lemma checksum_mismatch_loads:
  "deserialize_checkpoint e b False = ok c \<Longrightarrow> verify_checksum e c = ok False \<Longrightarrow> read_checkpoint e b False = Some c"
  by (simp add: read_checkpoint_def)

lemma latest_without_storage_raises:
  assumes "save_checkpoint e (open_store None False compression n) now rn w m p = (s', ok c)" "valid_checkpoint_id (cp_checkpoint_id c)"
  shows "snd (get_latest_checkpoint e s') = raise TypeError"
proof -
  have "s' = (open_store None False compression n)\<lparr>ms_round_index := [(cp_round_number c, cp_checkpoint_id c)]\<rparr>"
    using assms(1) by (auto simp: save_checkpoint_def keep_on_disk_def keep_in_index_def open_store_def invalidate_cache_def Let_def split: sum.splits)
  moreover obtain ch i where "cp_checkpoint_id c = ch # i"
    using assms(2) by (cases "cp_checkpoint_id c") (auto simp: valid_checkpoint_id_def)
  ultimately show ?thesis
    using assms(2) by (simp add: get_latest_checkpoint_def load_from_disk_def validate_iff open_store_def)
qed

end
