(* ===== verification/Spec2Isabelle.thy ===== *)
theory Spec2Isabelle
  imports Transfer_End_To_End Manifest_Exchange Tofu Manifest_Loader Compression_Pipeline Affinity_Topology Spectral Entropy_Scaffold Convergence Store_Limits
begin

text \<open>
  A verification library for QuinkGL, a peer-to-peer framework for gossip learning
  (\<open>src/src/quinkgl\<close>). Nodes train a model locally, discover peers over an IPv8 overlay, exchange model
  weights in signed and acknowledged chunks, average what they receive with their own model, and keep a
  partial view of the network by exchanging neighbour lists.

  \<^bold>\<open>Layers.\<close>
  \<^item> \<open>Quink_Prelude\<close>: Python values (bytes, strings as UTF-8 octets, insertion-ordered dictionaries,
    exceptions as values), big-endian and native integers, hexadecimal and decimal text, and the two
    generic contracts: \<open>reactive\<close> (a step function with an invariant) and \<open>codec\<close> (a decoder that inverts
    an encoder).
  \<^item> \<open>Numpy_Types\<close>: numbers of numpy arrays, and the conversion \<open>astype\<close> to floating, integer and boolean dtypes with its
    rounding, cutting and overflow: it is monotone, keeps what lies between two values of the dtype between them, and picks
    a nearest value.
  \<^item> \<open>Wire\<close>: the ten payload classes of \<open>network/gossip_community.py\<close> with their format lists. The serializer of IPv8 is a
    parameter, of which only what it packs and reads back is required (\<open>reads_back\<close>); the \<open>codec\<close> contract is interpreted
    for each class, and a concrete serializer with the ranges and length limits of the formats shows that the requirement can be met.
  \<^item> \<open>Chunk_Codec\<close>: community identifiers, the signed data of a chunk, acknowledgement ranges.
  \<^item> \<open>Reassembly\<close>: \<open>ChunkBuffer\<close>, and the contract \<open>reassembler\<close> (order and multiplicity of arrivals do not
    matter), interpreted for it and for the manifest assembler.
  \<^item> \<open>Rate_Limits\<close>: token buckets and sliding windows, one contract each, interpreted for the NACK buckets,
    the manifest rate limiter and the directory's publication quota.
  \<^item> \<open>Community_State\<close>, \<open>Community_Handlers\<close>, \<open>Chunk_Receiver\<close>, \<open>Chunk_Sender\<close>: the state of
    \<open>GossipLearningCommunity\<close> as a record and every message handler and periodic task as a function from
    the state to the new state and the effects (messages sent, callbacks, events, exceptions). What a
    handler reads from outside (clock, keys, current round, whether a model deserializes, whether a callback
    raises) is in the record \<open>env\<close>.
  \<^item> \<open>Receiver_Safety\<close>, \<open>Receiver_Delivery\<close>: the receiver's invariant, delivery of a transfer exactly once from any
    order of arrivals, isolation between transfers, and the chunk that is refused and remembered.
  \<^item> \<open>Sender_Safety\<close>, \<open>Sender_Contract\<close>: the send loop as a coroutine that can be suspended at each of its
    awaits, interleaved with acknowledgements and NACKs (\<open>transfer_step\<close>, \<open>transfer_reach\<close>): it
    answers \<open>True\<close> only when every chunk is acknowledged, it ends, it keeps to its window, and the handlers
    of the community refine its steps.
  \<^item> \<open>Community_Machine\<close>: any sequence of messages, timer ticks, sends and registrations of callbacks at one community, in
    which a callback for a model update may be suspended while other events happen: the caps on buffers, replay protection
    with what it does not cover (copies that overlap, chunked models), and its persistence.
  \<^item> \<open>Transfer_End_To_End\<close>: sender and receiver composed: what one community sends, another one with the same
    schema reassembles and delivers; acknowledgements and missing-chunk reports arrive as they were meant.
  \<^item> \<open>Manifest_Exchange\<close> (\<open>network/manifest_exchange.py\<close>), \<open>Tofu\<close> (\<open>network/tofu.py\<close>), \<open>Json\<close> and \<open>Directory\<close>
    (\<open>network/directory.py\<close>): manifests fetched by hash, creator keys trusted on first use, signed
    advertisements with cache (checked or not as the caller asks), quotas and query.
  \<^item> \<open>Consensus\<close> (\<open>gossip/consensus.py\<close>): checkpoint ballots and what a declared consensus means.
  \<^item> \<open>Peer_Sampler\<close>, \<open>Cyclon\<close> (\<open>topology/sampler.py\<close>, \<open>topology/cyclon.py\<close>): the partial view and its exchange.
  \<^item> \<open>Aggregation\<close> (\<open>aggregation/base.py\<close>, \<open>fedavg.py\<close>, \<open>staleness_fedavg.py\<close>), \<open>Robust_Aggregation\<close>
    (\<open>trimmed_mean.py\<close>, \<open>krum.py\<close>): validation of model updates and the strategies that combine them. The contract
    \<open>aggregation_strategy\<close> (what fails the validation is not aggregated) is interpreted for each of them; the averages are
    the weighted mean converted to the dtype of the input and stay within the inputs, the trimmed mean stays within the range of
    the honest inputs, Krum stays near an honest one.
  \<^item> \<open>Gossip_Protocol\<close>, \<open>Model_Aggregator\<close> (\<open>gossip/protocol.py\<close>, \<open>gossip/aggregator.py\<close>): the messages of the learning
    layer, the queue of pending updates under any interleaving, failure and cancellation (\<open>agg_step\<close>), and the loop \<open>run_continuous\<close> over the rounds an
    environment allows. The lemmas about a poisoned queue are proved once in the strategy contract and reach the
    strategies through its interpretations.
  \<^item> \<open>Momentum_Strategies\<close> (\<open>fedavgm.py\<close>, \<open>fedprox.py\<close>), \<open>Entropy_Scaffold\<close> (\<open>entropy_weighted.py\<close>, \<open>scaffold.py\<close>): the strategies
    with a state of their own, as functions from it to the new one and the result, under the same contract. FedAvgM converges
    to a steady average, the legacy FedProx is an interpolation, the SCAFFOLD correction is the drift of the mean
    variate, and entropy weights give a mean within the inputs.
  \<^item> \<open>Topology_Selection\<close> (\<open>topology/base.py\<close>, \<open>topology/random.py\<close>): which peers are compatible, the random topology and its
    cache, and the contract \<open>topology_strategy\<close> with the fanout of the loop, which \<open>total_topology\<close> (never raises) and
    \<open>compatible_topology\<close> (selects among compatible peers) extend; every topology interprets one of them.
  \<^item> \<open>Fingerprint\<close> (\<open>fingerprint/fingerprint.py\<close>): calibrated noise and the affinity of two data summaries.
  \<^item> \<open>Graph_Topologies\<close> (\<open>topology/graph.py\<close>): ring, random regular, small world, reliability, hybrid; the contract \<open>cyclic_forwarding\<close>
    carries the dissemination of a model over a ring of nodes. \<open>Affinity_Topology\<close> (\<open>topology/affinity.py\<close>): the history of
    edges under any sequence of selections and results. \<open>Spectral\<close> (\<open>topology/spectral.py\<close>): the mixing matrix, with the
    contract \<open>mixing\<close> (symmetric, rows sum to one) from which gossip averaging keeps sum and range.
  \<^item> \<open>Python_Values\<close>, \<open>Canonical_Json\<close>: the values a parsed document holds and their canonical text. \<open>Manifest_Policy\<close>,
    \<open>Manifest_Schema\<close> (\<open>manifest/schema.py\<close>): the policies and the manifest with every validation, conversion and hash;
    \<open>Manifest_Properties\<close>: what a strict load guarantees, against an independent description of the types, its round trip, and
    what the hash binds. \<open>Magnet\<close> (\<open>manifest/magnet.py\<close>) and \<open>Manifest_Loader\<close> (\<open>loader.py\<close>, \<open>signing.py\<close>,
    \<open>strategy_factory.py\<close>): links, the three sources with the integrity gate, signatures.
  \<^item> \<open>Quantization\<close> (\<open>serialization/quantization.py\<close>), \<open>Weight_Compression\<close> (\<open>sparsification.py\<close>, \<open>error_feedback.py\<close>,
    \<open>compression.py\<close>): the steps of the compression of weights; \<open>Compression_Properties\<close>, \<open>Compression_Pipeline\<close>: what each
    step loses and what the whole pipeline and its residual keep.
  \<^item> \<open>Convergence\<close> (\<open>training/convergence.py\<close>): the monitor that stops the loop early.
  \<^item> \<open>Checkpoint_Codec\<close>, \<open>Model_Store\<close> (\<open>storage/model_store.py\<close>): checkpoints with their serialized form and checksum, and the store
    over a directory of files with a memory, an index of rounds and caches. \<open>Store_Properties\<close>: the contract \<open>recorded_map\<close> (what is
    held is the result of the changes reported) and with it that a store in a directory refines a map through every operation,
    failed write and restart, and that a crash leaves the old or the new file. \<open>Store_Limits\<close>: the memory limit, what clearing
    keeps, and the checkpoints a compressing store loses.
  \<^item> \<open>Example_Config\<close>: the concrete peers, keys and communities the witnesses run on.

  \<^bold>\<open>Conventions.\<close> Names follow the source; a field is prefixed by its class (\<open>cb_\<close> for \<open>ChunkBuffer\<close>, \<open>cm_\<close>
  for the community). IPv8, msgpack, zlib, SHA-1, SHA-256, the key operations, Ed25519 and the random module are
  parameters; where a theorem needs a law of them (a signature verifies under its key, a digest
  has 32 octets, a sample has distinct positions) it is a hypothesis, met in the witness by a concrete function.
  Losses, accuracies and time stamps that are only passed on are 64-bit patterns; clock readings, tokens, scores, weights of
  edges and the losses the consensus computes with are reals; numbers in a manifest are rationals with their decimal text.
  Array elements are reals, infinities or NaN (in \<open>Quantization\<close> and the theories over it reals). What the strategies and
  the compression compute is exact, standing for \<open>float64\<close>, until the code converts to a dtype: every \<open>astype\<close> of the source
  is the conversion of \<open>Numpy_Types\<close>, and the statements say what it does to the result. Deltas are the exception: each
  operation on them is rounded to \<open>float64\<close>. No fuel is used: loops are structural recursions or have a
  termination proof, and the send loop is a step function whose termination is a theorem.

  \<^bold>\<open>Atomicity.\<close> A handler without an await is one step. \<open>on_model_update\<close> is split at the await of its callback
  (\<open>begin_model_update\<close>, \<open>finish_model_update\<close>), the send loop and the Cyclon exchange at their waits, the aggregation
  between draining the queue and writing the result. \<open>on_request_chunks\<close>, the delivery of a chunked model and the periodic
  tasks are modelled as one step although they await a callback or a short sleep.

  \<^bold>\<open>Not modelled.\<close> The event texts leave out the message of a caught exception. \<open>on_prototype_exchange\<close> only forwards
  to the training package. \<open>broadcast_model_update\<close> is a loop over \<open>send_model_update\<close>. The conversion between an
  advertisement and its payload needs a JSON parser. Of \<open>aggregation\<close>, the persistence of the strategies and the fallbacks for
  weights of other types; of \<open>gossip/aggregator.py\<close>, events, hooks and metrics (training,
  target selection and sending are inputs of a round; a cancellation can come between the halves of an aggregation); of \<open>manifest\<close>, the architecture hash and the generation of keys; of
  \<open>serialization\<close>, the encoding of tensors and the persistence of residuals; the computation of fingerprints from
  datasets; sockets, databases, telemetry, the command line and the templates.
\<close>

end
